(* ===== verification/Prelude.thy ===== *)
theory Prelude
  imports Main "HOL-Library.Word"
begin

unbundle bit_operations_syntax

text \<open>
  Shared vocabulary of the development: bytes and byte strings, the big-endian
  integer fields every wire and file format of the program uses, C string
  helpers, and the two interfaces several components provide.

  \<^item> \<open>fixed_codec\<close>: a writer together with a reader that returns the
    rest of the input; the law is the round trip, and the client lemma lifts it
    to a counted sequence of records (the loops of \<^verbatim>\<open>session_store.c\<close>).
  \<^item> \<open>drop_oldest\<close>: a bounded store that evicts its oldest entry when
    full (the skipped-key ring, the sent-message ring, the offline queue); the
    client lemmas say what a run of additions leaves in it.
\<close>

section \<open>Bytes and big-endian fields\<close>

type_synonym byte = "8 word"
type_synonym bytes = "byte list"
type_synonym u16 = "16 word"
type_synonym u32 = "32 word"

named_theorems be_simps \<open>round trips of big-endian integer fields\<close>

definition ascii :: "string \<Rightarrow> bytes" where
  "ascii s = map of_char s"

lemma length_ascii [simp]: "length (ascii s) = length s"
  by (simp add: ascii_def)

definition be16 :: "u16 \<Rightarrow> bytes" where
  "be16 v = [ucast (drop_bit 8 v), ucast v]"

definition be32 :: "u32 \<Rightarrow> bytes" where
  "be32 v = [ucast (drop_bit 24 v), ucast (drop_bit 16 v), ucast (drop_bit 8 v), ucast v]"

definition rd16 :: "byte \<Rightarrow> byte \<Rightarrow> u16" where
  "rd16 a b = (push_bit 8 (ucast a)) OR ucast b"

definition rd32 :: "byte \<Rightarrow> byte \<Rightarrow> byte \<Rightarrow> byte \<Rightarrow> u32" where
  "rd32 a b c d =
     (push_bit 24 (ucast a)) OR (push_bit 16 (ucast b)) OR (push_bit 8 (ucast c)) OR ucast d"

lemma length_be16 [simp]: "length (be16 v) = 2"
  by (simp add: be16_def)

lemma length_be32 [simp]: "length (be32 v) = 4"
  by (simp add: be32_def)

lemma rd16_be16 [simp, be_simps]: "rd16 (ucast (drop_bit 8 v)) (ucast v) = v"
  by (rule bit_word_eqI) (auto simp: rd16_def bit_simps)

lemma rd32_be32 [simp, be_simps]:
  "rd32 (ucast (drop_bit 24 v)) (ucast (drop_bit 16 v)) (ucast (drop_bit 8 v)) (ucast v) = v"
proof (rule bit_word_eqI)
  fix n assume "n < LENGTH(32)"
  then consider "n < 8" | "8 \<le> n" "n < 16" | "16 \<le> n" "n < 24" | "24 \<le> n" "n < 32"
    by fastforce
  then show "bit (rd32 (ucast (drop_bit 24 v)) (ucast (drop_bit 16 v)) (ucast (drop_bit 8 v))
      (ucast v)) n = bit v n"
    by cases (auto simp: rd32_def bit_simps)
qed

text \<open>Readers over the rest of the input: \<open>None\<close> when the field runs past the end.\<close>

fun get_u8 :: "bytes \<Rightarrow> (byte \<times> bytes) option" where
  "get_u8 (a # r) = Some (a, r)"
| "get_u8 [] = None"

fun get_u16 :: "bytes \<Rightarrow> (u16 \<times> bytes) option" where
  "get_u16 (a # b # r) = Some (rd16 a b, r)"
| "get_u16 _ = None"

fun get_u32 :: "bytes \<Rightarrow> (u32 \<times> bytes) option" where
  "get_u32 (a # b # c # d # r) = Some (rd32 a b c d, r)"
| "get_u32 _ = None"

definition get_bytes :: "nat \<Rightarrow> bytes \<Rightarrow> (bytes \<times> bytes) option" where
  "get_bytes n r = (if length r < n then None else Some (take n r, drop n r))"

lemma get_u16_be16 [simp, be_simps]: "get_u16 (be16 v @ r) = Some (v, r)"
  by (simp add: be16_def)

lemma get_u32_be32 [simp, be_simps]: "get_u32 (be32 v @ r) = Some (v, r)"
  by (simp add: be32_def)

lemma get_bytes_append [simp, be_simps]: "length x = n \<Longrightarrow> get_bytes n (x @ r) = Some (x, r)"
  by (simp add: get_bytes_def)

text \<open>\<^verbatim>\<open>memcmp(a, b, n) < 0\<close> on buffers of the same length: lexicographic on unsigned bytes.\<close>

fun memcmp_lt :: "bytes \<Rightarrow> bytes \<Rightarrow> bool" where
  "memcmp_lt (a # as) (b # bs) = (a < b \<or> (a = b \<and> memcmp_lt as bs))"
| "memcmp_lt _ _ = False"

lemma memcmp_lt_irrefl [simp]: "\<not> memcmp_lt a a"
  by (induction a) auto

lemma memcmp_lt_asym: "memcmp_lt a b \<Longrightarrow> \<not> memcmp_lt b a"
  by (induction a b rule: memcmp_lt.induct) auto

lemma memcmp_lt_total: "length a = length b \<Longrightarrow> a \<noteq> b \<Longrightarrow> memcmp_lt a b \<or> memcmp_lt b a"
  by (induction a b rule: list_induct2) auto

section \<open>Counted sequences of records\<close>

fun get_n :: "nat \<Rightarrow> (bytes \<Rightarrow> ('a \<times> bytes) option) \<Rightarrow> bytes \<Rightarrow> ('a list \<times> bytes) option" where
  "get_n 0 g r = Some ([], r)"
| "get_n (Suc n) g r =
     (case g r of
        None \<Rightarrow> None
      | Some (x, r') \<Rightarrow>
          (case get_n n g r' of
             None \<Rightarrow> None
           | Some (xs, r'') \<Rightarrow> Some (x # xs, r'')))"

locale fixed_codec =
  fixes wf :: "'a \<Rightarrow> bool"
    and put :: "'a \<Rightarrow> bytes"
    and get :: "bytes \<Rightarrow> ('a \<times> bytes) option"
  assumes get_put: "wf x \<Longrightarrow> get (put x @ rest) = Some (x, rest)"
begin

lemma get_n_put:
  "(\<forall>x \<in> set xs. wf x) \<Longrightarrow> get_n (length xs) get (concat (map put xs) @ rest) = Some (xs, rest)"
  by (induction xs) (auto simp: get_put)

lemma put_inj: "wf x \<Longrightarrow> wf y \<Longrightarrow> put x = put y \<Longrightarrow> x = y"
  using get_put [of x "[]"] get_put [of y "[]"] by simp

end

section \<open>Bounded stores that drop their oldest entry\<close>

locale drop_oldest =
  fixes cap :: nat
    and inv :: "'q \<Rightarrow> bool"
    and entries :: "'q \<Rightarrow> 'a list"
    and ok :: "'a \<Rightarrow> bool"
    and add :: "'q \<Rightarrow> 'a \<Rightarrow> 'q"
  assumes cap_pos: "0 < cap"
    and inv_add: "inv q \<Longrightarrow> ok x \<Longrightarrow> inv (add q x)"
    and entries_add: "inv q \<Longrightarrow> ok x \<Longrightarrow>
          entries (add q x) = (if length (entries q) = cap then tl (entries q) else entries q) @ [x]"
    and bounded: "inv q \<Longrightarrow> length (entries q) \<le> cap"
begin

lemma entries_add_drop:
  assumes "inv q" "ok x"
  shows "entries (add q x) = drop (length (entries q @ [x]) - cap) (entries q @ [x])"
  using bounded [OF assms(1)] cap_pos entries_add [OF assms]
  by (cases "entries q") (auto simp: not_less_eq_eq)

lemma inv_foldl: "inv q \<Longrightarrow> \<forall>x \<in> set xs. ok x \<Longrightarrow> inv (foldl add q xs)"
  by (induction xs arbitrary: q) (auto intro: inv_add)

lemma entries_foldl:
  "inv q \<Longrightarrow> \<forall>x \<in> set xs. ok x \<Longrightarrow>
   entries (foldl add q xs) = drop (length (entries q @ xs) - cap) (entries q @ xs)"
proof (induction xs arbitrary: q)
  case Nil
  then show ?case using bounded by simp
next
  case (Cons x xs)
  then have q: "inv q" "ok x" "inv (add q x)" by (auto intro: inv_add)
  let ?d = "length (entries q @ [x]) - cap"
  have e: "entries (add q x) = drop ?d (entries q @ [x])"
    using q by (intro entries_add_drop)
  have "entries (foldl add q (x # xs))
      = drop (length (entries (add q x) @ xs) - cap) (entries (add q x) @ xs)"
    using Cons q by simp
  moreover have "entries (add q x) @ xs = drop ?d ((entries q @ [x]) @ xs)"
    unfolding e drop_append by simp
  ultimately have f: "entries (foldl add q (x # xs))
      = drop (length (entries (add q x) @ xs) - cap + ?d) ((entries q @ [x]) @ xs)"
    by (metis drop_drop)
  have "length (entries (add q x) @ xs) - cap + ?d = length (entries q @ x # xs) - cap"
    unfolding e using bounded [OF q(1)] by simp
  then show ?case using f by simp
qed

lemma newest_kept: "inv q \<Longrightarrow> ok x \<Longrightarrow> x \<in> set (entries (add q x))"
  by (simp add: entries_add)

lemma no_loss: "inv q \<Longrightarrow> \<forall>x \<in> set xs. ok x \<Longrightarrow> length (entries q) + length xs \<le> cap \<Longrightarrow>
    entries (foldl add q xs) = entries q @ xs"
  by (simp add: entries_foldl)

end

section \<open>Ring indices\<close>

text \<open>The live entries of a ring buffer \<open>m\<close> with \<open>head\<close> and \<open>count\<close>, oldest first.\<close>

definition ring_entries :: "'a list \<Rightarrow> nat \<Rightarrow> nat \<Rightarrow> 'a list" where
  "ring_entries m head count = map (\<lambda>i. m ! ((head + i) mod length m)) [0..<count]"

lemma length_ring_entries [simp]: "length (ring_entries m h c) = c"
  by (simp add: ring_entries_def)

lemma ring_entries_0 [simp]: "ring_entries m h 0 = []"
  by (simp add: ring_entries_def)

lemma ring_index_inj:
  assumes "i < n" "j < n" "(h + i) mod n = (h + j) mod (n :: nat)"
  shows "i = j"
proof -
  have aux: "x = y" if "x \<le> y" "y < n" "(h + x) mod n = (h + y) mod n" for x y
  proof -
    from that(3) have "n dvd (h + y) - (h + x)"
      using mod_eq_dvd_iff_nat [of "h + x" "h + y" n] that(1) by simp
    then have "n dvd y - x" by simp
    then show "x = y" using that(1,2) by (auto dest: dvd_imp_le)
  qed
  show ?thesis
    using aux [of i j] aux [of j i] assms by (cases "i \<le> j") auto
qed

lemma ring_entries_push:
  assumes "c < length m"
  shows "ring_entries (m[(h + c) mod length m := x]) h (Suc c) = ring_entries m h c @ [x]"
proof -
  have pos: "m \<noteq> []" using assms by auto
  have "m[(h + c) mod length m := x] ! ((h + i) mod length m) = m ! ((h + i) mod length m)"
    if "i < c" for i
    using that assms ring_index_inj [of i "length m" c h]
    by (metis nat_neq_iff nth_list_update_neq order_less_trans)
  then show ?thesis
    using pos by (simp add: ring_entries_def)
qed

lemma ring_entries_drop:
  assumes "0 < c"
  shows "ring_entries m (Suc h mod length m) (c - 1) = tl (ring_entries m h c)"
proof -
  have "(Suc h mod length m + i) mod length m = (h + Suc i) mod length m" for i
    by (simp add: mod_add_left_eq)
  then have "ring_entries m (Suc h mod length m) (c - 1)
      = map (\<lambda>i. m ! ((h + i) mod length m)) (map Suc [0..<c - 1])"
    by (simp add: ring_entries_def)
  also have "map Suc [0..<c - 1] = tl [0..<c]"
    using assms by (simp add: map_Suc_upt)
  finally show ?thesis
    by (simp only: ring_entries_def map_tl)
qed

end
