(* ===== verification/Crypto.thy ===== *)
theory Crypto
  imports Prelude
begin

text \<open>
  The cryptographic layer of \<^verbatim>\<open>src/src/crypto/\<close>: \<^verbatim>\<open>aead.c\<close>, \<^verbatim>\<open>kdf.c\<close>
  and \<^verbatim>\<open>kem.c\<close>.  libsodium and the vendored sntrup761 are libraries the sources only
  call; they are the fields of the record \<open>sodium\<close>, an argument of every definition that
  uses them.  Randomness is explicit: the n-th call of \<^verbatim>\<open>randombytes_buf\<close> in a run
  returns \<open>sd_randombytes L n len\<close>, and a definition that draws takes the number of draws
  made so far and returns the new number.  \<open>sodium_ok\<close> collects the documented behaviour
  the program relies on: output sizes, X25519 agreement of honest key pairs, the AEAD round
  trip, and KEM correctness.  \<^verbatim>\<open>sodium_init_once\<close> and the wiping of local buffers have
  no observable result and are not represented.
\<close>

section \<open>Constants of crypto.h\<close>

abbreviation (input) "TT_KEY32 \<equiv> (32 :: nat)"
abbreviation (input) "TT_KEM_PK \<equiv> (1158 :: nat)"
abbreviation (input) "TT_KEM_SK \<equiv> (1763 :: nat)"
abbreviation (input) "TT_KEM_CT \<equiv> (1039 :: nat)"
abbreviation (input) "TT_MAC16 \<equiv> (16 :: nat)"
abbreviation (input) "TT_NONCE12 \<equiv> (12 :: nat)"
abbreviation (input) "TT_NONCE24 \<equiv> (24 :: nat)"

datatype TTCipher = TT_AEAD_XCHACHA | TT_AEAD_AESGCM

section \<open>The libraries\<close>

record sodium =
  sd_gcm_available :: bool
  sd_gcm_encrypt :: "bytes \<Rightarrow> bytes \<Rightarrow> bytes \<Rightarrow> bytes \<Rightarrow> bytes option"
  sd_gcm_decrypt :: "bytes \<Rightarrow> bytes \<Rightarrow> bytes \<Rightarrow> bytes \<Rightarrow> bytes option"
  sd_xchacha_encrypt :: "bytes \<Rightarrow> bytes \<Rightarrow> bytes \<Rightarrow> bytes \<Rightarrow> bytes option"
  sd_xchacha_decrypt :: "bytes \<Rightarrow> bytes \<Rightarrow> bytes \<Rightarrow> bytes \<Rightarrow> bytes option"
  sd_scalarmult_base :: "bytes \<Rightarrow> bytes"
  sd_scalarmult :: "bytes \<Rightarrow> bytes \<Rightarrow> bytes option"
  sd_generichash :: "nat \<Rightarrow> bytes \<Rightarrow> bytes \<Rightarrow> bytes"
  sd_randombytes :: "nat \<Rightarrow> nat \<Rightarrow> bytes"
  sn_keypair :: "nat \<Rightarrow> bytes \<times> bytes"
  sn_enc :: "nat \<Rightarrow> bytes \<Rightarrow> bytes \<times> bytes"
  sn_dec :: "bytes \<Rightarrow> bytes \<Rightarrow> bytes"

text \<open>
  The AEAD arguments are plaintext (ciphertext), additional data, nonce and key, in the order
  of the libsodium calls; \<open>None\<close> is a non-zero return code.  The random argument of the
  sntrup761 calls is the position in the random stream at which the callback starts.
\<close>

definition aead_law ::
  "(bytes \<Rightarrow> bytes \<Rightarrow> bytes \<Rightarrow> bytes \<Rightarrow> bytes option)
   \<Rightarrow> (bytes \<Rightarrow> bytes \<Rightarrow> bytes \<Rightarrow> bytes \<Rightarrow> bytes option) \<Rightarrow> nat \<Rightarrow> bool" where
  "aead_law enc dec nlen \<longleftrightarrow>
     (\<forall>pt ad n k. length n = nlen \<longrightarrow> length k = TT_KEY32 \<longrightarrow>
        (\<exists>ct. enc pt ad n k = Some ct \<and> length ct = length pt + TT_MAC16
              \<and> dec ct ad n k = Some pt)) \<and>
     (\<forall>ct ad n k pt. dec ct ad n k = Some pt \<longrightarrow> length ct = length pt + TT_MAC16)"

definition dh_law :: "sodium \<Rightarrow> bool" where
  "dh_law L \<longleftrightarrow>
     (\<forall>a b. length a = TT_KEY32 \<longrightarrow> length b = TT_KEY32 \<longrightarrow>
        (\<exists>k. sd_scalarmult L a (sd_scalarmult_base L b) = Some k
             \<and> sd_scalarmult L b (sd_scalarmult_base L a) = Some k)) \<and>
     (\<forall>a. length a = TT_KEY32 \<longrightarrow> length (sd_scalarmult_base L a) = TT_KEY32) \<and>
     (\<forall>a p k. sd_scalarmult L a p = Some k \<longrightarrow> length k = TT_KEY32)"

definition kem_law :: "sodium \<Rightarrow> bool" where
  "kem_law L \<longleftrightarrow>
     (\<forall>r. length (fst (sn_keypair L r)) = TT_KEM_PK \<and> length (snd (sn_keypair L r)) = TT_KEM_SK) \<and>
     (\<forall>r pk. length (fst (sn_enc L r pk)) = TT_KEM_CT \<and> TT_KEY32 \<le> length (snd (sn_enc L r pk))) \<and>
     (\<forall>ct sk. TT_KEY32 \<le> length (sn_dec L ct sk)) \<and>
     (\<forall>r r'. sn_dec L (fst (sn_enc L r' (fst (sn_keypair L r)))) (snd (sn_keypair L r))
             = snd (sn_enc L r' (fst (sn_keypair L r))))"

definition sodium_ok :: "sodium \<Rightarrow> bool" where
  "sodium_ok L \<longleftrightarrow>
     aead_law (sd_gcm_encrypt L) (sd_gcm_decrypt L) TT_NONCE12 \<and>
     aead_law (sd_xchacha_encrypt L) (sd_xchacha_decrypt L) TT_NONCE24 \<and>
     dh_law L \<and> kem_law L \<and>
     (\<forall>n m k. length (sd_generichash L n m k) = n) \<and>
     (\<forall>i n. length (sd_randombytes L i n) = n)"

section \<open>aead.c\<close>

definition tt_aead_gcm_available :: "sodium \<Rightarrow> bool" where
  "tt_aead_gcm_available L = sd_gcm_available L"

definition tt_aead_pick :: "sodium \<Rightarrow> TTCipher" where
  "tt_aead_pick L = (if tt_aead_gcm_available L then TT_AEAD_AESGCM else TT_AEAD_XCHACHA)"

fun tt_aead_nonce_len :: "TTCipher \<Rightarrow> nat" where
  "tt_aead_nonce_len TT_AEAD_AESGCM = TT_NONCE12"
| "tt_aead_nonce_len TT_AEAD_XCHACHA = TT_NONCE24"

text \<open>The nonce argument is a pointer: each cipher reads its own nonce length from it.\<close>

definition tt_aead_seal ::
  "sodium \<Rightarrow> TTCipher \<Rightarrow> bytes \<Rightarrow> bytes \<Rightarrow> bytes \<Rightarrow> bytes \<Rightarrow> bytes option" where
  "tt_aead_seal L c key nonce ad pt =
     (if c = TT_AEAD_AESGCM \<and> \<not> tt_aead_gcm_available L then None
      else
        let rc = (if c = TT_AEAD_AESGCM
                  then sd_gcm_encrypt L pt ad (take TT_NONCE12 nonce) key
                  else sd_xchacha_encrypt L pt ad (take TT_NONCE24 nonce) key)
        in case rc of
             None \<Rightarrow> None
           | Some ct \<Rightarrow> if length ct = length pt + TT_MAC16 then Some ct else None)"

definition tt_aead_open ::
  "sodium \<Rightarrow> TTCipher \<Rightarrow> bytes \<Rightarrow> bytes \<Rightarrow> bytes \<Rightarrow> bytes \<Rightarrow> bytes option" where
  "tt_aead_open L c key nonce ad ct =
     (if length ct < TT_MAC16 then None
      else if c = TT_AEAD_AESGCM \<and> \<not> tt_aead_gcm_available L then None
      else if c = TT_AEAD_AESGCM
        then sd_gcm_decrypt L ct ad (take TT_NONCE12 nonce) key
        else sd_xchacha_decrypt L ct ad (take TT_NONCE24 nonce) key)"

section \<open>kdf.c\<close>

definition tt_dh_keygen :: "sodium \<Rightarrow> nat \<Rightarrow> (bytes \<times> bytes) \<times> nat" where
  "tt_dh_keygen L w =
     (let sk = sd_randombytes L w TT_KEY32
      in ((sd_scalarmult_base L sk, sk), Suc w))"

definition tt_dh_shared :: "sodium \<Rightarrow> bytes \<Rightarrow> bytes \<Rightarrow> bytes option" where
  "tt_dh_shared L sk pk = sd_scalarmult L sk pk"

definition tt_kdf_root :: "sodium \<Rightarrow> bytes \<Rightarrow> bytes \<Rightarrow> bytes" where
  "tt_kdf_root L ikm ctx =
     (let salt_key = ascii ''TTZ1-root-extract'' @ replicate 15 0
      in sd_generichash L TT_KEY32 (ikm @ ctx) salt_key)"

definition tt_kdf_root_step :: "sodium \<Rightarrow> bytes \<Rightarrow> bytes \<Rightarrow> bytes \<Rightarrow> bytes \<times> bytes" where
  "tt_kdf_root_step L root dh kem =
     (let ikm = root @ dh @ kem;
          out = sd_generichash L 64 ikm (ascii ''TTZ1-rs'' @ [0])
      in (take TT_KEY32 out, drop TT_KEY32 out))"

text \<open>Both steps return the new chain first, as the C out-parameters do.\<close>

definition tt_kdf_chain_step :: "sodium \<Rightarrow> bytes \<Rightarrow> bytes \<times> bytes" where
  "tt_kdf_chain_step L chain =
     (let out = sd_generichash L 64 chain (ascii ''TTZ1-ch'' @ [0])
      in (drop TT_KEY32 out, take TT_KEY32 out))"

definition tt_kdf_msg_material :: "sodium \<Rightarrow> bytes \<Rightarrow> bytes \<times> bytes" where
  "tt_kdf_msg_material L msg_key =
     (let out = sd_generichash L (TT_KEY32 + TT_NONCE24) msg_key (ascii ''TTZ1-mk'' @ [0])
      in (take TT_KEY32 out, drop TT_KEY32 out))"

section \<open>kem.c\<close>

definition tt_kem_keygen :: "sodium \<Rightarrow> nat \<Rightarrow> (bytes \<times> bytes) \<times> nat" where
  "tt_kem_keygen L w = (sn_keypair L w, Suc w)"

definition tt_kem_enc :: "sodium \<Rightarrow> nat \<Rightarrow> bytes \<Rightarrow> (bytes \<times> bytes) \<times> nat" where
  "tt_kem_enc L w pk =
     (let (ct, ss_full) = sn_enc L w pk
      in ((ct, take TT_KEY32 ss_full), Suc w))"

definition tt_kem_dec :: "sodium \<Rightarrow> bytes \<Rightarrow> bytes \<Rightarrow> bytes" where
  "tt_kem_dec L ct sk = take TT_KEY32 (sn_dec L ct sk)"

section \<open>Facts the frame and session layers use\<close>

named_theorems len_simps \<open>sizes of keys, nonces and derived material\<close>

lemma length_randombytes [len_simps]: "sodium_ok L \<Longrightarrow> length (sd_randombytes L i n) = n"
  by (simp add: sodium_ok_def)

lemma length_kdf_root [len_simps]: "sodium_ok L \<Longrightarrow> length (tt_kdf_root L ikm ctx) = 32"
  by (simp add: tt_kdf_root_def sodium_ok_def Let_def)

lemma length_root_step [len_simps]:
  "sodium_ok L \<Longrightarrow> length (fst (tt_kdf_root_step L r d k)) = 32"
  "sodium_ok L \<Longrightarrow> length (snd (tt_kdf_root_step L r d k)) = 32"
  by (simp_all add: tt_kdf_root_step_def sodium_ok_def Let_def)

lemma length_chain_step [len_simps]:
  "sodium_ok L \<Longrightarrow> length (fst (tt_kdf_chain_step L c)) = 32"
  "sodium_ok L \<Longrightarrow> length (snd (tt_kdf_chain_step L c)) = 32"
  by (simp_all add: tt_kdf_chain_step_def sodium_ok_def Let_def)

lemma length_msg_material [len_simps]:
  "sodium_ok L \<Longrightarrow> length (fst (tt_kdf_msg_material L mk)) = 32"
  "sodium_ok L \<Longrightarrow> length (snd (tt_kdf_msg_material L mk)) = 24"
  by (simp_all add: tt_kdf_msg_material_def sodium_ok_def Let_def)

lemma length_dh_shared [len_simps]:
  "sodium_ok L \<Longrightarrow> tt_dh_shared L a p = Some k \<Longrightarrow> length k = 32"
  by (auto simp: tt_dh_shared_def sodium_ok_def dh_law_def)

lemma length_scalarmult_base [len_simps]:
  "sodium_ok L \<Longrightarrow> length a = 32 \<Longrightarrow> length (sd_scalarmult_base L a) = 32"
  by (auto simp: sodium_ok_def dh_law_def)

text \<open>X25519 agreement of two honest pairs.\<close>

lemma dh_agree:
  assumes "sodium_ok L" "length a = 32" "length b = 32"
  obtains k where "tt_dh_shared L a (sd_scalarmult_base L b) = Some k"
    "tt_dh_shared L b (sd_scalarmult_base L a) = Some k" "length k = 32"
  using assms unfolding tt_dh_shared_def sodium_ok_def dh_law_def by metis

text \<open>The secret the encapsulator gets is the one the key's owner decapsulates.\<close>

lemma kem_agree:
  assumes "sodium_ok L" "sn_keypair L r = (pk, sk)" "tt_kem_enc L w pk = ((ct, ss), w')"
  shows "tt_kem_dec L ct sk = ss" "length ct = 1039" "length ss = 32"
proof -
  have k: "sn_dec L (fst (sn_enc L w pk)) sk = snd (sn_enc L w pk)"
    using assms(1,2) unfolding sodium_ok_def kem_law_def by (metis fst_conv snd_conv)
  have e: "ct = fst (sn_enc L w pk)" "ss = take 32 (snd (sn_enc L w pk))"
    using assms(3) by (auto simp: tt_kem_enc_def split: prod.splits)
  show "tt_kem_dec L ct sk = ss" by (simp add: tt_kem_dec_def e k)
  show "length ct = 1039" "length ss = 32"
    using assms(1) by (auto simp: e sodium_ok_def kem_law_def)
qed

lemma kem_pair_len:
  "sodium_ok L \<Longrightarrow> sn_keypair L r = (pk, sk) \<Longrightarrow> length pk = 1158 \<and> length sk = 1763"
  by (metis fst_conv snd_conv kem_law_def sodium_ok_def)

lemma kem_enc_len:
  "sodium_ok L \<Longrightarrow> tt_kem_enc L w pk = ((ct, ss), w') \<Longrightarrow> length ct = 1039 \<and> length ss = 32"
  by (auto simp: tt_kem_enc_def sodium_ok_def kem_law_def split: prod.splits)
     (metis fst_conv snd_conv min.absorb2)+

lemma aead_law_D:
  assumes "aead_law enc dec nlen" "length n = nlen" "length k = 32"
  obtains ct where "enc pt ad n k = Some ct" "length ct = length pt + 16" "dec ct ad n k = Some pt"
  using assms unfolding aead_law_def by blast

text \<open>Sealing succeeds whenever the cipher can run, and opening gives the plaintext back.\<close>

lemma aead_seal_Some:
  assumes "sodium_ok L" "length key = 32" "tt_aead_nonce_len c \<le> length nonce"
    "c = TT_AEAD_AESGCM \<longrightarrow> tt_aead_gcm_available L"
  obtains ct where "tt_aead_seal L c key nonce ad pt = Some ct" "length ct = length pt + 16"
    "tt_aead_open L c key nonce ad ct = Some pt"
proof (cases c)
  case TT_AEAD_XCHACHA
  have "length (take 24 nonce) = 24" using assms(3) TT_AEAD_XCHACHA by simp
  then obtain ct where "sd_xchacha_encrypt L pt ad (take 24 nonce) key = Some ct"
    "length ct = length pt + 16" "sd_xchacha_decrypt L ct ad (take 24 nonce) key = Some pt"
    using assms(1,2) unfolding sodium_ok_def by (elim conjE) (rule aead_law_D)
  then show ?thesis
    using that [of ct] TT_AEAD_XCHACHA by (simp add: tt_aead_seal_def tt_aead_open_def)
next
  case TT_AEAD_AESGCM
  have "length (take 12 nonce) = 12" using assms(3) TT_AEAD_AESGCM by simp
  then obtain ct where "sd_gcm_encrypt L pt ad (take 12 nonce) key = Some ct"
    "length ct = length pt + 16" "sd_gcm_decrypt L ct ad (take 12 nonce) key = Some pt"
    using assms(1,2) unfolding sodium_ok_def by (elim conjE) (rule aead_law_D)
  then show ?thesis
    using that [of ct] TT_AEAD_AESGCM assms(4)
    by (simp add: tt_aead_seal_def tt_aead_open_def)
qed

lemma aead_open_length:
  "sodium_ok L \<Longrightarrow> tt_aead_open L c key nonce ad ct = Some pt \<Longrightarrow> length ct = length pt + 16"
  by (auto simp: tt_aead_open_def sodium_ok_def aead_law_def split: if_splits)

lemma aead_open_prefix_nonce:
  "tt_aead_open L c key (take (tt_aead_nonce_len c) nonce) ad ct = tt_aead_open L c key nonce ad ct"
  by (cases c) (simp_all add: tt_aead_open_def)

text \<open>A provider without hardware AES neither seals nor opens GCM.\<close>

lemma gcm_unavailable:
  assumes "\<not> tt_aead_gcm_available L"
  shows "tt_aead_seal L TT_AEAD_AESGCM key nonce ad pt = None"
    "tt_aead_open L TT_AEAD_AESGCM key nonce ad ct = None"
  using assms by (simp_all add: tt_aead_seal_def tt_aead_open_def)

lemma aead_open_gcmD:
  "tt_aead_open L TT_AEAD_AESGCM key nonce ad ct = Some pt \<Longrightarrow> tt_aead_gcm_available L"
  by (simp add: tt_aead_open_def split: if_splits)

section \<open>A concrete provider for the witnesses\<close>

text \<open>
  \<open>toy\<close> satisfies every law: secret and public keys coincide, the DH output is the bytewise
  exclusive or, the AEAD appends sixteen bytes, the KEM is constant.  It is no model of the
  libraries; it shows that the hypotheses can hold together.
\<close>

definition toy_xor :: "bytes \<Rightarrow> bytes \<Rightarrow> bytes" where
  "toy_xor a b = map (\<lambda>i. (a ! i) XOR (b ! i)) [0..<32]"

definition toy :: "bool \<Rightarrow> sodium" where
  "toy gcm =
     \<lparr>sd_gcm_available = gcm,
      sd_gcm_encrypt = (\<lambda>pt ad n k. Some (pt @ replicate 16 0)),
      sd_gcm_decrypt = (\<lambda>ct ad n k. if length ct < 16 then None else Some (take (length ct - 16) ct)),
      sd_xchacha_encrypt = (\<lambda>pt ad n k. Some (pt @ replicate 16 0)),
      sd_xchacha_decrypt = (\<lambda>ct ad n k. if length ct < 16 then None else Some (take (length ct - 16) ct)),
      sd_scalarmult_base = (\<lambda>sk. sk),
      sd_scalarmult = (\<lambda>sk pk. Some (toy_xor sk pk)),
      sd_generichash = (\<lambda>n m k. replicate n 0),
      sd_randombytes = (\<lambda>i n. replicate n (of_nat i)),
      sn_keypair = (\<lambda>r. (replicate 1158 0, replicate 1763 0)),
      sn_enc = (\<lambda>r pk. (replicate 1039 0, replicate 32 0)),
      sn_dec = (\<lambda>ct sk. replicate 32 0)\<rparr>"

lemma toy_gcm [simp]: "tt_aead_gcm_available (toy g) = g"
  by (simp add: toy_def tt_aead_gcm_available_def)

lemma toy_ok: "sodium_ok (toy gcm)"
proof -
  have x: "toy_xor a b = toy_xor b a" for a b
    by (simp add: toy_xor_def xor.commute)
  have l: "length (toy_xor a b) = 32" for a b
    by (simp add: toy_xor_def)
  show ?thesis
    by (auto simp: sodium_ok_def toy_def aead_law_def dh_law_def kem_law_def x l split: if_splits)
qed

end
