(* ===== verification/Frame.thy ===== *)
theory Frame
  imports Crypto
begin

text \<open>
  The wire-frame codec, \<^verbatim>\<open>src/src/crypto/frame.c\<close>.  A frame is
  magic, version, type, flags, sequence number, nonce, header length, header, ciphertext and
  tag.  Buffers and their lengths are one byte list, so the NULL checks have no counterpart;
  a return of -1 is \<open>None\<close>, and a failed decode returns no plaintext (the C code wipes the
  output buffer).  Main results: decoding inverts encoding, encoding succeeds exactly under
  the size budget, and the unauthenticated peek agrees with the decoder.
\<close>

abbreviation (input) "TT_FRAME_MAX \<equiv> (1372 :: nat)"
abbreviation (input) "TT_FRAME_HEAD_MAX \<equiv> (37 :: nat)"
abbreviation (input) "TT_HDR_INIT \<equiv> (1254 :: nat)"
abbreviation (input) "TT_HDR_REPLY \<equiv> (1135 :: nat)"
abbreviation (input) "TT_HDR_DATA_KEMPUB \<equiv> (1190 :: nat)"
abbreviation (input) "TT_HDR_DATA_REKEY \<equiv> (1071 :: nat)"
abbreviation (input) "TT_FRAME_DATA_MAX \<equiv> (1319 :: nat)"

abbreviation (input) "TT_FRAME_VER \<equiv> (1 :: byte)"
abbreviation (input) "TT_FRAME_INIT \<equiv> (0 :: byte)"
abbreviation (input) "TT_FRAME_REPLY \<equiv> (1 :: byte)"
abbreviation (input) "TT_FRAME_DATA \<equiv> (2 :: byte)"
abbreviation (input) "TT_FRAME_ACK \<equiv> (3 :: byte)"
abbreviation (input) "TT_FRAME_RESEND \<equiv> (4 :: byte)"

abbreviation (input) "TT_FRAME_FLAG_GCM \<equiv> (1 :: byte)"
abbreviation (input) "TT_FRAME_FLAG_KEM \<equiv> (2 :: byte)"
abbreviation (input) "TT_FRAME_FLAG_AES_HW \<equiv> (4 :: byte)"
abbreviation (input) "TT_FRAME_FLAG_PK \<equiv> (8 :: byte)"

definition flag_set :: "byte \<Rightarrow> byte \<Rightarrow> bool" where
  "flag_set flags m = (flags AND m \<noteq> 0)"

definition frame_magic :: bytes where
  "frame_magic = ascii ''TTZ1''"

definition expected_hdr_len :: "byte \<Rightarrow> byte \<Rightarrow> nat option" where
  "expected_hdr_len type flags =
     (if type = TT_FRAME_INIT \<or> type = TT_FRAME_REPLY then
        if \<not> flag_set flags TT_FRAME_FLAG_KEM then None
        else Some (if type = TT_FRAME_INIT then TT_HDR_INIT else TT_HDR_REPLY)
      else if type = TT_FRAME_DATA then
        if flag_set flags TT_FRAME_FLAG_KEM then
          if \<not> flag_set flags TT_FRAME_FLAG_PK then None else Some TT_HDR_DATA_REKEY
        else if flag_set flags TT_FRAME_FLAG_PK then Some TT_HDR_DATA_KEMPUB
        else Some 0
      else if type = TT_FRAME_ACK \<or> type = TT_FRAME_RESEND then
        if flag_set flags (TT_FRAME_FLAG_KEM OR TT_FRAME_FLAG_PK) then None else Some 0
      else None)"

definition frame_cipher :: "byte \<Rightarrow> TTCipher" where
  "frame_cipher flags =
     (if flag_set flags TT_FRAME_FLAG_GCM then TT_AEAD_AESGCM else TT_AEAD_XCHACHA)"

definition frame_nonce_len :: "byte \<Rightarrow> nat" where
  "frame_nonce_len flags = (if flag_set flags TT_FRAME_FLAG_GCM then TT_NONCE12 else TT_NONCE24)"

text \<open>The head and header as they are laid out before the ciphertext: the additional data.\<close>

definition frame_ad :: "byte \<Rightarrow> u32 \<Rightarrow> byte \<Rightarrow> bytes \<Rightarrow> bytes \<Rightarrow> bytes" where
  "frame_ad type seq flags nonce hdr =
     frame_magic @ [TT_FRAME_VER, type, flags] @ be32 seq
     @ take (frame_nonce_len flags) nonce
     @ be16 (of_nat (length hdr)) @ hdr"

definition tt_frame_encode ::
  "sodium \<Rightarrow> nat \<Rightarrow> byte \<Rightarrow> u32 \<Rightarrow> byte \<Rightarrow> bytes \<Rightarrow> bytes \<Rightarrow> bytes \<Rightarrow> bytes \<Rightarrow> bytes option" where
  "tt_frame_encode L cap type seq flags key nonce hdr pt =
     (if flags AND 0xF0 \<noteq> 0 then None
      else if expected_hdr_len type flags \<noteq> Some (length hdr) then None
      else if length pt > TT_FRAME_MAX then None
      else
        let head = 11 + frame_nonce_len flags + 2;
            total = head + length hdr + length pt + TT_MAC16
        in if total > TT_FRAME_MAX \<or> total > cap then None
           else
             let ad = frame_ad type seq flags nonce hdr
             in case tt_aead_seal L (frame_cipher flags) key nonce ad pt of
                  None \<Rightarrow> None
                | Some ct \<Rightarrow> if length ct \<noteq> length pt + TT_MAC16 then None else Some (ad @ ct))"

record TTFrameDesc =
  fd_type :: byte
  fd_flags :: byte
  fd_seq :: u32
  fd_nonce :: bytes
  fd_hdr :: bytes
  fd_pt_len :: nat

definition frame_seq :: "bytes \<Rightarrow> u32" where
  "frame_seq inp = rd32 (inp ! 7) (inp ! 8) (inp ! 9) (inp ! 10)"

text \<open>The header length field after the nonce, as a size.\<close>

definition frame_hdr_len :: "bytes \<Rightarrow> nat \<Rightarrow> nat" where
  "frame_hdr_len inp off = unat (rd16 (inp ! off) (inp ! (off + 1)))"

definition tt_frame_peek :: "bytes \<Rightarrow> TTFrameDesc option" where
  "tt_frame_peek inp =
     (if length inp > TT_FRAME_MAX then None
      else if length inp < 11 + TT_NONCE12 + 2 + TT_MAC16 then None
      else if take 4 inp \<noteq> frame_magic then None
      else if inp ! 4 \<noteq> TT_FRAME_VER then None
      else
        let type = inp ! 5; flags = inp ! 6
        in if flags AND 0xF0 \<noteq> 0 then None
        else
          let nonce_len = frame_nonce_len flags
          in if length inp < 11 + nonce_len + 2 then None
          else
            let hdr_len = frame_hdr_len inp (11 + nonce_len);
                off = 11 + nonce_len + 2
            in if length inp < off + hdr_len + TT_MAC16 then None
            else Some \<lparr>fd_type = type, fd_flags = flags, fd_seq = frame_seq inp,
                       fd_nonce = take nonce_len (drop 11 inp),
                       fd_hdr = take hdr_len (drop off inp),
                       fd_pt_len = length inp - (off + hdr_len) - TT_MAC16\<rparr>)"

definition tt_frame_decode ::
  "sodium \<Rightarrow> bytes \<Rightarrow> bytes \<Rightarrow> nat \<Rightarrow> (TTFrameDesc \<times> bytes) option" where
  "tt_frame_decode L inp key pt_cap =
     (if length inp > TT_FRAME_MAX then None
      else if length inp < 11 + TT_NONCE12 + 2 + TT_MAC16 then None
      else if take 4 inp \<noteq> frame_magic then None
      else if inp ! 4 \<noteq> TT_FRAME_VER then None
      else
        let type = inp ! 5; flags = inp ! 6
        in if flags AND 0xF0 \<noteq> 0 then None
        else
          let seq = frame_seq inp;
              nonce_len = frame_nonce_len flags;
              nonce = drop 11 inp
          in if length inp < 11 + nonce_len + 2 then None
          else
            let hdr_len = frame_hdr_len inp (11 + nonce_len);
                off = 11 + nonce_len + 2
            in if expected_hdr_len type flags \<noteq> Some hdr_len then None
            else if length inp < off + hdr_len + TT_MAC16 then None
            else
              let hdr = take hdr_len (drop off inp);
                  off' = off + hdr_len;
                  ct = drop off' inp;
                  pt_len = length ct - TT_MAC16
              in if pt_len > pt_cap then None
              else case tt_aead_open L (frame_cipher flags) key nonce (take off' inp) ct of
                     None \<Rightarrow> None
                   | Some pt \<Rightarrow>
                       Some (\<lparr>fd_type = type, fd_flags = flags, fd_seq = seq,
                              fd_nonce = take nonce_len nonce,
                              fd_hdr = hdr, fd_pt_len = pt_len\<rparr>, pt))"

section \<open>Layout\<close>

lemma frame_magic_len [simp]: "length frame_magic = 4"
  by (simp add: frame_magic_def)

lemma frame_nonce_len_cases: "frame_nonce_len f = 12 \<or> frame_nonce_len f = 24"
  by (simp add: frame_nonce_len_def)

lemma frame_nonce_len_cipher: "tt_aead_nonce_len (frame_cipher f) = frame_nonce_len f"
  by (simp add: frame_cipher_def frame_nonce_len_def)

lemma expected_hdr_len_bound: "expected_hdr_len t f = Some n \<Longrightarrow> n \<le> 1254"
  by (auto simp: expected_hdr_len_def split: if_splits)

lemma length_frame_ad:
  "frame_nonce_len flags \<le> length nonce \<Longrightarrow>
   length (frame_ad type seq flags nonce hdr) = 13 + frame_nonce_len flags + length hdr"
  by (simp add: frame_ad_def)

text \<open>The fixed offsets the parser reads, in a frame that starts with \<open>frame_ad\<close>.\<close>

lemma frame_ad_fields:
  fixes hdr ct nonce :: bytes and type flags :: byte and seq :: u32
  assumes n: "frame_nonce_len flags \<le> length nonce" and h: "length hdr \<le> 1254"
  defines "inp \<equiv> frame_ad type seq flags nonce hdr @ ct"
  defines "k \<equiv> frame_nonce_len flags"
  shows "take 4 inp = frame_magic" "inp ! 4 = TT_FRAME_VER" "inp ! 5 = type" "inp ! 6 = flags"
    "frame_seq inp = seq"
    "take k (drop 11 inp) = take k nonce"
    "frame_hdr_len inp (11 + k) = length hdr"
    "drop (11 + k + 2) inp = hdr @ ct"
    "drop (11 + k + 2 + length hdr) inp = ct"
    "take (11 + k + 2 + length hdr) inp = frame_ad type seq flags nonce hdr"
    "length inp = 13 + k + length hdr + length ct"
proof -
  have e: "inp = frame_magic @ TT_FRAME_VER # type # flags # be32 seq @ take k nonce
      @ be16 (of_nat (length hdr)) @ hdr @ ct"
    by (simp add: inp_def k_def frame_ad_def)
  have k: "length (take k nonce) = k" using n by (simp add: k_def)
  obtain a b c d where m: "frame_magic = [a, b, c, d]"
    by (simp add: frame_magic_def ascii_def)
  show "take 4 inp = frame_magic" "inp ! 4 = TT_FRAME_VER" "inp ! 5 = type" "inp ! 6 = flags"
    by (simp_all add: e m)
  show "frame_seq inp = seq"
    by (simp add: e m frame_seq_def be32_def)
  have d11: "drop 11 inp = take k nonce @ be16 (of_nat (length hdr)) @ hdr @ ct"
    by (simp add: e m be32_def)
  show "take k (drop 11 inp) = take k nonce" using k by (simp add: d11)
  have dk: "drop (11 + k) inp = be16 (of_nat (length hdr)) @ hdr @ ct"
    using k d11 by (simp flip: drop_drop add: add.commute [of 11 k])
  have u: "unat (word_of_nat (length hdr) :: u16) = length hdr"
    using h by (simp add: unat_of_nat)
  have l: "11 + k + 1 < length inp" "11 + k < length inp"
    using k by (simp_all add: e m be32_def be16_def)
  have "inp ! (11 + k) = drop (11 + k) inp ! 0" "inp ! (11 + k + 1) = drop (11 + k) inp ! 1"
    using l by simp_all
  then show "frame_hdr_len inp (11 + k) = length hdr"
    by (simp add: frame_hdr_len_def dk be16_def u)
  have "drop (11 + k + 2) inp = drop 2 (drop (11 + k) inp)"
    by (simp add: add.commute)
  then show d13: "drop (11 + k + 2) inp = hdr @ ct" by (simp add: dk be16_def)
  have la: "length (frame_ad type seq flags nonce hdr) = 11 + k + 2 + length hdr"
    using length_frame_ad [OF n] by (simp add: k_def)
  show "drop (11 + k + 2 + length hdr) inp = ct"
    "take (11 + k + 2 + length hdr) inp = frame_ad type seq flags nonce hdr"
    "length inp = 13 + k + length hdr + length ct"
    by (simp_all add: inp_def la)
qed

lemma tt_frame_encode_SomeD:
  assumes "tt_frame_encode L cap type seq flags key nonce hdr pt = Some out"
  obtains ct where "out = frame_ad type seq flags nonce hdr @ ct"
    "tt_aead_seal L (frame_cipher flags) key nonce (frame_ad type seq flags nonce hdr) pt = Some ct"
    "length ct = length pt + 16" "flags AND 0xF0 = 0"
    "expected_hdr_len type flags = Some (length hdr)"
    "13 + frame_nonce_len flags + length hdr + length pt + 16 \<le> 1372"
    "13 + frame_nonce_len flags + length hdr + length pt + 16 \<le> cap"
  using assms by (auto simp: tt_frame_encode_def Let_def split: if_splits option.splits)

lemma tt_frame_peek_ad:
  assumes "frame_nonce_len flags \<le> length nonce" "length hdr \<le> 1254" "flags AND 0xF0 = 0"
    "16 \<le> length ct" "13 + frame_nonce_len flags + length hdr + length ct \<le> 1372"
  shows "tt_frame_peek (frame_ad type seq flags nonce hdr @ ct) =
    Some \<lparr>fd_type = type, fd_flags = flags, fd_seq = seq,
          fd_nonce = take (frame_nonce_len flags) nonce, fd_hdr = hdr,
          fd_pt_len = length ct - 16\<rparr>"
proof -
  define inp where "inp = frame_ad type seq flags nonce hdr @ ct"
  note f = frame_ad_fields [OF assms(1,2), of type seq ct, folded inp_def]
  let ?k = "frame_nonce_len flags"
  have c: "\<not> 1372 < length inp" "\<not> length inp < 11 + 12 + 2 + 16" "\<not> length inp < 11 + ?k + 2"
    "\<not> length inp < 11 + ?k + 2 + length hdr + 16"
    "length inp - (11 + ?k + 2 + length hdr) - 16 = length ct - 16"
    using f(11) assms(4,5) frame_nonce_len_cases [of flags] by linarith+
  show ?thesis
    unfolding inp_def [symmetric] tt_frame_peek_def Let_def f(1-8) assms(3) using c by simp
qed

lemma tt_frame_decode_ad:
  assumes "frame_nonce_len flags \<le> length nonce" "flags AND 0xF0 = 0"
    "expected_hdr_len type flags = Some (length hdr)"
    "16 \<le> length ct" "13 + frame_nonce_len flags + length hdr + length ct \<le> 1372"
    "length ct - 16 \<le> pt_cap"
  shows "tt_frame_decode L (frame_ad type seq flags nonce hdr @ ct) key pt_cap =
    (case tt_aead_open L (frame_cipher flags) key nonce (frame_ad type seq flags nonce hdr) ct of
       None \<Rightarrow> None
     | Some pt \<Rightarrow> Some (\<lparr>fd_type = type, fd_flags = flags, fd_seq = seq,
          fd_nonce = take (frame_nonce_len flags) nonce, fd_hdr = hdr,
          fd_pt_len = length ct - 16\<rparr>, pt))"
proof -
  define inp where "inp = frame_ad type seq flags nonce hdr @ ct"
  note f = frame_ad_fields [OF assms(1) expected_hdr_len_bound [OF assms(3)], of type seq ct,
      folded inp_def]
  have o: "tt_aead_open L (frame_cipher flags) key (drop 11 inp) ad ct
      = tt_aead_open L (frame_cipher flags) key nonce ad ct" for ad
    using f(6) aead_open_prefix_nonce [of L "frame_cipher flags" key "drop 11 inp" ad ct]
      aead_open_prefix_nonce [of L "frame_cipher flags" key nonce ad ct]
    by (simp add: frame_nonce_len_cipher)
  let ?k = "frame_nonce_len flags"
  have c: "\<not> 1372 < length inp" "\<not> length inp < 11 + 12 + 2 + 16" "\<not> length inp < 11 + ?k + 2"
    "\<not> length inp < 11 + ?k + 2 + length hdr + 16" "\<not> pt_cap < length ct - 16"
    using f(11) assms(4-6) frame_nonce_len_cases [of flags] by linarith+
  have "tt_frame_decode L inp key pt_cap =
    (case tt_aead_open L (frame_cipher flags) key (drop 11 inp)
        (frame_ad type seq flags nonce hdr) ct of
       None \<Rightarrow> None
     | Some pt \<Rightarrow> Some (\<lparr>fd_type = type, fd_flags = flags, fd_seq = seq,
          fd_nonce = take (frame_nonce_len flags) nonce, fd_hdr = hdr,
          fd_pt_len = length ct - 16\<rparr>, pt))"
    unfolding tt_frame_decode_def Let_def f(1-10) assms(2,3) using c
    by (simp del: option.case_cong_weak cong: option.case_cong)
  then show ?thesis unfolding o unfolding inp_def .
qed

definition frame_desc :: "byte \<Rightarrow> byte \<Rightarrow> u32 \<Rightarrow> bytes \<Rightarrow> bytes \<Rightarrow> nat \<Rightarrow> TTFrameDesc" where
  "frame_desc type flags seq nonce hdr n =
     \<lparr>fd_type = type, fd_flags = flags, fd_seq = seq,
      fd_nonce = take (frame_nonce_len flags) nonce, fd_hdr = hdr, fd_pt_len = n\<rparr>"

lemma frame_desc_fields [simp]:
  "fd_type (frame_desc t f q x h n) = t" "fd_flags (frame_desc t f q x h n) = f"
  "fd_seq (frame_desc t f q x h n) = q" "fd_hdr (frame_desc t f q x h n) = h"
  "fd_pt_len (frame_desc t f q x h n) = n"
  by (simp_all add: frame_desc_def)

text \<open>What the layers above need of an encoded frame: it exists, it can be peeked at, and it opens.\<close>

lemma frame_sealed:
  assumes "sodium_ok L" "length key = 32" "length nonce = 24" "flags AND 0xF0 = 0"
    "expected_hdr_len type flags = Some (length hdr)"
    "flag_set flags TT_FRAME_FLAG_GCM \<longrightarrow> tt_aead_gcm_available L"
    "29 + frame_nonce_len flags + length hdr + length pt \<le> min TT_FRAME_MAX cap"
  obtains out where "tt_frame_encode L cap type seq flags key nonce hdr pt = Some out"
    "tt_frame_peek out = Some (frame_desc type flags seq nonce hdr (length pt))"
    "\<And>pc. length pt \<le> pc \<Longrightarrow>
       tt_frame_decode L out key pc = Some (frame_desc type flags seq nonce hdr (length pt), pt)"
    "length out = 29 + frame_nonce_len flags + length hdr + length pt"
proof -
  have n: "frame_nonce_len flags \<le> length nonce"
    using assms(3) frame_nonce_len_cases [of flags] by auto
  have g: "frame_cipher flags = TT_AEAD_AESGCM \<longrightarrow> tt_aead_gcm_available L"
    using assms(6) by (auto simp: frame_cipher_def split: if_splits)
  have nc: "tt_aead_nonce_len (frame_cipher flags) \<le> length nonce"
    using n by (simp add: frame_nonce_len_cipher)
  obtain ct where ct: "tt_aead_seal L (frame_cipher flags) key nonce
        (frame_ad type seq flags nonce hdr) pt = Some ct" "length ct = length pt + 16"
      "tt_aead_open L (frame_cipher flags) key nonce (frame_ad type seq flags nonce hdr) ct = Some pt"
    by (rule aead_seal_Some [OF assms(1,2) nc g])
  let ?out = "frame_ad type seq flags nonce hdr @ ct"
  have e: "tt_frame_encode L cap type seq flags key nonce hdr pt = Some ?out"
    using assms(4,5,7) ct(1,2) by (simp add: tt_frame_encode_def Let_def)
  have p: "tt_frame_peek ?out = Some (frame_desc type flags seq nonce hdr (length pt))"
    using tt_frame_peek_ad [OF n expected_hdr_len_bound [OF assms(5)] assms(4), of ct type seq] ct(2) assms(7)
    by (simp add: frame_desc_def)
  have d: "tt_frame_decode L ?out key pc = Some (frame_desc type flags seq nonce hdr (length pt), pt)"
    if "length pt \<le> pc" for pc
    using tt_frame_decode_ad [OF n assms(4,5), of ct pc L seq key] ct(2,3) assms(7) that
    by (simp add: frame_desc_def)
  have l: "length ?out = 29 + frame_nonce_len flags + length hdr + length pt"
    using length_frame_ad [OF n, of type seq hdr] ct(2) by simp
  show ?thesis by (rule that [OF e p d l])
qed

lemma frame_encoded:
  assumes "sodium_ok L" "length key = 32" "length nonce = 24"
    "tt_frame_encode L cap type seq flags key nonce hdr pt = Some out"
  shows "tt_frame_peek out = Some (frame_desc type flags seq nonce hdr (length pt))"
    "length pt \<le> pc \<Longrightarrow>
       tt_frame_decode L out key pc = Some (frame_desc type flags seq nonce hdr (length pt), pt)"
    "expected_hdr_len type flags = Some (length hdr)"
    "length out = 29 + frame_nonce_len flags + length hdr + length pt" "length out \<le> TT_FRAME_MAX"
proof -
  obtain ct where c: "tt_aead_seal L (frame_cipher flags) key nonce
        (frame_ad type seq flags nonce hdr) pt = Some ct" "flags AND 0xF0 = 0"
    and x: "expected_hdr_len type flags = Some (length hdr)"
    and b: "29 + frame_nonce_len flags + length hdr + length pt \<le> min 1372 cap"
    by (rule tt_frame_encode_SomeD [OF assms(4)]) simp
  have g: "flag_set flags 1 \<longrightarrow> tt_aead_gcm_available L"
    using c(1) gcm_unavailable(1) by (fastforce simp: frame_cipher_def split: if_splits)
  obtain out' where o: "tt_frame_encode L cap type seq flags key nonce hdr pt = Some out'"
    "tt_frame_peek out' = Some (frame_desc type flags seq nonce hdr (length pt))"
    "\<And>pc. length pt \<le> pc \<Longrightarrow>
       tt_frame_decode L out' key pc = Some (frame_desc type flags seq nonce hdr (length pt), pt)"
    "length out' = 29 + frame_nonce_len flags + length hdr + length pt"
    by (rule frame_sealed [OF assms(1-3) c(2) x g b, where seq = seq]) (rule that)
  have "out' = out" using o(1) assms(4) by simp
  then show "tt_frame_peek out = Some (frame_desc type flags seq nonce hdr (length pt))"
    "length pt \<le> pc \<Longrightarrow>
       tt_frame_decode L out key pc = Some (frame_desc type flags seq nonce hdr (length pt), pt)"
    "expected_hdr_len type flags = Some (length hdr)"
    "length out = 29 + frame_nonce_len flags + length hdr + length pt" "length out \<le> TT_FRAME_MAX"
    using o x b by simp_all
qed

lemma decode_peek:
  assumes "sodium_ok L" "tt_frame_decode L inp key pt_cap = Some (d, pt)"
  shows "tt_frame_peek inp = Some d \<and> expected_hdr_len (fd_type d) (fd_flags d) = Some (length (fd_hdr d))
    \<and> fd_pt_len d = length pt \<and> length pt \<le> pt_cap \<and> length inp \<le> TT_FRAME_MAX"
proof -
  let ?k = "frame_nonce_len (inp ! 6)"
  let ?h = "frame_hdr_len inp (11 + ?k)"
  let ?off = "11 + ?k + 2 + ?h"
  from assms(2) have c: "length inp \<le> 1372" "take 4 inp = frame_magic" "inp ! 4 = TT_FRAME_VER"
      "(inp ! 6) AND 0xF0 = 0" "expected_hdr_len (inp ! 5) (inp ! 6) = Some ?h"
      "?off + 16 \<le> length inp" "length inp - ?off - 16 \<le> pt_cap"
    and o: "tt_aead_open L (frame_cipher (inp ! 6)) key (drop 11 inp) (take ?off inp)
      (drop ?off inp) = Some pt"
    and d: "d = \<lparr>fd_type = inp ! 5, fd_flags = inp ! 6, fd_seq = frame_seq inp,
      fd_nonce = take ?k (drop 11 inp), fd_hdr = take ?h (drop (11 + ?k + 2) inp),
      fd_pt_len = length inp - ?off - 16\<rparr>"
    by (auto simp: tt_frame_decode_def Let_def split: if_splits option.splits)
  have "length inp - ?off = length pt + 16"
    using aead_open_length [OF assms(1) o] by simp
  then show ?thesis
    using c frame_nonce_len_cases [of "inp ! 6"]
    by (auto simp: d tt_frame_peek_def Let_def)
qed

text \<open>A GCM frame never opens on a machine that cannot run GCM.\<close>

lemma decode_needs_cipher:
  "tt_frame_decode L inp key pc = Some r \<Longrightarrow> flag_set (inp ! 6) TT_FRAME_FLAG_GCM \<Longrightarrow> tt_aead_gcm_available L"
  by (auto simp: tt_frame_decode_def Let_def frame_cipher_def dest: aead_open_gcmD
      split: if_splits option.splits)

section \<open>Codec properties\<close>

text \<open>C21: decoding inverts encoding.  Whatever frame the encoder builds from a key, a 24-byte
  nonce, a header and a plaintext, the decoder under the same key returns exactly that
  plaintext together with the type, flags, sequence number and header that went in.\<close>

theorem frame_roundtrip:
  assumes "sodium_ok L" "length key = 32" "length nonce = 24"
    "tt_frame_encode L cap type seq flags key nonce hdr pt = Some out"
    "length pt \<le> pt_cap"
  shows "\<exists>d. tt_frame_decode L out key pt_cap = Some (d, pt) \<and> fd_type d = type \<and> fd_flags d = flags
    \<and> fd_seq d = seq \<and> fd_hdr d = hdr \<and> fd_pt_len d = length pt"
  using frame_encoded(2) [OF assms(1-5)] by simp

theorem frame_roundtrip_witness:
  "\<exists>d. tt_frame_decode (toy True)
      (frame_ad 2 7 5 (replicate 24 0) [] @ [9, 8] @ replicate 16 0) (replicate 32 0) 100
    = Some (d, [9, 8]) \<and> fd_type d = 2 \<and> fd_flags d = 5 \<and> fd_seq d = 7 \<and> fd_hdr d = []
      \<and> fd_pt_len d = length [9, 8 :: byte]"
proof (rule frame_roundtrip [OF toy_ok])
  show "tt_frame_encode (toy True) 1372 2 7 5 (replicate 32 0) (replicate 24 0) [] [9, 8]
      = Some (frame_ad 2 7 5 (replicate 24 0) [] @ [9, 8] @ replicate 16 0)"
    by (simp add: tt_frame_encode_def expected_hdr_len_def flag_set_def frame_nonce_len_def
        frame_cipher_def tt_aead_seal_def toy_def tt_aead_gcm_available_def)
qed simp_all

text \<open>The size budget is exact.  With a law-abiding provider the encoder succeeds if and only if
  the reserved flag bits are clear, the header has the constant length of its type and
  flags, a requested GCM cipher can run, and head, header, plaintext and tag fit both one Tox
  message (1372 bytes) and the caller's buffer; the frame then has exactly that length.\<close>

theorem frame_encode_iff:
  assumes "sodium_ok L" "length key = 32" "length nonce = 24"
  shows "(\<exists>out. tt_frame_encode L cap type seq flags key nonce hdr pt = Some out
            \<and> length out = 29 + frame_nonce_len flags + length hdr + length pt) \<longleftrightarrow>
         flags AND 0xF0 = 0 \<and> expected_hdr_len type flags = Some (length hdr) \<and>
         (flag_set flags TT_FRAME_FLAG_GCM \<longrightarrow> tt_aead_gcm_available L) \<and>
         29 + frame_nonce_len flags + length hdr + length pt \<le> min TT_FRAME_MAX cap"
    (is "?l \<longleftrightarrow> ?r")
proof
  show ?r if ?l
  proof -
    from that obtain out where o: "tt_frame_encode L cap type seq flags key nonce hdr pt = Some out"
      by blast
    then obtain ct where "tt_aead_seal L (frame_cipher flags) key nonce
        (frame_ad type seq flags nonce hdr) pt = Some ct"
      by (rule tt_frame_encode_SomeD)
    then have "flag_set flags TT_FRAME_FLAG_GCM \<longrightarrow> tt_aead_gcm_available L"
      using gcm_unavailable(1) by (fastforce simp: frame_cipher_def split: if_splits)
    then show ?r using o by (auto elim!: tt_frame_encode_SomeD)
  qed
  show ?l if r: ?r
  proof -
    from r obtain out where "tt_frame_encode L cap type seq flags key nonce hdr pt = Some out"
      "length out = 29 + frame_nonce_len flags + length hdr + length pt"
      using frame_sealed [OF assms, of flags type hdr pt cap seq] by metis
    then show ?l by blast
  qed
qed

theorem frame_encode_iff_witness:
  "(\<exists>out. tt_frame_encode (toy False) 1372 2 1 0 (replicate 32 0) (replicate 24 0) [] (replicate 1319 65)
        = Some out \<and> length out = 29 + frame_nonce_len 0 + length ([] :: bytes)
            + length (replicate 1319 (65 :: byte)))
   \<and> \<not> (\<exists>out. tt_frame_encode (toy False) 1372 2 1 0 (replicate 32 0) (replicate 24 0) []
        (replicate 1320 65) = Some out \<and> length out = 29 + frame_nonce_len 0 + length ([] :: bytes)
            + length (replicate 1320 (65 :: byte)))"
  unfolding frame_encode_iff [OF toy_ok, of "replicate 32 0" "replicate 24 0", simplified]
  by (simp add: expected_hdr_len_def flag_set_def frame_nonce_len_def)

text \<open>The unauthenticated peek and the authenticated decoder read the same frame.  Every frame the
  decoder accepts is accepted by the peek with the identical descriptor, its header has the
  length fixed by type and flags, and the plaintext length announced by the peek is the length
  of the plaintext delivered and fits the caller's buffer.\<close>

theorem frame_peek_agrees:
  assumes "sodium_ok L" "tt_frame_decode L inp key pt_cap = Some (d, pt)"
  shows "tt_frame_peek inp = Some d \<and> expected_hdr_len (fd_type d) (fd_flags d) = Some (length (fd_hdr d))
    \<and> fd_pt_len d = length pt \<and> length pt \<le> pt_cap \<and> length inp \<le> TT_FRAME_MAX"
  by (rule decode_peek [OF assms])

theorem frame_peek_agrees_witness:
  "\<exists>d. tt_frame_peek (frame_ad 3 0 0 (replicate 24 0) [] @ [1, 2, 3] @ replicate 16 0) = Some d
     \<and> fd_pt_len d = 3"
proof -
  let ?f = "frame_ad 3 0 0 (replicate 24 0) [] @ [1, 2, 3] @ replicate 16 0"
  have "tt_frame_decode (toy False) ?f [] 16 =
    Some (\<lparr>fd_type = 3, fd_flags = 0, fd_seq = 0, fd_nonce = replicate 24 0, fd_hdr = [],
           fd_pt_len = 3\<rparr>, [1, 2, 3])"
    by (subst tt_frame_decode_ad)
       (simp_all add: frame_nonce_len_def flag_set_def expected_hdr_len_def frame_cipher_def
         tt_aead_open_def toy_def)
  from frame_peek_agrees [OF toy_ok this] show ?thesis by auto
qed

end
