(* ===== verification/Ratchet.thy ===== *)
theory Ratchet
  imports Frame
begin

text \<open>
  The per-direction ratchet of \<^verbatim>\<open>src/src/session.c\<close>: key derivation helpers,
  \<^verbatim>\<open>TTRatchet\<close>, the fold, the send-side key step, the non-committing
  receive-side key derivation and the store of skipped message keys.  The fixed array
  \<^verbatim>\<open>skipped[96]\<close> with its count is the list of its live entries, oldest first.
  The message keys of a chain are \<open>key_at\<close>; the lemmas say that the sending step, the
  receiving lookahead and the skipped store all produce the same keys, and the skipped store
  is an instance of the bounded drop-oldest interface.
\<close>

abbreviation (input) "TT_SESSION_MAX_SKIP \<equiv> (512 :: u32)"
abbreviation (input) "TT_SESSION_SKIPPED_MAX \<equiv> (96 :: nat)"

section \<open>Key derivation helpers\<close>

definition derive_from_root :: "sodium \<Rightarrow> bytes \<Rightarrow> string \<Rightarrow> bytes" where
  "derive_from_root L root label = tt_kdf_root L (root @ [1]) (ascii label)"

definition seal_key_derive :: "sodium \<Rightarrow> bytes \<Rightarrow> bytes \<Rightarrow> bytes \<Rightarrow> bytes option" where
  "seal_key_derive L sk dh_peer ad_ik =
     (case tt_dh_shared L sk dh_peer of
        None \<Rightarrow> None
      | Some ss \<Rightarrow> Some (tt_kdf_root L ss (ascii ''tt-e2ee-seal'' @ ad_ik)))"

section \<open>The ratchet\<close>

record TTRatchet =
  r_chain :: bytes
  r_seq :: u32
  r_root :: bytes
  r_since_fold :: u16
  r_skipped :: "(u32 \<times> bytes) list"

definition ratchet_zero :: TTRatchet where
  "ratchet_zero = \<lparr>r_chain = replicate 32 0, r_seq = 0, r_root = replicate 32 0,
                   r_since_fold = 0, r_skipped = []\<rparr>"

definition ratchet_reset :: "sodium \<Rightarrow> bytes \<Rightarrow> bool \<Rightarrow> TTRatchet" where
  "ratchet_reset L root initiator_dir =
     ratchet_zero \<lparr>r_root := root,
       r_chain := derive_from_root L root (if initiator_dir then ''tt-e2ee-i'' else ''tt-e2ee-r''),
       r_seq := 1, r_since_fold := 0\<rparr>"

definition ratchet_fold :: "sodium \<Rightarrow> TTRatchet \<Rightarrow> bytes \<Rightarrow> bytes \<Rightarrow> TTRatchet" where
  "ratchet_fold L r dh kem =
     (let (new_root, new_chain) = tt_kdf_root_step L (r_root r) dh kem
      in r \<lparr>r_root := new_root, r_chain := new_chain, r_since_fold := 0, r_skipped := []\<rparr>)"

text \<open>Returns the ratchet, the sequence number, the frame key and the nonce.\<close>

definition send_key :: "sodium \<Rightarrow> TTRatchet \<Rightarrow> TTRatchet \<times> u32 \<times> bytes \<times> bytes" where
  "send_key L r =
     (let (nc, mk) = tt_kdf_chain_step L (r_chain r);
          (key, nonce) = tt_kdf_msg_material L mk
      in (r \<lparr>r_chain := nc, r_seq := r_seq r + 1\<rparr>, r_seq r, key, nonce))"

text \<open>The loop \<^verbatim>\<open>for (k = r->seq; k < seq; k++)\<close> over a scratch copy of the chain.\<close>

fun chain_steps :: "sodium \<Rightarrow> nat \<Rightarrow> bytes \<Rightarrow> bytes" where
  "chain_steps L 0 c = c"
| "chain_steps L (Suc n) c = chain_steps L n (fst (tt_kdf_chain_step L c))"

definition msg_key_at :: "sodium \<Rightarrow> TTRatchet \<Rightarrow> u32 \<Rightarrow> bytes \<times> bytes" where
  "msg_key_at L r seq =
     (let c = chain_steps L (unat seq - unat (r_seq r)) (r_chain r);
          (nc, mk) = tt_kdf_chain_step L c
      in tt_kdf_msg_material L mk)"

definition skipped_add :: "TTRatchet \<Rightarrow> u32 \<times> bytes \<Rightarrow> TTRatchet" where
  "skipped_add r e =
     (let live = (if length (r_skipped r) \<ge> TT_SESSION_SKIPPED_MAX then tl (r_skipped r)
                  else r_skipped r)
      in r \<lparr>r_skipped := live @ [e]\<rparr>)"

fun take_first :: "u32 \<Rightarrow> (u32 \<times> bytes) list \<Rightarrow> (bytes \<times> (u32 \<times> bytes) list) option" where
  "take_first seq [] = None"
| "take_first seq ((q, k) # es) =
     (if q = seq then Some (k, es)
      else case take_first seq es of None \<Rightarrow> None | Some (k', es') \<Rightarrow> Some (k', (q, k) # es'))"

definition skipped_take :: "TTRatchet \<Rightarrow> u32 \<Rightarrow> (bytes \<times> TTRatchet) option" where
  "skipped_take r seq =
     (case take_first seq (r_skipped r) of
        None \<Rightarrow> None
      | Some (k, es) \<Rightarrow> Some (k, r \<lparr>r_skipped := es\<rparr>))"

text \<open>
  The commit of a received frame (in \<^verbatim>\<open>tt_session_feed\<close>): store the key of every
  sequence number up to the received one, then step past it.
\<close>

fun recv_gap :: "sodium \<Rightarrow> nat \<Rightarrow> TTRatchet \<Rightarrow> TTRatchet" where
  "recv_gap L 0 r = r"
| "recv_gap L (Suc n) r =
     (let (nc, mk) = tt_kdf_chain_step L (r_chain r);
          (ek, nz) = tt_kdf_msg_material L mk;
          r1 = skipped_add (r \<lparr>r_chain := nc\<rparr>) (r_seq r, ek)
      in recv_gap L n (r1 \<lparr>r_seq := r_seq r1 + 1\<rparr>))"

definition recv_commit :: "sodium \<Rightarrow> TTRatchet \<Rightarrow> u32 \<Rightarrow> TTRatchet" where
  "recv_commit L r seq =
     (let r1 = recv_gap L (unat seq - unat (r_seq r)) r;
          (nc, mk) = tt_kdf_chain_step L (r_chain r1)
      in r1 \<lparr>r_chain := nc, r_seq := r_seq r1 + 1\<rparr>)"

section \<open>Keys of a chain\<close>

text \<open>The key and nonce of the frame \<open>n\<close> steps down the chain \<open>c\<close>.\<close>

definition key_at :: "sodium \<Rightarrow> bytes \<Rightarrow> nat \<Rightarrow> bytes \<times> bytes" where
  "key_at L c n = tt_kdf_msg_material L (snd (tt_kdf_chain_step L (chain_steps L n c)))"

lemma chain_steps_add: "chain_steps L (m + n) c = chain_steps L n (chain_steps L m c)"
  by (induction m arbitrary: c) auto

lemma chain_steps_Suc_end:
  "chain_steps L (Suc n) c = fst (tt_kdf_chain_step L (chain_steps L n c))"
  using chain_steps_add [of L n 1 c] by simp

lemma key_at_steps: "key_at L (chain_steps L m c) n = key_at L c (m + n)"
  by (simp add: key_at_def chain_steps_add)

lemma send_key_eq:
  "send_key L r = (r \<lparr>r_chain := chain_steps L 1 (r_chain r), r_seq := r_seq r + 1\<rparr>,
                   r_seq r, fst (key_at L (r_chain r) 0), snd (key_at L (r_chain r) 0))"
  by (simp add: send_key_def key_at_def split_beta Let_def)

lemma msg_key_at_eq: "msg_key_at L r seq = key_at L (r_chain r) (unat seq - unat (r_seq r))"
  by (simp add: msg_key_at_def key_at_def split_beta Let_def)

lemma length_key_at [len_simps]:
  "sodium_ok L \<Longrightarrow> length (fst (key_at L c n)) = 32"
  "sodium_ok L \<Longrightarrow> length (snd (key_at L c n)) = 24"
  by (simp_all add: key_at_def len_simps)

section \<open>The skipped-key store\<close>

lemma skipped_add_fields [simp]:
  "r_chain (skipped_add r e) = r_chain r" "r_seq (skipped_add r e) = r_seq r"
  "r_root (skipped_add r e) = r_root r" "r_since_fold (skipped_add r e) = r_since_fold r"
  by (simp_all add: skipped_add_def Let_def)

interpretation skipped: drop_oldest TT_SESSION_SKIPPED_MAX
  "\<lambda>r. length (r_skipped r) \<le> TT_SESSION_SKIPPED_MAX" r_skipped "\<lambda>_. True" skipped_add
  by unfold_locales (auto simp: skipped_add_def Let_def)

lemma take_first_Some:
  "take_first seq es = Some (k, es') \<Longrightarrow>
   \<exists>xs ys. es = xs @ (seq, k) # ys \<and> es' = xs @ ys \<and> seq \<notin> fst ` set xs"
proof (induction seq es arbitrary: es' rule: take_first.induct)
  case (2 seq q k0 es)
  show ?case
  proof (cases "q = seq")
    case True
    then have "(q, k0) # es = [] @ (seq, k) # es'" "es' = [] @ es'" using "2.prems" by auto
    then show ?thesis by (metis empty_iff image_empty set_empty)
  next
    case False
    then obtain r where r: "take_first seq es = Some (k, r)" "es' = (q, k0) # r"
      using "2.prems" by (auto split: option.splits)
    from "2.IH" [OF False r(1)] obtain xs ys where
      "es = xs @ (seq, k) # ys" "r = xs @ ys" "seq \<notin> fst ` set xs" by blast
    then show ?thesis
      using r(2) False by (intro exI [of _ "(q, k0) # xs"] exI [of _ ys]) auto
  qed
qed simp

lemma take_first_None: "take_first seq es = None \<longleftrightarrow> seq \<notin> fst ` set es"
  by (induction seq es rule: take_first.induct) (auto split: option.splits)

lemma take_first_unique:
  assumes "distinct (map fst es)" "(seq, k) \<in> set es"
  shows "take_first seq es = Some (k, filter (\<lambda>e. fst e \<noteq> seq) es)"
  using assms
proof (induction es)
  case (Cons e es)
  show ?case
  proof (cases "fst e = seq")
    case True
    then have "e = (seq, k)" using Cons.prems by (force simp: image_iff)
    moreover have "filter (\<lambda>e. fst e \<noteq> seq) es = es"
      unfolding filter_id_conv using Cons.prems(1) True by (auto simp: image_iff)
    ultimately show ?thesis by simp
  next
    case False
    then show ?thesis using Cons by (cases e) auto
  qed
qed simp

section \<open>Committing a received frame\<close>

lemma recv_gap_fields:
  "r_chain (recv_gap L n r) = chain_steps L n (r_chain r)"
  "r_seq (recv_gap L n r) = r_seq r + of_nat n"
  "r_root (recv_gap L n r) = r_root r"
  "r_since_fold (recv_gap L n r) = r_since_fold r"
  by (induction n arbitrary: r) (simp_all add: split_beta Let_def)

text \<open>The entries a gap of \<open>n\<close> frames adds: each sequence number with its chain key.\<close>

definition gap_entries :: "sodium \<Rightarrow> nat \<Rightarrow> TTRatchet \<Rightarrow> (u32 \<times> bytes) list" where
  "gap_entries L n r = map (\<lambda>i. (r_seq r + of_nat i, fst (key_at L (r_chain r) i))) [0..<n]"

lemma recv_gap_skipped: "r_skipped (recv_gap L n r) = r_skipped (foldl skipped_add r (gap_entries L n r))"
proof (induction n arbitrary: r)
  case (Suc n)
  let ?e = "(r_seq r, fst (key_at L (r_chain r) 0))"
  let ?r1 = "skipped_add (r \<lparr>r_chain := fst (tt_kdf_chain_step L (r_chain r))\<rparr>) ?e"
  let ?r2 = "?r1 \<lparr>r_seq := r_seq ?r1 + 1\<rparr>"
  have k: "key_at L (fst (tt_kdf_chain_step L (r_chain r))) i = key_at L (r_chain r) (Suc i)" for i
    by (simp add: key_at_def)
  have g: "gap_entries L n ?r2 = map (\<lambda>i. (r_seq r + of_nat (Suc i), fst (key_at L (r_chain r) (Suc i)))) [0..<n]"
    by (simp add: gap_entries_def k add.assoc)
  have e: "gap_entries L (Suc n) r = ?e # gap_entries L n ?r2"
    by (simp only: g) (simp add: gap_entries_def map_upt_Suc del: upt_Suc)
  have p: "r_skipped (foldl skipped_add a es) = r_skipped (foldl skipped_add b es)"
    if "r_skipped a = r_skipped b" for a b es
    using that by (induction es arbitrary: a b) (simp_all add: skipped_add_def Let_def)
  have "r_skipped (recv_gap L (Suc n) r) = r_skipped (recv_gap L n ?r2)"
    by (simp add: split_beta Let_def key_at_def)
  also have "\<dots> = r_skipped (foldl skipped_add ?r2 (gap_entries L n ?r2))"
    by (rule Suc)
  also have "\<dots> = r_skipped (foldl skipped_add (skipped_add r ?e) (gap_entries L n ?r2))"
    by (rule p) (simp add: skipped_add_def Let_def)
  finally show ?case by (simp only: e foldl_Cons)
qed (simp add: gap_entries_def)

lemma recv_commit_fields:
  "r_chain (recv_commit L r seq) = chain_steps L (Suc (unat seq - unat (r_seq r))) (r_chain r)"
  "r_root (recv_commit L r seq) = r_root r"
  "r_since_fold (recv_commit L r seq) = r_since_fold r"
  "r_skipped (recv_commit L r seq) = r_skipped (recv_gap L (unat seq - unat (r_seq r)) r)"
  by (simp_all add: recv_commit_def split_beta Let_def recv_gap_fields chain_steps_Suc_end
      del: chain_steps.simps)

lemma recv_commit_seq: "r_seq r \<le> seq \<Longrightarrow> r_seq (recv_commit L r seq) = seq + 1"
  by (simp add: recv_commit_def split_beta Let_def recv_gap_fields word_le_nat_alt of_nat_diff)

text \<open>With room in the store nothing is evicted: the gap entries are appended in order.\<close>

lemma recv_commit_skipped:
  assumes "length (r_skipped r) + (unat seq - unat (r_seq r)) \<le> TT_SESSION_SKIPPED_MAX"
  shows "r_skipped (recv_commit L r seq) = r_skipped r @ gap_entries L (unat seq - unat (r_seq r)) r"
  using assms skipped.no_loss [of r "gap_entries L (unat seq - unat (r_seq r)) r"]
  by (simp add: recv_commit_fields recv_gap_skipped gap_entries_def)

lemma recv_commit_bounded:
  "length (r_skipped r) \<le> TT_SESSION_SKIPPED_MAX \<Longrightarrow>
   length (r_skipped (recv_commit L r seq)) \<le> TT_SESSION_SKIPPED_MAX"
  by (simp add: recv_commit_fields recv_gap_skipped skipped.inv_foldl)

end
