(* ===== verification/Reliable.thy ===== *)
theory Reliable
  imports Frame
begin

text \<open>
  The sent-message ring of the reliable transport (\<^verbatim>\<open>TTSentBuf\<close>, \<^verbatim>\<open>rel_sent_add\<close>,
  \<^verbatim>\<open>rel_sent_ack\<close>, \<^verbatim>\<open>rel_sent_remove\<close> in \<^verbatim>\<open>src/src/session.c\<close>).
  The ring is modelled as the C code has it: 32 slots, a head index and a count, with the
  in-place compaction loops.  Its abstraction \<open>sent_entries\<close> is the list of buffered
  messages, oldest first; adding refines a bounded append, acknowledging and removing refine
  \<open>filter\<close>.  The source of a buffered text is either a caller's buffer or a slot of the
  ring itself (the re-send path passes a pointer into the ring), because the eviction in
  \<^verbatim>\<open>rel_sent_add\<close> clears a slot before the text is copied.
\<close>

abbreviation (input) "TT_SENT_MAX \<equiv> (32 :: nat)"

record TTSentMsg =
  m_gen :: u32
  m_seq :: u32
  m_len :: nat
  m_data :: bytes

definition sent_zero :: TTSentMsg where
  "sent_zero = \<lparr>m_gen = 0, m_seq = 0, m_len = 0, m_data = replicate 1319 0\<rparr>"

record TTSentBuf =
  b_m :: "TTSentMsg list"
  b_head :: nat
  b_count :: nat

definition sentbuf_zero :: TTSentBuf where
  "sentbuf_zero = \<lparr>b_m = replicate TT_SENT_MAX sent_zero, b_head = 0, b_count = 0\<rparr>"

datatype text_src = TextBuf bytes | TextSlot nat nat

definition text_len :: "text_src \<Rightarrow> nat" where
  "text_len t = (case t of TextBuf x \<Rightarrow> length x | TextSlot i n \<Rightarrow> n)"

definition text_bytes :: "TTSentMsg list \<Rightarrow> text_src \<Rightarrow> bytes" where
  "text_bytes m t = (case t of TextBuf x \<Rightarrow> x | TextSlot i n \<Rightarrow> take n (m_data (m ! i)))"

definition rel_sent_add :: "TTSentBuf \<Rightarrow> u32 \<Rightarrow> u32 \<Rightarrow> text_src \<Rightarrow> TTSentBuf" where
  "rel_sent_add b gen seq text =
     (let b1 = (if b_count b \<ge> TT_SENT_MAX
                then b \<lparr>b_m := (b_m b)[b_head b := sent_zero],
                        b_head := (b_head b + 1) mod TT_SENT_MAX,
                        b_count := b_count b - 1\<rparr>
                else b);
          idx = (b_head b1 + b_count b1) mod TT_SENT_MAX;
          len = text_len text;
          slot = b_m b1 ! idx;
          src = text_bytes (b_m b1) text
      in b1 \<lparr>b_m := (b_m b1)[idx := slot \<lparr>m_gen := gen, m_seq := seq, m_len := len,
                                        m_data := src @ drop len (m_data slot)\<rparr>],
             b_count := b_count b1 + 1\<rparr>)"

text \<open>
  One compaction loop: \<open>k\<close> iterations left, read index \<open>r\<close>, write index \<open>w\<close>;
  slots for which \<open>gone\<close> holds are cleared, the others move down.
\<close>

fun compact :: "(TTSentMsg \<Rightarrow> bool) \<Rightarrow> nat \<Rightarrow> nat \<Rightarrow> nat \<Rightarrow> nat \<Rightarrow> TTSentMsg list \<Rightarrow> TTSentMsg list \<times> nat" where
  "compact gone head 0 r w m = (m, w)"
| "compact gone head (Suc k) r w m =
     (let idx = (head + r) mod TT_SENT_MAX
      in if gone (m ! idx) then compact gone head k (r + 1) w (m[idx := sent_zero])
         else
           let m1 = (if w \<noteq> r
                     then m[(head + w) mod TT_SENT_MAX := m ! idx, idx := sent_zero]
                     else m)
           in compact gone head k (r + 1) (w + 1) m1)"

definition rel_sent_ack :: "TTSentBuf \<Rightarrow> u32 \<Rightarrow> u32 \<Rightarrow> TTSentBuf" where
  "rel_sent_ack b g acked =
     (let (m, w) = compact (\<lambda>e. m_gen e = g \<and> m_seq e \<le> acked) (b_head b) (b_count b) 0 0 (b_m b)
      in b \<lparr>b_m := m, b_count := w\<rparr>)"

definition rel_sent_remove :: "TTSentBuf \<Rightarrow> u32 \<Rightarrow> u32 \<Rightarrow> TTSentBuf" where
  "rel_sent_remove b gen seq =
     (let (m, w) = compact (\<lambda>e. m_gen e = gen \<and> m_seq e = seq) (b_head b) (b_count b) 0 0 (b_m b)
      in b \<lparr>b_m := m, b_count := w\<rparr>)"

section \<open>Abstraction and invariant\<close>

definition msg_ok :: "TTSentMsg \<Rightarrow> bool" where
  "msg_ok e \<longleftrightarrow> length (m_data e) = 1319 \<and> m_len e \<le> 1319"

definition sent_inv :: "TTSentBuf \<Rightarrow> bool" where
  "sent_inv b \<longleftrightarrow> length (b_m b) = TT_SENT_MAX \<and> b_head b < TT_SENT_MAX \<and> b_count b \<le> TT_SENT_MAX
     \<and> (\<forall>e \<in> set (b_m b). msg_ok e)"

definition msg_abs :: "TTSentMsg \<Rightarrow> u32 \<times> u32 \<times> bytes" where
  "msg_abs e = (m_gen e, m_seq e, take (m_len e) (m_data e))"

definition sent_slots :: "TTSentBuf \<Rightarrow> TTSentMsg list" where
  "sent_slots b = ring_entries (b_m b) (b_head b) (b_count b)"

definition sent_entries :: "TTSentBuf \<Rightarrow> (u32 \<times> u32 \<times> bytes) list" where
  "sent_entries b = map msg_abs (sent_slots b)"

lemma msg_ok_zero [simp]: "msg_ok sent_zero"
  by (simp add: msg_ok_def sent_zero_def)

lemma sent_inv_zero [simp]: "sent_inv sentbuf_zero"
  by (simp add: sent_inv_def sentbuf_zero_def)

lemma sent_entries_zero [simp]: "sent_entries sentbuf_zero = []"
  by (simp add: sent_entries_def sent_slots_def sentbuf_zero_def)

lemma set_list_update_ball: "\<forall>e \<in> set m. P e \<Longrightarrow> P x \<Longrightarrow> \<forall>e \<in> set (m[i := x]). P e"
  using set_update_subset_insert by fastforce

lemma length_sent_entries [simp]: "length (sent_entries b) = b_count b"
  by (simp add: sent_entries_def sent_slots_def)

section \<open>Adding\<close>

text \<open>The state after the eviction and before the copy.\<close>

definition evict :: "TTSentBuf \<Rightarrow> TTSentBuf" where
  "evict b = (if b_count b \<ge> TT_SENT_MAX
              then b \<lparr>b_m := (b_m b)[b_head b := sent_zero],
                      b_head := (b_head b + 1) mod TT_SENT_MAX, b_count := b_count b - 1\<rparr>
              else b)"

lemma rel_sent_add_evict:
  "rel_sent_add b gen seq text =
     (let b1 = evict b; idx = (b_head b1 + b_count b1) mod TT_SENT_MAX; slot = b_m b1 ! idx
      in b1 \<lparr>b_m := (b_m b1)[idx := slot \<lparr>m_gen := gen, m_seq := seq, m_len := text_len text,
                       m_data := text_bytes (b_m b1) text @ drop (text_len text) (m_data slot)\<rparr>],
             b_count := b_count b1 + 1\<rparr>)"
  by (simp add: rel_sent_add_def evict_def Let_def)

lemma evict_inv:
  assumes "sent_inv b"
  shows "sent_inv (evict b)" "b_count (evict b) < TT_SENT_MAX"
  using assms set_list_update_ball [of "b_m b" msg_ok sent_zero]
  by (auto simp: sent_inv_def evict_def)

lemma ring_entries_cong:
  assumes "\<And>i. i < c \<Longrightarrow> m ! ((h + i) mod length m) = m' ! ((h + i) mod length m')"
  shows "ring_entries m h c = ring_entries m' h c"
  using assms by (simp add: ring_entries_def)

lemma evict_slots:
  assumes "sent_inv b"
  shows "sent_slots (evict b) = (if b_count b = TT_SENT_MAX then tl (sent_slots b) else sent_slots b)"
proof (cases "b_count b = TT_SENT_MAX")
  case True
  have len: "length (b_m b) = 32" and h: "b_head b < 32"
    using assms by (auto simp: sent_inv_def)
  let ?m = "(b_m b)[b_head b := sent_zero]"
  have ne: "(Suc (b_head b) mod 32 + i) mod 32 \<noteq> b_head b" if "i < 31" for i
    using ring_index_inj [of "Suc i" 32 0 "b_head b"] that h by (auto simp: mod_simps)
  have "sent_slots (evict b) = ring_entries ?m (Suc (b_head b) mod 32) 31"
    using True by (simp add: sent_slots_def evict_def)
  also have "\<dots> = ring_entries (b_m b) (Suc (b_head b) mod 32) 31"
    using len by (intro ring_entries_cong) (metis length_list_update ne nth_list_update_neq)
  also have "\<dots> = tl (sent_slots b)"
    using ring_entries_drop [of 32 "b_m b" "b_head b"] True len by (simp add: sent_slots_def)
  finally show ?thesis using True by simp
next
  case False
  then show ?thesis using assms by (simp add: evict_def sent_inv_def)
qed

lemma rel_sent_add_slots:
  assumes "sent_inv b" "length (text_bytes (b_m (evict b)) text) = text_len text" "text_len text \<le> 1319"
  shows "sent_inv (rel_sent_add b gen seq text)"
    "sent_entries (rel_sent_add b gen seq text) =
       (if b_count b = TT_SENT_MAX then tl (sent_entries b) else sent_entries b)
       @ [(gen, seq, text_bytes (b_m (evict b)) text)]"
proof -
  let ?b = "evict b"
  let ?i = "(b_head ?b + b_count ?b) mod 32"
  let ?s = "b_m ?b ! ?i"
  let ?x = "?s \<lparr>m_gen := gen, m_seq := seq, m_len := text_len text,
      m_data := text_bytes (b_m ?b) text @ drop (text_len text) (m_data ?s)\<rparr>"
  have iv: "sent_inv ?b" "b_count ?b < 32" using evict_inv [OF assms(1)] by auto
  then have len: "length (b_m ?b) = 32" by (simp add: sent_inv_def)
  then have "?s \<in> set (b_m ?b)" by (metis mod_less_divisor nth_mem zero_less_numeral)
  then have "msg_ok ?s" using iv(1) by (simp add: sent_inv_def)
  then have ok: "msg_ok ?x" using assms(2,3) by (simp add: msg_ok_def)
  have a: "rel_sent_add b gen seq text = ?b \<lparr>b_m := (b_m ?b)[?i := ?x], b_count := b_count ?b + 1\<rparr>"
    by (simp add: rel_sent_add_evict Let_def)
  show "sent_inv (rel_sent_add b gen seq text)"
    using iv ok set_list_update_ball [of "b_m ?b" msg_ok ?x] by (simp add: a sent_inv_def)
  have "sent_slots (rel_sent_add b gen seq text) = sent_slots ?b @ [?x]"
    using ring_entries_push [of "b_count ?b" "b_m ?b" "b_head ?b" ?x] iv(2) len
    by (simp add: a sent_slots_def)
  then show "sent_entries (rel_sent_add b gen seq text) =
       (if b_count b = TT_SENT_MAX then tl (sent_entries b) else sent_entries b)
       @ [(gen, seq, text_bytes (b_m ?b) text)]"
    using assms(2) by (simp add: sent_entries_def evict_slots [OF assms(1)] msg_abs_def map_tl)
qed

interpretation sent: drop_oldest TT_SENT_MAX sent_inv sent_entries
  "\<lambda>(g, q, t). length t \<le> 1319" "\<lambda>b (g, q, t). rel_sent_add b g q (TextBuf t)"
proof unfold_locales
  fix b :: TTSentBuf and x :: "u32 \<times> u32 \<times> bytes"
  assume b: "sent_inv b" and x: "case x of (g, q, t) \<Rightarrow> length t \<le> 1319"
  obtain g q t where e: "x = (g, q, t)" by (cases x)
  note * = rel_sent_add_slots [OF b, of "TextBuf t" g q]
  show "sent_inv (case x of (g, q, t) \<Rightarrow> rel_sent_add b g q (TextBuf t))"
    using * x by (simp add: e text_bytes_def text_len_def)
  show "sent_entries (case x of (g, q, t) \<Rightarrow> rel_sent_add b g q (TextBuf t)) =
      (if length (sent_entries b) = 32 then tl (sent_entries b) else sent_entries b) @ [x]"
    using * x by (simp add: e text_bytes_def text_len_def)
qed (auto simp: sent_inv_def)

section \<open>Compaction\<close>

definition at_pos :: "TTSentMsg list \<Rightarrow> nat \<Rightarrow> nat \<Rightarrow> TTSentMsg" where
  "at_pos m h i = m ! ((h + i) mod TT_SENT_MAX)"

lemma at_pos_update:
  assumes "length m = TT_SENT_MAX" "i < TT_SENT_MAX" "j < TT_SENT_MAX"
  shows "at_pos (m[(h + j) mod TT_SENT_MAX := x]) h i = (if i = j then x else at_pos m h i)"
  using ring_index_inj [of i 32 j h] assms by (auto simp: at_pos_def nth_list_update)

lemma at_pos_mem: "length m = TT_SENT_MAX \<Longrightarrow> at_pos m h i \<in> set m"
  by (simp add: at_pos_def)

definition compacted :: "(TTSentMsg \<Rightarrow> bool) \<Rightarrow> nat \<Rightarrow> nat \<Rightarrow> nat \<Rightarrow> nat \<Rightarrow> TTSentMsg list
    \<Rightarrow> TTSentMsg list \<times> nat \<Rightarrow> bool" where
  "compacted gone h k r w m res \<longleftrightarrow>
     length (fst res) = TT_SENT_MAX \<and> snd res \<le> r + k \<and>
     map (at_pos (fst res) h) [0..<snd res] =
       map (at_pos m h) [0..<w] @ filter (\<lambda>e. \<not> gone e) (map (at_pos m h) [r..<r + k]) \<and>
     ((\<forall>e \<in> set m. msg_ok e) \<longrightarrow> (\<forall>e \<in> set (fst res). msg_ok e))"

lemma compacted_step:
  assumes "compacted gone h k (r + 1) w' m1 res"
    "map (at_pos m1 h) [0..<w'] = map (at_pos m h) [0..<w] @ (if gone (at_pos m h r) then [] else [at_pos m h r])"
    "map (at_pos m1 h) [r + 1..<r + 1 + k] = map (at_pos m h) [r + 1..<r + 1 + k]"
    "(\<forall>e \<in> set m. msg_ok e) \<longrightarrow> (\<forall>e \<in> set m1. msg_ok e)"
  shows "compacted gone h (Suc k) r w m res"
proof -
  have e: "[r..<r + Suc k] = r # [r + 1..<r + 1 + k]"
    using upt_conv_Cons [of r "r + Suc k"] by simp
  have c: "length (fst res) = 32" "snd res \<le> r + 1 + k"
    "map (at_pos (fst res) h) [0..<snd res] =
       map (at_pos m1 h) [0..<w'] @ filter (\<lambda>e. \<not> gone e) (map (at_pos m1 h) [r + 1..<r + 1 + k])"
    "(\<forall>e \<in> set m1. msg_ok e) \<longrightarrow> (\<forall>e \<in> set (fst res). msg_ok e)"
    using assms(1) unfolding compacted_def by blast+
  show ?thesis
    unfolding compacted_def e c(3) assms(2,3) list.map filter.simps append_assoc
  proof (intro conjI)
    show "length (fst res) = 32" by (rule c(1))
    show "snd res \<le> r + Suc k" using c(2) by simp
    show "(\<forall>e \<in> set m. msg_ok e) \<longrightarrow> (\<forall>e \<in> set (fst res). msg_ok e)"
      by (rule impI, rule mp [OF c(4)], rule mp [OF assms(4)])
  qed (cases "gone (at_pos m h r)", simp_all only: if_True if_False simp_thms append.simps)
qed

lemma compact_spec:
  "length m = TT_SENT_MAX \<Longrightarrow> w \<le> r \<Longrightarrow> r + k \<le> TT_SENT_MAX \<Longrightarrow>
   compacted gone h k r w m (compact gone h k r w m)"
proof (induction k arbitrary: r w m)
  case 0
  then show ?case by (simp add: compacted_def)
next
  case (Suc k)
  let ?i = "(h + r) mod 32"
  have r: "r < 32" using Suc.prems by simp
  note u = at_pos_update [OF Suc.prems(1)]
  have e: "m ! ?i = at_pos m h r" by (simp add: at_pos_def)
  show ?case
  proof (cases "gone (at_pos m h r)")
    case True
    let ?m = "m[?i := sent_zero]"
    have "compacted gone h k (r + 1) w ?m (compact gone h k (r + 1) w ?m)"
      using Suc.prems by (intro Suc.IH) auto
    then have "compacted gone h (Suc k) r w m (compact gone h k (r + 1) w ?m)"
      using Suc.prems r True set_list_update_ball [of m msg_ok sent_zero ?i]
      by (intro compacted_step [of gone h k r w ?m]) (auto simp: u simp del: upt_Suc)
    then show ?thesis using True by (simp add: e Let_def)
  next
    case False
    let ?j = "(h + w) mod 32"
    let ?m = "if w \<noteq> r then m[?j := m ! ?i, ?i := sent_zero] else m"
    have p: "at_pos ?m h i = (if w = r then at_pos m h i else if i = r then sent_zero
        else if i = w then at_pos m h r else at_pos m h i)" if "i < 32" for i
      using that Suc.prems r u at_pos_update [of "m[?j := m ! ?i]" i r h sent_zero]
      by (auto simp: e)
    have ok: "(\<forall>e \<in> set m. msg_ok e) \<longrightarrow> (\<forall>e \<in> set ?m. msg_ok e)"
    proof
      assume a: "\<forall>e \<in> set m. msg_ok e"
      then have "msg_ok (m ! ?i)" using at_pos_mem [OF Suc.prems(1)] e by simp
      then have "\<forall>e \<in> set (m[?j := m ! ?i, ?i := sent_zero]). msg_ok e"
        using a by (intro set_list_update_ball) simp_all
      then show "\<forall>e \<in> set ?m. msg_ok e" using a by simp
    qed
    have c1: "compacted gone h k (r + 1) (w + 1) ?m (compact gone h k (r + 1) (w + 1) ?m)"
      using Suc.prems by (intro Suc.IH) auto
    have c2: "map (at_pos ?m h) [0..<w + 1] =
        map (at_pos m h) [0..<w] @ (if gone (at_pos m h r) then [] else [at_pos m h r])"
      using Suc.prems r p False by auto
    have c3: "map (at_pos ?m h) [r + 1..<r + 1 + k] = map (at_pos m h) [r + 1..<r + 1 + k]"
      using Suc.prems p by auto
    note compacted_step [OF c1 c2 c3 ok]
    then show ?thesis using False by (simp only: compact.simps e Let_def if_False)
  qed
qed

lemma compact_buf:
  assumes "sent_inv b" "compact gone (b_head b) (b_count b) 0 0 (b_m b) = (m, w)"
  shows "sent_inv (b \<lparr>b_m := m, b_count := w\<rparr>)"
    "sent_slots (b \<lparr>b_m := m, b_count := w\<rparr>) = filter (\<lambda>e. \<not> gone e) (sent_slots b)"
proof -
  have l: "length (b_m b) = 32" "b_count b \<le> 32" using assms(1) by (auto simp: sent_inv_def)
  then have c: "compacted gone (b_head b) (b_count b) 0 0 (b_m b) (m, w)"
    using compact_spec [of "b_m b" 0 0 "b_count b" gone "b_head b"] assms(2) by simp
  then have lm: "length m = 32" by (simp add: compacted_def)
  show "sent_inv (b \<lparr>b_m := m, b_count := w\<rparr>)"
    using c assms(1) l by (auto simp: sent_inv_def compacted_def)
  have "ring_entries m' h c = map (at_pos m' h) [0..<c]" if "length m' = 32" for m' h c
    using that by (simp add: ring_entries_def at_pos_def)
  then show "sent_slots (b \<lparr>b_m := m, b_count := w\<rparr>) = filter (\<lambda>e. \<not> gone e) (sent_slots b)"
    using c l lm by (simp add: sent_slots_def compacted_def)
qed

lemma rel_sent_ack_spec:
  assumes "sent_inv b"
  shows "sent_inv (rel_sent_ack b g a)"
    "sent_entries (rel_sent_ack b g a) = filter (\<lambda>(g', q, t). \<not> (g' = g \<and> q \<le> a)) (sent_entries b)"
  using compact_buf [OF assms, of "\<lambda>e. m_gen e = g \<and> m_seq e \<le> a"]
  by (auto simp: rel_sent_ack_def sent_entries_def filter_map o_def msg_abs_def split: prod.splits)

lemma rel_sent_remove_spec:
  assumes "sent_inv b"
  shows "sent_inv (rel_sent_remove b g s)"
    "sent_entries (rel_sent_remove b g s) = filter (\<lambda>(g', q, t). \<not> (g' = g \<and> q = s)) (sent_entries b)"
  using compact_buf [OF assms, of "\<lambda>e. m_gen e = g \<and> m_seq e = s"]
  by (auto simp: rel_sent_remove_def sent_entries_def filter_map o_def msg_abs_def split: prod.splits)

section \<open>Properties of the sent ring\<close>

text \<open>C20: the sent ring refines a bounded list.  On every well-formed ring, buffering a caller's
  text appends it tagged with generation and sequence number and drops the oldest message only
  when 32 are already held; acknowledging removes exactly the messages of the acknowledged
  generation up to the acknowledged sequence number; removing drops exactly the named message;
  the order of the rest never changes and the ring stays well-formed.\<close>

theorem sent_ring_refines:
  assumes "sent_inv b" "length t \<le> TT_FRAME_DATA_MAX"
  shows "sent_inv (rel_sent_add b g q (TextBuf t)) \<and> sent_inv (rel_sent_ack b g q)
      \<and> sent_inv (rel_sent_remove b g q)
      \<and> sent_entries (rel_sent_add b g q (TextBuf t))
          = drop (length (sent_entries b) + 1 - TT_SENT_MAX) (sent_entries b @ [(g, q, t)])
      \<and> sent_entries (rel_sent_ack b g q)
          = filter (\<lambda>(g', q', t'). \<not> (g' = g \<and> q' \<le> q)) (sent_entries b)
      \<and> sent_entries (rel_sent_remove b g q)
          = filter (\<lambda>(g', q', t'). \<not> (g' = g \<and> q' = q)) (sent_entries b)"
  using sent.inv_add [OF assms(1), of "(g, q, t)"] sent.entries_add_drop [OF assms(1), of "(g, q, t)"]
    rel_sent_ack_spec [OF assms(1)] rel_sent_remove_spec [OF assms(1)] assms(2)
  by simp

theorem sent_ring_refines_witness:
  "sent_entries (rel_sent_add sentbuf_zero 5 1 (TextBuf [7])) = [(5, 1, [7])]
   \<and> sent_entries (rel_sent_ack (rel_sent_add sentbuf_zero 5 1 (TextBuf [7])) 5 1) = []"
proof -
  have a: "sent_inv (rel_sent_add sentbuf_zero 5 1 (TextBuf [7]))"
    "sent_entries (rel_sent_add sentbuf_zero 5 1 (TextBuf [7])) = [(5, 1, [7])]"
    using sent_ring_refines [of sentbuf_zero "[7]" 5 1] by simp_all
  then show ?thesis
    using sent_ring_refines [OF a(1), of "[]" 5 1] by simp
qed

text \<open>Re-sending the oldest message of a full ring loses its text.  The re-send path hands
  \<^verbatim>\<open>rel_sent_add\<close> a pointer into the ring; when the ring is full and the pointer is the head
  slot, the eviction clears that slot before it is copied, so the message is buffered under the
  new generation and sequence number with its length kept and every byte zero.\<close>

theorem resend_head_of_full_ring_zeroed:
  assumes "sent_inv b" "b_count b = TT_SENT_MAX" "n \<le> TT_FRAME_DATA_MAX"
  shows "sent_entries (rel_sent_add b g q (TextSlot (b_head b) n))
    = tl (sent_entries b) @ [(g, q, replicate n 0)]"
proof -
  have h: "b_head b < length (b_m b)" using assms(1) by (simp add: sent_inv_def)
  have "text_bytes (b_m (evict b)) (TextSlot (b_head b) n) = replicate n 0"
    using assms(2,3) h by (simp add: text_bytes_def evict_def sent_zero_def min_absorb1)
  then show ?thesis
    using rel_sent_add_slots(2) [OF assms(1), of "TextSlot (b_head b) n" g q] assms(2,3)
    by (simp add: text_len_def)
qed

definition full_ring :: TTSentBuf where
  "full_ring = foldl (\<lambda>b i. rel_sent_add b 1 (of_nat i) (TextBuf [65, 66])) sentbuf_zero [0..<32]"

lemma full_ring_props: "sent_inv full_ring" "b_count full_ring = 32"
proof -
  let ?xs = "map (\<lambda>i. (1, of_nat i, [65, 66])) [0..<32]"
  have e: "full_ring = foldl (\<lambda>b (g, q, t). rel_sent_add b g q (TextBuf t)) sentbuf_zero ?xs"
    by (simp add: full_ring_def foldl_map)
  have ok: "\<forall>x \<in> set ?xs. case x of (g, q, t) \<Rightarrow> length t \<le> 1319" by auto
  show "sent_inv full_ring"
    unfolding e by (rule sent.inv_foldl [OF sent_inv_zero ok])
  have "length (sent_entries full_ring) = 32"
    unfolding e by (subst sent.no_loss [OF sent_inv_zero ok]) simp_all
  then show "b_count full_ring = 32" by simp
qed

theorem resend_head_of_full_ring_zeroed_witness:
  "sent_entries (rel_sent_add full_ring 9 100 (TextSlot (b_head full_ring) 2))
    = tl (sent_entries full_ring) @ [(9, 100, [0, 0])]"
  using resend_head_of_full_ring_zeroed [OF full_ring_props, of 2 9 100]
  by (simp add: numeral_2_eq_2)

end
