(* ===== verification/Session.thy ===== *)
theory Session
  imports Ratchet Reliable
begin

text \<open>
  The E2EE session state machine, \<^verbatim>\<open>src/src/session.c\<close> and \<^verbatim>\<open>session.h\<close>:
  the three-leg handshake (INIT, REPLY), the double ratchet with its re-key headers (KEMPUB,
  REKEY), the reliable transport (ACK, RESEND), the lossy carrier, the pending stash and the
  retransmission timer.  A negative status is \<open>Inl\<close> of its enumerator, a non-negative
  return is \<open>Inr\<close> of the bytes written (\<open>Inr []\<close> is the return value 0).  The number of
  random draws made so far is threaded through; the clock is an argument.  Buffers that C keeps
  with a length are lists; a zeroed key is thirty-two zero bytes.
\<close>

section \<open>State\<close>

abbreviation (input) "TT_SESSION_REKEY_EVERY \<equiv> (64 :: u16)"
abbreviation (input) "TT_SESSION_PENDING_MAX \<equiv> (4 :: nat)"

datatype TTE2EEStatus =
    TT_E2EE_NO_SESSION | TT_E2EE_NOKEY | TT_E2EE_DECODE_FAIL | TT_E2EE_BAD_ID
  | TT_E2EE_SEQ_TOO_OLD | TT_E2EE_REPLAY | TT_E2EE_BUSY | TT_E2EE_BAD_STATE | TT_E2EE_CARRIER

type_synonym frame_result = "TTE2EEStatus + bytes"

record TTReliable =
  rel_sent :: TTSentBuf
  rel_recv_acked :: u32
  rel_ack_due :: bool
  rel_resend_req_pending :: bool
  rel_resend_req_gen :: u32
  rel_resend_req_from :: u32
  rel_resend_rep_pending :: bool
  rel_resend_rep_gen :: u32
  rel_resend_rep_from :: u32
  rel_resend_rep_pos :: u16

record TTE2EEEnv =
  e_self_sk :: bytes
  e_self_pk :: bytes
  e_peer_pk :: "bytes option"

record TTRekey =
  k_eph_sk :: bytes
  k_eph_pk :: bytes
  k_have_kem :: bool
  k_kem_pk :: bytes
  k_kem_sk :: bytes
  k_peer_have :: bool
  k_peer_kem_pk :: bytes
  k_peer_eph_pk :: bytes
  k_rekey_due :: bool
  k_awaiting_peer :: bool
  k_published :: bool
  k_post_fold_publish :: bool
  k_publish_back :: bool
  k_carrier :: bytes

record TTSession =
  s_active :: bool
  s_lossy :: bool
  s_i_am_initiator :: bool
  s_init_pending :: bool
  s_reply_due :: bool
  s_init_at :: int
  s_send :: TTRatchet
  s_recv :: TTRatchet
  s_rekey :: TTRekey
  s_root :: bytes
  s_eph_a2_sk :: bytes
  s_eph_a2_pk :: bytes
  s_eph_a3_sk :: bytes
  s_eph_a3_pk :: bytes
  s_init_seal :: bytes
  s_kem_pk :: bytes
  s_kem_sk :: bytes
  s_eph_b1_sk :: bytes
  s_eph_b1_pk :: bytes
  s_eph_b3_sk :: bytes
  s_eph_b3_pk :: bytes
  s_kem_ct :: bytes
  s_reply_cache :: bytes
  s_last_in :: bytes
  s_no_session_notified :: bool
  s_rel :: TTReliable
  s_pending :: "bytes list"

definition reliable_zero :: TTReliable where
  "reliable_zero = \<lparr>rel_sent = sentbuf_zero, rel_recv_acked = 0, rel_ack_due = False,
     rel_resend_req_pending = False, rel_resend_req_gen = 0, rel_resend_req_from = 0,
     rel_resend_rep_pending = False, rel_resend_rep_gen = 0, rel_resend_rep_from = 0,
     rel_resend_rep_pos = 0\<rparr>"

definition rekey_zero :: TTRekey where
  "rekey_zero = \<lparr>k_eph_sk = replicate 32 0, k_eph_pk = replicate 32 0, k_have_kem = False,
     k_kem_pk = replicate 1158 0, k_kem_sk = replicate 1763 0, k_peer_have = False,
     k_peer_kem_pk = replicate 1158 0, k_peer_eph_pk = replicate 32 0, k_rekey_due = False,
     k_awaiting_peer = False, k_published = False, k_post_fold_publish = False,
     k_publish_back = False, k_carrier = []\<rparr>"

text \<open>\<^verbatim>\<open>tt_session_init\<close> and \<^verbatim>\<open>tt_session_clear\<close> both zero the whole structure.\<close>

definition tt_session_init :: TTSession where
  "tt_session_init = \<lparr>s_active = False, s_lossy = False, s_i_am_initiator = False,
     s_init_pending = False, s_reply_due = False, s_init_at = 0,
     s_send = ratchet_zero, s_recv = ratchet_zero, s_rekey = rekey_zero, s_root = replicate 32 0,
     s_eph_a2_sk = replicate 32 0, s_eph_a2_pk = replicate 32 0,
     s_eph_a3_sk = replicate 32 0, s_eph_a3_pk = replicate 32 0, s_init_seal = replicate 32 0,
     s_kem_pk = replicate 1158 0, s_kem_sk = replicate 1763 0,
     s_eph_b1_sk = replicate 32 0, s_eph_b1_pk = replicate 32 0,
     s_eph_b3_sk = replicate 32 0, s_eph_b3_pk = replicate 32 0, s_kem_ct = replicate 1039 0,
     s_reply_cache = [], s_last_in = [], s_no_session_notified = False,
     s_rel = reliable_zero, s_pending = []\<rparr>"

definition tt_session_clear :: TTSession where
  "tt_session_clear = tt_session_init"

definition reestablish_preserve :: "TTSession \<Rightarrow> TTSession" where
  "reestablish_preserve s =
     tt_session_clear \<lparr>s_pending := s_pending s, s_rel := s_rel s, s_lossy := s_lossy s\<rparr>"

section \<open>Values derived from the handshake root\<close>

text \<open>The label is passed with length 12: its eleven characters and the terminating zero.\<close>

definition control_key :: "sodium \<Rightarrow> TTSession \<Rightarrow> bytes" where
  "control_key L s = tt_kdf_root L (s_root s @ [1]) (ascii ''tt-e2ee-ctl'' @ [0])"

definition rel_gen :: "sodium \<Rightarrow> TTSession \<Rightarrow> u32" where
  "rel_gen L s =
     (let g = derive_from_root L (s_root s) ''tt-e2ee-gen''
      in rd32 (g ! 0) (g ! 1) (g ! 2) (g ! 3))"

definition hex_digit :: "byte \<Rightarrow> char" where
  "hex_digit v = ''0123456789abcdef'' ! unat v"

definition tt_session_verify_code :: "sodium \<Rightarrow> TTSession \<Rightarrow> string option" where
  "tt_session_verify_code L s =
     (if \<not> s_active s then None
      else
        let vc = derive_from_root L (s_root s) ''tt-e2ee-vcode''
        in Some (concat (map (\<lambda>b. [hex_digit (drop_bit 4 b), hex_digit (b AND 0x0f)]) (take 16 vc))))"

section \<open>Handshake\<close>

definition establish ::
  "sodium \<Rightarrow> nat \<Rightarrow> TTSession \<Rightarrow> bytes \<Rightarrow> bytes \<Rightarrow> bytes \<Rightarrow> bytes \<Rightarrow> bytes \<Rightarrow> bytes \<Rightarrow> bool
   \<Rightarrow> TTSession \<times> nat" where
  "establish L w s f1 f2 f3 kem_ss IKa IKb i_am_initiator =
     (let root = tt_kdf_root L (f1 @ f2 @ f3 @ kem_ss) (ascii ''tt-e2ee-root:'' @ IKa @ IKb);
          ((eph_pk, eph_sk), w1) = tt_dh_keygen L w;
          ((kem_pk, kem_sk), w2) = tt_kem_keygen L w1
      in (s \<lparr>s_root := root,
             s_send := ratchet_reset L root i_am_initiator,
             s_recv := ratchet_reset L root (\<not> i_am_initiator),
             s_rekey := (s_rekey s) \<lparr>k_eph_pk := eph_pk, k_eph_sk := eph_sk,
                          k_kem_pk := kem_pk, k_kem_sk := kem_sk, k_have_kem := True\<rparr>\<rparr>, w2))"

definition build_init :: "sodium \<Rightarrow> nat \<Rightarrow> TTSession \<Rightarrow> TTE2EEEnv \<Rightarrow> nat \<Rightarrow> bytes option \<times> nat" where
  "build_init L w s env cap =
     (let hdr = e_self_pk env @ s_eph_a2_pk s @ s_eph_a3_pk s @ s_kem_pk s;
          nonce = sd_randombytes L w TT_NONCE24
      in (tt_frame_encode L cap TT_FRAME_INIT 0 TT_FRAME_FLAG_KEM (s_init_seal s) nonce hdr [], Suc w))"

definition tt_session_start ::
  "sodium \<Rightarrow> nat \<Rightarrow> TTSession \<Rightarrow> TTE2EEEnv \<Rightarrow> int \<Rightarrow> nat \<Rightarrow> frame_result \<times> TTSession \<times> nat" where
  "tt_session_start L w s env now cap =
     (case e_peer_pk env of
        None \<Rightarrow> (Inl TT_E2EE_NOKEY, s, w)
      | Some peer_pk \<Rightarrow>
          let s0 = (reestablish_preserve s) \<lparr>s_i_am_initiator := True, s_init_pending := True,
                                             s_init_at := now\<rparr>;
              ((a2_pk, a2_sk), w1) = tt_dh_keygen L w;
              ((a3_pk, a3_sk), w2) = tt_dh_keygen L w1;
              ((kem_pk, kem_sk), w3) = tt_kem_keygen L w2;
              s1 = s0 \<lparr>s_eph_a2_pk := a2_pk, s_eph_a2_sk := a2_sk,
                       s_eph_a3_pk := a3_pk, s_eph_a3_sk := a3_sk,
                       s_kem_pk := kem_pk, s_kem_sk := kem_sk\<rparr>
          in case seal_key_derive L a2_sk peer_pk peer_pk of
               None \<Rightarrow> (Inl TT_E2EE_BAD_ID, s1, w3)
             | Some seal \<Rightarrow>
                 let s2 = s1 \<lparr>s_init_seal := seal\<rparr>
                 in case build_init L w3 s2 env cap of
                      (Some f, w4) \<Rightarrow> (Inr f, s2, w4)
                    | (None, w4) \<Rightarrow> (Inl TT_E2EE_BAD_STATE, s2, w4))"

definition tt_session_reply ::
  "sodium \<Rightarrow> nat \<Rightarrow> TTSession \<Rightarrow> TTE2EEEnv \<Rightarrow> nat \<Rightarrow> frame_result \<times> TTSession \<times> nat" where
  "tt_session_reply L w s env cap =
     (case e_peer_pk env of
        None \<Rightarrow> (Inl TT_E2EE_NOKEY, s, w)
      | Some peer_pk \<Rightarrow>
          if \<not> s_reply_due s then
            (if length (s_reply_cache s) > 0 then
               if cap < length (s_reply_cache s) then (Inl TT_E2EE_BAD_STATE, s, w)
               else (Inr (s_reply_cache s), s, w)
             else (Inl TT_E2EE_BAD_STATE, s, w))
          else
            let s1 = s \<lparr>s_reply_due := False\<rparr>;
                hdr = e_self_pk env @ s_eph_b1_pk s @ s_eph_b3_pk s @ s_kem_ct s
            in case seal_key_derive L (s_eph_b1_sk s) peer_pk peer_pk of
                 None \<Rightarrow> (Inl TT_E2EE_BAD_ID, s1, w)
               | Some key \<Rightarrow>
                   (case tt_frame_encode L cap TT_FRAME_REPLY 0 TT_FRAME_FLAG_KEM key
                           (sd_randombytes L w TT_NONCE24) hdr [] of
                      None \<Rightarrow> (Inl TT_E2EE_BAD_STATE, s1, Suc w)
                    | Some f \<Rightarrow> (Inr f, s1 \<lparr>s_reply_cache := f\<rparr>, Suc w)))"

section \<open>Receive\<close>

type_synonym feed_result = "frame_result \<times> bool \<times> TTSession \<times> nat"

definition hdr_at :: "nat \<Rightarrow> nat \<Rightarrow> TTFrameDesc \<Rightarrow> bytes" where
  "hdr_at off n d = take n (drop off (fd_hdr d))"

text \<open>An INIT that opens while we are the active responder is taken for a retransmit.\<close>

definition init_retransmit :: "sodium \<Rightarrow> TTSession \<Rightarrow> TTE2EEEnv \<Rightarrow> TTFrameDesc \<Rightarrow> bytes \<Rightarrow> bool" where
  "init_retransmit L s env d inp =
     (s_active s \<and> \<not> s_i_am_initiator s \<and>
      (case seal_key_derive L (e_self_sk env) (hdr_at 32 32 d) (e_self_pk env) of
         None \<Rightarrow> False
       | Some key0 \<Rightarrow>
           (case tt_frame_decode L inp key0 16 of
              None \<Rightarrow> False
            | Some (dd, pt) \<Rightarrow> length pt = 0 \<and> fd_seq dd = 0)))"

text \<open>The body for a fresh INIT: open it, encapsulate, run the three DH legs, establish.\<close>

definition accept_init ::
  "sodium \<Rightarrow> nat \<Rightarrow> TTSession \<Rightarrow> TTE2EEEnv \<Rightarrow> bytes \<Rightarrow> TTFrameDesc \<Rightarrow> bytes \<Rightarrow> feed_result" where
  "accept_init L w s env peer_pk d0 inp =
     (case seal_key_derive L (e_self_sk env) (hdr_at 32 32 d0) (e_self_pk env) of
        None \<Rightarrow> (Inl TT_E2EE_BAD_ID, False, s, w)
      | Some key \<Rightarrow>
          (case tt_frame_decode L inp key 16 of
             None \<Rightarrow> (Inl TT_E2EE_DECODE_FAIL, False, s, w)
           | Some (d, _) \<Rightarrow>
               let ((b1_pk, b1_sk), w1) = tt_dh_keygen L w;
                   ((b3_pk, b3_sk), w2) = tt_dh_keygen L w1;
                   ((ct, ss), w3) = tt_kem_enc L w2 (hdr_at 96 TT_KEM_PK d);
                   s1 = s \<lparr>s_init_seal := key, s_eph_b1_pk := b1_pk, s_eph_b1_sk := b1_sk,
                           s_eph_b3_pk := b3_pk, s_eph_b3_sk := b3_sk, s_kem_ct := ct\<rparr>
               in case (tt_dh_shared L b1_sk peer_pk,
                        tt_dh_shared L (e_self_sk env) (hdr_at 32 32 d),
                        tt_dh_shared L b3_sk (hdr_at 64 32 d)) of
                    (Some f1, Some f2, Some f3) \<Rightarrow>
                      (case establish L w3 s1 f1 f2 f3 ss peer_pk (e_self_pk env) False of
                         (s2, w4) \<Rightarrow>
                           (Inr [], True,
                            s2 \<lparr>s_i_am_initiator := False, s_active := True, s_reply_due := True,
                                s_init_pending := False\<rparr>, w4))
                  | _ \<Rightarrow> (Inl TT_E2EE_BAD_ID, False, s1, w3)))"

definition feed_init ::
  "sodium \<Rightarrow> nat \<Rightarrow> TTSession \<Rightarrow> TTE2EEEnv \<Rightarrow> TTFrameDesc \<Rightarrow> bytes \<Rightarrow> feed_result" where
  "feed_init L w s env d inp =
     (if length (fd_hdr d) \<noteq> TT_HDR_INIT then (Inl TT_E2EE_DECODE_FAIL, False, s, w)
      else case e_peer_pk env of
        None \<Rightarrow> (Inl TT_E2EE_BAD_ID, False, s, w)
      | Some peer_pk \<Rightarrow>
          if hdr_at 0 32 d \<noteq> peer_pk then (Inl TT_E2EE_BAD_ID, False, s, w)
          else if init_retransmit L s env d inp then (Inr [], True, s, w)
          else if s_i_am_initiator s \<and> (s_active s \<or> s_init_pending s) then
            if s_active s \<or> memcmp_lt (hdr_at 0 32 d) (e_self_pk env)
            then accept_init L w (reestablish_preserve s) env peer_pk d inp
            else (Inr [], False, s, w)
          else accept_init L w s env peer_pk d inp)"

definition feed_reply ::
  "sodium \<Rightarrow> nat \<Rightarrow> TTSession \<Rightarrow> TTE2EEEnv \<Rightarrow> TTFrameDesc \<Rightarrow> bytes \<Rightarrow> feed_result" where
  "feed_reply L w s env d0 inp =
     (if \<not> s_init_pending s \<or> s_active s then (Inr [], False, s, w)
      else if length (fd_hdr d0) \<noteq> TT_HDR_REPLY then (Inl TT_E2EE_DECODE_FAIL, False, s, w)
      else case e_peer_pk env of
        None \<Rightarrow> (Inl TT_E2EE_BAD_ID, False, s, w)
      | Some peer_pk \<Rightarrow>
          if hdr_at 0 32 d0 \<noteq> peer_pk then (Inl TT_E2EE_BAD_ID, False, s, w)
          else case seal_key_derive L (e_self_sk env) (hdr_at 32 32 d0) (e_self_pk env) of
            None \<Rightarrow> (Inl TT_E2EE_BAD_ID, False, s, w)
          | Some key \<Rightarrow>
              (case tt_frame_decode L inp key 16 of
                 None \<Rightarrow> (Inl TT_E2EE_DECODE_FAIL, False, s, w)
               | Some (d, _) \<Rightarrow>
                   (case (tt_dh_shared L (e_self_sk env) (hdr_at 32 32 d),
                          tt_dh_shared L (s_eph_a2_sk s) peer_pk,
                          tt_dh_shared L (s_eph_a3_sk s) (hdr_at 64 32 d)) of
                      (Some f1, Some f2, Some f3) \<Rightarrow>
                        (case establish L w s f1 f2 f3
                                (tt_kem_dec L (hdr_at 96 TT_KEM_CT d) (s_kem_sk s))
                                (e_self_pk env) peer_pk True of
                           (s1, w1) \<Rightarrow>
                             (Inr [], True, s1 \<lparr>s_init_pending := False, s_i_am_initiator := True,
                                                 s_active := True\<rparr>, w1))
                    | _ \<Rightarrow> (Inl TT_E2EE_BAD_ID, False, s, w))))"

definition feed_control ::
  "sodium \<Rightarrow> nat \<Rightarrow> TTSession \<Rightarrow> TTFrameDesc \<Rightarrow> bytes \<Rightarrow> feed_result" where
  "feed_control L w s d0 inp =
     (if \<not> s_active s then (Inl TT_E2EE_NO_SESSION, False, s, w)
      else if s_lossy s then (Inl TT_E2EE_DECODE_FAIL, False, s, w)
      else if length (fd_hdr d0) \<noteq> 0 then (Inl TT_E2EE_DECODE_FAIL, False, s, w)
      else case tt_frame_decode L inp (control_key L s) 16 of
        None \<Rightarrow> (Inl TT_E2EE_DECODE_FAIL, False, s, w)
      | Some (d, pt) \<Rightarrow>
          if length pt \<noteq> 8 then (Inl TT_E2EE_DECODE_FAIL, False, s, w)
          else
            let a = rd32 (pt ! 0) (pt ! 1) (pt ! 2) (pt ! 3);
                b = rd32 (pt ! 4) (pt ! 5) (pt ! 6) (pt ! 7)
            in if fd_type d = TT_FRAME_ACK
               then (Inr [], False, s \<lparr>s_rel := (s_rel s) \<lparr>rel_sent := rel_sent_ack (rel_sent (s_rel s)) b a\<rparr>\<rparr>, w)
               else (Inr [], False, s \<lparr>s_rel := (s_rel s) \<lparr>rel_resend_rep_pending := True,
                       rel_resend_rep_gen := a, rel_resend_rep_from := b, rel_resend_rep_pos := 0\<rparr>\<rparr>, w))"

text \<open>Re-key material of a decrypted DATA frame.\<close>

definition apply_rekey :: "sodium \<Rightarrow> nat \<Rightarrow> TTSession \<Rightarrow> TTFrameDesc \<Rightarrow> TTSession \<times> nat" where
  "apply_rekey L w s d =
     (let ss = tt_kem_dec L (hdr_at 0 TT_KEM_CT d) (k_kem_sk (s_rekey s))
      in case tt_dh_shared L (k_eph_sk (s_rekey s)) (hdr_at TT_KEM_CT 32 d) of
           None \<Rightarrow> (s, w)
         | Some dh \<Rightarrow>
             let ((eph_pk, eph_sk), w1) = tt_dh_keygen L w;
                 ((kem_pk, kem_sk), w2) = tt_kem_keygen L w1
             in (s \<lparr>s_recv := ratchet_fold L (s_recv s) dh ss,
                    s_rekey := (s_rekey s) \<lparr>k_peer_eph_pk := hdr_at TT_KEM_CT 32 d,
                       k_eph_pk := eph_pk, k_eph_sk := eph_sk, k_kem_pk := kem_pk, k_kem_sk := kem_sk,
                       k_have_kem := True, k_published := False, k_post_fold_publish := True\<rparr>\<rparr>, w2))"

definition apply_kempub :: "sodium \<Rightarrow> TTSession \<Rightarrow> TTFrameDesc \<Rightarrow> TTSession" where
  "apply_kempub L s d =
     (case tt_dh_shared L (k_eph_sk (s_rekey s)) (hdr_at TT_KEM_PK 32 d) of
        None \<Rightarrow> s
      | Some _ \<Rightarrow>
          let k = (s_rekey s) \<lparr>k_peer_kem_pk := hdr_at 0 TT_KEM_PK d,
                               k_peer_eph_pk := hdr_at TT_KEM_PK 32 d, k_peer_have := True\<rparr>;
              k' = (if k_awaiting_peer k then k \<lparr>k_awaiting_peer := False, k_rekey_due := True\<rparr>
                    else if k_have_kem k \<and> \<not> k_published k then k \<lparr>k_publish_back := True\<rparr>
                    else k)
          in s \<lparr>s_rekey := k'\<rparr>)"

definition apply_hdr :: "sodium \<Rightarrow> nat \<Rightarrow> TTSession \<Rightarrow> TTFrameDesc \<Rightarrow> TTSession \<times> nat" where
  "apply_hdr L w s d =
     (if length (fd_hdr d) = TT_HDR_DATA_REKEY then apply_rekey L w s d
      else if length (fd_hdr d) = TT_HDR_DATA_KEMPUB then (apply_kempub L s d, w)
      else (s, w))"

text \<open>
  Key selection without committing: the frame key with, for a key taken from the skipped store,
  the ratchet without that entry.
\<close>

definition data_key :: "sodium \<Rightarrow> TTRatchet \<Rightarrow> u32 \<Rightarrow> TTE2EEStatus + (bytes \<times> TTRatchet \<times> bool)" where
  "data_key L r seq =
     (if seq = r_seq r then Inr (fst (msg_key_at L r seq), r, False)
      else if seq > r_seq r then
        if seq - r_seq r \<ge> TT_SESSION_MAX_SKIP then Inl TT_E2EE_SEQ_TOO_OLD
        else Inr (fst (msg_key_at L r seq), r, False)
      else case skipped_take r seq of
             None \<Rightarrow> Inl TT_E2EE_REPLAY
           | Some (key, r') \<Rightarrow> Inr (key, r', True))"

definition note_ack :: "TTSession \<Rightarrow> TTSession" where
  "note_ack s =
     (if \<not> s_lossy s \<and> r_seq (s_recv s) - 1 > rel_recv_acked (s_rel s)
      then s \<lparr>s_rel := (s_rel s) \<lparr>rel_recv_acked := r_seq (s_recv s) - 1, rel_ack_due := True\<rparr>\<rparr>
      else s)"

definition note_desync :: "sodium \<Rightarrow> TTSession \<Rightarrow> TTSession" where
  "note_desync L s =
     (if s_active s \<and> \<not> s_lossy s
      then s \<lparr>s_rel := (s_rel s) \<lparr>rel_resend_req_pending := True, rel_resend_req_gen := rel_gen L s,
                                  rel_resend_req_from := r_seq (s_recv s)\<rparr>\<rparr>
      else s)"

definition feed_data ::
  "sodium \<Rightarrow> nat \<Rightarrow> TTSession \<Rightarrow> TTFrameDesc \<Rightarrow> bytes \<Rightarrow> nat \<Rightarrow> feed_result" where
  "feed_data L w s d0 inp pt_cap =
     (if \<not> s_active s then (Inl TT_E2EE_NO_SESSION, False, s, w)
      else if length (fd_hdr d0) \<noteq> 0 \<and> length (fd_hdr d0) \<noteq> TT_HDR_DATA_REKEY
              \<and> length (fd_hdr d0) \<noteq> TT_HDR_DATA_KEMPUB
      then (Inl TT_E2EE_DECODE_FAIL, False, s, w)
      else case data_key L (s_recv s) (fd_seq d0) of
        Inl e \<Rightarrow> (Inl e, False, s, w)
      | Inr (key, r', from_ring) \<Rightarrow>
          (case tt_frame_decode L inp key pt_cap of
             None \<Rightarrow>
               let s1 = s \<lparr>s_recv := if from_ring then skipped_add r' (fd_seq d0, key) else r'\<rparr>
               in (Inl TT_E2EE_DECODE_FAIL, False, note_desync L s1, w)
           | Some (d, pt) \<Rightarrow>
               let s1 = s \<lparr>s_recv := if from_ring then r' else recv_commit L r' (fd_seq d)\<rparr>
               in case apply_hdr L w (note_ack s1) d of
                    (s2, w') \<Rightarrow> (Inr pt, False, s2, w')))"

definition tt_session_feed ::
  "sodium \<Rightarrow> nat \<Rightarrow> TTSession \<Rightarrow> TTE2EEEnv \<Rightarrow> bytes \<Rightarrow> nat \<Rightarrow> feed_result" where
  "tt_session_feed L w s env inp pt_cap =
     (case tt_frame_peek inp of
        None \<Rightarrow> (Inl TT_E2EE_DECODE_FAIL, False, s, w)
      | Some d \<Rightarrow>
          let s1 = (if fd_type d = TT_FRAME_DATA then s \<lparr>s_last_in := inp\<rparr> else s)
          in if fd_type d = TT_FRAME_INIT then feed_init L w s1 env d inp
             else if fd_type d = TT_FRAME_REPLY then feed_reply L w s1 env d inp
             else if fd_type d = TT_FRAME_ACK \<or> fd_type d = TT_FRAME_RESEND
               then feed_control L w s1 d inp
             else feed_data L w s1 d inp pt_cap)"

section \<open>Send\<close>

text \<open>The header choice of \<^verbatim>\<open>emit_frame\<close>: header, flags, fold material, session, draws.\<close>

definition data_flags :: "sodium \<Rightarrow> byte" where
  "data_flags L = (if tt_aead_gcm_available L then TT_FRAME_FLAG_GCM OR TT_FRAME_FLAG_AES_HW else 0)"

definition publish_hdr :: "TTRekey \<Rightarrow> bytes" where
  "publish_hdr k = k_kem_pk k @ k_eph_pk k"

definition select_header ::
  "sodium \<Rightarrow> nat \<Rightarrow> TTRekey \<Rightarrow> bytes \<times> byte \<times> (bytes \<times> bytes) option \<times> TTRekey \<times> nat" where
  "select_header L w k =
     (if k_post_fold_publish k then
        (publish_hdr k, TT_FRAME_FLAG_PK, None,
         k \<lparr>k_published := True, k_post_fold_publish := False, k_publish_back := False\<rparr>, w)
      else if k_rekey_due k \<and> k_peer_have k then
        (case tt_dh_shared L (k_eph_sk k) (k_peer_eph_pk k) of
           None \<Rightarrow> ([], 0, None, k, w)
         | Some dh \<Rightarrow>
             let ((ct, ss), w1) = tt_kem_enc L w (k_peer_kem_pk k)
             in (ct @ k_eph_pk k, TT_FRAME_FLAG_KEM OR TT_FRAME_FLAG_PK, Some (dh, ss), k, w1))
      else if k_rekey_due k \<and> \<not> k_awaiting_peer k then
        let (k1, w1) = (if k_have_kem k then (k, w)
                        else let ((kem_pk, kem_sk), w1) = tt_kem_keygen L w
                             in (k \<lparr>k_kem_pk := kem_pk, k_kem_sk := kem_sk, k_have_kem := True\<rparr>, w1))
        in (publish_hdr k1, TT_FRAME_FLAG_PK, None,
            k1 \<lparr>k_published := True, k_awaiting_peer := True, k_rekey_due := False\<rparr>, w1)
      else if k_publish_back k then
        (publish_hdr k, TT_FRAME_FLAG_PK, None, k \<lparr>k_published := True, k_publish_back := False\<rparr>, w)
      else ([], 0, None, k, w))"

definition auto_rekey :: "TTSession \<Rightarrow> TTRekey" where
  "auto_rekey s =
     (if \<not> k_awaiting_peer (s_rekey s) \<and> r_since_fold (s_send s) \<ge> TT_SESSION_REKEY_EVERY
      then (s_rekey s) \<lparr>k_rekey_due := True\<rparr> else s_rekey s)"

text \<open>What follows a successful encode: buffer the text, fold or count, park a carrier.\<close>

definition commit_send ::
  "sodium \<Rightarrow> TTSession \<Rightarrow> u32 \<Rightarrow> text_src \<Rightarrow> (bytes \<times> bytes) option \<Rightarrow> nat \<Rightarrow> bytes \<Rightarrow> TTSession" where
  "commit_send L s seq text do_fold hdr_len frame =
     (let s1 = (if s_lossy s then s
                else s \<lparr>s_rel := (s_rel s) \<lparr>rel_sent :=
                          rel_sent_add (rel_sent (s_rel s)) (rel_gen L s) seq text\<rparr>\<rparr>);
          s2 = (case do_fold of
                  Some (dh, ss) \<Rightarrow>
                    s1 \<lparr>s_send := (ratchet_fold L (s_send s1) dh ss) \<lparr>r_since_fold := 0\<rparr>,
                        s_rekey := (s_rekey s1) \<lparr>k_rekey_due := False, k_peer_have := False\<rparr>\<rparr>
                | None \<Rightarrow>
                    s1 \<lparr>s_send := (s_send s1) \<lparr>r_since_fold := r_since_fold (s_send s1) + 1\<rparr>\<rparr>)
      in if s_lossy s2 \<and> (hdr_len = TT_HDR_DATA_REKEY \<or> hdr_len = TT_HDR_DATA_KEMPUB)
            \<and> length frame \<le> TT_FRAME_MAX
         then s2 \<lparr>s_rekey := (s_rekey s2) \<lparr>k_carrier := frame\<rparr>\<rparr>
         else s2)"

definition emit_frame ::
  "sodium \<Rightarrow> nat \<Rightarrow> TTSession \<Rightarrow> text_src \<Rightarrow> nat \<Rightarrow> bool \<Rightarrow> frame_result \<times> TTSession \<times> nat" where
  "emit_frame L w s text cap carrier_only =
     (if s_lossy s \<and> length (k_carrier (s_rekey s)) > 0 then (Inl TT_E2EE_CARRIER, s, w)
      else
        let k = auto_rekey s;
            (hdr, hflags, do_fold, k1, w1) =
              (if \<not> s_lossy s \<or> carrier_only then select_header L w k else ([], 0, None, k, w));
            flags = data_flags L OR hflags;
            (send, seq, key, nonce) = send_key L (s_send s);
            s1 = s \<lparr>s_rekey := k1, s_send := send\<rparr>
        in case tt_frame_encode L cap TT_FRAME_DATA seq flags key nonce hdr
                  (text_bytes (b_m (rel_sent (s_rel s))) text) of
             None \<Rightarrow> (Inl TT_E2EE_BAD_STATE, s1, w1)
           | Some f \<Rightarrow> (Inr f, commit_send L s1 seq text do_fold (length hdr) f, w1))"

definition tt_session_rekey_pending :: "TTSession \<Rightarrow> bool" where
  "tt_session_rekey_pending s =
     (if \<not> s_active s then False
      else if \<not> k_awaiting_peer (s_rekey s) \<and> r_since_fold (s_send s) \<ge> TT_SESSION_REKEY_EVERY then True
      else if k_rekey_due (s_rekey s) \<and> k_peer_have (s_rekey s) then True
      else if k_rekey_due (s_rekey s) \<and> \<not> k_awaiting_peer (s_rekey s) then True
      else if k_post_fold_publish (s_rekey s) then True
      else if k_publish_back (s_rekey s) then True
      else False)"

definition tt_session_carrier :: "sodium \<Rightarrow> nat \<Rightarrow> TTSession \<Rightarrow> nat \<Rightarrow> frame_result \<times> TTSession \<times> nat" where
  "tt_session_carrier L w s cap =
     (if \<not> s_active s then (Inr [], s, w)
      else if length (k_carrier (s_rekey s)) > 0 then
        if cap < length (k_carrier (s_rekey s)) then (Inl TT_E2EE_BAD_STATE, s, w)
        else (Inr (k_carrier (s_rekey s)), s, w)
      else if \<not> tt_session_rekey_pending s then (Inr [], s, w)
      else emit_frame L w s (TextBuf []) cap True)"

definition tt_session_carrier_pending :: "TTSession \<Rightarrow> bool" where
  "tt_session_carrier_pending s = (s_lossy s \<and> length (k_carrier (s_rekey s)) > 0)"

definition tt_session_carrier_done :: "TTSession \<Rightarrow> TTSession" where
  "tt_session_carrier_done s = s \<lparr>s_rekey := (s_rekey s) \<lparr>k_carrier := []\<rparr>\<rparr>"

definition tt_session_send ::
  "sodium \<Rightarrow> nat \<Rightarrow> TTSession \<Rightarrow> bytes \<Rightarrow> nat \<Rightarrow> frame_result \<times> TTSession \<times> nat" where
  "tt_session_send L w s text cap =
     (if length text > TT_FRAME_DATA_MAX then (Inl TT_E2EE_BAD_STATE, s, w)
      else if \<not> s_active s then
        if length (s_pending s) \<ge> TT_SESSION_PENDING_MAX then (Inl TT_E2EE_BUSY, s, w)
        else if length text > 0 then (Inr [], s \<lparr>s_pending := s_pending s @ [text]\<rparr>, w)
        else (Inr [], s, w)
      else emit_frame L w s (TextBuf text) cap False)"

definition tt_session_send_lossy ::
  "sodium \<Rightarrow> nat \<Rightarrow> TTSession \<Rightarrow> bytes \<Rightarrow> nat \<Rightarrow> frame_result \<times> TTSession \<times> nat" where
  "tt_session_send_lossy L w s text cap =
     (if length text > TT_FRAME_DATA_MAX then (Inl TT_E2EE_BAD_STATE, s, w)
      else if \<not> s_active s then (Inr [], s, w)
      else emit_frame L w s (TextBuf text) cap False)"

definition tt_session_flush :: "sodium \<Rightarrow> nat \<Rightarrow> TTSession \<Rightarrow> nat \<Rightarrow> frame_result \<times> TTSession \<times> nat" where
  "tt_session_flush L w s cap =
     (if \<not> s_active s then (Inr [], s, w)
      else case s_pending s of
        [] \<Rightarrow> (Inr [], s, w)
      | p # ps \<Rightarrow>
          (case emit_frame L w s (TextBuf p) cap False of
             (Inl e, s1, w1) \<Rightarrow> (Inl e, s1, w1)
           | (Inr f, s1, w1) \<Rightarrow>
               if f = [] then (Inr f, s1, w1) else (Inr f, s1 \<lparr>s_pending := ps\<rparr>, w1)))"

section \<open>Reliable transport, timer and hooks\<close>

definition control_frame :: "sodium \<Rightarrow> nat \<Rightarrow> TTSession \<Rightarrow> byte \<Rightarrow> u32 \<Rightarrow> u32 \<Rightarrow> nat \<Rightarrow> bytes" where
  "control_frame L w s type x y cap =
     (case tt_frame_encode L cap type 0 0 (control_key L s) (sd_randombytes L w TT_NONCE24) []
             (be32 x @ be32 y) of
        None \<Rightarrow> [] | Some f \<Rightarrow> f)"

text \<open>
  The scan of the RESEND reply: \<open>r\<close> is the loop index; a failing \<^verbatim>\<open>emit_frame\<close> lets the
  loop go on with the state it left.  The loop bound \<^verbatim>\<open>b->count\<close> is read again on every
  iteration, \<open>n\<close> bounds the iterations by the ring size.
\<close>

fun resend_scan :: "sodium \<Rightarrow> nat \<Rightarrow> nat \<Rightarrow> nat \<Rightarrow> TTSession \<Rightarrow> nat \<Rightarrow> frame_result \<times> TTSession \<times> nat" where
  "resend_scan L w 0 r s cap = (Inr [], s \<lparr>s_rel := (s_rel s) \<lparr>rel_resend_rep_pending := False\<rparr>\<rparr>, w)"
| "resend_scan L w (Suc n) r s cap =
     (let b = rel_sent (s_rel s)
      in if r \<ge> b_count b
         then (Inr [], s \<lparr>s_rel := (s_rel s) \<lparr>rel_resend_rep_pending := False\<rparr>\<rparr>, w)
         else
           let idx = (b_head b + r) mod TT_SENT_MAX;
               m = b_m b ! idx
           in if m_gen m \<noteq> rel_resend_rep_gen (s_rel s) \<or> m_seq m < rel_resend_rep_from (s_rel s)
              then resend_scan L w n (r + 1) s cap
              else case emit_frame L w s (TextSlot idx (m_len m)) cap False of
                     (Inr f, s1, w1) \<Rightarrow>
                       if f = [] then resend_scan L w1 n (r + 1) s1 cap
                       else (Inr f, s1 \<lparr>s_rel := (s_rel s1) \<lparr>rel_sent :=
                               rel_sent_remove (rel_sent (s_rel s1)) (m_gen m) (m_seq m)\<rparr>\<rparr>, w1)
                   | (Inl e, s1, w1) \<Rightarrow> resend_scan L w1 n (r + 1) s1 cap)"

definition tt_session_rel_poll :: "sodium \<Rightarrow> nat \<Rightarrow> TTSession \<Rightarrow> nat \<Rightarrow> frame_result \<times> TTSession \<times> nat" where
  "tt_session_rel_poll L w s cap =
     (if \<not> s_active s then (Inr [], s, w)
      else if rel_resend_req_pending (s_rel s) then
        let s1 = s \<lparr>s_rel := (s_rel s) \<lparr>rel_resend_req_pending := False\<rparr>\<rparr>
        in (Inr (control_frame L w s1 TT_FRAME_RESEND (rel_resend_req_gen (s_rel s))
                  (rel_resend_req_from (s_rel s)) cap), s1, Suc w)
      else if rel_resend_rep_pending (s_rel s) then resend_scan L w (Suc TT_SENT_MAX) 0 s cap
      else if rel_ack_due (s_rel s) then
        let s1 = s \<lparr>s_rel := (s_rel s) \<lparr>rel_ack_due := False\<rparr>\<rparr>
        in (Inr (control_frame L w s1 TT_FRAME_ACK (rel_recv_acked (s_rel s)) (rel_gen L s) cap), s1, Suc w)
      else (Inr [], s, w))"

definition tt_session_tick ::
  "sodium \<Rightarrow> nat \<Rightarrow> TTSession \<Rightarrow> TTE2EEEnv \<Rightarrow> int \<Rightarrow> nat \<Rightarrow> bytes \<times> TTSession \<times> nat" where
  "tt_session_tick L w s env now cap =
     (if \<not> s_init_pending s then ([], s, w)
      else if now - s_init_at s < 5 then ([], s, w)
      else
        let s1 = s \<lparr>s_init_at := now\<rparr>
        in case build_init L w s1 env cap of
             (Some f, w1) \<Rightarrow> (f, s1, w1)
           | (None, w1) \<Rightarrow> ([], s1, w1))"

definition tt_session_rekey_due :: "TTSession \<Rightarrow> TTSession" where
  "tt_session_rekey_due s =
     (if \<not> s_active s then s else s \<lparr>s_rekey := (s_rekey s) \<lparr>k_rekey_due := True\<rparr>\<rparr>)"

text \<open>Decimal digits of \<^verbatim>\<open>snprintf("m%u")\<close>.\<close>

fun decimal :: "nat \<Rightarrow> string" where
  "decimal n = (if n < 10 then [''0123456789'' ! n] else decimal (n div 10) @ [''0123456789'' ! (n mod 10)])"

declare decimal.simps [simp del]

definition tt_session_frame_at :: "sodium \<Rightarrow> TTSession \<Rightarrow> u32 \<Rightarrow> nat \<Rightarrow> TTE2EEStatus + bytes option" where
  "tt_session_frame_at L s seq cap =
     (if \<not> s_active s then Inl TT_E2EE_NO_SESSION
      else
        let (key, nonce) = msg_key_at L (s_send s) seq;
            text = ascii (CHR ''m'' # decimal (unat seq))
        in Inr (tt_frame_encode L cap TT_FRAME_DATA seq (data_flags L) key nonce [] text))"

definition tt_session_inject_older :: "TTSession \<Rightarrow> nat \<Rightarrow> frame_result" where
  "tt_session_inject_older s cap =
     (if \<not> s_active s then Inl TT_E2EE_NO_SESSION
      else if length (s_last_in s) = 0 \<or> length (s_last_in s) > cap then Inr []
      else Inr (s_last_in s))"

end
