(* ===== verification/Sidecar.thy ===== *)
theory Sidecar
  imports Prelude
begin

text \<open>
  The at-rest files next to the profile: the shared write path (temporary file, optional
  encryption to a second temporary file, rename) and read path (size check, optional
  decryption) that \<^verbatim>\<open>session_store.c\<close>, \<^verbatim>\<open>resume.c\<close>, \<^verbatim>\<open>offline_queue.c\<close>
  and \<^verbatim>\<open>history.c\<close> each spell out, and the text scanner the last three use.

  The disk is a map from paths to contents.  The calls that can fail (opening, allocating,
  reading back, renaming) are numbered in the order the code makes them; \<open>io i\<close> says whether
  the i-th succeeds.  \<^verbatim>\<open>fwrite\<close> is complete: its result is not looked at by the code.
  toxencryptsave is the record \<open>toxes\<close>, with its documented behaviour in \<open>toxes_ok\<close>.
\<close>

record toxes =
  te_encrypt :: "bytes \<Rightarrow> bytes \<Rightarrow> bytes option"
  te_decrypt :: "bytes \<Rightarrow> bytes \<Rightarrow> bytes option"
  te_is_encrypted :: "bytes \<Rightarrow> bool"

abbreviation (input) "TOX_PASS_ENCRYPTION_EXTRA_LENGTH \<equiv> (80 :: nat)"

definition toxes_ok :: "toxes \<Rightarrow> bool" where
  "toxes_ok T \<longleftrightarrow> (\<forall>k pt. pt \<noteq> [] \<longrightarrow>
     (\<exists>ct. te_encrypt T k pt = Some ct \<and> length ct = length pt + TOX_PASS_ENCRYPTION_EXTRA_LENGTH
           \<and> te_is_encrypted T ct \<and> te_decrypt T k ct = Some pt))"

type_synonym disk = "string \<rightharpoonup> bytes"

definition sidecar_write ::
  "toxes \<Rightarrow> (nat \<Rightarrow> bool) \<Rightarrow> nat \<Rightarrow> bytes option \<Rightarrow> string \<Rightarrow> bytes \<Rightarrow> disk \<Rightarrow> bool \<times> disk" where
  "sidecar_write T io max_size key path content d =
     (let tmp = path @ ''.tmp''; tmp2 = path @ ''.enc'' in
      if \<not> io 0 then (False, d)
      else
        let d1 = d(tmp \<mapsto> content)
        in case key of
             None \<Rightarrow> if io 6 then (True, d1(path \<mapsto> content, tmp := None)) else (False, d1(tmp := None))
           | Some k \<Rightarrow>
               if \<not> io 1 then (False, d1(tmp := None))
               else if length content = 0 \<or> length content > max_size then (False, d1(tmp := None))
               else if \<not> io 2 \<or> \<not> io 3 \<or> \<not> io 4 then (False, d1(tmp := None))
               else case te_encrypt T k content of
                 None \<Rightarrow> (False, d1(tmp := None))
               | Some ct \<Rightarrow>
                   if \<not> io 5 then (False, d1(tmp := None))
                   else
                     let d2 = d1(tmp2 \<mapsto> ct)
                     in if io 6 then (True, d2(path \<mapsto> ct, tmp2 := None, tmp := None))
                        else (False, d2(tmp2 := None, tmp := None)))"

text \<open>Decryption in place; a short or unmarked blob is taken as plaintext.\<close>

definition blob_decrypt :: "toxes \<Rightarrow> bytes option \<Rightarrow> bytes \<Rightarrow> bytes option" where
  "blob_decrypt T key buf =
     (if length buf < TOX_PASS_ENCRYPTION_EXTRA_LENGTH then Some buf
      else if \<not> te_is_encrypted T buf then Some buf
      else case key of None \<Rightarrow> None | Some k \<Rightarrow> te_decrypt T k buf)"

definition sidecar_read :: "toxes \<Rightarrow> (nat \<Rightarrow> bool) \<Rightarrow> nat \<Rightarrow> string \<Rightarrow> disk \<Rightarrow> bytes option" where
  "sidecar_read T io max_size path d =
     (case d path of
        None \<Rightarrow> None
      | Some buf \<Rightarrow>
          if \<not> io 0 \<or> length buf = 0 \<or> length buf > max_size \<or> \<not> io 1 \<or> \<not> io 2 then None else Some buf)"

section \<open>The scanner\<close>

definition is_space :: "byte \<Rightarrow> bool" where
  "is_space b \<longleftrightarrow> b = 32 \<or> (9 \<le> b \<and> b \<le> 13)"

definition is_digit :: "byte \<Rightarrow> bool" where
  "is_digit b \<longleftrightarrow> 48 \<le> b \<and> b \<le> 57"

definition digits_value :: "bytes \<Rightarrow> nat" where
  "digits_value ds = foldl (\<lambda>v d. 10 * v + (unat d - 48)) 0 ds"

text \<open>
  One unsigned conversion of \<^verbatim>\<open>sscanf\<close>: leading white space, an optional sign, decimal
  digits, converted as \<^verbatim>\<open>strtoull\<close> does (saturating at 64 bits, a minus sign negates) and
  stored in \<open>w\<close> bits.  The end of the plaintext ends the input.
\<close>

definition scan_u :: "nat \<Rightarrow> bytes \<Rightarrow> (nat \<times> bytes) option" where
  "scan_u w p =
     (let p1 = dropWhile is_space p;
          neg = (case p1 of c # _ \<Rightarrow> c = 45 | [] \<Rightarrow> False);
          p2 = (case p1 of c # r \<Rightarrow> if c = 45 \<or> c = 43 then r else p1 | [] \<Rightarrow> []);
          ds = takeWhile is_digit p2;
          n = digits_value ds;
          v = (if n \<ge> 2 ^ 64 then 2 ^ 64 - 1 else if neg then (2 ^ 64 - n) mod 2 ^ 64 else n)
      in if ds = [] then None else Some (v mod 2 ^ w, dropWhile is_digit p2))"

text \<open>\<^verbatim>\<open>sscanf(p, "%u %u%n")\<close> with both conversions made: the values and what is left.\<close>

definition scan_uu :: "nat \<Rightarrow> nat \<Rightarrow> bytes \<Rightarrow> (nat \<times> nat \<times> bytes) option" where
  "scan_uu w1 w2 p =
     (case scan_u w1 p of
        None \<Rightarrow> None
      | Some (a, r) \<Rightarrow>
          (case scan_u w2 (dropWhile is_space r) of None \<Rightarrow> None | Some (b, r') \<Rightarrow> Some (a, b, r')))"

text \<open>Decimal output of \<^verbatim>\<open>fprintf("%u")\<close>.\<close>

fun print_u :: "nat \<Rightarrow> bytes" where
  "print_u n = (if n < 10 then [of_nat (48 + n)] else print_u (n div 10) @ [of_nat (48 + n mod 10)])"

declare print_u.simps [simp del]

text \<open>The bytes before the first zero.\<close>

definition c_str :: "bytes \<Rightarrow> bytes" where
  "c_str b = takeWhile (\<lambda>x. x \<noteq> 0) b"

section \<open>Facts\<close>

lemma c_str_id: "0 \<notin> set b \<Longrightarrow> c_str b = b"
  by (auto simp: c_str_def takeWhile_eq_all_conv)

lemma length_scan_u: "scan_u w p = Some (v, r) \<Longrightarrow> length r \<le> length p"
proof -
  assume a: "scan_u w p = Some (v, r)"
  let ?p1 = "dropWhile is_space p"
  let ?p2 = "case ?p1 of c # r \<Rightarrow> if c = 45 \<or> c = 43 then r else ?p1 | [] \<Rightarrow> []"
  have "r = dropWhile is_digit ?p2" using a by (simp add: scan_u_def Let_def split: if_splits)
  then have "length r \<le> length ?p2" by (simp add: length_dropWhile_le)
  also have "\<dots> \<le> length ?p1" by (simp split: list.split)
  also have "\<dots> \<le> length p" by (rule length_dropWhile_le)
  finally show ?thesis .
qed

lemma length_scan_uu: "scan_uu a b p = Some (x, y, r) \<Longrightarrow> length r \<le> length p"
proof -
  assume "scan_uu a b p = Some (x, y, r)"
  then obtain r1 where r1: "scan_u a p = Some (x, r1)" "scan_u b (dropWhile is_space r1) = Some (y, r)"
    by (auto simp: scan_uu_def split: option.splits)
  have "length r \<le> length (dropWhile is_space r1)" by (rule length_scan_u [OF r1(2)])
  also have "\<dots> \<le> length r1" by (rule length_dropWhile_le)
  also have "\<dots> \<le> length p" by (rule length_scan_u [OF r1(1)])
  finally show ?thesis .
qed

lemma unat_digit: "n < 10 \<Longrightarrow> unat (of_nat (48 + n) :: byte) = 48 + n"
  by (subst unat_of_nat) simp

lemma is_digit_of_nat: "n < 10 \<Longrightarrow> is_digit (of_nat (48 + n))"
  using unat_digit [of n] by (simp only: is_digit_def word_le_nat_alt) simp

lemma print_u_digits: "\<forall>b \<in> set (print_u n). is_digit b"
proof (induction n rule: print_u.induct)
  case (1 n)
  show ?case
  proof (cases "n < 10")
    case True
    then show ?thesis by (subst print_u.simps) (simp only: if_True list.set ball_simps is_digit_of_nat simp_thms)
  next
    case False
    have "n mod 10 < 10" by simp
    then show ?thesis using 1 [OF False] False is_digit_of_nat [of "n mod 10"]
      by (subst print_u.simps) (simp only: if_False set_append ball_Un list.set ball_simps simp_thms)
  qed
qed

lemma print_u_nonempty: "print_u n \<noteq> []"
  by (subst print_u.simps) simp

lemma digits_value_append: "digits_value (xs @ [d]) = 10 * digits_value xs + (unat d - 48)"
  by (simp add: digits_value_def)

lemma digits_value_print: "digits_value (print_u n) = n"
proof (induction n rule: print_u.induct)
  case (1 n)
  show ?case
  proof (cases "n < 10")
    case True
    then show ?thesis
      by (subst print_u.simps) (simp only: if_True digits_value_append [of "[]", simplified append_Nil] unat_digit,
          simp add: digits_value_def)
  next
    case False
    have "n mod 10 < 10" by simp
    then show ?thesis using 1 [OF False] False
      by (subst print_u.simps) (simp only: if_False digits_value_append unat_digit, simp)
  qed
qed

lemma digit_not_space: "is_digit b \<Longrightarrow> \<not> is_space b \<and> b \<noteq> 45 \<and> b \<noteq> 43"
  by (auto simp: is_digit_def is_space_def word_le_nat_alt)

lemma takeWhile_prefix: "\<forall>x \<in> set xs. P x \<Longrightarrow> (ys = [] \<or> \<not> P (hd ys)) \<Longrightarrow>
    takeWhile P (xs @ ys) = xs \<and> dropWhile P (xs @ ys) = ys"
  by (cases ys) (auto simp: takeWhile_append2 dropWhile_append2)

lemma scan_u_print:
  assumes "n < 2 ^ w" "w \<le> 64" "r = [] \<or> \<not> is_digit (hd r)"
  shows "scan_u w (print_u n @ r) = Some (n, r)"
proof -
  obtain c cs where c: "print_u n = c # cs" using print_u_nonempty by (metis neq_Nil_conv)
  have dc: "is_digit c" using print_u_digits [of n] c by simp
  have sp: "dropWhile is_space (print_u n @ r) = print_u n @ r" using digit_not_space [OF dc] c by simp
  have tw: "takeWhile is_digit (print_u n @ r) = print_u n" "dropWhile is_digit (print_u n @ r) = r"
    using takeWhile_prefix [OF print_u_digits assms(3)] by auto
  have p2: "(case print_u n @ r of c # r' \<Rightarrow> if c = 45 \<or> c = 43 then r' else print_u n @ r | [] \<Rightarrow> []) = print_u n @ r"
    using digit_not_space [OF dc] c by simp
  have ng: "(case print_u n @ r of c # _ \<Rightarrow> c = 45 | [] \<Rightarrow> False) = False"
    using digit_not_space [OF dc] c by simp
  have "n < 2 ^ 64"
    using assms(1) power_increasing [OF assms(2), of "2 :: nat"] by linarith
  then show ?thesis
    unfolding scan_u_def Let_def sp p2 ng tw digits_value_print using print_u_nonempty assms(1) by simp
qed

lemma scan_uu_print:
  assumes "a < 2 ^ w1" "b < 2 ^ w2" "w1 \<le> 64" "w2 \<le> 64" "r = [] \<or> \<not> is_digit (hd r)"
  shows "scan_uu w1 w2 (print_u a @ 32 # print_u b @ r) = Some (a, b, r)"
proof -
  obtain c cs where c: "print_u b = c # cs" using print_u_nonempty by (metis neq_Nil_conv)
  have dc: "is_digit c" using print_u_digits [of b] c by simp
  have "scan_u w1 (print_u a @ 32 # print_u b @ r) = Some (a, 32 # print_u b @ r)"
    using assms(1,3) by (intro scan_u_print) (simp_all add: is_digit_def word_le_nat_alt)
  moreover have "dropWhile is_space (32 # print_u b @ r) = print_u b @ r"
  proof -
    have "is_space 32" by (simp add: is_space_def)
    then show ?thesis using digit_not_space [OF dc] c by simp
  qed
  ultimately show ?thesis using scan_u_print [OF assms(2,4,5)] by (simp add: scan_uu_def)
qed

section \<open>Saving and loading\<close>

lemma sidecar_write_read:
  assumes "toxes_ok T" "\<And>i. io i" "\<And>i. io' i" "content \<noteq> []" "length content + 80 \<le> max_size"
  obtains d' buf where "sidecar_write T io max_size key path content d = (True, d')"
    "sidecar_read T io' max_size path d' = Some buf"
    "case key of None \<Rightarrow> buf = content
     | Some k \<Rightarrow> 80 \<le> length buf \<and> te_is_encrypted T buf \<and> te_decrypt T k buf = Some content"
proof (cases key)
  case None
  then show ?thesis
    using assms that by (simp add: sidecar_write_def sidecar_read_def Let_def)
next
  case (Some k)
  obtain ct where ct: "te_encrypt T k content = Some ct" "length ct = length content + 80"
    "te_is_encrypted T ct" "te_decrypt T k ct = Some content"
    using assms(1,4) unfolding toxes_ok_def by blast
  moreover from ct(2) have "ct \<noteq> []" by auto
  ultimately show ?thesis
    using assms(2-5) Some that by (simp add: sidecar_write_def sidecar_read_def Let_def)
qed

text \<open>
  A file format on top of the sidecar: \<open>ser\<close> writes a value, \<open>par\<close> reads it back; the law
  is the round trip.  What follows is the round trip through the disk, with or without a key.
\<close>

locale sidecar_format =
  fixes wf :: "'a \<Rightarrow> bool"
    and ser :: "'a \<Rightarrow> bytes"
    and par :: "bytes \<Rightarrow> 'b"
    and view :: "'a \<Rightarrow> 'b"
    and max_size :: nat
  assumes par_ser: "wf x \<Longrightarrow> par (ser x) = view x"
    and ser_nonempty: "ser x \<noteq> []"
begin

lemma load_after_save:
  assumes "toxes_ok T" "\<And>i. io i" "\<And>i. io' i" "wf x" "length (ser x) + TOX_PASS_ENCRYPTION_EXTRA_LENGTH \<le> max_size"
    "key = None \<Longrightarrow> length (ser x) < TOX_PASS_ENCRYPTION_EXTRA_LENGTH \<or> \<not> te_is_encrypted T (ser x)"
  obtains d' buf where "sidecar_write T io max_size key path (ser x) d = (True, d')"
    "sidecar_read T io' max_size path d' = Some buf"
    "map_option par (blob_decrypt T key buf) = Some (view x)"
proof -
  obtain d' buf where b: "sidecar_write T io max_size key path (ser x) d = (True, d')"
    "sidecar_read T io' max_size path d' = Some buf"
    "case key of None \<Rightarrow> buf = ser x
     | Some k \<Rightarrow> 80 \<le> length buf \<and> te_is_encrypted T buf \<and> te_decrypt T k buf = Some (ser x)"
    using sidecar_write_read [where T = T and io = io and io' = io' and content = "ser x" and max_size = max_size
        and key = key and path = path and d = d] assms(1-3,5) ser_nonempty [of x] by blast
  then have "map_option par (blob_decrypt T key buf) = Some (view x)"
    using assms(4,6) by (cases key) (auto simp: blob_decrypt_def par_ser)
  then show ?thesis using b that by blast
qed

end

text \<open>What one save can do to the disk: nothing but replace the file, and no temporary file is left.\<close>

definition atomic_update :: "string \<Rightarrow> bytes \<Rightarrow> disk \<Rightarrow> disk \<Rightarrow> bool" where
  "atomic_update path new d d' \<longleftrightarrow>
     d' path \<in> {d path, Some new} \<and>
     (\<forall>p. p \<notin> {path, path @ ''.tmp'', path @ ''.enc''} \<longrightarrow> d' p = d p) \<and>
     (d (path @ ''.tmp'') = None \<longrightarrow> d' (path @ ''.tmp'') = None) \<and>
     (d (path @ ''.enc'') = None \<longrightarrow> d' (path @ ''.enc'') = None)"


definition toy_toxes :: toxes where
  "toy_toxes = \<lparr>te_encrypt = (\<lambda>k pt. Some (replicate 80 1 @ pt)), te_decrypt = (\<lambda>k ct. Some (drop 80 ct)),
                te_is_encrypted = (\<lambda>b. take 8 b = replicate 8 1)\<rparr>"

lemma toy_toxes_ok: "toxes_ok toy_toxes"
  by (simp add: toxes_ok_def toy_toxes_def numeral_eq_Suc)

end
