(* ===== verification/SessionStore.thy ===== *)
theory SessionStore
  imports Session Sidecar
begin

text \<open>
  The session sidecar, \<^verbatim>\<open>src/src/session_store.c\<close>: active sessions are written as
  counted big-endian records and read back after a restart.  A read that fails half-way keeps
  what it has stored so far in the session, as the C code does (the ratchets of a session whose
  record is truncated are left as they were; they are reset before any use).
\<close>

abbreviation (input) "TT_MAX_FRIENDS \<equiv> (256 :: nat)"

definition ses_magic :: bytes where
  "ses_magic = ascii ''TTSES1''"

definition ses_path :: "string option \<Rightarrow> string" where
  "ses_path profile = (case profile of None \<Rightarrow> ''TkTox.tox'' | Some p \<Rightarrow> p) @ ''.ses''"

definition flag_byte :: "bool \<Rightarrow> bytes" where
  "flag_byte b = [if b then 1 else 0]"

definition u8_at :: "nat \<Rightarrow> bytes \<Rightarrow> byte" where
  "u8_at i p = (case drop i p of a # _ \<Rightarrow> a | [] \<Rightarrow> 0)"

definition u16_at :: "nat \<Rightarrow> bytes \<Rightarrow> u16" where
  "u16_at i p = (case get_u16 (drop i p) of Some (v, _) \<Rightarrow> v | None \<Rightarrow> 0)"

definition u32_at :: "nat \<Rightarrow> bytes \<Rightarrow> u32" where
  "u32_at i p = (case get_u32 (drop i p) of Some (v, _) \<Rightarrow> v | None \<Rightarrow> 0)"

definition bytes_at :: "nat \<Rightarrow> nat \<Rightarrow> bytes \<Rightarrow> bytes" where
  "bytes_at i n p = take n (drop i p)"

section \<open>Writing\<close>

definition skipped_put :: "u32 \<times> bytes \<Rightarrow> bytes" where
  "skipped_put e = be32 (fst e) @ snd e"

definition ratchet_put :: "TTRatchet \<Rightarrow> bytes" where
  "ratchet_put r = r_chain r @ be32 (r_seq r) @ r_root r @ be16 (r_since_fold r)
     @ be16 (of_nat (length (r_skipped r))) @ concat (map skipped_put (r_skipped r))"

definition rekey_put :: "TTRekey \<Rightarrow> bytes" where
  "rekey_put k = k_eph_sk k @ k_eph_pk k @ flag_byte (k_have_kem k) @ k_kem_pk k @ k_kem_sk k
     @ flag_byte (k_peer_have k) @ k_peer_kem_pk k @ k_peer_eph_pk k
     @ flag_byte (k_rekey_due k) @ flag_byte (k_awaiting_peer k) @ flag_byte (k_published k)
     @ flag_byte (k_post_fold_publish k) @ flag_byte (k_publish_back k)"

definition sent_put :: "TTSentMsg \<Rightarrow> bytes" where
  "sent_put m = be32 (m_gen m) @ be32 (m_seq m) @ be16 (of_nat (m_len m)) @ take (m_len m) (m_data m)"

definition rel_put :: "TTReliable \<Rightarrow> bytes" where
  "rel_put r = be16 (of_nat (b_count (rel_sent r))) @ concat (map sent_put (sent_slots (rel_sent r)))
     @ be32 (rel_recv_acked r) @ flag_byte (rel_ack_due r) @ flag_byte (rel_resend_req_pending r)
     @ be32 (rel_resend_req_gen r) @ be32 (rel_resend_req_from r) @ flag_byte (rel_resend_rep_pending r)
     @ be32 (rel_resend_rep_gen r) @ be32 (rel_resend_rep_from r) @ be16 (rel_resend_rep_pos r)"

text \<open>The friend number is written as a placeholder and patched by the caller.\<close>

definition session_put :: "nat \<Rightarrow> TTSession \<Rightarrow> bytes" where
  "session_put fn s = [of_nat fn] @ flag_byte (s_i_am_initiator s) @ s_root s
     @ ratchet_put (s_send s) @ ratchet_put (s_recv s) @ rekey_put (s_rekey s) @ rel_put (s_rel s)"

definition active_fns :: "TTSession list \<Rightarrow> nat list" where
  "active_fns e2ee = filter (\<lambda>fn. s_active (e2ee ! fn)) [0..<TT_MAX_FRIENDS]"

definition store_content :: "TTSession list \<Rightarrow> bytes" where
  "store_content e2ee =
     ses_magic @ [of_nat (length (active_fns e2ee))] @ concat (map (\<lambda>fn. session_put fn (e2ee ! fn)) (active_fns e2ee))"

text \<open>The count is an eight-bit counter; \<open>io 7\<close> is the growth of the in-memory buffer.\<close>

definition tt_session_store_save ::
  "toxes \<Rightarrow> (nat \<Rightarrow> bool) \<Rightarrow> TTSession list \<Rightarrow> string option \<Rightarrow> bytes option \<Rightarrow> disk \<Rightarrow> disk" where
  "tt_session_store_save T io e2ee profile key d =
     (let path = ses_path profile; count = (of_nat (length (active_fns e2ee)) :: byte)
      in if count = 0 then d(path := None)
         else if \<not> io 7 then d
         else snd (sidecar_write T io (4 * 1024 * 1024) key path (store_content e2ee) d))"

section \<open>Reading\<close>

definition skipped_get :: "bytes \<Rightarrow> ((u32 \<times> bytes) \<times> bytes) option" where
  "skipped_get p = (if length p < 4 + 32 then None else Some ((u32_at 0 p, bytes_at 4 32 p), drop 36 p))"

definition ratchet_get :: "bytes \<Rightarrow> TTRatchet \<Rightarrow> (TTRatchet \<times> bytes) option" where
  "ratchet_get p r =
     (if length p < 32 + 4 + 32 + 2 + 2 then None
      else
        let n = unat (u16_at 70 p)
        in if n > TT_SESSION_SKIPPED_MAX then None
           else case get_n n skipped_get (drop 72 p) of
                  None \<Rightarrow> None
                | Some (es, rest) \<Rightarrow>
                    Some (r \<lparr>r_chain := bytes_at 0 32 p, r_seq := u32_at 32 p, r_root := bytes_at 36 32 p,
                             r_since_fold := u16_at 68 p, r_skipped := es\<rparr>, rest))"

definition rekey_get :: "bytes \<Rightarrow> TTRekey \<Rightarrow> (TTRekey \<times> bytes) option" where
  "rekey_get p k =
     (if length p < 32 + 32 + 1 + 1158 + 1763 + 1 + 1158 + 32 + 5 then None
      else Some (k \<lparr>k_eph_sk := bytes_at 0 32 p, k_eph_pk := bytes_at 32 32 p, k_have_kem := u8_at 64 p \<noteq> 0,
                    k_kem_pk := bytes_at 65 1158 p, k_kem_sk := bytes_at 1223 1763 p,
                    k_peer_have := u8_at 2986 p \<noteq> 0, k_peer_kem_pk := bytes_at 2987 1158 p,
                    k_peer_eph_pk := bytes_at 4145 32 p, k_rekey_due := u8_at 4177 p \<noteq> 0,
                    k_awaiting_peer := u8_at 4178 p \<noteq> 0, k_published := u8_at 4179 p \<noteq> 0,
                    k_post_fold_publish := u8_at 4180 p \<noteq> 0, k_publish_back := u8_at 4181 p \<noteq> 0\<rparr>, drop 4182 p))"

text \<open>Slots \<open>i ..< i + n\<close> of the ring are filled; \<open>None\<close> as rest marks the failure.\<close>

fun sent_get :: "nat \<Rightarrow> nat \<Rightarrow> bytes \<Rightarrow> TTSentMsg list \<Rightarrow> TTSentMsg list \<times> bytes option" where
  "sent_get 0 i p m = (m, Some p)"
| "sent_get (Suc n) i p m =
     (if length p < 4 + 4 + 2 then (m, None)
      else
        let len = unat (u16_at 8 p);
            m1 = m[i := (m ! i) \<lparr>m_gen := u32_at 0 p, m_seq := u32_at 4 p, m_len := len\<rparr>]
        in if len > TT_FRAME_DATA_MAX \<or> length (drop 10 p) < len then (m1, None)
           else sent_get n (Suc i) (drop len (drop 10 p))
                  (m1[i := (m1 ! i) \<lparr>m_data := bytes_at 10 len p @ drop len (m_data (m1 ! i))\<rparr>]))"

definition rel_get :: "bytes \<Rightarrow> TTReliable \<Rightarrow> TTReliable \<times> bytes option" where
  "rel_get p r =
     (if length p < 2 then (r, None)
      else
        let n = unat (u16_at 0 p);
            r1 = r \<lparr>rel_sent := (rel_sent r) \<lparr>b_count := n\<rparr>\<rparr>
        in if n > TT_SENT_MAX then (r1, None)
           else case sent_get n 0 (drop 2 p) (b_m (rel_sent r)) of
                  (m, None) \<Rightarrow> (r1 \<lparr>rel_sent := (rel_sent r1) \<lparr>b_head := 0, b_m := m\<rparr>\<rparr>, None)
                | (m, Some q) \<Rightarrow>
                    let r2 = r1 \<lparr>rel_sent := (rel_sent r1) \<lparr>b_head := 0, b_m := m\<rparr>\<rparr>
                    in if length q < 4 + 1 + 1 + 4 + 4 + 1 + 4 + 4 + 2 then (r2, None)
                       else (r2 \<lparr>rel_recv_acked := u32_at 0 q, rel_ack_due := u8_at 4 q \<noteq> 0,
                                 rel_resend_req_pending := u8_at 5 q \<noteq> 0, rel_resend_req_gen := u32_at 6 q,
                                 rel_resend_req_from := u32_at 10 q, rel_resend_rep_pending := u8_at 14 q \<noteq> 0,
                                 rel_resend_rep_gen := u32_at 15 q, rel_resend_rep_from := u32_at 19 q,
                                 rel_resend_rep_pos := u16_at 23 q\<rparr>, Some (drop 25 q)))"

definition session_get :: "bytes \<Rightarrow> TTSession \<Rightarrow> TTSession \<times> bytes option" where
  "session_get p s =
     (if length p < 1 + 1 + 32 then (s, None)
      else
        let s1 = s \<lparr>s_i_am_initiator := u8_at 1 p \<noteq> 0, s_root := bytes_at 2 32 p\<rparr>
        in case ratchet_get (drop 34 p) (s_send s) of
             None \<Rightarrow> (s1, None)
           | Some (snd_r, p1) \<Rightarrow>
               let s2 = s1 \<lparr>s_send := snd_r\<rparr>
               in case ratchet_get p1 (s_recv s) of
                    None \<Rightarrow> (s2, None)
                  | Some (rcv_r, p2) \<Rightarrow>
                      let s3 = s2 \<lparr>s_recv := rcv_r\<rparr>
                      in case rekey_get p2 (s_rekey s) of
                           None \<Rightarrow> (s3, None)
                         | Some (k, p3) \<Rightarrow>
                             (case rel_get p3 (s_rel s) of
                                (rl, None) \<Rightarrow> (s3 \<lparr>s_rekey := k, s_rel := rl\<rparr>, None)
                              | (rl, Some p4) \<Rightarrow> (s3 \<lparr>s_rekey := k, s_rel := rl, s_active := True\<rparr>, Some p4)))"

fun load_loop :: "nat \<Rightarrow> bytes \<Rightarrow> TTSession list \<Rightarrow> TTSession list" where
  "load_loop 0 p e2ee = e2ee"
| "load_loop (Suc n) [] e2ee = e2ee"
| "load_loop (Suc n) (b # p) e2ee =
     (let fn = unat b
      in if fn \<ge> TT_MAX_FRIENDS then e2ee
         else case session_get (b # p) (e2ee ! fn) of
                (s, None) \<Rightarrow> e2ee[fn := s]
              | (s, Some rest) \<Rightarrow> load_loop n rest (e2ee[fn := s]))"

definition parse_store :: "bytes \<Rightarrow> TTSession list \<Rightarrow> TTSession list" where
  "parse_store pt e2ee =
     (if length pt < 6 \<or> take 6 pt \<noteq> ses_magic then e2ee
      else case drop 6 pt of
        [] \<Rightarrow> e2ee
      | count # p \<Rightarrow> if unat count > TT_MAX_FRIENDS then e2ee else load_loop (unat count) p e2ee)"

text \<open>Unlike the other sidecars, a missing key makes the blob count as plaintext.\<close>

definition ses_decrypt :: "toxes \<Rightarrow> bytes option \<Rightarrow> bytes \<Rightarrow> bytes option" where
  "ses_decrypt T key buf =
     (case key of
        None \<Rightarrow> Some buf
      | Some k \<Rightarrow>
          if length buf \<ge> TOX_PASS_ENCRYPTION_EXTRA_LENGTH \<and> te_is_encrypted T buf then te_decrypt T k buf
          else Some buf)"

definition tt_session_store_load ::
  "toxes \<Rightarrow> (nat \<Rightarrow> bool) \<Rightarrow> TTSession list \<Rightarrow> string option \<Rightarrow> bytes option \<Rightarrow> disk \<Rightarrow> TTSession list" where
  "tt_session_store_load T io e2ee profile key d =
     (case sidecar_read T io (4 * 1024 * 1024) (ses_path profile) d of
        None \<Rightarrow> e2ee
      | Some buf \<Rightarrow>
          (case ses_decrypt T key buf of None \<Rightarrow> e2ee | Some pt \<Rightarrow> parse_store pt e2ee))"

section \<open>Round trips of the records\<close>

lemma at_simps:
  "u32_at i p = (case get_u32 (drop i p) of Some (v, _) \<Rightarrow> v | None \<Rightarrow> 0)"
  "u16_at i p = (case get_u16 (drop i p) of Some (v, _) \<Rightarrow> v | None \<Rightarrow> 0)"
  "u8_at i p = (case drop i p of a # _ \<Rightarrow> a | [] \<Rightarrow> 0)"
  "bytes_at i n p = take n (drop i p)"
  by (simp_all add: u32_at_def u16_at_def u8_at_def bytes_at_def)

lemma length_flag_byte [simp]: "length (flag_byte b) = 1"
  by (simp add: flag_byte_def)

lemma flag_byte_read [simp]: "(case flag_byte b @ r of a # _ \<Rightarrow> a | [] \<Rightarrow> 0) \<noteq> 0 \<longleftrightarrow> b"
  by (simp add: flag_byte_def)

interpretation skipped_codec: fixed_codec "\<lambda>e. length (snd e) = 32" skipped_put skipped_get
  by unfold_locales (auto simp: skipped_put_def skipped_get_def at_simps)

definition ratchet_wf :: "TTRatchet \<Rightarrow> bool" where
  "ratchet_wf r \<longleftrightarrow> length (r_chain r) = 32 \<and> length (r_root r) = 32
     \<and> length (r_skipped r) \<le> TT_SESSION_SKIPPED_MAX \<and> (\<forall>e \<in> set (r_skipped r). length (snd e) = 32)"

lemma ratchet_get_put:
  assumes "ratchet_wf r"
  shows "ratchet_get (ratchet_put r @ rest) r0 = Some (r, rest)"
proof -
  have w: "length (r_chain r) = 32" "length (r_root r) = 32" "length (r_skipped r) \<le> 96"
    "\<forall>e \<in> set (r_skipped r). length (snd e) = 32"
    using assms by (simp_all add: ratchet_wf_def)
  let ?p = "ratchet_put r @ rest"
  have u: "unat (word_of_nat (length (r_skipped r)) :: u16) = length (r_skipped r)"
    using w(3) by (simp add: unat_of_nat)
  have f: "bytes_at 0 32 ?p = r_chain r" "u32_at 32 ?p = r_seq r" "bytes_at 36 32 ?p = r_root r"
    "u16_at 68 ?p = r_since_fold r" "u16_at 70 ?p = of_nat (length (r_skipped r))"
    "drop 72 ?p = concat (map skipped_put (r_skipped r)) @ rest" "\<not> length ?p < 32 + 4 + 32 + 2 + 2"
    using w(1,2) by (simp_all add: ratchet_put_def at_simps)
  have "r0 \<lparr>r_chain := r_chain r, r_seq := r_seq r, r_root := r_root r, r_since_fold := r_since_fold r,
      r_skipped := r_skipped r\<rparr> = r" by simp
  then show ?thesis
    unfolding ratchet_get_def f Let_def u using skipped_codec.get_n_put [OF w(4), of rest] w(3) f(7) by simp
qed

definition rekey_wf :: "TTRekey \<Rightarrow> bool" where
  "rekey_wf k \<longleftrightarrow> length (k_eph_sk k) = 32 \<and> length (k_eph_pk k) = 32 \<and> length (k_kem_pk k) = 1158
     \<and> length (k_kem_sk k) = 1763 \<and> length (k_peer_kem_pk k) = 1158 \<and> length (k_peer_eph_pk k) = 32"

lemma rekey_get_put:
  assumes "rekey_wf k"
  shows "rekey_get (rekey_put k @ rest) k0 = Some (k \<lparr>k_carrier := k_carrier k0\<rparr>, rest)"
proof -
  have w: "length (k_eph_sk k) = 32" "length (k_eph_pk k) = 32" "length (k_kem_pk k) = 1158"
    "length (k_kem_sk k) = 1763" "length (k_peer_kem_pk k) = 1158" "length (k_peer_eph_pk k) = 32"
    using assms by (simp_all add: rekey_wf_def)
  let ?p = "rekey_put k @ rest"
  have f: "bytes_at 0 32 ?p = k_eph_sk k" "bytes_at 32 32 ?p = k_eph_pk k" "u8_at 64 ?p \<noteq> 0 \<longleftrightarrow> k_have_kem k"
    "bytes_at 65 1158 ?p = k_kem_pk k" "bytes_at 1223 1763 ?p = k_kem_sk k" "u8_at 2986 ?p \<noteq> 0 \<longleftrightarrow> k_peer_have k"
    "bytes_at 2987 1158 ?p = k_peer_kem_pk k" "bytes_at 4145 32 ?p = k_peer_eph_pk k"
    "u8_at 4177 ?p \<noteq> 0 \<longleftrightarrow> k_rekey_due k" "u8_at 4178 ?p \<noteq> 0 \<longleftrightarrow> k_awaiting_peer k"
    "u8_at 4179 ?p \<noteq> 0 \<longleftrightarrow> k_published k" "u8_at 4180 ?p \<noteq> 0 \<longleftrightarrow> k_post_fold_publish k"
    "u8_at 4181 ?p \<noteq> 0 \<longleftrightarrow> k_publish_back k" "drop 4182 ?p = rest" "length ?p = 4182 + length rest"
    using w by (simp_all add: rekey_put_def at_simps)
  show ?thesis unfolding rekey_get_def f(1-14) using f(15) by simp
qed

text \<open>The sent ring: the messages land in the first slots, in order.\<close>

lemma sent_put_fields:
  assumes "msg_ok e"
  shows "\<not> length (sent_put e @ rest) < 4 + 4 + 2" "u32_at 0 (sent_put e @ rest) = m_gen e"
    "u32_at 4 (sent_put e @ rest) = m_seq e" "unat (u16_at 8 (sent_put e @ rest)) = m_len e"
    "drop 10 (sent_put e @ rest) = take (m_len e) (m_data e) @ rest"
    "bytes_at 10 (m_len e) (sent_put e @ rest) = take (m_len e) (m_data e)"
    "length (take (m_len e) (m_data e)) = m_len e" "m_len e \<le> 1319"
  using assms by (simp_all add: msg_ok_def sent_put_def at_simps unat_of_nat)

lemma sent_get_put:
  "\<forall>e \<in> set es. msg_ok e \<Longrightarrow> \<forall>e \<in> set m. msg_ok e \<Longrightarrow> i + length es \<le> length m \<Longrightarrow>
   \<exists>m'. sent_get (length es) i (concat (map sent_put es) @ rest) m = (m', Some rest) \<and> length m' = length m
     \<and> (\<forall>e \<in> set m'. msg_ok e) \<and> take i m' = take i m \<and> map msg_abs (take (length es) (drop i m')) = map msg_abs es"
proof (induction es arbitrary: i m)
  case (Cons e es)
  have e: "msg_ok e" and i: "i < length m" using Cons.prems by auto
  note f = sent_put_fields(1-6) [OF e, of "concat (map sent_put es) @ rest"] sent_put_fields(7,8) [OF e]
  let ?x = "(m ! i) \<lparr>m_gen := m_gen e, m_seq := m_seq e, m_len := m_len e,
      m_data := take (m_len e) (m_data e) @ drop (m_len e) (m_data (m ! i))\<rparr>"
  let ?m = "m[i := ?x]"
  have mi: "msg_ok (m ! i)" using Cons.prems(2) i by simp
  have x: "msg_ok ?x" "msg_abs ?x = msg_abs e" using mi f(7,8) by (simp_all add: msg_ok_def msg_abs_def)
  have d: "drop (m_len e) (take (m_len e) (m_data e) @ concat (map sent_put es) @ rest) = concat (map sent_put es) @ rest"
    using f(7) by simp
  have step: "sent_get (Suc (length es)) i (sent_put e @ concat (map sent_put es) @ rest) m
      = sent_get (length es) (Suc i) (concat (map sent_put es) @ rest) ?m"
    unfolding sent_get.simps Let_def f(2-6) d using f(1,7,8) i by simp
  have "\<forall>z \<in> set ?m. msg_ok z" by (rule set_list_update_ball [OF Cons.prems(2) x(1)])
  then obtain m' where m': "sent_get (length es) (Suc i) (concat (map sent_put es) @ rest) ?m = (m', Some rest)"
    "length m' = length m" "\<forall>z \<in> set m'. msg_ok z" "take (Suc i) m' = take (Suc i) ?m"
    "map msg_abs (take (length es) (drop (Suc i) m')) = map msg_abs es"
    using Cons.IH [of ?m "Suc i"] Cons.prems by auto
  have "m' ! i = ?x" using m'(4) i by (metis lessI length_list_update m'(2) nth_list_update_eq nth_take)
  moreover have "drop i m' = m' ! i # drop (Suc i) m'" using i m'(2) by (simp add: Cons_nth_drop_Suc)
  moreover have "take i m' = take i m"
    using arg_cong [OF m'(4), of "take i"] by (simp add: min_def)
  ultimately show ?case using m' step x(2) by simp
qed simp

definition rel_view :: "TTReliable \<Rightarrow> (u32 \<times> u32 \<times> bytes) list \<times> u32 \<times> bool \<times> bool \<times> u32 \<times> u32 \<times> bool \<times> u32 \<times> u32 \<times> u16" where
  "rel_view r = (sent_entries (rel_sent r), rel_recv_acked r, rel_ack_due r, rel_resend_req_pending r,
     rel_resend_req_gen r, rel_resend_req_from r, rel_resend_rep_pending r, rel_resend_rep_gen r,
     rel_resend_rep_from r, rel_resend_rep_pos r)"

lemma sent_slots_ok: "sent_inv b \<Longrightarrow> \<forall>e \<in> set (sent_slots b). msg_ok e"
  by (auto simp: sent_slots_def ring_entries_def sent_inv_def)

lemma length_sent_slots: "length (sent_slots b) = b_count b"
  by (simp add: sent_slots_def)

lemma rel_get_put:
  assumes "sent_inv (rel_sent r)" "sent_inv (rel_sent r0)"
  obtains r' where "rel_get (rel_put r @ rest) r0 = (r', Some rest)" "rel_view r' = rel_view r"
    "sent_inv (rel_sent r')"
proof -
  let ?b = "rel_sent r" and ?old = "rel_sent r0"
  let ?tail = "be32 (rel_recv_acked r) @ flag_byte (rel_ack_due r) @ flag_byte (rel_resend_req_pending r)
     @ be32 (rel_resend_req_gen r) @ be32 (rel_resend_req_from r) @ flag_byte (rel_resend_rep_pending r)
     @ be32 (rel_resend_rep_gen r) @ be32 (rel_resend_rep_from r) @ be16 (rel_resend_rep_pos r) @ rest"
  have c: "b_count ?b \<le> 32" "length (b_m ?old) = 32" "\<forall>e \<in> set (b_m ?old). msg_ok e"
    using assms by (auto simp: sent_inv_def)
  have u: "unat (word_of_nat (b_count ?b) :: u16) = b_count ?b" using c(1) by (simp add: unat_of_nat)
  have p: "rel_put r @ rest = be16 (of_nat (b_count ?b)) @ concat (map sent_put (sent_slots ?b)) @ ?tail"
    by (simp add: rel_put_def)
  obtain m' where m': "sent_get (b_count ?b) 0 (concat (map sent_put (sent_slots ?b)) @ ?tail) (b_m ?old) = (m', Some ?tail)"
    "length m' = 32" "\<forall>e \<in> set m'. msg_ok e" "map msg_abs (take (b_count ?b) m') = map msg_abs (sent_slots ?b)"
    using sent_get_put [OF sent_slots_ok [OF assms(1)] c(3), of 0 ?tail] c(1,2) by (auto simp: length_sent_slots)
  have h: "\<not> length (rel_put r @ rest) < 2" "u16_at 0 (rel_put r @ rest) = of_nat (b_count ?b)"
    "drop 2 (rel_put r @ rest) = concat (map sent_put (sent_slots ?b)) @ ?tail"
    unfolding p by (simp_all add: at_simps)
  have q: "\<not> length ?tail < 4 + 1 + 1 + 4 + 4 + 1 + 4 + 4 + 2" "u32_at 0 ?tail = rel_recv_acked r"
    "u8_at 4 ?tail \<noteq> 0 \<longleftrightarrow> rel_ack_due r" "u8_at 5 ?tail \<noteq> 0 \<longleftrightarrow> rel_resend_req_pending r"
    "u32_at 6 ?tail = rel_resend_req_gen r" "u32_at 10 ?tail = rel_resend_req_from r"
    "u8_at 14 ?tail \<noteq> 0 \<longleftrightarrow> rel_resend_rep_pending r" "u32_at 15 ?tail = rel_resend_rep_gen r"
    "u32_at 19 ?tail = rel_resend_rep_from r" "u16_at 23 ?tail = rel_resend_rep_pos r" "drop 25 ?tail = rest"
    by (simp_all add: at_simps)
  let ?r2 = "r0 \<lparr>rel_sent := ?old \<lparr>b_count := b_count ?b, b_head := 0, b_m := m'\<rparr>\<rparr>"
  let ?r' = "?r2 \<lparr>rel_recv_acked := rel_recv_acked r, rel_ack_due := rel_ack_due r,
      rel_resend_req_pending := rel_resend_req_pending r, rel_resend_req_gen := rel_resend_req_gen r,
      rel_resend_req_from := rel_resend_req_from r, rel_resend_rep_pending := rel_resend_rep_pending r,
      rel_resend_rep_gen := rel_resend_rep_gen r, rel_resend_rep_from := rel_resend_rep_from r,
      rel_resend_rep_pos := rel_resend_rep_pos r\<rparr>"
  have "rel_get (rel_put r @ rest) r0 = (?r', Some rest)"
    unfolding rel_get_def Let_def h(2,3) u m'(1) prod.case option.case q(2-11) using h(1) c(1) q(1) by simp
  moreover have "sent_slots (rel_sent ?r') = take (b_count ?b) m'"
    using m'(2) c(1) by (simp add: sent_slots_def ring_entries_def list_eq_iff_nth_eq)
  then have "rel_view ?r' = rel_view r" using m'(4) by (simp add: rel_view_def sent_entries_def)
  moreover have "sent_inv (rel_sent ?r')" using m'(2,3) c(1) by (simp add: sent_inv_def)
  ultimately show ?thesis by (rule that)
qed

section \<open>Round trip of the store\<close>

definition session_wf :: "TTSession \<Rightarrow> bool" where
  "session_wf s \<longleftrightarrow> length (s_root s) = 32 \<and> ratchet_wf (s_send s) \<and> ratchet_wf (s_recv s)
     \<and> rekey_wf (s_rekey s) \<and> sent_inv (rel_sent (s_rel s))"

text \<open>What a restored session shares with the saved one.\<close>

definition restored :: "TTSession \<Rightarrow> TTSession \<Rightarrow> bool" where
  "restored s s' \<longleftrightarrow> s_active s' \<and> s_i_am_initiator s' = s_i_am_initiator s \<and> s_root s' = s_root s
     \<and> s_send s' = s_send s \<and> s_recv s' = s_recv s
     \<and> (s_rekey s') \<lparr>k_carrier := []\<rparr> = (s_rekey s) \<lparr>k_carrier := []\<rparr> \<and> rel_view (s_rel s') = rel_view (s_rel s)"

lemma session_get_put:
  assumes "session_wf s" "sent_inv (rel_sent (s_rel s0))"
  obtains s' where "session_get (session_put fn s @ rest) s0 = (s', Some rest)" "restored s s'"
    "sent_inv (rel_sent (s_rel s'))"
proof -
  have w: "length (s_root s) = 32" "ratchet_wf (s_send s)" "ratchet_wf (s_recv s)" "rekey_wf (s_rekey s)"
    "sent_inv (rel_sent (s_rel s))"
    using assms(1) by (simp_all add: session_wf_def)
  let ?r = "rel_put (s_rel s) @ rest"
  let ?k = "rekey_put (s_rekey s) @ ?r"
  let ?v = "ratchet_put (s_recv s) @ ?k"
  let ?t = "ratchet_put (s_send s) @ ?v"
  obtain rl where rl: "rel_get ?r (s_rel s0) = (rl, Some rest)" "rel_view rl = rel_view (s_rel s)"
    "sent_inv (rel_sent rl)"
    by (rule rel_get_put [OF w(5) assms(2)])
  have p: "session_put fn s @ rest = of_nat fn # flag_byte (s_i_am_initiator s) @ s_root s @ ?t"
    by (simp add: session_put_def)
  have f: "\<not> length (session_put fn s @ rest) < 1 + 1 + 32" "u8_at 1 (session_put fn s @ rest) \<noteq> 0 \<longleftrightarrow> s_i_am_initiator s"
    "bytes_at 2 32 (session_put fn s @ rest) = s_root s" "drop 34 (session_put fn s @ rest) = ?t"
    unfolding p using w(1) by (simp_all add: at_simps flag_byte_def)
  let ?s' = "s0 \<lparr>s_i_am_initiator := s_i_am_initiator s, s_root := s_root s, s_send := s_send s, s_recv := s_recv s,
      s_rekey := (s_rekey s) \<lparr>k_carrier := k_carrier (s_rekey s0)\<rparr>, s_rel := rl, s_active := True\<rparr>"
  have "session_get (session_put fn s @ rest) s0 = (?s', Some rest)"
    unfolding session_get_def Let_def f(2-4) ratchet_get_put [OF w(2)] ratchet_get_put [OF w(3)]
      rekey_get_put [OF w(4)] option.case prod.case rl(1) using f(1) by simp
  moreover have "restored s ?s'" using rl(2) by (simp add: restored_def)
  ultimately show ?thesis using that rl(3) by simp
qed

lemma load_loop_put:
  "\<forall>fn \<in> set fns. fn < 256 \<and> session_wf (e ! fn) \<Longrightarrow> length e0 = 256 \<Longrightarrow>
   \<forall>s \<in> set e0. sent_inv (rel_sent (s_rel s)) \<Longrightarrow> distinct fns \<Longrightarrow>
   \<exists>e'. load_loop (length fns) (concat (map (\<lambda>fn. session_put fn (e ! fn)) fns)) e0 = e' \<and> length e' = 256
     \<and> (\<forall>fn \<in> set fns. restored (e ! fn) (e' ! fn)) \<and> (\<forall>fn < 256. fn \<notin> set fns \<longrightarrow> e' ! fn = e0 ! fn)"
proof (induction fns arbitrary: e0)
  case (Cons fn fns)
  let ?rest = "concat (map (\<lambda>fn. session_put fn (e ! fn)) fns)"
  have fn: "fn < 256" "session_wf (e ! fn)" "fn \<notin> set fns" using Cons.prems by auto
  have iv: "sent_inv (rel_sent (s_rel (e0 ! fn)))" using Cons.prems(2,3) fn(1) by simp
  obtain s' where s': "session_get (session_put fn (e ! fn) @ ?rest) (e0 ! fn) = (s', Some ?rest)"
    "restored (e ! fn) s'" "sent_inv (rel_sent (s_rel s'))"
    by (rule session_get_put [OF fn(2) iv])
  obtain b p where bp: "session_put fn (e ! fn) @ ?rest = b # p" "b = of_nat fn"
    by (simp add: session_put_def)
  have u: "unat b = fn" using fn(1) by (simp add: bp(2) unat_of_nat)
  have iv': "\<forall>s \<in> set (e0[fn := s']). sent_inv (rel_sent (s_rel s))"
    by (rule set_list_update_ball [OF Cons.prems(3) s'(3)])
  then obtain e' where e': "load_loop (length fns) ?rest (e0[fn := s']) = e'" "length e' = 256"
    "\<forall>n \<in> set fns. restored (e ! n) (e' ! n)" "\<forall>n < 256. n \<notin> set fns \<longrightarrow> e' ! n = e0[fn := s'] ! n"
    using Cons.IH [of "e0[fn := s']"] Cons.prems by auto
  have "load_loop (length (fn # fns)) (concat (map (\<lambda>fn. session_put fn (e ! fn)) (fn # fns))) e0
      = load_loop (length fns) ?rest (e0[fn := s'])"
    using s'(1) fn(1) by (simp add: bp(1) u)
  moreover have "e' ! fn = s'" using e'(4) fn(1,3) Cons.prems(2) by simp
  ultimately show ?case using e' s'(2) fn(1,3) by auto
qed simp

lemma active_fns_props:
  "distinct (active_fns e)" "fn \<in> set (active_fns e) \<longleftrightarrow> fn < 256 \<and> s_active (e ! fn)" "length (active_fns e) \<le> 256"
proof -
  show "distinct (active_fns e)" "fn \<in> set (active_fns e) \<longleftrightarrow> fn < 256 \<and> s_active (e ! fn)"
    by (auto simp: active_fns_def)
  show "length (active_fns e) \<le> 256"
    unfolding active_fns_def using length_filter_le [of "\<lambda>fn. s_active (e ! fn)" "[0..<256]"] by simp
qed

text \<open>C22: sessions survive a restart.  With between 1 and 255 well-formed active sessions and a file that
  fits the size limit, saving and then loading, with or without an at-rest key, restores every
  active session: role, handshake root, both ratchets with their stored keys, the re-key state
  and the reliable-transport state with every unacknowledged message in order; the entries of
  all other friends are left alone.\<close>

theorem session_store_roundtrip:
  assumes "toxes_ok T" "\<And>i. io i" "\<And>i. io' i" "length e0 = TT_MAX_FRIENDS"
    "0 < length (active_fns e)" "length (active_fns e) < 256"
    "\<And>fn. fn < TT_MAX_FRIENDS \<Longrightarrow> s_active (e ! fn) \<Longrightarrow> session_wf (e ! fn)"
    "\<And>s. s \<in> set e0 \<Longrightarrow> sent_inv (rel_sent (s_rel s))"
    "length (store_content e) + TOX_PASS_ENCRYPTION_EXTRA_LENGTH \<le> 4 * 1024 * 1024" "fn < TT_MAX_FRIENDS"
  shows "let e' = tt_session_store_load T io' e0 profile key (tt_session_store_save T io e profile key d)
         in if s_active (e ! fn) then restored (e ! fn) (e' ! fn) else e' ! fn = e0 ! fn"
proof -
  let ?n = "length (active_fns e)" and ?c = "store_content e"
  have u: "unat (of_nat ?n :: byte) = ?n" using assms(6) by (simp add: unat_of_nat)
  have n0: "(of_nat ?n :: byte) \<noteq> 0"
  proof
    assume "(of_nat ?n :: byte) = 0"
    then have "unat (of_nat ?n :: byte) = 0" by simp
    then show False using u assms(5) by simp
  qed
  have ne: "?c \<noteq> []" by (simp add: store_content_def)
  obtain d' buf where b: "sidecar_write T io (4 * 1024 * 1024) key (ses_path profile) ?c d = (True, d')"
    "sidecar_read T io' (4 * 1024 * 1024) (ses_path profile) d' = Some buf"
    "case key of None \<Rightarrow> buf = ?c | Some k \<Rightarrow> 80 \<le> length buf \<and> te_is_encrypted T buf \<and> te_decrypt T k buf = Some ?c"
    by (rule sidecar_write_read [OF assms(1-3) ne assms(9)])
  have dec: "ses_decrypt T key buf = Some ?c" using b(3) by (cases key) (simp_all add: ses_decrypt_def)
  have pre: "\<forall>fn \<in> set (active_fns e). fn < 256 \<and> session_wf (e ! fn)"
    using assms(7) active_fns_props(2) by blast
  obtain e' where e': "load_loop ?n (concat (map (\<lambda>fn. session_put fn (e ! fn)) (active_fns e))) e0 = e'"
    "\<forall>fn \<in> set (active_fns e). restored (e ! fn) (e' ! fn)" "\<forall>fn < 256. fn \<notin> set (active_fns e) \<longrightarrow> e' ! fn = e0 ! fn"
    using load_loop_put [OF pre assms(4) _ active_fns_props(1)] assms(8) by blast
  have p: "take 6 ?c = ses_magic" "drop 6 ?c = of_nat ?n # concat (map (\<lambda>fn. session_put fn (e ! fn)) (active_fns e))"
    "\<not> length ?c < 6"
    by (simp_all add: store_content_def ses_magic_def)
  have "parse_store ?c e0 = e'"
    unfolding parse_store_def p(2) using p(1,3) u e'(1) assms(6) by simp
  then have "tt_session_store_load T io' e0 profile key (tt_session_store_save T io e profile key d) = e'"
    using b(1,2) dec n0 assms(2) by (simp add: tt_session_store_load_def tt_session_store_save_def Let_def)
  then show ?thesis using e'(2,3) active_fns_props(2) assms(10) by (auto simp: Let_def)
qed

text \<open>256 active sessions erase the store.  The count of active sessions is kept in eight bits, so with
  every friend slot active it wraps to zero and the save deletes the existing file.\<close>

theorem full_store_is_deleted:
  assumes "\<And>fn. fn < TT_MAX_FRIENDS \<Longrightarrow> s_active (e ! fn)"
  shows "tt_session_store_save T io e profile key d (ses_path profile) = None"
proof -
  have "active_fns e = [0..<256]"
    unfolding active_fns_def using assms by (subst filter_id_conv) auto
  then show ?thesis by (simp add: tt_session_store_save_def Let_def)
qed

theorem full_store_is_deleted_witness:
  "tt_session_store_save toy_toxes (\<lambda>_. True) (replicate 256 (tt_session_init \<lparr>s_active := True\<rparr>)) (Some ''p'') None
     (\<lambda>_. Some [1]) (ses_path (Some ''p'')) = None"
  by (rule full_store_is_deleted) simp

definition one_session :: "TTSession list" where
  "one_session = (replicate 256 tt_session_init)[3 := tt_session_init \<lparr>s_active := True\<rparr>]"

lemma one_session_fns: "active_fns one_session = [3]"
proof -
  have "active_fns one_session = filter (\<lambda>fn. fn = 3) [0..<256]"
    unfolding active_fns_def one_session_def
    by (rule filter_cong) (auto simp: nth_list_update tt_session_init_def)
  moreover have "[0..<256] = [0..<3] @ 3 # [4..<256 :: nat]"
    using upt_add_eq_append [of 0 3 253] upt_conv_Cons [of 3 256] by simp
  ultimately show ?thesis by (auto simp: filter_empty_conv)
qed

theorem session_store_roundtrip_witness:
  "restored (one_session ! 3)
     (tt_session_store_load toy_toxes (\<lambda>_. True) (replicate 256 tt_session_init) (Some ''p'') (Some [7])
        (tt_session_store_save toy_toxes (\<lambda>_. True) one_session (Some ''p'') (Some [7]) Map.empty) ! 3)"
proof -
  have e3: "one_session ! 3 = tt_session_init \<lparr>s_active := True\<rparr>" by (simp add: one_session_def)
  then have s3: "s_active (one_session ! 3)" by simp
  have z: "sent_inv (rel_sent (s_rel tt_session_init))" by (simp add: tt_session_init_def reliable_zero_def)
  have wf: "session_wf (one_session ! fn)" if "fn < 256" for fn
    using that by (auto simp: one_session_def nth_list_update session_wf_def tt_session_init_def ratchet_wf_def
        ratchet_zero_def rekey_wf_def rekey_zero_def reliable_zero_def)
  have len: "length (store_content one_session) + 80 \<le> 4 * 1024 * 1024"
    by (simp add: store_content_def one_session_fns e3 ses_magic_def session_put_def ratchet_put_def rekey_put_def
        rel_put_def tt_session_init_def ratchet_zero_def rekey_zero_def reliable_zero_def
        sentbuf_zero_def sent_slots_def)
  show ?thesis
    using session_store_roundtrip [of toy_toxes "\<lambda>_. True" "\<lambda>_. True" "replicate 256 tt_session_init" one_session 3
        "Some ''p''" "Some [7]" Map.empty] toy_toxes_ok one_session_fns wf len z s3
    by (simp add: Let_def)
qed

end
