(* ===== verification/Handshake.thy ===== *)
theory Handshake
  imports Session
begin

text \<open>
  The handshake of \<^verbatim>\<open>src/src/session.c\<close>: a run of \<^verbatim>\<open>tt_session_start\<close>,
  \<^verbatim>\<open>tt_session_feed\<close> on the INIT, \<^verbatim>\<open>tt_session_reply\<close> and
  \<^verbatim>\<open>tt_session_feed\<close> on the REPLY between two honest identities, and what foreign,
  duplicate and colliding handshake frames do to a session.
\<close>

section \<open>Header fields\<close>

lemma hdr_at_parts:
  assumes "fd_hdr d = p @ q @ r @ m" "length p = 32" "length q = 32" "length r = 32" "length m = n"
  shows "hdr_at 0 32 d = p" "hdr_at 32 32 d = q" "hdr_at 64 32 d = r" "hdr_at 96 n d = m"
  using assms by (simp_all add: hdr_at_def)

lemma reestablish_preserve_fields [simp]:
  "s_pending (reestablish_preserve s) = s_pending s" "s_rel (reestablish_preserve s) = s_rel s"
  "s_lossy (reestablish_preserve s) = s_lossy s" "\<not> s_active (reestablish_preserve s)"
  "\<not> s_init_pending (reestablish_preserve s)" "\<not> s_i_am_initiator (reestablish_preserve s)"
  "\<not> k_peer_have (s_rekey (reestablish_preserve s))"
  by (simp_all add: reestablish_preserve_def tt_session_clear_def tt_session_init_def rekey_zero_def)

text \<open>Our own re-key pairs are genuine pairs.\<close>

definition own_pair_ok :: "sodium \<Rightarrow> TTRekey \<Rightarrow> bool" where
  "own_pair_ok L k \<longleftrightarrow> length (k_eph_sk k) = 32 \<and> k_eph_pk k = sd_scalarmult_base L (k_eph_sk k)
     \<and> k_have_kem k \<and> (\<exists>r. sn_keypair L r = (k_kem_pk k, k_kem_sk k))"

lemma establish_fields:
  assumes "sodium_ok L" "establish L w s f1 f2 f3 ss IKa IKb ini = (s', w')"
  shows "s_root s' = tt_kdf_root L (f1 @ f2 @ f3 @ ss) (ascii ''tt-e2ee-root:'' @ IKa @ IKb)"
    "s_send s' = ratchet_reset L (s_root s') ini" "s_recv s' = ratchet_reset L (s_root s') (\<not> ini)"
    "s_pending s' = s_pending s" "s_lossy s' = s_lossy s" "s_rel s' = s_rel s"
    "s_eph_b1_sk s' = s_eph_b1_sk s" "s_eph_b1_pk s' = s_eph_b1_pk s"
    "s_eph_b3_pk s' = s_eph_b3_pk s" "s_kem_ct s' = s_kem_ct s"
    "k_peer_have (s_rekey s') = k_peer_have (s_rekey s)" "own_pair_ok L (s_rekey s')"
  using assms
  by (auto simp: establish_def Let_def split_beta own_pair_ok_def tt_dh_keygen_def tt_kem_keygen_def
      len_simps intro: exI [of _ "Suc w"])

lemma seal_key_len:
  "sodium_ok L \<Longrightarrow> seal_key_derive L sk p ik = Some key \<Longrightarrow> length key = 32"
  by (auto simp: seal_key_derive_def len_simps split: option.splits)

text \<open>The two ends of one Diffie-Hellman leg derive the same seal key.\<close>

lemma seal_key_agree:
  assumes "sodium_ok L" "length a = 32" "length b = 32"
  obtains key where "seal_key_derive L a (sd_scalarmult_base L b) ik = Some key"
    "seal_key_derive L b (sd_scalarmult_base L a) ik = Some key" "length key = 32"
proof -
  obtain k where "tt_dh_shared L a (sd_scalarmult_base L b) = Some k"
    "tt_dh_shared L b (sd_scalarmult_base L a) = Some k"
    using dh_agree [OF assms] by metis
  then show ?thesis using that assms(1) by (simp add: seal_key_derive_def len_simps)
qed

text \<open>Sealing a handshake frame: type INIT or REPLY, XChaCha, empty plaintext.\<close>

lemma handshake_sealed:
  assumes "sodium_ok L" "length key = 32" "expected_hdr_len type 2 = Some (length hdr)" "1372 \<le> cap"
    "length hdr \<le> 1254"
  obtains f where "tt_frame_encode L cap type 0 2 key (sd_randombytes L w 24) hdr [] = Some f"
    "tt_frame_peek f = Some (frame_desc type 2 0 (sd_randombytes L w 24) hdr 0)"
    "\<And>pc. tt_frame_decode L f key pc = Some (frame_desc type 2 0 (sd_randombytes L w 24) hdr 0, [])"
proof -
  have g: "flag_set 2 1 \<longrightarrow> tt_aead_gcm_available L" "(2 :: byte) AND 0xF0 = 0"
    by (simp_all add: flag_set_def)
  have c: "29 + frame_nonce_len 2 + length hdr + length ([] :: bytes) \<le> min 1372 cap"
    using assms(4,5) by (simp add: frame_nonce_len_def flag_set_def)
  show ?thesis
    by (rule frame_sealed [OF assms(1,2) length_randombytes [OF assms(1), of w] g(2) assms(3) g(1) c,
          where seq = 0])
       (rule that, simp_all)
qed

lemma expected_handshake [simp]:
  "expected_hdr_len 0 2 = Some 1254" "expected_hdr_len 1 2 = Some 1135"
  by (simp_all add: expected_hdr_len_def flag_set_def)

section \<open>The four steps\<close>

text \<open>The initiator's session after \<^verbatim>\<open>tt_session_start\<close>.\<close>

definition started :: "sodium \<Rightarrow> nat \<Rightarrow> TTSession \<Rightarrow> int \<Rightarrow> bytes \<Rightarrow> TTSession" where
  "started L w s now seal =
     (reestablish_preserve s)
       \<lparr>s_i_am_initiator := True, s_init_pending := True, s_init_at := now,
        s_eph_a2_pk := sd_scalarmult_base L (sd_randombytes L w 32), s_eph_a2_sk := sd_randombytes L w 32,
        s_eph_a3_pk := sd_scalarmult_base L (sd_randombytes L (Suc w) 32),
        s_eph_a3_sk := sd_randombytes L (Suc w) 32,
        s_kem_pk := fst (sn_keypair L (Suc (Suc w))), s_kem_sk := snd (sn_keypair L (Suc (Suc w))),
        s_init_seal := seal\<rparr>"

definition init_hdr :: "sodium \<Rightarrow> nat \<Rightarrow> bytes \<Rightarrow> bytes" where
  "init_hdr L w pk = pk @ sd_scalarmult_base L (sd_randombytes L w 32)
     @ sd_scalarmult_base L (sd_randombytes L (Suc w) 32) @ fst (sn_keypair L (Suc (Suc w)))"

lemma start_ok:
  assumes ok: "sodium_ok L" and b: "length b = 32" "e_peer_pk env = Some (sd_scalarmult_base L b)"
    and pk: "length (e_self_pk env) = 32" and cap: "1372 \<le> cap"
  obtains f seal d where
    "tt_session_start L w s env now cap = (Inr f, started L w s now seal, w + 4)"
    "seal_key_derive L b (sd_scalarmult_base L (sd_randombytes L w 32)) (sd_scalarmult_base L b) = Some seal"
    "tt_frame_peek f = Some d" "\<And>pc. tt_frame_decode L f seal pc = Some (d, [])"
    "fd_type d = 0" "fd_hdr d = init_hdr L w (e_self_pk env)" "fd_seq d = 0"
proof -
  let ?a2 = "sd_randombytes L w 32" and ?b = "sd_scalarmult_base L b"
  obtain seal where seal: "seal_key_derive L ?a2 ?b ?b = Some seal"
    "seal_key_derive L b (sd_scalarmult_base L ?a2) ?b = Some seal" "length seal = 32"
    using seal_key_agree [OF ok length_randombytes [OF ok, of w] b(1), of ?b] by metis
  have h: "length (init_hdr L w (e_self_pk env)) = 1254"
    using ok pk kem_pair_len [OF ok, of "Suc (Suc w)"]
    by (cases "sn_keypair L (Suc (Suc w))") (simp add: init_hdr_def len_simps)
  obtain f where f: "tt_frame_encode L cap 0 0 2 seal (sd_randombytes L (w + 3) 24)
        (init_hdr L w (e_self_pk env)) [] = Some f"
      "tt_frame_peek f = Some (frame_desc 0 2 0 (sd_randombytes L (w + 3) 24) (init_hdr L w (e_self_pk env)) 0)"
      "\<And>pc. tt_frame_decode L f seal pc =
         Some (frame_desc 0 2 0 (sd_randombytes L (w + 3) 24) (init_hdr L w (e_self_pk env)) 0, [])"
    using handshake_sealed [OF ok seal(3), of 0 "init_hdr L w (e_self_pk env)" cap "w + 3"] h cap
    by (metis expected_handshake(1) order_refl)
  have "tt_session_start L w s env now cap = (Inr f, started L w s now seal, w + 4)"
    using seal(1) f(1) b(2)
    by (simp add: tt_session_start_def tt_dh_keygen_def tt_kem_keygen_def build_init_def Let_def
        started_def init_hdr_def split_beta numeral_3_eq_3 numeral_eq_Suc)
  from that [OF this seal(2) f(2,3)] show ?thesis by simp
qed

text \<open>The responder's session after it accepted the initiator's INIT.\<close>

definition hs_root :: "sodium \<Rightarrow> bytes \<Rightarrow> bytes \<Rightarrow> bytes \<Rightarrow> bytes \<Rightarrow> bytes \<Rightarrow> bytes \<Rightarrow> bytes" where
  "hs_root L f1 f2 f3 ss IKa IKb = tt_kdf_root L (f1 @ f2 @ f3 @ ss) (ascii ''tt-e2ee-root:'' @ IKa @ IKb)"

definition accepted_by :: "sodium \<Rightarrow> nat \<Rightarrow> TTSession \<Rightarrow> bytes \<Rightarrow> bytes \<Rightarrow> TTSession \<Rightarrow> bool" where
  "accepted_by L v s root ct s' \<longleftrightarrow>
     s_active s' \<and> \<not> s_i_am_initiator s' \<and> s_reply_due s' \<and> \<not> s_init_pending s' \<and>
     s_root s' = root \<and> s_send s' = ratchet_reset L root False \<and> s_recv s' = ratchet_reset L root True \<and>
     s_eph_b1_sk s' = sd_randombytes L v 32 \<and>
     s_eph_b1_pk s' = sd_scalarmult_base L (sd_randombytes L v 32) \<and>
     s_eph_b3_pk s' = sd_scalarmult_base L (sd_randombytes L (Suc v) 32) \<and> s_kem_ct s' = ct \<and>
     s_pending s' = s_pending s \<and> s_rel s' = s_rel s \<and> s_lossy s' = s_lossy s \<and>
     k_peer_have (s_rekey s') = k_peer_have (s_rekey s) \<and> own_pair_ok L (s_rekey s')"

lemma accept_init_ok:
  assumes ok: "sodium_ok L" and a: "length a = 32" and b: "length b = 32"
    and env: "e_self_sk env = b" "e_self_pk env = sd_scalarmult_base L b"
    and h: "fd_hdr d = init_hdr L w (sd_scalarmult_base L a)"
    and k: "seal_key_derive L b (sd_scalarmult_base L (sd_randombytes L w 32)) (sd_scalarmult_base L b) = Some seal"
    and dec: "tt_frame_decode L f seal 16 = Some (d, [])"
  obtains s' f1 f2 f3 ct ss where
    "accept_init L v s env (sd_scalarmult_base L a) d f = (Inr [], True, s', v + 5)"
    "tt_kem_enc L (v + 2) (fst (sn_keypair L (w + 2))) = ((ct, ss), v + 3)"
    "tt_dh_shared L a (sd_scalarmult_base L (sd_randombytes L v 32)) = Some f1"
    "tt_dh_shared L (sd_randombytes L w 32) (sd_scalarmult_base L b) = Some f2"
    "tt_dh_shared L (sd_randombytes L (Suc w) 32) (sd_scalarmult_base L (sd_randombytes L (Suc v) 32)) = Some f3"
    "accepted_by L v s (hs_root L f1 f2 f3 ss (sd_scalarmult_base L a) (sd_scalarmult_base L b)) ct s'"
proof -
  let ?r = "\<lambda>i. sd_randombytes L i 32"
  have hd: "hdr_at 32 32 d = sd_scalarmult_base L (?r w)" "hdr_at 64 32 d = sd_scalarmult_base L (?r (Suc w))"
    "hdr_at 96 1158 d = fst (sn_keypair L (w + 2))"
    using hdr_at_parts [OF h [unfolded init_hdr_def], of 1158] ok a
      kem_pair_len [OF ok, of "Suc (Suc w)" "fst (sn_keypair L (Suc (Suc w)))" "snd (sn_keypair L (Suc (Suc w)))"]
    by (simp_all add: len_simps)
  obtain f1 where f1: "tt_dh_shared L a (sd_scalarmult_base L (?r v)) = Some f1"
    "tt_dh_shared L (?r v) (sd_scalarmult_base L a) = Some f1"
    using dh_agree [OF ok a length_randombytes [OF ok, of v]] by metis
  obtain f2 where f2: "tt_dh_shared L (?r w) (sd_scalarmult_base L b) = Some f2"
    "tt_dh_shared L b (sd_scalarmult_base L (?r w)) = Some f2"
    using dh_agree [OF ok length_randombytes [OF ok, of w] b] by metis
  obtain f3 where f3: "tt_dh_shared L (?r (Suc w)) (sd_scalarmult_base L (?r (Suc v))) = Some f3"
    "tt_dh_shared L (?r (Suc v)) (sd_scalarmult_base L (?r (Suc w))) = Some f3"
    using dh_agree [OF ok length_randombytes [OF ok, of "Suc w"] length_randombytes [OF ok, of "Suc v"]] by metis
  obtain ct ss where enc: "tt_kem_enc L (v + 2) (fst (sn_keypair L (w + 2))) = ((ct, ss), v + 3)"
    by (simp add: tt_kem_enc_def split_beta)
  let ?s1 = "s \<lparr>s_init_seal := seal, s_eph_b1_pk := sd_scalarmult_base L (?r v), s_eph_b1_sk := ?r v,
      s_eph_b3_pk := sd_scalarmult_base L (?r (Suc v)), s_eph_b3_sk := ?r (Suc v), s_kem_ct := ct\<rparr>"
  obtain s2 where est: "establish L (v + 3) ?s1 f1 f2 f3 ss (sd_scalarmult_base L a) (sd_scalarmult_base L b) False
      = (s2, v + 5)"
    by (simp add: establish_def tt_dh_keygen_def tt_kem_keygen_def split_beta Let_def)
  let ?s' = "s2 \<lparr>s_i_am_initiator := False, s_active := True, s_reply_due := True, s_init_pending := False\<rparr>"
  have "accept_init L v s env (sd_scalarmult_base L a) d f = (Inr [], True, ?s', v + 5)"
    using est enc f1(2) f2(2) f3(2) k dec
    by (simp add: accept_init_def env hd tt_dh_keygen_def Let_def numeral_2_eq_2)
  moreover have "accepted_by L v s (hs_root L f1 f2 f3 ss (sd_scalarmult_base L a) (sd_scalarmult_base L b)) ct ?s'"
    using establish_fields [OF ok est] by (simp add: accepted_by_def hs_root_def)
  ultimately show ?thesis using that enc f1(1) f2(1) f3(1) by blast
qed

text \<open>The responder's REPLY, built once from the accepted session.\<close>

definition reply_hdr :: "sodium \<Rightarrow> nat \<Rightarrow> bytes \<Rightarrow> bytes \<Rightarrow> bytes" where
  "reply_hdr L v pk ct = pk @ sd_scalarmult_base L (sd_randombytes L v 32)
     @ sd_scalarmult_base L (sd_randombytes L (Suc v) 32) @ ct"

lemma reply_ok:
  assumes ok: "sodium_ok L" and a: "length a = 32" and s: "accepted_by L v s0 root ct s"
    and env: "length (e_self_pk env) = 32" "e_peer_pk env = Some (sd_scalarmult_base L a)"
    and ct: "length ct = 1039" and cap: "1372 \<le> cap"
  obtains f key d where
    "tt_session_reply L x s env cap = (Inr f, s \<lparr>s_reply_due := False, s_reply_cache := f\<rparr>, Suc x)"
    "seal_key_derive L a (sd_scalarmult_base L (sd_randombytes L v 32)) (sd_scalarmult_base L a) = Some key"
    "tt_frame_peek f = Some d" "\<And>pc. tt_frame_decode L f key pc = Some (d, [])"
    "fd_type d = 1" "fd_hdr d = reply_hdr L v (e_self_pk env) ct"
proof -
  let ?b1 = "sd_randombytes L v 32" and ?a = "sd_scalarmult_base L a"
  obtain key where key: "seal_key_derive L ?b1 ?a ?a = Some key"
    "seal_key_derive L a (sd_scalarmult_base L ?b1) ?a = Some key" "length key = 32"
    using seal_key_agree [OF ok length_randombytes [OF ok, of v] a, of ?a] by metis
  have h: "length (reply_hdr L v (e_self_pk env) ct) = 1135"
    using ok env(1) ct by (simp add: reply_hdr_def len_simps)
  obtain f where f: "tt_frame_encode L cap 1 0 2 key (sd_randombytes L x 24)
        (reply_hdr L v (e_self_pk env) ct) [] = Some f"
      "tt_frame_peek f = Some (frame_desc 1 2 0 (sd_randombytes L x 24) (reply_hdr L v (e_self_pk env) ct) 0)"
      "\<And>pc. tt_frame_decode L f key pc =
         Some (frame_desc 1 2 0 (sd_randombytes L x 24) (reply_hdr L v (e_self_pk env) ct) 0, [])"
    by (rule handshake_sealed [OF ok key(3), of 1 "reply_hdr L v (e_self_pk env) ct" cap x])
       (use h cap in simp_all)
  have "tt_session_reply L x s env cap = (Inr f, s \<lparr>s_reply_due := False, s_reply_cache := f\<rparr>, Suc x)"
    using key(1) f(1) env(2) s
    by (simp add: tt_session_reply_def accepted_by_def reply_hdr_def Let_def)
  from that [OF this key(2) f(2,3)] show ?thesis by simp
qed

text \<open>The initiator completes the handshake on that REPLY.\<close>

lemma feed_reply_ok:
  assumes ok: "sodium_ok L" and b: "length b = 32"
    and env: "e_self_sk env = a" "e_self_pk env = sd_scalarmult_base L a" "e_peer_pk env = Some (sd_scalarmult_base L b)"
    and ct: "length ct = 1039"
    and h: "fd_hdr d = reply_hdr L v (sd_scalarmult_base L b) ct"
    and k: "seal_key_derive L a (sd_scalarmult_base L (sd_randombytes L v 32)) (sd_scalarmult_base L a) = Some key"
    and dec: "tt_frame_decode L f key 16 = Some (d, [])"
    and f1: "tt_dh_shared L a (sd_scalarmult_base L (sd_randombytes L v 32)) = Some f1"
    and f2: "tt_dh_shared L (sd_randombytes L w 32) (sd_scalarmult_base L b) = Some f2"
    and f3: "tt_dh_shared L (sd_randombytes L (Suc w) 32) (sd_scalarmult_base L (sd_randombytes L (Suc v) 32)) = Some f3"
    and ss: "tt_kem_dec L ct (snd (sn_keypair L (w + 2))) = ss"
  obtains s' where "feed_reply L x (started L w s now seal) env d f = (Inr [], True, s', x + 2)"
    "s_active s'" "s_i_am_initiator s'" "\<not> s_init_pending s'"
    "s_root s' = hs_root L f1 f2 f3 ss (sd_scalarmult_base L a) (sd_scalarmult_base L b)"
    "s_send s' = ratchet_reset L (s_root s') True" "s_recv s' = ratchet_reset L (s_root s') False"
    "s_pending s' = s_pending s" "s_rel s' = s_rel s" "s_lossy s' = s_lossy s"
    "\<not> k_peer_have (s_rekey s')" "own_pair_ok L (s_rekey s')"
proof -
  have hd: "hdr_at 0 32 d = sd_scalarmult_base L b"
    "hdr_at 32 32 d = sd_scalarmult_base L (sd_randombytes L v 32)"
    "hdr_at 64 32 d = sd_scalarmult_base L (sd_randombytes L (Suc v) 32)" "hdr_at 96 1039 d = ct"
    "length (fd_hdr d) = 1135"
    using hdr_at_parts [OF h [unfolded reply_hdr_def], of 1039] ok b ct
    by (simp_all add: len_simps h reply_hdr_def)
  let ?s = "started L w s now seal"
  have st: "s_init_pending ?s" "\<not> s_active ?s" "s_eph_a2_sk ?s = sd_randombytes L w 32"
    "s_eph_a3_sk ?s = sd_randombytes L (Suc w) 32" "s_kem_sk ?s = snd (sn_keypair L (w + 2))"
    "s_pending ?s = s_pending s" "s_rel ?s = s_rel s" "s_lossy ?s = s_lossy s" "\<not> k_peer_have (s_rekey ?s)"
    by (simp_all add: started_def)
  obtain s2 where est: "establish L x ?s f1 f2 f3 ss (sd_scalarmult_base L a) (sd_scalarmult_base L b) True
      = (s2, x + 2)"
    by (simp add: establish_def tt_dh_keygen_def tt_kem_keygen_def split_beta Let_def)
  let ?s' = "s2 \<lparr>s_init_pending := False, s_i_am_initiator := True, s_active := True\<rparr>"
  have "feed_reply L x ?s env d f = (Inr [], True, ?s', x + 2)"
    using est f1 f2 f3 ss k dec by (simp add: feed_reply_def st env hd)
  from that [OF this] show ?thesis
    using establish_fields [OF ok est] by (simp add: hs_root_def st)
qed

section \<open>Handshake properties\<close>

definition honest_env :: "sodium \<Rightarrow> bytes \<Rightarrow> bytes \<Rightarrow> TTE2EEEnv" where
  "honest_env L self peer = \<lparr>e_self_sk = self, e_self_pk = sd_scalarmult_base L self,
                             e_peer_pk = Some (sd_scalarmult_base L peer)\<rparr>"

text \<open>The sessions that answer an INIT of \<open>pkA\<close> as responder: not an established responder
  already, and no INIT of one's own outstanding unless \<open>pkA\<close> is the lower identity.\<close>

definition responder_ready :: "TTSession \<Rightarrow> bytes \<Rightarrow> bytes \<Rightarrow> bool" where
  "responder_ready s pkA pkB \<longleftrightarrow>
     \<not> (s_active s \<and> \<not> s_i_am_initiator s) \<and>
     (s_i_am_initiator s \<and> s_init_pending s \<and> \<not> s_active s \<longrightarrow> memcmp_lt pkA pkB)"

lemma feed_init_accepts:
  assumes "responder_ready s pkA (e_self_pk env)" "e_peer_pk env = Some pkA"
    "length (fd_hdr d) = 1254" "hdr_at 0 32 d = pkA"
  obtains s0 where "feed_init L v s env d f = accept_init L v s0 env pkA d f"
    "s_pending s0 = s_pending s" "s_rel s0 = s_rel s" "s_lossy s0 = s_lossy s"
    "k_peer_have (s_rekey s0) \<Longrightarrow> k_peer_have (s_rekey s)"
proof -
  have nr: "\<not> init_retransmit L s env d f"
    using assms(1) by (auto simp: init_retransmit_def responder_ready_def)
  show ?thesis
  proof (cases "s_i_am_initiator s \<and> (s_active s \<or> s_init_pending s)")
    case True
    then have "feed_init L v s env d f = accept_init L v (reestablish_preserve s) env pkA d f"
      using assms nr by (auto simp: feed_init_def responder_ready_def)
    then show ?thesis by (rule that) simp_all
  next
    case False
    then have "feed_init L v s env d f = accept_init L v s env pkA d f"
      using assms nr by (auto simp: feed_init_def)
    then show ?thesis by (rule that) simp_all
  qed
qed

lemma feed_of_peek:
  assumes "tt_frame_peek f = Some d"
  shows "fd_type d = 0 \<Longrightarrow> tt_session_feed L w s env f pc = feed_init L w s env d f"
    "fd_type d = 1 \<Longrightarrow> tt_session_feed L w s env f pc = feed_reply L w s env d f"
  using assms by (simp_all add: tt_session_feed_def)

lemma length_init_hdr: "sodium_ok L \<Longrightarrow> length pk = 32 \<Longrightarrow> length (init_hdr L w pk) = 1254"
  using kem_pair_len [of L "Suc (Suc w)"]
  by (cases "sn_keypair L (Suc (Suc w))") (simp add: init_hdr_def len_simps)

lemma handshake_run:
  assumes "sodium_ok L" "length a = 32" "length b = 32" "TT_FRAME_MAX \<le> cap"
    "responder_ready sB (sd_scalarmult_base L a) (sd_scalarmult_base L b)"
  shows "\<exists>f1 sA1 w1 sB1 v1 f2 sB2 v2 sA2 w2 code.
     tt_session_start L w sA (honest_env L a b) now cap = (Inr f1, sA1, w1) \<and>
     tt_session_feed L v sB (honest_env L b a) f1 pc = (Inr [], True, sB1, v1) \<and>
     tt_session_reply L v1 sB1 (honest_env L b a) cap = (Inr f2, sB2, v2) \<and>
     tt_session_feed L w1 sA1 (honest_env L a b) f2 pc = (Inr [], True, sA2, w2) \<and>
     s_active sA2 \<and> s_active sB2 \<and> s_i_am_initiator sA2 \<and> \<not> s_i_am_initiator sB2 \<and>
     s_root sA2 = s_root sB2 \<and> s_send sA2 = s_recv sB2 \<and> s_recv sA2 = s_send sB2 \<and>
     tt_session_verify_code L sA2 = Some code \<and> tt_session_verify_code L sB2 = Some code \<and>
     s_pending sA2 = s_pending sA \<and> s_pending sB2 = s_pending sB \<and>
     s_lossy sA2 = s_lossy sA \<and> s_lossy sB2 = s_lossy sB \<and> s_rel sA2 = s_rel sA \<and> s_rel sB2 = s_rel sB \<and>
     own_pair_ok L (s_rekey sA2) \<and> own_pair_ok L (s_rekey sB2) \<and>
     \<not> k_peer_have (s_rekey sA2) \<and> (k_peer_have (s_rekey sB2) \<longrightarrow> k_peer_have (s_rekey sB))"
proof -
  let ?A = "sd_scalarmult_base L a" and ?B = "sd_scalarmult_base L b"
  let ?ea = "honest_env L a b" and ?eb = "honest_env L b a"
  note ok = assms(1)
  have lp: "length ?A = 32" "length ?B = 32" using assms(1-3) by (simp_all add: len_simps)
  have ea: "e_self_sk ?ea = a" "e_self_pk ?ea = ?A" "e_peer_pk ?ea = Some ?B"
    and eb: "e_self_sk ?eb = b" "e_self_pk ?eb = ?B" "e_peer_pk ?eb = Some ?A"
    by (simp_all add: honest_env_def)
  obtain f1 seal d1 where st: "tt_session_start L w sA ?ea now cap = (Inr f1, started L w sA now seal, w + 4)"
    "seal_key_derive L b (sd_scalarmult_base L (sd_randombytes L w 32)) ?B = Some seal"
    "tt_frame_peek f1 = Some d1" "\<And>pc. tt_frame_decode L f1 seal pc = Some (d1, [])"
    "fd_type d1 = 0" "fd_hdr d1 = init_hdr L w ?A"
    using start_ok [OF ok assms(3) ea(3) lp(1) [folded ea(2)] assms(4), of w sA now] ea(2) by metis
  have h0: "hdr_at 0 32 d1 = ?A" using lp(1) by (simp add: hdr_at_def st(6) init_hdr_def)
  obtain s0 where s0: "feed_init L v sB ?eb d1 f1 = accept_init L v s0 ?eb ?A d1 f1"
    "s_pending s0 = s_pending sB" "s_rel s0 = s_rel sB" "s_lossy s0 = s_lossy sB"
    "k_peer_have (s_rekey s0) \<longrightarrow> k_peer_have (s_rekey sB)"
    using feed_init_accepts [of sB ?A ?eb d1 L v f1] assms(5) eb length_init_hdr [OF ok lp(1)] h0 st(6)
    by metis
  obtain sB1 g1 g2 g3 ct ss where ac: "accept_init L v s0 ?eb ?A d1 f1 = (Inr [], True, sB1, v + 5)"
    "tt_kem_enc L (v + 2) (fst (sn_keypair L (w + 2))) = ((ct, ss), v + 3)"
    "tt_dh_shared L a (sd_scalarmult_base L (sd_randombytes L v 32)) = Some g1"
    "tt_dh_shared L (sd_randombytes L w 32) ?B = Some g2"
    "tt_dh_shared L (sd_randombytes L (Suc w) 32) (sd_scalarmult_base L (sd_randombytes L (Suc v) 32)) = Some g3"
    "accepted_by L v s0 (hs_root L g1 g2 g3 ss ?A ?B) ct sB1"
    using accept_init_ok [OF ok assms(2,3) eb(1,2) st(6,2,4)] by metis
  have kem: "tt_kem_dec L ct (snd (sn_keypair L (w + 2))) = ss" "length ct = 1039"
    using kem_agree [OF ok prod.collapse [symmetric] ac(2)] by auto
  obtain f2 key d2 where re: "tt_session_reply L (v + 5) sB1 ?eb cap
      = (Inr f2, sB1 \<lparr>s_reply_due := False, s_reply_cache := f2\<rparr>, Suc (v + 5))"
    "seal_key_derive L a (sd_scalarmult_base L (sd_randombytes L v 32)) ?A = Some key"
    "tt_frame_peek f2 = Some d2" "\<And>pc. tt_frame_decode L f2 key pc = Some (d2, [])"
    "fd_type d2 = 1" "fd_hdr d2 = reply_hdr L v ?B ct"
    using reply_ok [OF ok assms(2) ac(6) lp(2) [folded eb(2)] eb(3) kem(2) assms(4), of "v + 5"] eb(2) by metis
  obtain sA2 where fr: "feed_reply L (w + 4) (started L w sA now seal) ?ea d2 f2 = (Inr [], True, sA2, w + 4 + 2)"
    "s_active sA2" "s_i_am_initiator sA2" "s_root sA2 = hs_root L g1 g2 g3 ss ?A ?B"
    "s_send sA2 = ratchet_reset L (s_root sA2) True" "s_recv sA2 = ratchet_reset L (s_root sA2) False"
    "s_pending sA2 = s_pending sA" "s_rel sA2 = s_rel sA" "s_lossy sA2 = s_lossy sA"
    "\<not> k_peer_have (s_rekey sA2)" "own_pair_ok L (s_rekey sA2)"
    by (rule feed_reply_ok [OF ok assms(3) ea kem(2) re(6,2,4) ac(3-5) kem(1), of "w + 4" sA now seal])
  have vc: "tt_session_verify_code L sA2 = tt_session_verify_code L sB1"
    using fr(2,4) ac(6) by (simp add: tt_session_verify_code_def accepted_by_def)
  obtain code where code: "tt_session_verify_code L sA2 = Some code"
    using fr(2) by (simp add: tt_session_verify_code_def)
  have "tt_session_verify_code L (sB1 \<lparr>s_reply_due := False, s_reply_cache := f2\<rparr>)
      = tt_session_verify_code L sB1"
    by (simp add: tt_session_verify_code_def)
  then have vs: "tt_session_verify_code L (sB1 \<lparr>s_reply_due := False, s_reply_cache := f2\<rparr>) = Some code"
    using vc code by simp
  have F: "tt_session_feed L v sB ?eb f1 pc = (Inr [], True, sB1, v + 5)"
    "tt_session_feed L (w + 4) (started L w sA now seal) ?ea f2 pc = (Inr [], True, sA2, w + 4 + 2)"
    using feed_of_peek(1) [OF st(3,5)] feed_of_peek(2) [OF re(3,5)] s0(1) ac(1) fr(1) by metis+
  let ?sB = "sB1 \<lparr>s_reply_due := False, s_reply_cache := f2\<rparr>"
  have G: "s_active ?sB" "\<not> s_i_am_initiator ?sB" "s_root sA2 = s_root ?sB" "s_send sA2 = s_recv ?sB"
    "s_recv sA2 = s_send ?sB" "s_pending ?sB = s_pending sB" "s_lossy ?sB = s_lossy sB"
    "s_rel ?sB = s_rel sB" "own_pair_ok L (s_rekey ?sB)" "k_peer_have (s_rekey ?sB) \<longrightarrow> k_peer_have (s_rekey sB)"
    using ac(6) fr(4-6) s0(2-5) by (simp_all add: accepted_by_def)
  show ?thesis
    by (intro exI conjI)
       (rule st(1), rule F(1), rule re(1), rule F(2), rule fr(2), rule G(1), rule fr(3), rule G(2),
        rule G(3), rule G(4), rule G(5), rule code, rule vs, rule fr(7), rule G(6),
        rule fr(9), rule G(7), rule fr(8), rule G(8), rule fr(11), rule G(9), rule fr(10), rule G(10))
qed

text \<open>C2: the handshake completes and the two sides agree.  From any session of the initiator and any
  session of a responder that is ready for it (colliding INITs included, when the initiator has
  the lower identity key), start, feed of the INIT, reply and feed of the REPLY all succeed; both
  sessions are then active with the same handshake root and the same verification code, each
  side's sending ratchet equals the other's receiving ratchet, and the texts stashed before the
  handshake are still there on both sides.\<close>

theorem handshake_agreement:
  assumes "sodium_ok L" "length a = 32" "length b = 32" "TT_FRAME_MAX \<le> cap"
    "responder_ready sB (sd_scalarmult_base L a) (sd_scalarmult_base L b)"
  shows "\<exists>f1 sA1 w1 sB1 v1 f2 sB2 v2 sA2 w2 code.
     tt_session_start L w sA (honest_env L a b) now cap = (Inr f1, sA1, w1) \<and>
     tt_session_feed L v sB (honest_env L b a) f1 pc = (Inr [], True, sB1, v1) \<and>
     tt_session_reply L v1 sB1 (honest_env L b a) cap = (Inr f2, sB2, v2) \<and>
     tt_session_feed L w1 sA1 (honest_env L a b) f2 pc = (Inr [], True, sA2, w2) \<and>
     s_active sA2 \<and> s_active sB2 \<and> s_i_am_initiator sA2 \<and> \<not> s_i_am_initiator sB2 \<and>
     s_root sA2 = s_root sB2 \<and> s_send sA2 = s_recv sB2 \<and> s_recv sA2 = s_send sB2 \<and>
     tt_session_verify_code L sA2 = Some code \<and> tt_session_verify_code L sB2 = Some code \<and>
     s_pending sA2 = s_pending sA \<and> s_pending sB2 = s_pending sB"
  using handshake_run [OF assms, of w sA now v pc] by (elim exE conjE) (intro exI conjI)

theorem handshake_agreement_witness:
  "\<exists>f1 sA1 w1 sB1 v1 f2 sB2 v2 sA2 w2 code.
     tt_session_start (toy True) 0 tt_session_init (honest_env (toy True) (replicate 32 1) (replicate 32 2)) 7 1372
       = (Inr f1, sA1, w1) \<and>
     tt_session_feed (toy True) 50 tt_session_init (honest_env (toy True) (replicate 32 2) (replicate 32 1)) f1 1372
       = (Inr [], True, sB1, v1) \<and>
     tt_session_reply (toy True) v1 sB1 (honest_env (toy True) (replicate 32 2) (replicate 32 1)) 1372
       = (Inr f2, sB2, v2) \<and>
     tt_session_feed (toy True) w1 sA1 (honest_env (toy True) (replicate 32 1) (replicate 32 2)) f2 1372
       = (Inr [], True, sA2, w2) \<and>
     s_active sA2 \<and> s_active sB2 \<and> s_i_am_initiator sA2 \<and> \<not> s_i_am_initiator sB2 \<and>
     s_root sA2 = s_root sB2 \<and> s_send sA2 = s_recv sB2 \<and> s_recv sA2 = s_send sB2 \<and>
     tt_session_verify_code (toy True) sA2 = Some code \<and> tt_session_verify_code (toy True) sB2 = Some code \<and>
     s_pending sA2 = s_pending tt_session_init \<and> s_pending sB2 = s_pending tt_session_init"
  by (rule handshake_agreement [OF toy_ok])
     (simp_all add: responder_ready_def tt_session_init_def)

text \<open>Crossing INITs are resolved by identity order.  Two different identities are ordered one
  way or the other; a side that waits for a REPLY and has the lower key ignores every INIT of
  the peer: the call returns 0, reports no handshake and changes nothing, so only the higher
  side gives up its own INIT.\<close>

theorem init_collision_lower_waits:
  assumes "tt_frame_peek inp = Some d" "fd_type d = TT_FRAME_INIT" "length (fd_hdr d) = TT_HDR_INIT"
    "e_peer_pk env = Some (hdr_at 0 32 d)" "length (e_self_pk env) = 32"
    "hdr_at 0 32 d \<noteq> e_self_pk env"
    "s_i_am_initiator s" "s_init_pending s" "\<not> s_active s"
  shows "(memcmp_lt (e_self_pk env) (hdr_at 0 32 d) \<or> memcmp_lt (hdr_at 0 32 d) (e_self_pk env)) \<and>
    (memcmp_lt (e_self_pk env) (hdr_at 0 32 d) \<longleftrightarrow>
       tt_session_feed L w s env inp pc = (Inr [], False, s, w) \<and> \<not> memcmp_lt (hdr_at 0 32 d) (e_self_pk env))"
proof -
  have l: "length (hdr_at 0 32 d) = length (e_self_pk env)"
    using assms(3,5) by (simp add: hdr_at_def)
  have "tt_session_feed L w s env inp pc = (Inr [], False, s, w)"
    if "\<not> memcmp_lt (hdr_at 0 32 d) (e_self_pk env)"
    using assms that by (simp add: feed_of_peek(1) feed_init_def init_retransmit_def)
  then show ?thesis
    using memcmp_lt_total [OF l assms(6)] memcmp_lt_asym by blast
qed

text \<open>An established responder takes every sealed INIT of its peer for a retransmit.  Whatever
  handshake the INIT belongs to (the seal key saved for comparison is never compared), feeding it
  reports a handshake and leaves the session as it was, and the following reply call re-sends the
  cached REPLY of the old handshake: a peer that lost its session cannot re-establish this way.\<close>

theorem fresh_init_taken_for_retransmit:
  assumes "sodium_ok L" "length a = 32" "length b = 32" "TT_FRAME_MAX \<le> cap"
    "s_active sB" "\<not> s_i_am_initiator sB" "\<not> s_reply_due sB" "s_reply_cache sB = r"
    "r \<noteq> []" "length r \<le> cap"
  shows "\<exists>f sA1 w1. tt_session_start L w sA (honest_env L a b) now cap = (Inr f, sA1, w1) \<and>
    tt_session_feed L v sB (honest_env L b a) f pc = (Inr [], True, sB, v) \<and>
    tt_session_reply L v sB (honest_env L b a) cap = (Inr r, sB, v)"
proof -
  let ?A = "sd_scalarmult_base L a" and ?B = "sd_scalarmult_base L b"
  let ?ea = "honest_env L a b" and ?eb = "honest_env L b a"
  have lp: "length ?A = 32" using assms(1-3) by (simp add: len_simps)
  obtain f seal d where st: "tt_session_start L w sA ?ea now cap = (Inr f, started L w sA now seal, w + 4)"
    "seal_key_derive L b (sd_scalarmult_base L (sd_randombytes L w 32)) ?B = Some seal"
    "tt_frame_peek f = Some d" "\<And>pc. tt_frame_decode L f seal pc = Some (d, [])"
    "fd_type d = 0" "fd_hdr d = init_hdr L w ?A" "fd_seq d = 0"
    using start_ok [OF assms(1,3) _ _ assms(4), of ?ea w sA now] lp by (auto simp: honest_env_def)
  have h: "hdr_at 0 32 d = ?A" "hdr_at 32 32 d = sd_scalarmult_base L (sd_randombytes L w 32)"
    using lp assms(1) by (simp_all add: hdr_at_def st(6) init_hdr_def len_simps)
  have rt: "init_retransmit L sB ?eb d f"
    using st assms(5,6) by (simp add: init_retransmit_def honest_env_def h(2))
  have "tt_session_feed L v sB ?eb f pc = feed_init L v sB ?eb d f"
    by (rule feed_of_peek(1) [OF st(3,5)])
  also have "\<dots> = (Inr [], True, sB, v)"
    using rt length_init_hdr [OF assms(1) lp, of w] st(6) h(1) by (simp add: feed_init_def honest_env_def)
  finally have fd: "tt_session_feed L v sB ?eb f pc = (Inr [], True, sB, v)" .
  have "tt_session_reply L v sB ?eb cap = (Inr r, sB, v)"
    using assms(7-10) by (simp add: tt_session_reply_def honest_env_def)
  with st(1) fd show ?thesis by blast
qed

definition old_responder :: TTSession where
  "old_responder = tt_session_init \<lparr>s_active := True, s_reply_cache := [1, 2, 3]\<rparr>"

theorem fresh_init_taken_for_retransmit_witness:
  "\<exists>f sA1 w1.
    tt_session_start (toy True) 0 tt_session_init (honest_env (toy True) (replicate 32 1) (replicate 32 2)) 0 1372
      = (Inr f, sA1, w1) \<and>
    tt_session_feed (toy True) 9 old_responder (honest_env (toy True) (replicate 32 2) (replicate 32 1)) f 1372
      = (Inr [], True, old_responder, 9) \<and>
    tt_session_reply (toy True) 9 old_responder (honest_env (toy True) (replicate 32 2) (replicate 32 1)) 1372
      = (Inr [1, 2, 3], old_responder, 9)"
  by (rule fresh_init_taken_for_retransmit [OF toy_ok])
     (simp_all add: old_responder_def tt_session_init_def)

text \<open>An unauthenticated INIT tears an established initiator down.  The claimed identity is only
  compared with the friend's public key; the session is cleared before the frame is opened, so a
  frame of the right shape that opens under no key ends the session and is then reported as
  malformed or foreign.\<close>

theorem forged_init_drops_session:
  assumes "tt_frame_peek inp = Some d" "fd_type d = TT_FRAME_INIT" "length (fd_hdr d) = TT_HDR_INIT"
    "e_peer_pk env = Some (hdr_at 0 32 d)" "s_active s" "s_i_am_initiator s"
    "\<And>key. tt_frame_decode L inp key 16 = None"
  shows "\<exists>e. tt_session_feed L w s env inp pc = (Inl e, False, reestablish_preserve s, w)
    \<and> \<not> s_active (reestablish_preserve s)"
  using assms
  by (cases "seal_key_derive L (e_self_sk env) (hdr_at 32 32 d) (e_self_pk env)")
     (simp_all add: feed_of_peek(1) feed_init_def init_retransmit_def accept_init_def)

definition shaped_init :: "byte \<Rightarrow> bytes \<Rightarrow> bytes" where
  "shaped_init flags pk = frame_ad 0 0 flags (replicate 24 0) (pk @ replicate 1222 0) @ replicate 16 0"

lemma shaped_init_peek:
  assumes "length pk = 32" "flags AND 0xF0 = 0"
  obtains d where "tt_frame_peek (shaped_init flags pk) = Some d" "fd_type d = 0"
    "length (fd_hdr d) = 1254" "hdr_at 0 32 d = pk"
  using tt_frame_peek_ad [of flags "replicate 24 0" "pk @ replicate 1222 0" "replicate 16 0" 0 0]
    frame_nonce_len_cases [of flags] assms that
  by (auto simp: shaped_init_def hdr_at_def)

theorem forged_init_drops_session_witness:
  "\<exists>e. tt_session_feed (toy False) 0 (tt_session_init \<lparr>s_active := True, s_i_am_initiator := True\<rparr>)
       \<lparr>e_self_sk = replicate 32 1, e_self_pk = replicate 32 1, e_peer_pk = Some (replicate 32 2)\<rparr>
       (shaped_init 3 (replicate 32 2)) 1372
     = (Inl e, False, reestablish_preserve (tt_session_init \<lparr>s_active := True, s_i_am_initiator := True\<rparr>), 0)
     \<and> \<not> s_active (reestablish_preserve (tt_session_init \<lparr>s_active := True, s_i_am_initiator := True\<rparr>))"
proof -
  let ?f = "shaped_init 3 (replicate 32 2)"
  obtain d where d: "tt_frame_peek ?f = Some d" "fd_type d = 0" "length (fd_hdr d) = 1254"
    "hdr_at 0 32 d = replicate 32 2"
    by (rule shaped_init_peek [of "replicate 32 2" 3]) simp_all
  have "?f ! 6 = 3"
    using frame_ad_fields(4) [of 3 "replicate 24 0" "replicate 32 2 @ replicate 1222 0" 0 0 "replicate 16 0"]
    by (simp add: shaped_init_def frame_nonce_len_def)
  then have "tt_frame_decode (toy False) ?f key 16 = None" for key
    using decode_needs_cipher [of "toy False" ?f key 16]
    by (cases "tt_frame_decode (toy False) ?f key 16") (simp_all add: flag_set_def)
  then show ?thesis
    by (intro forged_init_drops_session [OF d(1-3)]) (simp_all add: d(4))
qed

theorem init_collision_lower_waits_witness:
  "tt_session_feed (toy False) 0 (tt_session_init \<lparr>s_i_am_initiator := True, s_init_pending := True\<rparr>)
     \<lparr>e_self_sk = replicate 32 1, e_self_pk = replicate 32 1, e_peer_pk = Some (replicate 32 2)\<rparr>
     (shaped_init 2 (replicate 32 2)) 1372
   = (Inr [], False, tt_session_init \<lparr>s_i_am_initiator := True, s_init_pending := True\<rparr>, 0)"
proof -
  let ?f = "shaped_init 2 (replicate 32 2)"
  obtain d where d: "tt_frame_peek ?f = Some d" "fd_type d = 0" "length (fd_hdr d) = 1254"
    "hdr_at 0 32 d = replicate 32 2"
    by (rule shaped_init_peek [of "replicate 32 2" 2]) simp_all
  have "memcmp_lt (replicate 32 1) (replicate 32 2)"
    by (simp add: numeral_eq_Suc)
  then show ?thesis
    using init_collision_lower_waits [OF d(1-3), of
        "\<lparr>e_self_sk = replicate 32 1, e_self_pk = replicate 32 1, e_peer_pk = Some (replicate 32 2)\<rparr>"
        "tt_session_init \<lparr>s_i_am_initiator := True, s_init_pending := True\<rparr>" "toy False" 0 1372]
    by (simp add: d(4) tt_session_init_def)
qed

end
