(* ===== verification/Delivery.thy ===== *)
theory Delivery
  imports Handshake
begin

text \<open>
  The data path of \<^verbatim>\<open>src/src/session.c\<close>: \<^verbatim>\<open>emit_frame\<close> on one side,
  \<^verbatim>\<open>tt_session_feed\<close> on the other.  The joint invariant \<open>in_sync\<close> says that each
  direction's two ratchets stand at the same chain, sequence number and root, and that a stored
  peer key pair is the pair the peer holds now.  It is established by the handshake and kept by
  every delivered message, through key publications and folds.
\<close>

section \<open>Sending\<close>

definition chosen_header ::
  "sodium \<Rightarrow> nat \<Rightarrow> TTSession \<Rightarrow> bool \<Rightarrow> bytes \<times> byte \<times> (bytes \<times> bytes) option \<times> TTRekey \<times> nat" where
  "chosen_header L w s carrier_only =
     (if \<not> s_lossy s \<or> carrier_only then select_header L w (auto_rekey s)
      else ([], 0, None, auto_rekey s, w))"

lemma auto_rekey_fields [simp]:
  "k_eph_sk (auto_rekey s) = k_eph_sk (s_rekey s)" "k_eph_pk (auto_rekey s) = k_eph_pk (s_rekey s)"
  "k_kem_pk (auto_rekey s) = k_kem_pk (s_rekey s)" "k_kem_sk (auto_rekey s) = k_kem_sk (s_rekey s)"
  "k_have_kem (auto_rekey s) = k_have_kem (s_rekey s)" "k_peer_have (auto_rekey s) = k_peer_have (s_rekey s)"
  "k_peer_kem_pk (auto_rekey s) = k_peer_kem_pk (s_rekey s)"
  "k_peer_eph_pk (auto_rekey s) = k_peer_eph_pk (s_rekey s)"
  "k_awaiting_peer (auto_rekey s) = k_awaiting_peer (s_rekey s)"
  "k_post_fold_publish (auto_rekey s) = k_post_fold_publish (s_rekey s)"
  "k_publish_back (auto_rekey s) = k_publish_back (s_rekey s)"
  "k_carrier (auto_rekey s) = k_carrier (s_rekey s)"
  by (simp_all add: auto_rekey_def)

text \<open>The fields of the re-key state a header choice leaves alone.\<close>

definition same_pairs :: "TTRekey \<Rightarrow> TTRekey \<Rightarrow> bool" where
  "same_pairs k k' \<longleftrightarrow> k_eph_sk k' = k_eph_sk k \<and> k_eph_pk k' = k_eph_pk k \<and> k_kem_pk k' = k_kem_pk k
     \<and> k_kem_sk k' = k_kem_sk k \<and> k_have_kem k' = k_have_kem k \<and> k_peer_have k' = k_peer_have k
     \<and> k_peer_kem_pk k' = k_peer_kem_pk k \<and> k_peer_eph_pk k' = k_peer_eph_pk k \<and> k_carrier k' = k_carrier k"

text \<open>The three shapes of a DATA frame: plain, KEMPUB, REKEY.\<close>

lemma select_header_cases:
  assumes "select_header L w k = (hdr, hf, fo, k1, w1)" "k_have_kem k"
  obtains (plain) "hdr = []" "hf = 0" "fo = None" "same_pairs k k1"
  | (kempub) "hdr = k_kem_pk k @ k_eph_pk k" "hf = 8" "fo = None" "same_pairs k k1"
  | (rekey) dh ct ss where "k_peer_have k" "tt_dh_shared L (k_eph_sk k) (k_peer_eph_pk k) = Some dh"
      "tt_kem_enc L w (k_peer_kem_pk k) = ((ct, ss), w1)" "hdr = ct @ k_eph_pk k" "hf = 10"
      "fo = Some (dh, ss)" "k1 = k"
proof -
  consider (a) "k_post_fold_publish k"
    | (b) "\<not> k_post_fold_publish k" "k_rekey_due k" "k_peer_have k"
    | (c) "\<not> k_post_fold_publish k" "\<not> k_peer_have k" "k_rekey_due k" "\<not> k_awaiting_peer k"
    | (d) "\<not> k_post_fold_publish k" "\<not> (k_rekey_due k \<and> k_peer_have k)"
        "\<not> (k_rekey_due k \<and> \<not> k_awaiting_peer k)"
    by blast
  then show ?thesis
  proof cases
    case a
    then show ?thesis using assms kempub by (auto simp: select_header_def publish_hdr_def same_pairs_def)
  next
    case b
    show ?thesis
    proof (cases "tt_dh_shared L (k_eph_sk k) (k_peer_eph_pk k)")
      case None
      then show ?thesis using b assms plain by (simp add: select_header_def same_pairs_def)
    next
      case (Some dh)
      obtain ct ss w2 where e: "tt_kem_enc L w (k_peer_kem_pk k) = ((ct, ss), w2)" by (metis prod.exhaust)
      then have "hdr = ct @ k_eph_pk k" "hf = 10" "fo = Some (dh, ss)" "k1 = k" "w2 = w1"
        using b Some assms(1) by (auto simp: select_header_def)
      then show ?thesis using rekey [OF b(3) Some, of ct ss] e by simp
    qed
  next
    case c
    then show ?thesis using assms kempub by (auto simp: select_header_def publish_hdr_def same_pairs_def)
  next
    case d
    have n: "(k_rekey_due k \<and> k_peer_have k) = False" "(k_rekey_due k \<and> \<not> k_awaiting_peer k) = False"
      using d by simp_all
    have e: "select_header L w k = (if k_publish_back k
        then (publish_hdr k, 8, None, k \<lparr>k_published := True, k_publish_back := False\<rparr>, w)
        else ([], 0, None, k, w))"
      using d(1) by (simp add: select_header_def n)
    show ?thesis
    proof (cases "k_publish_back k")
      case True
      with e assms(1) have "hdr = k_kem_pk k @ k_eph_pk k" "hf = 8" "fo = None" "same_pairs k k1"
        by (auto simp: publish_hdr_def same_pairs_def)
      then show ?thesis by (rule kempub)
    next
      case False
      with e assms(1) have "hdr = []" "hf = 0" "fo = None" "same_pairs k k1"
        by (auto simp: same_pairs_def)
      then show ?thesis by (rule plain)
    qed
  qed
qed

lemma select_header_attached:
  assumes "k_eph_pk k \<noteq> []" "k_have_kem k"
    "k_peer_have k \<Longrightarrow> tt_dh_shared L (k_eph_sk k) (k_peer_eph_pk k) \<noteq> None"
  shows "fst (select_header L w k) \<noteq> [] \<longleftrightarrow> k_post_fold_publish k \<or> k_publish_back k
      \<or> k_rekey_due k \<and> (k_peer_have k \<or> \<not> k_awaiting_peer k)"
  using assms
  by (cases "k_post_fold_publish k"; cases "k_rekey_due k"; cases "k_peer_have k"; cases "k_awaiting_peer k")
     (auto simp: select_header_def publish_hdr_def split: prod.splits)

lemma chosen_header_cases:
  assumes "chosen_header L w s c = (hdr, hf, fo, k1, w1)" "k_have_kem (s_rekey s)"
  obtains (plain) "hdr = []" "hf = 0" "fo = None" "same_pairs (s_rekey s) k1"
  | (kempub) "hdr = k_kem_pk (s_rekey s) @ k_eph_pk (s_rekey s)" "hf = 8" "fo = None"
      "same_pairs (s_rekey s) k1"
  | (rekey) dh ct ss where "k_peer_have (s_rekey s)"
      "tt_dh_shared L (k_eph_sk (s_rekey s)) (k_peer_eph_pk (s_rekey s)) = Some dh"
      "tt_kem_enc L w (k_peer_kem_pk (s_rekey s)) = ((ct, ss), w1)" "hdr = ct @ k_eph_pk (s_rekey s)"
      "hf = 10" "fo = Some (dh, ss)" "same_pairs (s_rekey s) k1"
proof (cases "\<not> s_lossy s \<or> c")
  case True
  then have sel: "select_header L w (auto_rekey s) = (hdr, hf, fo, k1, w1)"
    using assms(1) by (simp add: chosen_header_def)
  have hk: "k_have_kem (auto_rekey s)" using assms(2) by simp
  have sp: "same_pairs (auto_rekey s) k \<longleftrightarrow> same_pairs (s_rekey s) k" for k
    by (simp add: same_pairs_def)
  show ?thesis
  proof (cases rule: select_header_cases [OF sel hk])
    case 1
    then show ?thesis using plain by (simp add: sp)
  next
    case 2
    then show ?thesis using kempub by (simp add: sp)
  next
    case (3 dh ct ss)
    moreover have "same_pairs (s_rekey s) k1" using 3 by (simp add: same_pairs_def)
    ultimately show ?thesis using rekey by simp
  qed
next
  case False
  then show ?thesis
    using assms(1) plain by (auto simp: chosen_header_def same_pairs_def)
qed

lemma data_flags_ok:
  assumes "hf \<in> {0, 8, 10}"
  shows "(data_flags L OR hf) AND 0xF0 = 0"
    "flag_set (data_flags L OR hf) 1 \<longleftrightarrow> tt_aead_gcm_available L"
    "expected_hdr_len 2 (data_flags L OR hf) = Some (if hf = 0 then 0 else if hf = 8 then 1190 else 1071)"
  using assms by (auto simp: data_flags_def flag_set_def expected_hdr_len_def)

lemma chosen_header_len:
  assumes "sodium_ok L" "own_pair_ok L (s_rekey s)" "chosen_header L w s c = (hdr, hf, fo, k1, w1)"
  shows "hf \<in> {0, 8, 10}" "length hdr = (if hf = 0 then 0 else if hf = 8 then 1190 else 1071)"
proof -
  have l: "length (k_eph_pk (s_rekey s)) = 32" "length (k_kem_pk (s_rekey s)) = 1158" "k_have_kem (s_rekey s)"
    using assms(1,2) kem_pair_len by (auto simp: own_pair_ok_def len_simps)
  from assms(3) l(3) show "hf \<in> {0, 8, 10}" "length hdr = (if hf = 0 then 0 else if hf = 8 then 1190 else 1071)"
    by (cases rule: chosen_header_cases; use l kem_enc_len [OF assms(1)] in force)+
qed

lemma emit_frame_parked:
  "tt_session_carrier_pending s \<Longrightarrow> emit_frame L w s text cap c = (Inl TT_E2EE_CARRIER, s, w)"
  by (simp add: tt_session_carrier_pending_def emit_frame_def)

lemma emit_frame_eq:
  assumes "\<not> tt_session_carrier_pending s" "chosen_header L w s c = (hdr, hf, fo, k1, w1)"
  shows "emit_frame L w s text cap c =
    (let s1 = s \<lparr>s_rekey := k1, s_send := (s_send s) \<lparr>r_chain := chain_steps L 1 (r_chain (s_send s)),
                                        r_seq := r_seq (s_send s) + 1\<rparr>\<rparr>
     in case tt_frame_encode L cap 2 (r_seq (s_send s)) (data_flags L OR hf)
               (fst (key_at L (r_chain (s_send s)) 0)) (snd (key_at L (r_chain (s_send s)) 0)) hdr
               (text_bytes (b_m (rel_sent (s_rel s))) text) of
          None \<Rightarrow> (Inl TT_E2EE_BAD_STATE, s1, w1)
        | Some f \<Rightarrow> (Inr f, commit_send L s1 (r_seq (s_send s)) text fo (length hdr) f, w1))"
proof -
  have e: "(if \<not> s_lossy s \<or> c then select_header L w (auto_rekey s) else ([], 0, None, auto_rekey s, w))
      = (hdr, hf, fo, k1, w1)"
    using assms(2) by (simp only: chosen_header_def)
  have n: "(s_lossy s \<and> 0 < length (k_carrier (s_rekey s))) = False"
    using assms(1) by (simp add: tt_session_carrier_pending_def)
  show ?thesis
    unfolding emit_frame_def n Let_def e send_key_eq prod.case if_False ..
qed

lemma commit_send_fields:
  fixes L s q t fo n f
  defines "s' \<equiv> commit_send L s q t fo n f"
  shows "s_active s' = s_active s" "s_lossy s' = s_lossy s" "s_recv s' = s_recv s" "s_root s' = s_root s"
    "s_pending s' = s_pending s" "s_i_am_initiator s' = s_i_am_initiator s"
    "s_init_pending s' = s_init_pending s"
  unfolding s'_def commit_send_def Let_def by (simp_all split: option.splits prod.splits)

lemma commit_send_None:
  "s_send (commit_send L s q t None n f) = (s_send s) \<lparr>r_since_fold := r_since_fold (s_send s) + 1\<rparr>"
  "\<not> s_lossy s \<Longrightarrow> s_rekey (commit_send L s q t None n f) = s_rekey s"
  by (simp_all add: commit_send_def Let_def)

lemma commit_send_Some:
  "s_send (commit_send L s q t (Some (dh, ss)) n f)
     = (ratchet_fold L (s_send s) dh ss) \<lparr>r_since_fold := 0\<rparr>"
  "\<not> s_lossy s \<Longrightarrow> s_rekey (commit_send L s q t (Some (dh, ss)) n f)
     = (s_rekey s) \<lparr>k_rekey_due := False, k_peer_have := False\<rparr>"
  by (simp_all add: commit_send_def Let_def)

section \<open>Receiving in order\<close>

lemma note_ack_fields [simp]:
  "s_active (note_ack s) = s_active s" "s_lossy (note_ack s) = s_lossy s" "s_recv (note_ack s) = s_recv s"
  "s_send (note_ack s) = s_send s" "s_rekey (note_ack s) = s_rekey s" "s_root (note_ack s) = s_root s"
  "s_pending (note_ack s) = s_pending s"
  by (simp_all add: note_ack_def)

lemma feed_data_dispatch:
  assumes "tt_frame_peek f = Some d" "fd_type d = 2"
  shows "tt_session_feed L w s env f pc = feed_data L w (s \<lparr>s_last_in := f\<rparr>) d f pc"
  using assms by (simp add: tt_session_feed_def)

lemma data_key_next: "data_key L r (r_seq r) = Inr (fst (key_at L (r_chain r) 0), r, False)"
  by (simp add: data_key_def msg_key_at_eq)

lemma feed_data_next:
  assumes "s_active s" "length (fd_hdr d) \<in> {0, 1071, 1190}" "fd_seq d = r_seq (s_recv s)"
    "tt_frame_decode L f (fst (key_at L (r_chain (s_recv s)) 0)) pc = Some (d, pt)"
  shows "feed_data L w s d f pc =
    (case apply_hdr L w (note_ack (s \<lparr>s_recv := recv_commit L (s_recv s) (r_seq (s_recv s))\<rparr>)) d of
       (s2, w') \<Rightarrow> (Inr pt, False, s2, w'))"
  using assms by (auto simp: feed_data_def data_key_next Let_def)

section \<open>Synchronised peers\<close>

definition dir_sync :: "TTRatchet \<Rightarrow> TTRatchet \<Rightarrow> bool" where
  "dir_sync a b \<longleftrightarrow> r_chain a = r_chain b \<and> r_seq a = r_seq b \<and> r_root a = r_root b"

definition peer_current :: "sodium \<Rightarrow> TTRekey \<Rightarrow> TTRekey \<Rightarrow> bool" where
  "peer_current L k k' \<longleftrightarrow> (k_peer_have k \<longrightarrow>
     k_peer_eph_pk k = sd_scalarmult_base L (k_eph_sk k') \<and>
     (\<exists>r. sn_keypair L r = (k_peer_kem_pk k, k_kem_sk k')))"

definition in_sync :: "sodium \<Rightarrow> TTSession \<Rightarrow> TTSession \<Rightarrow> bool" where
  "in_sync L x y \<longleftrightarrow> s_active x \<and> s_active y \<and> \<not> s_lossy x \<and> \<not> s_lossy y \<and>
     own_pair_ok L (s_rekey x) \<and> own_pair_ok L (s_rekey y) \<and>
     dir_sync (s_send x) (s_recv y) \<and> dir_sync (s_send y) (s_recv x) \<and>
     peer_current L (s_rekey x) (s_rekey y) \<and> peer_current L (s_rekey y) (s_rekey x)"

lemma in_sync_sym: "in_sync L x y \<longleftrightarrow> in_sync L y x"
  by (auto simp: in_sync_def)

lemma dir_sync_step:
  assumes "dir_sync a b"
  shows "dir_sync (a \<lparr>r_chain := chain_steps L 1 (r_chain a), r_seq := r_seq a + 1\<rparr>)
                  (recv_commit L b (r_seq b))"
  using assms by (simp add: dir_sync_def recv_commit_fields recv_commit_seq)

lemma dir_sync_fold: "dir_sync a b \<Longrightarrow> dir_sync (ratchet_fold L a dh ss) (ratchet_fold L b dh ss)"
  by (simp add: dir_sync_def ratchet_fold_def split_beta Let_def)

text \<open>A published pair arrives: it is stored, and it is the publisher's current pair.\<close>

lemma apply_kempub_honest:
  assumes "sodium_ok L" "own_pair_ok L k" "own_pair_ok L (s_rekey s)" "fd_hdr d = k_kem_pk k @ k_eph_pk k"
  shows "s_recv (apply_kempub L s d) = s_recv s" "s_send (apply_kempub L s d) = s_send s"
    "s_active (apply_kempub L s d) = s_active s" "s_lossy (apply_kempub L s d) = s_lossy s"
    "own_pair_ok L (s_rekey (apply_kempub L s d))" "peer_current L (s_rekey (apply_kempub L s d)) k"
    "k_eph_sk (s_rekey (apply_kempub L s d)) = k_eph_sk (s_rekey s)"
    "k_kem_sk (s_rekey (apply_kempub L s d)) = k_kem_sk (s_rekey s)"
proof -
  obtain r where r: "sn_keypair L r = (k_kem_pk k, k_kem_sk k)" "length (k_eph_sk k) = 32"
    "k_eph_pk k = sd_scalarmult_base L (k_eph_sk k)"
    using assms(2) by (auto simp: own_pair_ok_def)
  then have l: "length (k_kem_pk k) = 1158" "length (k_eph_pk k) = 32"
    using assms(1) kem_pair_len [OF assms(1) r(1)] by (simp_all add: len_simps)
  have h: "hdr_at 0 1158 d = k_kem_pk k" "hdr_at 1158 32 d = k_eph_pk k"
    using l by (simp_all add: hdr_at_def assms(4))
  obtain p where p: "tt_dh_shared L (k_eph_sk (s_rekey s)) (k_eph_pk k) = Some p"
    using dh_agree [OF assms(1) _ r(2), of "k_eph_sk (s_rekey s)"] assms(3) r(3)
    by (metis own_pair_ok_def)
  show "s_recv (apply_kempub L s d) = s_recv s" "s_send (apply_kempub L s d) = s_send s"
    "s_active (apply_kempub L s d) = s_active s" "s_lossy (apply_kempub L s d) = s_lossy s"
    "own_pair_ok L (s_rekey (apply_kempub L s d))"
    "k_eph_sk (s_rekey (apply_kempub L s d)) = k_eph_sk (s_rekey s)"
    "k_kem_sk (s_rekey (apply_kempub L s d)) = k_kem_sk (s_rekey s)"
    using assms(3) by (simp_all add: apply_kempub_def h p Let_def own_pair_ok_def)
  have "k_peer_eph_pk (s_rekey (apply_kempub L s d)) = k_eph_pk k"
    "k_peer_kem_pk (s_rekey (apply_kempub L s d)) = k_kem_pk k"
    by (simp_all add: apply_kempub_def h p Let_def)
  then show "peer_current L (s_rekey (apply_kempub L s d)) k"
    using r by (auto simp: peer_current_def)
qed

text \<open>A fold arrives: both sides mix the same secrets, the receiver rotates its pair.\<close>

lemma apply_rekey_honest:
  assumes "sodium_ok L" "own_pair_ok L k" "own_pair_ok L (s_rekey s)" "peer_current L k (s_rekey s)"
    "k_peer_have k" "tt_dh_shared L (k_eph_sk k) (k_peer_eph_pk k) = Some dh"
    "tt_kem_enc L w (k_peer_kem_pk k) = ((ct, ss), w1)" "fd_hdr d = ct @ k_eph_pk k"
    "apply_rekey L v s d = (s', v')"
  shows "s_recv s' = ratchet_fold L (s_recv s) dh ss" "s_send s' = s_send s"
    "s_active s' = s_active s" "s_lossy s' = s_lossy s" "own_pair_ok L (s_rekey s')"
    "k_peer_have (s_rekey s') = k_peer_have (s_rekey s)" "k_peer_eph_pk (s_rekey s') = k_eph_pk k"
    "k_peer_kem_pk (s_rekey s') = k_peer_kem_pk (s_rekey s)"
proof -
  obtain r where r: "sn_keypair L r = (k_peer_kem_pk k, k_kem_sk (s_rekey s))"
    "k_peer_eph_pk k = sd_scalarmult_base L (k_eph_sk (s_rekey s))"
    using assms(4,5) by (auto simp: peer_current_def)
  have kem: "tt_kem_dec L ct (k_kem_sk (s_rekey s)) = ss" "length ct = 1039"
    using kem_agree [OF assms(1) r(1) assms(7)] by auto
  have e: "length (k_eph_sk k) = 32" "k_eph_pk k = sd_scalarmult_base L (k_eph_sk k)"
    "length (k_eph_sk (s_rekey s)) = 32"
    using assms(2,3) by (auto simp: own_pair_ok_def)
  then have l: "length (k_eph_pk k) = 32" using assms(1) by (simp add: len_simps)
  have h: "hdr_at 0 1039 d = ct" "hdr_at 1039 32 d = k_eph_pk k"
    using l kem(2) by (simp_all add: hdr_at_def assms(8))
  have p: "tt_dh_shared L (k_eph_sk (s_rekey s)) (k_eph_pk k) = Some dh"
    using dh_agree [OF assms(1) e(1,3)] assms(6) r(2) e(2) by (metis option.inject)
  show "s_recv s' = ratchet_fold L (s_recv s) dh ss" "s_send s' = s_send s"
    "s_active s' = s_active s" "s_lossy s' = s_lossy s"
    "k_peer_have (s_rekey s') = k_peer_have (s_rekey s)" "k_peer_eph_pk (s_rekey s') = k_eph_pk k"
    "k_peer_kem_pk (s_rekey s') = k_peer_kem_pk (s_rekey s)"
    using assms(9) by (auto simp: apply_rekey_def h p kem(1) Let_def split_beta)
  show "own_pair_ok L (s_rekey s')"
    using assms(9) assms(1)
    by (auto simp: apply_rekey_def h p Let_def split_beta own_pair_ok_def tt_dh_keygen_def
        tt_kem_keygen_def len_simps intro: exI [of _ "Suc v"])
qed

lemma same_pairs_keep:
  assumes "same_pairs k k'"
  shows "own_pair_ok L k' \<longleftrightarrow> own_pair_ok L k" "peer_current L k' j \<longleftrightarrow> peer_current L k j"
    "peer_current L j k' \<longleftrightarrow> peer_current L j k"
  using assms by (simp_all add: same_pairs_def own_pair_ok_def peer_current_def)

text \<open>A frame that was emitted, as its receiver sees it.\<close>

lemma emitted:
  assumes "sodium_ok L" "own_pair_ok L (s_rekey x)" "chosen_header L w x c = (hdr, hf, fo, k1, w1)"
    "emit_frame L w x text cap c = (Inr f, x', w')"
  defines "t \<equiv> text_bytes (b_m (rel_sent (s_rel x))) text"
  obtains d where "tt_frame_peek f = Some d"
    "\<And>pc. length t \<le> pc \<Longrightarrow> tt_frame_decode L f (fst (key_at L (r_chain (s_send x)) 0)) pc = Some (d, t)"
    "fd_type d = 2" "fd_seq d = r_seq (s_send x)" "fd_hdr d = hdr" "length hdr \<in> {0, 1071, 1190}"
    "x' = commit_send L (x \<lparr>s_rekey := k1, s_send := (s_send x) \<lparr>r_chain := chain_steps L 1 (r_chain (s_send x)),
             r_seq := r_seq (s_send x) + 1\<rparr>\<rparr>) (r_seq (s_send x)) text fo (length hdr) f" "w' = w1"
proof -
  have np: "\<not> tt_session_carrier_pending x"
    using assms(4) emit_frame_parked [of x L w "text" cap c] by auto
  let ?k = "key_at L (r_chain (s_send x)) 0"
  have enc: "tt_frame_encode L cap 2 (r_seq (s_send x)) (data_flags L OR hf) (fst ?k) (snd ?k) hdr t = Some f"
    and x': "x' = commit_send L (x \<lparr>s_rekey := k1, s_send := (s_send x) \<lparr>r_chain := chain_steps L 1 (r_chain (s_send x)),
             r_seq := r_seq (s_send x) + 1\<rparr>\<rparr>) (r_seq (s_send x)) text fo (length hdr) f" "w' = w1"
    using assms(4) by (auto simp: emit_frame_eq [OF np assms(3)] t_def Let_def split: option.splits)
  note fe = frame_encoded [OF assms(1) length_key_at(1) [OF assms(1)] length_key_at(2) [OF assms(1)] enc]
  have "length hdr \<in> {0, 1071, 1190}"
    using chosen_header_len [OF assms(1-3)] by auto
  with that [OF fe(1) fe(2)] x' show ?thesis by simp
qed

text \<open>One message from \<open>x\<close> to \<open>y\<close>, delivered before anything else happens.\<close>

lemma deliver_one:
  assumes ok: "sodium_ok L" and syn: "in_sync L x y"
    and em: "emit_frame L w x text cap False = (Inr f, x', w')"
    and len: "length (text_bytes (b_m (rel_sent (s_rel x))) text) \<le> pc"
  obtains y' v' where
    "tt_session_feed L v y env f pc = (Inr (text_bytes (b_m (rel_sent (s_rel x))) text), False, y', v')"
    "in_sync L x' y'"
proof -
  have s: "s_active x" "s_active y" "\<not> s_lossy x" "\<not> s_lossy y" "own_pair_ok L (s_rekey x)"
    "own_pair_ok L (s_rekey y)" "dir_sync (s_send x) (s_recv y)" "dir_sync (s_send y) (s_recv x)"
    "peer_current L (s_rekey x) (s_rekey y)" "peer_current L (s_rekey y) (s_rekey x)"
    using syn by (simp_all add: in_sync_def)
  obtain hdr hf fo k1 w1 where ch: "chosen_header L w x False = (hdr, hf, fo, k1, w1)"
    by (metis prod.exhaust)
  obtain d where d: "tt_frame_peek f = Some d"
    "tt_frame_decode L f (fst (key_at L (r_chain (s_send x)) 0)) pc
       = Some (d, text_bytes (b_m (rel_sent (s_rel x))) text)"
    "fd_type d = 2" "fd_seq d = r_seq (s_send x)" "fd_hdr d = hdr" "length hdr \<in> {0, 1071, 1190}"
    and x': "x' = commit_send L (x \<lparr>s_rekey := k1, s_send := (s_send x) \<lparr>r_chain := chain_steps L 1 (r_chain (s_send x)),
             r_seq := r_seq (s_send x) + 1\<rparr>\<rparr>) (r_seq (s_send x)) text fo (length hdr) f"
    using emitted [OF ok s(5) ch em] len by metis
  let ?snd = "(s_send x) \<lparr>r_chain := chain_steps L 1 (r_chain (s_send x)), r_seq := r_seq (s_send x) + 1\<rparr>"
  define y1 where "y1 = note_ack (y \<lparr>s_last_in := f, s_recv := recv_commit L (s_recv y) (r_seq (s_recv y))\<rparr>)"
  have y1: "s_active y1" "\<not> s_lossy y1" "s_send y1 = s_send y" "s_rekey y1 = s_rekey y"
    "dir_sync ?snd (s_recv y1)"
    using s dir_sync_step [OF s(7), of L] by (simp_all add: y1_def del: chain_steps.simps)
  have fd: "tt_session_feed L v y env f pc = (case apply_hdr L v y1 d of
      (s2, w') \<Rightarrow> (Inr (text_bytes (b_m (rel_sent (s_rel x))) text), False, s2, w'))"
    using feed_data_next [of "y \<lparr>s_last_in := f\<rparr>" d L f pc] s(2,7) d
    by (simp add: feed_data_dispatch y1_def dir_sync_def)
  have xf: "s_active x'" "\<not> s_lossy x'" "s_recv x' = s_recv x"
    using s(1,3) by (simp_all add: x' commit_send_fields)
  have "k_have_kem (s_rekey x)" using s(5) by (simp add: own_pair_ok_def)
  with ch show ?thesis
  proof (cases rule: chosen_header_cases)
    case plain
    then have "apply_hdr L v y1 d = (y1, v)" by (simp add: apply_hdr_def d(5))
    moreover have "in_sync L x' y1"
      using s y1 xf plain(3) same_pairs_keep [OF plain(4)]
      by (simp add: in_sync_def x' commit_send_None dir_sync_def del: chain_steps.simps)
    ultimately show ?thesis using that fd by simp
  next
    case kempub
    have "length hdr = 1190" using kempub(1,2) chosen_header_len [OF ok s(5) ch] by simp
    then have a: "apply_hdr L v y1 d = (apply_kempub L y1 d, v)" by (simp add: apply_hdr_def d(5))
    have o: "own_pair_ok L (s_rekey y1)" "fd_hdr d = k_kem_pk (s_rekey x) @ k_eph_pk (s_rekey x)"
      using s(6) y1(4) kempub(1) d(5) by simp_all
    note hon = apply_kempub_honest [OF ok s(5) o]
    have "peer_current L (s_rekey x) (s_rekey (apply_kempub L y1 d))"
      using s(9) hon(7,8) y1(4) by (simp add: peer_current_def)
    then have "in_sync L x' (apply_kempub L y1 d)"
      using s y1 xf kempub(3) same_pairs_keep [OF kempub(4)] hon
      by (simp add: in_sync_def x' commit_send_None dir_sync_def del: chain_steps.simps)
    then show ?thesis using that fd a by simp
  next
    case (rekey dh ct ss)
    have "length hdr = 1071" using rekey(4,5) chosen_header_len [OF ok s(5) ch] by simp
    then have a: "apply_hdr L v y1 d = apply_rekey L v y1 d" by (simp add: apply_hdr_def d(5))
    obtain y2 v2 where y2: "apply_rekey L v y1 d = (y2, v2)" by fastforce
    have o: "own_pair_ok L (s_rekey y1)" "peer_current L (s_rekey x) (s_rekey y1)"
      "fd_hdr d = ct @ k_eph_pk (s_rekey x)"
      using s(6,9) y1(4) rekey(4) d(5) by simp_all
    note hon = apply_rekey_honest [OF ok s(5) o(1,2) rekey(1,2,3) o(3) y2]
    have "peer_current L (s_rekey y2) (s_rekey x)"
      using s(10) hon(6-8) y1(4) s(5) by (simp add: peer_current_def own_pair_ok_def)
    moreover have "s_rekey x' = k1 \<lparr>k_rekey_due := False, k_peer_have := False\<rparr>"
      using s(3) by (simp add: x' rekey(6) commit_send_Some)
    moreover have "dir_sync (s_send x') (s_recv y2)"
      using dir_sync_fold [OF y1(5), of L dh ss]
      by (simp add: x' rekey(6) commit_send_Some hon(1) dir_sync_def del: chain_steps.simps)
    ultimately have "in_sync L x' y2"
      using s y1 xf rekey(7) hon
      by (simp add: in_sync_def peer_current_def own_pair_ok_def same_pairs_def)
    then show ?thesis using that fd a y2 by simp
  qed
qed

text \<open>A text that fits beside the largest header is always emitted.\<close>

lemma emit_ok:
  assumes "sodium_ok L" "own_pair_ok L (s_rekey x)" "\<not> tt_session_carrier_pending x"
    "length t \<le> 129" "1372 \<le> cap"
  obtains f x' w' where "emit_frame L w x (TextBuf t) cap c = (Inr f, x', w')" "f \<noteq> []"
proof -
  obtain hdr hf fo k1 w1 where ch: "chosen_header L w x c = (hdr, hf, fo, k1, w1)"
    by (metis prod.exhaust)
  note hl = chosen_header_len [OF assms(1,2) ch]
  note fl = data_flags_ok [OF hl(1), of L]
  have ex: "expected_hdr_len 2 (data_flags L OR hf) = Some (length hdr)" using hl fl(3) by simp
  have "length hdr \<le> 1190" using hl by auto
  then have b: "29 + frame_nonce_len (data_flags L OR hf) + length hdr + length t \<le> min 1372 cap"
    using assms(4,5) frame_nonce_len_cases [of "data_flags L OR hf"] by auto
  let ?k = "key_at L (r_chain (s_send x)) 0"
  obtain f where "tt_frame_encode L cap 2 (r_seq (s_send x)) (data_flags L OR hf) (fst ?k) (snd ?k) hdr t = Some f"
    "length f = 29 + frame_nonce_len (data_flags L OR hf) + length hdr + length t"
    using frame_sealed [OF assms(1) length_key_at(1) [OF assms(1), of "r_chain (s_send x)" 0]
        length_key_at(2) [OF assms(1), of "r_chain (s_send x)" 0] fl(1) ex _ b, where seq = "r_seq (s_send x)"]
      fl(2) by metis
  moreover from this have "f \<noteq> []" by auto
  ultimately show ?thesis
    using that by (auto simp: emit_frame_eq [OF assms(3) ch] text_bytes_def Let_def)
qed

lemma carrier_header_pending:
  assumes "sodium_ok L" "own_pair_ok L (s_rekey s)" "s_active s"
    "k_peer_have (s_rekey s) \<Longrightarrow> tt_dh_shared L (k_eph_sk (s_rekey s)) (k_peer_eph_pk (s_rekey s)) \<noteq> None"
    "chosen_header L w s True = (hdr, hf, fo, k1, w1)"
  shows "hdr \<noteq> [] \<longleftrightarrow> tt_session_rekey_pending s"
proof -
  have "fst (select_header L w (auto_rekey s)) = hdr" using assms(5) by (simp add: chosen_header_def)
  moreover have "length (k_eph_pk (s_rekey s)) = 32" "k_have_kem (s_rekey s)"
    using assms(1,2) by (simp_all add: own_pair_ok_def len_simps)
  moreover from this(1) have "k_eph_pk (s_rekey s) \<noteq> []" by auto
  ultimately have "hdr \<noteq> [] \<longleftrightarrow> k_post_fold_publish (s_rekey s) \<or> k_publish_back (s_rekey s)
      \<or> k_rekey_due (auto_rekey s) \<and> (k_peer_have (s_rekey s) \<or> \<not> k_awaiting_peer (s_rekey s))"
    using select_header_attached [of "auto_rekey s" L w] assms(4) by simp
  then show "hdr \<noteq> [] \<longleftrightarrow> tt_session_rekey_pending s"
    using assms(3) by (auto simp: tt_session_rekey_pending_def auto_rekey_def)
qed

section \<open>Conversations\<close>

text \<open>One text sent by \<open>x\<close> and fed to \<open>y\<close>; each side has its own count of random draws.\<close>

definition say :: "sodium \<Rightarrow> TTE2EEEnv \<Rightarrow> bytes \<Rightarrow> TTSession \<times> nat \<Rightarrow> TTSession \<times> nat
    \<Rightarrow> (bytes \<times> (TTSession \<times> nat) \<times> (TTSession \<times> nat)) option" where
  "say L env t x y =
     (case tt_session_send L (snd x) (fst x) t 1372 of
        (Inl e, _, _) \<Rightarrow> None
      | (Inr f, x', w') \<Rightarrow>
          (case tt_session_feed L (snd y) (fst y) env f 1372 of
             (Inl e, _, _, _) \<Rightarrow> None
           | (Inr pt, _, y', v') \<Rightarrow> Some (pt, (x', w'), (y', v'))))"

text \<open>A run of texts in either direction (\<open>True\<close>: from \<open>x\<close>), each delivered before the next.\<close>

fun converse :: "sodium \<Rightarrow> TTE2EEEnv \<Rightarrow> TTE2EEEnv \<Rightarrow> (bool \<times> bytes) list \<Rightarrow> TTSession \<times> nat \<Rightarrow> TTSession \<times> nat
    \<Rightarrow> (bytes list \<times> (TTSession \<times> nat) \<times> (TTSession \<times> nat)) option" where
  "converse L ex ey [] x y = Some ([], x, y)"
| "converse L ex ey ((True, t) # ms) x y =
     (case say L ey t x y of
        None \<Rightarrow> None
      | Some (pt, x', y') \<Rightarrow>
          (case converse L ex ey ms x' y' of None \<Rightarrow> None | Some (pts, r) \<Rightarrow> Some (pt # pts, r)))"
| "converse L ex ey ((False, t) # ms) x y =
     (case say L ex t y x of
        None \<Rightarrow> None
      | Some (pt, y', x') \<Rightarrow>
          (case converse L ex ey ms x' y' of None \<Rightarrow> None | Some (pts, r) \<Rightarrow> Some (pt # pts, r)))"

lemma say_in_sync:
  assumes "sodium_ok L" "in_sync L (fst x) (fst y)" "length t \<le> 129"
  obtains x' y' where "say L env t x y = Some (t, x', y')" "in_sync L (fst x') (fst y')"
proof -
  have s: "s_active (fst x)" "\<not> s_lossy (fst x)" "own_pair_ok L (s_rekey (fst x))"
    using assms(2) by (simp_all add: in_sync_def)
  then have np: "\<not> tt_session_carrier_pending (fst x)" by (simp add: tt_session_carrier_pending_def)
  obtain f x' w' where e: "emit_frame L (snd x) (fst x) (TextBuf t) 1372 False = (Inr f, x', w')"
    using emit_ok [OF assms(1) s(3) np assms(3) order_refl] by metis
  obtain y' v' where d: "tt_session_feed L (snd y) (fst y) env f 1372 = (Inr t, False, y', v')" "in_sync L x' y'"
    using deliver_one [OF assms(1,2) e, of 1372 "snd y" env] assms(3) by (auto simp: text_bytes_def)
  have "tt_session_send L (snd x) (fst x) t 1372 = (Inr f, x', w')"
    using s(1) e assms(3) by (simp add: tt_session_send_def)
  then have "say L env t x y = Some (t, (x', w'), (y', v'))" using d(1) by (simp add: say_def)
  then show ?thesis using that d(2) by fastforce
qed

lemma converse_in_sync:
  "sodium_ok L \<Longrightarrow> in_sync L (fst x) (fst y) \<Longrightarrow> \<forall>(d, t) \<in> set ms. length t \<le> 129 \<Longrightarrow>
   \<exists>x' y'. converse L ex ey ms x y = Some (map snd ms, x', y') \<and> in_sync L (fst x') (fst y')"
proof (induction ms arbitrary: x y)
  case (Cons m ms)
  obtain b t where m: "m = (b, t)" by fastforce
  have t: "length t \<le> 129" and r: "\<forall>(d, t) \<in> set ms. length t \<le> 129" using Cons.prems(3) m by auto
  show ?case
  proof (cases b)
    case True
    obtain x1 y1 where "say L ey t x y = Some (t, x1, y1)" "in_sync L (fst x1) (fst y1)"
      by (rule say_in_sync [OF Cons.prems(1,2) t])
    with Cons.IH [OF Cons.prems(1) this(2) r] show ?thesis using True m by fastforce
  next
    case False
    obtain y1 x1 where "say L ex t y x = Some (t, y1, x1)" "in_sync L (fst y1) (fst x1)"
      using say_in_sync [OF Cons.prems(1) _ t] Cons.prems(2) in_sync_sym by metis
    with Cons.IH [OF Cons.prems(1) _ r, of x1 y1] show ?thesis
      using False m in_sync_sym by fastforce
  qed
qed simp

section \<open>Delivery properties\<close>

text \<open>C1: a fresh session carries whole conversations.  Two fresh sessions of honest identities
  complete the handshake, and then any sequence of texts of up to 129 bytes in either direction,
  each delivered before the next is sent, arrives complete, unchanged and in order, however many
  key publications and ratchet folds the automatic re-key inserts on the way.\<close>

theorem conversation_delivered:
  assumes "sodium_ok L" "length a = 32" "length b = 32" "\<forall>(d, t) \<in> set ms. length t \<le> 129"
  shows "\<exists>f1 sA1 w1 sB1 v1 f2 sB2 v2 sA2 w2 x y.
     tt_session_start L w tt_session_init (honest_env L a b) now 1372 = (Inr f1, sA1, w1) \<and>
     tt_session_feed L v tt_session_init (honest_env L b a) f1 1372 = (Inr [], True, sB1, v1) \<and>
     tt_session_reply L v1 sB1 (honest_env L b a) 1372 = (Inr f2, sB2, v2) \<and>
     tt_session_feed L w1 sA1 (honest_env L a b) f2 1372 = (Inr [], True, sA2, w2) \<and>
     converse L (honest_env L a b) (honest_env L b a) ms (sA2, w2) (sB2, v2) = Some (map snd ms, x, y)"
proof -
  have r: "responder_ready tt_session_init (sd_scalarmult_base L a) (sd_scalarmult_base L b)"
    by (simp add: responder_ready_def tt_session_init_def)
  have z: "\<not> s_lossy tt_session_init" "\<not> k_peer_have (s_rekey tt_session_init)"
    by (simp_all add: tt_session_init_def rekey_zero_def)
  obtain f1 sA1 w1 sB1 v1 f2 sB2 v2 sA2 w2 where h:
    "tt_session_start L w tt_session_init (honest_env L a b) now 1372 = (Inr f1, sA1, w1)"
    "tt_session_feed L v tt_session_init (honest_env L b a) f1 1372 = (Inr [], True, sB1, v1)"
    "tt_session_reply L v1 sB1 (honest_env L b a) 1372 = (Inr f2, sB2, v2)"
    "tt_session_feed L w1 sA1 (honest_env L a b) f2 1372 = (Inr [], True, sA2, w2)"
    and s: "s_active sA2" "s_active sB2" "s_send sA2 = s_recv sB2" "s_recv sA2 = s_send sB2"
    "s_lossy sA2 = s_lossy tt_session_init" "s_lossy sB2 = s_lossy tt_session_init"
    "own_pair_ok L (s_rekey sA2)" "own_pair_ok L (s_rekey sB2)" "\<not> k_peer_have (s_rekey sA2)"
    "k_peer_have (s_rekey sB2) \<longrightarrow> k_peer_have (s_rekey tt_session_init)"
    using handshake_run [OF assms(1-3) order_refl r, of w tt_session_init now v 1372]
    by (elim exE conjE)
  have "in_sync L sA2 sB2"
    using s z by (simp add: in_sync_def dir_sync_def peer_current_def)
  then obtain x y where "converse L (honest_env L a b) (honest_env L b a) ms (sA2, w2) (sB2, v2)
      = Some (map snd ms, x, y)"
    using converse_in_sync [OF assms(1) _ assms(4), of "(sA2, w2)" "(sB2, v2)"]
    by (simp only: fst_conv) blast
  with h show ?thesis by blast
qed

theorem conversation_delivered_witness:
  "\<exists>f1 sA1 w1 sB1 v1 f2 sB2 v2 sA2 w2 x y.
     tt_session_start (toy True) 0 tt_session_init (honest_env (toy True) (replicate 32 1) (replicate 32 2)) 0 1372
       = (Inr f1, sA1, w1) \<and>
     tt_session_feed (toy True) 9 tt_session_init (honest_env (toy True) (replicate 32 2) (replicate 32 1)) f1 1372
       = (Inr [], True, sB1, v1) \<and>
     tt_session_reply (toy True) v1 sB1 (honest_env (toy True) (replicate 32 2) (replicate 32 1)) 1372
       = (Inr f2, sB2, v2) \<and>
     tt_session_feed (toy True) w1 sA1 (honest_env (toy True) (replicate 32 1) (replicate 32 2)) f2 1372
       = (Inr [], True, sA2, w2) \<and>
     converse (toy True) (honest_env (toy True) (replicate 32 1) (replicate 32 2))
       (honest_env (toy True) (replicate 32 2) (replicate 32 1)) [(True, [1, 2]), (False, [3])] (sA2, w2) (sB2, v2)
       = Some ([[1, 2], [3]], x, y)"
  using conversation_delivered [OF toy_ok, of "replicate 32 1" "replicate 32 2" "[(True, [1, 2]), (False, [3])]" True]
  by simp

text \<open>C3: every emitted message reaches a synchronised peer and keeps the two in step.  Whatever
  header the sender attached (none, a key publication, a fold), the receiver returns exactly the
  text, and afterwards both ratchet directions and the stored key pairs agree again.\<close>

theorem emitted_message_delivered:
  assumes "sodium_ok L" "in_sync L x y" "length t \<le> TT_FRAME_DATA_MAX"
    "emit_frame L w x (TextBuf t) cap False = (Inr f, x', w')"
  shows "\<exists>y' v'. tt_session_feed L v y env f TT_FRAME_MAX = (Inr t, False, y', v') \<and> in_sync L x' y'"
proof -
  have t: "text_bytes (b_m (rel_sent (s_rel x))) (TextBuf t) = t" by (simp add: text_bytes_def)
  obtain y' v' where "tt_session_feed L v y env f 1372 = (Inr t, False, y', v')" "in_sync L x' y'"
    using deliver_one [OF assms(1,2,4), of 1372 v env] assms(3) unfolding t by auto
  then show ?thesis by blast
qed

definition toy_session :: "bool \<Rightarrow> TTSession" where
  "toy_session lossy = tt_session_init \<lparr>s_active := True, s_lossy := lossy, s_rekey := rekey_zero \<lparr>k_have_kem := True\<rparr>\<rparr>"

lemma toy_session_ok:
  "own_pair_ok (toy g) (s_rekey (toy_session l))" "\<not> tt_session_carrier_pending (toy_session l)"
  "in_sync (toy g) (toy_session False) (toy_session False)"
  by (simp_all add: toy_session_def own_pair_ok_def rekey_zero_def toy_def tt_session_carrier_pending_def
      in_sync_def dir_sync_def peer_current_def tt_session_init_def)

theorem emitted_message_delivered_witness:
  "\<exists>f x' w' y' v'. emit_frame (toy True) 0 (toy_session False) (TextBuf [5, 6]) 1372 False = (Inr f, x', w')
     \<and> tt_session_feed (toy True) 3 (toy_session False) (honest_env (toy True) [] []) f 1372 = (Inr [5, 6], False, y', v')
     \<and> in_sync (toy True) x' y'"
proof -
  obtain f x' w' where e: "emit_frame (toy True) 0 (toy_session False) (TextBuf [5, 6]) 1372 False = (Inr f, x', w')"
    by (rule emit_ok [OF toy_ok toy_session_ok(1) [of True False] toy_session_ok(2), of "[5, 6]" 1372 0 False])
       simp_all
  show ?thesis
    using emitted_message_delivered [OF toy_ok toy_session_ok(3) _ e, of 3 "honest_env (toy True) [] []"] e by auto
qed

text \<open>The pending test mirrors the header choice.  For an active session whose stored peer point is
  contributory, \<^verbatim>\<open>tt_session_rekey_pending\<close> holds exactly when the next carrier
  build attaches a re-key header, so the tunnel never sends a payload where a fold was due.\<close>

theorem rekey_pending_mirrors_header:
  assumes "sodium_ok L" "own_pair_ok L (s_rekey s)" "s_active s"
    "k_peer_have (s_rekey s) \<Longrightarrow> tt_dh_shared L (k_eph_sk (s_rekey s)) (k_peer_eph_pk (s_rekey s)) \<noteq> None"
    "emit_frame L w s text cap True = (Inr f, s', w')"
  shows "\<exists>d. tt_frame_peek f = Some d \<and> (fd_hdr d \<noteq> [] \<longleftrightarrow> tt_session_rekey_pending s)"
proof -
  obtain hdr hf fo k1 w1 where ch: "chosen_header L w s True = (hdr, hf, fo, k1, w1)"
    by (metis prod.exhaust)
  obtain d where d: "tt_frame_peek f = Some d" "fd_hdr d = hdr"
    by (rule emitted [OF assms(1,2) ch assms(5)])
  have "hdr \<noteq> [] \<longleftrightarrow> tt_session_rekey_pending s"
    by (rule carrier_header_pending [OF assms(1-4) ch])
  then show ?thesis using d by blast
qed

lemma toy_due_ok:
  "own_pair_ok (toy g) (s_rekey (tt_session_rekey_due (toy_session l)))"
  "\<not> tt_session_carrier_pending (tt_session_rekey_due (toy_session l))"
  "s_active (tt_session_rekey_due (toy_session l))" "s_lossy (tt_session_rekey_due (toy_session l)) = l"
  "tt_session_rekey_pending (tt_session_rekey_due (toy_session l))"
  "\<not> k_peer_have (s_rekey (tt_session_rekey_due (toy_session l)))"
  by (simp_all add: toy_session_def tt_session_rekey_due_def own_pair_ok_def rekey_zero_def toy_def
      tt_session_carrier_pending_def tt_session_init_def tt_session_rekey_pending_def)

theorem rekey_pending_mirrors_header_witness:
  "\<exists>f s' w' d. emit_frame (toy True) 0 (tt_session_rekey_due (toy_session True)) (TextBuf []) 1372 True = (Inr f, s', w')
     \<and> tt_frame_peek f = Some d \<and> fd_hdr d \<noteq> []"
proof -
  obtain f s' w' where e:
    "emit_frame (toy True) 0 (tt_session_rekey_due (toy_session True)) (TextBuf []) 1372 True = (Inr f, s', w')"
    by (rule emit_ok [OF toy_ok toy_due_ok(1) [of True True] toy_due_ok(2), of "[]" 1372 0 True]) simp_all
  then show ?thesis
    using rekey_pending_mirrors_header [OF toy_ok toy_due_ok(1) toy_due_ok(3) _ e] toy_due_ok(5,6) by blast
qed

text \<open>A tunnel carrier is exclusive and idempotent.  When a re-key is due on a lossy session, the
  carrier call builds a frame and parks it; until the transport reports it accepted, every further
  carrier call returns the same bytes, every payload is refused with the carrier status, and
  neither changes the session; the acceptance lifts the block.\<close>

theorem lossy_carrier_exclusive:
  assumes "sodium_ok L" "own_pair_ok L (s_rekey s)" "s_active s" "s_lossy s" "tt_session_rekey_pending s"
    "\<not> tt_session_carrier_pending s" "TT_FRAME_MAX \<le> cap"
    "k_peer_have (s_rekey s) \<Longrightarrow> tt_dh_shared L (k_eph_sk (s_rekey s)) (k_peer_eph_pk (s_rekey s)) \<noteq> None"
  shows "\<exists>f s' w'. tt_session_carrier L w s cap = (Inr f, s', w') \<and> tt_session_carrier_pending s' \<and>
    (\<forall>v. tt_session_carrier L v s' cap = (Inr f, s', v)) \<and>
    (\<forall>v t. length t \<le> TT_FRAME_DATA_MAX \<longrightarrow>
       tt_session_send_lossy L v s' t cap = (Inl TT_E2EE_CARRIER, s', v)) \<and>
    \<not> tt_session_carrier_pending (tt_session_carrier_done s')"
proof -
  obtain f s' w' where e: "emit_frame L w s (TextBuf []) cap True = (Inr f, s', w')" "f \<noteq> []"
    by (rule emit_ok [OF assms(1,2,6) _ assms(7), of "[]" w True]) simp_all
  obtain hdr hf fo k1 w1 where ch: "chosen_header L w s True = (hdr, hf, fo, k1, w1)"
    by (metis prod.exhaust)
  let ?s1 = "s \<lparr>s_rekey := k1, s_send := (s_send s) \<lparr>r_chain := chain_steps L 1 (r_chain (s_send s)),
             r_seq := r_seq (s_send s) + 1\<rparr>\<rparr>"
  have enc: "tt_frame_encode L cap 2 (r_seq (s_send s)) (data_flags L OR hf) (fst (key_at L (r_chain (s_send s)) 0))
      (snd (key_at L (r_chain (s_send s)) 0)) hdr [] = Some f"
    and s': "s' = commit_send L ?s1 (r_seq (s_send s)) (TextBuf []) fo (length hdr) f"
    using e(1) by (auto simp: emit_frame_eq [OF assms(6) ch] text_bytes_def Let_def split: option.splits)
  have lf: "length f \<le> 1372"
    by (rule frame_encoded(5) [OF assms(1) length_key_at(1) [OF assms(1)] length_key_at(2) [OF assms(1)] enc])
  have "hdr \<noteq> []"
    using carrier_header_pending [OF assms(1-3,8) ch] assms(5) by simp
  then have "length hdr = 1190 \<or> length hdr = 1071"
    using chosen_header_len [OF assms(1,2) ch] by (auto split: if_splits)
  then have k: "k_carrier (s_rekey s') = f"
    using lf assms(4) by (auto simp: s' commit_send_def Let_def split: option.splits)
  have a: "s_active s'" "s_lossy s'" using assms(3,4) by (simp_all add: s' commit_send_fields)
  have p: "tt_session_carrier_pending s'" using a k e(2) by (simp add: tt_session_carrier_pending_def)
  have "k_carrier (s_rekey s) = []" using assms(4,6) by (simp add: tt_session_carrier_pending_def)
  then have "tt_session_carrier L w s cap = (Inr f, s', w')"
    using e(1) assms(3,5) by (simp add: tt_session_carrier_def)
  moreover have "tt_session_carrier L v s' cap = (Inr f, s', v)" for v
    using a k e(2) lf assms(7) by (simp add: tt_session_carrier_def)
  moreover have "tt_session_send_lossy L v s' t cap = (Inl TT_E2EE_CARRIER, s', v)" if "length t \<le> 1319" for v t
    using that a emit_frame_parked [OF p] by (simp add: tt_session_send_lossy_def)
  moreover have "\<not> tt_session_carrier_pending (tt_session_carrier_done s')"
    by (simp add: tt_session_carrier_pending_def tt_session_carrier_done_def)
  ultimately show ?thesis using p by blast
qed

theorem lossy_carrier_exclusive_witness:
  "\<exists>f s' w'. tt_session_carrier (toy False) 0 (tt_session_rekey_due (toy_session True)) 1372 = (Inr f, s', w')
     \<and> tt_session_carrier_pending s' \<and> tt_session_send_lossy (toy False) 7 s' [1] 1372 = (Inl TT_E2EE_CARRIER, s', 7)"
proof -
  have "\<exists>f s' w'. tt_session_carrier (toy False) 0 (tt_session_rekey_due (toy_session True)) 1372 = (Inr f, s', w') \<and>
    tt_session_carrier_pending s' \<and>
    (\<forall>v. tt_session_carrier (toy False) v s' 1372 = (Inr f, s', v)) \<and>
    (\<forall>v t. length t \<le> TT_FRAME_DATA_MAX \<longrightarrow>
       tt_session_send_lossy (toy False) v s' t 1372 = (Inl TT_E2EE_CARRIER, s', v)) \<and>
    \<not> tt_session_carrier_pending (tt_session_carrier_done s')"
    by (rule lossy_carrier_exclusive [OF toy_ok toy_due_ok(1) toy_due_ok(3)]) (simp_all add: toy_due_ok)
  then show ?thesis by (elim exE conjE) (intro exI conjI, assumption, assumption, simp)
qed

text \<open>A long text loses a due key publication.  On a chat session whose rotated pair has not been
  published yet, a text of 142 to 1319 bytes, within the size limit the interface documents, is
  refused because it does not fit beside the publication; the session nevertheless counts the
  pair as published, clears the request to publish it and uses up a sequence number.\<close>

theorem long_text_drops_publication:
  assumes "sodium_ok L" "own_pair_ok L (s_rekey s)" "s_active s" "\<not> s_lossy s"
    "k_post_fold_publish (s_rekey s)" "142 \<le> length t" "length t \<le> TT_FRAME_DATA_MAX"
  shows "\<exists>s'. tt_session_send L w s t TT_FRAME_MAX = (Inl TT_E2EE_BAD_STATE, s', w) \<and>
    k_published (s_rekey s') \<and> \<not> k_post_fold_publish (s_rekey s') \<and>
    r_seq (s_send s') = r_seq (s_send s) + 1 \<and> s_rel s' = s_rel s"
proof -
  have np: "\<not> tt_session_carrier_pending s" using assms(4) by (simp add: tt_session_carrier_pending_def)
  let ?k = "(auto_rekey s) \<lparr>k_published := True, k_post_fold_publish := False, k_publish_back := False\<rparr>"
  have ch: "chosen_header L w s False = (publish_hdr (auto_rekey s), 8, None, ?k, w)"
    using assms(4,5) by (simp add: chosen_header_def select_header_def)
  have hl: "length (publish_hdr (auto_rekey s)) = 1190"
    using chosen_header_len(2) [OF assms(1,2) ch] by simp
  have "tt_frame_encode L 1372 2 q fl key nonce (publish_hdr (auto_rekey s)) t = None" for q fl key nonce
    using assms(6) frame_nonce_len_cases [of fl] hl by (auto simp: tt_frame_encode_def Let_def)
  then show ?thesis
    using assms(3,7) by (simp add: tt_session_send_def emit_frame_eq [OF np ch] text_bytes_def Let_def)
qed

theorem long_text_drops_publication_witness:
  "\<exists>s'. tt_session_send (toy False) 0
       (toy_session False \<lparr>s_rekey := (s_rekey (toy_session False)) \<lparr>k_post_fold_publish := True\<rparr>\<rparr>)
       (replicate 200 65) 1372 = (Inl TT_E2EE_BAD_STATE, s', 0) \<and>
    k_published (s_rekey s') \<and> \<not> k_post_fold_publish (s_rekey s')"
proof -
  let ?s = "toy_session False \<lparr>s_rekey := (s_rekey (toy_session False)) \<lparr>k_post_fold_publish := True\<rparr>\<rparr>"
  have "own_pair_ok (toy False) (s_rekey ?s)" "s_active ?s" "\<not> s_lossy ?s" "k_post_fold_publish (s_rekey ?s)"
    using toy_session_ok(1) [of False False] by (simp_all add: own_pair_ok_def toy_session_def tt_session_init_def)
  from long_text_drops_publication [OF toy_ok this, of "replicate 200 65" 0] show ?thesis by auto
qed

text \<open>The sender alone picks the cipher.  A frame emitted by a machine with hardware AES is sealed
  with GCM whatever the peer can run, and a peer without it rejects that frame in every session
  state; the capability bit of the frame flags plays no part.\<close>

theorem gcm_frame_rejected_by_peer:
  assumes "sodium_ok L" "own_pair_ok L (s_rekey x)" "tt_aead_gcm_available L" "\<not> tt_aead_gcm_available L'"
    "emit_frame L w x text cap c = (Inr f, x', w')"
  shows "\<exists>e y' v'. tt_session_feed L' v y env f pc = (Inl e, False, y', v')"
proof -
  obtain hdr hf fo k1 w1 where ch: "chosen_header L w x c = (hdr, hf, fo, k1, w1)"
    by (metis prod.exhaust)
  have np: "\<not> tt_session_carrier_pending x"
    using assms(5) emit_frame_parked [of x L w "text" cap c] by auto
  let ?k = "key_at L (r_chain (s_send x)) 0"
  note fl = data_flags_ok [OF chosen_header_len(1) [OF assms(1,2) ch], of L]
  have "tt_frame_encode L cap 2 (r_seq (s_send x)) (data_flags L OR hf) (fst ?k) (snd ?k) hdr
      (text_bytes (b_m (rel_sent (s_rel x))) text) = Some f"
    using assms(5) by (auto simp: emit_frame_eq [OF np ch] Let_def split: option.splits)
  then obtain ct where ct: "f = frame_ad 2 (r_seq (s_send x)) (data_flags L OR hf) (snd ?k) hdr @ ct"
    "expected_hdr_len 2 (data_flags L OR hf) = Some (length hdr)"
    by (rule tt_frame_encode_SomeD)
  have n: "frame_nonce_len (data_flags L OR hf) \<le> length (snd ?k)"
    using frame_nonce_len_cases [of "data_flags L OR hf"] assms(1) by (auto simp: len_simps)
  have f6: "f ! 6 = data_flags L OR hf" "f ! 5 = 2"
    using frame_ad_fields(3,4) [OF n expected_hdr_len_bound [OF ct(2)]] ct(1) by auto
  have dec: "tt_frame_decode L' f key m = None" for key m
    using decode_needs_cipher [of L' f key m] f6 fl(2) assms(3,4)
    by (cases "tt_frame_decode L' f key m") simp_all
  show ?thesis
  proof (cases "tt_frame_peek f")
    case None
    then show ?thesis by (simp add: tt_session_feed_def)
  next
    case (Some d)
    then have "fd_type d = 2"
      using f6(2) by (auto simp: tt_frame_peek_def Let_def split: if_splits)
    then show ?thesis
      by (auto simp: feed_data_dispatch [OF Some] feed_data_def dec Let_def split: sum.splits)
  qed
qed

theorem gcm_frame_rejected_by_peer_witness:
  "\<exists>f x' w' e y' v'. emit_frame (toy True) 0 (toy_session False) (TextBuf [5]) 1372 False = (Inr f, x', w')
     \<and> tt_session_feed (toy False) 0 (toy_session False) (honest_env (toy False) [] []) f 1372 = (Inl e, False, y', v')"
proof -
  obtain f x' w' where e: "emit_frame (toy True) 0 (toy_session False) (TextBuf [5]) 1372 False = (Inr f, x', w')"
    by (rule emit_ok [OF toy_ok toy_session_ok(1) [of True False] toy_session_ok(2), of "[5]" 1372 0 False])
       simp_all
  then show ?thesis
    using gcm_frame_rejected_by_peer [OF toy_ok toy_session_ok(1) _ _ e, of "toy False" 0 "toy_session False"
        "honest_env (toy False) [] []" 1372] by auto
qed

end
