(* ===== verification/Receive.thy ===== *)
theory Receive
  imports Delivery "HOL-Library.Multiset"
begin

text \<open>
  Out-of-order, duplicate and corrupt frames at the receiving end of \<^verbatim>\<open>session.c\<close>,
  and the control frames of the reliable transport.
\<close>

section \<open>The receiver's key store\<close>

lemma u32_less_Suc:
  fixes q :: u32
  assumes "q + 1 \<noteq> 0"
  shows "q < q + 1"
proof -
  have "unat q < 2 ^ LENGTH(32)" by (rule unsigned_less)
  moreover have "unat (q + 1) \<noteq> unat (0 :: u32)" using assms by (metis word_unat_eq_iff)
  ultimately show ?thesis
    by (simp add: word_less_nat_alt unat_word_ariths(1) mod_Suc split: if_splits)
qed

text \<open>Stored sequence numbers are distinct and all behind the next expected one.\<close>

definition store_ok :: "TTRatchet \<Rightarrow> bool" where
  "store_ok r \<longleftrightarrow> distinct (map fst (r_skipped r)) \<and> (\<forall>q \<in> fst ` set (r_skipped r). q < r_seq r)
     \<and> length (r_skipped r) \<le> TT_SESSION_SKIPPED_MAX"

lemma store_ok_reset [simp]: "store_ok (ratchet_reset L root b)" "store_ok ratchet_zero"
  by (simp_all add: store_ok_def ratchet_reset_def ratchet_zero_def)

lemma store_ok_fold [simp]: "store_ok (ratchet_fold L r dh ss)"
  by (simp add: store_ok_def ratchet_fold_def split_beta Let_def)

lemma skipped_take_Some:
  assumes "skipped_take r q = Some (k, r')"
  obtains xs ys where "r_skipped r = xs @ (q, k) # ys" "r' = r \<lparr>r_skipped := xs @ ys\<rparr>"
  using assms take_first_Some by (fastforce simp: skipped_take_def split: option.splits)

lemma store_ok_take:
  assumes "store_ok r" "skipped_take r q = Some (k, r')"
  shows "store_ok r'" "q \<notin> fst ` set (r_skipped r')" "q < r_seq r'" "r_seq r' = r_seq r"
    "length (r_skipped r') < TT_SESSION_SKIPPED_MAX" "r_chain r' = r_chain r" "r_root r' = r_root r"
proof -
  obtain xs ys where e: "r_skipped r = xs @ (q, k) # ys" "r' = r \<lparr>r_skipped := xs @ ys\<rparr>"
    by (rule skipped_take_Some [OF assms(2)])
  have "distinct (map fst (xs @ (q, k) # ys))" "\<forall>p \<in> fst ` set (xs @ (q, k) # ys). p < r_seq r"
    "length (xs @ (q, k) # ys) \<le> 96"
    using assms(1) by (simp_all add: store_ok_def e(1))
  then show "store_ok r'" "q \<notin> fst ` set (r_skipped r')" "q < r_seq r'" "r_seq r' = r_seq r"
    "length (r_skipped r') < 96" "r_chain r' = r_chain r" "r_root r' = r_root r"
    by (simp_all add: e(2) store_ok_def image_Un ball_Un)
qed

lemma gap_entries_fst: "map fst (gap_entries L n r) = map (\<lambda>i. r_seq r + of_nat i) [0..<n]"
  by (simp add: gap_entries_def)

text \<open>A drop-oldest run keeps a suffix of the entries.\<close>

lemma skipped_run_suffix:
  assumes "length (r_skipped r) \<le> 96"
  shows "\<exists>n. r_skipped (foldl skipped_add r es) = drop n (r_skipped r @ es)"
  by (rule exI, rule skipped.entries_foldl [OF assms]) simp

lemma store_ok_commit:
  assumes "store_ok r" "r_seq r \<le> q" "q + 1 \<noteq> 0"
  shows "store_ok (recv_commit L r q)" "q \<notin> fst ` set (r_skipped (recv_commit L r q))"
proof -
  let ?n = "unat q - unat (r_seq r)"
  let ?es = "r_skipped r @ gap_entries L ?n r"
  have le: "unat (r_seq r) \<le> unat q" using assms(2) by (simp add: word_le_nat_alt)
  have u: "unat (r_seq r + of_nat i) = unat (r_seq r) + i" if "i < ?n" for i
  proof -
    have "unat q < 2 ^ LENGTH(32)" by (rule unsigned_less)
    then show ?thesis using that le by (simp add: unat_word_ariths(1) unat_of_nat)
  qed
  have ge: "\<forall>e \<in> fst ` set (gap_entries L ?n r). r_seq r \<le> e \<and> e < q"
    using u le by (force simp: gap_entries_def word_le_nat_alt word_less_nat_alt)
  have "inj_on (\<lambda>i. r_seq r + of_nat i) {0..<?n}"
    by (rule inj_onI) (metis atLeastLessThan_iff u add_left_cancel)
  then have dg: "distinct (map fst (gap_entries L ?n r))"
    by (simp add: gap_entries_fst distinct_map)
  have d: "distinct (map fst ?es)"
    using assms(1) dg ge by (fastforce simp: store_ok_def)
  have lt: "\<forall>e \<in> fst ` set ?es. e < q"
    using assms(1,2) ge by (force simp: store_ok_def)
  obtain m where m: "r_skipped (recv_commit L r q) = drop m ?es"
    using skipped_run_suffix [of r "gap_entries L ?n r"] assms(1)
    by (auto simp: recv_commit_fields recv_gap_skipped store_ok_def)
  have q1: "q < q + 1" by (rule u32_less_Suc [OF assms(3)])
  have sub: "fst ` set (drop m ?es) \<subseteq> fst ` set ?es" using set_drop_subset by fast
  have dd: "distinct (map fst (drop m ?es))" using d by (metis distinct_drop drop_map)
  have "length (r_skipped (recv_commit L r q)) \<le> 96"
    using assms(1) by (intro recv_commit_bounded) (simp add: store_ok_def)
  moreover have "\<forall>e \<in> fst ` set (drop m ?es). e < q + 1"
    using sub lt q1 by (meson order.strict_trans subsetD)
  ultimately show "store_ok (recv_commit L r q)"
    using dd recv_commit_seq [OF assms(2), of L] by (simp only: store_ok_def m)
  show "q \<notin> fst ` set (r_skipped (recv_commit L r q))"
    using sub lt unfolding m by (meson order.irrefl subsetD)
qed

section \<open>What a DATA frame does to the receiver\<close>

lemma apply_hdr_recv:
  obtains (same) "s_recv (fst (apply_hdr L w s d)) = s_recv s"
  | (fold) dh ss where "s_recv (fst (apply_hdr L w s d)) = ratchet_fold L (s_recv s) dh ss"
proof (cases "length (fd_hdr d) = 1071")
  case True
  then show ?thesis
    using same fold
    by (cases "tt_dh_shared L (k_eph_sk (s_rekey s)) (hdr_at 1039 32 d)")
       (simp_all add: apply_hdr_def apply_rekey_def Let_def split_beta)
next
  case False
  then have "s_recv (fst (apply_hdr L w s d)) = s_recv s"
    by (simp add: apply_hdr_def apply_kempub_def Let_def split: option.splits)
  then show ?thesis by (rule same)
qed

lemma apply_hdr_keeps:
  "s_active (fst (apply_hdr L w s d)) = s_active s" "s_send (fst (apply_hdr L w s d)) = s_send s"
  "s_rel (fst (apply_hdr L w s d)) = s_rel s" "s_lossy (fst (apply_hdr L w s d)) = s_lossy s"
  "s_root (fst (apply_hdr L w s d)) = s_root s" "s_pending (fst (apply_hdr L w s d)) = s_pending s"
  by (simp_all add: apply_hdr_def apply_rekey_def apply_kempub_def Let_def split_beta split: option.splits)

text \<open>A delivered frame, step by step.\<close>

lemma feed_data_Inr:
  assumes "sodium_ok L" "tt_frame_peek f = Some d" "fd_type d = 2"
    "tt_session_feed L w s env f pc = (Inr pt, h, s', w')"
  obtains key r' ring where "s_active s" "length (fd_hdr d) \<in> {0, 1071, 1190}"
    "data_key L (s_recv s) (fd_seq d) = Inr (key, r', ring)" "tt_frame_decode L f key pc = Some (d, pt)" "\<not> h"
    "(s', w') = apply_hdr L w (note_ack (s \<lparr>s_last_in := f,
        s_recv := if ring then r' else recv_commit L r' (fd_seq d)\<rparr>)) d"
proof -
  let ?s = "s \<lparr>s_last_in := f\<rparr>"
  have e: "feed_data L w ?s d f pc = (Inr pt, h, s', w')"
    using assms(4) by (simp add: feed_data_dispatch [OF assms(2,3)])
  then have a: "s_active s" and l: "length (fd_hdr d) \<in> {0, 1071, 1190}"
    by (auto simp: feed_data_def split: if_splits)
  then obtain key r' ring where k: "data_key L (s_recv s) (fd_seq d) = Inr (key, r', ring)"
    using e by (auto simp: feed_data_def split: sum.splits if_splits)
  then obtain d' pt' where t: "tt_frame_decode L f key pc = Some (d', pt')"
    using e a l by (auto simp: feed_data_def Let_def split: option.splits)
  then have d: "d' = d" using decode_peek [OF assms(1) t] assms(2) by simp
  show ?thesis
    using that [OF a l k] e a l k t d by (auto simp: feed_data_def Let_def split: prod.splits)
qed

definition consumed :: "TTRatchet \<Rightarrow> u32 \<Rightarrow> bool" where
  "consumed r q \<longleftrightarrow> q < r_seq r \<and> q \<notin> fst ` set (r_skipped r)"

lemma consumed_replay: "consumed r q \<Longrightarrow> data_key L r q = Inl TT_E2EE_REPLAY"
  using iffD2 [OF take_first_None, of q "r_skipped r"]
  by (auto simp: consumed_def data_key_def skipped_take_def)

lemma data_key_commit:
  assumes "store_ok r" "data_key L r q = Inr (key, r', ring)" "q + 1 \<noteq> 0"
  shows "consumed (if ring then r' else recv_commit L r' q) q"
    "store_ok (if ring then r' else recv_commit L r' q)"
proof -
  consider "\<not> ring" "r' = r" "r_seq r \<le> q" | "ring" "skipped_take r q = Some (key, r')"
    using assms(2) by (auto simp: data_key_def split: if_splits option.splits)
  then have "consumed (if ring then r' else recv_commit L r' q) q
      \<and> store_ok (if ring then r' else recv_commit L r' q)"
  proof cases
    case 1
    note c = store_ok_commit [OF assms(1) 1(3) assms(3), of L]
    show ?thesis
      using 1 c recv_commit_seq [OF 1(3), of L] u32_less_Suc [OF assms(3)] by (simp add: consumed_def)
  next
    case 2
    note t = store_ok_take [OF assms(1) 2(2)]
    show ?thesis using 2(1) t(1-3) by (simp add: consumed_def)
  qed
  then show "consumed (if ring then r' else recv_commit L r' q) q"
    "store_ok (if ring then r' else recv_commit L r' q)"
    by blast+
qed

lemma consumed_fold: "consumed r q \<Longrightarrow> consumed (ratchet_fold L r dh ss) q"
  by (simp add: consumed_def ratchet_fold_def split_beta Let_def)

lemma fed_consumed:
  assumes "sodium_ok L" "store_ok (s_recv s)" "tt_frame_peek f = Some d" "fd_type d = 2" "fd_seq d + 1 \<noteq> 0"
    "tt_session_feed L w s env f pc = (Inr pt, h, s', w')"
  shows "consumed (s_recv s') (fd_seq d)" "store_ok (s_recv s')" "s_active s'"
    "length (fd_hdr d) \<in> {0, 1071, 1190}"
proof -
  obtain key r' ring where k: "s_active s" "length (fd_hdr d) \<in> {0, 1071, 1190}"
    "data_key L (s_recv s) (fd_seq d) = Inr (key, r', ring)"
    and e: "(s', w') = apply_hdr L w (note_ack (s \<lparr>s_last_in := f,
        s_recv := if ring then r' else recv_commit L r' (fd_seq d)\<rparr>)) d"
    by (rule feed_data_Inr [OF assms(1,3,4,6)])
  let ?s1 = "note_ack (s \<lparr>s_last_in := f, s_recv := if ring then r' else recv_commit L r' (fd_seq d)\<rparr>)"
  have s': "s' = fst (apply_hdr L w ?s1 d)" using e by (metis fst_conv)
  note c = data_key_commit [OF assms(2) k(3) assms(5)]
  show "s_active s'" "length (fd_hdr d) \<in> {0, 1071, 1190}" using k by (simp_all add: s' apply_hdr_keeps)
  show "consumed (s_recv s') (fd_seq d)" "store_ok (s_recv s')"
    using c consumed_fold [OF c(1)] by (cases rule: apply_hdr_recv [of L w ?s1 d]; simp add: s')+
qed

text \<open>C17: a delivered frame is never delivered twice.  After any DATA frame was delivered, feeding the
  same frame again is answered with the replay status, with the chains, the key store and the
  re-key state as they were; the receiving store keeps its invariant.\<close>

theorem replayed_frame_rejected:
  assumes "sodium_ok L" "store_ok (s_recv s)" "tt_frame_peek f = Some d" "fd_type d = TT_FRAME_DATA"
    "fd_seq d + 1 \<noteq> 0" "tt_session_feed L w s env f pc = (Inr pt, h, s', w')"
  shows "tt_session_feed L v s' env' f pc' = (Inl TT_E2EE_REPLAY, False, s' \<lparr>s_last_in := f\<rparr>, v)
    \<and> store_ok (s_recv s')"
  using fed_consumed [OF assms] consumed_replay [of "s_recv s'" "fd_seq d" L]
  by (auto simp: feed_data_dispatch [OF assms(3,4)] feed_data_def)

text \<open>A first message between the two example sessions, as both ends see it.\<close>

lemma toy_first_message:
  obtains f d y' v' where "tt_frame_peek f = Some d" "fd_type d = 2" "fd_seq d = 0"
    "tt_session_feed (toy True) 0 (toy_session False) (honest_env (toy True) [] []) f 1372 = (Inr [5], False, y', v')"
proof -
  obtain f x' w' where e: "emit_frame (toy True) 0 (toy_session False) (TextBuf [5]) 1372 False = (Inr f, x', w')"
    by (rule emit_ok [OF toy_ok toy_session_ok(1) [of True False] toy_session_ok(2), of "[5]" 1372 0 False])
       simp_all
  obtain hdr hf fo k1 w1 where ch: "chosen_header (toy True) 0 (toy_session False) False = (hdr, hf, fo, k1, w1)"
    by (metis prod.exhaust)
  have q: "r_seq (s_send (toy_session False)) = 0"
    by (simp add: toy_session_def tt_session_init_def ratchet_zero_def)
  obtain d where d: "tt_frame_peek f = Some d" "fd_type d = 2" "fd_seq d = 0"
    using emitted [OF toy_ok toy_session_ok(1) ch e] q by metis
  obtain y' v' where "tt_session_feed (toy True) 0 (toy_session False) (honest_env (toy True) [] []) f 1372
      = (Inr [5], False, y', v')"
    by (rule deliver_one [OF toy_ok toy_session_ok(3) e, of 1372 0 "honest_env (toy True) [] []"])
       (simp_all add: text_bytes_def)
  then show ?thesis using that d by blast
qed

lemma toy_store_ok: "store_ok (s_recv (toy_session l))"
  by (simp add: toy_session_def tt_session_init_def)

theorem replayed_frame_rejected_witness:
  "\<exists>f y' v'. tt_session_feed (toy True) 0 (toy_session False) (honest_env (toy True) [] []) f 1372
       = (Inr [5], False, y', v')
     \<and> tt_session_feed (toy True) 1 y' (honest_env (toy True) [] []) f 1372
       = (Inl TT_E2EE_REPLAY, False, y' \<lparr>s_last_in := f\<rparr>, 1)"
proof -
  obtain f d y' v' where t: "tt_frame_peek f = Some d" "fd_type d = 2" "fd_seq d = 0"
    "tt_session_feed (toy True) 0 (toy_session False) (honest_env (toy True) [] []) f 1372 = (Inr [5], False, y', v')"
    by (rule toy_first_message)
  have "fd_seq d + 1 \<noteq> 0" using t(3) by simp
  from replayed_frame_rejected [OF toy_ok toy_store_ok t(1,2) this t(4), of 1 "honest_env (toy True) [] []" 1372]
  show ?thesis using t(4) by blast
qed

text \<open>C18: a rejected frame consumes nothing.  Whenever a DATA frame is refused, for whatever reason, both
  chains, the sequence numbers, the roots, the re-key state and the multiset of stored message
  keys are unchanged and no randomness was drawn: a corrupt or replayed frame cannot move the
  ratchet or lose a stored key.\<close>

theorem rejected_frame_keeps_chain:
  assumes "store_ok (s_recv s)" "tt_frame_peek f = Some d" "fd_type d = TT_FRAME_DATA"
    "tt_session_feed L w s env f pc = (Inl e, h, s', w')"
  shows "r_chain (s_recv s') = r_chain (s_recv s) \<and> r_seq (s_recv s') = r_seq (s_recv s)
    \<and> r_root (s_recv s') = r_root (s_recv s) \<and> mset (r_skipped (s_recv s')) = mset (r_skipped (s_recv s))
    \<and> s_send s' = s_send s \<and> s_rekey s' = s_rekey s \<and> s_root s' = s_root s \<and> s_active s' = s_active s \<and> w' = w"
proof -
  let ?s = "s \<lparr>s_last_in := f\<rparr>"
  have nd: "s_recv (note_desync L x) = s_recv x" "s_send (note_desync L x) = s_send x"
    "s_rekey (note_desync L x) = s_rekey x" "s_root (note_desync L x) = s_root x"
    "s_active (note_desync L x) = s_active x" for x
    by (simp_all add: note_desync_def)
  have fe: "feed_data L w ?s d f pc = (Inl e, h, s', w')"
    using assms(4) by (simp add: feed_data_dispatch [OF assms(2,3)])
  consider (early) "s' = ?s" "w' = w"
    | (auth) key r' ring where "data_key L (s_recv s) (fd_seq d) = Inr (key, r', ring)" "w' = w"
      "s' = note_desync L (?s \<lparr>s_recv := if ring then skipped_add r' (fd_seq d, key) else r'\<rparr>)"
    using fe by (auto simp: feed_data_def Let_def split: if_splits sum.splits option.splits prod.splits)
  then show ?thesis
  proof cases
    case early
    then show ?thesis by simp
  next
    case auth
    show ?thesis
    proof (cases ring)
      case True
      then have t: "skipped_take (s_recv s) (fd_seq d) = Some (key, r')"
        using auth(1) by (auto simp: data_key_def split: if_splits option.splits)
      obtain xs ys where x: "r_skipped (s_recv s) = xs @ (fd_seq d, key) # ys"
        "r' = (s_recv s) \<lparr>r_skipped := xs @ ys\<rparr>"
        by (rule skipped_take_Some [OF t])
      have "length (xs @ ys) < 96" using store_ok_take(5) [OF assms(1) t] by (simp add: x(2))
      then show ?thesis using True auth by (simp add: nd x skipped_add_def)
    next
      case False
      then have "r' = s_recv s" using auth(1) by (auto simp: data_key_def split: if_splits option.splits)
      then show ?thesis using False auth by (simp add: nd)
    qed
  qed
qed

definition gcm_data :: bytes where
  "gcm_data = frame_ad 2 0 1 (replicate 24 0) [] @ replicate 16 0"

lemma gcm_data_rejected:
  obtains d s' where "tt_frame_peek gcm_data = Some d" "fd_type d = 2"
    "tt_session_feed (toy False) 0 (toy_session False) (honest_env (toy False) [] []) gcm_data 1372
       = (Inl TT_E2EE_DECODE_FAIL, False, s', 0)"
proof -
  have n: "frame_nonce_len 1 = 12" by (simp add: frame_nonce_len_def flag_set_def)
  obtain d where d: "tt_frame_peek gcm_data = Some d" "fd_type d = 2" "fd_hdr d = []" "fd_seq d = 0"
    using tt_frame_peek_ad [of 1 "replicate 24 0" "[]" "replicate 16 0" 2 0] n by (auto simp: gcm_data_def)
  have "gcm_data ! 6 = 1"
    using frame_ad_fields(4) [of 1 "replicate 24 0" "[]" 2 0 "replicate 16 0"] n by (simp add: gcm_data_def)
  then have dec: "tt_frame_decode (toy False) gcm_data key m = None" for key m
    using decode_needs_cipher [of "toy False" gcm_data key m]
    by (cases "tt_frame_decode (toy False) gcm_data key m") (simp_all add: flag_set_def)
  have z: "s_active (toy_session False)" "r_seq (s_recv (toy_session False)) = 0"
    by (simp_all add: toy_session_def tt_session_init_def ratchet_zero_def)
  have "\<exists>s'. tt_session_feed (toy False) 0 (toy_session False) (honest_env (toy False) [] []) gcm_data 1372
       = (Inl TT_E2EE_DECODE_FAIL, False, s', 0)"
    by (simp add: feed_data_dispatch [OF d(1,2)] feed_data_def d(3,4) dec z data_key_def Let_def)
  then show ?thesis using that d by blast
qed

theorem rejected_frame_keeps_chain_witness:
  "\<exists>s'. tt_session_feed (toy False) 0 (toy_session False) (honest_env (toy False) [] []) gcm_data 1372
       = (Inl TT_E2EE_DECODE_FAIL, False, s', 0)
     \<and> r_seq (s_recv s') = r_seq (s_recv (toy_session False)) \<and> s_rekey s' = s_rekey (toy_session False)"
proof -
  obtain d s' where d: "tt_frame_peek gcm_data = Some d" "fd_type d = 2"
    "tt_session_feed (toy False) 0 (toy_session False) (honest_env (toy False) [] []) gcm_data 1372
       = (Inl TT_E2EE_DECODE_FAIL, False, s', 0)"
    by (rule gcm_data_rejected)
  from rejected_frame_keeps_chain [OF toy_store_ok d] d(3) show ?thesis by blast
qed

section \<open>Reordered delivery\<close>

text \<open>
  The receiver's ratchet inside a window: \<open>m\<close> frames of the chain \<open>c\<close> starting at sequence
  number \<open>q\<close> have been passed, and of these exactly those in \<open>S\<close> have been delivered.
\<close>

definition window :: "sodium \<Rightarrow> bytes \<Rightarrow> u32 \<Rightarrow> TTRatchet \<Rightarrow> nat \<Rightarrow> nat set \<Rightarrow> bool" where
  "window L c q r m S \<longleftrightarrow> r_chain r = chain_steps L m c \<and> r_seq r = q + of_nat m \<and> S \<subseteq> {..<m}
     \<and> distinct (map fst (r_skipped r))
     \<and> set (r_skipped r) = (\<lambda>i. (q + of_nat i, fst (key_at L c i))) ` ({..<m} - S)
     \<and> length (r_skipped r) \<le> m"

lemma unat_offset: "unat q + i < 2 ^ 32 \<Longrightarrow> unat ((q :: u32) + of_nat i) = unat q + i"
  by (simp add: unat_word_ariths(1) unat_of_nat)

lemma offset_inj: "unat q + i < 2 ^ 32 \<Longrightarrow> unat q + j < 2 ^ 32 \<Longrightarrow> (q :: u32) + of_nat i = q + of_nat j \<longleftrightarrow> i = j"
  using unat_offset [of q i] unat_offset [of q j] by (metis add_left_cancel)

text \<open>The key selected for an undelivered frame of the window, and the window afterwards.\<close>

lemma window_new:
  assumes "window L c q r m S" "m \<le> i" "i < 96" "unat q + 96 < 2 ^ 32"
  shows "data_key L r (q + of_nat i) = Inr (fst (key_at L c i), r, False)"
    "window L c q (recv_commit L r (q + of_nat i)) (Suc i) (insert i S)"
proof -
  have r: "r_chain r = chain_steps L m c" "r_seq r = q + of_nat m" "S \<subseteq> {..<m}" "length (r_skipped r) \<le> m"
    using assms(1) by (simp_all add: window_def)
  have u: "unat (q + of_nat i) = unat q + i" "unat (q + of_nat m) = unat q + m"
    using assms(2-4) by (simp_all add: unat_offset)
  then have diff: "unat (q + of_nat i) - unat (r_seq r) = i - m" using r(2) by simp
  have lt: "r_seq r \<le> q + of_nat i" using u assms(2) r(2) by (simp add: word_le_nat_alt)
  have "(q + of_nat i) - r_seq r = of_nat (i - m)" using assms(2) by (simp add: r(2) of_nat_diff)
  then have gap: "\<not> 512 \<le> (q + of_nat i) - r_seq r"
    using assms(3) by (simp add: word_le_nat_alt unat_of_nat)
  have k: "msg_key_at L r (q + of_nat i) = key_at L c i"
    using assms(2) by (simp add: msg_key_at_eq diff r(1) key_at_steps)
  show "data_key L r (q + of_nat i) = Inr (fst (key_at L c i), r, False)"
    using lt gap k by (auto simp: data_key_def)
  have ge: "gap_entries L (i - m) r = map (\<lambda>j. (q + of_nat j, fst (key_at L c j))) [m..<i]"
  proof -
    have "[m..<i] = map (\<lambda>j. m + j) [0..<i - m]"
      using assms(2) map_add_upt [of m "i - m"] by (simp add: add.commute)
    then show ?thesis by (simp add: gap_entries_def r(1,2) key_at_steps add.assoc o_def)
  qed
  have sk: "r_skipped (recv_commit L r (q + of_nat i)) = r_skipped r @ gap_entries L (i - m) r"
    using recv_commit_skipped [of r "q + of_nat i" L] diff r(4) assms(2,3) by simp
  have inj: "inj_on (\<lambda>j. q + of_nat j) {m..<i}"
    using offset_inj [of q] assms(3,4) by (auto simp: inj_on_def)
  have dis: "distinct (map fst (r_skipped r @ gap_entries L (i - m) r))"
    using assms offset_inj [of q] inj unfolding window_def ge
    by (auto simp: distinct_map o_def image_iff)
  have "{..<Suc i} - insert i S = ({..<m} - S) \<union> {m..<i}"
    using r(3) assms(2) by auto
  then have st: "set (r_skipped r @ gap_entries L (i - m) r)
      = (\<lambda>j. (q + of_nat j, fst (key_at L c j))) ` ({..<Suc i} - insert i S)"
    using assms(1) by (simp add: window_def ge image_Un)
  have "chain_steps L (Suc (i - m)) (r_chain r) = chain_steps L (Suc i) c"
    using chain_steps_add [of L m "Suc (i - m)" c] assms(2) r(1) by simp
  moreover have "length (r_skipped r @ gap_entries L (i - m) r) \<le> Suc i"
    using r(4) assms(2) by (simp add: gap_entries_def)
  moreover have "insert i S \<subseteq> {..<Suc i}" using r(3) assms(2) by auto
  ultimately show "window L c q (recv_commit L r (q + of_nat i)) (Suc i) (insert i S)"
    using dis st recv_commit_seq [OF lt, of L]
    unfolding window_def sk recv_commit_fields(1) diff by (simp add: add.assoc)
qed

lemma window_old:
  assumes "window L c q r m S" "i < m" "i \<notin> S" "m \<le> 96" "unat q + 96 < 2 ^ 32"
  obtains r' where "data_key L r (q + of_nat i) = Inr (fst (key_at L c i), r', True)"
    "window L c q r' m (insert i S)"
proof -
  let ?e = "\<lambda>j. (q + of_nat j, fst (key_at L c j))"
  let ?f = "filter (\<lambda>e. fst e \<noteq> q + of_nat i) (r_skipped r)"
  have w: "r_seq r = q + of_nat m" "distinct (map fst (r_skipped r))"
    "set (r_skipped r) = ?e ` ({..<m} - S)" "length (r_skipped r) \<le> m"
    using assms(1) by (simp_all add: window_def)
  have lt: "q + of_nat i < r_seq r"
    using unat_offset [of q i] unat_offset [of q m] assms(2,4,5) w(1) by (simp add: word_less_nat_alt)
  have "(q + of_nat i, fst (key_at L c i)) \<in> set (r_skipped r)" using w(3) assms(2,3) by auto
  then have "take_first (q + of_nat i) (r_skipped r) = Some (fst (key_at L c i), ?f)"
    by (rule take_first_unique [OF w(2)])
  then have k: "data_key L r (q + of_nat i) = Inr (fst (key_at L c i), r \<lparr>r_skipped := ?f\<rparr>, True)"
    using lt by (auto simp: data_key_def skipped_take_def)
  have "set ?f = ?e ` ({..<m} - insert i S)"
    using w(3) offset_inj [of q _ i] assms(2,4,5) by (auto simp: image_iff)
  moreover have "length ?f \<le> m"
    by (rule order_trans [OF length_filter_le w(4)])
  ultimately have "window L c q (r \<lparr>r_skipped := ?f\<rparr>) m (insert i S)"
    using assms(1,2) distinct_map_filter [OF w(2)] unfolding window_def by simp
  with k show ?thesis by (rule that)
qed

lemma window_step:
  assumes "window L c q r m S" "i \<notin> S" "i < 96" "m \<le> 96" "unat q + 96 < 2 ^ 32"
  obtains r' ring m' where "data_key L r (q + of_nat i) = Inr (fst (key_at L c i), r', ring)"
    "window L c q (if ring then r' else recv_commit L r' (q + of_nat i)) m' (insert i S)" "m' \<le> 96"
proof (cases "i < m")
  case True
  obtain r' where "data_key L r (q + of_nat i) = Inr (fst (key_at L c i), r', True)"
    "window L c q r' m (insert i S)"
    by (rule window_old [OF assms(1) True assms(2,4,5)])
  then show ?thesis using that [of r' True m] assms(4) by simp
next
  case False
  then show ?thesis
    using window_new [OF assms(1) _ assms(3,5)] that [of r False "Suc i"] assms(3) by simp
qed

text \<open>A plain frame of the window is delivered.\<close>

lemma window_feed:
  assumes "window L c q (s_recv y) m S" "s_active y" "i \<notin> S" "i < 96" "m \<le> 96" "unat q + 96 < 2 ^ 32"
    "tt_frame_peek f = Some d" "fd_type d = 2" "fd_hdr d = []" "fd_seq d = q + of_nat i"
    "tt_frame_decode L f (fst (key_at L c i)) pc = Some (d, t)"
  obtains y' m' where "tt_session_feed L w y env f pc = (Inr t, False, y', w)" "s_active y'" "m' \<le> 96"
    "window L c q (s_recv y') m' (insert i S)"
proof -
  obtain r' ring m' where st: "data_key L (s_recv y) (q + of_nat i) = Inr (fst (key_at L c i), r', ring)"
    "window L c q (if ring then r' else recv_commit L r' (q + of_nat i)) m' (insert i S)" "m' \<le> 96"
    by (rule window_step [OF assms(1,3,4,5,6)])
  let ?y = "note_ack (y \<lparr>s_last_in := f, s_recv := if ring then r' else recv_commit L r' (q + of_nat i)\<rparr>)"
  have "tt_session_feed L w y env f pc = (Inr t, False, ?y, w)"
    using assms(2,9-11) st(1) by (simp add: feed_data_dispatch [OF assms(7,8)] feed_data_def apply_hdr_def Let_def)
  moreover have "s_active ?y" "window L c q (s_recv ?y) m' (insert i S)" using assms(2) st(2) by simp_all
  ultimately show ?thesis using that st(3) by blast
qed

lemma length_decimal: "n < 10 ^ k \<Longrightarrow> 0 < k \<Longrightarrow> length (decimal n) \<le> k"
proof (induction k arbitrary: n)
  case (Suc k)
  show ?case
  proof (cases "n < 10")
    case True
    then show ?thesis by (subst decimal.simps) simp
  next
    case False
    have "k \<noteq> 0" using Suc.prems(1) False by (cases k) simp_all
    then have "length (decimal (n div 10)) \<le> k"
      using Suc.prems(1) by (intro Suc.IH) auto
    then show ?thesis using False by (subst decimal.simps) simp
  qed
qed simp

definition hook_text :: "u32 \<Rightarrow> bytes" where
  "hook_text q = ascii (CHR ''m'' # decimal (unat q))"

lemma length_hook_text: "length (hook_text q) \<le> 11"
proof -
  have "unat q < 2 ^ LENGTH(32)" by (rule unsigned_less)
  then have "unat q < 10 ^ 10" by simp
  then show ?thesis using length_decimal [of "unat q" 10] by (simp add: hook_text_def)
qed

text \<open>The frame the reorder hook builds for the \<open>i\<close>-th message from now.\<close>

lemma hook_frame:
  assumes "sodium_ok L" "s_active x" "r_seq (s_send x) = q" "unat q + 96 < 2 ^ 32" "i < 96"
  obtains f d where "tt_session_frame_at L x (q + of_nat i) 1372 = Inr (Some f)" "tt_frame_peek f = Some d"
    "fd_type d = 2" "fd_hdr d = []" "fd_seq d = q + of_nat i"
    "tt_frame_decode L f (fst (key_at L (r_chain (s_send x)) i)) 1372 = Some (d, hook_text (q + of_nat i))"
proof -
  let ?k = "key_at L (r_chain (s_send x)) i" and ?t = "hook_text (q + of_nat i)"
  have mk: "msg_key_at L (s_send x) (q + of_nat i) = ?k"
    using assms(3-5) unat_offset [of q i] by (simp add: msg_key_at_eq)
  note fl = data_flags_ok [of 0 L, simplified]
  have b: "29 + frame_nonce_len (data_flags L) + length ([] :: bytes) + length ?t \<le> min 1372 1372"
    using length_hook_text [of "q + of_nat i"] frame_nonce_len_cases [of "data_flags L"] by auto
  obtain f where f: "tt_frame_encode L 1372 2 (q + of_nat i) (data_flags L) (fst ?k) (snd ?k) [] ?t = Some f"
    "tt_frame_peek f = Some (frame_desc 2 (data_flags L) (q + of_nat i) (snd ?k) [] (length ?t))"
    "\<And>pc. length ?t \<le> pc \<Longrightarrow> tt_frame_decode L f (fst ?k) pc
       = Some (frame_desc 2 (data_flags L) (q + of_nat i) (snd ?k) [] (length ?t), ?t)"
    using frame_sealed [OF assms(1) length_key_at(1) [OF assms(1), of "r_chain (s_send x)" i]
        length_key_at(2) [OF assms(1), of "r_chain (s_send x)" i] fl(1) _ _ b,
        where type = 2 and seq = "q + of_nat i"] fl(2,3) by (metis list.size(3))
  have "tt_session_frame_at L x (q + of_nat i) 1372 = Inr (Some f)"
    using assms(2) f(1) by (simp add: tt_session_frame_at_def mk split_beta hook_text_def)
  then show ?thesis using that f(2) f(3) [of 1372] length_hook_text [of "q + of_nat i"] by simp
qed

fun feed_all :: "sodium \<Rightarrow> nat \<Rightarrow> TTSession \<Rightarrow> TTE2EEEnv \<Rightarrow> bytes list \<Rightarrow> frame_result list" where
  "feed_all L w s env [] = []"
| "feed_all L w s env (f # fs) =
     (case tt_session_feed L w s env f 1372 of (r, h, s', w') \<Rightarrow> r # feed_all L w' s' env fs)"

lemma feed_all_window:
  assumes "unat q + 96 < 2 ^ 32"
    "\<And>i. i < 96 \<Longrightarrow> \<exists>d. tt_frame_peek (fs i) = Some d \<and> fd_type d = 2 \<and> fd_hdr d = [] \<and> fd_seq d = q + of_nat i
       \<and> tt_frame_decode L (fs i) (fst (key_at L c i)) 1372 = Some (d, hook_text (q + of_nat i))"
  shows "window L c q (s_recv y) m S \<Longrightarrow> s_active y \<Longrightarrow> m \<le> 96 \<Longrightarrow> distinct js \<Longrightarrow> set js \<subseteq> {..<96} - S \<Longrightarrow>
    feed_all L w y env (map fs js) = map (\<lambda>i. Inr (hook_text (q + of_nat i))) js"
proof (induction js arbitrary: w y m S)
  case (Cons i js)
  have i: "i < 96" "i \<notin> S" using Cons.prems(5) by auto
  obtain d where d: "tt_frame_peek (fs i) = Some d" "fd_type d = 2" "fd_hdr d = []" "fd_seq d = q + of_nat i"
    "tt_frame_decode L (fs i) (fst (key_at L c i)) 1372 = Some (d, hook_text (q + of_nat i))"
    using assms(2) [OF i(1)] by blast
  obtain y' m' where y': "tt_session_feed L w y env (fs i) 1372 = (Inr (hook_text (q + of_nat i)), False, y', w)"
    "s_active y'" "m' \<le> 96" "window L c q (s_recv y') m' (insert i S)"
    by (rule window_feed [OF Cons.prems(1,2) i(2,1) Cons.prems(3) assms(1) d])
  have "feed_all L w y' env (map fs js) = map (\<lambda>i. Inr (hook_text (q + of_nat i))) js"
    using Cons.prems(4,5) y' by (intro Cons.IH [OF y'(4)]) auto
  then show ?case using y'(1) by simp
qed simp



section \<open>Control frames\<close>

lemma length_control_key [len_simps]: "sodium_ok L \<Longrightarrow> length (control_key L s) = 32"
  by (simp add: control_key_def len_simps)

text \<open>A control frame built on one side opens on a side with the same handshake root.\<close>

lemma control_frame_fed:
  assumes "sodium_ok L" "s_root x = s_root y" "s_active x" "\<not> s_lossy x" "t = 3 \<or> t = 4" "1372 \<le> cap"
  shows "tt_session_feed L v x env (control_frame L w y t a b cap) pc =
    (Inr [], False,
     if t = 3 then x \<lparr>s_rel := (s_rel x) \<lparr>rel_sent := rel_sent_ack (rel_sent (s_rel x)) b a\<rparr>\<rparr>
     else x \<lparr>s_rel := (s_rel x) \<lparr>rel_resend_rep_pending := True, rel_resend_rep_gen := a,
            rel_resend_rep_from := b, rel_resend_rep_pos := 0\<rparr>\<rparr>, v)"
    "control_frame L w y t a b cap \<noteq> []"
proof -
  let ?p = "be32 a @ be32 b" and ?n = "sd_randombytes L w 24"
  have ex: "expected_hdr_len t 0 = Some (length ([] :: bytes))" "(0 :: byte) AND 0xF0 = 0"
    "flag_set 0 1 \<longrightarrow> tt_aead_gcm_available L"
    using assms(5) by (auto simp: expected_hdr_len_def flag_set_def)
  have b: "29 + frame_nonce_len 0 + length ([] :: bytes) + length ?p \<le> min 1372 cap"
    using assms(6) by (simp add: frame_nonce_len_def flag_set_def)
  obtain f where f: "tt_frame_encode L cap t 0 0 (control_key L y) ?n [] ?p = Some f"
    "tt_frame_peek f = Some (frame_desc t 0 0 ?n [] (length ?p))"
    "\<And>pc. length ?p \<le> pc \<Longrightarrow> tt_frame_decode L f (control_key L y) pc = Some (frame_desc t 0 0 ?n [] (length ?p), ?p)"
    "length f = 29 + frame_nonce_len 0 + length ([] :: bytes) + length ?p"
    using frame_sealed [OF assms(1) length_control_key [OF assms(1), of y] length_randombytes [OF assms(1), of w]
        ex(2,1,3) b, where seq = 0] by metis
  have c: "control_frame L w y t a b cap = f" using f(1) by (simp add: control_frame_def)
  then show "control_frame L w y t a b cap \<noteq> []" using f(4) by auto
  have k: "control_key L x = control_key L y" using assms(2) by (simp add: control_key_def)
  have rd: "rd32 (?p ! 0) (?p ! 1) (?p ! 2) (?p ! 3) = a" "rd32 (?p ! 4) (?p ! 5) (?p ! 6) (?p ! 7) = b"
    by (simp_all add: be32_def)
  have fc: "tt_session_feed L v x env f pc = feed_control L v x (frame_desc t 0 0 ?n [] (length ?p)) f"
    using f(2) assms(5) by (auto simp: tt_session_feed_def)
  have dec: "tt_frame_decode L f (control_key L x) 16 = Some (frame_desc t 0 0 ?n [] (length ?p), ?p)"
    using f(3) [of 16] by (simp add: k)
  show "tt_session_feed L v x env (control_frame L w y t a b cap) pc =
    (Inr [], False,
     if t = 3 then x \<lparr>s_rel := (s_rel x) \<lparr>rel_sent := rel_sent_ack (rel_sent (s_rel x)) b a\<rparr>\<rparr>
     else x \<lparr>s_rel := (s_rel x) \<lparr>rel_resend_rep_pending := True, rel_resend_rep_gen := a,
            rel_resend_rep_from := b, rel_resend_rep_pos := 0\<rparr>\<rparr>, v)"
    unfolding c fc feed_control_def dec Let_def option.case prod.case rd
    using assms(3,4) by simp
qed

text \<open>An acknowledgement evicts exactly what it covers.  With an ACK due and nothing else pending,
  the poll builds it once; fed to the peer of the same handshake it returns 0 and leaves in the
  peer's buffer exactly the messages of other generations and those with higher sequence numbers
  than the acknowledged one, in their order.\<close>

theorem ack_evicts_acknowledged:
  assumes "sodium_ok L" "s_active x" "s_active y" "s_root x = s_root y" "\<not> s_lossy x" "TT_FRAME_MAX \<le> cap"
    "rel_ack_due (s_rel y)" "\<not> rel_resend_req_pending (s_rel y)" "\<not> rel_resend_rep_pending (s_rel y)"
    "sent_inv (rel_sent (s_rel x))"
  shows "\<exists>f y' w' x'. tt_session_rel_poll L w y cap = (Inr f, y', w') \<and> f \<noteq> [] \<and> \<not> rel_ack_due (s_rel y')
    \<and> tt_session_feed L v x env f pc = (Inr [], False, x', v)
    \<and> sent_entries (rel_sent (s_rel x'))
        = filter (\<lambda>(g, q, t). \<not> (g = rel_gen L x \<and> q \<le> rel_recv_acked (s_rel y))) (sent_entries (rel_sent (s_rel x)))"
proof -
  let ?y = "y \<lparr>s_rel := (s_rel y) \<lparr>rel_ack_due := False\<rparr>\<rparr>"
  let ?f = "control_frame L w ?y 3 (rel_recv_acked (s_rel y)) (rel_gen L y) cap"
  let ?x = "x \<lparr>s_rel := (s_rel x) \<lparr>rel_sent := rel_sent_ack (rel_sent (s_rel x)) (rel_gen L y) (rel_recv_acked (s_rel y))\<rparr>\<rparr>"
  have g: "rel_gen L x = rel_gen L y" using assms(4) by (simp add: rel_gen_def)
  have "s_root x = s_root ?y" using assms(4) by simp
  note c = control_frame_fed(1) [OF assms(1) this assms(2,5) _ assms(6), of 3 v env w "rel_recv_acked (s_rel y)" "rel_gen L y" pc]
    control_frame_fed(2) [OF assms(1) this assms(2,5) _ assms(6), of 3 w "rel_recv_acked (s_rel y)" "rel_gen L y"]
  have p: "tt_session_rel_poll L w y cap = (Inr ?f, ?y, Suc w)"
    using assms(3,7-9) by (simp add: tt_session_rel_poll_def Let_def)
  have "sent_entries (rel_sent (s_rel ?x))
        = filter (\<lambda>(g, q, t). \<not> (g = rel_gen L x \<and> q \<le> rel_recv_acked (s_rel y))) (sent_entries (rel_sent (s_rel x)))"
    using rel_sent_ack_spec(2) [OF assms(10)] by (simp add: g)
  then show ?thesis using p c by (intro exI [of _ ?f] exI [of _ ?y] exI [of _ "Suc w"] exI [of _ ?x]) simp
qed

text \<open>A desync request reaches the sender intact.  With a RESEND request pending, the poll builds it
  and clears the flag; fed to the peer of the same handshake it arms the re-send with exactly the
  generation and the first sequence number the receiver asked for.\<close>

theorem resend_request_arms_peer:
  assumes "sodium_ok L" "s_active x" "s_active y" "s_root x = s_root y" "\<not> s_lossy x" "TT_FRAME_MAX \<le> cap"
    "rel_resend_req_pending (s_rel y)"
  shows "\<exists>f y' w' x'. tt_session_rel_poll L w y cap = (Inr f, y', w') \<and> f \<noteq> []
    \<and> \<not> rel_resend_req_pending (s_rel y')
    \<and> tt_session_feed L v x env f pc = (Inr [], False, x', v) \<and> rel_resend_rep_pending (s_rel x')
    \<and> rel_resend_rep_gen (s_rel x') = rel_resend_req_gen (s_rel y)
    \<and> rel_resend_rep_from (s_rel x') = rel_resend_req_from (s_rel y)"
proof -
  let ?y = "y \<lparr>s_rel := (s_rel y) \<lparr>rel_resend_req_pending := False\<rparr>\<rparr>"
  let ?f = "control_frame L w ?y 4 (rel_resend_req_gen (s_rel y)) (rel_resend_req_from (s_rel y)) cap"
  let ?x = "x \<lparr>s_rel := (s_rel x) \<lparr>rel_resend_rep_pending := True, rel_resend_rep_gen := rel_resend_req_gen (s_rel y),
            rel_resend_rep_from := rel_resend_req_from (s_rel y), rel_resend_rep_pos := 0\<rparr>\<rparr>"
  have "s_root x = s_root ?y" using assms(4) by simp
  note c = control_frame_fed(1) [OF assms(1) this assms(2,5) _ assms(6), of 4 v env w
      "rel_resend_req_gen (s_rel y)" "rel_resend_req_from (s_rel y)" pc]
    control_frame_fed(2) [OF assms(1) this assms(2,5) _ assms(6), of 4 w
      "rel_resend_req_gen (s_rel y)" "rel_resend_req_from (s_rel y)"]
  have p: "tt_session_rel_poll L w y cap = (Inr ?f, ?y, Suc w)"
    using assms(3,7) by (simp add: tt_session_rel_poll_def Let_def)
  show ?thesis using p c by (intro exI [of _ ?f] exI [of _ ?y] exI [of _ "Suc w"] exI [of _ ?x]) simp
qed

theorem ack_evicts_acknowledged_witness:
  "\<exists>f y' w' x'. tt_session_rel_poll (toy False) 0
        (toy_session False \<lparr>s_rel := reliable_zero \<lparr>rel_ack_due := True, rel_recv_acked := 3\<rparr>\<rparr>) 1372 = (Inr f, y', w')
    \<and> tt_session_feed (toy False) 5 (toy_session False) (honest_env (toy False) [] []) f 1372 = (Inr [], False, x', 5)
    \<and> sent_entries (rel_sent (s_rel x')) = []"
proof -
  let ?y = "toy_session False \<lparr>s_rel := reliable_zero \<lparr>rel_ack_due := True, rel_recv_acked := 3\<rparr>\<rparr>"
  have "\<exists>f y' w' x'. tt_session_rel_poll (toy False) 0 ?y 1372 = (Inr f, y', w') \<and> f \<noteq> [] \<and> \<not> rel_ack_due (s_rel y')
    \<and> tt_session_feed (toy False) 5 (toy_session False) (honest_env (toy False) [] []) f 1372 = (Inr [], False, x', 5)
    \<and> sent_entries (rel_sent (s_rel x')) = filter (\<lambda>(g, q, t). \<not> (g = rel_gen (toy False) (toy_session False)
        \<and> q \<le> rel_recv_acked (s_rel ?y))) (sent_entries (rel_sent (s_rel (toy_session False))))"
    by (rule ack_evicts_acknowledged [OF toy_ok])
       (simp_all add: toy_session_def tt_session_init_def reliable_zero_def)
  moreover have "sent_entries (rel_sent (s_rel (toy_session False))) = []"
    by (simp add: toy_session_def tt_session_init_def reliable_zero_def)
  ultimately show ?thesis by (elim exE conjE) (intro exI conjI, assumption, assumption, simp)
qed

theorem resend_request_arms_peer_witness:
  "\<exists>f y' w' x'. tt_session_rel_poll (toy False) 0
        (toy_session False \<lparr>s_rel := reliable_zero \<lparr>rel_resend_req_pending := True, rel_resend_req_from := 4\<rparr>\<rparr>) 1372
        = (Inr f, y', w')
    \<and> tt_session_feed (toy False) 5 (toy_session False) (honest_env (toy False) [] []) f 1372 = (Inr [], False, x', 5)
    \<and> rel_resend_rep_pending (s_rel x') \<and> rel_resend_rep_from (s_rel x') = 4"
proof -
  let ?y = "toy_session False \<lparr>s_rel := reliable_zero \<lparr>rel_resend_req_pending := True, rel_resend_req_from := 4\<rparr>\<rparr>"
  have "\<exists>f y' w' x'. tt_session_rel_poll (toy False) 0 ?y 1372 = (Inr f, y', w') \<and> f \<noteq> []
    \<and> \<not> rel_resend_req_pending (s_rel y')
    \<and> tt_session_feed (toy False) 5 (toy_session False) (honest_env (toy False) [] []) f 1372 = (Inr [], False, x', 5)
    \<and> rel_resend_rep_pending (s_rel x') \<and> rel_resend_rep_gen (s_rel x') = rel_resend_req_gen (s_rel ?y)
    \<and> rel_resend_rep_from (s_rel x') = rel_resend_req_from (s_rel ?y)"
    by (rule resend_request_arms_peer [OF toy_ok]) (simp_all add: toy_session_def tt_session_init_def)
  then show ?thesis by (elim exE conjE) (intro exI conjI, assumption, assumption, assumption, simp)
qed

text \<open>The acknowledgement runs ahead of delivery.  When a frame arrives one ahead of the expected one
  and is delivered, the receiver marks it as acknowledged although the expected message is still
  missing: its sequence number is covered by the mark and its key sits in the store of skipped
  keys, so the peer will drop the only copy of a message that was never delivered.\<close>

theorem ack_covers_missing_message:
  assumes "sodium_ok L" "store_ok (s_recv s)" "length (r_skipped (s_recv s)) < TT_SESSION_SKIPPED_MAX"
    "\<not> s_lossy s" "tt_frame_peek f = Some d" "fd_type d = TT_FRAME_DATA" "fd_hdr d = []"
    "fd_seq d = r_seq (s_recv s) + 1" "r_seq (s_recv s) < fd_seq d" "fd_seq d + 1 \<noteq> 0"
    "rel_recv_acked (s_rel s) < fd_seq d" "tt_session_feed L w s env f pc = (Inr pt, h, s', w')"
  shows "rel_ack_due (s_rel s') \<and> r_seq (s_recv s) < rel_recv_acked (s_rel s')
    \<and> r_seq (s_recv s) \<in> fst ` set (r_skipped (s_recv s'))"
proof -
  obtain key r' ring where k: "data_key L (s_recv s) (fd_seq d) = Inr (key, r', ring)"
    and e: "(s', w') = apply_hdr L w (note_ack (s \<lparr>s_last_in := f,
        s_recv := if ring then r' else recv_commit L r' (fd_seq d)\<rparr>)) d"
    by (rule feed_data_Inr [OF assms(1,5,6,12)])
  have kr: "\<not> ring" "r' = s_recv s"
    using k assms(9) by (auto simp: data_key_def split: if_splits option.splits)
  have le: "r_seq (s_recv s) \<le> fd_seq d" using assms(9) by simp
  let ?r = "recv_commit L (s_recv s) (fd_seq d)"
  have s': "s' = note_ack (s \<lparr>s_last_in := f, s_recv := ?r\<rparr>)"
    using e kr by (simp add: apply_hdr_def assms(7))
  have n: "unat (fd_seq d) - unat (r_seq (s_recv s)) = 1"
  proof -
    have "unat (r_seq (s_recv s) + 1) = unat (r_seq (s_recv s)) + 1"
      using assms(8,9) unsigned_less [of "r_seq (s_recv s)", where ?'a = nat]
      by (simp add: unat_word_ariths(1) word_less_nat_alt mod_Suc split: if_splits)
    then show ?thesis using assms(8) by simp
  qed
  have "r_skipped ?r = r_skipped (s_recv s) @ gap_entries L 1 (s_recv s)"
    using recv_commit_skipped [of "s_recv s" "fd_seq d" L] assms(3) n by simp
  then have "r_seq (s_recv s) \<in> fst ` set (r_skipped ?r)" by (simp add: gap_entries_def)
  then show ?thesis
    using assms(4,9,11) recv_commit_seq [OF le, of L] by (simp add: s' note_ack_def)
qed

theorem ack_covers_missing_message_witness:
  "\<exists>f y'. tt_session_feed (toy True) 0 (toy_session False) (honest_env (toy True) [] []) f 1372
       = (Inr (hook_text 1), False, y', 0)
     \<and> rel_ack_due (s_rel y') \<and> 0 < rel_recv_acked (s_rel y') \<and> 0 \<in> fst ` set (r_skipped (s_recv y'))"
proof -
  let ?z = "toy_session False"
  have z: "s_active ?z" "r_seq (s_send ?z) = 0" "r_seq (s_recv ?z) = 0" "r_skipped (s_recv ?z) = []" "\<not> s_lossy ?z"
    "r_chain (s_recv ?z) = r_chain (s_send ?z)" "rel_recv_acked (s_rel ?z) = 0"
    by (simp_all add: toy_session_def tt_session_init_def ratchet_zero_def reliable_zero_def)
  obtain f d where f: "tt_frame_peek f = Some d" "fd_type d = 2" "fd_hdr d = []" "fd_seq d = 0 + of_nat 1"
    "tt_frame_decode (toy True) f (fst (key_at (toy True) (r_chain (s_send ?z)) 1)) 1372 = Some (d, hook_text (0 + of_nat 1))"
    by (rule hook_frame [OF toy_ok z(1,2), of 1]) simp_all
  have w: "window (toy True) (r_chain (s_send ?z)) 0 (s_recv ?z) 0 {}"
    using z by (simp add: window_def)
  obtain y' where y': "tt_session_feed (toy True) 0 ?z (honest_env (toy True) [] []) f 1372
      = (Inr (hook_text (0 + of_nat 1)), False, y', 0)"
    by (rule window_feed [OF w z(1) _ _ _ _ f, of 0 "honest_env (toy True) [] []"]) simp_all
  from ack_covers_missing_message [OF toy_ok toy_store_ok _ z(5) f(1-3) _ _ _ _ y'] f(4) z
  show ?thesis using y' by auto
qed

end
