(* ===== verification/Session_Inv.thy ===== *)
theory Session_Inv
  imports Receive
begin

text \<open>
  Reachable sessions: every operation of \<^verbatim>\<open>session.c\<close> as a step, in any order and
  with any arguments, and the invariant that bounds every buffer of \<^verbatim>\<open>TTSession\<close>.
\<close>

definition session_inv :: "TTSession \<Rightarrow> bool" where
  "session_inv s \<longleftrightarrow>
     sent_inv (rel_sent (s_rel s)) \<and>
     length (r_skipped (s_recv s)) \<le> TT_SESSION_SKIPPED_MAX \<and> r_skipped (s_send s) = [] \<and>
     length (s_pending s) \<le> TT_SESSION_PENDING_MAX \<and>
     (\<forall>p \<in> set (s_pending s). 0 < length p \<and> length p \<le> TT_FRAME_DATA_MAX) \<and>
     length (k_carrier (s_rekey s)) \<le> TT_FRAME_MAX \<and> length (s_reply_cache s) \<le> TT_FRAME_MAX \<and>
     length (s_last_in s) \<le> TT_FRAME_MAX \<and> \<not> (s_active s \<and> s_init_pending s)"

inductive reachable :: "sodium \<Rightarrow> TTSession \<Rightarrow> bool" for L where
  init: "reachable L (tt_session_init \<lparr>s_lossy := l\<rparr>)"
| start: "reachable L s \<Longrightarrow> tt_session_start L w s env now cap = (r, s', w') \<Longrightarrow> reachable L s'"
| reply: "reachable L s \<Longrightarrow> tt_session_reply L w s env cap = (r, s', w') \<Longrightarrow> reachable L s'"
| feed: "reachable L s \<Longrightarrow> tt_session_feed L w s env inp pc = (r, h, s', w') \<Longrightarrow> reachable L s'"
| send: "reachable L s \<Longrightarrow> tt_session_send L w s t cap = (r, s', w') \<Longrightarrow> reachable L s'"
| send_lossy: "reachable L s \<Longrightarrow> tt_session_send_lossy L w s t cap = (r, s', w') \<Longrightarrow> reachable L s'"
| carrier: "reachable L s \<Longrightarrow> tt_session_carrier L w s cap = (r, s', w') \<Longrightarrow> reachable L s'"
| carrier_done: "reachable L s \<Longrightarrow> reachable L (tt_session_carrier_done s)"
| flush: "reachable L s \<Longrightarrow> tt_session_flush L w s cap = (r, s', w') \<Longrightarrow> reachable L s'"
| rel_poll: "reachable L s \<Longrightarrow> tt_session_rel_poll L w s cap = (r, s', w') \<Longrightarrow> reachable L s'"
| tick: "reachable L s \<Longrightarrow> tt_session_tick L w s env now cap = (f, s', w') \<Longrightarrow> reachable L s'"
| rekey_due: "reachable L s \<Longrightarrow> reachable L (tt_session_rekey_due s)"

section \<open>Preservation\<close>

lemma frame_encode_length: "tt_frame_encode L cap ty q fl key nonce hdr pt = Some out \<Longrightarrow> length out \<le> 1372"
  by (erule tt_frame_encode_SomeD) (simp add: frame_ad_def)

lemma peek_length: "tt_frame_peek inp = Some d \<Longrightarrow> length inp \<le> 1372"
  by (simp add: tt_frame_peek_def split: if_splits)

lemma inv_init: "session_inv (tt_session_init \<lparr>s_lossy := l\<rparr>)"
  by (simp add: session_inv_def tt_session_init_def reliable_zero_def rekey_zero_def ratchet_zero_def)

lemma inv_preserve: "session_inv s \<Longrightarrow> session_inv (reestablish_preserve s)"
  by (simp add: session_inv_def reestablish_preserve_def tt_session_clear_def tt_session_init_def
      rekey_zero_def ratchet_zero_def)

lemma inv_rekey: "session_inv s \<Longrightarrow> k_carrier k = k_carrier (s_rekey s) \<Longrightarrow> session_inv (s \<lparr>s_rekey := k\<rparr>)"
  by (simp add: session_inv_def)

lemma inv_establish:
  assumes "session_inv s"
  shows "session_inv ((fst (establish L w s f1 f2 f3 ss a b i))
      \<lparr>s_i_am_initiator := x, s_active := True, s_reply_due := y, s_init_pending := False\<rparr>)"
    "session_inv ((fst (establish L w s f1 f2 f3 ss a b i))
      \<lparr>s_init_pending := False, s_i_am_initiator := x, s_active := True\<rparr>)"
  using assms by (simp_all add: session_inv_def establish_def Let_def split_beta ratchet_reset_def ratchet_zero_def)

lemma inv_start: "session_inv s \<Longrightarrow> session_inv (fst (snd (tt_session_start L w s env now cap)))"
  using inv_preserve [of s]
  by (simp add: session_inv_def tt_session_start_def Let_def split_beta split: option.split)

lemma inv_reply: "session_inv s \<Longrightarrow> session_inv (fst (snd (tt_session_reply L w s env cap)))"
  by (simp add: session_inv_def tt_session_reply_def Let_def frame_encode_length split: option.split)

lemma inv_tick: "session_inv s \<Longrightarrow> session_inv (fst (snd (tt_session_tick L w s env now cap)))"
  by (auto simp: session_inv_def tt_session_tick_def Let_def split_beta split: option.split)

lemma inv_accept: "session_inv s \<Longrightarrow> session_inv (fst (snd (snd (accept_init L w s env pk d inp))))"
proof -
  assume s: "session_inv s"
  have t: "session_inv (s \<lparr>s_init_seal := a, s_eph_b1_pk := b, s_eph_b1_sk := c, s_eph_b3_pk := e,
      s_eph_b3_sk := g, s_kem_ct := h\<rparr>)" for a b c e g h
    using s by (simp add: session_inv_def)
  show ?thesis
    by (simp add: accept_init_def s t inv_establish(1) split_beta Let_def split: option.split)
qed

lemma inv_feed_init: "session_inv s \<Longrightarrow> session_inv (fst (snd (snd (feed_init L w s env d inp))))"
  by (simp add: feed_init_def inv_accept inv_preserve split: option.split)

lemma inv_feed_reply: "session_inv s \<Longrightarrow> session_inv (fst (snd (snd (feed_reply L w s env d inp))))"
  by (simp add: feed_reply_def inv_establish(2) split_beta split: option.split)

lemma inv_rel: "session_inv s \<Longrightarrow> sent_inv (rel_sent r) \<Longrightarrow> session_inv (s \<lparr>s_rel := r\<rparr>)"
  by (simp add: session_inv_def)

lemma inv_recv: "session_inv s \<Longrightarrow> length (r_skipped r) \<le> 96 \<Longrightarrow> session_inv (s \<lparr>s_recv := r\<rparr>)"
  by (simp add: session_inv_def)

lemma inv_sentD: "session_inv s \<Longrightarrow> sent_inv (rel_sent (s_rel s))"
  by (simp add: session_inv_def)

lemma inv_feed_control: "session_inv s \<Longrightarrow> session_inv (fst (snd (snd (feed_control L w s d inp))))"
  by (simp add: feed_control_def Let_def inv_rel inv_sentD rel_sent_ack_spec(1) split_beta split: option.split)

lemma inv_note: "session_inv s \<Longrightarrow> session_inv (note_ack s)" "session_inv s \<Longrightarrow> session_inv (note_desync L s)"
  by (simp_all add: note_ack_def note_desync_def inv_rel inv_sentD)

lemma inv_apply_hdr: "session_inv s \<Longrightarrow> session_inv (fst (apply_hdr L w s d))"
  by (simp add: apply_hdr_def apply_rekey_def apply_kempub_def Let_def split_beta session_inv_def
      ratchet_fold_def split: option.split)

lemma data_key_bound:
  assumes "length (r_skipped r) \<le> 96" "data_key L r q = Inr (key, r', ring)"
  shows "length (r_skipped (if ring then r' else recv_commit L r' q)) \<le> 96"
    "length (r_skipped (if ring then skipped_add r' (q, key) else r')) \<le> 96"
proof -
  have l: "length (r_skipped r') \<le> 96"
    using assms take_first_Some [of q "r_skipped r" key]
    by (fastforce simp: data_key_def skipped_take_def split: if_splits option.splits)
  then show "length (r_skipped (if ring then r' else recv_commit L r' q)) \<le> 96"
    "length (r_skipped (if ring then skipped_add r' (q, key) else r')) \<le> 96"
    using recv_commit_bounded [of r'] skipped.inv_add [of r'] by simp_all
qed

lemma inv_feed_data: "session_inv s \<Longrightarrow> session_inv (fst (snd (snd (feed_data L w s d inp pc))))"
proof (cases "data_key L (s_recv s) (fd_seq d)")
  case (Inl e)
  moreover assume "session_inv s"
  ultimately show ?thesis by (simp add: feed_data_def)
next
  case (Inr x)
  assume s: "session_inv s"
  then have l: "length (r_skipped (s_recv s)) \<le> 96" by (simp add: session_inv_def)
  obtain key r' ring where x: "x = (key, r', ring)" by (cases x)
  have k: "data_key L (s_recv s) (fd_seq d) = Inr (key, r', ring)" using Inr x by simp
  show ?thesis
  proof (cases "tt_frame_decode L inp key pc")
    case None
    have "session_inv (note_desync L (s \<lparr>s_recv := if ring then skipped_add r' (fd_seq d, key) else r'\<rparr>))"
      using inv_note(2) inv_recv [OF s data_key_bound(2) [OF l k]] by blast
    then show ?thesis using s by (cases ring) (simp_all add: feed_data_def k None Let_def)
  next
    case (Some dp)
    obtain d' pt where dp: "dp = (d', pt)" by (cases dp)
    have q: "length (r_skipped (if ring then r' else recv_commit L r' q)) \<le> 96" for q
      using data_key_bound(1) [OF l k] recv_commit_bounded [of r' L q] data_key_bound(2) [OF l k]
      by (cases ring) (simp_all add: k)
    have "session_inv (fst (apply_hdr L w (note_ack (s \<lparr>s_recv := if ring then r' else recv_commit L r' (fd_seq d')\<rparr>)) d'))"
      using inv_apply_hdr [OF inv_note(1) [OF inv_recv [OF s q]]] .
    then show ?thesis using s by (cases ring) (simp_all add: feed_data_def k Some dp Let_def split_beta)
  qed
qed

lemma inv_feed: "session_inv s \<Longrightarrow> session_inv (fst (snd (snd (tt_session_feed L w s env inp pc))))"
proof (cases "tt_frame_peek inp")
  case None
  moreover assume "session_inv s"
  ultimately show ?thesis by (simp add: tt_session_feed_def)
next
  case (Some d)
  assume s: "session_inv s"
  have l: "session_inv (s \<lparr>s_last_in := inp\<rparr>)" using s peek_length [OF Some] by (simp add: session_inv_def)
  show ?thesis
    using s l by (simp add: tt_session_feed_def Some Let_def inv_feed_init inv_feed_reply inv_feed_control inv_feed_data)
qed

text \<open>Texts the ring can take: a buffer within the limit, or a live slot of the ring.\<close>

definition text_ok :: "text_src \<Rightarrow> bool" where
  "text_ok t \<longleftrightarrow> (case t of TextBuf x \<Rightarrow> length x \<le> 1319 | TextSlot i n \<Rightarrow> i < 32 \<and> n \<le> 1319)"

lemma text_ok_len:
  assumes "text_ok t" "sent_inv b"
  shows "text_len t \<le> 1319" "length (text_bytes (b_m b) t) = text_len t"
proof -
  have "length (m_data (b_m b ! i)) = 1319" if "i < 32" for i
    using assms(2) that nth_mem [of i "b_m b"] by (force simp: sent_inv_def msg_ok_def)
  then show "text_len t \<le> 1319" "length (text_bytes (b_m b) t) = text_len t"
    using assms(1) by (auto simp: text_ok_def text_len_def text_bytes_def split: text_src.splits)
qed

lemma inv_commit_send:
  assumes "session_inv s" "text_ok t"
  shows "session_inv (commit_send L s q t fo n f)"
proof -
  have b: "sent_inv (rel_sent (s_rel s))" by (rule inv_sentD [OF assms(1)])
  have "sent_inv (rel_sent_add (rel_sent (s_rel s)) g q t)" for g
    using text_ok_len [OF assms(2) evict_inv(1) [OF b]] by (intro rel_sent_add_slots(1) [OF b]) auto
  then have "session_inv (if s_lossy s then s
      else s \<lparr>s_rel := (s_rel s) \<lparr>rel_sent := rel_sent_add (rel_sent (s_rel s)) (rel_gen L s) q t\<rparr>\<rparr>)" (is "session_inv ?s1")
    using assms(1) by (simp add: inv_rel)
  then show ?thesis
    unfolding commit_send_def Let_def
    by (cases fo) (simp_all add: session_inv_def ratchet_fold_def split_beta Let_def)
qed

lemma select_header_carrier:
  "k_carrier (fst (snd (snd (snd (select_header L w k))))) = k_carrier k"
  by (simp add: select_header_def Let_def split_beta split: option.split)

lemma inv_emit:
  assumes "session_inv s" "text_ok t"
  shows "session_inv (fst (snd (emit_frame L w s t cap c)))"
proof (cases "tt_session_carrier_pending s")
  case True
  then show ?thesis using assms(1) by (simp add: emit_frame_parked)
next
  case False
  obtain hdr hf fo k1 w1 where ch: "chosen_header L w s c = (hdr, hf, fo, k1, w1)" by (metis prod.exhaust)
  have "k_carrier k1 = k_carrier (s_rekey s)"
    using ch select_header_carrier [of L w "auto_rekey s"] by (auto simp: chosen_header_def split: if_splits)
  then have "session_inv (s \<lparr>s_rekey := k1, s_send := (s_send s) \<lparr>r_chain := x, r_seq := y\<rparr>\<rparr>)" for x y
    using assms(1) by (simp add: session_inv_def)
  then show ?thesis
    by (simp add: emit_frame_eq [OF False ch] Let_def inv_commit_send assms(2) split: option.split)
qed

lemma inv_send: "session_inv s \<Longrightarrow> session_inv (fst (snd (tt_session_send L w s t cap)))"
  using inv_emit [of s "TextBuf t" L w cap False]
  by (auto simp: tt_session_send_def text_ok_def session_inv_def)

lemma inv_send_lossy: "session_inv s \<Longrightarrow> session_inv (fst (snd (tt_session_send_lossy L w s t cap)))"
  using inv_emit [of s "TextBuf t" L w cap False]
  by (simp add: tt_session_send_lossy_def text_ok_def)

lemma inv_carrier: "session_inv s \<Longrightarrow> session_inv (fst (snd (tt_session_carrier L w s cap)))"
  using inv_emit [of s "TextBuf []" L w cap True] by (simp add: tt_session_carrier_def text_ok_def)

lemma emit_pending: "s_pending (fst (snd (emit_frame L w s t cap c))) = s_pending s"
  by (cases "tt_session_carrier_pending s"; cases "chosen_header L w s c")
     (simp_all add: emit_frame_parked emit_frame_eq Let_def commit_send_fields split: option.split)

lemma inv_flush: "session_inv s \<Longrightarrow> session_inv (fst (snd (tt_session_flush L w s cap)))"
proof (cases "s_pending s")
  case Nil
  moreover assume "session_inv s"
  ultimately show ?thesis by (simp add: tt_session_flush_def)
next
  case (Cons p ps)
  assume s: "session_inv s"
  then have "text_ok (TextBuf p)" using Cons by (simp add: session_inv_def text_ok_def)
  note e = inv_emit [OF s this, of L w cap False]
  have pd: "s_pending (fst (snd (emit_frame L w s (TextBuf p) cap False))) = p # ps" by (simp add: emit_pending Cons)
  obtain r s1 w1 where em: "emit_frame L w s (TextBuf p) cap False = (r, s1, w1)" by (metis prod.exhaust)
  have "session_inv s1" "s_pending s1 = p # ps" using e pd by (simp_all add: em)
  moreover from this have "session_inv (s1 \<lparr>s_pending := ps\<rparr>)" by (simp add: session_inv_def)
  ultimately show ?thesis using s by (cases r) (simp_all add: tt_session_flush_def Cons em)
qed

lemma slot_text_ok: "sent_inv b \<Longrightarrow> text_ok (TextSlot (i mod 32) (m_len (b_m b ! (i mod 32))))"
  using nth_mem [of "i mod 32" "b_m b"] by (force simp: sent_inv_def msg_ok_def text_ok_def)

lemma inv_resend_scan: "session_inv s \<Longrightarrow> session_inv (fst (snd (resend_scan L w n r s cap)))"
proof (induction n arbitrary: w r s)
  case 0
  then show ?case by (simp add: inv_rel inv_sentD)
next
  case (Suc n)
  let ?b = "rel_sent (s_rel s)"
  let ?i = "(b_head ?b + r) mod 32"
  let ?m = "b_m ?b ! ?i"
  obtain x s1 w1 where em: "emit_frame L w s (TextSlot ?i (m_len ?m)) cap False = (x, s1, w1)"
    by (metis prod.exhaust)
  have s1: "session_inv s1"
    using inv_emit [OF Suc.prems slot_text_ok [OF inv_sentD [OF Suc.prems], of "b_head ?b + r"], of L w cap False] em
    by (metis fst_conv snd_conv)
  then have "session_inv (s1 \<lparr>s_rel := (s_rel s1) \<lparr>rel_sent := rel_sent_remove (rel_sent (s_rel s1)) g q\<rparr>\<rparr>)" for g q
    by (simp add: inv_rel inv_sentD rel_sent_remove_spec(1))
  then show ?case
    using Suc s1 by (simp add: Let_def em inv_rel inv_sentD split: sum.split)
qed

lemma inv_rel_poll: "session_inv s \<Longrightarrow> session_inv (fst (snd (tt_session_rel_poll L w s cap)))"
  by (simp add: tt_session_rel_poll_def Let_def inv_rel inv_sentD inv_resend_scan del: resend_scan.simps)

text \<open>C19: every reachable session is well-formed.  Whatever sequence of operations, arguments, received
  bytes and random values brought a session about, its sent ring is well-formed, at most 96
  message keys are stored (none on the sending side), at most four texts wait and each is
  non-empty and fits one frame, the parked carrier, the cached REPLY and the last frame fit one
  Tox message, and no active session waits for a REPLY.\<close>

theorem reachable_session_inv: "reachable L s \<Longrightarrow> session_inv s"
proof (induction rule: reachable.induct)
  case (init l)
  show ?case by (rule inv_init)
next
  case (start s w env now cap r s' w')
  show ?case using inv_start [OF start.IH, of L w env now cap] start.hyps(2) by simp
next
  case (reply s w env cap r s' w')
  show ?case using inv_reply [OF reply.IH, of L w env cap] reply.hyps(2) by simp
next
  case (feed s w env inp pc r h s' w')
  show ?case using inv_feed [OF feed.IH, of L w env inp pc] feed.hyps(2) by simp
next
  case (send s w t cap r s' w')
  show ?case using inv_send [OF send.IH, of L w t cap] send.hyps(2) by simp
next
  case (send_lossy s w t cap r s' w')
  show ?case using inv_send_lossy [OF send_lossy.IH, of L w t cap] send_lossy.hyps(2) by simp
next
  case (carrier s w cap r s' w')
  show ?case using inv_carrier [OF carrier.IH, of L w cap] carrier.hyps(2) by simp
next
  case (carrier_done s)
  then show ?case by (simp add: session_inv_def tt_session_carrier_done_def)
next
  case (flush s w cap r s' w')
  show ?case using inv_flush [OF flush.IH, of L w cap] flush.hyps(2) by simp
next
  case (rel_poll s w cap r s' w')
  show ?case using inv_rel_poll [OF rel_poll.IH, of L w cap] rel_poll.hyps(2) by simp
next
  case (tick s w env now cap f s' w')
  show ?case using inv_tick [OF tick.IH, of L w env now cap] tick.hyps(2) by simp
next
  case (rekey_due s)
  then show ?case by (simp add: session_inv_def tt_session_rekey_due_def)
qed

theorem reachable_session_inv_witness:
  "session_inv (tt_session_carrier_done (tt_session_rekey_due (tt_session_init \<lparr>s_lossy := True\<rparr>)))"
  by (rule reachable_session_inv [of "toy True"]) (intro reachable.carrier_done reachable.rekey_due reachable.init)

section \<open>Stash and timer\<close>

text \<open>Texts typed before the handshake wait in order.  While a session is not active, up to four
  non-empty texts are stashed in the order given and every further one is refused as busy with
  the session unchanged; once active, a flush emits the oldest one and keeps the others, and it
  keeps all of them when the emission fails.\<close>

theorem stash_is_fifo:
  "\<not> s_active s \<Longrightarrow> t \<noteq> [] \<Longrightarrow> length t \<le> TT_FRAME_DATA_MAX \<Longrightarrow>
     tt_session_send L w s t cap =
       (if length (s_pending s) < TT_SESSION_PENDING_MAX
        then (Inr [], s \<lparr>s_pending := s_pending s @ [t]\<rparr>, w) else (Inl TT_E2EE_BUSY, s, w))
   \<and> (\<forall>x f s' w'. s_active x \<longrightarrow> s_pending x = t # ps \<longrightarrow> tt_session_flush L w x cap = (Inr f, s', w') \<longrightarrow> f \<noteq> [] \<longrightarrow>
        s_pending s' = ps \<and> (\<exists>s1. emit_frame L w x (TextBuf t) cap False = (Inr f, s1, w')))
   \<and> (\<forall>x e s' w'. s_active x \<longrightarrow> tt_session_flush L w x cap = (Inl e, s', w') \<longrightarrow> s_pending s' = s_pending x)"
proof (intro conjI allI impI)
  assume "\<not> s_active s" "t \<noteq> []" "length t \<le> 1319"
  then show "tt_session_send L w s t cap =
       (if length (s_pending s) < 4 then (Inr [], s \<lparr>s_pending := s_pending s @ [t]\<rparr>, w) else (Inl TT_E2EE_BUSY, s, w))"
    by (simp add: tt_session_send_def)
next
  fix x f s' w'
  assume x: "s_active x" "s_pending x = t # ps" "tt_session_flush L w x cap = (Inr f, s', w')" "f \<noteq> []"
  obtain r s1 w1 where em: "emit_frame L w x (TextBuf t) cap False = (r, s1, w1)" by (metis prod.exhaust)
  then have "r = Inr f \<and> s' = s1 \<lparr>s_pending := ps\<rparr> \<and> w1 = w'"
    using x by (cases r) (auto simp: tt_session_flush_def split: if_splits)
  then show "s_pending s' = ps" "\<exists>s1. emit_frame L w x (TextBuf t) cap False = (Inr f, s1, w')"
    using em by simp_all
next
  fix x e s' w'
  assume x: "s_active x" "tt_session_flush L w x cap = (Inl e, s', w')"
  then obtain p ps where p: "s_pending x = p # ps" by (cases "s_pending x") (simp_all add: tt_session_flush_def)
  obtain r s1 w1 where em: "emit_frame L w x (TextBuf p) cap False = (r, s1, w1)" by (metis prod.exhaust)
  have "s' = s1" using x p em by (cases r) (auto simp: tt_session_flush_def split: if_splits)
  then show "s_pending s' = s_pending x" using emit_pending [of L w x "TextBuf p" cap False] em by simp
qed

theorem stash_is_fifo_witness:
  "tt_session_send (toy True) 0 tt_session_init [1] 1372 = (Inr [], tt_session_init \<lparr>s_pending := [[1]]\<rparr>, 0)"
  using stash_is_fifo [of tt_session_init "[1]" "toy True" 0 1372] by (simp add: tt_session_init_def)

end
