(* ===== verification/OfflineQueue.thy ===== *)
theory OfflineQueue
  imports Sidecar
begin

text \<open>
  The offline message queue, \<^verbatim>\<open>src/src/offline_queue.c\<close>: per friend a heap ring of 64
  lines, allocated on first use, and its sidecar file.  A line is a C string: its bytes without
  the terminator, cut at 1372 bytes by \<^verbatim>\<open>snprintf\<close>.
\<close>

abbreviation (input) "TT_OQ_MAX_PER_FRIEND \<equiv> (64 :: nat)"
abbreviation (input) "TOX_MAX_MESSAGE_LENGTH \<equiv> (1372 :: nat)"

record TTOqFriend =
  oq_msgs :: "bytes list option"
  oq_head :: nat
  oq_count :: nat

type_synonym TTOfflineQueue = "TTOqFriend list"

definition oq_empty :: TTOfflineQueue where
  "oq_empty = replicate 256 \<lparr>oq_msgs = None, oq_head = 0, oq_count = 0\<rparr>"

text \<open>The body of \<^verbatim>\<open>tt_oq_add\<close> on one friend with its ring allocated.\<close>

definition oq_push :: "TTOqFriend \<Rightarrow> bytes \<Rightarrow> TTOqFriend" where
  "oq_push fr txt =
     (let m = (case oq_msgs fr of None \<Rightarrow> replicate TT_OQ_MAX_PER_FRIEND [] | Some m \<Rightarrow> m);
          (head, count) = (if oq_count fr = TT_OQ_MAX_PER_FRIEND
                           then ((oq_head fr + 1) mod TT_OQ_MAX_PER_FRIEND, oq_count fr - 1)
                           else (oq_head fr, oq_count fr))
      in \<lparr>oq_msgs = Some (m[(head + count) mod TT_OQ_MAX_PER_FRIEND := take TOX_MAX_MESSAGE_LENGTH txt]),
          oq_head = head, oq_count = count + 1\<rparr>)"

definition tt_oq_add :: "bool \<Rightarrow> TTOfflineQueue \<Rightarrow> nat \<Rightarrow> bytes \<Rightarrow> nat \<times> TTOfflineQueue" where
  "tt_oq_add alloc q fn txt =
     (if fn \<ge> 256 \<or> txt = [] then (0, q)
      else if oq_msgs (q ! fn) = None \<and> \<not> alloc then (0, q)
      else let fr = oq_push (q ! fn) txt in (oq_count fr, q[fn := fr]))"

fun take_loop :: "nat \<Rightarrow> bytes list \<Rightarrow> nat \<Rightarrow> bytes list" where
  "take_loop 0 m head = []"
| "take_loop (Suc count) m head = m ! head # take_loop count m ((head + 1) mod TT_OQ_MAX_PER_FRIEND)"

definition tt_oq_take_all :: "TTOfflineQueue \<Rightarrow> nat \<Rightarrow> bytes list \<times> TTOfflineQueue" where
  "tt_oq_take_all q fn =
     (if fn \<ge> 256 then ([], q)
      else case oq_msgs (q ! fn) of
        None \<Rightarrow> ([], q)
      | Some m \<Rightarrow>
          (take_loop (oq_count (q ! fn)) m (oq_head (q ! fn)),
           q[fn := (q ! fn) \<lparr>oq_head := (oq_head (q ! fn) + oq_count (q ! fn)) mod TT_OQ_MAX_PER_FRIEND, oq_count := 0\<rparr>]))"

definition tt_oq_count :: "TTOfflineQueue \<Rightarrow> nat \<Rightarrow> nat" where
  "tt_oq_count q fn = (if fn \<ge> 256 then 0 else oq_count (q ! fn))"

section \<open>The sidecar\<close>

definition oq_magic :: bytes where
  "oq_magic = ascii ''TTOQ1''"

definition oq_path :: "string option \<Rightarrow> string" where
  "oq_path profile = (case profile of None \<Rightarrow> ''TkTox.tox'' | Some p \<Rightarrow> p) @ ''.oq''"

definition oq_entry :: "nat \<times> bytes \<Rightarrow> bytes" where
  "oq_entry e = print_u (fst e) @ [32] @ print_u (length (snd e)) @ [10] @ snd e"

definition oq_lines :: "TTOfflineQueue \<Rightarrow> (nat \<times> bytes) list" where
  "oq_lines q = concat (map (\<lambda>fn. case oq_msgs (q ! fn) of
        None \<Rightarrow> []
      | Some m \<Rightarrow> filter (\<lambda>e. snd e \<noteq> [])
          (map (\<lambda>i. (fn, m ! ((oq_head (q ! fn) + i) mod TT_OQ_MAX_PER_FRIEND))) [0..<oq_count (q ! fn)])) [0..<256])"

definition oq_content :: "(nat \<times> bytes) list \<Rightarrow> bytes" where
  "oq_content es = oq_magic @ concat (map oq_entry es)"

definition tt_oq_save ::
  "toxes \<Rightarrow> (nat \<Rightarrow> bool) \<Rightarrow> TTOfflineQueue \<Rightarrow> string option \<Rightarrow> bytes option \<Rightarrow> disk \<Rightarrow> disk" where
  "tt_oq_save T io q profile key d =
     snd (sidecar_write T io (4 * 1024 * 1024) key (oq_path profile) (oq_content (oq_lines q)) d)"

function oq_parse :: "bytes \<Rightarrow> TTOfflineQueue \<Rightarrow> TTOfflineQueue" where
  "oq_parse p q =
     (if length p < 5 \<or> take 5 p \<noteq> oq_magic then q
      else case scan_uu 32 32 (drop 5 p) of
        None \<Rightarrow> q
      | Some (fn, len, r) \<Rightarrow>
          if fn \<ge> 256 \<or> len = 0 \<or> len > TOX_MAX_MESSAGE_LENGTH then q
          else if r = [] \<or> hd r \<noteq> 10 \<or> length (tl r) < len then q
          else oq_parse (drop len (tl r)) (snd (tt_oq_add True q fn (c_str (take len (tl r))))))"
  by pat_completeness auto
termination
proof (relation "measure (\<lambda>(p, q). length p)")
  show "wf (measure (\<lambda>(p, q). length p))" by simp
next
  fix p q x fn y len r
  assume a: "\<not> (length p < 5 \<or> take 5 p \<noteq> oq_magic)" "scan_uu 32 32 (drop 5 p) = Some x"
    "(fn, y) = x" "(len, r) = y"
  have "length r \<le> length (drop 5 p)" using a length_scan_uu [of 32 32 "drop 5 p" fn len r] by simp
  moreover have "length (drop len (tl r)) \<le> length r" by simp
  moreover have "5 \<le> length p" using a(1) by simp
  ultimately have "length (drop len (tl r)) < length p" unfolding length_drop by linarith
  then show "((drop len (tl r), snd (tt_oq_add True q fn (c_str (take len (tl r))))), p, q)
      \<in> measure (\<lambda>(p, q). length p)"
    by simp
qed

declare oq_parse.simps [simp del]

definition tt_oq_load ::
  "toxes \<Rightarrow> (nat \<Rightarrow> bool) \<Rightarrow> TTOfflineQueue \<Rightarrow> string option \<Rightarrow> bytes option \<Rightarrow> disk \<Rightarrow> TTOfflineQueue" where
  "tt_oq_load T io q profile key d =
     (case sidecar_read T io (4 * 1024 * 1024) (oq_path profile) d of
        None \<Rightarrow> q
      | Some buf \<Rightarrow> (case blob_decrypt T key buf of None \<Rightarrow> q | Some pt \<Rightarrow> oq_parse pt q))"

section \<open>The ring of one friend\<close>

definition friend_inv :: "TTOqFriend \<Rightarrow> bool" where
  "friend_inv fr \<longleftrightarrow> (case oq_msgs fr of
       None \<Rightarrow> oq_head fr = 0 \<and> oq_count fr = 0
     | Some m \<Rightarrow> length m = 64 \<and> oq_head fr < 64 \<and> oq_count fr \<le> 64)"

definition friend_lines :: "TTOqFriend \<Rightarrow> bytes list" where
  "friend_lines fr = (case oq_msgs fr of None \<Rightarrow> [] | Some m \<Rightarrow> ring_entries m (oq_head fr) (oq_count fr))"

lemma oq_push_spec:
  assumes "friend_inv fr" "length t \<le> 1372"
  shows "friend_inv (oq_push fr t)"
    "friend_lines (oq_push fr t) = (if oq_count fr = 64 then tl (friend_lines fr) else friend_lines fr) @ [t]"
    "oq_count (oq_push fr t) = (if oq_count fr = 64 then 64 else Suc (oq_count fr))"
proof -
  let ?m = "case oq_msgs fr of None \<Rightarrow> replicate 64 [] | Some m \<Rightarrow> m"
  have m: "length ?m = 64" "oq_head fr < 64" "oq_count fr \<le> 64"
    "friend_lines fr = ring_entries ?m (oq_head fr) (oq_count fr)"
    using assms(1) by (auto simp: friend_inv_def friend_lines_def split: option.splits)
  show "friend_inv (oq_push fr t)"
    "oq_count (oq_push fr t) = (if oq_count fr = 64 then 64 else Suc (oq_count fr))"
    using m(1-3) by (auto simp: oq_push_def friend_inv_def Let_def)
  show "friend_lines (oq_push fr t) = (if oq_count fr = 64 then tl (friend_lines fr) else friend_lines fr) @ [t]"
  proof (cases "oq_count fr = 64")
    case True
    let ?h = "Suc (oq_head fr) mod 64"
    have "friend_lines (oq_push fr t) = ring_entries (?m[(?h + 63) mod 64 := t]) ?h 64"
      using True assms(2) by (simp add: oq_push_def friend_lines_def Let_def)
    also have "\<dots> = ring_entries ?m ?h 63 @ [t]"
      using ring_entries_push [of 63 ?m ?h t] m(1) by simp
    also have "ring_entries ?m ?h 63 = tl (friend_lines fr)"
      using ring_entries_drop [of 64 ?m "oq_head fr"] m(1,4) True by simp
    finally show ?thesis using True by simp
  next
    case False
    then show ?thesis
      using ring_entries_push [of "oq_count fr" ?m "oq_head fr" t] m assms(2)
      by (simp add: oq_push_def friend_lines_def Let_def)
  qed
qed

lemma length_friend_lines: "friend_inv fr \<Longrightarrow> length (friend_lines fr) = oq_count fr"
  by (auto simp: friend_lines_def friend_inv_def split: option.splits)

interpretation oq: drop_oldest TT_OQ_MAX_PER_FRIEND friend_inv friend_lines "\<lambda>t. length t \<le> 1372" oq_push
proof unfold_locales
  fix fr t assume "friend_inv fr" "length (t :: bytes) \<le> 1372"
  then show "friend_inv (oq_push fr t)"
    "friend_lines (oq_push fr t) = (if length (friend_lines fr) = 64 then tl (friend_lines fr) else friend_lines fr) @ [t]"
    using oq_push_spec [of fr t] length_friend_lines [of fr] by auto
qed (auto simp: length_friend_lines friend_inv_def split: option.splits)

lemma take_loop_ring:
  "head < 64 \<Longrightarrow> length m = 64 \<Longrightarrow> take_loop n m head = ring_entries m head n"
proof (induction n arbitrary: head)
  case (Suc n)
  have "ring_entries m head (Suc n) \<noteq> []" by (metis length_ring_entries list.size(3) nat.distinct(1))
  moreover have "hd (ring_entries m head (Suc n)) = m ! head"
    using Suc.prems by (simp add: ring_entries_def hd_map del: upt_Suc)
  moreover have "tl (ring_entries m head (Suc n)) = ring_entries m (Suc head mod 64) n"
    using ring_entries_drop [of "Suc n" m head] Suc.prems(2) by simp
  ultimately show ?case using Suc by (metis take_loop.simps(2) list.collapse mod_less_divisor zero_less_numeral Suc_eq_plus1)
qed simp

definition queue_inv :: "TTOfflineQueue \<Rightarrow> bool" where
  "queue_inv q \<longleftrightarrow> length q = 256 \<and> (\<forall>fr \<in> set q. friend_inv fr)"

lemma queue_inv_empty: "queue_inv oq_empty"
  by (auto simp: queue_inv_def oq_empty_def friend_inv_def)

lemma tt_oq_add_eq:
  "fn < 256 \<Longrightarrow> t \<noteq> [] \<Longrightarrow> snd (tt_oq_add True q fn t) = q[fn := oq_push (q ! fn) t]"
  by (simp add: tt_oq_add_def Let_def)

lemma adds_one_friend:
  assumes "fn < 256" "length q = 256" "\<forall>t \<in> set ts. t \<noteq> []"
  shows "foldl (\<lambda>q t. snd (tt_oq_add True q fn t)) q ts = q[fn := foldl oq_push (q ! fn) ts]"
  using assms(2,3)
proof (induction ts arbitrary: q)
  case (Cons t ts)
  then show ?case using assms(1) by (simp add: tt_oq_add_eq)
qed simp

lemma take_all_friend:
  assumes "fn < 256" "length q = 256" "friend_inv (q ! fn)"
  shows "fst (tt_oq_take_all q fn) = friend_lines (q ! fn)"
    "tt_oq_count (snd (tt_oq_take_all q fn)) fn = 0"
    "g \<noteq> fn \<Longrightarrow> snd (tt_oq_take_all q fn) ! g = q ! g"
  using assms
  by (auto simp: tt_oq_take_all_def tt_oq_count_def friend_lines_def friend_inv_def take_loop_ring
      split: option.splits)

lemma adds_then_take:
  assumes "queue_inv q" "fn < 256" "\<forall>t \<in> set ts. t \<noteq> [] \<and> length t \<le> 1372"
  defines "q1 \<equiv> foldl (\<lambda>q t. snd (tt_oq_add True q fn t)) q ts"
  shows "fst (tt_oq_take_all q1 fn) =
      drop (length (friend_lines (q ! fn) @ ts) - 64) (friend_lines (q ! fn) @ ts)"
    and "tt_oq_count q1 fn = min 64 (tt_oq_count q fn + length ts)"
    and "tt_oq_count (snd (tt_oq_take_all q1 fn)) fn = 0"
    and "\<And>g. g \<noteq> fn \<Longrightarrow> snd (tt_oq_take_all q1 fn) ! g = q ! g"
proof -
  have q: "length q = 256" "friend_inv (q ! fn)" using assms(1,2) by (auto simp: queue_inv_def)
  have q1: "q1 = q[fn := foldl oq_push (q ! fn) ts]"
    unfolding q1_def using assms(2,3) q(1) by (intro adds_one_friend) auto
  have ok: "\<forall>t \<in> set ts. length t \<le> 1372" using assms(3) by auto
  have e: "friend_lines (q1 ! fn) = drop (length (friend_lines (q ! fn) @ ts) - 64) (friend_lines (q ! fn) @ ts)"
    using oq.entries_foldl [OF q(2) ok] q1 q(1) assms(2) by simp
  have i: "length q1 = 256" "friend_inv (q1 ! fn)"
    using oq.inv_foldl [OF q(2) ok] q1 q(1) assms(2) by simp_all
  show "fst (tt_oq_take_all q1 fn) = drop (length (friend_lines (q ! fn) @ ts) - 64) (friend_lines (q ! fn) @ ts)"
    "tt_oq_count (snd (tt_oq_take_all q1 fn)) fn = 0"
    using take_all_friend(1,2) [OF assms(2) i] e by simp_all
  show "snd (tt_oq_take_all q1 fn) ! g = q ! g" if "g \<noteq> fn" for g
    using take_all_friend(3) [OF assms(2) i that] q1 that by simp
  show "tt_oq_count q1 fn = min 64 (tt_oq_count q fn + length ts)"
    using length_friend_lines [OF i(2)] length_friend_lines [OF q(2)] e assms(2)
    by (simp add: tt_oq_count_def)
qed

text \<open>The queue hands back what was put into it.  From any well-formed queue, texts added for a friend
  and then taken out come back in the order they were added, after the lines already waiting and cut
  to the newest 64; the friend's queue is then empty and no other friend's queue changed.\<close>

theorem queued_lines_taken_in_order:
  assumes "queue_inv q" "fn < 256" "\<forall>t \<in> set ts. t \<noteq> [] \<and> length t \<le> 1372"
  shows "let q1 = foldl (\<lambda>q t. snd (tt_oq_add True q fn t)) q ts; (out, q2) = tt_oq_take_all q1 fn; l = friend_lines (q ! fn) @ ts
    in out = drop (length l - 64) l \<and>
       tt_oq_count q1 fn = min 64 (tt_oq_count q fn + length ts) \<and>
       tt_oq_count q2 fn = 0 \<and> (\<forall>g. g \<noteq> fn \<longrightarrow> q2 ! g = q ! g)"
  using adds_then_take [OF assms] by (simp add: Let_def split_beta)

theorem queued_lines_taken_in_order_witness:
  "fst (tt_oq_take_all (snd (tt_oq_add True (snd (tt_oq_add True oq_empty 3 [104])) 3 [105, 106])) 3)
     = [[104], [105, 106]]"
proof -
  have "oq_empty ! 3 = \<lparr>oq_msgs = None, oq_head = 0, oq_count = 0\<rparr>"
    by (simp add: oq_empty_def)
  then show ?thesis
    using queued_lines_taken_in_order [OF queue_inv_empty, where fn = 3 and ts = "[[104], [105, 106]]"]
    by (simp add: friend_lines_def Let_def split_beta)
qed

section \<open>The round trip through the file\<close>

definition line_ok :: "nat \<times> bytes \<Rightarrow> bool" where
  "line_ok e \<longleftrightarrow> fst e < 256 \<and> snd e \<noteq> [] \<and> length (snd e) \<le> 1372 \<and> 0 \<notin> set (snd e)"

definition first_line_only :: "(nat \<times> bytes) list \<Rightarrow> TTOfflineQueue" where
  "first_line_only es = (case es of [] \<Rightarrow> oq_empty | e # _ \<Rightarrow> snd (tt_oq_add True oq_empty (fst e) (snd e)))"

lemma oq_parse_no_magic:
  assumes "p = [] \<or> hd p \<noteq> 84"
  shows "oq_parse p q = q"
proof -
  have "hd oq_magic = 84" by (simp add: oq_magic_def ascii_def of_char_def)
  then have "take 5 p \<noteq> oq_magic \<or> length p < 5" using assms by (cases p) (auto dest: arg_cong [where f = hd])
  then show ?thesis by (subst oq_parse.simps) auto
qed

lemma oq_lines_no_magic: "concat (map oq_entry es) = [] \<or> hd (concat (map oq_entry es)) \<noteq> 84"
proof (cases es)
  case (Cons e es')
  obtain c cs where c: "print_u (fst e) = c # cs" using print_u_nonempty by (metis neq_Nil_conv)
  then have "is_digit c" using print_u_digits [of "fst e"] by simp
  then have "c \<noteq> 84" by (auto simp: is_digit_def word_le_nat_alt)
  then show ?thesis using Cons c by (simp add: oq_entry_def)
qed simp

lemma oq_parse_entry:
  assumes "line_ok e" "oq_parse r (snd (tt_oq_add True q (fst e) (snd e))) = q'"
  shows "oq_parse (oq_magic @ oq_entry e @ r) q = q'"
proof -
  let ?p = "oq_magic @ oq_entry e @ r" and ?n = "length (snd e)"
  have len: "length oq_magic = 5" by (simp add: oq_magic_def)
  have e: "fst e < 256" "snd e \<noteq> []" "?n \<le> 1372" "c_str (snd e) = snd e"
    using assms(1) by (auto simp: line_ok_def c_str_id)
  have "(10 :: byte) < 48" by simp
  then have nd: "\<not> is_digit (hd (10 # snd e @ r))" by (simp add: is_digit_def not_le)
  have s: "scan_uu 32 32 (drop 5 ?p) = Some (fst e, ?n, 10 # snd e @ r)"
    using scan_uu_print [of "fst e" 32 ?n 32 "10 # snd e @ r"] e(1,3) nd by (simp add: len oq_entry_def)
  have pre: "\<not> (length ?p < 5 \<or> take 5 ?p \<noteq> oq_magic)" by (simp add: len)
  show ?thesis
    using assms(2) e s pre by (subst oq_parse.simps) (simp add: not_le)
qed

lemma oq_parse_content: "\<forall>e \<in> set es. line_ok e \<Longrightarrow> oq_parse (oq_content es) oq_empty = first_line_only es"
proof (cases es)
  case Nil
  have "scan_uu 32 32 [] = None" by (simp add: scan_uu_def scan_u_def)
  then show ?thesis using Nil
    by (subst oq_parse.simps) (simp add: oq_content_def oq_magic_def first_line_only_def)
next
  case (Cons e es')
  moreover assume "\<forall>e \<in> set es. line_ok e"
  ultimately have "line_ok e" by simp
  moreover have "oq_parse (concat (map oq_entry es')) q = q" for q
    by (rule oq_parse_no_magic [OF oq_lines_no_magic])
  ultimately show ?thesis
    using oq_parse_entry [of e "concat (map oq_entry es')" oq_empty] Cons
    by (simp add: oq_content_def first_line_only_def)
qed

interpretation oqf: sidecar_format "\<lambda>es. \<forall>e \<in> set es. line_ok e" oq_content "\<lambda>p. oq_parse p oq_empty"
  first_line_only "4 * 1024 * 1024"
  by unfold_locales (auto simp: oq_parse_content, simp add: oq_content_def oq_magic_def ascii_def)

text \<open>What a restart keeps of the queue.  A queue that is saved (with or without a key) and loaded into
  an empty one comes back with its first line only: the loader expects the magic before every entry,
  the writer puts it once at the start of the file.\<close>

theorem restart_keeps_first_line:
  assumes "toxes_ok T" "\<And>i. io i" "\<And>i. io' i" "\<forall>e \<in> set (oq_lines q). line_ok e"
    "length (oq_content (oq_lines q)) + 80 \<le> 4 * 1024 * 1024"
    "key = None \<Longrightarrow> \<not> te_is_encrypted T (oq_content (oq_lines q))"
  shows "tt_oq_load T io' oq_empty profile key (tt_oq_save T io q profile key d) = first_line_only (oq_lines q)"
proof -
  obtain d' buf where b:
    "sidecar_write T io (4 * 1024 * 1024) key (oq_path profile) (oq_content (oq_lines q)) d = (True, d')"
    "sidecar_read T io' (4 * 1024 * 1024) (oq_path profile) d' = Some buf"
    "map_option (\<lambda>p. oq_parse p oq_empty) (blob_decrypt T key buf) = Some (first_line_only (oq_lines q))"
    using oqf.load_after_save [of T io io' "oq_lines q" key "oq_path profile" d] assms by blast
  then obtain pt where "blob_decrypt T key buf = Some pt" "oq_parse pt oq_empty = first_line_only (oq_lines q)"
    by (auto simp: map_option_eq_Some)
  then show ?thesis using b by (simp add: tt_oq_load_def tt_oq_save_def)
qed

lemma oq_lines_first_friend:
  "oq_lines (oq_empty[0 := fr]) = filter (\<lambda>e. snd e \<noteq> []) (map (Pair 0)
     (case oq_msgs fr of None \<Rightarrow> [] | Some m \<Rightarrow> map (\<lambda>i. m ! ((oq_head fr + i) mod 64)) [0..<oq_count fr]))"
proof -
  let ?q = "oq_empty[0 := fr]"
  have len: "length oq_empty = 256" by (simp add: oq_empty_def)
  then have q0: "?q ! 0 = fr" by simp
  have none: "oq_msgs (?q ! fn) = None" if "fn \<in> set [1..<256]" for fn
    using that by (simp add: oq_empty_def)
  have "[0..<256] = (0 :: nat) # [1..<256]" by (simp add: upt_conv_Cons)
  then show ?thesis
    unfolding oq_lines_def using none q0
    by (simp add: concat_eq_Nil_conv comp_def split: option.split)
qed

theorem restart_keeps_first_line_witness:
  "tt_oq_count (tt_oq_load toy_toxes (\<lambda>_. True) oq_empty (Some ''p'') (Some [])
     (tt_oq_save toy_toxes (\<lambda>_. True)
        (snd (tt_oq_add True (snd (tt_oq_add True oq_empty 0 [104])) 0 [105])) (Some ''p'') (Some []) Map.empty)) 0 = 1"
proof -
  let ?q = "snd (tt_oq_add True (snd (tt_oq_add True oq_empty 0 [104])) 0 [105])"
  have len: "length oq_empty = 256" and q0: "oq_empty ! 0 = \<lparr>oq_msgs = None, oq_head = 0, oq_count = 0\<rparr>"
    by (simp_all add: oq_empty_def)
  have "?q = oq_empty[0 := oq_push (oq_push (oq_empty ! 0) [104]) [105]]"
    using len by (simp add: tt_oq_add_eq)
  then have l: "oq_lines ?q = [(0, [104]), (0, [105])]"
    using oq_lines_first_friend [of "oq_push (oq_push (oq_empty ! 0) [104]) [105]"]
    by (simp add: q0 oq_push_def Let_def nth_list_update upt_conv_Cons)
  have "length (oq_content (oq_lines ?q)) + 80 \<le> 4 * 1024 * 1024"
    by (simp add: l oq_content_def oq_entry_def oq_magic_def print_u.simps)
  moreover have "\<forall>e \<in> set (oq_lines ?q). line_ok e" by (simp add: l line_ok_def)
  ultimately have "tt_oq_load toy_toxes (\<lambda>_. True) oq_empty (Some ''p'') (Some [])
      (tt_oq_save toy_toxes (\<lambda>_. True) ?q (Some ''p'') (Some []) Map.empty) = first_line_only (oq_lines ?q)"
    using restart_keeps_first_line [OF toy_toxes_ok, where io = "\<lambda>_. True" and io' = "\<lambda>_. True" and q = ?q
        and key = "Some []" and profile = "Some ''p''" and d = Map.empty] by blast
  note r = this [unfolded l]
  show ?thesis
    unfolding r by (simp add: first_line_only_def tt_oq_add_eq tt_oq_count_def len q0 oq_push_def Let_def)
qed

end
