(* ===== verification/Settings.thy ===== *)
theory Settings
  imports Sidecar
begin

text \<open>
  The settings sidecar \<^verbatim>\<open><profile>.tt\<close>, \<^verbatim>\<open>src/src/tox_thread.c\<close> (settings section): proxy, chat-history
  switch and the per-friend encryption policy, one line each.  Every writer rewrites the file and
  copies the lines of the other two kinds, read back with \<^verbatim>\<open>fgets\<close> into a line buffer.

  The calls that can fail are numbered: \<open>io 0\<close> opening the temporary file, \<open>io 1\<close> closing it,
  \<open>io 2\<close> the rename; opening an existing file for reading succeeds.
\<close>

section \<open>Reading lines\<close>

text \<open>\<^verbatim>\<open>fgets\<close> with a buffer of \<open>n\<close> bytes: up to \<open>n - 1\<close> bytes, at most through the next newline.\<close>

definition fgets_len :: "nat \<Rightarrow> bytes \<Rightarrow> nat" where
  "fgets_len n b = min (n - 1) (length (takeWhile (\<lambda>x. x \<noteq> 10) b) + 1)"

function fgets_all :: "nat \<Rightarrow> bytes \<Rightarrow> bytes list" where
  "fgets_all n b = (if b = [] \<or> n < 2 then [] else take (fgets_len n b) b # fgets_all n (drop (fgets_len n b) b))"
  by pat_completeness auto
termination
  by (relation "measure (\<lambda>(n, b). length b)") (auto simp: fgets_len_def)

declare fgets_all.simps [simp del]

text \<open>\<^verbatim>\<open>strncmp(line, word, strlen(word)) == 0\<close>\<close>

definition starts_with :: "string \<Rightarrow> bytes \<Rightarrow> bool" where
  "starts_with word l \<longleftrightarrow> take (length word) (c_str l) = ascii word"

text \<open>The conversions \<^verbatim>\<open>%Ns\<close> and \<^verbatim>\<open>%ld\<close> of \<^verbatim>\<open>sscanf\<close>.\<close>

definition scan_word :: "nat \<Rightarrow> bytes \<Rightarrow> (bytes \<times> bytes) option" where
  "scan_word w p =
     (let p1 = dropWhile is_space p; v = take w (takeWhile (\<lambda>x. \<not> is_space x) p1)
      in if v = [] then None else Some (v, drop (length v) p1))"

definition scan_ld :: "bytes \<Rightarrow> int option" where
  "scan_ld p =
     (let p1 = dropWhile is_space p;
          neg = (case p1 of c # _ \<Rightarrow> c = 45 | [] \<Rightarrow> False);
          p2 = (case p1 of c # r \<Rightarrow> if c = 45 \<or> c = 43 then r else p1 | [] \<Rightarrow> []);
          ds = takeWhile is_digit p2; n = int (digits_value ds)
      in if ds = [] then None
         else Some (if neg then max (- (2 ^ 63)) (- n) else min (2 ^ 63 - 1) n))"

section \<open>Loading\<close>

record TTSettings =
  set_proxy_set :: bool
  set_proxy_host :: bytes
  set_proxy_port :: int
  set_history :: bool

definition settings_zero :: TTSettings where
  "settings_zero = \<lparr>set_proxy_set = False, set_proxy_host = [], set_proxy_port = 0, set_history = False\<rparr>"

definition settings_path :: "string \<Rightarrow> string" where
  "settings_path profile = profile @ ''.tt''"

text \<open>\<^verbatim>\<open>sscanf(line, "proxy %63s %ld", host, &port) == 2\<close>\<close>

definition scan_proxy :: "bytes \<Rightarrow> (bytes \<times> int) option" where
  "scan_proxy l =
     (if \<not> starts_with ''proxy'' l then None
      else case scan_word 63 (drop 5 (c_str l)) of
        None \<Rightarrow> None
      | Some (host, r) \<Rightarrow> (case scan_ld r of None \<Rightarrow> None | Some port \<Rightarrow> Some (host, port)))"

definition settings_line :: "TTSettings \<Rightarrow> bytes \<Rightarrow> TTSettings" where
  "settings_line s l =
     (case scan_proxy l of
        Some (host, port) \<Rightarrow> s \<lparr>set_proxy_set := True, set_proxy_host := host, set_proxy_port := port\<rparr>
      | None \<Rightarrow>
          if starts_with ''history'' l then
            (case scan_word 15 (drop 7 (c_str l)) of
               Some (v, _) \<Rightarrow> s \<lparr>set_history := (v = ascii ''on'')\<rparr>
             | None \<Rightarrow> s)
          else s)"

definition tt_settings_load :: "string option \<Rightarrow> disk \<Rightarrow> TTSettings" where
  "tt_settings_load profile d =
     (case profile of None \<Rightarrow> settings_zero
      | Some p \<Rightarrow> (case d (settings_path p) of None \<Rightarrow> settings_zero
          | Some content \<Rightarrow> foldl settings_line settings_zero (fgets_all 128 content)))"

text \<open>The friend numbers of an \<^verbatim>\<open>e2ee\<close> line; \<open>strtol\<close> takes the digits at hand.\<close>

function e2ee_numbers :: "bytes \<Rightarrow> nat list" where
  "e2ee_numbers p =
     (let p1 = dropWhile (\<lambda>x. x = 32 \<or> x = 9) p in
      if p1 = [] \<or> \<not> is_digit (hd p1) then []
      else min (2 ^ 63 - 1) (digits_value (takeWhile is_digit p1)) # e2ee_numbers (dropWhile is_digit p1))"
  by pat_completeness auto
termination
proof (relation "measure length")
  fix p p1 :: bytes
  assume a: "p1 = dropWhile (\<lambda>x. x = 32 \<or> x = 9) p" "\<not> (p1 = [] \<or> \<not> is_digit (hd p1))"
  from a(2) obtain c cs where c: "p1 = c # cs" "is_digit c" by (cases p1) simp_all
  from c have "length (dropWhile is_digit p1) \<le> length cs" by (simp add: length_dropWhile_le)
  moreover have "length p1 \<le> length p" using a(1) by (simp add: length_dropWhile_le)
  ultimately show "(dropWhile is_digit p1, p) \<in> measure length" using c(1) by simp
qed simp

declare e2ee_numbers.simps [simp del]

definition e2ee_of_content :: "bytes \<Rightarrow> nat \<Rightarrow> bool" where
  "e2ee_of_content content =
     (case find (starts_with ''e2ee'') (fgets_all 512 content) of
        None \<Rightarrow> (\<lambda>_. False)
      | Some l \<Rightarrow> (\<lambda>fn. fn < 256 \<and> fn \<in> set (e2ee_numbers (drop 4 (c_str l)))))"

definition tt_settings_load_e2ee :: "string option \<Rightarrow> disk \<Rightarrow> nat \<Rightarrow> bool" where
  "tt_settings_load_e2ee profile d =
     (case profile of None \<Rightarrow> (\<lambda>_. False)
      | Some p \<Rightarrow> (case d (settings_path p) of None \<Rightarrow> (\<lambda>_. False) | Some content \<Rightarrow> e2ee_of_content content))"

section \<open>Storing\<close>

text \<open>The lines of the old file that begin with one of the words, as \<^verbatim>\<open>fputs\<close> writes them.\<close>

definition kept_lines :: "nat \<Rightarrow> string list \<Rightarrow> bytes option \<Rightarrow> bytes" where
  "kept_lines n words old =
     (case old of None \<Rightarrow> []
      | Some content \<Rightarrow> concat (map c_str (filter (\<lambda>l. list_ex (\<lambda>w. starts_with w l) words) (fgets_all n content))))"

definition settings_write :: "(nat \<Rightarrow> bool) \<Rightarrow> string option \<Rightarrow> (bytes option \<Rightarrow> bytes) \<Rightarrow> disk \<Rightarrow> bool \<times> disk" where
  "settings_write io profile mk d =
     (case profile of None \<Rightarrow> (False, d)
      | Some p \<Rightarrow>
          let path = settings_path p; tmp = path @ ''.new''; content = mk (d path) in
          if \<not> io 0 then (False, d)
          else if \<not> io 1 \<or> \<not> io 2 then (False, d(tmp := None))
          else (True, d(path \<mapsto> content, tmp := None)))"

definition print_ld :: "int \<Rightarrow> bytes" where
  "print_ld n = (if n < 0 then [45] else []) @ print_u (nat \<bar>n\<bar>)"

definition proxy_line :: "(bytes \<times> int) option \<Rightarrow> bytes" where
  "proxy_line px =
     (case px of
        Some (host, port) \<Rightarrow>
          if host = [] then ascii ''noproxy'' @ [10]
          else ascii ''proxy '' @ host @ [32] @ print_ld port @ [10]
      | None \<Rightarrow> ascii ''noproxy'' @ [10])"

definition tt_settings_store_proxy :: "(nat \<Rightarrow> bool) \<Rightarrow> string option \<Rightarrow> (bytes \<times> int) option \<Rightarrow> disk \<Rightarrow> bool \<times> disk" where
  "tt_settings_store_proxy io profile px =
     settings_write io profile (\<lambda>old. proxy_line px @ kept_lines 512 [''history'', ''e2ee''] old)"

definition history_line :: "bool \<Rightarrow> bytes" where
  "history_line on = ascii ''history '' @ ascii (if on then ''on'' else ''off'') @ [10]"

definition tt_settings_store_history :: "(nat \<Rightarrow> bool) \<Rightarrow> string option \<Rightarrow> bool \<Rightarrow> disk \<Rightarrow> bool \<times> disk" where
  "tt_settings_store_history io profile on =
     settings_write io profile (\<lambda>old. kept_lines 512 [''proxy'', ''noproxy'', ''e2ee''] old @ history_line on)"

definition e2ee_line :: "nat list \<Rightarrow> bytes" where
  "e2ee_line fns = (if fns = [] then [] else ascii ''e2ee'' @ concat (map (\<lambda>fn. 32 # print_u fn) fns) @ [10])"

definition required_fns :: "(nat \<Rightarrow> bool) \<Rightarrow> nat list" where
  "required_fns required = filter required [0..<256]"

definition tt_settings_store_e2ee :: "(nat \<Rightarrow> bool) \<Rightarrow> (nat \<Rightarrow> bool) \<Rightarrow> string option \<Rightarrow> disk \<Rightarrow> bool \<times> disk" where
  "tt_settings_store_e2ee io required profile =
     settings_write io profile (\<lambda>old. kept_lines 128 [''proxy'', ''noproxy'', ''history''] old @ e2ee_line (required_fns required))"

section \<open>The file as a list of settings\<close>

datatype setting = SProxy bytes int | SNoProxy | SHistory bool | SE2ee "nat list"

fun render :: "setting \<Rightarrow> bytes" where
  "render (SProxy host port) = proxy_line (Some (host, port))"
| "render SNoProxy = proxy_line None"
| "render (SHistory on) = history_line on"
| "render (SE2ee fns) = e2ee_line fns"

fun setting_ok :: "setting \<Rightarrow> bool" where
  "setting_ok (SProxy host port) \<longleftrightarrow>
     host \<noteq> [] \<and> length host \<le> 63 \<and> (\<forall>x \<in> set host. x \<noteq> 0 \<and> \<not> is_space x) \<and> 0 \<le> port \<and> port < 2 ^ 63"
| "setting_ok SNoProxy \<longleftrightarrow> True"
| "setting_ok (SHistory on) \<longleftrightarrow> True"
| "setting_ok (SE2ee fns) \<longleftrightarrow> fns \<noteq> [] \<and> (\<forall>fn \<in> set fns. fn < 256) \<and> length (e2ee_line fns) < 512"

fun setting_kind :: "setting \<Rightarrow> nat" where
  "setting_kind (SProxy _ _) = 0"
| "setting_kind SNoProxy = 0"
| "setting_kind (SHistory _) = 1"
| "setting_kind (SE2ee _) = 2"

definition settings_file :: "setting list \<Rightarrow> bytes" where
  "settings_file ss = concat (map render ss)"

definition settings_ok :: "setting list \<Rightarrow> bool" where
  "settings_ok ss \<longleftrightarrow> (\<forall>s \<in> set ss. setting_ok s) \<and> distinct (map setting_kind ss)"

lemma fgets_line:
  assumes "10 \<notin> set body" "2 \<le> n"
  shows "\<exists>ps. fgets_all n (body @ 10 # rest) = ps @ fgets_all n rest \<and>
    (\<forall>p \<in> set ps. p \<noteq> [] \<and> set p \<subseteq> insert 10 (set body)) \<and> (length body + 1 < n \<longrightarrow> ps = [body @ [10]])"
  using assms(1)
proof (induction "length body" arbitrary: body rule: less_induct)
  case less
  let ?b = "body @ 10 # rest"
  have tw: "length (takeWhile (\<lambda>x. x \<noteq> 10) ?b) = length body"
    using less.prems by (subst takeWhile_append2) auto
  show ?case
  proof (cases "length body + 1 < n")
    case True
    then have "fgets_len n ?b = length body + 1" using tw by (simp add: fgets_len_def)
    then have "fgets_all n ?b = (body @ [10]) # fgets_all n rest"
      using assms(2) by (subst fgets_all.simps) simp
    then show ?thesis using True by (intro exI [of _ "[body @ [10]]"]) auto
  next
    case False
    then have k: "fgets_len n ?b = n - 1" "n - 1 \<le> length body" using tw by (simp_all add: fgets_len_def)
    have eq: "fgets_all n ?b = take (n - 1) body # fgets_all n (drop (n - 1) body @ 10 # rest)"
      using assms(2) k by (subst fgets_all.simps) simp
    have "length (drop (n - 1) body) < length body" "10 \<notin> set (drop (n - 1) body)"
      using k(2) assms(2) less.prems by (auto dest: in_set_dropD)
    then obtain ps where ps: "fgets_all n (drop (n - 1) body @ 10 # rest) = ps @ fgets_all n rest"
      "\<forall>p \<in> set ps. p \<noteq> [] \<and> set p \<subseteq> insert 10 (set (drop (n - 1) body))"
      using less.hyps by blast
    have "take (n - 1) body \<noteq> []" using k(2) assms(2) by auto
    moreover have "\<forall>p \<in> set ps. p \<noteq> [] \<and> set p \<subseteq> insert 10 (set body)"
      using ps(2) set_drop_subset [of "n - 1" body] by blast
    ultimately show ?thesis
      using eq ps(1) set_take_subset [of "n - 1" body] False
      by (intro exI [of _ "take (n - 1) body # ps"]) auto
  qed
qed

lemma print_u_length: "n < 10 ^ k \<Longrightarrow> 0 < k \<Longrightarrow> length (print_u n) \<le> k"
proof (induction k arbitrary: n)
  case (Suc k)
  show ?case
  proof (cases "n < 10")
    case True
    then show ?thesis by (subst print_u.simps) simp
  next
    case False
    then have "0 < k" using Suc.prems by (cases k) auto
    moreover have "n div 10 < 10 ^ k" using Suc.prems by (simp add: less_mult_imp_div_less mult.commute)
    ultimately have "length (print_u (n div 10)) \<le> k" using Suc.IH by blast
    then show ?thesis using False by (subst print_u.simps) simp
  qed
qed simp

text \<open>The bytes a rendered line is made of.\<close>

lemma ascii_simps: "ascii [] = []" "ascii (c # s) = of_char c # ascii s"
  by (simp_all add: ascii_def)

lemma digit_range: "is_digit x \<Longrightarrow> x \<noteq> 0 \<and> x \<noteq> 10 \<and> x \<noteq> 112 \<and> x \<noteq> 110 \<and> x \<noteq> 104"
  by (auto simp: is_digit_def word_le_nat_alt)

lemma print_u_range: "x \<in> set (print_u n) \<Longrightarrow> x \<noteq> 0 \<and> x \<noteq> 10 \<and> x \<noteq> 112 \<and> x \<noteq> 110 \<and> x \<noteq> 104"
  using print_u_digits [of n] digit_range by blast

lemma e2ee_body_range:
  "x \<in> set (ascii ''e2ee'' @ concat (map (\<lambda>fn. 32 # print_u fn) fns)) \<Longrightarrow> x \<noteq> 0 \<and> x \<noteq> 10 \<and> x \<noteq> 112 \<and> x \<noteq> 110 \<and> x \<noteq> 104"
  by (auto simp: ascii_simps of_char_def split: if_splits dest: print_u_range)

lemma render_body:
  assumes "setting_ok s"
  obtains body where "render s = body @ [10]" "10 \<notin> set body" "0 \<notin> set body"
    "setting_kind s \<noteq> 2 \<longrightarrow> length body + 1 < 128" "length body + 1 < 512"
proof (cases s)
  case (SProxy host port)
  define body where "body = ascii ''proxy '' @ host @ [32] @ print_u (nat port)"
  have "\<not> is_space x \<Longrightarrow> x \<noteq> 10" for x by (auto simp: is_space_def)
  then have h: "\<forall>x \<in> set host. x \<noteq> 0 \<and> x \<noteq> 10" "host \<noteq> []" "length host \<le> 63" "0 \<le> port" "port < 2 ^ 63"
    using assms SProxy by auto
  have "length (print_u (nat port)) \<le> 19"
    using h(4,5) by (intro print_u_length) simp_all
  then have "length body + 1 < 128" using h(3) by (simp add: body_def)
  moreover have "render s = body @ [10]" using SProxy h(2,4) by (simp add: proxy_line_def body_def print_ld_def)
  moreover have "10 \<notin> set body" "0 \<notin> set body"
    using h(1) by (auto simp: body_def ascii_simps of_char_def dest: print_u_range)
  ultimately show ?thesis using that [of body] by simp
next
  case SNoProxy
  then show ?thesis using that [of "ascii ''noproxy''"] by (simp add: proxy_line_def ascii_simps of_char_def)
next
  case (SHistory on)
  then show ?thesis
    using that [of "ascii ''history '' @ ascii (if on then ''on'' else ''off'')"]
    by (auto simp: history_line_def ascii_simps of_char_def)
next
  case (SE2ee fns)
  let ?body = "ascii ''e2ee'' @ concat (map (\<lambda>fn. 32 # print_u fn) fns)"
  have "render s = ?body @ [10]" "length (e2ee_line fns) < 512" using SE2ee assms by (auto simp: e2ee_line_def)
  moreover from this have "length ?body + 1 < 512" using SE2ee by simp
  moreover have "10 \<notin> set ?body" "0 \<notin> set ?body" using e2ee_body_range by blast+
  ultimately show ?thesis using that [of ?body] SE2ee by simp
qed

text \<open>Cutting a settings file into lines, with the two buffer sizes.\<close>

lemma fgets_file_512:
  "\<forall>s \<in> set ss. setting_ok s \<Longrightarrow> fgets_all 512 (settings_file ss) = map render ss"
proof (induction ss)
  case Nil
  then show ?case by (subst fgets_all.simps) (simp add: settings_file_def)
next
  case (Cons s ss)
  have ok: "setting_ok s" using Cons.prems by simp
  obtain body where b: "render s = body @ [10]" "10 \<notin> set body" "length body + 1 < 512"
    by (rule render_body [OF ok])
  have "fgets_all 512 (body @ 10 # settings_file ss) = [body @ [10]] @ fgets_all 512 (settings_file ss)"
    using fgets_line [OF b(2), of 512 "settings_file ss"] b(3) by auto
  then show ?case using Cons b(1) by (simp add: settings_file_def)
qed

definition lines_128 :: "setting \<Rightarrow> bytes list \<Rightarrow> bool" where
  "lines_128 s ps \<longleftrightarrow> (if setting_kind s = 2 then \<forall>p \<in> set ps. \<not> starts_with ''proxy'' p \<and> \<not> starts_with ''noproxy'' p \<and> \<not> starts_with ''history'' p
     else ps = [render s])"

lemma not_starts:
  assumes "p \<noteq> []" "\<forall>x \<in> set p. x \<noteq> 0 \<and> x \<noteq> 112 \<and> x \<noteq> 110 \<and> x \<noteq> 104"
  shows "\<not> starts_with ''proxy'' p" "\<not> starts_with ''noproxy'' p" "\<not> starts_with ''history'' p"
  using assms by (cases p; auto simp: starts_with_def c_str_def ascii_simps of_char_def)+

lemma fgets_file_128:
  "\<forall>s \<in> set ss. setting_ok s \<Longrightarrow> \<exists>pss. fgets_all 128 (settings_file ss) = concat pss \<and> list_all2 lines_128 ss pss"
proof (induction ss)
  case Nil
  then show ?case by (intro exI [of _ "[]"]) (subst fgets_all.simps, simp add: settings_file_def)
next
  case (Cons s ss)
  then obtain pss where pss: "fgets_all 128 (settings_file ss) = concat pss" "list_all2 lines_128 ss pss" by auto
  have ok: "setting_ok s" using Cons.prems by simp
  obtain body where b: "render s = body @ [10]" "10 \<notin> set body" "0 \<notin> set body" "setting_kind s \<noteq> 2 \<longrightarrow> length body + 1 < 128" "length body + 1 < 512"
    by (rule render_body [OF ok])
  obtain ps where ps: "fgets_all 128 (body @ 10 # settings_file ss) = ps @ fgets_all 128 (settings_file ss)"
    "\<forall>p \<in> set ps. p \<noteq> [] \<and> set p \<subseteq> insert 10 (set body)" "length body + 1 < 128 \<longrightarrow> ps = [body @ [10]]"
    using fgets_line [OF b(2), of 128 "settings_file ss"] by auto
  have "lines_128 s ps"
  proof (cases "setting_kind s = 2")
    case True
    then obtain fns where "s = SE2ee fns" by (cases s) auto
    then have "body = ascii ''e2ee'' @ concat (map (\<lambda>fn. 32 # print_u fn) fns)"
      using b(1) Cons.prems by (simp add: e2ee_line_def split: if_splits)
    then have "\<forall>x \<in> insert 10 (set body). x \<noteq> 0 \<and> x \<noteq> 112 \<and> x \<noteq> 110 \<and> x \<noteq> 104"
      using e2ee_body_range [of _ fns] by auto
    then have "p \<noteq> [] \<and> (\<forall>x \<in> set p. x \<noteq> 0 \<and> x \<noteq> 112 \<and> x \<noteq> 110 \<and> x \<noteq> 104)" if "p \<in> set ps" for p
      using ps(2) that by blast
    then show ?thesis using True not_starts unfolding lines_128_def by simp
  next
    case False
    then show ?thesis using ps(3) b(1,4) by (simp add: lines_128_def)
  qed
  then show ?case
    using ps(1) pss b(1) by (intro exI [of _ "ps # pss"]) (simp add: settings_file_def)
qed

lemma c_str_render: "setting_ok s \<Longrightarrow> c_str (render s) = render s"
proof -
  assume "setting_ok s"
  then obtain body where "render s = body @ [10]" "0 \<notin> set body" by (rule render_body)
  then have "0 \<notin> set (render s)" by simp
  then show ?thesis by (rule c_str_id)
qed

lemma starts_render:
  assumes "setting_ok s"
  shows "starts_with ''proxy'' (render s) \<longleftrightarrow> (\<exists>h p. s = SProxy h p)"
    "starts_with ''noproxy'' (render s) \<longleftrightarrow> s = SNoProxy"
    "starts_with ''history'' (render s) \<longleftrightarrow> setting_kind s = 1"
    "starts_with ''e2ee'' (render s) \<longleftrightarrow> setting_kind s = 2"
  unfolding starts_with_def c_str_render [OF assms]
  using assms by (cases s; simp add: proxy_line_def history_line_def e2ee_line_def ascii_simps of_char_def)+

lemma kept_512:
  assumes "\<forall>s \<in> set ss. setting_ok s"
  shows "kept_lines 512 [''history'', ''e2ee''] (Some (settings_file ss)) = settings_file (filter (\<lambda>s. setting_kind s \<noteq> 0) ss)"
    "kept_lines 512 [''proxy'', ''noproxy'', ''e2ee''] (Some (settings_file ss)) = settings_file (filter (\<lambda>s. setting_kind s \<noteq> 1) ss)"
proof -
  have k: "setting_kind s \<noteq> 0 \<longleftrightarrow> setting_kind s = 1 \<or> setting_kind s = 2"
    "setting_kind s \<noteq> 1 \<longleftrightarrow> (\<exists>h p. s = SProxy h p) \<or> s = SNoProxy \<or> setting_kind s = 2" for s by (cases s; simp)+
  have "concat (map c_str (filter P (map render ss))) = settings_file (filter (\<lambda>s. P (render s)) ss)" for P
    using assms by (induction ss) (auto simp: settings_file_def c_str_render)
  moreover have "filter (\<lambda>s. list_ex (\<lambda>w. starts_with w (render s)) [''history'', ''e2ee'']) ss = filter (\<lambda>s. setting_kind s \<noteq> 0) ss"
  proof (rule filter_cong [OF refl])
    fix s assume "s \<in> set ss"
    then have "setting_ok s" using assms by blast
    then show "list_ex (\<lambda>w. starts_with w (render s)) [''history'', ''e2ee''] = (setting_kind s \<noteq> 0)"
      unfolding k(1) by (simp only: list_ex_iff list.set bex_simps starts_render simp_thms)
  qed
  moreover have "filter (\<lambda>s. list_ex (\<lambda>w. starts_with w (render s)) [''proxy'', ''noproxy'', ''e2ee'']) ss = filter (\<lambda>s. setting_kind s \<noteq> 1) ss"
  proof (rule filter_cong [OF refl])
    fix s assume "s \<in> set ss"
    then have "setting_ok s" using assms by blast
    then show "list_ex (\<lambda>w. starts_with w (render s)) [''proxy'', ''noproxy'', ''e2ee''] = (setting_kind s \<noteq> 1)"
      unfolding k(2) by (simp only: list_ex_iff list.set bex_simps starts_render simp_thms)
  qed
  ultimately show "kept_lines 512 [''history'', ''e2ee''] (Some (settings_file ss)) = settings_file (filter (\<lambda>s. setting_kind s \<noteq> 0) ss)"
    "kept_lines 512 [''proxy'', ''noproxy'', ''e2ee''] (Some (settings_file ss)) = settings_file (filter (\<lambda>s. setting_kind s \<noteq> 1) ss)"
    by (simp_all only: kept_lines_def option.case fgets_file_512 [OF assms])
qed

lemma kept_128:
  assumes "\<forall>s \<in> set ss. setting_ok s"
  shows "kept_lines 128 [''proxy'', ''noproxy'', ''history''] (Some (settings_file ss)) = settings_file (filter (\<lambda>s. setting_kind s \<noteq> 2) ss)"
proof -
  let ?P = "\<lambda>l. list_ex (\<lambda>w. starts_with w l) [''proxy'', ''noproxy'', ''history'']"
  obtain pss where p: "fgets_all 128 (settings_file ss) = concat pss" "list_all2 lines_128 ss pss"
    using fgets_file_128 [OF assms] by blast
  have "concat (map c_str (filter ?P (concat pss))) = settings_file (filter (\<lambda>s. setting_kind s \<noteq> 2) ss)"
    using p(2) assms
  proof (induction rule: list_all2_induct)
    case (Cons s ss ps pss)
    have "concat (map c_str (filter ?P ps)) = (if setting_kind s \<noteq> 2 then render s else [])"
    proof (cases "setting_kind s = 2")
      case True
      then have "filter ?P ps = []" using Cons.hyps(1) by (auto simp: lines_128_def filter_empty_conv)
      then show ?thesis using True by simp
    next
      case False
      moreover have "(\<exists>h p. s = SProxy h p) \<or> s = SNoProxy \<or> setting_kind s = 1" using False by (cases s) auto
      ultimately show ?thesis
        using Cons.hyps(1) Cons.prems by (auto simp: lines_128_def starts_render c_str_render)
    qed
    then show ?case using Cons by (simp add: settings_file_def)
  qed (simp add: settings_file_def)
  then show ?thesis by (simp only: kept_lines_def option.case p(1))
qed

section \<open>What the loaders read\<close>

text \<open>What a file means: the settings applied in order.\<close>

fun apply_setting :: "TTSettings \<Rightarrow> setting \<Rightarrow> TTSettings" where
  "apply_setting st (SProxy h p) = st \<lparr>set_proxy_set := True, set_proxy_host := h, set_proxy_port := p\<rparr>"
| "apply_setting st SNoProxy = st"
| "apply_setting st (SHistory on) = st \<lparr>set_history := on\<rparr>"
| "apply_setting st (SE2ee _) = st"

definition proxy_view :: "TTSettings \<Rightarrow> (bytes \<times> int) option" where
  "proxy_view st = (if set_proxy_set st then Some (set_proxy_host st, set_proxy_port st) else None)"

definition get_proxy :: "setting list \<Rightarrow> (bytes \<times> int) option" where
  "get_proxy ss = (case find (\<lambda>s. setting_kind s = 0) ss of Some (SProxy h p) \<Rightarrow> Some (h, p) | _ \<Rightarrow> None)"

definition get_history :: "setting list \<Rightarrow> bool" where
  "get_history ss = (case find (\<lambda>s. setting_kind s = 1) ss of Some (SHistory on) \<Rightarrow> on | _ \<Rightarrow> False)"

definition get_e2ee :: "setting list \<Rightarrow> nat set" where
  "get_e2ee ss = (case find (\<lambda>s. setting_kind s = 2) ss of Some (SE2ee fns) \<Rightarrow> set fns | _ \<Rightarrow> {})"

lemma scan_ld_print:
  assumes "0 \<le> p" "p < 2 ^ 63"
  shows "scan_ld (32 # print_u (nat p) @ [10]) = Some p"
proof -
  obtain c cs where c: "print_u (nat p) = c # cs" using print_u_nonempty by (metis neq_Nil_conv)
  have dc: "is_digit c" using print_u_digits [of "nat p"] c by simp
  have ns: "\<not> is_space c" "is_space 32" "c \<noteq> 45" "c \<noteq> 43" using dc by (auto simp: is_digit_def is_space_def word_le_nat_alt)
  have "\<not> is_digit 10" by (simp add: is_digit_def word_le_nat_alt)
  then have "takeWhile is_digit (print_u (nat p) @ [10]) = print_u (nat p)"
    using takeWhile_prefix [OF print_u_digits, of "[10]" "nat p"] by simp
  moreover have "dropWhile is_space (32 # print_u (nat p) @ [10]) = c # cs @ [10]" using c ns by simp
  ultimately show ?thesis
    using assms c ns by (simp add: scan_ld_def digits_value_print [of "nat p", unfolded c])
qed

lemma scan_word_print:
  assumes "host \<noteq> []" "length host \<le> w" "\<forall>x \<in> set host. \<not> is_space x" "r = [] \<or> is_space (hd r)"
  shows "scan_word w (32 # host @ r) = Some (host, r)"
proof -
  have "takeWhile (\<lambda>x. \<not> is_space x) (host @ r) = host" using assms(3,4) by (cases r) (auto simp: takeWhile_append2)
  moreover have "dropWhile is_space (32 # host @ r) = host @ r" using assms(1,3) by (cases host) (auto simp: is_space_def)
  moreover have "0 < w" using assms(1,2) by (cases host) auto
  ultimately show ?thesis using assms(1,2) by (simp add: scan_word_def Let_def)
qed

lemma settings_line_render:
  assumes "setting_ok s" "setting_kind s \<noteq> 2"
  shows "settings_line st (render s) = apply_setting st s"
proof (cases s)
  case (SProxy h p)
  have "scan_word 63 (drop 5 (c_str (render s))) = Some (h, 32 # print_u (nat p) @ [10])"
    unfolding c_str_render [OF assms(1)]
    using SProxy assms scan_word_print [of h 63 "32 # print_u (nat p) @ [10]"]
    by (simp add: proxy_line_def print_ld_def ascii_simps is_space_def of_char_def)
  then have "scan_proxy (render s) = Some (h, p)"
    using SProxy assms scan_ld_print [of p] starts_render [OF assms(1)] by (simp add: scan_proxy_def)
  then show ?thesis using SProxy by (simp add: settings_line_def)
next
  case (SHistory on)
  have "scan_word 15 (drop 7 (c_str (render s))) = Some (ascii (if on then ''on'' else ''off''), [10])"
    unfolding c_str_render [OF assms(1)]
    using SHistory scan_word_print [of "ascii (if on then ''on'' else ''off'')" 15 "[10]"]
    by (cases on) (simp_all add: history_line_def ascii_simps is_space_def of_char_def)
  then show ?thesis
    using SHistory starts_render [OF assms(1)]
    by (cases on) (simp_all add: settings_line_def scan_proxy_def ascii_simps of_char_def)
next
  case SNoProxy
  then show ?thesis using starts_render [OF assms(1)] by (simp add: settings_line_def scan_proxy_def)
qed (use assms in simp)

lemma load_file:
  assumes "\<forall>s \<in> set ss. setting_ok s"
  shows "foldl settings_line st (fgets_all 128 (settings_file ss)) = foldl apply_setting st ss"
proof -
  obtain pss where p: "fgets_all 128 (settings_file ss) = concat pss" "list_all2 lines_128 ss pss"
    using fgets_file_128 [OF assms] by blast
  have "foldl settings_line st (concat pss) = foldl apply_setting st ss"
    using p(2) assms
  proof (induction arbitrary: st rule: list_all2_induct)
    case (Cons s ss ps pss)
    have "foldl settings_line st ps = apply_setting st s"
    proof (cases "setting_kind s = 2")
      case True
      then have "\<forall>p \<in> set ps. settings_line st p = st" for st
        using Cons.hyps(1) by (simp add: lines_128_def settings_line_def scan_proxy_def)
      then have "foldl settings_line st ps = st" by (induction ps) auto
      then show ?thesis using True by (cases s) auto
    next
      case False
      then show ?thesis using Cons.hyps(1) Cons.prems settings_line_render by (simp add: lines_128_def)
    qed
    then show ?case using Cons by simp
  qed simp
  then show ?thesis using p(1) by simp
qed

lemma apply_other_kinds:
  "0 \<notin> setting_kind ` set ss \<Longrightarrow> proxy_view (foldl apply_setting st ss) = proxy_view st"
  "1 \<notin> setting_kind ` set ss \<Longrightarrow> set_history (foldl apply_setting st ss) = set_history st"
proof (induction ss arbitrary: st)
  case (Cons s ss)
  { case 1 then show ?case using Cons.IH(1) by (cases s) (auto simp: proxy_view_def) }
  { case 2 then show ?case using Cons.IH(2) by (cases s) auto }
qed simp_all

lemma apply_settings_proxy:
  "distinct (map setting_kind ss) \<Longrightarrow> proxy_view st = None \<Longrightarrow> proxy_view (foldl apply_setting st ss) = get_proxy ss"
proof (induction ss arbitrary: st)
  case (Cons s ss)
  show ?case
  proof (cases "setting_kind s = 0")
    case True
    then have "0 \<notin> setting_kind ` set ss" using Cons.prems by auto
    then show ?thesis using apply_other_kinds(1) True Cons.prems by (cases s) (auto simp: get_proxy_def proxy_view_def)
  next
    case False
    have "proxy_view (apply_setting st s) = None" using False Cons.prems by (cases s) (auto simp: proxy_view_def)
    then show ?thesis using Cons False by (simp add: get_proxy_def)
  qed
qed (simp add: get_proxy_def)

lemma apply_settings_history:
  "distinct (map setting_kind ss) \<Longrightarrow> \<not> set_history st \<Longrightarrow> set_history (foldl apply_setting st ss) = get_history ss"
proof (induction ss arbitrary: st)
  case (Cons s ss)
  show ?case
  proof (cases "setting_kind s = 1")
    case True
    then have "1 \<notin> setting_kind ` set ss" using Cons.prems by auto
    then show ?thesis using apply_other_kinds(2) True by (cases s) (auto simp: get_history_def)
  next
    case False
    have "\<not> set_history (apply_setting st s)" using False Cons.prems by (cases s) auto
    then show ?thesis using Cons False by (simp add: get_history_def)
  qed
qed (simp add: get_history_def)

lemma e2ee_numbers_print:
  assumes "\<forall>fn \<in> set fns. fn < 256" "r = [] \<or> hd r = 10 \<or> r = [32]"
  shows "e2ee_numbers (concat (map (\<lambda>fn. 32 # print_u fn) fns) @ r) = fns"
  using assms(1)
proof (induction fns)
  case Nil
  have "\<not> is_digit 10" by (simp add: is_digit_def word_le_nat_alt)
  then show ?case using assms(2) by (subst e2ee_numbers.simps) (cases r; auto simp: Let_def)
next
  case (Cons fn fns)
  let ?rest = "concat (map (\<lambda>fn. 32 # print_u fn) fns) @ r"
  obtain c cs where c: "print_u fn = c # cs" using print_u_nonempty by (metis neq_Nil_conv)
  have dc: "is_digit c" using print_u_digits [of fn] c by simp
  have "\<not> is_digit 32" "\<not> is_digit 10" by (simp_all add: is_digit_def word_le_nat_alt)
  then have nd: "?rest = [] \<or> \<not> is_digit (hd ?rest)" using assms(2) by (cases fns; cases r) auto
  have tw: "takeWhile is_digit (print_u fn @ ?rest) = print_u fn" "dropWhile is_digit (print_u fn @ ?rest) = ?rest"
    using takeWhile_prefix [OF print_u_digits nd] by auto
  have "c \<noteq> 32" "c \<noteq> 9" using dc by (auto simp: is_digit_def word_le_nat_alt)
  then have d: "dropWhile (\<lambda>x. x = 32 \<or> x = 9) (32 # print_u fn @ ?rest) = print_u fn @ ?rest" using c by simp
  have "e2ee_numbers (32 # print_u fn @ ?rest) = fn # e2ee_numbers ?rest"
    unfolding e2ee_numbers.simps [of "32 # print_u fn @ ?rest"] Let_def d tw digits_value_print
    using c dc Cons.prems by simp
  then show ?case using Cons by simp
qed


lemma e2ee_file:
  assumes "\<forall>s \<in> set ss. setting_ok s"
  shows "e2ee_of_content (settings_file ss) fn \<longleftrightarrow> fn \<in> get_e2ee ss"
proof -
  have f: "find (starts_with ''e2ee'') (map render ss) = map_option render (find (\<lambda>s. setting_kind s = 2) ss)"
    using assms by (induction ss) (auto simp: starts_render)
  show ?thesis
  proof (cases "find (\<lambda>s. setting_kind s = 2) ss")
    case None
    then show ?thesis by (simp add: e2ee_of_content_def fgets_file_512 [OF assms] f get_e2ee_def)
  next
    case (Some s)
    then have s: "s \<in> set ss" "setting_kind s = 2" by (auto simp: find_Some_iff)
    obtain fns where fns: "s = SE2ee fns" using s(2) by (cases s) simp_all
    have ok: "setting_ok s" using s(1) assms by blast
    have lt: "\<forall>fn \<in> set fns. fn < 256" using ok fns by simp
    have "drop 4 (c_str (render s)) = concat (map (\<lambda>fn. 32 # print_u fn) fns) @ [10]"
      using ok fns by (simp only: c_str_render) (simp add: e2ee_line_def ascii_simps)
    then have "e2ee_numbers (drop 4 (c_str (render s))) = fns"
      using e2ee_numbers_print [OF lt, of "[10]"] by simp
    then show ?thesis
      using Some fns lt by (auto simp: e2ee_of_content_def fgets_file_512 [OF assms] f get_e2ee_def)
  qed
qed

section \<open>The three stores refine three independent settings\<close>

datatype settings_op = OpProxy "(bytes \<times> int) option" | OpHistory bool | OpE2ee "nat \<Rightarrow> bool"

fun settings_do :: "string \<Rightarrow> disk \<Rightarrow> (nat \<Rightarrow> bool) \<times> settings_op \<Rightarrow> disk" where
  "settings_do p d (io, OpProxy px) = snd (tt_settings_store_proxy io (Some p) px d)"
| "settings_do p d (io, OpHistory on) = snd (tt_settings_store_history io (Some p) on d)"
| "settings_do p d (io, OpE2ee req) = snd (tt_settings_store_e2ee io req (Some p) d)"

text \<open>What the loaders return on the next start, and what each store is for.\<close>

type_synonym settings_view = "(bytes \<times> int) option \<times> bool \<times> nat set"

definition settings_loaded :: "string \<Rightarrow> disk \<Rightarrow> settings_view" where
  "settings_loaded p d =
     (proxy_view (tt_settings_load (Some p) d), set_history (tt_settings_load (Some p) d), {fn. tt_settings_load_e2ee (Some p) d fn})"

fun settings_spec :: "settings_view \<Rightarrow> (nat \<Rightarrow> bool) \<times> settings_op \<Rightarrow> settings_view" where
  "settings_spec (px, h, e) (io, act) =
     (if io 0 \<and> io 1 \<and> io 2
      then case act of OpProxy px' \<Rightarrow> (px', h, e) | OpHistory on \<Rightarrow> (px, on, e) | OpE2ee req \<Rightarrow> (px, h, {fn. fn < 256 \<and> req fn})
      else (px, h, e))"

text \<open>A proxy address is a word of at most 63 bytes; the policy line has to fit the reader's buffer.\<close>

fun settings_op_ok :: "settings_op \<Rightarrow> bool" where
  "settings_op_ok (OpProxy px) \<longleftrightarrow> (case px of None \<Rightarrow> True | Some (h, p) \<Rightarrow> setting_ok (SProxy h p))"
| "settings_op_ok (OpHistory _) \<longleftrightarrow> True"
| "settings_op_ok (OpE2ee req) \<longleftrightarrow> length (e2ee_line (required_fns req)) < 512"

text \<open>The file as the stores keep it.\<close>

definition settings_at :: "string \<Rightarrow> disk \<Rightarrow> setting list \<Rightarrow> bool" where
  "settings_at p d ss \<longleftrightarrow> settings_ok ss \<and> (d (settings_path p) = Some (settings_file ss) \<or> d (settings_path p) = None \<and> ss = [])"

lemma settings_at_loaded:
  assumes "settings_at p d ss"
  shows "settings_loaded p d = (get_proxy ss, get_history ss, get_e2ee ss)"
proof (cases "d (settings_path p)")
  case None
  then show ?thesis
    using assms by (simp add: settings_at_def settings_loaded_def tt_settings_load_def tt_settings_load_e2ee_def settings_zero_def
        proxy_view_def get_proxy_def get_history_def get_e2ee_def)
next
  case (Some c)
  have ok: "\<forall>s \<in> set ss. setting_ok s" "distinct (map setting_kind ss)" "c = settings_file ss"
    using assms Some by (auto simp: settings_at_def settings_ok_def)
  have "proxy_view settings_zero = None" "\<not> set_history settings_zero" by (simp_all add: proxy_view_def settings_zero_def)
  then show ?thesis
    using ok Some apply_settings_proxy apply_settings_history
    by (simp add: settings_loaded_def tt_settings_load_def tt_settings_load_e2ee_def load_file e2ee_file)
qed

fun settings_put :: "settings_op \<Rightarrow> setting list \<Rightarrow> setting list" where
  "settings_put (OpProxy px) ss = (case px of None \<Rightarrow> SNoProxy | Some (h, p) \<Rightarrow> SProxy h p) # filter (\<lambda>s. setting_kind s \<noteq> 0) ss"
| "settings_put (OpHistory on) ss = filter (\<lambda>s. setting_kind s \<noteq> 1) ss @ [SHistory on]"
| "settings_put (OpE2ee req) ss = filter (\<lambda>s. setting_kind s \<noteq> 2) ss @ (if required_fns req = [] then [] else [SE2ee (required_fns req)])"

lemma settings_file_app: "settings_file (xs @ ys) = settings_file xs @ settings_file ys"
  by (simp add: settings_file_def)

lemma settings_file_simps: "settings_file [] = []" "settings_file (s # ss) = render s @ settings_file ss"
  by (simp_all add: settings_file_def)

lemma kept_none: "kept_lines n ws None = []" by (simp add: kept_lines_def)

lemma settings_written:
  assumes "settings_at p d ss" "settings_op_ok act" "io 0" "io 1" "io 2"
  shows "settings_do p d (io, act) (settings_path p) = Some (settings_file (settings_put act ss))"
proof -
  have ok: "\<forall>s \<in> set ss. setting_ok s" using assms(1) by (simp add: settings_at_def settings_ok_def)
  have kept: "kept_lines 512 [''history'', ''e2ee''] (d (settings_path p)) = settings_file (filter (\<lambda>s. setting_kind s \<noteq> 0) ss)"
    "kept_lines 512 [''proxy'', ''noproxy'', ''e2ee''] (d (settings_path p)) = settings_file (filter (\<lambda>s. setting_kind s \<noteq> 1) ss)"
    "kept_lines 128 [''proxy'', ''noproxy'', ''history''] (d (settings_path p)) = settings_file (filter (\<lambda>s. setting_kind s \<noteq> 2) ss)"
    using assms(1) kept_512 [OF ok] kept_128 [OF ok]
    by (auto simp: settings_at_def kept_none settings_file_simps)
  have w: "snd (settings_write io (Some p) mk d) (settings_path p) = Some (mk (d (settings_path p)))" for mk
    using assms(3-5) by (simp add: settings_write_def Let_def)
  show ?thesis
  proof (cases act)
    case (OpProxy px)
    then show ?thesis using w kept(1)
      by (cases px) (auto simp: tt_settings_store_proxy_def settings_file_simps)
  next
    case (OpHistory on)
    then show ?thesis using w kept(2)
      by (simp add: tt_settings_store_history_def settings_file_app settings_file_simps)
  next
    case (OpE2ee req)
    then show ?thesis using w kept(3)
      by (simp add: tt_settings_store_e2ee_def settings_file_app settings_file_simps e2ee_line_def)
  qed
qed

lemma distinct_map_filter_kind:
  "distinct (map setting_kind ss) \<Longrightarrow> distinct (map setting_kind (filter P ss))"
  by (rule distinct_map_filter)

lemma settings_put_ok:
  assumes "settings_ok ss" "settings_op_ok act"
  shows "settings_ok (settings_put act ss)"
  using assms distinct_map_filter_kind [of ss]
  by (cases act) (auto simp: settings_ok_def required_fns_def split: option.splits)

lemma find_filter_other: "(\<And>x. Q x \<Longrightarrow> P x) \<Longrightarrow> find Q (filter P xs) = find Q xs"
  by (induction xs) auto

lemma find_append: "find P (xs @ ys) = (case find P xs of None \<Rightarrow> find P ys | Some x \<Rightarrow> Some x)"
  by (induction xs) auto

lemma find_filter_same: "(\<And>x. Q x \<Longrightarrow> \<not> P x) \<Longrightarrow> find Q (filter P xs) = None"
  by (induction xs) auto

lemma get_settings_put:
  assumes "settings_op_ok act"
  shows "get_proxy (settings_put act ss) = (case act of OpProxy px \<Rightarrow> px | _ \<Rightarrow> get_proxy ss)"
    "get_history (settings_put act ss) = (case act of OpHistory on \<Rightarrow> on | _ \<Rightarrow> get_history ss)"
    "get_e2ee (settings_put act ss) = (case act of OpE2ee req \<Rightarrow> {fn. fn < 256 \<and> req fn} | _ \<Rightarrow> get_e2ee ss)"
proof -
  have o: "find (\<lambda>s. setting_kind s = k) (filter (\<lambda>s. setting_kind s \<noteq> j) ss) =
    (if k = j then None else find (\<lambda>s. setting_kind s = k) ss)" for k j
    by (auto intro: find_filter_other find_filter_same)
  show "get_proxy (settings_put act ss) = (case act of OpProxy px \<Rightarrow> px | _ \<Rightarrow> get_proxy ss)"
    by (cases act) (simp_all add: get_proxy_def find_append o split: option.split del: neq0_conv One_nat_def)
  show "get_history (settings_put act ss) = (case act of OpHistory on \<Rightarrow> on | _ \<Rightarrow> get_history ss)"
    by (cases act) (simp_all add: get_history_def find_append o split: option.split del: neq0_conv One_nat_def)
  show "get_e2ee (settings_put act ss) = (case act of OpE2ee req \<Rightarrow> {fn. fn < 256 \<and> req fn} | _ \<Rightarrow> get_e2ee ss)"
  proof (cases act)
    case (OpE2ee req)
    have "set (required_fns req) = {fn. fn < 256 \<and> req fn}" by (auto simp: required_fns_def)
    then show ?thesis
      by (cases "required_fns req = []") (simp_all add: OpE2ee get_e2ee_def find_append o)
  qed (simp_all add: get_e2ee_def find_append o split: option.split del: neq0_conv One_nat_def)
qed

lemma settings_put_get:
  "settings_op_ok act \<Longrightarrow> io 0 \<Longrightarrow> io 1 \<Longrightarrow> io 2 \<Longrightarrow>
   (get_proxy (settings_put act ss), get_history (settings_put act ss), get_e2ee (settings_put act ss)) =
     settings_spec (get_proxy ss, get_history ss, get_e2ee ss) (io, act)"
  by (simp only: get_settings_put settings_spec.simps if_True simp_thms, cases act) (simp_all only: settings_op.case)

lemma settings_do_at:
  assumes "settings_at p d ss" "settings_op_ok act"
  shows "\<exists>ss'. settings_at p (settings_do p d (io, act)) ss' \<and>
    (get_proxy ss', get_history ss', get_e2ee ss') = settings_spec (get_proxy ss, get_history ss, get_e2ee ss) (io, act)"
proof (cases "io 0 \<and> io 1 \<and> io 2")
  case True
  then have "settings_at p (settings_do p d (io, act)) (settings_put act ss)"
    using settings_written [OF assms] settings_put_ok assms by (simp add: settings_at_def)
  then show ?thesis using settings_put_get True assms(2) by blast
next
  case False
  have "settings_path p @ ''.new'' \<noteq> settings_path p" by simp
  then have "snd (settings_write io (Some p) mk d) (settings_path p) = d (settings_path p)" for mk
    using False by (auto simp: settings_write_def Let_def)
  then have "settings_do p d (io, act) (settings_path p) = d (settings_path p)"
    by (cases act) (simp_all add: tt_settings_store_proxy_def tt_settings_store_history_def tt_settings_store_e2ee_def)
  then have "settings_at p (settings_do p d (io, act)) ss" using assms(1) by (simp add: settings_at_def)
  moreover have "settings_spec (get_proxy ss, get_history ss, get_e2ee ss) (io, act) = (get_proxy ss, get_history ss, get_e2ee ss)"
    using False by (simp only: settings_spec.simps if_False)
  ultimately show ?thesis by (intro exI [of _ ss]) simp
qed

text \<open>Starting from a profile without a settings file, after any sequence of the three stores,
  succeeding or failing, the two loaders return exactly the last stored proxy, history switch and
  encryption policy: each store replaces its own setting and keeps the other two, and a failed store
  changes none, as long as the policy line fits the 512-byte line buffer.\<close>

theorem settings_stores_refine:
  assumes "d (settings_path p) = None" "\<forall>(io, act) \<in> set acts. settings_op_ok act"
  shows "settings_loaded p (foldl (settings_do p) d acts) = foldl settings_spec (None, False, {}) acts"
proof -
  have step: "settings_at p d ss \<Longrightarrow> \<forall>(io, act) \<in> set acts. settings_op_ok act \<Longrightarrow>
    settings_loaded p (foldl (settings_do p) d acts) = foldl settings_spec (get_proxy ss, get_history ss, get_e2ee ss) acts" for d ss
  proof (induction acts arbitrary: d ss)
    case Nil
    then show ?case using settings_at_loaded by simp
  next
    case (Cons a acts)
    obtain io act where a: "a = (io, act)" by (cases a)
    then have "settings_op_ok act" using Cons.prems(2) by simp
    then obtain ss' where ss': "settings_at p (settings_do p d a) ss'"
      "(get_proxy ss', get_history ss', get_e2ee ss') = settings_spec (get_proxy ss, get_history ss, get_e2ee ss) a"
      using settings_do_at [OF Cons.prems(1)] a by blast
    then show ?case using Cons.IH [OF ss'(1)] Cons.prems(2) by simp
  qed
  have "settings_at p d []" using assms(1) by (simp add: settings_at_def settings_ok_def)
  from step [OF this assms(2)] show ?thesis by (simp add: get_proxy_def get_history_def get_e2ee_def)
qed

theorem settings_stores_refine_witness:
  "settings_loaded ''p'' (foldl (settings_do ''p'') (\<lambda>_. None)
     [(\<lambda>_. True, OpProxy (Some ([49], 9050))), (\<lambda>_. True, OpE2ee (\<lambda>fn. fn = 3)), (\<lambda>_. True, OpHistory True), (\<lambda>n. n \<noteq> 1, OpHistory False)])
   = (Some ([49], 9050), True, {3})"
proof -
  have "required_fns (\<lambda>fn. fn = 3) = [3]" by code_simp
  then have "\<forall>(io, act) \<in> set [(\<lambda>_::nat. True, OpProxy (Some ([49], 9050))), (\<lambda>_. True, OpE2ee (\<lambda>fn. fn = 3)),
      (\<lambda>_. True, OpHistory True), (\<lambda>n. n \<noteq> 1, OpHistory False)]. settings_op_ok act"
    by (simp add: is_space_def e2ee_line_def print_u.simps ascii_simps)
  from settings_stores_refine [OF _ this, of "\<lambda>_. None" "''p''"] show ?thesis by auto
qed

section \<open>A policy line longer than the buffer\<close>

lemma e2ee_prefix_length: "length (concat (map (\<lambda>fn. 32 # print_u fn) [0..<154])) = 506"
  by code_simp

lemma upt_154: "[0..<256] = [0..<154] @ 154 # [155..<256]" by code_simp

text \<open>With every friend marked as encryption-required, the stored line is longer than the
  512-byte buffer the policy is read with, and after a restart only friends 0 to 153 are still
  enforced; the policy of every higher friend number is silently lost.\<close>

theorem e2ee_policy_truncated:
  assumes "io 0" "io 1" "io 2" "d (settings_path p) = None"
  shows "tt_settings_load_e2ee (Some p) (snd (tt_settings_store_e2ee io (\<lambda>_. True) (Some p) d)) fn \<longleftrightarrow> fn < 154"
proof -
  let ?nums = "\<lambda>fns. concat (map (\<lambda>fn. 32 # print_u fn) fns)"
  let ?r = "print_u 154 @ ?nums [155..<256] @ [10]"
  let ?body = "ascii ''e2ee'' @ ?nums [0..<154] @ [32]"
  have r: "required_fns (\<lambda>_. True) = [0..<256]" by (simp add: required_fns_def)
  have line: "e2ee_line [0..<256] = ?body @ ?r" unfolding e2ee_line_def upt_154 by simp
  have lb: "length ?body = 511" using e2ee_prefix_length by (simp add: ascii_simps)
  have nz: "x \<noteq> 0 \<and> x \<noteq> 10" if "x \<in> set ?body" for x
    using that e2ee_body_range [of x "[0..<154]"] by auto
  have "takeWhile (\<lambda>x. x \<noteq> 10) (?body @ ?r) = ?body @ takeWhile (\<lambda>x. x \<noteq> 10) ?r"
    using nz by (intro takeWhile_append2) blast
  then have "fgets_len 512 (?body @ ?r) = 511" using lb by (simp add: fgets_len_def)
  then have "fgets_all 512 (?body @ ?r) = ?body # fgets_all 512 ?r"
    using lb by (subst fgets_all.simps) simp
  moreover have c: "c_str ?body = ?body" using nz by (intro c_str_id) blast
  moreover from c have "starts_with ''e2ee'' ?body" by (simp add: starts_with_def ascii_simps)
  ultimately have "e2ee_of_content (?body @ ?r) fn \<longleftrightarrow> fn < 256 \<and> fn \<in> set (e2ee_numbers (?nums [0..<154] @ [32]))"
    by (simp add: e2ee_of_content_def ascii_simps)
  moreover have "e2ee_numbers (?nums [0..<154] @ [32]) = [0..<154]" by (rule e2ee_numbers_print) auto
  ultimately have "e2ee_of_content (?body @ ?r) fn \<longleftrightarrow> fn < 154" by auto
  moreover have "snd (tt_settings_store_e2ee io (\<lambda>_. True) (Some p) d) (settings_path p) = Some (?body @ ?r)"
    using assms by (simp add: tt_settings_store_e2ee_def settings_write_def Let_def kept_none r line)
  ultimately show ?thesis by (simp add: tt_settings_load_e2ee_def)
qed

theorem e2ee_policy_truncated_witness:
  "tt_settings_load_e2ee (Some ''p'') (snd (tt_settings_store_e2ee (\<lambda>_. True) (\<lambda>_. True) (Some ''p'') (\<lambda>_. None))) 153 \<and>
   \<not> tt_settings_load_e2ee (Some ''p'') (snd (tt_settings_store_e2ee (\<lambda>_. True) (\<lambda>_. True) (Some ''p'') (\<lambda>_. None))) 154"
  by (simp only: e2ee_policy_truncated) simp

end
