(* ===== verification/Resume.thy ===== *)
theory Resume
  imports Sidecar
begin

text \<open>
  The file-transfer resume index, \<^verbatim>\<open>src/src/resume.c\<close>: an array of 32 entries of which the
  first \<open>count\<close> are in use, keyed by the 32-byte file id, and its sidecar file.  A path is a
  C string, cut at 1023 bytes.  The C array and its counter are passed together as a pair.
\<close>

abbreviation (input) "TT_RESUME_MAX \<equiv> (32 :: nat)"
abbreviation (input) "TOX_FILE_ID_LENGTH \<equiv> (32 :: nat)"

record TTResumeEntry =
  re_used :: bool
  re_file_id :: bytes
  re_path :: bytes
  re_bytes :: "64 word"

type_synonym resume_index = "TTResumeEntry list \<times> nat"

definition re_zero :: TTResumeEntry where
  "re_zero = \<lparr>re_used = False, re_file_id = replicate TOX_FILE_ID_LENGTH 0, re_path = [], re_bytes = 0\<rparr>"

definition re_empty :: resume_index where
  "re_empty = (replicate TT_RESUME_MAX re_zero, 0)"

text \<open>The position of the entry the C function returns a pointer to.\<close>

fun find_from :: "TTResumeEntry list \<Rightarrow> nat \<Rightarrow> bytes \<Rightarrow> nat \<Rightarrow> nat option" where
  "find_from idx 0 fid i = None"
| "find_from idx (Suc n) fid i =
     (if re_used (idx ! i) \<and> re_file_id (idx ! i) = fid then Some i else find_from idx n fid (i + 1))"

definition tt_resume_find :: "resume_index \<Rightarrow> bytes \<Rightarrow> nat option" where
  "tt_resume_find R fid = find_from (fst R) (snd R) fid 0"

definition tt_resume_put :: "resume_index \<Rightarrow> bytes \<Rightarrow> bytes \<Rightarrow> 64 word \<Rightarrow> resume_index" where
  "tt_resume_put R fid path n =
     (let (idx, count) = R in
      case tt_resume_find R fid of
        Some i \<Rightarrow> (idx[i := (idx ! i) \<lparr>re_path := take 1023 path, re_bytes := n\<rparr>], count)
      | None \<Rightarrow>
          if count \<ge> TT_RESUME_MAX then (idx, count)
          else (idx[count := re_zero \<lparr>re_used := True, re_file_id := fid, re_path := take 1023 path, re_bytes := n\<rparr>],
                count + 1))"

text \<open>The inner loop of the removal: from \<open>j\<close> down to \<open>i + 1\<close>, the last entry in use moves into the hole.\<close>

fun fill_hole :: "TTResumeEntry list \<Rightarrow> nat \<Rightarrow> nat \<Rightarrow> TTResumeEntry list" where
  "fill_hole idx i 0 = idx"
| "fill_hole idx i (Suc j) =
     (if Suc j > i then if re_used (idx ! Suc j) then (idx[i := idx ! Suc j])[Suc j := re_zero] else fill_hole idx i j
      else idx)"

definition tt_resume_del :: "resume_index \<Rightarrow> bytes \<Rightarrow> resume_index" where
  "tt_resume_del R fid =
     (let (idx, count) = R in
      case tt_resume_find R fid of
        None \<Rightarrow> (idx, count)
      | Some i \<Rightarrow> (fill_hole (idx[i := re_zero]) i (count - 1), count - 1))"

section \<open>The sidecar\<close>

definition re_magic :: bytes where
  "re_magic = ascii ''TTRS1''"

definition rsum_path :: "string \<Rightarrow> string" where
  "rsum_path profile = profile @ ''.rsum''"

definition re_entry :: "TTResumeEntry \<Rightarrow> bytes" where
  "re_entry e = print_u (unat (re_bytes e)) @ [32] @ print_u (length (re_path e)) @ [10] @ re_path e @ [10] @ re_file_id e"

definition re_stored :: "TTResumeEntry \<Rightarrow> bool" where
  "re_stored e \<longleftrightarrow> re_used e \<and> re_path e \<noteq> [] \<and> length (re_path e) \<le> 1023"

definition re_content :: "TTResumeEntry list \<Rightarrow> bytes" where
  "re_content es = re_magic @ concat (map re_entry (filter re_stored es))"

definition tt_resume_save ::
  "toxes \<Rightarrow> (nat \<Rightarrow> bool) \<Rightarrow> resume_index \<Rightarrow> string option \<Rightarrow> bytes option \<Rightarrow> disk \<Rightarrow> disk" where
  "tt_resume_save T io R profile key d =
     (case profile of None \<Rightarrow> d
      | Some pr \<Rightarrow> snd (sidecar_write T io (4 * 1024 * 1024) key (rsum_path pr) (re_content (take (snd R) (fst R))) d))"

function re_parse :: "bytes \<Rightarrow> resume_index \<Rightarrow> resume_index" where
  "re_parse p R =
     (if p = [] then R
      else case scan_uu 64 32 p of
        None \<Rightarrow> R
      | Some (n, plen, r) \<Rightarrow>
          if plen = 0 \<or> plen > 1023 then R
          else if r = [] \<or> hd r \<noteq> 10 \<or> length (tl r) < plen \<or> snd R \<ge> TT_RESUME_MAX then R
          else
            let c = snd R;
                idx = (fst R)[c := (fst R ! c) \<lparr>re_path := c_str (take plen (tl r))\<rparr>];
                r2 = drop plen (tl r)
            in if r2 = [] \<or> hd r2 \<noteq> 10 \<or> length (tl r2) < TOX_FILE_ID_LENGTH then (idx, c)
               else re_parse (drop TOX_FILE_ID_LENGTH (tl r2))
                      (idx[c := (idx ! c) \<lparr>re_file_id := take TOX_FILE_ID_LENGTH (tl r2), re_bytes := of_nat n,
                                           re_used := True\<rparr>], c + 1))"
  by pat_completeness auto
termination
proof (relation "measure (\<lambda>(p, R). length p)")
  show "wf (measure (\<lambda>(p, R). length p))" by simp
next
  fix p :: bytes and R :: resume_index and x n y plen r c idx r2
  assume a: "scan_uu 64 32 p = Some x" "(n, y) = x" "(plen, r) = y"
    "\<not> (plen = 0 \<or> 1023 < plen)" "\<not> (r = [] \<or> hd r \<noteq> 10 \<or> length (tl r) < plen \<or> 32 \<le> snd R)"
    "r2 = drop plen (tl r)"
  have "length r \<le> length p" using a(1-3) length_scan_uu [of 64 32 p n plen r] by simp
  moreover have "length (drop 32 (tl r2)) \<le> length (tl r)" using a(6) by simp
  moreover have "length (tl r) < length r" using a(5) by (cases r) auto
  ultimately have "length (drop 32 (tl r2)) < length p" by linarith
  then show "((drop 32 (tl r2), idx[c := (idx ! c) \<lparr>re_file_id := take 32 (tl r2), re_bytes := of_nat n, re_used := True\<rparr>], c + 1), p, R)
      \<in> measure (\<lambda>(p, R). length p)"
    by simp
qed

declare re_parse.simps [simp del]

definition re_start :: "bytes \<Rightarrow> bytes" where
  "re_start pt = (if 5 \<le> length pt \<and> take 5 pt = re_magic then drop 5 pt else pt)"

definition tt_resume_load ::
  "toxes \<Rightarrow> (nat \<Rightarrow> bool) \<Rightarrow> string option \<Rightarrow> bytes option \<Rightarrow> disk \<Rightarrow> resume_index" where
  "tt_resume_load T io profile key d =
     (case profile of None \<Rightarrow> re_empty
      | Some pr \<Rightarrow>
          (case sidecar_read T io (4 * 1024 * 1024) (rsum_path pr) d of
             None \<Rightarrow> re_empty
           | Some buf \<Rightarrow>
               (case blob_decrypt T key buf of None \<Rightarrow> re_empty | Some pt \<Rightarrow> re_parse (re_start pt) re_empty)))"

section \<open>The index as a finite map\<close>

definition re_entries :: "resume_index \<Rightarrow> TTResumeEntry list" where
  "re_entries R = take (snd R) (fst R)"

definition re_bind :: "TTResumeEntry \<Rightarrow> bytes \<times> bytes \<times> 64 word" where
  "re_bind e = (re_file_id e, re_path e, re_bytes e)"

definition re_map :: "resume_index \<Rightarrow> bytes \<rightharpoonup> bytes \<times> 64 word" where
  "re_map R = map_of (map re_bind (re_entries R))"

definition re_inv :: "resume_index \<Rightarrow> bool" where
  "re_inv R \<longleftrightarrow> length (fst R) = TT_RESUME_MAX \<and> snd R \<le> TT_RESUME_MAX \<and>
     (\<forall>e \<in> set (re_entries R). re_used e) \<and> distinct (map re_file_id (re_entries R))"

lemma map_of_update_nth:
  assumes "distinct (map fst xs)" "i < length xs" "fst (xs ! i) = k"
  shows "map_of (xs[i := (k, v)]) = (map_of xs)(k \<mapsto> v)"
proof -
  have s: "xs = take i xs @ (k, snd (xs ! i)) # drop (Suc i) xs"
    using assms(2,3) by (metis id_take_nth_drop prod.collapse)
  have "k \<notin> fst ` set (take i xs)"
    using assms(1) by (subst (asm) s) auto
  then have "map_of (take i xs) k = None" by (simp add: map_of_eq_None_iff)
  then show ?thesis
    by (subst (2) s) (simp add: assms(2) upd_conv_take_nth_drop map_add_upd_left domIff fun_upd_def map_add_def fun_eq_iff split: option.split)
qed

lemma map_of_snoc_fresh: "k \<notin> fst ` set xs \<Longrightarrow> map_of (xs @ [(k, v)]) = (map_of xs)(k \<mapsto> v)"
proof -
  assume "k \<notin> fst ` set xs"
  then have "map_of xs k = None" by (simp add: map_of_eq_None_iff)
  then show ?thesis by (auto simp: map_add_def fun_eq_iff split: option.split)
qed

text \<open>Removal by moving the last element into the hole.\<close>

lemma map_of_move_last:
  assumes "distinct (map fst (xs @ [x]))" "i < length xs"
  shows "distinct (map fst (xs[i := x]))" "map_of (xs[i := x]) = (map_of (xs @ [x]))(fst (xs ! i) := None)"
proof -
  have d: "distinct xs" "distinct (map fst xs)" "fst x \<notin> fst ` set xs"
    using assms(1) by (auto simp: distinct_map)
  show d': "distinct (map fst (xs[i := x]))"
    using d(2,3) by (simp add: map_update distinct_list_update)
  have "set (xs[i := x]) = insert x (set xs - {xs ! i})"
    by (rule set_update_distinct [OF d(1) assms(2)])
  moreover have "fst x \<noteq> fst (xs ! i)" using d(3) assms(2) by (metis imageI nth_mem)
  moreover have "(k, v) \<in> set xs \<and> (k, v) \<noteq> xs ! i \<longleftrightarrow> (k, v) \<in> set xs \<and> k \<noteq> fst (xs ! i)" for k v
    using d(2) assms(2) by (metis eq_key_imp_eq_value nth_mem prod.collapse fst_conv)
  ultimately have "map_of (xs[i := x]) k = Some v \<longleftrightarrow> ((map_of (xs @ [x]))(fst (xs ! i) := None)) k = Some v" for k v
    using d' assms(1) by (auto simp: map_of_eq_Some_iff simp del: map_of_append)
  then show "map_of (xs[i := x]) = (map_of (xs @ [x]))(fst (xs ! i) := None)"
    by (metis not_None_eq ext)
qed

lemma find_from_spec:
  "find_from idx n fid i = Some j \<Longrightarrow> i \<le> j \<and> j < i + n \<and> re_used (idx ! j) \<and> re_file_id (idx ! j) = fid"
  "find_from idx n fid i = None \<Longrightarrow> i \<le> k \<Longrightarrow> k < i + n \<Longrightarrow> \<not> (re_used (idx ! k) \<and> re_file_id (idx ! k) = fid)"
proof (induction idx n fid i rule: find_from.induct)
  case (2 idx n fid i)
  { case 1 then show ?case using "2.IH"(1) by (fastforce split: if_splits) }
  { case 2 then show ?case using "2.IH"(2) by (cases "k = i") (auto split: if_splits) }
qed simp_all

lemma find_entry:
  assumes "re_inv R" "tt_resume_find R fid = Some i"
  shows "i < snd R" "fst R ! i \<in> set (re_entries R)" "re_file_id (re_entries R ! i) = fid"
    "i < length (re_entries R)" "re_entries R ! i = fst R ! i"
proof -
  have f: "i < snd R" "re_file_id (fst R ! i) = fid"
    using find_from_spec(1) [of "fst R" "snd R" fid 0 i] assms(2) by (auto simp: tt_resume_find_def)
  moreover show l: "i < length (re_entries R)" using f assms(1) by (simp add: re_entries_def re_inv_def)
  moreover show "re_entries R ! i = fst R ! i" using f by (simp add: re_entries_def)
  ultimately show "i < snd R" "re_file_id (re_entries R ! i) = fid" "fst R ! i \<in> set (re_entries R)"
    by (simp, simp, metis nth_mem)
qed

lemma find_none:
  assumes "re_inv R" "tt_resume_find R fid = None"
  shows "fid \<notin> re_file_id ` set (re_entries R)"
proof
  assume "fid \<in> re_file_id ` set (re_entries R)"
  then obtain e where e: "e \<in> set (re_entries R)" "re_file_id e = fid" by auto
  then obtain k where k: "k < length (re_entries R)" "re_entries R ! k = e" by (auto simp: in_set_conv_nth)
  then have "k < snd R" "fst R ! k = e" by (auto simp: re_entries_def)
  then show False
    using find_from_spec(2) [of "fst R" "snd R" fid 0 k] assms e by (auto simp: tt_resume_find_def re_inv_def)
qed

lemma fst_re_bind: "map fst (map re_bind es) = map re_file_id es" "fst ` set (map re_bind es) = re_file_id ` set es"
  by (simp_all add: re_bind_def comp_def image_image)

lemma put_found:
  assumes "re_inv R" "tt_resume_find R fid = Some i"
  shows "re_inv (tt_resume_put R fid path n)"
    "re_map (tt_resume_put R fid path n) = (re_map R)(fid \<mapsto> (take 1023 path, n))"
proof -
  let ?e = "(fst R ! i) \<lparr>re_path := take 1023 path, re_bytes := n\<rparr>"
  note f = find_entry [OF assms]
  have p: "tt_resume_put R fid path n = ((fst R)[i := ?e], snd R)"
    using assms(2) by (simp add: tt_resume_put_def split_beta Let_def)
  have es: "re_entries (tt_resume_put R fid path n) = (re_entries R)[i := ?e]"
    using f(1) by (simp add: p re_entries_def take_update_swap)
  have id: "map re_file_id ((re_entries R)[i := ?e]) = map re_file_id (re_entries R)"
    using f(4,5) by (simp add: map_update) (metis list_update_id nth_map)
  have u: "re_used ?e" using f(2) assms(1) by (auto simp: re_inv_def)
  then have "\<forall>e \<in> set ((re_entries R)[i := ?e]). re_used e"
    using assms(1) set_update_subset_insert [of "re_entries R" i ?e] by (auto simp: re_inv_def)
  then show "re_inv (tt_resume_put R fid path n)"
    using assms(1) unfolding re_inv_def es id by (simp add: p)
  have "re_bind ?e = (fid, take 1023 path, n)" using f(3,5) by (simp add: re_bind_def)
  then show "re_map (tt_resume_put R fid path n) = (re_map R)(fid \<mapsto> (take 1023 path, n))"
    unfolding re_map_def es map_update
    using map_of_update_nth [of "map re_bind (re_entries R)" i fid "(take 1023 path, n)"] assms(1) f(3,4)
    by (simp add: re_inv_def fst_re_bind(1) del: map_map) (simp add: re_bind_def)
qed

lemma put_new:
  assumes "re_inv R" "tt_resume_find R fid = None" "snd R < 32"
  shows "re_inv (tt_resume_put R fid path n)"
    "re_map (tt_resume_put R fid path n) = (re_map R)(fid \<mapsto> (take 1023 path, n))"
proof -
  let ?e = "re_zero \<lparr>re_used := True, re_file_id := fid, re_path := take 1023 path, re_bytes := n\<rparr>"
  have p: "tt_resume_put R fid path n = ((fst R)[snd R := ?e], Suc (snd R))"
    using assms(2,3) by (simp add: tt_resume_put_def split_beta Let_def)
  have es: "re_entries (tt_resume_put R fid path n) = re_entries R @ [?e]"
    using assms(1,3) by (simp add: p re_entries_def re_inv_def take_Suc_conv_app_nth)
  show "re_inv (tt_resume_put R fid path n)"
    using assms find_none [OF assms(1,2)] by (simp add: re_inv_def es) (simp add: p)
  have "re_bind ?e = (fid, take 1023 path, n)" by (simp add: re_bind_def)
  then show "re_map (tt_resume_put R fid path n) = (re_map R)(fid \<mapsto> (take 1023 path, n))"
    using map_of_snoc_fresh [of fid "map re_bind (re_entries R)"] find_none [OF assms(1,2)]
    by (simp add: re_map_def es fst_re_bind(2) del: map_of_append set_map)
qed

lemma del_found:
  assumes "re_inv R" "tt_resume_find R fid = Some i"
  shows "re_inv (tt_resume_del R fid)" "re_map (tt_resume_del R fid) = (re_map R)(fid := None)"
proof -
  note f = find_entry [OF assms]
  obtain c where c: "snd R = Suc c" using f(1) by (cases "snd R") auto
  define es where "es = take c (fst R)"
  define l where "l = fst R ! c"
  have len: "length (fst R) = 32" "c < 32" using assms(1) c by (auto simp: re_inv_def)
  have R: "re_entries R = es @ [l]" "length es = c"
    using len c by (simp_all add: re_entries_def es_def l_def take_Suc_conv_app_nth)
  have ul: "re_used l" and u: "\<forall>e \<in> set es. re_used e" and d: "distinct (map re_file_id (es @ [l]))"
    using assms(1) by (auto simp: re_inv_def R(1))
  have dd: "distinct (map fst (map re_bind es @ [re_bind l]))"
    using d by (simp add: re_bind_def comp_def image_image)
  have p: "tt_resume_del R fid = (fill_hole ((fst R)[i := re_zero]) i c, c)"
    using assms(2) c by (simp add: tt_resume_del_def split_beta Let_def)
  have mv: "re_entries (tt_resume_del R fid) = (if i = c then es else es[i := l]) \<and> length (fst (tt_resume_del R fid)) = 32"
  proof (cases "i = c")
    case True
    have "fill_hole xs c c = xs" for xs by (cases c) auto
    then show ?thesis using True len by (simp add: p re_entries_def es_def)
  next
    case False
    then have ic: "i < c" using f(1) c by simp
    then obtain c' where c': "c = Suc c'" by (cases c) auto
    have "fill_hole ((fst R)[i := re_zero]) i c = (fst R)[i := l, c := re_zero]"
      using ic ul c' by (simp add: l_def)
    then show ?thesis using ic len by (simp add: p re_entries_def es_def take_update_swap list_update_beyond)
  qed
  have fid: "re_file_id ((es @ [l]) ! i) = fid" using f(3) R(1) by simp
  have "re_inv (tt_resume_del R fid) \<and> re_map (tt_resume_del R fid) = (re_map R)(fid := None)"
  proof (cases "i = c")
    case True
    then have "fid = re_file_id l" using fid R(2) by (simp add: nth_append)
    then have "fid \<notin> fst ` set (map re_bind es)" using d by (simp only: fst_re_bind(2)) simp
    then have "map_of (map re_bind es) fid = None" by (simp only: map_of_eq_None_iff not_False_eq_True)
    then show ?thesis
      using True mv u d len(2) \<open>fid = re_file_id l\<close> arg_cong [OF p, of snd]
      by (auto simp: re_inv_def re_map_def R(1) p re_bind_def map_add_def fun_eq_iff split: option.split)
  next
    case False
    then have ic: "i < c" using f(1) c by simp
    have nth: "fst (map re_bind es ! i) = fid" using ic fid R(2) by (simp add: nth_append re_bind_def)
    note m = map_of_move_last [OF dd, of i]
    have "map re_bind (es[i := l]) = (map re_bind es)[i := re_bind l]" by (simp add: map_update)
    moreover have "distinct (map re_file_id (es[i := l]))"
      using m(1) ic R(2) by (simp add: map_update re_bind_def comp_def)
    moreover have "\<forall>e \<in> set (es[i := l]). re_used e"
      using u ul set_update_subset_insert [of es i l] by auto
    ultimately show ?thesis
      using False mv m(2) nth ic R len(2) by (simp add: re_inv_def re_map_def p)
  qed
  then show "re_inv (tt_resume_del R fid)" "re_map (tt_resume_del R fid) = (re_map R)(fid := None)" by auto
qed

lemma put_full: "tt_resume_find R fid = None \<Longrightarrow> re_inv R \<Longrightarrow> \<not> snd R < 32 \<Longrightarrow> tt_resume_put R fid path n = R"
  by (simp add: tt_resume_put_def split_beta Let_def)

lemma re_map_lookup:
  assumes "re_inv R"
  shows "re_map R fid = (case tt_resume_find R fid of None \<Rightarrow> None | Some i \<Rightarrow> Some (re_path (fst R ! i), re_bytes (fst R ! i)))"
proof (cases "tt_resume_find R fid")
  case None
  then have "map_of (map re_bind (re_entries R)) fid = None"
    using find_none [OF assms] by (simp only: map_of_eq_None_iff fst_re_bind(2) not_False_eq_True)
  then show ?thesis using None by (simp add: re_map_def)
next
  case (Some i)
  note f = find_entry [OF assms Some]
  have "re_bind (fst R ! i) \<in> set (map re_bind (re_entries R))" using f(2) by simp
  moreover have "re_bind (fst R ! i) = (fid, re_path (fst R ! i), re_bytes (fst R ! i))"
    using f(3,5) by (simp add: re_bind_def)
  moreover have "distinct (map fst (map re_bind (re_entries R)))"
    using assms by (simp only: fst_re_bind(1) re_inv_def)
  ultimately show ?thesis using Some by (simp add: re_map_def map_of_is_SomeI del: map_map set_map)
qed

lemma resume_map_ops:
  assumes "re_inv R"
  shows "re_inv (tt_resume_put R fid path n)"
    and "re_map (tt_resume_put R fid path n) =
      (if re_map R fid = None \<and> snd R = 32 then re_map R else (re_map R)(fid \<mapsto> (take 1023 path, n)))"
    and "re_inv (tt_resume_del R fid)"
    and "re_map (tt_resume_del R fid) = (re_map R)(fid := None)"
    and "re_map R fid = (case tt_resume_find R fid of None \<Rightarrow> None | Some i \<Rightarrow> Some (re_path (fst R ! i), re_bytes (fst R ! i)))"
proof -
  have c: "snd R \<le> 32" using assms by (simp add: re_inv_def)
  show look: "re_map R fid = (case tt_resume_find R fid of None \<Rightarrow> None | Some i \<Rightarrow> Some (re_path (fst R ! i), re_bytes (fst R ! i)))"
    by (rule re_map_lookup [OF assms])
  have "re_inv (tt_resume_put R fid path n) \<and> re_map (tt_resume_put R fid path n) =
      (if re_map R fid = None \<and> snd R = 32 then re_map R else (re_map R)(fid \<mapsto> (take 1023 path, n)))"
  proof (cases "tt_resume_find R fid")
    case None
    then have "re_map R fid = None" using look by simp
    then show ?thesis using put_new [OF assms None] put_full [OF None assms] assms c by (cases "snd R < 32") auto
  next
    case (Some i)
    then have "re_map R fid \<noteq> None" using look by simp
    then show ?thesis using put_found [OF assms Some] by auto
  qed
  then show "re_inv (tt_resume_put R fid path n)"
    "re_map (tt_resume_put R fid path n) =
      (if re_map R fid = None \<and> snd R = 32 then re_map R else (re_map R)(fid \<mapsto> (take 1023 path, n)))"
    by blast+
  have "re_inv (tt_resume_del R fid) \<and> re_map (tt_resume_del R fid) = (re_map R)(fid := None)"
  proof (cases "tt_resume_find R fid")
    case None
    then have "tt_resume_del R fid = R" by (simp add: tt_resume_del_def split_beta)
    moreover have "re_map R fid = None" using None look by simp
    ultimately show ?thesis using assms by (simp add: fun_upd_idem)
  next
    case (Some i)
    then show ?thesis using del_found [OF assms Some] by blast
  qed
  then show "re_inv (tt_resume_del R fid)" "re_map (tt_resume_del R fid) = (re_map R)(fid := None)" by blast+
qed

text \<open>The resume index is a finite map.  On every well-formed index a put binds its file id (cut path and
  byte count) unless the id is new and all 32 entries are taken, in which case nothing changes; a removal
  unbinds the id and nothing else, though it moves the last entry into the hole; a lookup points at the
  bound entry; and both operations keep the index well formed.\<close>

theorem resume_index_is_map:
  assumes "re_inv R"
  shows "re_inv (tt_resume_put R fid path n) \<and> re_inv (tt_resume_del R fid) \<and>
    re_map (tt_resume_put R fid path n) =
      (if re_map R fid = None \<and> snd R = 32 then re_map R else (re_map R)(fid \<mapsto> (take 1023 path, n))) \<and>
    re_map (tt_resume_del R fid) = (re_map R)(fid := None) \<and>
    re_map R fid = (case tt_resume_find R fid of None \<Rightarrow> None | Some i \<Rightarrow> Some (re_path (fst R ! i), re_bytes (fst R ! i)))"
  using resume_map_ops [OF assms] by blast

theorem resume_index_is_map_witness:
  "re_map (tt_resume_del (tt_resume_put (tt_resume_put re_empty (replicate 32 1) [97] 5) (replicate 32 2) [98] 6) (replicate 32 1))
     = [replicate 32 2 \<mapsto> ([98], 6)]"
proof -
  have e: "re_inv re_empty" "re_map re_empty = Map.empty" "snd re_empty = 0"
    by (simp_all add: re_inv_def re_empty_def re_map_def re_entries_def)
  note a = conjunct1 [OF resume_index_is_map [OF e(1), of "replicate 32 1" "[97]" 5]] resume_map_ops(2) [OF e(1), of "replicate 32 1" "[97]" 5]
  note b = conjunct1 [OF resume_index_is_map [OF a(1), of "replicate 32 2" "[98]" 6]] resume_map_ops(2) [OF a(1), of "replicate 32 2" "[98]" 6]
  note c = resume_map_ops(4) [OF b(1), of "replicate 32 1"]
  have n: "snd (tt_resume_put re_empty (replicate 32 1) [97] 5) \<noteq> 32"
    using e by (simp add: tt_resume_put_def tt_resume_find_def re_empty_def)
  show ?thesis unfolding c b(2) a(2) using n e(2,3) by (simp add: fun_upd_twist fun_eq_iff)
qed

section \<open>The round trip through the file\<close>

definition entry_ok :: "TTResumeEntry \<Rightarrow> bool" where
  "entry_ok e \<longleftrightarrow> re_stored e \<and> 0 \<notin> set (re_path e) \<and> length (re_file_id e) = 32"

definition re_loaded :: "TTResumeEntry list \<Rightarrow> resume_index" where
  "re_loaded es = (es @ replicate (32 - length es) re_zero, length es)"

lemma re_parse_entry:
  assumes "entry_ok e" "length es < 32"
  shows "re_parse (re_entry e @ r) (re_loaded es) = re_parse r (re_loaded (es @ [e]))"
proof -
  let ?n = "length (re_path e)" and ?p = "re_entry e @ r"
  let ?r1 = "re_path e @ 10 # re_file_id e @ r"
  have e: "re_used e" "re_path e \<noteq> []" "?n \<le> 1023" "c_str (re_path e) = re_path e" "length (re_file_id e) = 32"
    using assms(1) by (auto simp: entry_ok_def re_stored_def c_str_id)
  have "\<not> is_digit (hd (10 # ?r1))" by (simp add: is_digit_def word_le_nat_alt)
  then have s: "scan_uu 64 32 ?p = Some (unat (re_bytes e), ?n, 10 # ?r1)"
    using scan_uu_print [of "unat (re_bytes e)" 64 ?n 32 "10 # ?r1"] e(3) unsigned_less [of "re_bytes e"]
    by (simp add: re_entry_def)
  have ne: "re_entry e \<noteq> []" using print_u_nonempty by (simp add: re_entry_def)
  define z where "z = (re_zero \<lparr>re_path := re_path e\<rparr>)"
  have z: "z \<lparr>re_file_id := re_file_id e, re_bytes := re_bytes e, re_used := True\<rparr> = e"
    using e(1) by (simp add: z_def re_zero_def)
  obtain k where k: "32 - length es = Suc k" using assms(2) by (metis Suc_diff_Suc)
  then have k': "31 - length es = k" by simp
  have l: "fst (re_loaded es) = es @ re_zero # replicate k re_zero" "snd (re_loaded es) = length es"
    "re_loaded (es @ [e]) = (es @ e # replicate k re_zero, Suc (length es))"
    by (simp_all add: re_loaded_def k k')
  show ?thesis
    using e(2,3) assms(2)
    by (subst re_parse.simps) (simp add: s ne l e(4,5) Let_def nth_append z_def [symmetric] z)
qed

lemma re_parse_entries:
  "\<forall>e \<in> set es. entry_ok e \<Longrightarrow> length es0 + length es \<le> 32 \<Longrightarrow>
   re_parse (concat (map re_entry es)) (re_loaded es0) = re_loaded (es0 @ es)"
proof (induction es arbitrary: es0)
  case Nil
  then show ?case by (subst re_parse.simps) simp
next
  case (Cons e es)
  then show ?case using re_parse_entry [of e es0] by simp
qed

interpretation ref: sidecar_format "\<lambda>es. (\<forall>e \<in> set es. entry_ok e) \<and> length es \<le> 32" re_content
  "\<lambda>p. re_parse (re_start p) re_empty" re_loaded "4 * 1024 * 1024"
proof
  fix es assume a: "(\<forall>e \<in> set es. entry_ok e) \<and> length es \<le> 32"
  then have "filter re_stored es = es" by (simp add: filter_id_conv entry_ok_def)
  moreover have "re_empty = re_loaded []" by (simp add: re_empty_def re_loaded_def)
  ultimately show "re_parse (re_start (re_content es)) re_empty = re_loaded es"
    using re_parse_entries [of es "[]"] a by (simp add: re_content_def re_start_def re_magic_def)
qed (simp add: re_content_def re_magic_def ascii_def)

lemma resume_reload:
  fixes profile :: string and d :: disk
  assumes "toxes_ok T" "\<And>i. io i" "\<And>i. io' i" "re_inv R" "\<forall>e \<in> set (re_entries R). entry_ok e"
    "length (re_content (re_entries R)) + 80 \<le> 4 * 1024 * 1024"
    "key = None \<Longrightarrow> \<not> te_is_encrypted T (re_content (re_entries R))"
  defines "R' \<equiv> tt_resume_load T io' (Some profile) key (tt_resume_save T io R (Some profile) key d)"
  shows "re_entries R' = re_entries R" "re_inv R'" "re_map R' = re_map R"
proof -
  have "length (re_entries R) \<le> 32" using assms(4) by (simp add: re_inv_def re_entries_def)
  then obtain d' buf where b:
    "sidecar_write T io (4 * 1024 * 1024) key (rsum_path profile) (re_content (re_entries R)) d = (True, d')"
    "sidecar_read T io' (4 * 1024 * 1024) (rsum_path profile) d' = Some buf"
    "map_option (\<lambda>p. re_parse (re_start p) re_empty) (blob_decrypt T key buf) = Some (re_loaded (re_entries R))"
    using ref.load_after_save [of T io io' "re_entries R" key "rsum_path profile" d] assms by blast
  then obtain pt where "blob_decrypt T key buf = Some pt" "re_parse (re_start pt) re_empty = re_loaded (re_entries R)"
    by (auto simp: map_option_eq_Some)
  then have R': "R' = re_loaded (re_entries R)"
    using b(1,2) by (simp add: R'_def tt_resume_load_def tt_resume_save_def re_entries_def)
  have "re_entries (re_loaded es) = es" for es by (simp add: re_loaded_def re_entries_def)
  then show es: "re_entries R' = re_entries R" by (simp add: R')
  show "re_map R' = re_map R" by (simp add: re_map_def es)
  show "re_inv R'" using assms(4) es \<open>length (re_entries R) \<le> 32\<close>
    by (simp add: re_inv_def) (simp add: R' re_loaded_def)
qed

text \<open>The resume index survives a restart.  A well-formed index whose entries have a non-empty path and a
  32-byte id, saved with or without a key, is read back with the same entries in the same order: every
  lookup gives the same path and byte count as before.\<close>

theorem resume_index_roundtrip:
  assumes "toxes_ok T" "\<And>i. io i" "\<And>i. io' i" "re_inv R" "\<forall>e \<in> set (re_entries R). entry_ok e"
    "length (re_content (re_entries R)) + 80 \<le> 4 * 1024 * 1024"
    "key = None \<Longrightarrow> \<not> te_is_encrypted T (re_content (re_entries R))"
  shows "let R' = tt_resume_load T io' (Some profile) key (tt_resume_save T io R (Some profile) key d)
    in re_entries R' = re_entries R \<and> re_inv R' \<and> re_map R' = re_map R"
  using resume_reload [OF assms] by (simp add: Let_def)

theorem resume_index_roundtrip_witness:
  "re_map (tt_resume_load toy_toxes (\<lambda>_. True) (Some ''p'') (Some [])
     (tt_resume_save toy_toxes (\<lambda>_. True) (tt_resume_put re_empty (replicate 32 1) [97] 5) (Some ''p'') (Some []) Map.empty))
     = [replicate 32 1 \<mapsto> ([97], 5)]"
proof -
  let ?R = "tt_resume_put re_empty (replicate 32 1) [97] 5"
  define e where "e = re_zero \<lparr>re_used := True, re_file_id := replicate 32 1, re_path := [97], re_bytes := 5\<rparr>"
  have R: "?R = ((fst re_empty)[0 := e], 1)"
    by (simp add: tt_resume_put_def tt_resume_find_def re_empty_def e_def)
  have es: "re_entries ?R = [e]" unfolding R by (simp add: re_entries_def re_empty_def numeral_eq_Suc)
  have ok: "entry_ok e" by (simp add: entry_ok_def re_stored_def e_def)
  have inv: "re_inv ?R" unfolding re_inv_def es unfolding R by (simp add: e_def re_empty_def)
  have len: "length (re_content (re_entries ?R)) + 80 \<le> 4 * 1024 * 1024"
    unfolding es using ok
    by (simp add: re_content_def entry_ok_def re_entry_def re_magic_def e_def print_u.simps)
  have "re_map (tt_resume_load toy_toxes (\<lambda>_. True) (Some ''p'') (Some [])
     (tt_resume_save toy_toxes (\<lambda>_. True) ?R (Some ''p'') (Some []) Map.empty)) = re_map ?R"
    using resume_index_roundtrip [OF toy_toxes_ok _ _ inv _ len, where io = "\<lambda>_. True" and io' = "\<lambda>_. True" and key = "Some []"] es ok
    by (simp add: Let_def)
  also have "re_map ?R = [replicate 32 1 \<mapsto> ([97], 5)]"
    unfolding re_map_def es by (simp add: re_bind_def e_def)
  finally show ?thesis .
qed

end
