(* ===== verification/EventQueue.thy ===== *)
theory EventQueue
  imports Prelude
begin

text \<open>
  The event queue between the tox thread and the user interface, \<^verbatim>\<open>src/src/tox_thread.c\<close> (queue
  plumbing) and \<^verbatim>\<open>src/src/tox_thread.h\<close>.  The ring is a list of 256 slots with head and count.
  The bodies that run under the lock are functions that answer \<^const>\<open>None\<close> where the C code
  waits on the condition variable; the waiting itself is the step relation \<open>queue_step\<close>
  of one producer and one consumer, the use the header documents.
\<close>

abbreviation (input) "TT_QUEUE_CAP \<equiv> (256 :: nat)"

datatype TTEventType =
    TT_EV_TOXID | TT_EV_SELF_CONNECTION | TT_EV_SELF_NAME | TT_EV_SELF_STATUS_MSG | TT_EV_SELF_STATUS
  | TT_EV_FRIEND_NAME | TT_EV_FRIEND_MESSAGE | TT_EV_FRIEND_CONNECTION | TT_EV_FRIEND_STATUS_MSG | TT_EV_FRIEND_STATUS
  | TT_EV_FRIEND_PUBKEY | TT_EV_FRIEND_LAST_ONLINE | TT_EV_FRIEND_REQUEST | TT_EV_FRIEND_LIST_END
  | TT_EV_AVATAR_SELF | TT_EV_AVATAR | TT_EV_AVATAR_CLEARED
  | TT_EV_FILE_OFFER | TT_EV_FILE_RESUMED | TT_EV_FILE_PROGRESS | TT_EV_FILE_DONE | TT_EV_FILE_FAILED | TT_EV_FILE_TX_STARTED
  | TT_EV_GROUP_NEW | TT_EV_GROUP_JOINED | TT_EV_GROUP_LEFT | TT_EV_GROUP_MSG | TT_EV_GROUP_PRIV_MSG | TT_EV_GROUP_TOPIC
  | TT_EV_GROUP_PEER_JOIN | TT_EV_GROUP_PEER_EXIT | TT_EV_GROUP_PEER_NAME | TT_EV_GROUP_PEER_STATUS | TT_EV_GROUP_PEER_ROLE
  | TT_EV_GROUP_INVITE | TT_EV_GROUP_MOD | TT_EV_GROUP_STATE | TT_EV_GROUP_JOIN_FAIL | TT_EV_GROUP_MOD_SELF | TT_EV_GROUP_IGNORE_SELF
  | TT_EV_OFFLINE_FLUSHED | TT_EV_FRIEND_TYPING | TT_EV_FRIEND_READ_RECEIPT | TT_EV_MESSAGE_SENT | TT_EV_TOR_MODE
  | TT_EV_AV_INCOMING | TT_EV_AV_STATE | TT_EV_AV_ENDED | TT_EV_AV_FRAME
  | TT_EV_E2EE_STATE | TT_EV_E2EE_WARN | TT_EV_E2EE_ENFORCE | TT_EV_PASSPHRASE_NEEDED
  | TT_EV_CHESS_INVITE | TT_EV_CHESS_START | TT_EV_CHESS_MOVE | TT_EV_CHESS_END
  | TT_EV_TUNNEL_INVITE | TT_EV_TUNNEL_ADD | TT_EV_TUNNEL_STATE | TT_EV_TUNNEL_E2EE | TT_EV_TUNNEL_REMOVE | TT_EV_TUNNEL_ERROR
  | TT_EV_SHUTDOWN

text \<open>\<^verbatim>\<open>str\<close> with its length is a byte list; a null pointer is \<^const>\<open>None\<close>.\<close>

record TTEvent =
  ev_type :: TTEventType
  ev_fn :: nat
  ev_str :: "bytes option"
  ev_ival :: int
  ev_ival2 :: int

definition tt_event_new :: "TTEventType \<Rightarrow> TTEvent" where
  "tt_event_new ty = \<lparr>ev_type = ty, ev_fn = 0, ev_str = None, ev_ival = 0, ev_ival2 = 0\<rparr>"

text \<open>
  The event \<^verbatim>\<open>push_simple\<close> hands to the queue, \<^const>\<open>None\<close> when one of the two allocations fails.
\<close>

definition push_simple :: "bool \<Rightarrow> bool \<Rightarrow> TTEventType \<Rightarrow> nat \<Rightarrow> bytes option \<Rightarrow> nat \<Rightarrow> int \<Rightarrow> TTEvent option" where
  "push_simple alloc_ev alloc_str ty fn s len ival =
     (if \<not> alloc_ev then None
      else let ev = (tt_event_new ty) \<lparr>ev_fn := fn, ev_ival := ival\<rparr>
        in case s of
             Some b \<Rightarrow> if len = 0 then Some ev else if \<not> alloc_str then None else Some (ev \<lparr>ev_str := Some (take len b)\<rparr>)
           | None \<Rightarrow> Some ev)"

definition tt_queue_post2 :: "bool \<Rightarrow> bool \<Rightarrow> TTEventType \<Rightarrow> nat \<Rightarrow> bytes option \<Rightarrow> int \<Rightarrow> int \<Rightarrow> TTEvent option" where
  "tt_queue_post2 alloc_ev alloc_str ty fn s ival ival2 =
     (if \<not> alloc_ev then None
      else let ev = (tt_event_new ty) \<lparr>ev_fn := fn, ev_ival := ival, ev_ival2 := ival2\<rparr>
        in case s of Some b \<Rightarrow> if alloc_str then Some (ev \<lparr>ev_str := Some b\<rparr>) else None | None \<Rightarrow> Some ev)"

definition tt_queue_post :: "bool \<Rightarrow> bool \<Rightarrow> TTEventType \<Rightarrow> nat \<Rightarrow> bytes option \<Rightarrow> int \<Rightarrow> TTEvent option" where
  "tt_queue_post alloc_ev alloc_str ty fn s ival =
     (if \<not> alloc_ev then None
      else let ev = (tt_event_new ty) \<lparr>ev_fn := fn, ev_ival := ival\<rparr>
        in case s of Some b \<Rightarrow> if alloc_str then Some (ev \<lparr>ev_str := Some b\<rparr>) else None | None \<Rightarrow> Some ev)"

section \<open>The ring\<close>

record TTQueue =
  q_items :: "TTEvent option list"
  q_head :: nat
  q_count :: nat

definition tt_queue_init :: TTQueue where
  "tt_queue_init = \<lparr>q_items = replicate TT_QUEUE_CAP None, q_head = 0, q_count = 0\<rparr>"

definition tt_queue_push :: "TTQueue \<Rightarrow> TTEvent \<Rightarrow> TTQueue option" where
  "tt_queue_push q ev =
     (if q_count q = TT_QUEUE_CAP then None
      else Some (q \<lparr>q_items := (q_items q)[(q_head q + q_count q) mod TT_QUEUE_CAP := Some ev], q_count := q_count q + 1\<rparr>))"

definition tt_queue_pop :: "TTQueue \<Rightarrow> (TTEvent option \<times> TTQueue) option" where
  "tt_queue_pop q =
     (if q_count q = 0 then None
      else Some (q_items q ! q_head q, q \<lparr>q_head := (q_head q + 1) mod TT_QUEUE_CAP, q_count := q_count q - 1\<rparr>))"

text \<open>What \<^verbatim>\<open>tt_queue_destroy\<close> frees.\<close>

definition tt_queue_destroy :: "TTQueue \<Rightarrow> TTEvent option list" where
  "tt_queue_destroy q = map (\<lambda>i. q_items q ! ((q_head q + i) mod TT_QUEUE_CAP)) [0..<q_count q]"

definition q_inv :: "TTQueue \<Rightarrow> bool" where
  "q_inv q \<longleftrightarrow> length (q_items q) = TT_QUEUE_CAP \<and> q_head q < TT_QUEUE_CAP \<and> q_count q \<le> TT_QUEUE_CAP"

definition q_list :: "TTQueue \<Rightarrow> TTEvent option list" where
  "q_list q = ring_entries (q_items q) (q_head q) (q_count q)"

lemma length_q_list [simp]: "length (q_list q) = q_count q"
  by (simp add: q_list_def)

lemma queue_init_spec: "q_inv tt_queue_init" "q_list tt_queue_init = []"
  by (simp_all add: tt_queue_init_def q_inv_def q_list_def ring_entries_def)

lemma queue_push_spec:
  assumes "q_inv q" "q_count q < TT_QUEUE_CAP"
  obtains q' where "tt_queue_push q ev = Some q'" "q_inv q'" "q_list q' = q_list q @ [Some ev]" "q_count q' = Suc (q_count q)"
  using assms ring_entries_push [of "q_count q" "q_items q" "q_head q" "Some ev"] that
  by (simp add: tt_queue_push_def q_inv_def q_list_def)

lemma queue_pop_spec:
  assumes "q_inv q" "0 < q_count q"
  obtains q' where "tt_queue_pop q = Some (hd (q_list q), q')" "q_inv q'" "q_list q' = tl (q_list q)" "q_count q' = q_count q - 1"
proof -
  have "q_list q \<noteq> []" using assms(2) by (metis length_q_list list.size(3) less_not_refl)
  moreover have "hd (q_list q) = q_items q ! q_head q"
    using assms by (simp add: q_list_def ring_entries_def hd_map hd_upt q_inv_def)
  moreover have "q_inv (q \<lparr>q_head := (q_head q + 1) mod 256, q_count := q_count q - 1\<rparr>)"
    using assms by (auto simp: q_inv_def)
  moreover have "q_list (q \<lparr>q_head := (q_head q + 1) mod 256, q_count := q_count q - 1\<rparr>) = tl (q_list q)"
    using assms ring_entries_drop [of "q_count q" "q_items q" "q_head q"] by (simp add: q_inv_def q_list_def)
  ultimately show ?thesis using assms(2) by (intro that) (auto simp: tt_queue_pop_def)
qed

lemma queue_destroy_frees_all: "q_inv q \<Longrightarrow> tt_queue_destroy q = q_list q"
  by (simp add: tt_queue_destroy_def q_list_def ring_entries_def q_inv_def)

section \<open>Producer and consumer\<close>

text \<open>
  Each side is idle, waits on the condition variable, or has been woken and will look again.
  The two ghost lists record the pushes that completed and the events handed out.
\<close>

datatype producer = PIdle | PWait TTEvent | PWoken TTEvent
datatype consumer = CIdle | CWait | CWoken

record qsys =
  qs_queue :: TTQueue
  qs_prod :: producer
  qs_cons :: consumer
  qs_sent :: "TTEvent list"
  qs_got :: "TTEvent option list"

definition qsys_init :: qsys where
  "qsys_init = \<lparr>qs_queue = tt_queue_init, qs_prod = PIdle, qs_cons = CIdle, qs_sent = [], qs_got = []\<rparr>"

text \<open>One pass through the loop of \<^verbatim>\<open>tt_queue_push\<close>: wait, or store and signal.\<close>

definition try_push :: "TTEvent \<Rightarrow> qsys \<Rightarrow> qsys" where
  "try_push ev s =
     (case tt_queue_push (qs_queue s) ev of
        None \<Rightarrow> s \<lparr>qs_prod := PWait ev\<rparr>
      | Some q \<Rightarrow> s \<lparr>qs_queue := q, qs_prod := PIdle, qs_sent := qs_sent s @ [ev],
                     qs_cons := (if qs_cons s = CWait then CWoken else qs_cons s)\<rparr>)"

definition try_pop :: "qsys \<Rightarrow> qsys" where
  "try_pop s =
     (case tt_queue_pop (qs_queue s) of
        None \<Rightarrow> s \<lparr>qs_cons := CWait\<rparr>
      | Some (ev, q) \<Rightarrow> s \<lparr>qs_queue := q, qs_cons := CIdle, qs_got := qs_got s @ [ev],
                     qs_prod := (case qs_prod s of PWait e \<Rightarrow> PWoken e | p \<Rightarrow> p)\<rparr>)"

inductive queue_step :: "qsys \<Rightarrow> qsys \<Rightarrow> bool" where
  push: "qs_prod s = PIdle \<Longrightarrow> queue_step s (try_push ev s)"
| push_again: "qs_prod s = PWoken ev \<Longrightarrow> queue_step s (try_push ev s)"
| push_spurious: "qs_prod s = PWait ev \<Longrightarrow> queue_step s (s \<lparr>qs_prod := PWoken ev\<rparr>)"
| pop: "qs_cons s = CIdle \<Longrightarrow> queue_step s (try_pop s)"
| pop_again: "qs_cons s = CWoken \<Longrightarrow> queue_step s (try_pop s)"
| pop_spurious: "qs_cons s = CWait \<Longrightarrow> queue_step s (s \<lparr>qs_cons := CWoken\<rparr>)"
| pop_timeout: "qs_cons s = CWait \<Longrightarrow> q_count (qs_queue s) = 0 \<Longrightarrow> queue_step s (s \<lparr>qs_cons := CIdle\<rparr>)"

inductive queue_reach :: "qsys \<Rightarrow> bool" where
  init: "queue_reach qsys_init"
| step: "queue_reach s \<Longrightarrow> queue_step s s' \<Longrightarrow> queue_reach s'"

definition qsys_inv :: "qsys \<Rightarrow> bool" where
  "qsys_inv s \<longleftrightarrow> q_inv (qs_queue s) \<and> map Some (qs_sent s) = qs_got s @ q_list (qs_queue s) \<and>
     (\<forall>ev. qs_prod s = PWait ev \<longrightarrow> q_count (qs_queue s) = TT_QUEUE_CAP) \<and>
     (qs_cons s = CWait \<longrightarrow> q_count (qs_queue s) = 0)"

lemma try_push_inv:
  assumes "qsys_inv s"
  shows "qsys_inv (try_push ev s)"
proof (cases "q_count (qs_queue s) = 256")
  case True
  then show ?thesis using assms by (simp add: try_push_def tt_queue_push_def qsys_inv_def)
next
  case False
  then have "q_inv (qs_queue s)" "q_count (qs_queue s) < 256" using assms by (auto simp: qsys_inv_def q_inv_def)
  then obtain q' where "tt_queue_push (qs_queue s) ev = Some q'" "q_inv q'" "q_list q' = q_list (qs_queue s) @ [Some ev]"
    by (rule queue_push_spec)
  then show ?thesis using assms by (auto simp: try_push_def qsys_inv_def)
qed

lemma try_pop_inv:
  assumes "qsys_inv s"
  shows "qsys_inv (try_pop s)"
proof (cases "q_count (qs_queue s) = 0")
  case True
  then show ?thesis using assms by (simp add: try_pop_def tt_queue_pop_def qsys_inv_def)
next
  case False
  then have q: "q_inv (qs_queue s)" "0 < q_count (qs_queue s)" using assms by (auto simp: qsys_inv_def)
  then obtain q' where p: "tt_queue_pop (qs_queue s) = Some (hd (q_list (qs_queue s)), q')" "q_inv q'" "q_list q' = tl (q_list (qs_queue s))"
    by (rule queue_pop_spec)
  moreover have "q_list (qs_queue s) \<noteq> []" using q(2) by (metis length_q_list list.size(3) less_not_refl)
  ultimately show ?thesis using assms by (auto simp: try_pop_def qsys_inv_def split: producer.splits)
qed

lemma queue_step_inv: "queue_step s s' \<Longrightarrow> qsys_inv s \<Longrightarrow> qsys_inv s'"
proof (induction rule: queue_step.induct)
  case (push_spurious s ev)
  then show ?case by (auto simp: qsys_inv_def)
qed (auto simp: try_push_inv try_pop_inv, auto simp: qsys_inv_def)

lemma queue_reach_inv: "queue_reach s \<Longrightarrow> qsys_inv s"
proof (induction rule: queue_reach.induct)
  case init
  then show ?case using queue_init_spec by (simp add: qsys_inv_def qsys_init_def)
qed (rule queue_step_inv)

text \<open>C26: the event queue is a bounded FIFO channel that loses nothing.  Whatever the interleaving of one
  producer and one consumer, with waiting, wake-ups (spurious ones too) and time-outs: at most 256 events
  are queued, the events handed out followed by those in the ring are exactly the events pushed, in order,
  and the queue is destroyed with exactly the undelivered events freed.\<close>

theorem event_queue_fifo:
  assumes "queue_reach s"
  shows "map Some (qs_sent s) = qs_got s @ q_list (qs_queue s) \<and> q_count (qs_queue s) \<le> TT_QUEUE_CAP \<and>
    tt_queue_destroy (qs_queue s) = drop (length (qs_got s)) (map Some (qs_sent s))"
  using queue_reach_inv [OF assms] by (simp add: qsys_inv_def q_inv_def queue_destroy_frees_all)

lemma queue_one_push: "queue_reach (try_push ev qsys_init)"
  by (rule step [OF init push]) (simp add: qsys_init_def)

theorem event_queue_fifo_witness:
  "tt_queue_destroy (qs_queue (try_push (tt_event_new TT_EV_SHUTDOWN) qsys_init)) = [Some (tt_event_new TT_EV_SHUTDOWN)]"
  using event_queue_fifo [OF queue_one_push [of "tt_event_new TT_EV_SHUTDOWN"]]
  by (simp add: try_push_def qsys_init_def tt_queue_push_def tt_queue_init_def)

text \<open>The queue does not deadlock.  The two sides never wait at the same time: a producer waits only on a
  full ring and a consumer only on an empty one.  A waiting producer is woken by the consumer's next pop and
  its push then succeeds; a waiting consumer is woken by the next push and its pop then succeeds.\<close>

theorem event_queue_no_deadlock:
  assumes "queue_reach s"
  shows "\<not> ((\<exists>ev. qs_prod s = PWait ev) \<and> qs_cons s = CWait) \<and>
    (\<forall>ev. qs_prod s = PWait ev \<longrightarrow>
       qs_prod (try_pop s) = PWoken ev \<and> qs_sent (try_push ev (try_pop s)) = qs_sent s @ [ev]) \<and>
    (\<forall>ev. qs_cons s = CWait \<longrightarrow>
       qs_cons (try_push ev s) = CWoken \<and> qs_got (try_pop (try_push ev s)) = qs_got s @ [Some ev])"
proof -
  have inv: "qsys_inv s" by (rule queue_reach_inv [OF assms])
  have pw: "qs_prod (try_pop s) = PWoken ev \<and> qs_sent (try_push ev (try_pop s)) = qs_sent s @ [ev]" if "qs_prod s = PWait ev" for ev
  proof -
    have "q_inv (qs_queue s)" "q_count (qs_queue s) = 256" using inv that by (auto simp: qsys_inv_def)
    then show ?thesis using that by (simp add: try_pop_def tt_queue_pop_def try_push_def tt_queue_push_def)
  qed
  have cw: "qs_cons (try_push ev s) = CWoken \<and> qs_got (try_pop (try_push ev s)) = qs_got s @ [Some ev]" if "qs_cons s = CWait" for ev
  proof -
    have "q_inv (qs_queue s)" "q_count (qs_queue s) = 0" using inv that by (auto simp: qsys_inv_def)
    then show ?thesis using that by (simp add: try_pop_def tt_queue_pop_def try_push_def tt_queue_push_def q_inv_def)
  qed
  show ?thesis using pw cw inv by (auto simp: qsys_inv_def)
qed

theorem event_queue_no_deadlock_witness:
  "qs_cons (try_push (tt_event_new TT_EV_SHUTDOWN) (try_pop qsys_init)) = CWoken"
proof -
  have "queue_reach (try_pop qsys_init)" by (rule step [OF init pop]) (simp add: qsys_init_def)
  moreover have "qs_cons (try_pop qsys_init) = CWait"
    by (simp add: try_pop_def qsys_init_def tt_queue_pop_def tt_queue_init_def)
  ultimately show ?thesis using event_queue_no_deadlock by blast
qed

end
