(* ===== verification/FileTransfer.thy ===== *)
theory FileTransfer
  imports Resume EventQueue
begin

text \<open>
  File transfers and avatars of the tox thread, \<^verbatim>\<open>src/src/tox_thread.c\<close>: the table of 16 general
  transfers, the avatar of the user and of every friend, the toxcore file callbacks and the file
  and avatar commands.

  A \<^verbatim>\<open>TTXfer *\<close> is an index into the table.  An open file is its path and its position; a write
  is on the disk at once.  The state logs the calls made to toxcore and the events pushed to the
  user interface.  \<open>fenv\<close> holds what toxcore and the operating system answer: the file id of an
  offer, the outcome of an offer and of a chunk, the outcome of each file operation, the SHA-256
  function, the content of fresh memory.  Allocation succeeds.
\<close>

type_synonym u64 = "64 word"

abbreviation (input) "TT_MAX_FRIENDS \<equiv> (256 :: nat)"
abbreviation (input) "TT_MAX_XFERS \<equiv> (16 :: nat)"
abbreviation (input) "TT_AVATAR_MAX_SIZE \<equiv> (65536 :: nat)"
abbreviation (input) "TOX_MAX_FILENAME_LENGTH \<equiv> (255 :: nat)"
abbreviation (input) "UINT32_MAX \<equiv> (4294967295 :: nat)"

datatype file_control = FILE_RESUME | FILE_PAUSE | FILE_CANCEL
datatype file_kind = KIND_DATA | KIND_AVATAR | KIND_OTHER

datatype tox_call =
    CControl nat nat file_control
  | CSeek nat nat u64
  | CSend nat file_kind nat "bytes option" bytes
  | CChunk nat nat u64 bytes

record TTAvatar =
  av_has :: bool
  av_hash :: bytes
  av_data :: bytes
  av_size :: nat
  av_rx_active :: bool
  av_rx_file_number :: nat
  av_rx_expected :: nat
  av_rx_got :: nat

record TTXfer =
  x_active :: bool
  x_id :: u32
  x_fn :: nat
  x_file_number :: nat
  x_sending :: bool
  x_accepted :: bool
  x_fp :: "(string \<times> nat) option"
  x_size :: u64
  x_got :: u64
  x_got_prev :: u64
  x_file_id :: bytes
  x_have_file_id :: bool
  x_name :: bytes
  x_path :: bytes

record fenv =
  f_toxes :: toxes
  f_io :: "nat \<Rightarrow> bool"
  f_profile :: "string option"
  f_key :: "bytes option"
  f_hash :: "bytes \<Rightarrow> bytes"
  f_malloc :: "nat \<Rightarrow> bytes"
  f_friends :: "nat list"
  f_file_id :: "nat \<Rightarrow> nat \<Rightarrow> bytes option"
  f_offer :: "nat \<Rightarrow> nat option"
  f_chunk_ok :: bool
  f_open :: "string \<Rightarrow> bool"
  f_fdopen :: bool
  f_seek :: bool
  f_tell :: bool
  f_read :: bool
  f_write :: bool
  f_flush :: bool

record fstate =
  fs_xfers :: "TTXfer list"
  fs_seq :: u32
  fs_self :: TTAvatar
  fs_avatars :: "TTAvatar list"
  fs_sent_hash :: "bytes list"
  fs_resume :: resume_index
  fs_disk :: disk
  fs_calls :: "tox_call list"
  fs_events :: "TTEvent list"

definition avatar_zero :: TTAvatar where
  "avatar_zero = \<lparr>av_has = False, av_hash = replicate 32 0, av_data = [], av_size = 0, av_rx_active = False,
     av_rx_file_number = 0, av_rx_expected = 0, av_rx_got = 0\<rparr>"

definition xfer_zero :: TTXfer where
  "xfer_zero = \<lparr>x_active = False, x_id = 0, x_fn = 0, x_file_number = 0, x_sending = False, x_accepted = False,
     x_fp = None, x_size = 0, x_got = 0, x_got_prev = 0, x_file_id = replicate 32 0, x_have_file_id = False,
     x_name = [], x_path = []\<rparr>"

text \<open>A C string as the name of a file.\<close>

definition path_str :: "bytes \<Rightarrow> string" where
  "path_str b = map (\<lambda>x. char_of (unat x)) b"

definition f_call :: "tox_call \<Rightarrow> fstate \<Rightarrow> fstate" where
  "f_call c st = st \<lparr>fs_calls := fs_calls st @ [c]\<rparr>"

definition f_push :: "TTEvent \<Rightarrow> fstate \<Rightarrow> fstate" where
  "f_push ev st = st \<lparr>fs_events := fs_events st @ [ev]\<rparr>"

definition xfer_put :: "nat \<Rightarrow> TTXfer \<Rightarrow> fstate \<Rightarrow> fstate" where
  "xfer_put i x st = st \<lparr>fs_xfers := (fs_xfers st)[i := x]\<rparr>"

definition avatar_put :: "nat \<Rightarrow> TTAvatar \<Rightarrow> fstate \<Rightarrow> fstate" where
  "avatar_put fn a st = st \<lparr>fs_avatars := (fs_avatars st)[fn := a]\<rparr>"

definition resume_store :: "fenv \<Rightarrow> fstate \<Rightarrow> fstate" where
  "resume_store E st = st \<lparr>fs_disk := tt_resume_save (f_toxes E) (f_io E) (fs_resume st) (f_profile E) (f_key E) (fs_disk st)\<rparr>"

text \<open>\<^verbatim>\<open>fwrite\<close> at a position: bytes beyond the old end are zero.\<close>

definition write_at :: "bytes \<Rightarrow> nat \<Rightarrow> bytes \<Rightarrow> bytes" where
  "write_at c pos data = take pos (c @ replicate (pos - length c) 0) @ data @ drop (pos + length data) c"

definition disk_content :: "disk \<Rightarrow> string \<Rightarrow> bytes" where
  "disk_content d p = (case d p of None \<Rightarrow> [] | Some c \<Rightarrow> c)"

section \<open>Avatars\<close>

definition tt_avatar_free :: "TTAvatar \<Rightarrow> TTAvatar" where
  "tt_avatar_free a = avatar_zero"

definition tt_avatar_set :: "fenv \<Rightarrow> TTAvatar \<Rightarrow> bytes \<Rightarrow> bool \<times> TTAvatar" where
  "tt_avatar_set E a png =
     (if png = [] \<or> length png > TT_AVATAR_MAX_SIZE then (False, a)
      else (True, a \<lparr>av_data := png, av_size := length png, av_has := True, av_hash := f_hash E png\<rparr>))"

definition ava_path :: "string \<Rightarrow> string" where
  "ava_path profile = profile @ ''.ava''"

definition ava_magic :: bytes where
  "ava_magic = ascii ''TTAV1''"

definition avatar_persist :: "fenv \<Rightarrow> TTAvatar \<Rightarrow> disk \<Rightarrow> disk" where
  "avatar_persist E a d =
     (case f_profile E of
        None \<Rightarrow> d
      | Some profile \<Rightarrow>
          let path = ava_path profile in
          if \<not> av_has a then d(path := None)
          else if \<not> f_open E path then d
          else d(path \<mapsto> ava_magic @ [of_nat (av_size a), of_nat (av_size a div 256), of_nat (av_size a div 65536)]
                          @ take (av_size a) (av_data a)))"

definition avatar_persist_load :: "fenv \<Rightarrow> fstate \<Rightarrow> fstate" where
  "avatar_persist_load E st =
     (case f_profile E of
        None \<Rightarrow> st
      | Some profile \<Rightarrow>
          (case fs_disk st (ava_path profile) of
             None \<Rightarrow> st
           | Some c \<Rightarrow>
               if \<not> f_open E (ava_path profile) \<or> length c < 8 \<or> take 5 c \<noteq> ava_magic then st
               else
                 let size = unat (c ! 5) + unat (c ! 6) * 256 + unat (c ! 7) * 65536 in
                 if size = 0 \<or> size > TT_AVATAR_MAX_SIZE then st
                 else if length (drop 8 c) < size then st
                 else st \<lparr>fs_self := snd (tt_avatar_set E (fs_self st) (take size (drop 8 c)))\<rparr>))"

definition avatar_push_to_friend :: "fenv \<Rightarrow> fstate \<Rightarrow> nat \<Rightarrow> fstate" where
  "avatar_push_to_friend E st fn =
     (if \<not> av_has (fs_self st) then st
      else if fs_sent_hash st ! fn = av_hash (fs_self st) then st
      else
        let st1 = f_call (CSend fn KIND_AVATAR (av_size (fs_self st)) (Some (av_hash (fs_self st))) []) st in
        if f_offer E fn = None then st1
        else st1 \<lparr>fs_sent_hash := (fs_sent_hash st1)[fn := av_hash (fs_self st1)]\<rparr>)"

definition avatar_push_all :: "fenv \<Rightarrow> fstate \<Rightarrow> fstate" where
  "avatar_push_all E st = foldl (avatar_push_to_friend E) st (f_friends E)"

definition avatar_clear_all_sent :: "fstate \<Rightarrow> fstate" where
  "avatar_clear_all_sent st = st \<lparr>fs_sent_hash := replicate TT_MAX_FRIENDS (replicate 32 0)\<rparr>"

definition png_magic :: bytes where
  "png_magic = [0x89, 0x50, 0x4E, 0x47, 0x0D, 0x0A, 0x1A, 0x0A]"

definition cmd_set_avatar :: "fenv \<Rightarrow> fstate \<Rightarrow> bytes option \<Rightarrow> fstate" where
  "cmd_set_avatar E st str =
     (case str of
        None \<Rightarrow> st
      | Some p \<Rightarrow>
          (case fs_disk st (path_str p) of
             None \<Rightarrow> st
           | Some c \<Rightarrow>
               if \<not> f_open E (path_str p) then st
               else if \<not> f_tell E \<or> length c = 0 \<or> length c > TT_AVATAR_MAX_SIZE then st
               else if \<not> f_read E then st
               else if length c < 8 \<or> take 8 c \<noteq> png_magic then st
               else case tt_avatar_set E (fs_self st) c of
                      (False, _) \<Rightarrow> st
                    | (True, a) \<Rightarrow>
                        let st1 = avatar_push_all E (avatar_clear_all_sent (st \<lparr>fs_self := a\<rparr>));
                            st2 = st1 \<lparr>fs_disk := avatar_persist E (fs_self st1) (fs_disk st1)\<rparr>
                        in f_push ((tt_event_new TT_EV_AVATAR_SELF) \<lparr>ev_str := Some c\<rparr>) st2))"

definition cmd_clear_avatar :: "fenv \<Rightarrow> fstate \<Rightarrow> fstate" where
  "cmd_clear_avatar E st =
     (let st1 = avatar_clear_all_sent (st \<lparr>fs_self := tt_avatar_free (fs_self st)\<rparr>);
          st2 = st1 \<lparr>fs_disk := avatar_persist E (fs_self st1) (fs_disk st1)\<rparr>;
          st3 = foldl (\<lambda>s fn. f_call (CSend fn KIND_AVATAR 0 None []) s) st2 (f_friends E)
      in f_push (tt_event_new TT_EV_AVATAR_SELF) st3)"

section \<open>The transfer table\<close>

definition xfer_alloc :: "fstate \<Rightarrow> (nat \<times> fstate) option" where
  "xfer_alloc st =
     (case find (\<lambda>i. \<not> x_active (fs_xfers st ! i)) [0..<TT_MAX_XFERS] of
        None \<Rightarrow> None
      | Some i \<Rightarrow>
          let seq = fs_seq st + 1 in
          Some (i, xfer_put i (xfer_zero \<lparr>x_active := True, x_id := seq, x_fn := UINT32_MAX, x_file_number := UINT32_MAX\<rparr>)
                     (st \<lparr>fs_seq := seq\<rparr>)))"

definition xfer_free :: "nat \<Rightarrow> fstate \<Rightarrow> fstate" where
  "xfer_free i st = xfer_put i xfer_zero st"

definition xfer_find :: "fstate \<Rightarrow> nat \<Rightarrow> nat \<Rightarrow> nat option" where
  "xfer_find st fn file_number =
     find (\<lambda>i. let x = fs_xfers st ! i in x_active x \<and> x_fn x = fn \<and> x_file_number x = file_number) [0..<TT_MAX_XFERS]"

definition xfer_by_id :: "fstate \<Rightarrow> u32 \<Rightarrow> nat option" where
  "xfer_by_id st xid = find (\<lambda>i. x_active (fs_xfers st ! i) \<and> x_id (fs_xfers st ! i) = xid) [0..<TT_MAX_XFERS]"

definition xfer_event :: "TTEventType \<Rightarrow> TTXfer \<Rightarrow> bytes option \<Rightarrow> TTEvent" where
  "xfer_event ty x str = (tt_event_new ty) \<lparr>ev_fn := x_fn x, ev_ival := sint (x_id x), ev_str := str\<rparr>"

definition xfer_progress :: "fenv \<Rightarrow> nat \<Rightarrow> fstate \<Rightarrow> fstate" where
  "xfer_progress E i st =
     (let x = fs_xfers st ! i;
          step = 262144;
          emit = (x_got x \<ge> x_size x \<or> x_got x div step \<noteq> x_got_prev x div step)
      in if \<not> emit then st
         else
           let st1 = xfer_put i (x \<lparr>x_got_prev := x_got x\<rparr>) st;
               st2 = (if \<not> x_sending x \<and> x_have_file_id x then resume_store E st1 else st1)
           in f_push (xfer_event TT_EV_FILE_PROGRESS x
                        (Some (print_u (unat (x_got x)) @ [47] @ print_u (unat (x_size x))))) st2)"

definition xfer_failed :: "fenv \<Rightarrow> nat \<Rightarrow> fstate \<Rightarrow> fstate" where
  "xfer_failed E i st =
     (let x = fs_xfers st ! i;
          st1 = (if \<not> x_sending x \<and> x_have_file_id x \<and> x_got x > 0 \<and> x_got x < x_size x then resume_store E st else st)
      in xfer_free i (f_push (xfer_event TT_EV_FILE_FAILED x None) st1))"

definition xfer_done :: "fenv \<Rightarrow> nat \<Rightarrow> fstate \<Rightarrow> fstate" where
  "xfer_done E i st =
     (let x = fs_xfers st ! i;
          st1 = (if x_have_file_id x
                 then resume_store E (st \<lparr>fs_resume := tt_resume_del (fs_resume st) (x_file_id x)\<rparr>) else st)
      in xfer_free i (f_push (xfer_event TT_EV_FILE_DONE x (Some (x_path x))) st1))"

definition xfer_all_purge :: "fenv \<Rightarrow> nat \<Rightarrow> fstate \<Rightarrow> fstate" where
  "xfer_all_purge E fn st =
     foldl (\<lambda>s i. if x_active (fs_xfers s ! i) \<and> x_fn (fs_xfers s ! i) = fn then xfer_failed E i s else s) st [0..<TT_MAX_XFERS]"

text \<open>\<^verbatim>\<open>tox_file_control(CANCEL)\<close> followed by \<^verbatim>\<open>xfer_failed\<close>.\<close>

definition cancel_failed :: "fenv \<Rightarrow> nat \<Rightarrow> nat \<Rightarrow> nat \<Rightarrow> fstate \<Rightarrow> fstate" where
  "cancel_failed E i fn file_number st = xfer_failed E i (f_call (CControl fn file_number FILE_CANCEL) st)"

section \<open>Commands\<close>

text \<open>\<^verbatim>\<open>strrchr(path, '/')\<close>: the part after the last slash.\<close>

definition base_name :: "bytes \<Rightarrow> bytes" where
  "base_name p = rev (takeWhile (\<lambda>x. x \<noteq> 47) (rev p))"

definition handle_cmd_send_file :: "fenv \<Rightarrow> fstate \<Rightarrow> nat \<Rightarrow> bytes option \<Rightarrow> fstate" where
  "handle_cmd_send_file E st fn str =
     (case str of
        None \<Rightarrow> st
      | Some path \<Rightarrow>
          (case (if f_open E (path_str path) then fs_disk st (path_str path) else None) of
             None \<Rightarrow> f_push (tt_event_new TT_EV_FILE_FAILED) st
           | Some c \<Rightarrow>
               if \<not> f_tell E then st
               else case xfer_alloc st of
                 None \<Rightarrow> st
               | Some (i, st1) \<Rightarrow>
                   let x = (fs_xfers st1 ! i) \<lparr>x_fn := fn, x_sending := True, x_accepted := True,
                             x_fp := Some (path_str path, 0), x_size := of_nat (length c), x_got := 0,
                             x_name := take TOX_MAX_FILENAME_LENGTH (base_name path), x_path := take 1023 path,
                             x_file_id := f_hash E c, x_have_file_id := True\<rparr>;
                       st2 = f_call (CSend fn KIND_DATA (length c) (Some (x_file_id x)) (x_name x)) (xfer_put i x st1)
                   in case f_offer E fn of
                        None \<Rightarrow> xfer_failed E i st2
                      | Some num \<Rightarrow>
                          f_push (xfer_event TT_EV_FILE_TX_STARTED x (Some (x_name x @ [10] @ print_u (length c))))
                            (xfer_put i (x \<lparr>x_file_number := num\<rparr>) st2)))"

definition rx_waiting :: "fstate \<Rightarrow> u32 \<Rightarrow> nat \<Rightarrow> bool" where
  "rx_waiting st xid i \<longleftrightarrow> (let x = fs_xfers st ! i in x_active x \<and> x_id x = xid \<and> \<not> x_sending x \<and> \<not> x_accepted x)"

text \<open>The length of a partial download at the destination, 0 when there is none to resume.\<close>

definition partial_len :: "fenv \<Rightarrow> fstate \<Rightarrow> string \<Rightarrow> u64 \<Rightarrow> nat" where
  "partial_len E st p fsize =
     (case (if f_open E p then fs_disk st p else None) of
        None \<Rightarrow> 0
      | Some c \<Rightarrow> if f_tell E \<and> length c > 0 \<and> length c < unat fsize then length c else 0)"

definition handle_cmd_file_accept :: "fenv \<Rightarrow> fstate \<Rightarrow> u32 \<Rightarrow> bytes option \<Rightarrow> fstate" where
  "handle_cmd_file_accept E st xid str =
     (case (find (rx_waiting st xid) [0..<TT_MAX_XFERS], str) of
        (Some i, Some path) \<Rightarrow>
          let x = fs_xfers st ! i; p = path_str path; resume_at = partial_len E st p (x_size x) in
          if \<not> f_open E p then cancel_failed E i (x_fn x) (x_file_number x) st
          else
            let st1 = (if resume_at = 0 then st \<lparr>fs_disk := (fs_disk st)(p \<mapsto> [])\<rparr> else st) in
            if \<not> f_fdopen E then cancel_failed E i (x_fn x) (x_file_number x) st1
            else if resume_at \<noteq> 0 \<and> \<not> f_seek E then cancel_failed E i (x_fn x) (x_file_number x) st1
            else
              let x1 = (if resume_at = 0 then x else x \<lparr>x_got := of_nat resume_at, x_got_prev := of_nat resume_at\<rparr>)
                         \<lparr>x_fp := Some (p, resume_at), x_path := take 1023 path, x_accepted := True\<rparr>;
                  st2 = (if resume_at = 0 then st1 else f_call (CSeek (x_fn x) (x_file_number x) (of_nat resume_at)) st1);
                  st3 = xfer_put i x1 st2;
                  st4 = (if x_have_file_id x1
                         then st3 \<lparr>fs_resume := tt_resume_put (fs_resume st3) (x_file_id x1) path (x_got x1)\<rparr> else st3)
              in f_call (CControl (x_fn x) (x_file_number x) FILE_RESUME) st4
      | _ \<Rightarrow> st)"

definition handle_cmd_file_reject :: "fstate \<Rightarrow> u32 \<Rightarrow> fstate" where
  "handle_cmd_file_reject st xid =
     (case find (rx_waiting st xid) [0..<TT_MAX_XFERS] of
        None \<Rightarrow> st
      | Some i \<Rightarrow> xfer_free i (f_call (CControl (x_fn (fs_xfers st ! i)) (x_file_number (fs_xfers st ! i)) FILE_CANCEL) st))"

definition cmd_file_cancel :: "fenv \<Rightarrow> fstate \<Rightarrow> u32 \<Rightarrow> fstate" where
  "cmd_file_cancel E st xid =
     (case xfer_by_id st xid of
        None \<Rightarrow> st
      | Some i \<Rightarrow> cancel_failed E i (x_fn (fs_xfers st ! i)) (x_file_number (fs_xfers st ! i)) st)"

section \<open>Callbacks\<close>

text \<open>The file id of an offer with the stored partial it names, when that can be resumed.\<close>

definition resumable :: "fstate \<Rightarrow> bytes option \<Rightarrow> u64 \<Rightarrow> TTResumeEntry option" where
  "resumable st fid file_size =
     (case fid of
        None \<Rightarrow> None
      | Some f \<Rightarrow>
          (case tt_resume_find (fs_resume st) f of
             None \<Rightarrow> None
           | Some j \<Rightarrow>
               let r = fst (fs_resume st) ! j in
               if re_bytes r > 0 \<and> re_bytes r < file_size then Some r else None))"

definition xfer_on_offer :: "fenv \<Rightarrow> fstate \<Rightarrow> nat \<Rightarrow> nat \<Rightarrow> u64 \<Rightarrow> bytes \<Rightarrow> fstate" where
  "xfer_on_offer E st fn file_number file_size name =
     (case xfer_alloc st of
        None \<Rightarrow> f_call (CControl fn file_number FILE_CANCEL) st
      | Some (i, st1) \<Rightarrow>
          let fid = f_file_id E fn file_number;
              x = (fs_xfers st1 ! i) \<lparr>x_fn := fn, x_file_number := file_number, x_sending := False, x_accepted := False,
                    x_size := file_size, x_got := 0, x_name := c_str (take TOX_MAX_FILENAME_LENGTH name),
                    x_file_id := (case fid of None \<Rightarrow> replicate 32 0 | Some f \<Rightarrow> f), x_have_file_id := (fid \<noteq> None)\<rparr>;
              note = Some (x_name x @ [10] @ print_u (unat file_size));
              prompt = f_push (xfer_event TT_EV_FILE_OFFER x note) (xfer_put i x st1)
          in case resumable st fid file_size of
               None \<Rightarrow> prompt
             | Some r \<Rightarrow>
                 let p = path_str (re_path r) in
                 if fs_disk st p = None \<or> \<not> f_open E p \<or> \<not> f_fdopen E \<or> \<not> f_seek E then prompt
                 else
                   let x1 = x \<lparr>x_fp := Some (p, unat (re_bytes r)), x_got := re_bytes r, x_got_prev := re_bytes r,
                               x_path := take 1023 (re_path r), x_accepted := True\<rparr>;
                       st2 = f_call (CControl fn file_number FILE_RESUME) (f_call (CSeek fn file_number (re_bytes r)) (xfer_put i x1 st1))
                   in f_push (xfer_event TT_EV_FILE_RESUMED x1 note) st2)"

definition avatar_on_offer :: "fenv \<Rightarrow> fstate \<Rightarrow> nat \<Rightarrow> nat \<Rightarrow> nat \<Rightarrow> fstate" where
  "avatar_on_offer E st fn file_number file_size =
     (if fn \<ge> TT_MAX_FRIENDS then st
      else
        let a = fs_avatars st ! fn; cancel = f_call (CControl fn file_number FILE_CANCEL) st in
        if file_size = 0 then
          f_push ((tt_event_new TT_EV_AVATAR_CLEARED) \<lparr>ev_fn := fn\<rparr>) (avatar_put fn (tt_avatar_free a) cancel)
        else if file_size > TT_AVATAR_MAX_SIZE then cancel
        else case f_file_id E fn file_number of
          None \<Rightarrow> cancel
        | Some fid \<Rightarrow>
            if av_has a \<and> fid = av_hash a then cancel
            else
              f_call (CControl fn file_number FILE_RESUME)
                (avatar_put fn (a \<lparr>av_data := f_malloc E file_size, av_rx_active := True, av_rx_file_number := file_number,
                    av_rx_expected := file_size, av_rx_got := 0, av_size := file_size, av_hash := fid\<rparr>) st))"

definition cb_file_recv :: "fenv \<Rightarrow> fstate \<Rightarrow> nat \<Rightarrow> nat \<Rightarrow> file_kind \<Rightarrow> u64 \<Rightarrow> bytes \<Rightarrow> fstate" where
  "cb_file_recv E st fn file_number kind file_size name =
     (case kind of
        KIND_AVATAR \<Rightarrow> avatar_on_offer E st fn file_number (unat file_size)
      | KIND_DATA \<Rightarrow> xfer_on_offer E st fn file_number file_size name
      | KIND_OTHER \<Rightarrow> f_call (CControl fn file_number FILE_CANCEL) st)"

text \<open>A chunk of an accepted download with an open file.\<close>

definition resume_note :: "TTXfer \<Rightarrow> fstate \<Rightarrow> fstate" where
  "resume_note x st =
     (if x_have_file_id x then
        (case tt_resume_find (fs_resume st) (x_file_id x) of
           None \<Rightarrow> st
         | Some j \<Rightarrow> st \<lparr>fs_resume := ((fst (fs_resume st))[j := (fst (fs_resume st) ! j) \<lparr>re_bytes := x_got x\<rparr>], snd (fs_resume st))\<rparr>)
      else st)"

definition xfer_chunk :: "fenv \<Rightarrow> fstate \<Rightarrow> nat \<Rightarrow> string \<times> nat \<Rightarrow> bytes \<Rightarrow> fstate" where
  "xfer_chunk E st i fp data =
     (let x = fs_xfers st ! i; len = of_nat (length data) in
      if x_got x + len > x_size x then cancel_failed E i (x_fn x) (x_file_number x) st
      else if data \<noteq> [] \<and> \<not> f_write E then cancel_failed E i (x_fn x) (x_file_number x) st
      else
        let st1 = (if data = [] then st
                   else st \<lparr>fs_disk := (fs_disk st)(fst fp \<mapsto> write_at (disk_content (fs_disk st) (fst fp)) (snd fp) data)\<rparr>);
            x1 = x \<lparr>x_fp := Some (fst fp, snd fp + length data), x_got := x_got x + len\<rparr>;
            st2 = resume_note x1 (xfer_put i x1 st1)
        in if x_got x1 \<ge> x_size x1 then (if f_flush E then xfer_done E i st2 else xfer_failed E i st2)
           else xfer_progress E i st2)"

definition avatar_chunk :: "fenv \<Rightarrow> fstate \<Rightarrow> nat \<Rightarrow> nat \<Rightarrow> bytes \<Rightarrow> fstate" where
  "avatar_chunk E st fn file_number data =
     (let a = fs_avatars st ! fn in
      if \<not> av_rx_active a \<or> av_rx_file_number a \<noteq> file_number then st
      else if av_rx_got a + length data > av_rx_expected a then
        f_call (CControl fn file_number FILE_CANCEL) (avatar_put fn (a \<lparr>av_rx_active := False\<rparr>) st)
      else
        let a1 = a \<lparr>av_data := write_at (av_data a) (av_rx_got a) data, av_rx_got := av_rx_got a + length data\<rparr> in
        if av_rx_got a1 < av_rx_expected a1 then avatar_put fn a1 st
        else if f_hash E (take (av_rx_got a1) (av_data a1)) \<noteq> av_hash a1 then
          f_push ((tt_event_new TT_EV_AVATAR_CLEARED) \<lparr>ev_fn := fn\<rparr>) (avatar_put fn (tt_avatar_free a1) st)
        else
          f_push ((tt_event_new TT_EV_AVATAR) \<lparr>ev_fn := fn, ev_str := Some (take (av_size a1) (av_data a1))\<rparr>)
            (avatar_put fn (a1 \<lparr>av_rx_active := False, av_has := True\<rparr>) st))"

definition cb_file_recv_chunk :: "fenv \<Rightarrow> fstate \<Rightarrow> nat \<Rightarrow> nat \<Rightarrow> bytes \<Rightarrow> fstate" where
  "cb_file_recv_chunk E st fn file_number data =
     (if fn \<ge> TT_MAX_FRIENDS then st
      else case xfer_find st fn file_number of
        Some i \<Rightarrow>
          let x = fs_xfers st ! i in
          (case x_fp x of
             None \<Rightarrow> st
           | Some fp \<Rightarrow> if x_sending x \<or> \<not> x_accepted x then st else xfer_chunk E st i fp data)
      | None \<Rightarrow> avatar_chunk E st fn file_number data)"

definition cb_file_recv_control :: "fenv \<Rightarrow> fstate \<Rightarrow> nat \<Rightarrow> nat \<Rightarrow> file_control \<Rightarrow> fstate" where
  "cb_file_recv_control E st fn file_number control =
     (if fn \<ge> TT_MAX_FRIENDS then st
      else case (xfer_find st fn file_number, control) of
        (Some i, FILE_CANCEL) \<Rightarrow> xfer_failed E i st
      | _ \<Rightarrow>
          let a = fs_avatars st ! fn in
          if av_rx_active a \<and> av_rx_file_number a = file_number \<and> control = FILE_CANCEL
          then avatar_put fn (a \<lparr>av_rx_active := False\<rparr>) st else st)"

definition avatar_serve :: "fstate \<Rightarrow> nat \<Rightarrow> nat \<Rightarrow> u64 \<Rightarrow> nat \<Rightarrow> fstate" where
  "avatar_serve st fn file_number pos len =
     (let a = fs_self st in
      if \<not> av_has a \<or> unat pos \<ge> av_size a then st
      else f_call (CChunk fn file_number pos (take (min (av_size a - unat pos) len) (drop (unat pos) (av_data a)))) st)"

definition cb_file_chunk_request :: "fenv \<Rightarrow> fstate \<Rightarrow> nat \<Rightarrow> nat \<Rightarrow> u64 \<Rightarrow> nat \<Rightarrow> fstate" where
  "cb_file_chunk_request E st fn file_number pos len =
     (case xfer_find st fn file_number of
        None \<Rightarrow> avatar_serve st fn file_number pos len
      | Some i \<Rightarrow>
          let x = fs_xfers st ! i in
          (case (if x_sending x then x_fp x else None) of
             None \<Rightarrow> avatar_serve st fn file_number pos len
           | Some (p, _) \<Rightarrow>
               if pos \<ge> x_size x \<or> len = 0 then xfer_done E i st
               else if \<not> f_seek E then cancel_failed E i fn file_number st
               else
                 let buf = (if f_read E then take (min len 4096) (drop (unat pos) (disk_content (fs_disk st) p)) else []) in
                 if buf = [] then cancel_failed E i fn file_number st
                 else
                   let n = length buf;
                       st1 = f_call (CChunk fn file_number pos buf)
                               (xfer_put i (x \<lparr>x_fp := Some (p, unat pos + n), x_got := pos + of_nat n\<rparr>) st)
                   in if \<not> f_chunk_ok E then xfer_failed E i st1 else xfer_progress E i st1))"

end
