(* ===== verification/Avatar.thy ===== *)
theory Avatar
  imports Download
begin

text \<open>
  Avatars: the sidecar file, the download of a friend's avatar with its digest check, and what an
  interrupted download leaves behind.
\<close>

lemma byte_low: "unat (of_nat n :: byte) = n mod 256"
  by (simp add: unsigned_of_nat take_bit_eq_mod)

lemma size_bytes:
  "n < 16777216 \<Longrightarrow> unat (of_nat n :: byte) + unat (of_nat (n div 256) :: byte) * 256 + unat (of_nat (n div 65536) :: byte) * 65536 = n"
proof -
  assume "n < 16777216"
  define q where "q = n div 256"
  have q: "n div 65536 = q div 256" unfolding q_def by (simp flip: div_mult2_eq)
  define a b r where "a = q div 256" and "b = q mod 256" and "r = n mod 256"
  have lt: "a < 256" using \<open>n < 16777216\<close> by (simp add: a_def q_def less_mult_imp_div_less)
  have "n = q * 256 + r" "q = a * 256 + b" by (simp_all add: q_def r_def a_def b_def)
  then have "r + b * 256 + a * 65536 = n" by linarith
  then show ?thesis
    unfolding byte_low q q_def [symmetric] a_def [symmetric] b_def [symmetric] r_def [symmetric] using lt by simp
qed

text \<open>An avatar that was set is found again at the next start: the sidecar written for it is read
  back to the same picture with the same digest.\<close>

theorem avatar_roundtrip:
  assumes "tt_avatar_set E a png = (True, a')" "f_profile E = Some pr" "f_open E (ava_path pr)" "f_profile E' = Some pr"
    "f_open E' (ava_path pr)" "f_hash E' = f_hash E" "fs_disk st = avatar_persist E a' d"
  shows "av_has (fs_self (avatar_persist_load E' st)) \<and> av_data (fs_self (avatar_persist_load E' st)) = png \<and>
    av_size (fs_self (avatar_persist_load E' st)) = length png \<and> av_hash (fs_self (avatar_persist_load E' st)) = f_hash E png"
proof -
  have png: "png \<noteq> []" "length png \<le> 65536"
    and a': "a' = a \<lparr>av_data := png, av_size := length png, av_has := True, av_hash := f_hash E png\<rparr>"
    using assms(1) by (auto simp: tt_avatar_set_def split: if_splits)
  let ?n = "length png"
  define c where "c = ava_magic @ [of_nat ?n, of_nat (?n div 256), of_nat (?n div 65536)] @ png"
  have d: "fs_disk st (ava_path pr) = Some c" using assms(2,3,7) a' by (simp add: avatar_persist_def c_def)
  have c: "length c = ?n + 8" "take 5 c = ava_magic" "drop 8 c = png" "c ! 5 = of_nat ?n" "c ! 6 = of_nat (?n div 256)" "c ! 7 = of_nat (?n div 65536)"
    by (simp_all add: c_def ava_magic_def ascii_def)
  have sz: "unat (c ! 5) + unat (c ! 6) * 256 + unat (c ! 7) * 65536 = ?n"
    unfolding c(4-6) using png(2) by (intro size_bytes) simp
  have "avatar_persist_load E' st = st \<lparr>fs_self := snd (tt_avatar_set E' (fs_self st) png)\<rparr>"
    unfolding avatar_persist_load_def assms(4) option.case d Let_def sz using assms(5) c(1-3) png by simp
  then show ?thesis using png assms(6) by (simp add: tt_avatar_set_def)
qed

theorem avatar_roundtrip_witness:
  "av_data (fs_self (avatar_persist_load (demo_env \<lparr>f_profile := Some ''p''\<rparr>)
     (demo_state (avatar_persist (demo_env \<lparr>f_profile := Some ''p''\<rparr>)
        (snd (tt_avatar_set demo_env avatar_zero [1, 2])) (\<lambda>_. None))))) = [1, 2]"
proof -
  let ?E = "demo_env \<lparr>f_profile := Some ''p''\<rparr>"
  have "tt_avatar_set ?E avatar_zero [1, 2] = (True, snd (tt_avatar_set demo_env avatar_zero [1, 2]))"
    by (simp add: tt_avatar_set_def demo_env_def)
  from avatar_roundtrip [OF this, of "''p''" ?E "demo_state (avatar_persist ?E (snd (tt_avatar_set demo_env avatar_zero [1, 2])) (\<lambda>_. None))" "\<lambda>_. None"]
  show ?thesis by (simp add: demo_env_def demo_state_def)
qed

section \<open>Downloading an avatar\<close>

definition avatar_rx :: "fstate \<Rightarrow> nat \<Rightarrow> nat \<Rightarrow> nat \<Rightarrow> bytes \<Rightarrow> bytes \<Rightarrow> bool" where
  "avatar_rx st fn num n fid c \<longleftrightarrow> fn < TT_MAX_FRIENDS \<and> length (fs_avatars st) = TT_MAX_FRIENDS \<and> xfer_find st fn num = None \<and>
     (let a = fs_avatars st ! fn in av_rx_active a \<and> av_rx_file_number a = num \<and> av_rx_expected a = n \<and> av_size a = n \<and>
        av_hash a = fid \<and> av_rx_got a = length c \<and> length c < n \<and> length (av_data a) = n \<and> take (length c) (av_data a) = c)"

lemma fs_avatar_put [fs_simps]:
  "fs_avatars (avatar_put fn a st) = (fs_avatars st)[fn := a]" "fs_xfers (avatar_put fn a st) = fs_xfers st"
  "fs_events (avatar_put fn a st) = fs_events st" "fs_calls (avatar_put fn a st) = fs_calls st"
  "fs_avatars (f_call k st) = fs_avatars st" "fs_avatars (f_push e st) = fs_avatars st"
  by (simp_all add: avatar_put_def f_call_def f_push_def)

lemma xfer_find_cong: "fs_xfers st' = fs_xfers st \<Longrightarrow> xfer_find st' fn num = xfer_find st fn num"
  by (simp add: xfer_find_def)

lemma avatar_write:
  assumes "avatar_rx st fn num n fid c" "length c + length data \<le> n"
  shows "length (write_at (av_data (fs_avatars st ! fn)) (length c) data) = n"
    "take (length c + length data) (write_at (av_data (fs_avatars st ! fn)) (length c) data) = c @ data"
  using assms by (auto simp: avatar_rx_def Let_def write_at_def)

lemma avatar_chunk_step:
  assumes "avatar_rx st fn num n fid c" "length c + length data < n"
  shows "avatar_rx (cb_file_recv_chunk E st fn num data) fn num n fid (c @ data)"
    "fs_events (cb_file_recv_chunk E st fn num data) = fs_events st"
proof -
  note w = avatar_write [OF assms(1), of data]
  have a: "fn < 256" "xfer_find st fn num = None" "length (fs_avatars st) = 256" using assms(1) by (simp_all add: avatar_rx_def)
  let ?a = "fs_avatars st ! fn"
  have st': "cb_file_recv_chunk E st fn num data =
    avatar_put fn (?a \<lparr>av_data := write_at (av_data ?a) (length c) data, av_rx_got := length c + length data\<rparr>) st"
    using assms a by (simp add: cb_file_recv_chunk_def avatar_chunk_def avatar_rx_def Let_def)
  have "xfer_find (cb_file_recv_chunk E st fn num data) fn num = None"
    using a(2) xfer_find_cong [of "cb_file_recv_chunk E st fn num data" st] by (simp add: st' fs_simps)
  then show "avatar_rx (cb_file_recv_chunk E st fn num data) fn num n fid (c @ data)"
    using assms w a unfolding avatar_rx_def st' Let_def by (simp add: fs_simps)
  show "fs_events (cb_file_recv_chunk E st fn num data) = fs_events st" by (simp add: st' fs_simps)
qed

lemma avatar_chunk_last:
  assumes "avatar_rx st fn num n fid c" "length c + length data = n"
  shows "cb_file_recv_chunk E st fn num data =
    (if f_hash E (c @ data) = fid
     then f_push ((tt_event_new TT_EV_AVATAR) \<lparr>ev_fn := fn, ev_str := Some (c @ data)\<rparr>)
       (avatar_put fn ((fs_avatars st ! fn) \<lparr>av_data := c @ data, av_rx_got := n, av_rx_active := False, av_has := True\<rparr>) st)
     else f_push ((tt_event_new TT_EV_AVATAR_CLEARED) \<lparr>ev_fn := fn\<rparr>) (avatar_put fn avatar_zero st))"
proof -
  have "take n (write_at (av_data (fs_avatars st ! fn)) (length c) data) = c @ data"
    "length (write_at (av_data (fs_avatars st ! fn)) (length c) data) = n"
    using avatar_write [OF assms(1), of data] assms(2) by simp_all
  then have w: "write_at (av_data (fs_avatars st ! fn)) (length c) data = c @ data" by simp
  show ?thesis
    using assms by (simp add: cb_file_recv_chunk_def avatar_chunk_def avatar_rx_def Let_def w tt_avatar_free_def)
qed

lemma avatar_chunks:
  assumes "avatar_rx st fn num n fid c" "ds \<noteq> []" "\<forall>d \<in> set ds. d \<noteq> []" "length c + length (concat ds) = n"
  shows "fs_events (foldl (\<lambda>s. cb_file_recv_chunk E s fn num) st ds) = fs_events st @
      [if f_hash E (c @ concat ds) = fid then (tt_event_new TT_EV_AVATAR) \<lparr>ev_fn := fn, ev_str := Some (c @ concat ds)\<rparr>
       else (tt_event_new TT_EV_AVATAR_CLEARED) \<lparr>ev_fn := fn\<rparr>] \<and>
    av_has (fs_avatars (foldl (\<lambda>s. cb_file_recv_chunk E s fn num) st ds) ! fn) = (f_hash E (c @ concat ds) = fid)"
  using assms
proof (induction ds arbitrary: st c)
  case (Cons d ds)
  show ?case
  proof (cases "ds = []")
    case True
    have "fn < length (fs_avatars st)" using Cons.prems(1) by (simp add: avatar_rx_def)
    then show ?thesis using True avatar_chunk_last [OF Cons.prems(1), of d E] Cons.prems(4) by (simp add: fs_simps avatar_zero_def)
  next
    case False
    then have "0 < length (concat ds)" using Cons.prems(3) by (cases ds) auto
    then have lt: "length c + length d < n" using Cons.prems(4) by (simp only: concat.simps length_append)
    note s = avatar_chunk_step [OF Cons.prems(1) lt, of E]
    show ?thesis using Cons.IH [OF s(1) False] Cons.prems(3,4) s(2) by simp
  qed
qed simp

text \<open>C28: an avatar that is offered and then arrives in chunks is shown exactly when its digest is the
  file id of the offer: with the right digest the user interface gets the picture, with any other it
  is told that the friend has no avatar and the received bytes are dropped.\<close>

theorem avatar_shown_iff_digest:
  assumes "fn < TT_MAX_FRIENDS" "length (fs_avatars st) = TT_MAX_FRIENDS" "xfer_find st fn num = None"
    "f_file_id E fn num = Some fid" "\<not> (av_has (fs_avatars st ! fn) \<and> av_hash (fs_avatars st ! fn) = fid)"
    "\<forall>n. length (f_malloc E n) = n" "ds \<noteq> []" "\<forall>d \<in> set ds. d \<noteq> []" "length (concat ds) \<le> TT_AVATAR_MAX_SIZE"
  shows "fs_events (foldl (\<lambda>s. cb_file_recv_chunk E s fn num) (avatar_on_offer E st fn num (length (concat ds))) ds) = fs_events st @
      [if f_hash E (concat ds) = fid then (tt_event_new TT_EV_AVATAR) \<lparr>ev_fn := fn, ev_str := Some (concat ds)\<rparr>
       else (tt_event_new TT_EV_AVATAR_CLEARED) \<lparr>ev_fn := fn\<rparr>]"
proof -
  let ?st1 = "avatar_on_offer E st fn num (length (concat ds))"
  have pos: "0 < length (concat ds)" using assms(7,8) by (cases ds) auto
  define a where "a = (fs_avatars st ! fn) \<lparr>av_data := f_malloc E (length (concat ds)), av_rx_active := True, av_rx_file_number := num,
    av_rx_expected := length (concat ds), av_rx_got := 0, av_size := length (concat ds), av_hash := fid\<rparr>"
  have st1: "?st1 = f_call (CControl fn num FILE_RESUME) (avatar_put fn a st)"
    unfolding avatar_on_offer_def Let_def assms(4) a_def using assms(1,5,9) pos by auto
  have "xfer_find ?st1 fn num = None" using assms(3) xfer_find_cong [of ?st1 st] by (simp add: st1 fs_simps)
  then have "avatar_rx ?st1 fn num (length (concat ds)) fid []"
    using assms(1,2,6) pos unfolding avatar_rx_def st1 Let_def by (simp add: fs_simps a_def)
  from avatar_chunks [OF this assms(7,8), of E] show ?thesis by (simp add: st1 fs_simps)
qed

theorem avatar_shown_iff_digest_witness:
  "fs_events (foldl (\<lambda>s. cb_file_recv_chunk (demo_env \<lparr>f_file_id := (\<lambda>_ _. Some [1, 2])\<rparr>) s 0 9)
     (avatar_on_offer (demo_env \<lparr>f_file_id := (\<lambda>_ _. Some [1, 2])\<rparr>) (demo_state (\<lambda>_. None)) 0 9 2) [[1], [2]]) =
   [(tt_event_new TT_EV_AVATAR) \<lparr>ev_fn := 0, ev_str := Some [1, 2]\<rparr>]"
proof -
  let ?E = "demo_env \<lparr>f_file_id := (\<lambda>_ _. Some [1, 2])\<rparr>" and ?st = "demo_state (\<lambda>_. None)"
  have "xfer_find ?st 0 9 = None"
    by (auto simp: xfer_find_def demo_state_def find_None_iff xfer_zero_def Let_def)
  moreover have "\<forall>n. length (f_malloc ?E n) = n" "\<not> (av_has (fs_avatars ?st ! 0) \<and> av_hash (fs_avatars ?st ! 0) = [1, 2])"
    "fs_events ?st = []" "length (fs_avatars ?st) = 256" "f_hash ?E [1, 2] = [1, 2]"
    by (simp_all add: demo_env_def demo_state_def avatar_zero_def)
  ultimately show ?thesis
    using avatar_shown_iff_digest [of 0 ?st 9 ?E "[1, 2]" "[[1], [2]]"] by (simp add: numeral_2_eq_2)
qed

text \<open>An avatar download that the friend cancels overwrites the stored picture and digest while the
  avatar still counts as present, so the next offer of the same avatar is cancelled as one already
  held: the friend's new avatar never arrives.\<close>

theorem interrupted_avatar_never_arrives:
  assumes "fn < TT_MAX_FRIENDS" "length (fs_avatars st) = TT_MAX_FRIENDS" "xfer_find st fn num = None" "av_has (fs_avatars st ! fn)"
    "f_file_id E fn num = Some fid" "f_file_id E fn num' = Some fid" "av_hash (fs_avatars st ! fn) \<noteq> fid"
    "0 < n" "n \<le> TT_AVATAR_MAX_SIZE" "st2 = cb_file_recv_control E (avatar_on_offer E st fn num n) fn num FILE_CANCEL"
  shows "avatar_on_offer E st2 fn num' n = f_call (CControl fn num' FILE_CANCEL) st2 \<and> av_data (fs_avatars st2 ! fn) = f_malloc E n"
proof -
  define a where "a = (fs_avatars st ! fn) \<lparr>av_data := f_malloc E n, av_rx_active := True, av_rx_file_number := num,
    av_rx_expected := n, av_rx_got := 0, av_size := n, av_hash := fid\<rparr>"
  have st1: "avatar_on_offer E st fn num n = f_call (CControl fn num FILE_RESUME) (avatar_put fn a st)"
    unfolding avatar_on_offer_def Let_def assms(5) a_def using assms(1,7-9) by auto
  have "xfer_find (avatar_on_offer E st fn num n) fn num = None"
    using assms(3) xfer_find_cong [of "avatar_on_offer E st fn num n" st] by (simp add: st1 fs_simps)
  then have "fs_avatars st2 ! fn = a \<lparr>av_rx_active := False\<rparr>"
    unfolding assms(10) cb_file_recv_control_def Let_def using assms(1,2) by (simp add: st1 fs_simps a_def)
  then show ?thesis using assms(1,4,6,8,9) by (simp add: avatar_on_offer_def Let_def a_def)
qed

theorem interrupted_avatar_never_arrives_witness:
  "let E = demo_env \<lparr>f_file_id := (\<lambda>_ _. Some [5])\<rparr>;
       st = avatar_put 0 (snd (tt_avatar_set demo_env avatar_zero [1])) (demo_state (\<lambda>_. None));
       st2 = cb_file_recv_control E (avatar_on_offer E st 0 9 4) 0 9 FILE_CANCEL
   in avatar_on_offer E st2 0 8 4 = f_call (CControl 0 8 FILE_CANCEL) st2"
proof -
  let ?E = "demo_env \<lparr>f_file_id := (\<lambda>_ _. Some [5])\<rparr>"
  let ?st = "avatar_put 0 (snd (tt_avatar_set demo_env avatar_zero [1])) (demo_state (\<lambda>_. None))"
  have "xfer_find ?st 0 9 = None"
    by (auto simp: xfer_find_def demo_state_def find_None_iff xfer_zero_def Let_def avatar_put_def)
  moreover have "length (fs_avatars ?st) = 256" "av_has (fs_avatars ?st ! 0)" "av_hash (fs_avatars ?st ! 0) \<noteq> [5]"
    by (simp_all add: fs_simps demo_state_def tt_avatar_set_def demo_env_def)
  ultimately show ?thesis
    using interrupted_avatar_never_arrives [of 0 ?st 9 ?E "[5]" 8 4] by (simp add: Let_def)
qed

end
