(* ===== verification/Engine.thy ===== *)
theory Engine
  imports Session_Inv OfflineQueue Settings Avatar
begin

text \<open>
  The end-to-end-encryption engine of the tox thread, \<^verbatim>\<open>src/src/tox_thread.c\<close>: what is sent when the
  user types a line, when a friend's message, connection or timer tick arrives, and how the per-friend
  policy (required, fallback, warned) and the offline queue steer it.

  The state holds the 256 sessions, the policy arrays, the offline queue, the transfer state (with the
  disk and the event log) and a log of every message handed to toxcore, marked with the call site it
  came from: \<^verbatim>\<open>e2ee_send_frame\<close> or a direct \<^verbatim>\<open>tox_friend_send_message\<close> with the text.  \<open>eenv\<close> holds
  what toxcore and the clock answer; \<open>v_send k\<close> is the outcome of the k-th message.  Allocation
  succeeds, so the session array exists whenever the mode is on.

  Draining control frames (\<^verbatim>\<open>e2ee_rel_poll\<close>) is a loop without a bound: it and its callers are
  option-valued and return \<^const>\<open>None\<close> when the loop does not end.
\<close>

datatype Tox_Err_Friend_Send_Message =
    SEND_OK | SEND_NULL | SEND_FRIEND_NOT_FOUND | SEND_FRIEND_NOT_CONNECTED | SEND_SENDQ | SEND_TOO_LONG | SEND_EMPTY

record sent_msg =
  sm_fn :: nat
  sm_type :: int
  sm_bytes :: bytes
  sm_frame :: bool

record eenv =
  v_files :: fenv
  v_sodium :: sodium
  v_mode :: bool
  v_self_sk :: bytes
  v_self_pk :: bytes
  v_peer :: "nat \<Rightarrow> bytes option"
  v_last_online :: "nat \<Rightarrow> int option"
  v_online :: "nat \<Rightarrow> bool"
  v_now :: int
  v_send :: "nat \<Rightarrow> Tox_Err_Friend_Send_Message \<times> nat"
  v_settings_io :: "nat \<Rightarrow> bool"

record engine =
  en_files :: fstate
  en_e2ee :: "nat \<Rightarrow> TTSession"
  en_draws :: nat
  en_required :: "nat \<Rightarrow> bool"
  en_fallback :: "nat \<Rightarrow> bool"
  en_warned :: "nat \<Rightarrow> bool"
  en_handshake_at :: "nat \<Rightarrow> int"
  en_typing :: "nat \<Rightarrow> bool"
  en_oq :: TTOfflineQueue
  en_flushing :: bool
  en_self_online :: bool
  en_sent :: "sent_msg list"

abbreviation (input) "TT_E2EE_FALLBACK_TIMEOUT \<equiv> (30 :: int)"
abbreviation (input) "TT_E2EE_CHUNK \<equiv> TT_FRAME_DATA_MAX"

section \<open>Events, messages, files\<close>

definition en_push :: "TTEvent \<Rightarrow> engine \<Rightarrow> engine" where
  "en_push ev e = e \<lparr>en_files := f_push ev (en_files e)\<rparr>"

definition en_note :: "TTEventType \<Rightarrow> nat \<Rightarrow> bytes option \<Rightarrow> int \<Rightarrow> engine \<Rightarrow> engine" where
  "en_note ty fn str ival e =
     (case push_simple True True ty fn str (case str of None \<Rightarrow> 0 | Some b \<Rightarrow> length b) ival of None \<Rightarrow> e | Some ev \<Rightarrow> en_push ev e)"

definition tox_friend_send_message :: "eenv \<Rightarrow> bool \<Rightarrow> nat \<Rightarrow> int \<Rightarrow> bytes \<Rightarrow> engine \<Rightarrow> (Tox_Err_Friend_Send_Message \<times> nat) \<times> engine" where
  "tox_friend_send_message X frame fn ty b e =
     (v_send X (length (en_sent e)), e \<lparr>en_sent := en_sent e @ [\<lparr>sm_fn = fn, sm_type = ty, sm_bytes = b, sm_frame = frame\<rparr>]\<rparr>)"

definition put_session :: "nat \<Rightarrow> TTSession \<Rightarrow> nat \<Rightarrow> engine \<Rightarrow> engine" where
  "put_session fn s w e = e \<lparr>en_e2ee := (en_e2ee e)(fn := s), en_draws := w\<rparr>"

definition oq_store :: "eenv \<Rightarrow> engine \<Rightarrow> engine" where
  "oq_store X e =
     (let E = v_files X; st = en_files e in
      e \<lparr>en_files := st \<lparr>fs_disk := tt_oq_save (f_toxes E) (f_io E) (en_oq e) (f_profile E) (f_key E) (fs_disk st)\<rparr>\<rparr>)"

definition oq_requeue :: "nat \<Rightarrow> bytes list \<Rightarrow> engine \<Rightarrow> engine" where
  "oq_requeue fn texts e = e \<lparr>en_oq := foldl (\<lambda>q t. snd (tt_oq_add True q fn t)) (en_oq e) texts\<rparr>"

definition policy_store :: "eenv \<Rightarrow> engine \<Rightarrow> engine" where
  "policy_store X e =
     e \<lparr>en_files := (en_files e) \<lparr>fs_disk :=
         snd (tt_settings_store_e2ee (v_settings_io X) (en_required e) (f_profile (v_files X)) (fs_disk (en_files e)))\<rparr>\<rparr>"

section \<open>Sessions\<close>

text \<open>The dash of the messages in UTF-8.\<close>

definition em_dash :: bytes where
  "em_dash = [0xE2, 0x80, 0x94]"

definition e2ee_warn :: "nat \<Rightarrow> bytes \<Rightarrow> engine \<Rightarrow> engine" where
  "e2ee_warn fn msg e =
     (if fn \<ge> TT_MAX_FRIENDS \<or> en_warned e fn then e
      else en_note TT_EV_E2EE_WARN fn (Some msg) 0 (e \<lparr>en_warned := (en_warned e)(fn := True)\<rparr>))"

definition e2ee_env :: "eenv \<Rightarrow> nat \<Rightarrow> TTE2EEEnv" where
  "e2ee_env X fn = \<lparr>e_self_sk = v_self_sk X, e_self_pk = v_self_pk X,
     e_peer_pk = (if fn < TT_MAX_FRIENDS then v_peer X fn else None)\<rparr>"

definition e2ee_send_frame :: "eenv \<Rightarrow> nat \<Rightarrow> int \<Rightarrow> bytes \<Rightarrow> engine \<Rightarrow> nat \<times> engine" where
  "e2ee_send_frame X fn ty buf e =
     (case tox_friend_send_message X True fn ty buf e of
        ((serr, mid), e1) \<Rightarrow> (if serr = SEND_OK then mid else 0, e1))"

definition e2ee_push_state :: "eenv \<Rightarrow> nat \<Rightarrow> bool \<Rightarrow> engine \<Rightarrow> engine" where
  "e2ee_push_state X fn established e =
     en_push ((tt_event_new TT_EV_E2EE_STATE) \<lparr>ev_fn := fn, ev_ival := (if established then 1 else 0),
        ev_str := (if established then map_option ascii (tt_session_verify_code (v_sodium X) (en_e2ee e fn)) else None)\<rparr>) e"

lemma flush_shrinks:
  "tt_session_flush L w s cap = (Inr f, s', w') \<Longrightarrow> f \<noteq> [] \<Longrightarrow> length (s_pending s') < length (s_pending s)"
  by (auto simp: tt_session_flush_def split: if_splits list.splits prod.splits sum.splits)

definition log_msg :: "bool \<Rightarrow> nat \<Rightarrow> int \<Rightarrow> bytes \<Rightarrow> engine \<Rightarrow> engine" where
  "log_msg frame fn ty b e = e \<lparr>en_sent := en_sent e @ [\<lparr>sm_fn = fn, sm_type = ty, sm_bytes = b, sm_frame = frame\<rparr>]\<rparr>"

lemma tox_send_eq: "tox_friend_send_message X frame fn ty b e = (v_send X (length (en_sent e)), log_msg frame fn ty b e)"
  by (simp add: tox_friend_send_message_def log_msg_def)

lemma send_frame_eq:
  "e2ee_send_frame X fn ty b e =
     (if fst (v_send X (length (en_sent e))) = SEND_OK then snd (v_send X (length (en_sent e))) else 0, log_msg True fn ty b e)"
  by (simp add: e2ee_send_frame_def tox_send_eq split: prod.split)

lemma note_e2ee: "en_e2ee (en_note ty fn str ival e) = en_e2ee e"
  by (simp add: en_note_def en_push_def split: option.split)

function e2ee_pump :: "eenv \<Rightarrow> nat \<Rightarrow> engine \<Rightarrow> engine" where
  "e2ee_pump X fn e =
     (case tt_session_flush (v_sodium X) (en_draws e) (en_e2ee e fn) TT_FRAME_MAX of
        (Inl _, s, w) \<Rightarrow> put_session fn s w e
      | (Inr f, s, w) \<Rightarrow>
          if f = [] then put_session fn s w e
          else
            let (mid, e1) = e2ee_send_frame X fn 0 f (put_session fn s w e)
            in e2ee_pump X fn (if mid \<noteq> 0 then en_note TT_EV_MESSAGE_SENT fn None (int mid) e1 else e1))"
  by pat_completeness auto
termination
  by (relation "measure (\<lambda>(X, fn, e). length (s_pending (en_e2ee e fn)))")
    (auto simp: put_session_def send_frame_eq log_msg_def note_e2ee dest: flush_shrinks [OF sym])

declare e2ee_pump.simps [simp del]

partial_function (option) rel_loop :: "eenv \<Rightarrow> nat \<Rightarrow> engine \<Rightarrow> engine option" where
  "rel_loop X fn e =
     (case tt_session_rel_poll (v_sodium X) (en_draws e) (en_e2ee e fn) TT_FRAME_MAX of
        (r, s, w) \<Rightarrow>
          (case r of
             Inl _ \<Rightarrow> Some (put_session fn s w e)
           | Inr f \<Rightarrow>
               if f = [] then Some (put_session fn s w e)
               else rel_loop X fn (snd (e2ee_send_frame X fn 0 f (put_session fn s w e)))))"

definition e2ee_rel_poll :: "eenv \<Rightarrow> nat \<Rightarrow> engine \<Rightarrow> engine option" where
  "e2ee_rel_poll X fn e = (if e_peer_pk (e2ee_env X fn) = None then Some e else rel_loop X fn e)"

definition e2ee_tick_friend :: "eenv \<Rightarrow> nat \<Rightarrow> engine \<Rightarrow> engine option" where
  "e2ee_tick_friend X fn e =
     (if e_peer_pk (e2ee_env X fn) = None then Some e
      else case tt_session_tick (v_sodium X) (en_draws e) (en_e2ee e fn) (e2ee_env X fn) (v_now X) TT_FRAME_MAX of
        (f, s, w) \<Rightarrow>
          let e1 = put_session fn s w e
          in e2ee_rel_poll X fn (if f \<noteq> [] then snd (e2ee_send_frame X fn 0 f e1) else e1))"

fun e2ee_tick_from :: "eenv \<Rightarrow> nat list \<Rightarrow> engine \<Rightarrow> engine option" where
  "e2ee_tick_from X [] e = Some e"
| "e2ee_tick_from X (fn # fns) e = Option.bind (e2ee_tick_friend X fn e) (e2ee_tick_from X fns)"

definition e2ee_tick :: "eenv \<Rightarrow> engine \<Rightarrow> engine option" where
  "e2ee_tick X e = e2ee_tick_from X [0..<TT_MAX_FRIENDS] e"

definition e2ee_start :: "eenv \<Rightarrow> nat \<Rightarrow> engine \<Rightarrow> engine" where
  "e2ee_start X fn e =
     (if e_peer_pk (e2ee_env X fn) = None then e
      else case tt_session_start (v_sodium X) (en_draws e) (en_e2ee e fn) (e2ee_env X fn) (v_now X) TT_FRAME_MAX of
        (Inl _, s, w) \<Rightarrow> put_session fn s w e
      | (Inr f, s, w) \<Rightarrow>
          let e1 = snd (e2ee_send_frame X fn 0 f (put_session fn s w e))
          in e1 \<lparr>en_handshake_at := (en_handshake_at e1)(fn := v_now X)\<rparr>)"

definition e2ee_fallback_due :: "eenv \<Rightarrow> nat \<Rightarrow> engine \<Rightarrow> bool" where
  "e2ee_fallback_due X fn e =
     (if fn \<ge> TT_MAX_FRIENDS then False
      else if s_active (en_e2ee e fn) then False
      else en_handshake_at e fn \<noteq> 0 \<and> v_now X - en_handshake_at e fn \<ge> TT_E2EE_FALLBACK_TIMEOUT)"

section \<open>The offline queue\<close>

text \<open>The chunks of one text, from offset \<open>off\<close>: where the loop stopped and the engine.\<close>

function flush_text :: "eenv \<Rightarrow> nat \<Rightarrow> bytes \<Rightarrow> nat \<Rightarrow> engine \<Rightarrow> nat \<times> engine" where
  "flush_text X fn txt off e =
     (if length txt \<le> off then (off, e)
      else
        let chunk = min (length txt - off) TT_E2EE_CHUNK in
        case tt_session_send (v_sodium X) (en_draws e) (en_e2ee e fn) (take chunk (drop off txt)) TT_FRAME_MAX of
          (Inl _, s, w) \<Rightarrow> (off, put_session fn s w e)
        | (Inr f, s, w) \<Rightarrow>
            let e1 = put_session fn s w e in
            if f = [] then
              (length txt, if off + chunk < length txt then oq_requeue fn [drop (off + chunk) txt] e1 else e1)
            else
              let (mid, e2) = e2ee_send_frame X fn 0 f e1
              in if mid = 0 then (off, e2) else flush_text X fn txt (off + chunk) e2)"
  by pat_completeness auto
termination
  by (relation "measure (\<lambda>(X, fn, txt, off, e). length txt - off)") auto

declare flush_text.simps [simp del]

fun flush_texts :: "eenv \<Rightarrow> nat \<Rightarrow> bytes list \<Rightarrow> engine \<Rightarrow> engine" where
  "flush_texts X fn [] e = e"
| "flush_texts X fn (t # ts) e =
     (case flush_text X fn t 0 e of
        (off, e1) \<Rightarrow> if off < length t then oq_requeue fn (t # ts) e1 else flush_texts X fn ts e1)"

fun plain_flush :: "eenv \<Rightarrow> nat \<Rightarrow> bytes list \<Rightarrow> engine \<Rightarrow> engine" where
  "plain_flush X fn [] e = e"
| "plain_flush X fn (t # ts) e =
     (case tox_friend_send_message X False fn 0 t e of
        ((serr, mid), e1) \<Rightarrow>
          if serr = SEND_FRIEND_NOT_CONNECTED then oq_requeue fn (t # ts) e1
          else plain_flush X fn ts (if serr = SEND_OK then en_note TT_EV_MESSAGE_SENT fn None (int mid) e1 else e1))"

definition offline_flush_friend :: "eenv \<Rightarrow> nat \<Rightarrow> engine \<Rightarrow> engine" where
  "offline_flush_friend X fn e =
     (case tt_oq_take_all (en_oq e) fn of
        (texts, q) \<Rightarrow>
          let e0 = e \<lparr>en_oq := q\<rparr>;
              plain = (\<lambda>e. en_note TT_EV_OFFLINE_FLUSHED fn None (int (length texts)) (plain_flush X fn texts e))
          in if texts = [] then e0
             else if v_mode X \<and> e_peer_pk (e2ee_env X fn) \<noteq> None then
               if \<not> s_active (en_e2ee e0 fn) \<and> e2ee_fallback_due X fn e0 then
                 if en_required e0 fn then
                   oq_store X (e2ee_warn fn (ascii ''E2EE is required for this contact, but they do not support it '' @ em_dash @ ascii '' queued messages not sent.'') e0)
                 else
                   plain (e2ee_warn fn (ascii ''This contact does not support end-to-end encryption '' @ em_dash @ ascii '' queued messages sent in plaintext.'')
                            (e0 \<lparr>en_fallback := (en_fallback e0)(fn := True)\<rparr>))
               else
                 en_note TT_EV_OFFLINE_FLUSHED fn None (int (length texts)) (oq_store X (flush_texts X fn texts e0))
             else plain e0)"

definition offline_flush_all :: "eenv \<Rightarrow> engine \<Rightarrow> engine" where
  "offline_flush_all X e =
     (let e1 = foldl (\<lambda>e fn. if tt_oq_count (en_oq e) fn = 0 \<or> \<not> v_online X fn then e else offline_flush_friend X fn e)
                 (e \<lparr>en_flushing := True\<rparr>) (f_friends (v_files X))
      in oq_store X (e1 \<lparr>en_flushing := False\<rparr>))"

definition cb_self_connection :: "eenv \<Rightarrow> int \<Rightarrow> engine \<Rightarrow> engine" where
  "cb_self_connection X connection e =
     (let e1 = (en_note TT_EV_SELF_CONNECTION 0 None connection e) \<lparr>en_self_online := (connection \<noteq> 0)\<rparr>
      in if en_self_online e1 \<and> \<not> en_flushing e1 then offline_flush_all X e1 else e1)"

section \<open>Receiving\<close>

definition undecryptable :: bytes where
  "undecryptable = ascii ''[encrypted message could not be decrypted]''"

text \<open>What follows a frame that changed the handshake.\<close>

definition e2ee_handshaked :: "eenv \<Rightarrow> nat \<Rightarrow> bool \<Rightarrow> bool \<Rightarrow> engine \<Rightarrow> engine" where
  "e2ee_handshaked X fn was_active ok e =
     (let e1 = (if ok \<and> s_reply_due (en_e2ee e fn) then
                  (case tt_session_reply (v_sodium X) (en_draws e) (en_e2ee e fn) (e2ee_env X fn) TT_FRAME_MAX of
                     (Inl _, s, w) \<Rightarrow> put_session fn s w e
                   | (Inr f, s, w) \<Rightarrow>
                       if f = [] then put_session fn s w e else snd (e2ee_send_frame X fn 0 f (put_session fn s w e)))
                else e);
          e4 = (if s_active (en_e2ee e1 fn) then
                  let e2 = e1 \<lparr>en_fallback := (en_fallback e1)(fn := False)\<rparr>;
                      e3 = (if \<not> was_active \<and> \<not> en_required e2 fn
                            then en_note TT_EV_E2EE_ENFORCE fn None 1 (policy_store X (e2 \<lparr>en_required := (en_required e2)(fn := True)\<rparr>))
                            else e2);
                      e3' = e2ee_pump X fn e3
                  in if tt_oq_count (en_oq e3') fn > 0 \<and> \<not> en_flushing e3' then offline_flush_friend X fn e3' else e3'
                else e1)
      in if s_active (en_e2ee e4 fn) \<noteq> was_active then e2ee_push_state X fn (s_active (en_e2ee e4 fn)) e4 else e4)"

text \<open>The receive hook: whether the event was consumed, and the text it now carries.\<close>

definition e2ee_rx :: "eenv \<Rightarrow> nat \<Rightarrow> bytes \<Rightarrow> engine \<Rightarrow> (bool \<times> bytes \<times> engine) option" where
  "e2ee_rx X fn str e =
     (if fn \<ge> TT_MAX_FRIENDS \<or> e_peer_pk (e2ee_env X fn) = None then Some (False, str, e)
      else
        let was_active = s_active (en_e2ee e fn) in
        case tt_session_feed (v_sodium X) (en_draws e) (en_e2ee e fn) (e2ee_env X fn) str TT_FRAME_DATA_MAX of
          (r, handshaked, s, w) \<Rightarrow>
            let e1 = put_session fn s w e in
            if handshaked then Some (True, str, e2ee_handshaked X fn was_active (r = Inr []) e1)
            else case r of
              Inr pt \<Rightarrow>
                if pt = [] then map_option (\<lambda>e'. (True, str, e')) (e2ee_rel_poll X fn e1)
                else if length pt \<le> length str then map_option (\<lambda>e'. (False, pt, e')) (e2ee_rel_poll X fn e1)
                else Some (True, str, e1)
            | Inl n \<Rightarrow>
                if n = TT_E2EE_NO_SESSION then Some (True, str, e2ee_start X fn e1)
                else if n = TT_E2EE_DECODE_FAIL \<or> n = TT_E2EE_REPLAY then
                  if s_active s then map_option (\<lambda>e'. (True, str, e')) (e2ee_rel_poll X fn (e2ee_start X fn e1))
                  else if \<not> en_required e1 fn then
                    Some (False, str, e2ee_warn fn (ascii ''This contact does not support end-to-end encryption '' @ em_dash @ ascii '' messages are sent in plaintext.'')
                                        (e1 \<lparr>en_fallback := (en_fallback e1)(fn := True)\<rparr>))
                  else
                    Some (True, str, e2ee_warn fn (ascii ''This contact does not support end-to-end encryption, but E2EE is required for them '' @ em_dash @ ascii '' plaintext messages are blocked.'') e1)
                else if \<not> s_no_session_notified s then
                  Some (True, str, put_session fn (s \<lparr>s_no_session_notified := True\<rparr>) w
                          (en_push ((tt_event_new TT_EV_FRIEND_MESSAGE) \<lparr>ev_fn := fn, ev_str := Some undecryptable\<rparr>) e1))
                else Some (True, str, e1))"

definition cb_friend_message :: "eenv \<Rightarrow> nat \<Rightarrow> int \<Rightarrow> bytes \<Rightarrow> engine \<Rightarrow> engine option" where
  "cb_friend_message X fn ty message e =
     (let deliver = (\<lambda>str e. en_push ((tt_event_new TT_EV_FRIEND_MESSAGE) \<lparr>ev_fn := fn, ev_ival := ty, ev_str := Some str\<rparr>) e)
      in if \<not> v_mode X then Some (deliver message e)
         else case e2ee_rx X fn message e of
           None \<Rightarrow> None
         | Some (hidden, str, e1) \<Rightarrow> Some (if hidden then e1 else deliver str e1))"

section \<open>Connections and the send command\<close>

definition hex_bytes :: "bytes \<Rightarrow> bytes" where
  "hex_bytes pk = concat (map (\<lambda>b. ascii [hex_digit (drop_bit 4 b), hex_digit (b AND 15)]) pk)"

definition emit_friend_identity :: "eenv \<Rightarrow> nat \<Rightarrow> engine \<Rightarrow> engine" where
  "emit_friend_identity X fn e =
     (let e1 = (case v_peer X fn of None \<Rightarrow> e | Some pk \<Rightarrow> en_note TT_EV_FRIEND_PUBKEY fn (Some (hex_bytes pk)) 0 e)
      in case v_last_online X fn of None \<Rightarrow> e1 | Some seen \<Rightarrow> en_note TT_EV_FRIEND_LAST_ONLINE fn None seen e1)"

definition cb_friend_connection :: "eenv \<Rightarrow> nat \<Rightarrow> int \<Rightarrow> engine \<Rightarrow> engine" where
  "cb_friend_connection X fn connection e =
     (let e0 = en_note TT_EV_FRIEND_CONNECTION fn None connection e in
      if connection = 0 then
        let e1 = e0 \<lparr>en_files := xfer_all_purge (v_files X) fn (en_files e0)\<rparr>
        in if fn < TT_MAX_FRIENDS \<and> en_typing e1 fn
           then en_note TT_EV_FRIEND_TYPING fn None 0 (e1 \<lparr>en_typing := (en_typing e1)(fn := False)\<rparr>) else e1
      else
        let e1 = emit_friend_identity X fn e0;
            e2 = e1 \<lparr>en_files := avatar_push_to_friend (v_files X) (en_files e1) fn\<rparr>;
            e3 = (if v_mode X \<and> fn < TT_MAX_FRIENDS
                  then e2 \<lparr>en_fallback := (en_fallback e2)(fn := False), en_warned := (en_warned e2)(fn := False)\<rparr> else e2);
            e4 = (if tt_oq_count (en_oq e3) fn > 0 \<and> \<not> en_flushing e3 then offline_flush_friend X fn e3 else e3);
            es = en_e2ee e4 fn
        in if v_mode X \<and> fn < TT_MAX_FRIENDS \<and> \<not> s_active es \<and> \<not> s_init_pending es \<and> \<not> s_reply_due es
           then e2ee_start X fn e4 else e4)"

definition cb_friend_typing :: "nat \<Rightarrow> bool \<Rightarrow> engine \<Rightarrow> engine" where
  "cb_friend_typing fn typing e =
     (if fn < TT_MAX_FRIENDS \<and> en_typing e fn \<noteq> typing
      then en_note TT_EV_FRIEND_TYPING fn None (if typing then 1 else 0) (e \<lparr>en_typing := (en_typing e)(fn := typing)\<rparr>) else e)"

text \<open>The chunks of a typed line, each an own message; where the loop stopped and the engine.\<close>

function send_chunks :: "eenv \<Rightarrow> nat \<Rightarrow> int \<Rightarrow> bytes \<Rightarrow> nat \<Rightarrow> engine \<Rightarrow> nat \<times> engine" where
  "send_chunks X fn ty txt off e =
     (if length txt \<le> off then (off, e)
      else
        let chunk = min (length txt - off) TT_E2EE_CHUNK in
        case tt_session_send (v_sodium X) (en_draws e) (en_e2ee e fn) (take chunk (drop off txt)) TT_FRAME_MAX of
          (Inl _, s, w) \<Rightarrow> (off, put_session fn s w e)
        | (Inr f, s, w) \<Rightarrow>
            let e1 = put_session fn s w e in
            if f = [] then send_chunks X fn ty txt (off + chunk) e1
            else
              let (mid, e2) = e2ee_send_frame X fn ty f e1
              in if mid = 0 then (off, e2)
                 else send_chunks X fn ty txt (off + chunk) (en_note TT_EV_MESSAGE_SENT fn None (int mid) e2))"
  by pat_completeness auto
termination
  by (relation "measure (\<lambda>(X, fn, ty, txt, off, e). length txt - off)") auto

declare send_chunks.simps [simp del]

definition plain_send :: "eenv \<Rightarrow> nat \<Rightarrow> int \<Rightarrow> bytes \<Rightarrow> engine \<Rightarrow> engine" where
  "plain_send X fn ty str e =
     (case tox_friend_send_message X False fn ty str e of
        ((serr, mid), e1) \<Rightarrow>
          if serr = SEND_OK then en_note TT_EV_MESSAGE_SENT fn None (int mid) e1
          else if serr = SEND_FRIEND_NOT_CONNECTED then oq_store X (oq_requeue fn [c_str str] e1)
          else e1)"

definition cmd_send_message :: "eenv \<Rightarrow> nat \<Rightarrow> int \<Rightarrow> bytes option \<Rightarrow> engine \<Rightarrow> engine" where
  "cmd_send_message X fn ty msg e =
     (case msg of
        None \<Rightarrow> e
      | Some str \<Rightarrow>
          if v_mode X \<and> fn < TT_MAX_FRIENDS \<and> e_peer_pk (e2ee_env X fn) \<noteq> None then
            if \<not> s_active (en_e2ee e fn) \<and> e2ee_fallback_due X fn e then
              if en_required e fn then
                e2ee_warn fn (ascii ''E2EE is required for this contact, but they do not support it '' @ em_dash @ ascii '' message not sent.'') e
              else
                plain_send X fn ty str
                  (e2ee_warn fn (ascii ''This contact does not support end-to-end encryption '' @ em_dash @ ascii '' message sent in plaintext.'')
                     (e \<lparr>en_fallback := (en_fallback e)(fn := True)\<rparr>))
            else
              (case send_chunks X fn ty str 0 e of
                 (off, e1) \<Rightarrow> if off < length str then oq_store X (oq_requeue fn [c_str (drop off str)] e1) else e1)
          else plain_send X fn ty str e)"

definition cmd_e2ee_enforce :: "eenv \<Rightarrow> nat \<Rightarrow> bool \<Rightarrow> engine \<Rightarrow> engine" where
  "cmd_e2ee_enforce X fn on e =
     (if fn \<ge> TT_MAX_FRIENDS then e else policy_store X (e \<lparr>en_required := (en_required e)(fn := on)\<rparr>))"

end
