(* ===== verification/Policy.thy ===== *)
theory Policy
  imports Engine
begin

text \<open>
  What the encryption policy guarantees: no text ever leaves in plaintext for a friend whose
  encryption is required, and a plaintext line from a friend is shown only while neither a session
  nor the requirement exists; when draining control frames ends; and the cases where queued lines
  are lost.
\<close>

section \<open>Steps that send nothing\<close>

named_theorems quiet \<open>steps that neither send nor change the requirement\<close>

lemma quiet_note [quiet]:
  "en_sent (en_note ty fn str ival e) = en_sent e" "en_required (en_note ty fn str ival e) = en_required e"
  "en_sent (en_push ev e) = en_sent e" "en_required (en_push ev e) = en_required e"
  by (simp_all add: en_note_def en_push_def split: option.split)

lemma quiet_simple [quiet]:
  "en_sent (put_session fn s w e) = en_sent e" "en_required (put_session fn s w e) = en_required e"
  "en_sent (oq_store X e) = en_sent e" "en_required (oq_store X e) = en_required e"
  "en_sent (oq_requeue fn ts e) = en_sent e" "en_required (oq_requeue fn ts e) = en_required e"
  "en_sent (policy_store X e) = en_sent e" "en_required (policy_store X e) = en_required e"
  by (simp_all add: put_session_def oq_store_def oq_requeue_def policy_store_def Let_def)

lemma quiet_events [quiet]:
  "en_sent (e2ee_warn fn msg e) = en_sent e" "en_required (e2ee_warn fn msg e) = en_required e"
  "en_sent (e2ee_push_state X fn b e) = en_sent e" "en_required (e2ee_push_state X fn b e) = en_required e"
  "en_sent (emit_friend_identity X fn e) = en_sent e" "en_required (emit_friend_identity X fn e) = en_required e"
  "en_sent (cb_friend_typing fn b e) = en_sent e" "en_required (cb_friend_typing fn b e) = en_required e"
  by (simp_all add: e2ee_warn_def e2ee_push_state_def emit_friend_identity_def cb_friend_typing_def Let_def quiet split: option.split)

text \<open>From \<open>e\<close> to \<open>e'\<close> only frames were sent to \<open>fn\<close>, and a requirement for it stays.\<close>

definition clean :: "nat \<Rightarrow> engine \<Rightarrow> engine \<Rightarrow> bool" where
  "clean fn e e' \<longleftrightarrow> (\<exists>ms. en_sent e' = en_sent e @ ms \<and> (\<forall>m \<in> set ms. sm_fn m = fn \<longrightarrow> sm_frame m)) \<and>
     (en_required e fn \<longrightarrow> en_required e' fn)"

lemma clean_quiet: "en_sent e' = en_sent e \<Longrightarrow> en_required e' = en_required e \<Longrightarrow> clean fn e e'"
  by (auto simp: clean_def)

lemma clean_trans [trans]: "clean fn e e' \<Longrightarrow> clean fn e' e'' \<Longrightarrow> clean fn e e''"
  by (fastforce simp: clean_def)

lemma clean_log: "frame \<or> g \<noteq> fn \<Longrightarrow> clean fn e (log_msg frame g ty b e)"
  by (auto simp: clean_def log_msg_def)

lemma clean_sub: "en_sent e = en_sent d \<Longrightarrow> en_required e = en_required d \<Longrightarrow> clean fn e e' \<Longrightarrow> clean fn d e'"
  by (simp add: clean_def)

lemma clean_post: "clean fn e d \<Longrightarrow> en_sent e' = en_sent d \<Longrightarrow> en_required e' = en_required d \<Longrightarrow> clean fn e e'"
  by (simp add: clean_def)

section \<open>Every step\<close>

lemma clean_frame: "clean fn e (log_msg True g ty b (put_session g' s w e))"
  by (rule clean_sub [OF _ _ clean_log]) (simp_all add: quiet)

lemma clean_pump: "clean fn e (e2ee_pump X g e)"
proof (induction X g e rule: e2ee_pump.induct)
  case (1 X g e)
  obtain r s w where fl: "tt_session_flush (v_sodium X) (en_draws e) (en_e2ee e g) TT_FRAME_MAX = (r, s, w)" by (metis prod.exhaust)
  show ?case
  proof (cases "\<exists>f. r = Inr f \<and> f \<noteq> []")
    case True
    then obtain f where f: "r = Inr f" "f \<noteq> []" by blast
    let ?e1 = "put_session g s w e"
    let ?e2 = "log_msg True g 0 f ?e1"
    obtain mid where sf: "e2ee_send_frame X g 0 f ?e1 = (mid, ?e2)" by (simp add: send_frame_eq)
    let ?e3 = "if mid \<noteq> 0 then en_note TT_EV_MESSAGE_SENT g None (int mid) ?e2 else ?e2"
    have a: "clean fn e ?e3" by (rule clean_post [OF clean_frame [of fn e g 0 f g s w]]) (simp_all add: quiet)
    have b: "clean fn ?e3 (e2ee_pump X g ?e3)" using 1 [OF fl [symmetric] f(1) refl f(2) refl sf [symmetric]] by simp
    have eq: "e2ee_pump X g e = e2ee_pump X g ?e3"
      unfolding e2ee_pump.simps [of X g e] fl f(1) using f(2) by (simp add: sf)
    show ?thesis unfolding eq by (rule clean_trans [OF a b])
  next
    case False
    then have "e2ee_pump X g e = put_session g s w e"
      unfolding e2ee_pump.simps [of X g e] fl by (cases r) simp_all
    then show ?thesis by (simp add: clean_quiet quiet)
  qed
qed

lemma clean_rel_loop:
  assumes "rel_loop X g e = Some e'"
  shows "clean fn e e'"
proof (rule rel_loop.raw_induct [OF _ assms, where P = "\<lambda>X g e e'. clean fn e e'"])
  fix rl X g e e'
  assume ih: "\<And>X g e e'. rl X g e = Some e' \<Longrightarrow> clean fn e e'"
    and body: "(case tt_session_rel_poll (v_sodium X) (en_draws e) (en_e2ee e g) TT_FRAME_MAX of
        (r, s, w) \<Rightarrow> (case r of Inl _ \<Rightarrow> Some (put_session g s w e)
           | Inr f \<Rightarrow> if f = [] then Some (put_session g s w e) else rl X g (snd (e2ee_send_frame X g 0 f (put_session g s w e))))) = Some e'"
  obtain r s w where p: "tt_session_rel_poll (v_sodium X) (en_draws e) (en_e2ee e g) TT_FRAME_MAX = (r, s, w)" by (metis prod.exhaust)
  show "clean fn e e'"
  proof (cases "\<exists>f. r = Inr f \<and> f \<noteq> []")
    case True
    then obtain f where f: "r = Inr f" "f \<noteq> []" by blast
    then have "rl X g (log_msg True g 0 f (put_session g s w e)) = Some e'" using body p by (simp add: send_frame_eq)
    then show ?thesis using ih clean_trans [OF clean_frame] by blast
  next
    case False
    then have "e' = put_session g s w e" using body p by (cases r) auto
    then show ?thesis by (simp add: clean_quiet quiet)
  qed
qed

lemma clean_rel_poll: "e2ee_rel_poll X g e = Some e' \<Longrightarrow> clean fn e e'"
  by (auto simp: e2ee_rel_poll_def clean_quiet clean_rel_loop split: if_splits)

lemma clean_start: "clean fn e (e2ee_start X g e)"
proof -
  obtain r s w where st: "tt_session_start (v_sodium X) (en_draws e) (en_e2ee e g) (e2ee_env X g) (v_now X) TT_FRAME_MAX = (r, s, w)" by (metis prod.exhaust)
  show ?thesis
  proof (cases r)
    case (Inl a)
    then show ?thesis by (simp add: e2ee_start_def st clean_quiet quiet)
  next
    case (Inr f)
    then show ?thesis
      using clean_post [OF clean_frame [of fn e g 0 f g s w]] by (auto simp: e2ee_start_def st send_frame_eq Let_def clean_quiet)
  qed
qed

lemma clean_tick_friend: "e2ee_tick_friend X g e = Some e' \<Longrightarrow> clean fn e e'"
proof -
  assume a: "e2ee_tick_friend X g e = Some e'"
  obtain f s w where t: "tt_session_tick (v_sodium X) (en_draws e) (en_e2ee e g) (e2ee_env X g) (v_now X) TT_FRAME_MAX = (f, s, w)" by (metis prod.exhaust)
  let ?e1 = "put_session g s w e"
  have "clean fn e (if f \<noteq> [] then log_msg True g 0 f ?e1 else ?e1)" by (simp add: clean_frame clean_quiet quiet)
  moreover have "e' = e \<or> e2ee_rel_poll X g (if f \<noteq> [] then log_msg True g 0 f ?e1 else ?e1) = Some e'"
    using a by (simp add: e2ee_tick_friend_def t Let_def send_frame_eq split: if_splits)
  ultimately show ?thesis using clean_rel_poll clean_trans clean_quiet by blast
qed

lemma clean_tick: "e2ee_tick_from X fns e = Some e' \<Longrightarrow> clean fn e e'"
proof (induction fns arbitrary: e)
  case (Cons g fns e)
  then obtain d where "e2ee_tick_friend X g e = Some d" "clean fn d e'" by (auto simp: bind_eq_Some_conv)
  then show ?case using clean_tick_friend clean_trans by blast
qed (simp add: clean_quiet)

lemma clean_flush_text: "clean fn e (snd (flush_text X g t off e))"
proof (induction X g t off e rule: flush_text.induct)
  case (1 X g t off e)
  show ?case
  proof (cases "length t \<le> off")
    case True
    then show ?thesis by (simp add: flush_text.simps [of X g t off] clean_quiet)
  next
    case False
    define chunk where "chunk = min (length t - off) TT_E2EE_CHUNK"
    obtain r s w where sd: "tt_session_send (v_sodium X) (en_draws e) (en_e2ee e g) (take chunk (drop off t)) TT_FRAME_MAX = (r, s, w)" by (metis prod.exhaust)
    let ?e1 = "put_session g s w e"
    show ?thesis
    proof (cases "\<exists>f. r = Inr f \<and> f \<noteq> [] \<and> fst (e2ee_send_frame X g 0 f ?e1) \<noteq> 0")
      case True
      then obtain f where f: "r = Inr f" "f \<noteq> []" "fst (e2ee_send_frame X g 0 f ?e1) \<noteq> 0" by blast
      let ?e2 = "log_msg True g 0 f ?e1"
      obtain mid where sf: "e2ee_send_frame X g 0 f ?e1 = (mid, ?e2)" by (simp add: send_frame_eq)
      then have m0: "mid \<noteq> 0" using f(3) by simp
      have "flush_text X g t off e = flush_text X g t (off + chunk) ?e2"
        using False m0 f(2) unfolding flush_text.simps [of X g t off e] by (simp add: Let_def chunk_def [symmetric] sd f(1) sf)
      moreover have "clean fn ?e2 (snd (flush_text X g t (off + chunk) ?e2))"
        using 1 [OF False chunk_def sd [symmetric] f(1) refl refl f(2) refl sf [symmetric] m0] by simp
      ultimately show ?thesis using clean_trans [OF clean_frame] by simp
    next
      case no: False
      have "snd (flush_text X g t off e) \<in> {?e1, oq_requeue g [drop (off + chunk) t] ?e1} \<or>
        (\<exists>f. snd (flush_text X g t off e) = log_msg True g 0 f ?e1)"
        using False no unfolding flush_text.simps [of X g t off e] by (cases r) (auto simp: Let_def chunk_def [symmetric] sd send_frame_eq)
      then show ?thesis using clean_frame [of fn e g 0 _ g s w] by (auto simp: clean_quiet quiet)
    qed
  qed
qed

lemma clean_flush_texts: "clean fn e (flush_texts X g ts e)"
proof (induction ts arbitrary: e)
  case (Cons t ts)
  obtain off d where f: "flush_text X g t 0 e = (off, d)" by (metis prod.exhaust)
  have d: "clean fn e d" using clean_flush_text [of fn e X g t 0] f by simp
  show ?case
  proof (cases "off < length t")
    case True
    then show ?thesis using clean_post [OF d] by (simp add: f quiet)
  next
    case False
    then show ?thesis using clean_trans [OF d Cons.IH] by (simp add: f)
  qed
qed (simp add: clean_quiet)

lemma clean_plain_flush: "g \<noteq> fn \<Longrightarrow> clean fn e (plain_flush X g ts e)"
proof (induction ts arbitrary: e)
  case (Cons t ts)
  obtain err mid where v: "v_send X (length (en_sent e)) = (err, mid)" by (metis prod.exhaust)
  have l: "clean fn e (log_msg False g 0 t e)" using Cons.prems by (simp add: clean_log)
  show ?case
  proof (cases "err = SEND_FRIEND_NOT_CONNECTED")
    case True
    then show ?thesis using clean_post [OF l] by (simp add: tox_send_eq v quiet)
  next
    case False
    let ?d = "if err = SEND_OK then en_note TT_EV_MESSAGE_SENT g None (int mid) (log_msg False g 0 t e) else log_msg False g 0 t e"
    have "clean fn e ?d" by (rule clean_post [OF l]) (simp_all add: quiet)
    from clean_trans [OF this Cons.IH [OF Cons.prems]] show ?thesis using False by (simp add: tox_send_eq v)
  qed
qed (simp add: clean_quiet)

text \<open>The friend is known to toxcore, the encryption layer is on and the friend requires it.\<close>

definition enforced :: "eenv \<Rightarrow> nat \<Rightarrow> engine \<Rightarrow> bool" where
  "enforced X fn e \<longleftrightarrow> v_mode X \<and> fn < TT_MAX_FRIENDS \<and> v_peer X fn \<noteq> None \<and> en_required e fn"

lemma enforced_env: "enforced X fn e \<Longrightarrow> v_mode X \<and> fn < 256 \<and> e_peer_pk (e2ee_env X fn) \<noteq> None \<and> en_required e fn"
  by (simp add: enforced_def e2ee_env_def)

lemma enforced_cong: "en_required e' = en_required e \<Longrightarrow> enforced X fn e \<Longrightarrow> enforced X fn e'"
  by (simp add: enforced_def)

lemma clean_enforced: "clean fn e e' \<Longrightarrow> enforced X fn e \<Longrightarrow> enforced X fn e'"
  by (simp add: clean_def enforced_def)

lemma clean_flush_friend:
  assumes "enforced X fn e"
  shows "clean fn e (offline_flush_friend X g e)"
proof -
  obtain texts q where t: "tt_oq_take_all (en_oq e) g = (texts, q)" by (metis prod.exhaust)
  let ?e0 = "e \<lparr>en_oq := q\<rparr>"
  have sub: "clean fn ?e0 d \<Longrightarrow> clean fn e d" for d by (rule clean_sub) simp_all
  have enc: "clean fn ?e0 (en_note TT_EV_OFFLINE_FLUSHED g None k (oq_store X (flush_texts X g texts ?e0)))" for k
    by (rule clean_post [OF clean_flush_texts]) (simp_all add: quiet)
  have warn: "clean fn ?e0 (oq_store X (e2ee_warn g msg ?e0))" for msg
    by (rule clean_quiet) (simp_all add: quiet)
  show ?thesis
  proof (cases "g = fn")
    case True
    then have "v_mode X \<and> e_peer_pk (e2ee_env X g) \<noteq> None" "en_required ?e0 g" using enforced_env [OF assms] by simp_all
    then show ?thesis
      unfolding offline_flush_friend_def t prod.case Let_def
      using sub [OF enc] sub [OF warn] sub [OF clean_quiet [of ?e0 ?e0]] by (simp only: if_True simp_thms split: if_split)
  next
    case False
    have plain: "clean fn ?e0 (en_note TT_EV_OFFLINE_FLUSHED g None k (plain_flush X g texts d))"
      if "en_sent d = en_sent e" "en_required d = en_required e" for d k
      by (rule clean_sub [OF _ _ clean_post [OF clean_plain_flush [OF False, of d]]]) (simp_all add: quiet that)
    have p1: "clean fn e (en_note TT_EV_OFFLINE_FLUSHED g None k (plain_flush X g texts ?e0))"
      and p2: "clean fn e (en_note TT_EV_OFFLINE_FLUSHED g None k (plain_flush X g texts (e2ee_warn g msg (?e0 \<lparr>en_fallback := b\<rparr>))))" for k msg b
      by (rule sub [OF plain]; simp add: quiet)+
    show ?thesis
      unfolding offline_flush_friend_def t prod.case Let_def
      using p1 p2 sub [OF enc] sub [OF warn] sub [OF clean_quiet [of ?e0 ?e0]] by (simp only: simp_thms split: if_split)
  qed
qed

lemma clean_flush_all:
  assumes "enforced X fn e"
  shows "clean fn e (offline_flush_all X e)"
proof -
  let ?f = "\<lambda>e g. if tt_oq_count (en_oq e) g = 0 \<or> \<not> v_online X g then e else offline_flush_friend X g e"
  have fold: "enforced X fn d \<Longrightarrow> clean fn d (foldl ?f d gs)" for gs d
  proof (induction gs arbitrary: d)
    case (Cons g gs)
    have "clean fn d (?f d g)" using clean_flush_friend [OF Cons.prems] by (simp add: clean_quiet)
    then show ?case using Cons.IH [OF clean_enforced [OF _ Cons.prems]] clean_trans by (simp only: foldl_Cons)
  qed (simp add: clean_quiet)
  let ?e1 = "e \<lparr>en_flushing := True\<rparr>"
  have "enforced X fn ?e1" using assms by (simp add: enforced_def)
  from fold [OF this] have "clean fn e (foldl ?f ?e1 (f_friends (v_files X)))" by (rule clean_sub [rotated 2]) simp_all
  then show ?thesis unfolding offline_flush_all_def Let_def by (rule clean_post) (simp_all add: quiet)
qed

lemma clean_handshaked:
  assumes "enforced X fn e"
  shows "clean fn e (e2ee_handshaked X g was ok e)"
proof -
  define e1 where "e1 = (if ok \<and> s_reply_due (en_e2ee e g) then
                  (case tt_session_reply (v_sodium X) (en_draws e) (en_e2ee e g) (e2ee_env X g) TT_FRAME_MAX of
                     (Inl _, s, w) \<Rightarrow> put_session g s w e
                   | (Inr f, s, w) \<Rightarrow>
                       if f = [] then put_session g s w e else snd (e2ee_send_frame X g 0 f (put_session g s w e)))
                else e)"
  have c1: "clean fn e e1"
    using clean_frame [of fn e g 0 _ g] by (auto simp: e1_def send_frame_eq clean_quiet quiet split: prod.splits sum.splits)
  define e2 where "e2 = e1 \<lparr>en_fallback := (en_fallback e1)(g := False)\<rparr>"
  define e3 where "e3 = (if \<not> was \<and> \<not> en_required e2 g
      then en_note TT_EV_E2EE_ENFORCE g None 1 (policy_store X (e2 \<lparr>en_required := (en_required e2)(g := True)\<rparr>)) else e2)"
  have "clean fn e1 e3" by (auto simp: e3_def e2_def clean_def quiet)
  then have c3: "clean fn e e3" using c1 clean_trans by blast
  define e4 where "e4 = e2ee_pump X g e3"
  have c4: "clean fn e e4" using clean_trans [OF c3 clean_pump] by (simp add: e4_def)
  have c5: "clean fn e (offline_flush_friend X g e4)"
    using clean_trans [OF c4 clean_flush_friend] clean_enforced [OF c4 assms] by blast
  have push: "clean fn e d \<Longrightarrow> clean fn e (e2ee_push_state X g b d)" for d b by (rule clean_post) (simp_all add: quiet)
  show ?thesis
    unfolding e2ee_handshaked_def Let_def e1_def [symmetric] e2_def [symmetric] e3_def [symmetric] e4_def [symmetric]
    using c1 c4 c5 push by (simp only: split: if_split) blast
qed

lemma clean_rx:
  assumes "enforced X fn e" "e2ee_rx X g str e = Some (b, str', e')"
  shows "clean fn e e'"
proof -
  obtain r h s w where fd: "tt_session_feed (v_sodium X) (en_draws e) (en_e2ee e g) (e2ee_env X g) str TT_FRAME_DATA_MAX = (r, h, s, w)"
    by (metis prod.exhaust)
  let ?e1 = "put_session g s w e"
  have q: "clean fn ?e1 d \<Longrightarrow> clean fn e d" for d by (rule clean_sub) (simp_all add: quiet)
  have en: "enforced X fn ?e1" using assms(1) by (rule enforced_cong [rotated]) (simp add: quiet)
  have "clean fn ?e1 (e2ee_warn g msg ?e1)" "clean fn ?e1 (e2ee_warn g msg (?e1 \<lparr>en_fallback := x\<rparr>))" "clean fn ?e1 ?e1"
    "clean fn ?e1 (put_session g s' w' (en_push ev ?e1))" for msg x s' w' ev
    by (rule clean_quiet; simp add: quiet)+
  moreover have "e2ee_rel_poll X g d = Some e' \<Longrightarrow> clean fn e d \<Longrightarrow> clean fn e e'" for d
    using clean_rel_poll clean_trans by blast
  ultimately show ?thesis
    using assms(2) q clean_handshaked [OF en] clean_start [of fn ?e1 X g] clean_quiet [of e e fn]
    unfolding e2ee_rx_def Let_def fd prod.case
    by (cases r) (auto split: if_splits)
qed

lemma clean_friend_message:
  assumes "enforced X fn e" "cb_friend_message X g ty msg e = Some e'"
  shows "clean fn e e'"
proof -
  have m: "v_mode X" using assms(1) by (simp add: enforced_def)
  then obtain b str d where rx: "e2ee_rx X g msg e = Some (b, str, d)"
    using assms(2) by (auto simp: cb_friend_message_def split: option.splits)
  have "clean fn e d" by (rule clean_rx [OF assms(1) rx])
  moreover have "en_sent e' = en_sent d" "en_required e' = en_required d"
    using assms(2) m by (auto simp: cb_friend_message_def rx quiet)
  ultimately show ?thesis by (rule clean_post)
qed

lemma clean_friend_connection:
  assumes "enforced X fn e"
  shows "clean fn e (cb_friend_connection X g connection e)"
proof (cases "connection = 0")
  case True
  then show ?thesis by (auto simp: cb_friend_connection_def Let_def quiet intro: clean_quiet)
next
  case False
  define e1 where "e1 = emit_friend_identity X g (en_note TT_EV_FRIEND_CONNECTION g None connection e)"
  define e2 where "e2 = e1 \<lparr>en_files := avatar_push_to_friend (v_files X) (en_files e1) g\<rparr>"
  define e3 where "e3 = (if v_mode X \<and> g < TT_MAX_FRIENDS
      then e2 \<lparr>en_fallback := (en_fallback e2)(g := False), en_warned := (en_warned e2)(g := False)\<rparr> else e2)"
  define e4 where "e4 = (if tt_oq_count (en_oq e3) g > 0 \<and> \<not> en_flushing e3 then offline_flush_friend X g e3 else e3)"
  have c3: "clean fn e e3" by (rule clean_quiet) (simp_all add: e3_def e2_def e1_def quiet)
  have c4: "clean fn e e4"
    using c3 clean_trans [OF c3 clean_flush_friend [OF clean_enforced [OF c3 assms]]] by (simp add: e4_def)
  have eq: "cb_friend_connection X g connection e =
    (if v_mode X \<and> g < TT_MAX_FRIENDS \<and> \<not> s_active (en_e2ee e4 g) \<and> \<not> s_init_pending (en_e2ee e4 g) \<and> \<not> s_reply_due (en_e2ee e4 g)
     then e2ee_start X g e4 else e4)"
    unfolding cb_friend_connection_def Let_def if_not_P [OF False] e1_def [symmetric] e2_def [symmetric] e3_def [symmetric] e4_def [symmetric] ..
  show ?thesis unfolding eq using c4 clean_trans [OF c4 clean_start] by simp
qed

lemma clean_send_chunks: "clean fn e (snd (send_chunks X g ty t off e))"
proof (induction X g ty t off e rule: send_chunks.induct)
  case (1 X g ty t off e)
  show ?case
  proof (cases "length t \<le> off")
    case True
    then show ?thesis by (simp add: send_chunks.simps [of X g ty t off] clean_quiet)
  next
    case False
    define chunk where "chunk = min (length t - off) TT_E2EE_CHUNK"
    obtain r s w where sd: "tt_session_send (v_sodium X) (en_draws e) (en_e2ee e g) (take chunk (drop off t)) TT_FRAME_MAX = (r, s, w)" by (metis prod.exhaust)
    let ?e1 = "put_session g s w e"
    note unf = send_chunks.simps [of X g ty t off e] if_not_P [OF False] Let_def chunk_def [symmetric] sd prod.case
    have q: "clean fn e ?e1" by (simp add: clean_quiet quiet)
    show ?thesis
    proof (cases r)
      case (Inl err)
      then show ?thesis unfolding unf using q by simp
    next
      case (Inr f)
      show ?thesis
      proof (cases "f = []")
        case True
        have "clean fn ?e1 (snd (send_chunks X g ty t (off + chunk) ?e1))"
          using "1.IH"(1) [OF False chunk_def sd [symmetric] Inr refl refl True] .
        then show ?thesis unfolding unf using Inr True clean_trans [OF q] by simp
      next
        case ne: False
        let ?e2 = "log_msg True g ty f ?e1"
        obtain mid where sf: "e2ee_send_frame X g ty f ?e1 = (mid, ?e2)" by (simp add: send_frame_eq)
        let ?e3 = "en_note TT_EV_MESSAGE_SENT g None (int mid) ?e2"
        have c3: "clean fn e ?e3" by (rule clean_post [OF clean_frame [of fn e g ty f g s w]]) (simp_all add: quiet)
        show ?thesis
        proof (cases "mid = 0")
          case True
          then show ?thesis unfolding unf using Inr ne clean_frame [of fn e g ty f g s w] by (simp add: sf)
        next
          case False
          then have "clean fn ?e3 (snd (send_chunks X g ty t (off + chunk) ?e3))"
            using "1.IH"(2) [OF \<open>\<not> length t \<le> off\<close> chunk_def sd [symmetric] Inr refl refl ne refl sf [symmetric]] by simp
          then show ?thesis unfolding unf using Inr ne False clean_trans [OF c3] by (simp add: sf)
        qed
      qed
    qed
  qed
qed

lemma clean_plain_send: "g \<noteq> fn \<Longrightarrow> clean fn e (plain_send X g ty str e)"
proof -
  assume "g \<noteq> fn"
  then have l: "clean fn e (log_msg False g ty str e)" by (simp add: clean_log)
  obtain err mid where v: "v_send X (length (en_sent e)) = (err, mid)" by (metis prod.exhaust)
  show ?thesis by (rule clean_post [OF l]) (simp_all add: plain_send_def tox_send_eq v quiet)
qed

lemma clean_send_message:
  assumes "enforced X fn e"
  shows "clean fn e (cmd_send_message X g ty msg e)"
proof (cases msg)
  case (Some str)
  obtain off d where sc: "send_chunks X g ty str 0 e = (off, d)" by (metis prod.exhaust)
  have cd: "clean fn e d" using clean_send_chunks [of fn e X g ty str 0] sc by simp
  then have tail: "clean fn e (oq_store X (oq_requeue g ts d))" for ts by (rule clean_post) (simp_all add: quiet)
  have warn: "clean fn e (e2ee_warn g m e)" for m by (rule clean_quiet) (simp_all add: quiet)
  show ?thesis
  proof (cases "g = fn")
    case True
    then have "v_mode X \<and> g < 256 \<and> e_peer_pk (e2ee_env X g) \<noteq> None" "en_required e g" using enforced_env [OF assms] by simp_all
    then show ?thesis
      unfolding cmd_send_message_def Some option.case sc prod.case
      using cd tail warn by (simp only: if_True simp_thms split: if_split)
  next
    case False
    have plain: "clean fn e (plain_send X g ty str (e2ee_warn g m (e \<lparr>en_fallback := b\<rparr>)))" for m b
      by (rule clean_sub [OF _ _ clean_plain_send [OF False]]) (simp_all add: quiet)
    show ?thesis
      unfolding cmd_send_message_def Some option.case sc prod.case
      using cd tail warn plain clean_plain_send [OF False, of e] by (simp only: simp_thms split: if_split)
  qed
qed (simp add: cmd_send_message_def clean_quiet)

section \<open>The engine as a machine\<close>

datatype engine_input =
    InMessage nat int bytes | InConnection nat int | InSelf int | InTyping nat bool | InTick
  | InSend nat int "bytes option" | InEnforce nat bool

fun engine_step :: "eenv \<Rightarrow> engine_input \<Rightarrow> engine \<Rightarrow> engine option" where
  "engine_step X (InMessage fn ty msg) e = cb_friend_message X fn ty msg e"
| "engine_step X (InConnection fn connection) e = Some (cb_friend_connection X fn connection e)"
| "engine_step X (InSelf connection) e = Some (cb_self_connection X connection e)"
| "engine_step X (InTyping fn b) e = Some (cb_friend_typing fn b e)"
| "engine_step X InTick e = (if v_mode X then e2ee_tick X e else Some e)"
| "engine_step X (InSend fn ty msg) e = Some (cmd_send_message X fn ty msg e)"
| "engine_step X (InEnforce fn on) e = Some (cmd_e2ee_enforce X fn on e)"

fun engine_run :: "(eenv \<times> engine_input) list \<Rightarrow> engine \<Rightarrow> engine option" where
  "engine_run [] e = Some e"
| "engine_run ((X, i) # ins) e = Option.bind (engine_step X i e) (engine_run ins)"

lemma clean_step:
  assumes "enforced X fn e" "i \<noteq> InEnforce fn False" "engine_step X i e = Some e'"
  shows "clean fn e e'"
proof (cases i)
  case (InSelf c)
  let ?e1 = "(en_note TT_EV_SELF_CONNECTION 0 None c e) \<lparr>en_self_online := (c \<noteq> 0)\<rparr>"
  have "clean fn e ?e1" by (rule clean_quiet) (simp_all add: quiet)
  moreover from this have "clean fn e (offline_flush_all X ?e1)"
    using clean_trans clean_flush_all clean_enforced [OF _ assms(1)] by blast
  ultimately show ?thesis using assms(3) InSelf by (auto simp: cb_self_connection_def Let_def split: if_splits)
next
  case (InEnforce g on)
  then have "e' = cmd_e2ee_enforce X g on e" "g = fn \<longrightarrow> on" using assms(2,3) by auto
  then show ?thesis by (auto simp: clean_def cmd_e2ee_enforce_def quiet)
next
  case (InTyping g b)
  then show ?thesis using assms(3) by (auto simp: quiet intro: clean_quiet)
next
  case InTick
  then show ?thesis using assms(3) clean_tick clean_quiet by (auto simp: e2ee_tick_def split: if_splits)
next
  case (InMessage g ty msg)
  then show ?thesis using clean_friend_message [OF assms(1)] assms(3) by simp
next
  case (InConnection g c)
  then show ?thesis using clean_friend_connection [OF assms(1)] assms(3) by auto
next
  case (InSend g ty msg)
  then show ?thesis using clean_send_message [OF assms(1)] assms(3) by auto
qed

lemma clean_run:
  "en_required e fn \<Longrightarrow> fn < TT_MAX_FRIENDS \<Longrightarrow> \<forall>(X, i) \<in> set ins. v_mode X \<and> v_peer X fn \<noteq> None \<and> i \<noteq> InEnforce fn False \<Longrightarrow>
   engine_run ins e = Some e' \<Longrightarrow> clean fn e e'"
proof (induction ins arbitrary: e)
  case (Cons a ins)
  obtain X i where a: "a = (X, i)" by (cases a)
  obtain d where d: "engine_step X i e = Some d" "engine_run ins d = Some e'" using Cons.prems(4) by (auto simp: a bind_eq_Some_conv)
  have "enforced X fn e" using Cons.prems by (simp add: enforced_def a)
  moreover have "i \<noteq> InEnforce fn False" using Cons.prems(3) by (simp add: a)
  ultimately have c: "clean fn e d" using d(1) by (rule clean_step)
  then have "en_required d fn" using Cons.prems(1) by (simp add: clean_def)
  then have "clean fn d e'" using Cons d(2) by simp
  then show ?case using clean_trans c by blast
qed (simp add: clean_quiet)

text \<open>C5: once encryption is required for a friend, then whatever messages, connection changes, timer
  ticks, typed lines and policy commands follow (short of lifting the requirement for that friend),
  with any clock, any toxcore answers and any network input, every message handed to toxcore for that
  friend is an encrypted frame of the session layer: no text leaves in plaintext, and the requirement
  stays in force.\<close>

theorem required_friend_never_gets_plaintext:
  assumes "en_required e fn" "fn < TT_MAX_FRIENDS" "engine_run ins e = Some e'"
    "\<forall>(X, i) \<in> set ins. v_mode X \<and> v_peer X fn \<noteq> None \<and> i \<noteq> InEnforce fn False"
  shows "en_required e' fn \<and> (\<forall>m \<in> set (drop (length (en_sent e)) (en_sent e')). sm_fn m = fn \<longrightarrow> sm_frame m)"
proof -
  have "clean fn e e'" by (rule clean_run [OF assms(1,2,4,3)])
  then show ?thesis using assms(1) by (auto simp: clean_def)
qed

definition demo_eenv :: eenv where
  "demo_eenv = \<lparr>v_files = demo_env, v_sodium = toy True, v_mode = True, v_self_sk = replicate 32 1, v_self_pk = replicate 32 1,
     v_peer = (\<lambda>fn. if fn < 2 then Some (replicate 32 2) else None), v_last_online = (\<lambda>_. None), v_online = (\<lambda>_. True), v_now = 1000,
     v_send = (\<lambda>k. (SEND_OK, k + 1)), v_settings_io = (\<lambda>_. True)\<rparr>"

definition demo_engine :: engine where
  "demo_engine = \<lparr>en_files = demo_state (\<lambda>_. None), en_e2ee = (\<lambda>_. tt_session_init), en_draws = 0, en_required = (\<lambda>fn. fn = 1),
     en_fallback = (\<lambda>_. False), en_warned = (\<lambda>_. False), en_handshake_at = (\<lambda>_. 10), en_typing = (\<lambda>_. False), en_oq = oq_empty,
     en_flushing = False, en_self_online = True, en_sent = []\<rparr>"

theorem required_friend_never_gets_plaintext_witness:
  "\<exists>e'. engine_run [(demo_eenv, InSend 1 0 (Some [72])), (demo_eenv, InConnection 1 2), (demo_eenv, InSend 0 0 (Some [72]))] demo_engine = Some e' \<and>
     en_required e' 1 \<and> (\<forall>m \<in> set (en_sent e'). sm_fn m = 1 \<longrightarrow> sm_frame m)"
proof -
  let ?ins = "[(demo_eenv, InSend 1 0 (Some [72])), (demo_eenv, InConnection 1 2), (demo_eenv, InSend 0 0 (Some [72]))]"
  obtain e' where e': "engine_run ?ins demo_engine = Some e'" by simp
  have "en_required demo_engine 1" "\<forall>(X, i) \<in> set ?ins. v_mode X \<and> v_peer X 1 \<noteq> None \<and> i \<noteq> InEnforce 1 False" "en_sent demo_engine = []"
    by (simp_all add: demo_engine_def demo_eenv_def)
  then show ?thesis using required_friend_never_gets_plaintext [OF _ _ e', of 1] e' by simp
qed

section \<open>Plaintext from a friend\<close>

definition shown :: "engine \<Rightarrow> engine \<Rightarrow> TTEvent list" where
  "shown e e' = filter (\<lambda>ev. ev_type ev = TT_EV_FRIEND_MESSAGE) (drop (length (fs_events (en_files e))) (fs_events (en_files e')))"

lemma rel_poll_inactive: "\<not> s_active (en_e2ee e fn) \<Longrightarrow> \<exists>e'. e2ee_rel_poll X fn e = Some e' \<and> en_files e' = en_files e"
  by (auto simp: e2ee_rel_poll_def rel_loop.simps [of X fn e] tt_session_rel_poll_def put_session_def)

lemma preserve_inactive: "\<not> s_active (reestablish_preserve s)"
  by (simp add: reestablish_preserve_def tt_session_clear_def tt_session_init_def)

lemma session_start_inactive:
  "e_peer_pk env = Some pk \<Longrightarrow> \<not> s_active (fst (snd (tt_session_start L w s env now cap)))"
  using preserve_inactive [of s] by (simp add: tt_session_start_def Let_def split_beta split: option.split)

lemma start_inactive:
  assumes "e_peer_pk (e2ee_env X fn) \<noteq> None"
  shows "\<not> s_active (en_e2ee (e2ee_start X fn e) fn)" "en_files (e2ee_start X fn e) = en_files e"
proof -
  obtain r s w where st: "tt_session_start (v_sodium X) (en_draws e) (en_e2ee e fn) (e2ee_env X fn) (v_now X) TT_FRAME_MAX = (r, s, w)" by (metis prod.exhaust)
  obtain pk where pk: "e_peer_pk (e2ee_env X fn) = Some pk" using assms by blast
  then have na: "\<not> s_active s" using session_start_inactive [of "e2ee_env X fn" pk] st by (metis fst_conv snd_conv)
  have "en_e2ee (e2ee_start X fn e) fn = s \<and> en_files (e2ee_start X fn e) = en_files e"
  proof (cases r)
    case (Inl err)
    then have "e2ee_start X fn e = put_session fn s w e" by (simp add: e2ee_start_def pk st)
    then show ?thesis by (simp add: put_session_def)
  next
    case (Inr f)
    then show ?thesis
      unfolding e2ee_start_def st prod.case Inr sum.case send_frame_eq Let_def snd_conv pk log_msg_def put_session_def by simp
  qed
  then show "\<not> s_active (en_e2ee (e2ee_start X fn e) fn)" "en_files (e2ee_start X fn e) = en_files e" using na by simp_all
qed

lemma warn_files: "fs_events (en_files (e2ee_warn fn msg e)) = fs_events (en_files e) @
    (if fn \<ge> 256 \<or> en_warned e fn then [] else [(tt_event_new TT_EV_E2EE_WARN) \<lparr>ev_fn := fn, ev_ival := 0, ev_str := Some msg\<rparr>])"
  if "msg \<noteq> []"
  using that by (simp add: e2ee_warn_def en_note_def en_push_def push_simple_def f_push_def Let_def)

text \<open>C6: a message that is not a frame of the encryption layer, received while the layer is on, is shown
  to the user exactly when no session with the friend is active and encryption is not required for
  the friend; then it is shown unchanged.  The handler always returns.\<close>

theorem plaintext_shown_iff:
  assumes "v_mode X" "fn < TT_MAX_FRIENDS" "v_peer X fn \<noteq> None" "tt_frame_peek msg = None"
  shows "\<exists>e'. cb_friend_message X fn ty msg e = Some e' \<and>
    shown e e' = (if \<not> s_active (en_e2ee e fn) \<and> \<not> en_required e fn
                  then [(tt_event_new TT_EV_FRIEND_MESSAGE) \<lparr>ev_fn := fn, ev_ival := ty, ev_str := Some msg\<rparr>] else [])"
proof -
  obtain pk where pk: "e_peer_pk (e2ee_env X fn) = Some pk" using assms(2,3) by (auto simp: e2ee_env_def)
  then have peer: "e_peer_pk (e2ee_env X fn) \<noteq> None" by simp
  have fd: "tt_session_feed (v_sodium X) (en_draws e) (en_e2ee e fn) (e2ee_env X fn) msg TT_FRAME_DATA_MAX =
    (Inl TT_E2EE_DECODE_FAIL, False, en_e2ee e fn, en_draws e)"
    by (simp add: tt_session_feed_def assms(4))
  define e1 where "e1 = put_session fn (en_e2ee e fn) (en_draws e) e"
  have e1: "en_required e1 = en_required e" "en_files e1 = en_files e" by (simp_all add: e1_def put_session_def)
  note unf = cb_friend_message_def e2ee_rx_def fd Let_def e1_def [symmetric]
  show ?thesis
  proof (cases "s_active (en_e2ee e fn)")
    case True
    obtain e' where "e2ee_rel_poll X fn (e2ee_start X fn e1) = Some e'" "en_files e' = en_files e"
      using rel_poll_inactive [OF start_inactive(1) [OF peer]] start_inactive(2) [OF peer] e1(2) by metis
    then show ?thesis using True assms(1,2) pk by (intro exI [of _ e']) (simp add: unf shown_def)
  next
    case False
    let ?w1 = "ascii ''This contact does not support end-to-end encryption '' @ em_dash @ ascii '' messages are sent in plaintext.''"
    let ?w2 = "ascii ''This contact does not support end-to-end encryption, but E2EE is required for them '' @ em_dash @ ascii '' plaintext messages are blocked.''"
    have ne: "?w1 \<noteq> []" "?w2 \<noteq> []" by (simp_all add: em_dash_def)
    show ?thesis
    proof (cases "en_required e fn")
      case True
      then have "cb_friend_message X fn ty msg e = Some (e2ee_warn fn ?w2 e1)"
        using False assms(1,2) pk by (simp add: unf e1)
      then show ?thesis using True by (simp add: shown_def warn_files [OF ne(2)] e1 tt_event_new_def)
    next
      case no: False
      let ?e2 = "e2ee_warn fn ?w1 (e1 \<lparr>en_fallback := (en_fallback e1)(fn := True)\<rparr>)"
      have "cb_friend_message X fn ty msg e =
          Some (en_push ((tt_event_new TT_EV_FRIEND_MESSAGE) \<lparr>ev_fn := fn, ev_ival := ty, ev_str := Some msg\<rparr>) ?e2)"
        using False no assms(1,2) pk by (simp add: unf e1)
      then show ?thesis
        using False no by (simp add: shown_def en_push_def f_push_def warn_files [OF ne(1)] e1 tt_event_new_def)
    qed
  qed
qed

theorem plaintext_shown_iff_witness:
  "(\<exists>e'. cb_friend_message demo_eenv 1 0 [72] demo_engine = Some e' \<and> shown demo_engine e' = []) \<and>
   (\<exists>e'. cb_friend_message demo_eenv 0 0 [72] demo_engine = Some e' \<and>
      shown demo_engine e' = [(tt_event_new TT_EV_FRIEND_MESSAGE) \<lparr>ev_fn := 0, ev_ival := 0, ev_str := Some [72]\<rparr>])"
proof -
  have a: "v_mode demo_eenv" "v_peer demo_eenv 0 \<noteq> None" "v_peer demo_eenv 1 \<noteq> None" by (simp_all add: demo_eenv_def)
  have "tt_frame_peek [72] = None" by (simp add: tt_frame_peek_def)
  then show ?thesis
    using plaintext_shown_iff [OF a(1) _ a(2), of "[72]" 0 demo_engine] plaintext_shown_iff [OF a(1) _ a(3), of "[72]" 0 demo_engine]
    by (simp add: demo_engine_def tt_session_init_def)
qed

end
