(* ===== verification/Drain.thy ===== *)
theory Drain
  imports Policy
begin

text \<open>
  Draining control frames: \<^verbatim>\<open>e2ee_rel_poll\<close> calls \<^verbatim>\<open>tt_session_rel_poll\<close> until it has nothing more to send.
  The loop ends whenever the generation asked for by a pending RESEND request is not the current one;
  a request for the current generation keeps it going forever.
\<close>

section \<open>One poll\<close>

lemma commit_send_rel:
  "s_rel (commit_send L s q t fo n f) = (s_rel s) \<lparr>rel_sent := (if s_lossy s then rel_sent (s_rel s) else rel_sent_add (rel_sent (s_rel s)) (rel_gen L s) q t)\<rparr>"
  by (simp add: commit_send_def Let_def split: option.split)

lemma emit_effect:
  assumes "emit_frame L w s t cap c = (r, s1, w1)"
  shows "s_active s1 = s_active s" "s_root s1 = s_root s" "s_lossy s1 = s_lossy s"
    "s_rel s1 = (s_rel s) \<lparr>rel_sent := (if isl r \<or> s_lossy s then rel_sent (s_rel s)
       else rel_sent_add (rel_sent (s_rel s)) (rel_gen L s) (r_seq (s_send s)) t)\<rparr>"
proof -
  obtain hdr hf fo k1 w' where ch: "chosen_header L w s c = (hdr, hf, fo, k1, w')" by (metis prod.exhaust)
  have g: "rel_gen L (s \<lparr>s_rekey := a, s_send := b\<rparr>) = rel_gen L s" for a b by (simp add: rel_gen_def)
  have "s_active s1 = s_active s \<and> s_root s1 = s_root s \<and> s_lossy s1 = s_lossy s \<and>
    s_rel s1 = (s_rel s) \<lparr>rel_sent := (if isl r \<or> s_lossy s then rel_sent (s_rel s)
       else rel_sent_add (rel_sent (s_rel s)) (rel_gen L s) (r_seq (s_send s)) t)\<rparr>"
  proof (cases "tt_session_carrier_pending s")
    case True
    then show ?thesis using assms by (auto simp: emit_frame_parked)
  next
    case False
    let ?enc = "tt_frame_encode L cap 2 (r_seq (s_send s)) (data_flags L OR hf) (fst (key_at L (r_chain (s_send s)) 0))
      (snd (key_at L (r_chain (s_send s)) 0)) hdr (text_bytes (b_m (rel_sent (s_rel s))) t)"
    show ?thesis
    proof (cases ?enc)
      case None
      then show ?thesis using assms unfolding emit_frame_eq [OF False ch] Let_def by auto
    next
      case (Some f)
      then show ?thesis
        using assms unfolding emit_frame_eq [OF False ch] Let_def by (auto simp: commit_send_fields commit_send_rel g)
    qed
  qed
  then show "s_active s1 = s_active s" "s_root s1 = s_root s" "s_lossy s1 = s_lossy s"
    "s_rel s1 = (s_rel s) \<lparr>rel_sent := (if isl r \<or> s_lossy s then rel_sent (s_rel s)
       else rel_sent_add (rel_sent (s_rel s)) (rel_gen L s) (r_seq (s_send s)) t)\<rparr>"
    by blast+
qed

text \<open>The buffered messages of the generation a RESEND asks for.\<close>

definition resendable :: "TTSession \<Rightarrow> nat" where
  "resendable s = length (filter (\<lambda>(g, q, t). g = rel_resend_rep_gen (s_rel s)) (sent_entries (rel_sent (s_rel s))))"

lemma slot_text:
  assumes "sent_inv b" "i < TT_SENT_MAX" "n = m_len (b_m b ! i)"
  shows "length (text_bytes (b_m (evict b)) (TextSlot i n)) = n" "n \<le> 1319"
proof -
  have "\<forall>e \<in> set (b_m (evict b)). msg_ok e" "length (b_m (evict b)) = 32" using evict_inv(1) [OF assms(1)] by (simp_all add: sent_inv_def)
  then have "msg_ok (b_m (evict b) ! i)" using assms(2) by simp
  moreover have "msg_ok (b_m b ! i)" using assms(1,2) by (simp add: sent_inv_def)
  ultimately show "length (text_bytes (b_m (evict b)) (TextSlot i n)) = n" "n \<le> 1319"
    using assms(3) by (simp_all add: msg_ok_def text_bytes_def)
qed

lemma filter_le: "length (filter P (filter Q xs)) \<le> length (filter P xs)"
  by (induction xs) auto

lemma filter_less: "x \<in> set xs \<Longrightarrow> P x \<Longrightarrow> \<not> Q x \<Longrightarrow> length (filter P (filter Q xs)) < length (filter P xs)"
proof (induction xs)
  case (Cons y ys)
  then show ?case using filter_le [of P Q ys] by auto
qed simp

lemma filter_less_tl:
  assumes "r < length xs" "P (xs ! r)" "\<not> Q (xs ! r)"
  shows "length (filter P (filter Q (tl xs))) < length (filter P xs)"
proof -
  obtain y ys where xs: "xs = y # ys" using assms(1) by (cases xs) auto
  show ?thesis
  proof (cases r)
    case 0
    then show ?thesis using assms(2) filter_le [of P Q ys] by (simp add: xs)
  next
    case (Suc k)
    then have "ys ! k \<in> set ys" using assms(1) by (simp add: xs)
    then have "length (filter P (filter Q ys)) < length (filter P ys)" using assms(2,3) by (intro filter_less) (simp_all add: xs Suc)
    then show ?thesis by (simp add: xs)
  qed
qed

lemma resend_decreases:
  assumes "sent_inv b" "r < b_count b" "m = b_m b ! ((b_head b + r) mod TT_SENT_MAX)" "m_gen m = g" "cur \<noteq> g"
    "b1 = rel_sent_add b cur seq (TextSlot ((b_head b + r) mod TT_SENT_MAX) (m_len m)) \<or> b1 = b"
  shows "sent_inv (rel_sent_remove b1 g (m_seq m))"
    "length (filter (\<lambda>(g', q, t). g' = g) (sent_entries (rel_sent_remove b1 g (m_seq m)))) < length (filter (\<lambda>(g', q, t). g' = g) (sent_entries b))"
    "sent_inv b1" "length (filter (\<lambda>(g', q, t). g' = g) (sent_entries b1)) \<le> length (filter (\<lambda>(g', q, t). g' = g) (sent_entries b))"
proof -
  let ?es = "sent_entries b" and ?i = "(b_head b + r) mod 32"
  have len: "length (b_m b) = 32" using assms(1) by (simp add: sent_inv_def)
  have er: "?es ! r = (g, m_seq m, take (m_len m) (m_data m))" "r < length ?es"
    using assms(2-4) len by (simp_all add: sent_entries_def sent_slots_def ring_entries_def msg_abs_def)
  note tx = slot_text [OF assms(1), of ?i, OF _ refl]
  note add = rel_sent_add_slots [OF assms(1), of "TextSlot ?i (m_len m)" cur seq]
  have b1: "sent_inv b1"
    using assms(6) add(1) tx assms(1) by (auto simp: assms(3) text_len_def)
  show "sent_inv b1" by (rule b1)
  show "sent_inv (rel_sent_remove b1 g (m_seq m))" by (rule rel_sent_remove_spec(1) [OF b1])
  let ?P = "\<lambda>(g', q :: u32, t :: bytes). g' = g" and ?Q = "\<lambda>(g', q, t :: bytes). \<not> (g' = g \<and> q = m_seq m)"
  have rm: "sent_entries (rel_sent_remove b1 g (m_seq m)) = filter ?Q (sent_entries b1)"
    using rel_sent_remove_spec(2) [OF b1] by simp
  have m: "?P (?es ! r)" "\<not> ?Q (?es ! r)" by (simp_all add: er(1))
  have less: "length (filter ?P (filter ?Q xs)) < length (filter ?P ?es)" if "xs = ?es \<or> xs = tl ?es" for xs
    using that filter_less [OF nth_mem [OF er(2)], where P = ?P and Q = ?Q] filter_less_tl [OF er(2), where P = ?P and Q = ?Q] m by blast
  have "sent_entries b1 = ?es \<or> (\<exists>xs t. (xs = ?es \<or> xs = tl ?es) \<and> sent_entries b1 = xs @ [(cur, seq, t)])"
    using assms(6) add(2) tx by (auto simp: assms(3) text_len_def split: if_splits)
  note cs = this
  show "length (filter ?P (sent_entries (rel_sent_remove b1 g (m_seq m)))) < length (filter ?P ?es)"
    unfolding rm using cs less assms(5) by auto
  have "length (filter ?P (tl ?es)) \<le> length (filter ?P ?es)" by (cases ?es) simp_all
  then show "length (filter ?P (sent_entries b1)) \<le> length (filter ?P ?es)"
    using cs assms(5) by auto
qed

text \<open>What a poll leaves unchanged, and what it uses up when it returns a frame.\<close>

definition same_control :: "TTSession \<Rightarrow> TTSession \<Rightarrow> bool" where
  "same_control s s' \<longleftrightarrow> s_root s' = s_root s \<and> s_active s' = s_active s \<and> sent_inv (rel_sent (s_rel s')) \<and>
     rel_resend_req_pending (s_rel s') = rel_resend_req_pending (s_rel s) \<and> rel_ack_due (s_rel s') = rel_ack_due (s_rel s) \<and>
     rel_resend_rep_gen (s_rel s') = rel_resend_rep_gen (s_rel s) \<and> resendable s' \<le> resendable s"

lemma scan_decreases:
  assumes "sent_inv (rel_sent (s_rel s))" "rel_resend_rep_gen (s_rel s) \<noteq> rel_gen L s" "resend_scan L w n r s cap = (Inr f, s', w')"
  shows "same_control s s' \<and> (f \<noteq> [] \<longrightarrow> resendable s' < resendable s)"
  using assms
proof (induction n arbitrary: w r s)
  case 0
  then show ?case by (auto simp: same_control_def resendable_def)
next
  case (Suc n)
  let ?b = "rel_sent (s_rel s)"
  let ?i = "(b_head ?b + r) mod TT_SENT_MAX"
  let ?m = "b_m ?b ! ?i"
  show ?case
  proof (cases "r \<ge> b_count ?b")
    case True
    then show ?thesis using Suc.prems by (auto simp: same_control_def resendable_def Let_def)
  next
    case r: False
    show ?thesis
    proof (cases "m_gen ?m \<noteq> rel_resend_rep_gen (s_rel s) \<or> m_seq ?m < rel_resend_rep_from (s_rel s)")
      case True
      then have "resend_scan L w n (r + 1) s cap = (Inr f, s', w')" using Suc.prems(3) r by (simp add: Let_def)
      then show ?thesis using Suc.IH [OF Suc.prems(1,2)] by blast
    next
      case False
      then have mg: "m_gen ?m = rel_resend_rep_gen (s_rel s)" by simp
      obtain x s1 w1 where em: "emit_frame L w s (TextSlot ?i (m_len ?m)) cap False = (x, s1, w1)" by (metis prod.exhaust)
      note ef = emit_effect [OF em]
      have gen: "rel_gen L s1 = rel_gen L s" using ef(2) by (simp add: rel_gen_def)
      have body: "resend_scan L w (Suc n) r s cap = (case x of
          Inr f \<Rightarrow> if f = [] then resend_scan L w1 n (r + 1) s1 cap
            else (Inr f, s1 \<lparr>s_rel := (s_rel s1) \<lparr>rel_sent := rel_sent_remove (rel_sent (s_rel s1)) (m_gen ?m) (m_seq ?m)\<rparr>\<rparr>, w1)
        | Inl e \<Rightarrow> resend_scan L w1 n (r + 1) s1 cap)"
        using r False by (cases x) (simp_all add: Let_def em)
      define b1 where "b1 = rel_sent (s_rel s1)"
      have b1: "b1 = rel_sent_add ?b (rel_gen L s) (r_seq (s_send s)) (TextSlot ?i (m_len ?m)) \<or> b1 = ?b"
        using ef(4) by (auto simp: b1_def)
      have "r < b_count ?b" using r by simp
      note dec = resend_decreases [OF Suc.prems(1) this refl mg _ b1] 
      show ?thesis
      proof (cases "\<exists>g. x = Inr g \<and> g \<noteq> []")
        case True
        then obtain g where "x = Inr g" "g \<noteq> []" by blast
        then have "f \<noteq> []" "s' = s1 \<lparr>s_rel := (s_rel s1) \<lparr>rel_sent := rel_sent_remove b1 (m_gen ?m) (m_seq ?m)\<rparr>\<rparr>"
          using Suc.prems(3) by (simp_all only: body) (auto simp: b1_def)
        then show ?thesis
          using dec Suc.prems(2) ef mg by (auto simp: same_control_def resendable_def)
      next
        case no: False
        have s1: "same_control s s1"
          using dec(3,4) Suc.prems(2) ef mg by (auto simp: same_control_def resendable_def b1_def)
        have "resend_scan L w1 n (r + 1) s1 cap = (Inr f, s', w')"
          using Suc.prems(3) no by (simp only: body) (cases x; simp)
        then have "same_control s1 s' \<and> (f \<noteq> [] \<longrightarrow> resendable s' < resendable s1)"
          using Suc.IH [of s1 w1 "r + 1"] s1 Suc.prems(2) gen by (simp add: same_control_def)
        then show ?thesis using s1 by (auto simp: same_control_def)
      qed
    qed
  qed
qed

section \<open>The loop ends\<close>

definition drain_ok :: "sodium \<Rightarrow> TTSession \<Rightarrow> bool" where
  "drain_ok L s \<longleftrightarrow> sent_inv (rel_sent (s_rel s)) \<and> (rel_resend_rep_pending (s_rel s) \<longrightarrow> rel_resend_rep_gen (s_rel s) \<noteq> rel_gen L s)"

definition drain_left :: "TTSession \<Rightarrow> nat" where
  "drain_left s = of_bool (rel_resend_req_pending (s_rel s)) + of_bool (rel_ack_due (s_rel s)) + resendable s"

lemma scan_Inr: "\<exists>f s' w'. resend_scan L w n r s cap = (Inr f, s', w')"
proof (induction n arbitrary: w r s)
  case (Suc n)
  let ?b = "rel_sent (s_rel s)"
  let ?i = "(b_head ?b + r) mod TT_SENT_MAX"
  obtain x s1 w1 where "emit_frame L w s (TextSlot ?i (m_len (b_m ?b ! ?i))) cap False = (x, s1, w1)" by (metis prod.exhaust)
  then show ?case using Suc by (cases x) (simp_all add: Let_def)
qed simp

lemma poll_decreases:
  assumes "drain_ok L s"
  obtains f s' w' where "tt_session_rel_poll L w s cap = (Inr f, s', w')" "drain_ok L s'" "f \<noteq> [] \<longrightarrow> drain_left s' < drain_left s"
proof -
  have si: "sent_inv (rel_sent (s_rel s))" using assms by (simp add: drain_ok_def)
  have g: "rel_gen L (s \<lparr>s_rel := r\<rparr>) = rel_gen L s" for r by (simp add: rel_gen_def)
  consider (off) "\<not> s_active s" | (req) "s_active s" "rel_resend_req_pending (s_rel s)"
    | (rep) "s_active s" "\<not> rel_resend_req_pending (s_rel s)" "rel_resend_rep_pending (s_rel s)"
    | (ack) "s_active s" "\<not> rel_resend_req_pending (s_rel s)" "\<not> rel_resend_rep_pending (s_rel s)" by blast
  then show ?thesis
  proof cases
    case off
    then show ?thesis using that [of "[]" s w] assms by (simp add: tt_session_rel_poll_def)
  next
    case req
    then show ?thesis
      using that assms by (simp add: tt_session_rel_poll_def Let_def drain_ok_def drain_left_def resendable_def g)
  next
    case rep
    have ne: "rel_resend_rep_gen (s_rel s) \<noteq> rel_gen L s" using assms rep(3) by (simp add: drain_ok_def)
    obtain f s' w' where sc: "resend_scan L w (Suc TT_SENT_MAX) 0 s cap = (Inr f, s', w')" using scan_Inr by blast
    have sd: "same_control s s'" "f \<noteq> [] \<longrightarrow> resendable s' < resendable s" using scan_decreases [OF si ne sc] by simp_all
    have "tt_session_rel_poll L w s cap = (Inr f, s', w')"
      using rep sc unfolding tt_session_rel_poll_def by (simp del: resend_scan.simps)
    moreover have "rel_gen L s' = rel_gen L s" using sd(1) by (simp add: same_control_def rel_gen_def)
    then have "drain_ok L s'" using sd(1) ne by (simp add: drain_ok_def same_control_def)
    moreover have "f \<noteq> [] \<longrightarrow> drain_left s' < drain_left s" using sd by (auto simp: drain_left_def same_control_def)
    ultimately show ?thesis using that by blast
  next
    case ack
    show ?thesis
    proof (cases "rel_ack_due (s_rel s)")
      case True
      then show ?thesis
        using ack that assms by (simp add: tt_session_rel_poll_def Let_def drain_ok_def drain_left_def resendable_def g)
    next
      case False
      then show ?thesis using ack that [of "[]" s w] assms by (simp add: tt_session_rel_poll_def)
    qed
  qed
qed

lemma rel_loop_returns:
  assumes "drain_ok (v_sodium X) (en_e2ee e fn)"
  shows "\<exists>e'. rel_loop X fn e = Some e' \<and> length (en_sent e') \<le> length (en_sent e) + drain_left (en_e2ee e fn)"
  using assms
proof (induction "drain_left (en_e2ee e fn)" arbitrary: e rule: less_induct)
  case less
  obtain f s w where p: "tt_session_rel_poll (v_sodium X) (en_draws e) (en_e2ee e fn) TT_FRAME_MAX = (Inr f, s, w)"
    "drain_ok (v_sodium X) s" "f \<noteq> [] \<longrightarrow> drain_left s < drain_left (en_e2ee e fn)"
    using poll_decreases [OF less.prems] by blast
  let ?e1 = "log_msg True fn 0 f (put_session fn s w e)"
  show ?case
  proof (cases "f = []")
    case True
    then show ?thesis using p(1) by (simp add: rel_loop.simps [of X fn e] put_session_def)
  next
    case False
    have s1: "en_e2ee ?e1 fn = s" "length (en_sent ?e1) = Suc (length (en_sent e))" by (simp_all add: log_msg_def put_session_def)
    obtain e' where e': "rel_loop X fn ?e1 = Some e'" "length (en_sent e') \<le> length (en_sent ?e1) + drain_left s"
      using less.hyps [of ?e1] p(2,3) False s1 by auto
    have "rel_loop X fn e = Some e'" using e'(1) p(1) False by (simp add: rel_loop.simps [of X fn e] send_frame_eq)
    then show ?thesis using e'(2) s1(2) p(3) False by auto
  qed
qed

text \<open>C7: draining control frames ends.  When no re-send is pending, or the pending one asks for an earlier
  generation than the current one, the loop returns after at most 34 messages: the RESEND request, one
  message for each of the 32 buffered texts, and the acknowledgement.\<close>

theorem drain_terminates:
  assumes "session_inv (en_e2ee e fn)"
    "rel_resend_rep_pending (s_rel (en_e2ee e fn)) \<longrightarrow> rel_resend_rep_gen (s_rel (en_e2ee e fn)) \<noteq> rel_gen (v_sodium X) (en_e2ee e fn)"
  shows "\<exists>e'. e2ee_rel_poll X fn e = Some e' \<and> length (en_sent e') \<le> length (en_sent e) + 34"
proof -
  let ?s = "en_e2ee e fn"
  have si: "sent_inv (rel_sent (s_rel ?s))" using assms(1) by (simp add: session_inv_def)
  then have "resendable ?s \<le> 32"
    using length_filter_le [of _ "sent_entries (rel_sent (s_rel ?s))"] by (force simp: resendable_def sent_inv_def intro: order_trans)
  then have "drain_left ?s \<le> 34" by (simp add: drain_left_def)
  moreover have "drain_ok (v_sodium X) ?s" using si assms(2) by (simp add: drain_ok_def)
  ultimately show ?thesis using rel_loop_returns [of X e fn] by (auto simp: e2ee_rel_poll_def intro: order_trans)
qed

theorem drain_terminates_witness:
  "\<exists>e'. e2ee_rel_poll demo_eenv 1 (demo_engine \<lparr>en_e2ee := (\<lambda>_. toy_session False)\<rparr>) = Some e' \<and> length (en_sent e') \<le> 34"
proof -
  let ?e = "demo_engine \<lparr>en_e2ee := (\<lambda>_. toy_session False)\<rparr>"
  have "session_inv (toy_session False)"
    by (simp add: toy_session_def session_inv_def tt_session_init_def reliable_zero_def rekey_zero_def ratchet_zero_def)
  moreover have "\<not> rel_resend_rep_pending (s_rel (toy_session False))" by (simp add: toy_session_def tt_session_init_def reliable_zero_def)
  ultimately show ?thesis using drain_terminates [of ?e 1 demo_eenv] by (simp add: demo_engine_def)
qed

section \<open>A request for the current generation\<close>

text \<open>One message is buffered, and a re-send of the current generation from the start is pending.\<close>

definition spins :: "sodium \<Rightarrow> TTSession \<Rightarrow> bool" where
  "spins L s \<longleftrightarrow> s_active s \<and> \<not> s_lossy s \<and> own_pair_ok L (s_rekey s) \<and> sent_inv (rel_sent (s_rel s)) \<and>
     \<not> rel_resend_req_pending (s_rel s) \<and> rel_resend_rep_pending (s_rel s) \<and> rel_resend_rep_gen (s_rel s) = rel_gen L s \<and>
     rel_resend_rep_from (s_rel s) = 0 \<and>
     (\<exists>q t. sent_entries (rel_sent (s_rel s)) = [(rel_gen L s, q, t)] \<and> length t \<le> 129 \<and> q \<noteq> r_seq (s_send s))"

lemma emit_keeps_pair:
  assumes "own_pair_ok L (s_rekey s)" "\<not> s_lossy s" "emit_frame L w s text cap c = (Inr f, s1, w1)"
  shows "own_pair_ok L (s_rekey s1)" "r_seq (s_send s1) = r_seq (s_send s) + 1"
proof -
  obtain hdr hf fo k1 w' where ch: "chosen_header L w s c = (hdr, hf, fo, k1, w')" by (metis prod.exhaust)
  have np: "\<not> tt_session_carrier_pending s" using assms(2) by (simp add: tt_session_carrier_pending_def)
  have hk: "k_have_kem (s_rekey s)" using assms(1) by (simp add: own_pair_ok_def)
  have "same_pairs (s_rekey s) k1" by (rule chosen_header_cases [OF ch hk]) simp_all
  then have k1: "own_pair_ok L k1" using same_pairs_keep(1) assms(1) by blast
  define x where "x = s \<lparr>s_rekey := k1, s_send := (s_send s) \<lparr>r_chain := chain_steps L 1 (r_chain (s_send s)), r_seq := r_seq (s_send s) + 1\<rparr>\<rparr>"
  have s1: "s1 = commit_send L x (r_seq (s_send s)) text fo (length hdr) f"
    using assms(3) unfolding emit_frame_eq [OF np ch] Let_def x_def by (auto split: option.splits)
  have nl: "\<not> s_lossy x" using assms(2) by (simp add: x_def)
  show "own_pair_ok L (s_rekey s1)"
    unfolding s1 using k1 commit_send_None(2) [OF nl] commit_send_Some(2) [OF nl] by (cases fo) (auto simp: x_def own_pair_ok_def)
  show "r_seq (s_send s1) = r_seq (s_send s) + 1"
    unfolding s1 using commit_send_None(1) commit_send_Some(1)
    by (cases fo) (auto simp: x_def ratchet_fold_def Let_def split: prod.splits)
qed

lemma emit_slot_ok:
  assumes "sodium_ok L" "own_pair_ok L (s_rekey s)" "\<not> s_lossy s" "length (text_bytes (b_m (rel_sent (s_rel s))) text) \<le> 129"
  obtains f s1 w1 where "emit_frame L w s text 1372 False = (Inr f, s1, w1)" "f \<noteq> []"
proof -
  have np: "\<not> tt_session_carrier_pending s" using assms(3) by (simp add: tt_session_carrier_pending_def)
  obtain hdr hf fo k1 w' where ch: "chosen_header L w s False = (hdr, hf, fo, k1, w')" by (metis prod.exhaust)
  let ?t = "text_bytes (b_m (rel_sent (s_rel s))) text"
  obtain f s1 w1 where "emit_frame L w s (TextBuf ?t) 1372 False = (Inr f, s1, w1)" "f \<noteq> []"
    by (rule emit_ok [OF assms(1,2) np assms(4)]) auto
  then show ?thesis
    using that unfolding emit_frame_eq [OF np ch] Let_def by (auto simp: text_bytes_def [of _ "TextBuf _"] split: option.splits)
qed

lemma spins_again:
  assumes "sodium_ok L" "spins L s"
  obtains f s' w' where "tt_session_rel_poll L w s TT_FRAME_MAX = (Inr f, s', w')" "f \<noteq> []" "spins L s'"
proof -
  let ?b = "rel_sent (s_rel s)"
  obtain q t where es: "sent_entries ?b = [(rel_gen L s, q, t)]" "length t \<le> 129" "q \<noteq> r_seq (s_send s)"
    and a: "s_active s" "\<not> s_lossy s" "own_pair_ok L (s_rekey s)" "sent_inv ?b" "\<not> rel_resend_req_pending (s_rel s)"
      "rel_resend_rep_pending (s_rel s)" "rel_resend_rep_gen (s_rel s) = rel_gen L s" "rel_resend_rep_from (s_rel s) = 0"
    using assms(2) by (auto simp: spins_def)
  have c1: "b_count ?b = 1" using arg_cong [OF es(1), of length] by simp
  have hd: "b_head ?b < 32" "length (b_m ?b) = 32" using a(4) by (simp_all add: sent_inv_def)
  define m where "m = b_m ?b ! b_head ?b"
  have m: "m_gen m = rel_gen L s" "m_seq m = q" "take (m_len m) (m_data m) = t"
    using es(1) c1 hd by (simp_all add: sent_entries_def sent_slots_def ring_entries_def msg_abs_def m_def)
  let ?text = "TextSlot (b_head ?b) (m_len m)"
  have tb: "text_bytes (b_m ?b) ?text = t" using m(3) by (simp add: text_bytes_def m_def)
  have "length (text_bytes (b_m ?b) ?text) \<le> 129" using es(2) tb by simp
  then obtain f s1 w1 where em: "emit_frame L w s ?text 1372 False = (Inr f, s1, w1)" "f \<noteq> []"
    using emit_slot_ok [OF assms(1) a(3,2)] by blast
  note ef = emit_effect [OF em(1)] and kp = emit_keeps_pair [OF a(3,2) em(1)]
  have ev: "evict ?b = ?b" using c1 by (simp add: evict_def)
  have tl: "text_len ?text = length t" "text_len ?text \<le> 1319"
    using slot_text [OF a(4) hd(1) refl] ev tb by (simp_all add: text_len_def m_def)
  define b1 where "b1 = rel_sent (s_rel s1)"
  have b1: "b1 = rel_sent_add ?b (rel_gen L s) (r_seq (s_send s)) ?text" using ef(4) a(2) by (simp add: b1_def)
  have iv: "sent_inv b1" and eb: "sent_entries b1 = [(rel_gen L s, q, t), (rel_gen L s, r_seq (s_send s), t)]"
    using rel_sent_add_slots [OF a(4), of ?text "rel_gen L s" "r_seq (s_send s)"] tl c1 es(1) unfolding b1 ev tb by simp_all
  define s' where "s' = s1 \<lparr>s_rel := (s_rel s1) \<lparr>rel_sent := rel_sent_remove b1 (rel_gen L s) q\<rparr>\<rparr>"
  have "tt_session_rel_poll L w s TT_FRAME_MAX = resend_scan L w (Suc TT_SENT_MAX) 0 s 1372"
    using a(1,5,6) by (simp add: tt_session_rel_poll_def del: resend_scan.simps)
  also have "\<dots> = (Inr f, s', w1)"
    unfolding resend_scan.simps(2) using c1 m a(7,8) em hd(1) by (simp add: Let_def m_def [symmetric] s'_def b1_def)
  finally have poll: "tt_session_rel_poll L w s TT_FRAME_MAX = (Inr f, s', w1)" .
  have "rel_gen L s' = rel_gen L s" using ef(2) by (simp add: rel_gen_def s'_def)
  moreover have "sent_entries (rel_sent_remove b1 (rel_gen L s) q) = [(rel_gen L s, r_seq (s_send s), t)]"
    using rel_sent_remove_spec(2) [OF iv, of "rel_gen L s" q] es(3) by (simp add: eb)
  moreover have "sent_inv (rel_sent_remove b1 (rel_gen L s) q)" by (rule rel_sent_remove_spec(1) [OF iv])
  ultimately have "spins L s'"
    using a ef kp es(2) unfolding spins_def by (simp add: s'_def)
  then show ?thesis using that poll em(2) by blast
qed

lemma rel_loop_spins:
  assumes "sodium_ok (v_sodium X)" "spins (v_sodium X) (en_e2ee e fn)"
  shows "rel_loop X fn e = None"
proof (rule ccontr)
  assume "rel_loop X fn e \<noteq> None"
  then obtain e' where some: "rel_loop X fn e = Some e'" by blast
  have "\<not> (sodium_ok (v_sodium X) \<and> spins (v_sodium X) (en_e2ee e fn))"
  proof (rule rel_loop.raw_induct [OF _ some, where P = "\<lambda>X fn e e'. \<not> (sodium_ok (v_sodium X) \<and> spins (v_sodium X) (en_e2ee e fn))"])
    fix rl X g e e'
    assume ih: "\<And>X g e e'. rl X g e = Some e' \<Longrightarrow> \<not> (sodium_ok (v_sodium X) \<and> spins (v_sodium X) (en_e2ee e g))"
      and body: "(case tt_session_rel_poll (v_sodium X) (en_draws e) (en_e2ee e g) TT_FRAME_MAX of
        (r, s, w) \<Rightarrow> (case r of Inl _ \<Rightarrow> Some (put_session g s w e)
           | Inr f \<Rightarrow> if f = [] then Some (put_session g s w e) else rl X g (snd (e2ee_send_frame X g 0 f (put_session g s w e))))) = Some e'"
    show "\<not> (sodium_ok (v_sodium X) \<and> spins (v_sodium X) (en_e2ee e g))"
    proof
      assume sp: "sodium_ok (v_sodium X) \<and> spins (v_sodium X) (en_e2ee e g)"
      then obtain f s w where p: "tt_session_rel_poll (v_sodium X) (en_draws e) (en_e2ee e g) TT_FRAME_MAX = (Inr f, s, w)"
        "f \<noteq> []" "spins (v_sodium X) s"
        using spins_again by blast
      then have "rl X g (log_msg True g 0 f (put_session g s w e)) = Some e'" using body by (simp add: send_frame_eq)
      from ih [OF this] show False using sp p(3) by (simp add: log_msg_def put_session_def)
    qed
  qed
  then show False using assms by blast
qed

text \<open>One control frame can stop the tox thread for good.  When a single message is buffered, a RESEND
  request of the peer that names the current generation makes the receive handler run forever: each
  re-sent message is buffered again under the same generation and found again by the next poll, and
  every round hands one more frame to toxcore.\<close>

theorem resend_of_current_generation_hangs:
  assumes "sodium_ok (v_sodium X)" "v_mode X" "fn < TT_MAX_FRIENDS" "v_peer X fn \<noteq> None"
    "s = en_e2ee e fn" "s_active s" "\<not> s_lossy s" "own_pair_ok (v_sodium X) (s_rekey s)" "sent_inv (rel_sent (s_rel s))"
    "\<not> rel_resend_req_pending (s_rel s)" "s_root y = s_root s"
    "sent_entries (rel_sent (s_rel s)) = [(rel_gen (v_sodium X) s, q, t)]" "length t \<le> 129" "q \<noteq> r_seq (s_send s)"
  shows "cb_friend_message X fn ty (control_frame (v_sodium X) w y TT_FRAME_RESEND (rel_gen (v_sodium X) s) 0 TT_FRAME_MAX) e = None"
proof -
  let ?L = "v_sodium X" and ?msg = "control_frame (v_sodium X) w y TT_FRAME_RESEND (rel_gen (v_sodium X) s) 0 TT_FRAME_MAX"
  define s' where "s' = s \<lparr>s_rel := (s_rel s) \<lparr>rel_resend_rep_pending := True, rel_resend_rep_gen := rel_gen ?L s,
      rel_resend_rep_from := 0, rel_resend_rep_pos := 0\<rparr>\<rparr>"
  obtain pk where pk: "e_peer_pk (e2ee_env X fn) = Some pk" using assms(3,4) by (auto simp: e2ee_env_def)
  have fd: "tt_session_feed ?L (en_draws e) s (e2ee_env X fn) ?msg TT_FRAME_DATA_MAX = (Inr [], False, s', en_draws e)"
    using control_frame_fed(1) [OF assms(1) assms(11) [symmetric] assms(6,7), of 4 1372 "en_draws e" "e2ee_env X fn" w "rel_gen ?L s" 0 1319]
    by (simp add: s'_def)
  have "rel_gen ?L s' = rel_gen ?L s" by (simp add: rel_gen_def s'_def)
  then have "spins ?L s'" using assms(6-10,12-14) by (auto simp: spins_def s'_def)
  then have "rel_loop X fn (put_session fn s' (en_draws e) e) = None"
    by (intro rel_loop_spins [OF assms(1)]) (simp add: put_session_def)
  then have "e2ee_rx X fn ?msg e = None"
    using assms(3) pk fd by (simp add: e2ee_rx_def assms(5) [symmetric] Let_def e2ee_rel_poll_def)
  then show ?thesis using assms(2) by (simp add: cb_friend_message_def)
qed

definition one_buffered :: TTSession where
  "one_buffered = toy_session False \<lparr>s_rel := reliable_zero \<lparr>rel_sent :=
     rel_sent_add sentbuf_zero (rel_gen (toy True) (toy_session False)) 7 (TextBuf [72])\<rparr>\<rparr>"

theorem resend_of_current_generation_hangs_witness:
  "cb_friend_message demo_eenv 1 0 (control_frame (toy True) 5 one_buffered TT_FRAME_RESEND (rel_gen (toy True) one_buffered) 0 TT_FRAME_MAX)
     (demo_engine \<lparr>en_e2ee := (\<lambda>_. one_buffered)\<rparr>) = None"
proof -
  let ?e = "demo_engine \<lparr>en_e2ee := (\<lambda>_. one_buffered)\<rparr>"
  have g: "rel_gen (toy True) one_buffered = rel_gen (toy True) (toy_session False)" by (simp add: rel_gen_def one_buffered_def)
  note add = rel_sent_add_slots [OF sent_inv_zero, of "TextBuf [72]" "rel_gen (toy True) (toy_session False)" 7]
  have ring_eq: "rel_sent (s_rel one_buffered) = rel_sent_add sentbuf_zero (rel_gen (toy True) (toy_session False)) 7 (TextBuf [72])"
    by (simp add: one_buffered_def)
  have z: "b_count sentbuf_zero = 0" by (simp add: sentbuf_zero_def)
  have ring: "sent_inv (rel_sent (s_rel one_buffered))"
    "sent_entries (rel_sent (s_rel one_buffered)) = [(rel_gen (toy True) one_buffered, 7, [72])]"
    using add ring_eq z by (simp_all add: g text_bytes_def text_len_def)
  have "s_active one_buffered" "\<not> s_lossy one_buffered" "own_pair_ok (toy True) (s_rekey one_buffered)"
    "\<not> rel_resend_req_pending (s_rel one_buffered)" "7 \<noteq> r_seq (s_send one_buffered)"
    using toy_session_ok(1) [of True False]
    by (simp_all add: one_buffered_def toy_session_def tt_session_init_def reliable_zero_def ratchet_zero_def)
  then show ?thesis
    using resend_of_current_generation_hangs [of demo_eenv 1 one_buffered ?e one_buffered 7 "[72]" 0 5] ring toy_ok
    by (simp add: demo_eenv_def)
qed

section \<open>Queued lines of an enforced friend\<close>

text \<open>Queued lines are lost.  When a friend with required encryption comes back and its handshake has
  been pending for 30 seconds, the flush takes every queued line out of the queue and returns without
  sending or requeueing any of them; the emptied queue is what is stored.\<close>

theorem enforced_flush_drops_queue:
  assumes "enforced X fn e" "queue_inv (en_oq e)" "e2ee_fallback_due X fn e"
  shows "tt_oq_count (en_oq (offline_flush_friend X fn e)) fn = 0 \<and> en_sent (offline_flush_friend X fn e) = en_sent e"
proof -
  obtain texts q where t: "tt_oq_take_all (en_oq e) fn = (texts, q)" by (metis prod.exhaust)
  have fn: "fn < 256" "v_mode X" "e_peer_pk (e2ee_env X fn) \<noteq> None" "en_required e fn" using enforced_env [OF assms(1)] by simp_all
  have len: "length (en_oq e) = 256" and fi: "friend_inv (en_oq e ! fn)" using assms(2) fn(1) by (simp_all add: queue_inv_def)
  have c: "tt_oq_count q fn = 0"
    using t fn(1) len fi by (auto simp: tt_oq_take_all_def tt_oq_count_def friend_inv_def split: option.splits)
  let ?e0 = "e \<lparr>en_oq := q\<rparr>"
  have due: "\<not> s_active (en_e2ee ?e0 fn) \<and> e2ee_fallback_due X fn ?e0"
    using assms(3) by (auto simp: e2ee_fallback_due_def split: if_splits)
  have warn: "en_oq (oq_store X (e2ee_warn fn msg ?e0)) = q" for msg
    by (simp add: oq_store_def e2ee_warn_def en_note_def en_push_def push_simple_def Let_def)
  show ?thesis
    unfolding offline_flush_friend_def t prod.case Let_def
    using due fn c warn by (simp only: if_True simp_thms quiet split: if_split) simp
qed

theorem enforced_flush_drops_queue_witness:
  "let e = demo_engine \<lparr>en_oq := snd (tt_oq_add True oq_empty 1 [72])\<rparr>
   in tt_oq_count (en_oq e) 1 = 1 \<and> tt_oq_count (en_oq (offline_flush_friend demo_eenv 1 e)) 1 = 0 \<and> en_sent (offline_flush_friend demo_eenv 1 e) = []"
proof -
  let ?e = "demo_engine \<lparr>en_oq := snd (tt_oq_add True oq_empty 1 [72])\<rparr>"
  have a: "enforced demo_eenv 1 ?e" "e2ee_fallback_due demo_eenv 1 ?e" "en_sent ?e = []"
    by (simp_all add: enforced_def demo_eenv_def demo_engine_def e2ee_fallback_due_def tt_session_init_def)
  have "friend_inv (oq_push (oq_empty ! 1) [72])"
    using oq_push_spec(1) [of "oq_empty ! 1" "[72]"] queue_inv_empty by (simp add: queue_inv_def)
  then have "queue_inv (snd (tt_oq_add True oq_empty 1 [72]))"
    using queue_inv_empty set_list_update_ball [of oq_empty friend_inv]
    by (simp add: tt_oq_add_eq queue_inv_def del: One_nat_def)
  then show ?thesis using enforced_flush_drops_queue [OF a(1) _ a(2)] a(3)
    by (simp add: tt_oq_add_def oq_push_def oq_empty_def tt_oq_count_def Let_def)
qed

end
