(* ===== verification/PortList.thy ===== *)
theory PortList
  imports Settings
begin

text \<open>
  Port sets of a tunnel, \<^verbatim>\<open>src/src/tunnel.h\<close>: up to 8 disjoint ranges with at most 32 ports, their
  flattened index, the text form \<^verbatim>\<open>2300-2310,80\<close> and its parser.  The array of ranges with its count
  is a list.

  The theorems: what the parser accepts keeps every bound the socket arrays rely on, and a printed
  list parses back to itself.
\<close>

abbreviation (input) "TT_TUNNEL_MAX_RANGES \<equiv> (8 :: nat)"
abbreviation (input) "TT_TUNNEL_MAX_PORTS \<equiv> (32 :: nat)"

record TTPortRange =
  pr_start :: u16
  pr_count :: u16

type_synonym TTPortRangeList = "TTPortRange list"

definition tt_port_range_len :: "TTPortRange option \<Rightarrow> nat" where
  "tt_port_range_len r = (case r of None \<Rightarrow> 0 | Some x \<Rightarrow> unat (pr_count x))"

fun tt_port_list_len :: "TTPortRangeList \<Rightarrow> nat" where
  "tt_port_list_len [] = 0"
| "tt_port_list_len (r # rs) = unat (pr_count r) + tt_port_list_len rs"

fun tt_port_list_port :: "TTPortRangeList \<Rightarrow> nat \<Rightarrow> u16" where
  "tt_port_list_port [] idx = 0"
| "tt_port_list_port (r # rs) idx =
     (if idx < unat (pr_count r) then pr_start r + of_nat idx else tt_port_list_port rs (idx - unat (pr_count r)))"

definition tt_port_list_empty :: "TTPortRangeList \<Rightarrow> bool" where
  "tt_port_list_empty l \<longleftrightarrow> l = [] \<or> tt_port_list_len l = 0"

section \<open>Printing\<close>

definition range_str :: "TTPortRange \<Rightarrow> bytes" where
  "range_str r =
     (if pr_count r > 1 then print_u (unat (pr_start r)) @ [45] @ print_u (unat (pr_start r) + unat (pr_count r) - 1)
      else print_u (unat (pr_start r)))"

text \<open>
  The loop from the \<open>i\<close>-th range with \<open>out\<close> written so far.  When a range does not fit, the buffer ends
  with the part of it that does, which the returned length does not count.
\<close>

fun to_str_loop :: "nat \<Rightarrow> nat \<Rightarrow> bytes \<Rightarrow> TTPortRangeList \<Rightarrow> nat \<times> bytes" where
  "to_str_loop cap i out [] = (length out, out)"
| "to_str_loop cap i out (r # rs) =
     (if i \<noteq> 0 \<and> length out + 1 \<ge> cap then (length out, out)
      else
        let out1 = (if i \<noteq> 0 then out @ [44] else out); w = range_str r in
        if length w \<ge> cap - length out1 then (length out1, out1 @ take (cap - length out1 - 1) w)
        else to_str_loop cap (i + 1) (out1 @ w) rs)"

definition tt_port_list_to_str :: "TTPortRangeList \<Rightarrow> nat \<Rightarrow> nat \<times> bytes" where
  "tt_port_list_to_str l cap = (if cap = 0 then (0, []) else to_str_loop cap 0 [] l)"

section \<open>Parsing\<close>

text \<open>\<^verbatim>\<open>strtok_r\<close> with a one-character separator: the non-empty pieces.\<close>

fun tokens :: "byte \<Rightarrow> bytes \<Rightarrow> bytes \<Rightarrow> bytes list" where
  "tokens sep cur [] = (if cur = [] then [] else [cur])"
| "tokens sep cur (c # cs) =
     (if c = sep then (if cur = [] then tokens sep [] cs else cur # tokens sep [] cs) else tokens sep (cur @ [c]) cs)"

text \<open>\<^verbatim>\<open>atoi\<close>: the value of \<^verbatim>\<open>strtol\<close> cut to 32 bits, 0 without digits.\<close>

definition atoi :: "bytes \<Rightarrow> int" where
  "atoi p = (case scan_ld p of None \<Rightarrow> 0 | Some v \<Rightarrow> signed_take_bit 31 v)"

definition token_range :: "bytes \<Rightarrow> int \<times> int" where
  "token_range tok =
     (if 45 \<in> set tok
      then (atoi (takeWhile (\<lambda>c. c \<noteq> 45) tok), atoi (drop 1 (dropWhile (\<lambda>c. c \<noteq> 45) tok)))
      else (atoi tok, atoi tok))"

fun parse_tokens :: "bytes list \<Rightarrow> nat \<Rightarrow> TTPortRangeList \<Rightarrow> bool \<times> TTPortRangeList" where
  "parse_tokens [] tot acc = (acc \<noteq> [], acc)"
| "parse_tokens (tok # toks) tot acc =
     (if length acc \<ge> TT_TUNNEL_MAX_RANGES then (False, acc)
      else
        let (lo, hi) = token_range tok in
        if lo \<le> 0 \<or> hi < lo \<or> hi > 65535 then (False, acc)
        else
          let cnt = nat (hi - lo + 1);
              cnt1 = (if tot + cnt > TT_TUNNEL_MAX_PORTS then TT_TUNNEL_MAX_PORTS - tot else cnt) in
          if cnt1 = 0 then (False, acc)
          else parse_tokens toks (tot + cnt1) (acc @ [\<lparr>pr_start = of_int lo, pr_count = of_nat cnt1\<rparr>]))"

definition tt_port_list_parse :: "bytes option \<Rightarrow> bool \<times> TTPortRangeList" where
  "tt_port_list_parse str =
     (case str of
        None \<Rightarrow> (False, [])
      | Some s \<Rightarrow> if c_str s = [] then (False, []) else parse_tokens (tokens 44 [] (take 255 (c_str s))) 0 [])"

section \<open>Bounds\<close>

definition range_ok :: "TTPortRange \<Rightarrow> bool" where
  "range_ok r \<longleftrightarrow> 0 < unat (pr_start r) \<and> 0 < unat (pr_count r) \<and> unat (pr_start r) + unat (pr_count r) \<le> 65536"

definition ports_ok :: "TTPortRangeList \<Rightarrow> bool" where
  "ports_ok l \<longleftrightarrow> length l \<le> TT_TUNNEL_MAX_RANGES \<and> tt_port_list_len l \<le> TT_TUNNEL_MAX_PORTS \<and> (\<forall>r \<in> set l. range_ok r)"

lemma port_list_len_append [simp]: "tt_port_list_len (xs @ ys) = tt_port_list_len xs + tt_port_list_len ys"
  by (induction xs) auto

lemma port_in_range:
  assumes "\<forall>r \<in> set l. range_ok r" "idx < tt_port_list_len l"
  shows "\<exists>r \<in> set l. unat (pr_start r) \<le> unat (tt_port_list_port l idx) \<and>
    unat (tt_port_list_port l idx) < unat (pr_start r) + unat (pr_count r)"
  using assms
proof (induction l arbitrary: idx)
  case (Cons r rs)
  show ?case
  proof (cases "idx < unat (pr_count r)")
    case True
    then have "unat (pr_start r) + idx < 65536" using Cons.prems(1) by (auto simp: range_ok_def)
    then have "unat (pr_start r + of_nat idx) = unat (pr_start r) + idx"
      by (simp add: unat_word_ariths unsigned_of_nat take_bit_nat_eq_self)
    then show ?thesis using True by auto
  next
    case False
    then show ?thesis using Cons.IH [of "idx - unat (pr_count r)"] Cons.prems by auto
  qed
qed simp

lemma parse_tokens_ok:
  assumes "ports_ok acc" "tot = tt_port_list_len acc"
  shows "ports_ok (snd (parse_tokens toks tot acc))"
  using assms
proof (induction toks tot acc rule: parse_tokens.induct)
  case (2 tok toks tot acc)
  obtain lo hi where lh: "token_range tok = (lo, hi)" by (metis prod.exhaust)
  define cnt1 where "cnt1 = (if tot + nat (hi - lo + 1) > 32 then 32 - tot else nat (hi - lo + 1))"
  define r where "r = \<lparr>pr_start = of_int lo, pr_count = of_nat cnt1 :: u16\<rparr>"
  show ?case
  proof (cases "length acc \<ge> 8 \<or> lo \<le> 0 \<or> hi < lo \<or> hi > 65535 \<or> cnt1 = 0")
    case True
    then show ?thesis using 2(2) lh by (auto simp: cnt1_def [symmetric] Let_def simp del: One_nat_def)
  next
    case False
    have tot: "tot \<le> 32" using 2(2,3) by (simp add: ports_ok_def)
    have b: "0 < lo" "lo \<le> 65535" "hi \<le> 65535" "lo \<le> hi" "0 < cnt1" "cnt1 \<le> nat (hi - lo + 1)" "tot + cnt1 \<le> 32"
      using False tot by (auto simp: cnt1_def)
    have u: "unat (pr_count r) = cnt1" "unat (pr_start r) = nat lo"
      using b by (simp_all add: r_def unsigned_of_nat take_bit_nat_eq_self unsigned_of_int take_bit_int_eq_self)
    have "range_ok r" using b u by (simp add: range_ok_def)
    then have "ports_ok (acc @ [r])" using 2(2,3) b False u by (auto simp: ports_ok_def)
    then have "ports_ok (snd (parse_tokens toks (tot + cnt1) (acc @ [r])))"
      using 2(1) [of "(lo, hi)" lo hi "nat (hi - lo + 1)" cnt1] False lh 2(3) u by (auto simp: cnt1_def r_def)
    then show ?thesis using False lh by (simp add: cnt1_def [symmetric] r_def [symmetric] Let_def)
  qed
qed simp

text \<open>Whatever text is parsed, and also when it is refused, the port set has at most 8 ranges and 32
  ports, so every flattened index is within the socket arrays of a tunnel, and every index maps to a
  port between 1 and 65535.\<close>

theorem parsed_ports_in_bounds:
  "let l = snd (tt_port_list_parse s) in length l \<le> TT_TUNNEL_MAX_RANGES \<and> tt_port_list_len l \<le> TT_TUNNEL_MAX_PORTS \<and>
    list_all (\<lambda>idx. tt_port_list_port l idx \<noteq> 0) [0..<tt_port_list_len l]"
proof -
  let ?l = "snd (tt_port_list_parse s)"
  have "ports_ok []" by (simp add: ports_ok_def)
  then have ok: "ports_ok ?l"
    using parse_tokens_ok [of "[]" 0] by (simp add: tt_port_list_parse_def split: option.splits)
  have "tt_port_list_port ?l idx \<noteq> 0" if "idx < tt_port_list_len ?l" for idx
    using port_in_range [of ?l idx] ok that by (fastforce simp: ports_ok_def range_ok_def)
  then show ?thesis using ok by (simp add: ports_ok_def Let_def list_all_iff)
qed

section \<open>The round trip\<close>

lemma length_print_u: "n < 10 ^ Suc k \<Longrightarrow> length (print_u n) \<le> Suc k"
proof (induction k arbitrary: n)
  case 0
  then show ?case by (subst print_u.simps) simp
next
  case (Suc k)
  then have "length (print_u (n div 10)) \<le> Suc k" by (intro Suc.IH) (simp add: less_mult_imp_div_less mult.commute)
  then show ?case by (subst print_u.simps) simp
qed

lemma length_range_str:
  assumes "range_ok r"
  shows "length (range_str r) \<le> 11"
proof -
  have "unat (pr_start r) < 10 ^ Suc 4" "unat (pr_start r) + unat (pr_count r) - 1 < 10 ^ Suc 4"
    using assms by (auto simp: range_ok_def)
  from this [THEN length_print_u] show ?thesis by (simp add: range_str_def)
qed

lemma range_str_chars: "set (range_str r) \<subseteq> insert 45 {b. is_digit b}"
  using print_u_digits by (auto simp: range_str_def split: if_splits)

lemma range_str_nonempty: "range_str r \<noteq> []"
  by (simp add: range_str_def print_u_nonempty)

abbreviation (input) "more_str rs \<equiv> concat (map (\<lambda>r. 44 # range_str r) rs)"

lemma length_more_str: "\<forall>r \<in> set rs. range_ok r \<Longrightarrow> length (more_str rs) \<le> 12 * length rs"
  using length_range_str by (induction rs) fastforce+

lemma to_str_loop_fits:
  "i \<noteq> 0 \<Longrightarrow> length out + length (more_str rs) < cap \<Longrightarrow> to_str_loop cap i out rs = (length out + length (more_str rs), out @ more_str rs)"
  by (induction cap i out rs rule: to_str_loop.induct) (auto simp: Let_def)

lemma tokens_word: "sep \<notin> set w \<Longrightarrow> tokens sep cur (w @ r) = tokens sep (cur @ w) r"
  by (induction w arbitrary: cur) auto

lemma tokens_more:
  "cur \<noteq> [] \<Longrightarrow> tokens 44 cur (more_str rs) = cur # map range_str rs"
proof (induction rs arbitrary: cur)
  case (Cons r rs)
  have "44 \<notin> set (range_str r)" using range_str_chars [of r] by (auto simp: is_digit_def word_le_nat_alt)
  then show ?case using Cons.IH [of "range_str r"] Cons.prems range_str_nonempty by (simp add: tokens_word)
qed simp

lemma atoi_print: "n < 2 ^ 31 \<Longrightarrow> atoi (print_u n) = int n"
proof -
  assume n: "n < 2 ^ 31"
  obtain c cs where c: "print_u n = c # cs" using print_u_nonempty by (metis neq_Nil_conv)
  have d: "\<forall>b \<in> set (print_u n). is_digit b" by (rule print_u_digits)
  then have "\<not> is_space c" "c \<noteq> 45" "c \<noteq> 43" using c digit_not_space [of c] by auto
  moreover have tw: "takeWhile is_digit cs = cs" using d c by (simp add: takeWhile_eq_all_conv)
  ultimately have "scan_ld (print_u n) = Some (int n)"
    using n d c digits_value_print [of n] by (simp add: scan_ld_def Let_def tw)
  then show ?thesis using n by (simp add: atoi_def signed_take_bit_int_eq_self)
qed

lemma token_range_str:
  assumes "range_ok r"
  shows "token_range (range_str r) = (int (unat (pr_start r)), int (unat (pr_start r)) + int (unat (pr_count r)) - 1)"
proof -
  let ?s = "unat (pr_start r)" and ?c = "unat (pr_count r)"
  have nd: "45 \<notin> set (print_u n)" for n using print_u_digits [of n] digit_not_space by blast
  have b: "0 < ?c" "?s + ?c \<le> 65536" using assms by (simp_all add: range_ok_def)
  show ?thesis
  proof (cases "pr_count r > 1")
    case True
    have "takeWhile (\<lambda>c. c \<noteq> 45) (range_str r) = print_u ?s"
      "drop 1 (dropWhile (\<lambda>c. c \<noteq> 45) (range_str r)) = print_u (?s + ?c - 1)"
      using True nd [of ?s] by (auto simp: range_str_def takeWhile_append dropWhile_append)
    then show ?thesis using True b by (simp add: token_range_def range_str_def atoi_print of_nat_diff)
  next
    case False
    then have "?c = 1" using b by (simp add: word_less_nat_alt)
    then show ?thesis using False nd [of ?s] b by (simp add: token_range_def range_str_def atoi_print)
  qed
qed

lemma parse_step:
  assumes "token_range tok = (int a, int a + int c - 1)" "0 < a" "0 < c" "a + c \<le> 65536" "length acc < 8" "tot + c \<le> 32"
  shows "parse_tokens (tok # toks) tot acc = parse_tokens toks (tot + c) (acc @ [\<lparr>pr_start = of_nat a, pr_count = of_nat c\<rparr>])"
  using assms by simp

lemma parse_range_strs:
  assumes "ports_ok (acc @ rs)"
  shows "parse_tokens (map range_str rs) (tt_port_list_len acc) acc = (acc @ rs \<noteq> [], acc @ rs)"
  using assms
proof (induction rs arbitrary: acc)
  case (Cons r rs)
  have b: "range_ok r" "length acc < 8" "tt_port_list_len acc + unat (pr_count r) \<le> 32"
    using Cons.prems by (auto simp: ports_ok_def)
  have r: "\<lparr>pr_start = pr_start r, pr_count = pr_count r\<rparr> = r" by simp
  have "parse_tokens (map range_str (r # rs)) (tt_port_list_len acc) acc =
      parse_tokens (map range_str rs) (tt_port_list_len acc + unat (pr_count r)) (acc @ [r])"
    using parse_step [OF token_range_str [OF b(1)] _ _ _ b(2,3)] b(1) r by (simp add: range_ok_def r del: parse_tokens.simps)
  then show ?case using Cons.IH [of "acc @ [r]"] Cons.prems by (simp del: parse_tokens.simps)
qed simp

text \<open>The text form of a port set is faithful: a non-empty set within the bounds, printed into the
  256-byte buffer its users pass and parsed again, is the same set.\<close>

theorem port_list_roundtrip:
  assumes "ports_ok l" "l \<noteq> []"
  shows "tt_port_list_parse (Some (snd (tt_port_list_to_str l 256))) = (True, l)"
proof -
  obtain r rs where l: "l = r # rs" using assms(2) by (cases l) auto
  let ?s = "range_str r @ more_str rs"
  have ok: "range_ok r" "\<forall>x \<in> set rs. range_ok x" "length rs \<le> 7" using assms(1) l by (auto simp: ports_ok_def)
  have len: "length (range_str r) \<le> 11" "length (more_str rs) \<le> 84"
    using length_range_str [OF ok(1)] length_more_str [OF ok(2)] ok(3) by auto
  have p: "snd (tt_port_list_to_str l 256) = ?s"
    using to_str_loop_fits [of 1 "range_str r" rs 256] len by (simp add: l tt_port_list_to_str_def Let_def)
  have dz: "\<not> is_digit 0" by (simp add: is_digit_def)
  have "0 \<notin> set (range_str x)" for x using range_str_chars [of x] dz by auto
  then have "0 \<notin> set ?s" by simp
  then have c: "c_str ?s = ?s" by (rule c_str_id)
  have "44 \<notin> set (range_str r)" using range_str_chars [of r] by (auto simp: is_digit_def word_le_nat_alt)
  then have tk: "tokens 44 [] ?s = map range_str l"
    using tokens_word [of 44 "range_str r" "[]"] tokens_more [of "range_str r" rs] range_str_nonempty l by simp
  have "take 255 ?s = ?s" using len by simp
  then show ?thesis
    using parse_range_strs [of "[]" l] assms range_str_nonempty c tk by (simp add: tt_port_list_parse_def p)
qed

theorem port_list_roundtrip_witness:
  "let l = [\<lparr>pr_start = 2300, pr_count = 11\<rparr>, \<lparr>pr_start = 80, pr_count = 1\<rparr>]
   in tt_port_list_parse (Some (snd (tt_port_list_to_str l 256))) = (True, l)"
  using port_list_roundtrip [of "[\<lparr>pr_start = 2300, pr_count = 11\<rparr>, \<lparr>pr_start = 80, pr_count = 1\<rparr>]"]
  by (simp add: ports_ok_def range_ok_def)

end
