(* ===== verification/Tunnel.thy ===== *)
theory Tunnel
  imports PortList Engine
begin

text \<open>
  The tunnel engine, \<^verbatim>\<open>src/src/tunnel.c\<close>, with its end-to-end-encrypted channel from
  \<^verbatim>\<open>src/src/tox_thread.c\<close>: the table of 16 tunnels, the signalling that sets one up, UDP and TCP forwarding
  with the credit window, and the poll of the main loop.

  A pointer into a fixed array is an index, and the array a function from indices.  A tunnel or a
  connection that an operation works on is passed as a value and written back by the caller; none of
  the calls in between reaches it another way.  The state logs what leaves the process (\<open>tu_out\<close>: custom
  packets that toxcore took, socket writes and closes) and the events for the user interface, and holds
  what the kernel has ready: bytes on stream sockets (an empty item is the end of the stream), datagrams
  with their sender, and accepted connections.  \<open>tenv\<close> holds what toxcore and the kernel answer, \<open>z_packet k\<close>
  for the k-th custom packet and \<open>z_socket k\<close> for the k-th socket.  Allocation succeeds.
\<close>

abbreviation (input) "TT_TUNNEL_MAX_TUNNELS \<equiv> (16 :: nat)"
abbreviation (input) "TT_TUNNEL_MAX_CONNS \<equiv> (64 :: nat)"
abbreviation (input) "TT_TUNNEL_ALLOW_MAX \<equiv> (64 :: nat)"
abbreviation (input) "TT_TUNNEL_PENDING_TIMEOUT \<equiv> (60 :: int)"
abbreviation (input) "TT_TUNNEL_MAX_DATAGRAM \<equiv> (1370 :: nat)"
abbreviation (input) "TT_TUNNEL_TCP_MAX_PAYLOAD \<equiv> (1367 :: nat)"
abbreviation (input) "TT_TUNNEL_E2EE_FRAME_MAX \<equiv> (1371 :: nat)"
abbreviation (input) "TT_TUNNEL_E2EE_MAX_DATAGRAM \<equiv> (1315 :: nat)"
abbreviation (input) "TT_TUNNEL_E2EE_TCP_MAX_PAYLOAD \<equiv> (1312 :: nat)"
abbreviation (input) "TT_TUNNEL_TCP_WINDOW \<equiv> (16 :: u16)"
abbreviation (input) "TT_TUNNEL_ACK_BATCH \<equiv> (4 :: u16)"
abbreviation (input) "TT_TUNNEL_PEND_MAX \<equiv> (131072 :: nat)"

abbreviation (input) "TT_TCP_OPEN \<equiv> (1 :: byte)"
abbreviation (input) "TT_TCP_OPEN_ACK \<equiv> (2 :: byte)"
abbreviation (input) "TT_TCP_OPEN_FAIL \<equiv> (3 :: byte)"
abbreviation (input) "TT_TCP_DATA \<equiv> (4 :: byte)"
abbreviation (input) "TT_TCP_FIN \<equiv> (5 :: byte)"
abbreviation (input) "TT_TCP_ACK \<equiv> (6 :: byte)"
abbreviation (input) "TT_TUN_SIG_INVITE \<equiv> (1 :: byte)"
abbreviation (input) "TT_TUN_SIG_ACCEPT \<equiv> (2 :: byte)"
abbreviation (input) "TT_TUN_SIG_DECLINE \<equiv> (3 :: byte)"

section \<open>State\<close>

type_synonym sockaddr = "u32 \<times> u16"

datatype recv_item = RData bytes | RErr
datatype tun_out = OLossless nat bytes | OLossy nat bytes | OSend int bytes | OSendto int sockaddr bytes | OClose int
datatype Tox_Err_Friend_Custom_Packet = PKT_OK | PKT_SENDQ | PKT_NOT_CONNECTED | PKT_OTHER
datatype connect_result = CONN_DONE | CONN_INPROGRESS | CONN_ERROR
datatype send_rc = TT_SEND_OK | TT_SENDQ | TT_SEND_FATAL
datatype flush_rc = FLUSH_EMPTY | FLUSH_CONGESTED | FLUSH_FATAL

record TTTunnelAllow =
  al_used :: bool
  al_pk :: bytes
  al_fn :: nat

record TTTunnelSock =
  ks_used :: bool
  ks_fn :: nat
  ks_port_idx :: u16
  ks_sock :: int
  ks_srv :: sockaddr

record TTTunnelConn =
  cn_used :: bool
  cn_fn :: nat
  cn_port_idx :: u16
  cn_connid :: u16
  cn_sock :: int
  cn_connecting :: bool
  cn_peer_gone :: bool
  cn_unacked :: u16
  cn_ack_due :: u16
  cn_pend :: bytes
  cn_out :: bytes

record TTTunnel =
  tn_id :: u32
  tn_host :: bool
  tn_pending :: bool
  tn_pending_since :: int
  tn_e2ee_active :: bool
  tn_peer_fn :: nat
  tn_peer_pk :: bytes
  tn_server_host :: bytes
  tn_udp :: TTPortRangeList
  tn_tcp :: TTPortRangeList
  tn_allow :: "nat \<Rightarrow> TTTunnelAllow"
  tn_socks :: "nat \<Rightarrow> TTTunnelSock"
  tn_conns :: "nat \<Rightarrow> TTTunnelConn"
  tn_local_ip :: byte
  tn_listen_sock :: "nat \<Rightarrow> int"
  tn_tcp_listen_sock :: "nat \<Rightarrow> int"
  tn_udp_local :: TTPortRangeList
  tn_tcp_local :: TTPortRangeList
  tn_peer :: "nat \<Rightarrow> sockaddr option"
  tn_next_connid :: u16

record tenv =
  z_eng :: eenv
  z_packet :: "nat \<Rightarrow> Tox_Err_Friend_Custom_Packet"
  z_socket :: "nat \<Rightarrow> int"
  z_bind :: "bool \<Rightarrow> byte \<Rightarrow> u16 \<Rightarrow> bool"
  z_resolve :: "bytes \<Rightarrow> u16 \<Rightarrow> sockaddr option"
  z_connect :: "sockaddr \<Rightarrow> connect_result"
  z_soerror :: "int \<Rightarrow> int option"
  z_by_pk :: "bytes \<Rightarrow> nat option"

record tstate =
  tu_tunnels :: "nat \<Rightarrow> TTTunnel option"
  tu_seq :: u32
  tu_e2ee :: "(nat \<Rightarrow> TTSession) option"
  tu_draws :: nat
  tu_events :: "TTEvent list"
  tu_out :: "tun_out list"
  tu_packets :: nat
  tu_sockets :: nat
  tu_in :: "int \<Rightarrow> recv_item list"
  tu_from :: "int \<Rightarrow> (sockaddr \<times> bytes) list"
  tu_accept :: "int \<Rightarrow> int list"

definition tu_push :: "TTEvent \<Rightarrow> tstate \<Rightarrow> tstate" where
  "tu_push ev st = st \<lparr>tu_events := tu_events st @ [ev]\<rparr>"

definition tu_log :: "tun_out \<Rightarrow> tstate \<Rightarrow> tstate" where
  "tu_log x st = st \<lparr>tu_out := tu_out st @ [x]\<rparr>"

definition tu_close :: "int \<Rightarrow> tstate \<Rightarrow> tstate" where
  "tu_close fd st = (if fd \<ge> 0 then tu_log (OClose fd) st else st)"

definition tn_put :: "nat \<Rightarrow> TTTunnel \<Rightarrow> tstate \<Rightarrow> tstate" where
  "tn_put i tn st = st \<lparr>tu_tunnels := (tu_tunnels st)(i \<mapsto> tn)\<rparr>"

definition tun_session :: "tstate \<Rightarrow> nat \<Rightarrow> TTSession" where
  "tun_session st fn = (case tu_e2ee st of None \<Rightarrow> tt_session_init | Some f \<Rightarrow> f fn)"

definition tun_put :: "nat \<Rightarrow> TTSession \<Rightarrow> nat \<Rightarrow> tstate \<Rightarrow> tstate" where
  "tun_put fn s w st = st \<lparr>tu_e2ee := map_option (\<lambda>f. f(fn := s)) (tu_e2ee st), tu_draws := w\<rparr>"

definition send_packet :: "tenv \<Rightarrow> bool \<Rightarrow> nat \<Rightarrow> bytes \<Rightarrow> tstate \<Rightarrow> Tox_Err_Friend_Custom_Packet \<times> tstate" where
  "send_packet X lossy fn pkt st =
     (let r = z_packet X (tu_packets st); st1 = st \<lparr>tu_packets := tu_packets st + 1\<rparr>
      in (r, if r = PKT_OK then tu_log (if lossy then OLossy fn pkt else OLossless fn pkt) st1 else st1))"

section \<open>The encrypted channel\<close>

text \<open>\<^const>\<open>None\<close> is the -1 of a frame over the budget.\<close>

definition tt_tunnel_e2ee_send :: "tenv \<Rightarrow> nat \<Rightarrow> nat \<Rightarrow> bytes \<Rightarrow> tstate \<Rightarrow> Tox_Err_Friend_Custom_Packet option \<times> tstate" where
  "tt_tunnel_e2ee_send X fn kind frame st =
     (let pid = (if kind = 0 then 164 else if kind = 1 then 201 else 165) in
      if length frame > TT_TUNNEL_E2EE_FRAME_MAX then (None, st)
      else case send_packet X (kind = 1) fn (pid # 1 # frame) st of (r, st1) \<Rightarrow> (Some r, st1))"

definition tt_tunnel_e2ee_start :: "tenv \<Rightarrow> nat \<Rightarrow> tstate \<Rightarrow> tstate" where
  "tt_tunnel_e2ee_start X fn st =
     (if tu_e2ee st = None \<or> e_peer_pk (e2ee_env (z_eng X) fn) = None then st
      else case tt_session_start (v_sodium (z_eng X)) (tu_draws st) (tun_session st fn) (e2ee_env (z_eng X) fn) (v_now (z_eng X)) TT_FRAME_MAX of
        (Inl _, s, w) \<Rightarrow> tun_put fn s w st
      | (Inr f, s, w) \<Rightarrow> snd (tt_tunnel_e2ee_send X fn 0 f (tun_put fn s w st)))"

definition tunnel_tick_friend :: "tenv \<Rightarrow> tstate \<Rightarrow> nat \<Rightarrow> tstate" where
  "tunnel_tick_friend X st fn =
     (if e_peer_pk (e2ee_env (z_eng X) fn) = None then st
      else case tt_session_tick (v_sodium (z_eng X)) (tu_draws st) (tun_session st fn) (e2ee_env (z_eng X) fn) (v_now (z_eng X)) TT_FRAME_MAX of
        (f, s, w) \<Rightarrow> if f \<noteq> [] then snd (tt_tunnel_e2ee_send X fn 0 f (tun_put fn s w st)) else tun_put fn s w st)"

definition tt_tunnel_e2ee_tick :: "tenv \<Rightarrow> tstate \<Rightarrow> tstate" where
  "tt_tunnel_e2ee_tick X st = (if tu_e2ee st = None then st else foldl (tunnel_tick_friend X) st [0..<TT_MAX_FRIENDS])"

definition tunnel_e2ee_reply :: "tenv \<Rightarrow> nat \<Rightarrow> tstate \<Rightarrow> tstate" where
  "tunnel_e2ee_reply X fn st =
     (case tt_session_reply (v_sodium (z_eng X)) (tu_draws st) (tun_session st fn) (e2ee_env (z_eng X) fn) TT_FRAME_MAX of
        (Inl _, s, w) \<Rightarrow> tun_put fn s w st
      | (Inr f, s, w) \<Rightarrow> if f = [] then tun_put fn s w st else snd (tt_tunnel_e2ee_send X fn 0 f (tun_put fn s w st)))"

definition tt_tunnel_e2ee_rx :: "tenv \<Rightarrow> nat \<Rightarrow> bytes \<Rightarrow> nat \<Rightarrow> bool \<Rightarrow> tstate \<Rightarrow> frame_result \<times> tstate" where
  "tt_tunnel_e2ee_rx X fn frame pt_cap lossy st =
     (if tu_e2ee st = None \<or> fn \<ge> TT_MAX_FRIENDS then (Inl TT_E2EE_NO_SESSION, st)
      else if e_peer_pk (e2ee_env (z_eng X) fn) = None then (Inl TT_E2EE_NOKEY, st)
      else case tt_session_feed (v_sodium (z_eng X)) (tu_draws st) (tun_session st fn) (e2ee_env (z_eng X) fn) frame pt_cap of
        (r, handshaked, s, w) \<Rightarrow>
          let st1 = tun_put fn s w st in
          if handshaked then (Inr [], if r = Inr [] \<and> s_reply_due s then tunnel_e2ee_reply X fn st1 else st1)
          else case r of
            Inr pt \<Rightarrow> (Inr pt, st1)
          | Inl n \<Rightarrow>
              (Inl n, if \<not> lossy \<and> (n = TT_E2EE_DECODE_FAIL \<or> n = TT_E2EE_REPLAY) \<and> s_active s
                      then tt_tunnel_e2ee_start X fn st1 else st1))"

text \<open>At most two carriers; the flag says that toxcore refused one.\<close>

fun carrier_loop :: "tenv \<Rightarrow> nat \<Rightarrow> nat \<Rightarrow> tstate \<Rightarrow> bool \<times> tstate" where
  "carrier_loop X fn 0 st = (False, st)"
| "carrier_loop X fn (Suc n) st =
     (let s = tun_session st fn in
      if \<not> tt_session_carrier_pending s \<and> \<not> tt_session_rekey_pending s then (False, st)
      else case tt_session_carrier (v_sodium (z_eng X)) (tu_draws st) s TT_FRAME_MAX of
        (Inl _, s1, w) \<Rightarrow> (False, tun_put fn s1 w st)
      | (Inr f, s1, w) \<Rightarrow>
          if f = [] then (False, tun_put fn s1 w st)
          else case tt_tunnel_e2ee_send X fn 2 f (tun_put fn s1 w st) of
            (rc, st1) \<Rightarrow>
              if rc \<noteq> Some PKT_OK then (True, st1)
              else carrier_loop X fn n (tun_put fn (tt_session_carrier_done (tun_session st1 fn)) (tu_draws st1) st1))"

definition tunnel_carrier_retry :: "tenv \<Rightarrow> nat \<Rightarrow> tstate \<Rightarrow> bool \<times> tstate" where
  "tunnel_carrier_retry X fn st =
     (if tu_e2ee st = None \<or> fn \<ge> TT_MAX_FRIENDS \<or> \<not> s_active (tun_session st fn) then (False, st)
      else let st1 = snd (carrier_loop X fn 2 st) in (tt_session_carrier_pending (tun_session st1 fn), st1))"

section \<open>Keys and sockets\<close>

definition hexval :: "byte \<Rightarrow> byte option" where
  "hexval c =
     (if 48 \<le> c \<and> c \<le> 57 then Some (c - 48)
      else if 97 \<le> c \<and> c \<le> 102 then Some (c - 97 + 10)
      else if 65 \<le> c \<and> c \<le> 70 then Some (c - 65 + 10)
      else None)"

fun hex_pairs :: "bytes \<Rightarrow> bytes option" where
  "hex_pairs (a # b # r) =
     (case (hexval a, hexval b, hex_pairs r) of
        (Some hi, Some lo, Some pk) \<Rightarrow> Some ((push_bit 4 hi OR lo) # pk)
      | _ \<Rightarrow> None)"
| "hex_pairs _ = Some []"

definition hex_to_pk :: "bytes option \<Rightarrow> bytes option" where
  "hex_to_pk h = (case h of None \<Rightarrow> None | Some s \<Rightarrow> if length s \<noteq> 64 then None else hex_pairs s)"

text \<open>A bound local socket, negative when the socket or its binding failed.\<close>

definition bind_local :: "tenv \<Rightarrow> bool \<Rightarrow> byte \<Rightarrow> u16 \<Rightarrow> tstate \<Rightarrow> int \<times> tstate" where
  "bind_local X tcp ip port st =
     (let fd = z_socket X (tu_sockets st); st1 = st \<lparr>tu_sockets := tu_sockets st + 1\<rparr> in
      if fd < 0 then (-1, st1) else if z_bind X tcp ip port then (fd, st1) else (-1, tu_close fd st1))"

text \<open>Binds the ports of the given indices until one fails: the number bound, the sockets.\<close>

fun bind_ports :: "tenv \<Rightarrow> bool \<Rightarrow> byte \<Rightarrow> TTPortRangeList \<Rightarrow> nat list \<Rightarrow> nat \<Rightarrow> (nat \<Rightarrow> int) \<Rightarrow> tstate \<Rightarrow> nat \<times> (nat \<Rightarrow> int) \<times> tstate" where
  "bind_ports X tcp ip l [] bound socks st = (bound, socks, st)"
| "bind_ports X tcp ip l (i # idxs) bound socks st =
     (case bind_local X tcp ip (tt_port_list_port l i) st of
        (s, st1) \<Rightarrow> if s < 0 then (bound, socks, st1) else bind_ports X tcp ip l idxs (bound + 1) (socks(i := s)) st1)"

definition close_socks :: "(nat \<Rightarrow> int) \<Rightarrow> nat \<Rightarrow> tstate \<Rightarrow> tstate" where
  "close_socks socks n st = foldl (\<lambda>s i. tu_log (OClose (socks i)) s) st [0..<n]"

definition ip_used :: "tstate \<Rightarrow> byte \<Rightarrow> bool" where
  "ip_used st ip =
     list_ex (\<lambda>i. case tu_tunnels st i of None \<Rightarrow> False | Some o' \<Rightarrow> \<not> tn_host o' \<and> tn_local_ip o' = ip) [0..<TT_TUNNEL_MAX_TUNNELS]"

fun bind_octets :: "tenv \<Rightarrow> byte list \<Rightarrow> TTTunnel \<Rightarrow> tstate \<Rightarrow> bool \<times> TTTunnel \<times> tstate" where
  "bind_octets X [] tn st = (False, tn, st)"
| "bind_octets X (ip # ips) tn st =
     (if ip_used st ip then bind_octets X ips tn st
      else
        let nu = tt_port_list_len (tn_udp_local tn); nt = tt_port_list_len (tn_tcp_local tn) in
        case bind_ports X False ip (tn_udp_local tn) [0..<nu] 0 (tn_listen_sock tn) st of
          (bound, us, st1) \<Rightarrow>
            let tn1 = tn \<lparr>tn_listen_sock := us\<rparr> in
            if bound \<noteq> nu then bind_octets X ips tn1 (close_socks us bound st1)
            else case bind_ports X True ip (tn_tcp_local tn) [0..<nt] 0 (tn_tcp_listen_sock tn) st1 of
              (tbound, ts, st2) \<Rightarrow>
                let tn2 = tn1 \<lparr>tn_tcp_listen_sock := ts\<rparr> in
                if tbound \<noteq> nt then bind_octets X ips tn2 (close_socks us nu (close_socks ts tbound st2))
                else (True, tn2 \<lparr>tn_local_ip := ip\<rparr>, st2))"

definition bind_client_local :: "tenv \<Rightarrow> TTTunnel \<Rightarrow> tstate \<Rightarrow> bool \<times> TTTunnel \<times> tstate" where
  "bind_client_local X tn st = bind_octets X (map of_nat [2..<255]) tn st"

section \<open>The table\<close>

definition tunnel_find :: "tstate \<Rightarrow> u32 \<Rightarrow> nat option" where
  "tunnel_find st tid = find (\<lambda>i. case tu_tunnels st i of None \<Rightarrow> False | Some tn \<Rightarrow> tn_id tn = tid) [0..<TT_TUNNEL_MAX_TUNNELS]"

definition tunnel_by_peer :: "tstate \<Rightarrow> nat \<Rightarrow> bool \<Rightarrow> nat option" where
  "tunnel_by_peer st fn host =
     find (\<lambda>i. case tu_tunnels st i of None \<Rightarrow> False | Some tn \<Rightarrow> tn_host tn = host \<and> tn_peer_fn tn = fn) [0..<TT_TUNNEL_MAX_TUNNELS]"

definition conn_zero :: TTTunnelConn where
  "conn_zero = \<lparr>cn_used = False, cn_fn = 0, cn_port_idx = 0, cn_connid = 0, cn_sock = -1, cn_connecting = False,
     cn_peer_gone = False, cn_unacked = 0, cn_ack_due = 0, cn_pend = [], cn_out = []\<rparr>"

definition tunnel_zero :: TTTunnel where
  "tunnel_zero = \<lparr>tn_id = 0, tn_host = False, tn_pending = False, tn_pending_since = 0, tn_e2ee_active = False,
     tn_peer_fn = UINT32_MAX, tn_peer_pk = replicate 32 0, tn_server_host = [], tn_udp = [], tn_tcp = [],
     tn_allow = (\<lambda>_. \<lparr>al_used = False, al_pk = replicate 32 0, al_fn = 0\<rparr>),
     tn_socks = (\<lambda>_. \<lparr>ks_used = False, ks_fn = 0, ks_port_idx = 0, ks_sock = -1, ks_srv = (0, 0)\<rparr>),
     tn_conns = (\<lambda>_. conn_zero), tn_local_ip = 0, tn_listen_sock = (\<lambda>_. -1), tn_tcp_listen_sock = (\<lambda>_. -1),
     tn_udp_local = [], tn_tcp_local = [], tn_peer = (\<lambda>_. None), tn_next_connid = 0\<rparr>"

definition tunnel_alloc :: "bool \<Rightarrow> tstate \<Rightarrow> (nat \<times> TTTunnel \<times> tstate) option" where
  "tunnel_alloc host st =
     (case find (\<lambda>i. tu_tunnels st i = None) [0..<TT_TUNNEL_MAX_TUNNELS] of
        None \<Rightarrow> None
      | Some i \<Rightarrow>
          let seq = tu_seq st + 1; tn = tunnel_zero \<lparr>tn_host := host, tn_id := seq\<rparr>
          in Some (i, tn, tn_put i tn (st \<lparr>tu_seq := (if seq = 0 then 1 else seq)\<rparr>)))"

definition tunnel_free :: "nat \<Rightarrow> TTTunnel \<Rightarrow> tstate \<Rightarrow> tstate" where
  "tunnel_free i tn st =
     (let st1 =
        (if tn_host tn then
           foldl (\<lambda>s j. if cn_used (tn_conns tn j) then tu_close (cn_sock (tn_conns tn j)) s else s)
             (foldl (\<lambda>s j. if ks_used (tn_socks tn j) then tu_close (ks_sock (tn_socks tn j)) s else s) st
                [0..<TT_MAX_FRIENDS * TT_TUNNEL_MAX_PORTS])
             [0..<TT_TUNNEL_MAX_CONNS]
         else foldl (\<lambda>s j. tu_close (tn_tcp_listen_sock tn j) (tu_close (tn_listen_sock tn j) s)) st [0..<TT_TUNNEL_MAX_PORTS])
      in st1 \<lparr>tu_tunnels := (tu_tunnels st1)(i := None)\<rparr>)"

definition tunnel_resolve :: "tenv \<Rightarrow> TTTunnel \<Rightarrow> TTTunnel" where
  "tunnel_resolve X tn =
     (if tn_peer_fn tn \<noteq> UINT32_MAX then tn
      else case z_by_pk X (tn_peer_pk tn) of None \<Rightarrow> tn | Some fn \<Rightarrow> tn \<lparr>tn_peer_fn := fn\<rparr>)"

section \<open>Signalling\<close>

definition sig_send :: "tenv \<Rightarrow> nat \<Rightarrow> byte \<Rightarrow> bytes \<Rightarrow> tstate \<Rightarrow> tstate" where
  "sig_send X fn opcode payload st =
     (if length payload > 270 then st else snd (send_packet X False fn (163 # 1 # opcode # payload) st))"

definition put_ranges :: "TTPortRangeList \<Rightarrow> bytes" where
  "put_ranges l = be16 (of_nat (length l)) @ concat (map (\<lambda>r. be16 (pr_start r) @ be16 (pr_count r)) l)"

definition sig_invite :: "tenv \<Rightarrow> nat \<Rightarrow> TTTunnel \<Rightarrow> tstate \<Rightarrow> tstate" where
  "sig_invite X fn tn st =
     sig_send X fn TT_TUN_SIG_INVITE (take 200 (tn_server_host tn) @ [0] @ put_ranges (tn_udp tn) @ put_ranges (tn_tcp tn)) st"

definition sig_accept :: "tenv \<Rightarrow> nat \<Rightarrow> TTPortRangeList \<Rightarrow> TTPortRangeList \<Rightarrow> tstate \<Rightarrow> tstate" where
  "sig_accept X fn udp tcp st = sig_send X fn TT_TUN_SIG_ACCEPT (put_ranges udp @ put_ranges tcp) st"

text \<open>Reads a count, cut to 8, and that many ranges; \<^const>\<open>None\<close> when the payload ends too early.\<close>

fun get_ranges :: "nat \<Rightarrow> bytes \<Rightarrow> (TTPortRangeList \<times> bytes) option" where
  "get_ranges 0 b = Some ([], b)"
| "get_ranges (Suc n) (b0 # b1 # b2 # b3 # b) =
     (case get_ranges n b of
        None \<Rightarrow> None
      | Some (l, r) \<Rightarrow> Some (\<lparr>pr_start = rd16 b0 b1, pr_count = rd16 b2 b3\<rparr> # l, r))"
| "get_ranges (Suc n) _ = None"

fun get_range_list :: "bytes \<Rightarrow> (TTPortRangeList \<times> bytes) option" where
  "get_range_list (b0 # b1 # b) = get_ranges (min (unat (rd16 b0 b1)) TT_TUNNEL_MAX_RANGES) b"
| "get_range_list _ = None"

definition list_str :: "TTPortRangeList \<Rightarrow> bytes" where
  "list_str l = snd (tt_port_list_to_str l 256)"

definition rx_invite :: "nat \<Rightarrow> bytes \<Rightarrow> tstate \<Rightarrow> tstate" where
  "rx_invite fn payload st =
     (let plen = length payload in
      if plen < 3 then st
      else
        let hl = length (takeWhile (\<lambda>c. c \<noteq> 0) (take (plen - 2) payload)) in
        if hl = plen - 2 then st
        else
          let host = take 255 (take hl payload) in
          case get_range_list (drop (hl + 1) payload) of
            None \<Rightarrow> st
          | Some (udp, r) \<Rightarrow>
              (case get_range_list r of
                 None \<Rightarrow> st
               | Some (tcp, _) \<Rightarrow>
                   if tunnel_by_peer st fn False \<noteq> None then st
                   else case tunnel_alloc False st of
                     None \<Rightarrow> st
                   | Some (i, tn, st1) \<Rightarrow>
                       tu_push ((tt_event_new TT_EV_TUNNEL_INVITE) \<lparr>ev_fn := fn,
                           ev_str := Some (host @ [10] @ list_str udp @ [10] @ list_str tcp)\<rparr>)
                         (tn_put i (tn \<lparr>tn_pending := True, tn_peer_fn := fn, tn_server_host := host, tn_udp := udp, tn_tcp := tcp\<rparr>) st1)))"

definition tunnel_state_event :: "nat \<Rightarrow> TTTunnel \<Rightarrow> int \<Rightarrow> TTEvent" where
  "tunnel_state_event fn tn v = (tt_event_new TT_EV_TUNNEL_STATE) \<lparr>ev_fn := fn, ev_ival := sint (tn_id tn), ev_ival2 := v\<rparr>"

definition rx_accept :: "nat \<Rightarrow> bytes \<Rightarrow> tstate \<Rightarrow> tstate" where
  "rx_accept fn payload st =
     (if length payload < 8 then st
      else case tunnel_by_peer st fn True of
        None \<Rightarrow> st
      | Some i \<Rightarrow>
          let tn = the (tu_tunnels st i) in
          if \<not> tn_pending tn then st
          else tu_push (tunnel_state_event fn tn 1) (tn_put i (tn \<lparr>tn_pending := False\<rparr>) st))"

definition rx_decline :: "nat \<Rightarrow> tstate \<Rightarrow> tstate" where
  "rx_decline fn st =
     (case tunnel_by_peer st fn True of
        None \<Rightarrow> st
      | Some i \<Rightarrow>
          let tn = the (tu_tunnels st i) in
          if \<not> tn_pending tn then st else tunnel_free i tn (tu_push (tunnel_state_event fn tn 2) st))"

definition tunnel_sig_rx :: "nat \<Rightarrow> bytes \<Rightarrow> tstate \<Rightarrow> tstate" where
  "tunnel_sig_rx fn data st =
     (if length data < 3 then st
      else if data ! 0 \<noteq> 163 \<or> data ! 1 \<noteq> 1 then st
      else
        let payload = drop 3 data in
        if data ! 2 = TT_TUN_SIG_INVITE then rx_invite fn payload st
        else if data ! 2 = TT_TUN_SIG_ACCEPT then rx_accept fn payload st
        else if data ! 2 = TT_TUN_SIG_DECLINE then rx_decline fn st
        else st)"

section \<open>Starting and stopping\<close>

definition tt_tunnel_start_host :: "bytes \<Rightarrow> TTPortRangeList \<Rightarrow> TTPortRangeList \<Rightarrow> tstate \<Rightarrow> u32 \<times> tstate" where
  "tt_tunnel_start_host server_host udp tcp st =
     (case tunnel_alloc True st of
        None \<Rightarrow> (0, st)
      | Some (i, tn, st1) \<Rightarrow>
          (tn_id tn, tn_put i (tn \<lparr>tn_server_host := take 255 server_host, tn_udp := udp, tn_tcp := tcp\<rparr>) st1))"

definition tt_tunnel_start_client :: "tenv \<Rightarrow> TTPortRangeList \<Rightarrow> TTPortRangeList \<Rightarrow> bytes option \<Rightarrow> tstate \<Rightarrow> u32 \<times> tstate" where
  "tt_tunnel_start_client X udp tcp host_pk_hex st =
     (case tunnel_alloc False st of
        None \<Rightarrow> (0, st)
      | Some (i, tn, st1) \<Rightarrow>
          let tn1 = tn \<lparr>tn_next_connid := 1\<rparr> in
          case hex_to_pk host_pk_hex of
            None \<Rightarrow> (0, tunnel_free i tn1 st1)
          | Some pk \<Rightarrow>
              let tn2 = tn1 \<lparr>tn_peer_pk := pk, tn_udp_local := udp, tn_tcp_local := tcp\<rparr> in
              (case bind_client_local X tn2 (tn_put i tn2 st1) of
                 (ok, tn3, st2) \<Rightarrow> if ok then (tn_id tn3, tn_put i tn3 st2) else (0, tunnel_free i tn3 st2)))"

definition tt_tunnel_stop :: "u32 \<Rightarrow> tstate \<Rightarrow> tstate" where
  "tt_tunnel_stop tid st =
     (case tunnel_find st tid of
        None \<Rightarrow> st
      | Some i \<Rightarrow>
          tunnel_free i (the (tu_tunnels st i)) (tu_push ((tt_event_new TT_EV_TUNNEL_REMOVE) \<lparr>ev_ival := sint tid\<rparr>) st))"

definition tt_tunnel_stop_all :: "tstate \<Rightarrow> tstate" where
  "tt_tunnel_stop_all st =
     foldl (\<lambda>s i. case tu_tunnels s i of None \<Rightarrow> s | Some tn \<Rightarrow> tunnel_free i tn s) st [0..<TT_TUNNEL_MAX_TUNNELS]"

definition tt_tunnel_active :: "tstate \<Rightarrow> bool" where
  "tt_tunnel_active st = list_ex (\<lambda>i. tu_tunnels st i \<noteq> None) [0..<TT_TUNNEL_MAX_TUNNELS]"

definition tt_tunnel_allow :: "tenv \<Rightarrow> u32 \<Rightarrow> bytes \<Rightarrow> tstate \<Rightarrow> bool \<times> tstate" where
  "tt_tunnel_allow X tid pk_hex st =
     (case tunnel_find st tid of
        None \<Rightarrow> (False, st)
      | Some i \<Rightarrow>
          let tn = the (tu_tunnels st i) in
          if \<not> tn_host tn then (False, st)
          else case hex_to_pk (Some pk_hex) of
            None \<Rightarrow> (False, st)
          | Some pk \<Rightarrow>
              if list_ex (\<lambda>j. al_used (tn_allow tn j) \<and> al_pk (tn_allow tn j) = pk) [0..<TT_TUNNEL_ALLOW_MAX] then (True, st)
              else case find (\<lambda>j. \<not> al_used (tn_allow tn j)) [0..<TT_TUNNEL_ALLOW_MAX] of
                None \<Rightarrow> (False, st)
              | Some j \<Rightarrow>
                  let a = \<lparr>al_used = True, al_pk = pk, al_fn = (case z_by_pk X pk of None \<Rightarrow> UINT32_MAX | Some fn \<Rightarrow> fn)\<rparr>
                  in (True, tn_put i (tn \<lparr>tn_allow := (tn_allow tn)(j := a)\<rparr>) st))"

definition tt_tunnel_allow_all :: "tenv \<Rightarrow> bytes \<Rightarrow> tstate \<Rightarrow> tstate" where
  "tt_tunnel_allow_all X pk_hex st =
     foldl (\<lambda>s i. case tu_tunnels s i of None \<Rightarrow> s
              | Some tn \<Rightarrow> if tn_host tn then snd (tt_tunnel_allow X (tn_id tn) pk_hex s) else s) st [0..<TT_TUNNEL_MAX_TUNNELS]"

definition tt_tunnel_deny :: "u32 \<Rightarrow> bytes \<Rightarrow> tstate \<Rightarrow> bool \<times> tstate" where
  "tt_tunnel_deny tid pk_hex st =
     (case tunnel_find st tid of
        None \<Rightarrow> (False, st)
      | Some i \<Rightarrow>
          let tn = the (tu_tunnels st i) in
          if \<not> tn_host tn then (False, st)
          else case hex_to_pk (Some pk_hex) of
            None \<Rightarrow> (False, st)
          | Some pk \<Rightarrow>
              (case find (\<lambda>j. al_used (tn_allow tn j) \<and> al_pk (tn_allow tn j) = pk) [0..<TT_TUNNEL_ALLOW_MAX] of
                 None \<Rightarrow> (False, st)
               | Some j \<Rightarrow>
                   let a = tn_allow tn j; k = tn_socks tn (al_fn a);
                       st1 = (if al_fn a < TT_MAX_FRIENDS \<and> ks_used k then tu_close (ks_sock k) st else st);
                       tn1 = (if al_fn a < TT_MAX_FRIENDS
                              then tn \<lparr>tn_socks := (tn_socks tn)(al_fn a := k \<lparr>ks_used := False, ks_sock := -1\<rparr>)\<rparr> else tn)
                   in (True, tn_put i (tn1 \<lparr>tn_allow := (tn_allow tn1)(j := a \<lparr>al_used := False\<rparr>)\<rparr>) st1)))"

section \<open>UDP\<close>

definition host_sock :: "tenv \<Rightarrow> TTTunnel \<Rightarrow> nat \<Rightarrow> nat \<Rightarrow> tstate \<Rightarrow> int \<times> TTTunnel \<times> tstate" where
  "host_sock X tn fn port_idx st =
     (if fn \<ge> TT_MAX_FRIENDS \<or> port_idx \<ge> tt_port_list_len (tn_udp tn) then (-1, tn, st)
      else
        let k = fn * TT_TUNNEL_MAX_PORTS + port_idx in
        if ks_used (tn_socks tn k) then (ks_sock (tn_socks tn k), tn, st)
        else
          let fd = z_socket X (tu_sockets st); st1 = st \<lparr>tu_sockets := tu_sockets st + 1\<rparr> in
          if fd < 0 then (-1, tn, st1)
          else case z_resolve X (tn_server_host tn) (tt_port_list_port (tn_udp tn) port_idx) of
            None \<Rightarrow> (-1, tn, tu_close fd st1)
          | Some srv \<Rightarrow>
              (fd, tn \<lparr>tn_socks := (tn_socks tn)(k := \<lparr>ks_used = True, ks_fn = fn, ks_port_idx = of_nat port_idx, ks_sock = fd, ks_srv = srv\<rparr>)\<rparr>, st1))"

definition fn_allowed :: "TTTunnel \<Rightarrow> nat \<Rightarrow> bool" where
  "fn_allowed tn fn = list_ex (\<lambda>j. al_used (tn_allow tn j) \<and> al_fn (tn_allow tn j) = fn) [0..<TT_TUNNEL_ALLOW_MAX]"

definition host_forward :: "tenv \<Rightarrow> TTTunnel \<Rightarrow> nat \<Rightarrow> nat \<Rightarrow> bytes \<Rightarrow> tstate \<Rightarrow> TTTunnel \<times> tstate" where
  "host_forward X tn fn port_idx data st =
     (if fn \<ge> TT_MAX_FRIENDS \<or> \<not> fn_allowed tn fn then (tn, st)
      else case host_sock X tn fn port_idx st of
        (fd, tn1, st1) \<Rightarrow>
          if fd < 0 then (tn1, st1)
          else (tn1, tu_log (OSendto fd (ks_srv (tn_socks tn1 (fn * TT_TUNNEL_MAX_PORTS + port_idx))) data) st1))"

definition tunnel_send :: "tenv \<Rightarrow> nat \<Rightarrow> nat \<Rightarrow> bytes \<Rightarrow> tstate \<Rightarrow> tstate" where
  "tunnel_send X fn port_idx data st =
     (let pkt = [200, 1, of_nat port_idx] @ data in
      if length data > TT_TUNNEL_MAX_DATAGRAM then st
      else if tu_e2ee st \<noteq> None then
        if length data > TT_TUNNEL_E2EE_MAX_DATAGRAM \<or> \<not> s_active (tun_session st fn) then st
        else case tunnel_carrier_retry X fn st of
          (parked, st1) \<Rightarrow>
            if parked then st1
            else case tt_session_send_lossy (v_sodium (z_eng X)) (tu_draws st1) (tun_session st1 fn) pkt TT_FRAME_MAX of
              (Inl _, s, w) \<Rightarrow> tun_put fn s w st1
            | (Inr f, s, w) \<Rightarrow> if f = [] then tun_put fn s w st1 else snd (tt_tunnel_e2ee_send X fn 1 f (tun_put fn s w st1))
      else snd (send_packet X True fn pkt st))"

definition recv_dgram :: "int \<Rightarrow> tstate \<Rightarrow> (sockaddr \<times> bytes) option \<times> tstate" where
  "recv_dgram fd st =
     (case tu_from st fd of
        [] \<Rightarrow> (None, st)
      | (a, d) # r \<Rightarrow> (Some (a, take TT_TUNNEL_MAX_DATAGRAM d), st \<lparr>tu_from := (tu_from st)(fd := r)\<rparr>))"

section \<open>TCP\<close>

definition conn_find :: "TTTunnel \<Rightarrow> nat \<Rightarrow> u16 \<Rightarrow> nat option" where
  "conn_find tn fn connid =
     find (\<lambda>j. let c = tn_conns tn j in cn_used c \<and> cn_fn c = fn \<and> cn_connid c = connid) [0..<TT_TUNNEL_MAX_CONNS]"

definition conn_put :: "nat \<Rightarrow> TTTunnelConn \<Rightarrow> TTTunnel \<Rightarrow> TTTunnel" where
  "conn_put j c tn = tn \<lparr>tn_conns := (tn_conns tn)(j := c)\<rparr>"

definition conn_alloc :: "TTTunnel \<Rightarrow> (nat \<times> TTTunnelConn) option" where
  "conn_alloc tn =
     (case find (\<lambda>j. \<not> cn_used (tn_conns tn j)) [0..<TT_TUNNEL_MAX_CONNS] of
        None \<Rightarrow> None
      | Some j \<Rightarrow> Some (j, (tn_conns tn j) \<lparr>cn_used := True, cn_sock := -1, cn_connecting := False, cn_peer_gone := False,
                               cn_unacked := 0, cn_ack_due := 0\<rparr>))"

definition conn_free :: "TTTunnelConn \<Rightarrow> tstate \<Rightarrow> TTTunnelConn \<times> tstate" where
  "conn_free c st =
     (c \<lparr>cn_pend := [], cn_out := [], cn_used := False, cn_sock := -1, cn_connecting := False, cn_peer_gone := False,
         cn_unacked := 0, cn_ack_due := 0\<rparr>, tu_close (cn_sock c) st)"

definition conn_pend :: "bytes \<Rightarrow> TTTunnelConn \<Rightarrow> TTTunnelConn" where
  "conn_pend data c = (if length (cn_pend c) + length data > TT_TUNNEL_PEND_MAX then c else c \<lparr>cn_pend := cn_pend c @ data\<rparr>)"

definition tcp_frame :: "u16 \<Rightarrow> u16 \<Rightarrow> byte \<Rightarrow> bytes \<Rightarrow> bytes" where
  "tcp_frame port_idx connid opcode payload = [162, 1, ucast port_idx] @ be16 connid @ [opcode] @ payload"

definition tcp_send_ex :: "tenv \<Rightarrow> nat \<Rightarrow> u16 \<Rightarrow> u16 \<Rightarrow> byte \<Rightarrow> bytes \<Rightarrow> tstate \<Rightarrow> send_rc \<times> tstate" where
  "tcp_send_ex X fn port_idx connid opcode payload st =
     (let pkt = tcp_frame port_idx connid opcode payload in
      if length payload > TT_TUNNEL_TCP_MAX_PAYLOAD then (TT_SEND_FATAL, st)
      else if tu_e2ee st \<noteq> None then
        if length payload > TT_TUNNEL_E2EE_TCP_MAX_PAYLOAD then (TT_SEND_FATAL, st)
        else if \<not> s_active (tun_session st fn) then (TT_SEND_OK, st)
        else case carrier_loop X fn 2 st of
          (refused, st1) \<Rightarrow>
            if refused \<or> tt_session_carrier_pending (tun_session st1 fn) then (TT_SENDQ, st1)
            else case tt_session_send_lossy (v_sodium (z_eng X)) (tu_draws st1) (tun_session st1 fn) pkt TT_FRAME_MAX of
              (Inl n, s, w) \<Rightarrow> (if n = TT_E2EE_CARRIER then TT_SENDQ else TT_SEND_FATAL, tun_put fn s w st1)
            | (Inr f, s, w) \<Rightarrow>
                if f = [] then (TT_SEND_OK, tun_put fn s w st1)
                else case tt_tunnel_e2ee_send X fn 2 f (tun_put fn s w st1) of
                  (rc, st2) \<Rightarrow> (if rc = Some PKT_OK then TT_SEND_OK else TT_SENDQ, st2)
      else case send_packet X False fn pkt st of
        (r, st1) \<Rightarrow> (if r = PKT_OK then TT_SEND_OK else if r = PKT_SENDQ then TT_SENDQ else TT_SEND_FATAL, st1))"

definition tcp_send :: "tenv \<Rightarrow> nat \<Rightarrow> u16 \<Rightarrow> u16 \<Rightarrow> byte \<Rightarrow> bytes \<Rightarrow> tstate \<Rightarrow> tstate" where
  "tcp_send X fn port_idx connid opcode payload st = snd (tcp_send_ex X fn port_idx connid opcode payload st)"

definition conn_read_max :: "tstate \<Rightarrow> nat" where
  "conn_read_max st = (if tu_e2ee st \<noteq> None then TT_TUNNEL_E2EE_TCP_MAX_PAYLOAD else TT_TUNNEL_TCP_MAX_PAYLOAD)"

definition conn_out_add :: "bytes \<Rightarrow> TTTunnelConn \<Rightarrow> bool \<times> TTTunnelConn" where
  "conn_out_add data c =
     (if length (cn_out c) + length data > TT_TUNNEL_PEND_MAX then (False, c) else (True, c \<lparr>cn_out := cn_out c @ data\<rparr>))"

text \<open>The reading size is 1312 or 1367; the test for 0 only makes the recursion end.\<close>

function flush_loop :: "tenv \<Rightarrow> nat \<Rightarrow> TTTunnelConn \<Rightarrow> tstate \<Rightarrow> flush_rc \<times> TTTunnelConn \<times> tstate" where
  "flush_loop X mx c st =
     (if mx = 0 \<or> cn_out c = [] \<or> \<not> cn_unacked c < TT_TUNNEL_TCP_WINDOW
      then (if cn_out c = [] then FLUSH_EMPTY else FLUSH_CONGESTED, c, st)
      else
        let chunk = min (length (cn_out c)) mx in
        case tcp_send_ex X (cn_fn c) (cn_port_idx c) (cn_connid c) TT_TCP_DATA (take chunk (cn_out c)) st of
          (rc, st1) \<Rightarrow>
            if rc = TT_SENDQ then (FLUSH_CONGESTED, c, st1)
            else if rc \<noteq> TT_SEND_OK then (FLUSH_FATAL, c, st1)
            else flush_loop X mx (c \<lparr>cn_unacked := cn_unacked c + 1, cn_out := drop chunk (cn_out c)\<rparr>) st1)"
  by pat_completeness auto
termination
  by (relation "measure (\<lambda>(X, mx, c, st). length (cn_out c))") auto

declare flush_loop.simps [simp del]

definition conn_flush_out :: "tenv \<Rightarrow> TTTunnelConn \<Rightarrow> tstate \<Rightarrow> flush_rc \<times> TTTunnelConn \<times> tstate" where
  "conn_flush_out X c st = flush_loop X (conn_read_max st) c st"

text \<open>
  What an operation that only hands packets to toxcore leaves alone; \<open>P\<close> holds of all it logs.
\<close>

definition sends :: "(tun_out \<Rightarrow> bool) \<Rightarrow> tstate \<Rightarrow> tstate \<Rightarrow> bool" where
  "sends P st st' \<longleftrightarrow> tu_tunnels st' = tu_tunnels st \<and> tu_seq st' = tu_seq st \<and> tu_events st' = tu_events st \<and>
     tu_sockets st' = tu_sockets st \<and> tu_in st' = tu_in st \<and> tu_from st' = tu_from st \<and> tu_accept st' = tu_accept st \<and>
     (tu_e2ee st' = None) = (tu_e2ee st = None) \<and> (\<exists>ps. tu_out st' = tu_out st @ ps \<and> list_all P ps)"

lemma sends_refl [simp]: "sends P st st"
  by (simp add: sends_def)

lemma sends_trans: "sends P st st1 \<Longrightarrow> sends P st1 st2 \<Longrightarrow> sends P st st2"
  by (fastforce simp: sends_def)

lemma sends_mono: "sends P st st' \<Longrightarrow> (\<And>x. P x \<Longrightarrow> Q x) \<Longrightarrow> sends Q st st'"
  by (fastforce simp: sends_def list_all_iff)

lemma sends_tun_put [simp]: "sends P st (tun_put fn s w st)"
  by (simp add: sends_def tun_put_def)

lemma sends_after_put: "sends P st st' \<Longrightarrow> sends P st (tun_put fn s w st')"
  by (erule sends_trans) simp

lemma sends_packet:
  "P (if lossy then OLossy fn pkt else OLossless fn pkt) \<Longrightarrow> sends P st (snd (send_packet X lossy fn pkt st))"
  by (simp add: sends_def send_packet_def tu_log_def Let_def)

text \<open>The packets of the encrypted channel.\<close>

definition sealed :: "tun_out \<Rightarrow> bool" where
  "sealed x = (case x of OLossless fn p \<Rightarrow> take 2 p = [164, 1] \<or> take 2 p = [165, 1] | OLossy fn p \<Rightarrow> take 2 p = [201, 1] | _ \<Rightarrow> True)"

lemma sends_sealed: "sends sealed st (snd (tt_tunnel_e2ee_send X fn kind f st))"
  using sends_packet [of sealed "kind = 1" fn "(if kind = 0 then 164 else if kind = 1 then 201 else 165) # 1 # f" st X]
  by (auto simp: tt_tunnel_e2ee_send_def sealed_def Let_def split: prod.splits)

lemma sends_carrier: "sends sealed st (snd (carrier_loop X fn n st))"
proof (induction X fn n st rule: carrier_loop.induct)
  case (2 X fn n st)
  let ?s = "tun_session st fn"
  obtain r s1 w where c: "tt_session_carrier (v_sodium (z_eng X)) (tu_draws st) ?s 1372 = (r, s1, w)" by (metis prod.exhaust)
  show ?case
  proof (cases r)
    case (Inl a)
    then show ?thesis using c by (simp add: Let_def)
  next
    case (Inr f)
    obtain rc st1 where e: "tt_tunnel_e2ee_send X fn 2 f (tun_put fn s1 w st) = (rc, st1)" by (metis prod.exhaust)
    have s1: "sends sealed st st1"
      using sends_trans [OF sends_tun_put [of sealed st fn s1 w] sends_sealed [of _ X fn 2 f]] e by simp
    show ?thesis
    proof (cases "(\<not> tt_session_carrier_pending ?s \<and> \<not> tt_session_rekey_pending ?s) \<or> f = [] \<or> rc \<noteq> Some PKT_OK")
      case True
      then show ?thesis using c e s1 Inr by (auto simp: Let_def)
    next
      case False
      let ?st2 = "tun_put fn (tt_session_carrier_done (tun_session st1 fn)) (tu_draws st1) st1"
      have "sends sealed ?st2 (snd (carrier_loop X fn n ?st2))" using 2 [of ?s] False c e Inr by auto
      from sends_trans [OF sends_after_put [OF s1] this] show ?thesis using False c e Inr by (auto simp: Let_def)
    qed
  qed
qed simp

lemma sends_tcp:
  "sends (\<lambda>x. if tu_e2ee st = None then x = OLossless fn (tcp_frame pi ci op pl) else sealed x) st
     (snd (tcp_send_ex X fn pi ci op pl st))"
  (is "sends ?P st _")
proof (cases "tu_e2ee st = None")
  case True
  then show ?thesis using sends_packet [of ?P False fn "tcp_frame pi ci op pl" st X]
    by (auto simp: tcp_send_ex_def Let_def split: prod.splits)
next
  case False
  then have P: "?P = sealed" by auto
  obtain rf st1 where cl: "carrier_loop X fn 2 st = (rf, st1)" by (metis prod.exhaust)
  obtain r s w where sl: "tt_session_send_lossy (v_sodium (z_eng X)) (tu_draws st1) (tun_session st1 fn) (tcp_frame pi ci op pl) 1372 = (r, s, w)"
    by (metis prod.exhaust)
  have c: "sends sealed st st1" using sends_carrier [of st X fn 2] cl by simp
  note p = sends_after_put [OF c, of fn s w]
  have e: "sends sealed st (snd (tt_tunnel_e2ee_send X fn 2 f (tun_put fn s w st1)))" for f
    by (rule sends_trans [OF p sends_sealed])
  show ?thesis
    unfolding P using False c p e cl sl by (cases r) (auto simp: tcp_send_ex_def Let_def split_beta)
qed

lemma sends_any: "sends P st st' \<Longrightarrow> sends (\<lambda>_. True) st st'"
  by (erule sends_mono) simp

lemma sends_flush: "sends (\<lambda>_. True) st (snd (snd (flush_loop X mx c st)))"
proof (induction X mx c st rule: flush_loop.induct)
  case (1 X mx c st)
  let ?ch = "min (length (cn_out c)) mx"
  obtain rc st1 where e: "tcp_send_ex X (cn_fn c) (cn_port_idx c) (cn_connid c) 4 (take ?ch (cn_out c)) st = (rc, st1)"
    by (metis prod.exhaust)
  have s: "sends (\<lambda>_. True) st st1"
    using sends_any [OF sends_tcp [of st "cn_fn c" "cn_port_idx c" "cn_connid c" 4 "take ?ch (cn_out c)" X]] e by simp
  show ?case
    by (subst flush_loop.simps) (use e s 1 [OF _ refl e [symmetric]] sends_trans [OF s] in \<open>auto simp: Let_def\<close>)
qed

end
