(* ===== verification/Chess.thy ===== *)
theory Chess
  imports Prelude
begin

text \<open>
  The chess engine, \<^verbatim>\<open>src/src/chess.c\<close>.  The 8x8 array is a function of rank and file;
  the coordinates are C ints.  Loops that return early are list searches; the loops that walk
  along a line are recursions with a step budget of eight squares, which a walk over the board
  never uses up.  Functions that change the game return it.
\<close>

datatype TTPieceType =
  TT_PIECE_NONE | TT_PIECE_PAWN | TT_PIECE_ROOK | TT_PIECE_KNIGHT | TT_PIECE_BISHOP | TT_PIECE_QUEEN | TT_PIECE_KING

datatype TTColor = TT_COLOR_WHITE | TT_COLOR_BLACK

record TTPiece =
  pc_type :: TTPieceType
  pc_color :: TTColor

datatype TTChessStatus = TT_CHESS_PLAYING | TT_CHESS_CHECKMATE | TT_CHESS_STALEMATE | TT_CHESS_RESIGNED

type_synonym board = "int \<Rightarrow> int \<Rightarrow> TTPiece"

record TTChess =
  ch_board :: board
  ch_to_move :: TTColor
  ch_white_ks :: bool
  ch_white_qs :: bool
  ch_black_ks :: bool
  ch_black_qs :: bool
  ch_ep_file :: int
  ch_status :: TTChessStatus
  ch_winner :: TTColor

definition no_piece :: TTPiece where
  "no_piece = \<lparr>pc_type = TT_PIECE_NONE, pc_color = TT_COLOR_WHITE\<rparr>"

definition set_sq :: "board \<Rightarrow> int \<Rightarrow> int \<Rightarrow> TTPiece \<Rightarrow> board" where
  "set_sq b r f p = b(r := (b r)(f := p))"

definition set_piece :: "TTChess \<Rightarrow> int \<Rightarrow> int \<Rightarrow> TTPieceType \<Rightarrow> TTColor \<Rightarrow> TTChess" where
  "set_piece g r f ty c = g \<lparr>ch_board := set_sq (ch_board g) r f \<lparr>pc_type = ty, pc_color = c\<rparr>\<rparr>"

definition back_rank :: "TTPieceType list" where
  "back_rank = [TT_PIECE_ROOK, TT_PIECE_KNIGHT, TT_PIECE_BISHOP, TT_PIECE_QUEEN,
                TT_PIECE_KING, TT_PIECE_BISHOP, TT_PIECE_KNIGHT, TT_PIECE_ROOK]"

text \<open>All bytes zero, the state after \<^verbatim>\<open>memset\<close> or \<^verbatim>\<open>calloc\<close>.\<close>

definition chess_zero :: TTChess where
  "chess_zero = \<lparr>ch_board = (\<lambda>_ _. no_piece), ch_to_move = TT_COLOR_WHITE, ch_white_ks = False, ch_white_qs = False,
     ch_black_ks = False, ch_black_qs = False, ch_ep_file = 0, ch_status = TT_CHESS_PLAYING, ch_winner = TT_COLOR_WHITE\<rparr>"

definition tt_chess_init :: TTChess where
  "tt_chess_init =
     (foldl (\<lambda>g f. set_piece (set_piece (set_piece (set_piece g
          0 (int f) (back_rank ! f) TT_COLOR_WHITE)
          1 (int f) TT_PIECE_PAWN TT_COLOR_WHITE)
          6 (int f) TT_PIECE_PAWN TT_COLOR_BLACK)
          7 (int f) (back_rank ! f) TT_COLOR_BLACK)
        (chess_zero \<lparr>ch_ep_file := - 1\<rparr>) [0..<8])
     \<lparr>ch_white_ks := True, ch_white_qs := True, ch_black_ks := True, ch_black_qs := True\<rparr>"

text \<open>A square name is a C string; \<open>(rank, file)\<close> on success.\<close>

definition tt_chess_parse_square :: "bytes \<Rightarrow> (int \<times> int) option" where
  "tt_chess_parse_square s =
     (case s of
        [l, n] \<Rightarrow> if l < 97 \<or> l > 104 \<or> n < 49 \<or> n > 56 then None else Some (uint n - 49, uint l - 97)
      | _ \<Rightarrow> None)"

definition tt_chess_format_square :: "int \<Rightarrow> int \<Rightarrow> bytes" where
  "tt_chess_format_square rank file = [of_int (97 + file), of_int (49 + rank)]"

definition in_bounds :: "int \<Rightarrow> int \<Rightarrow> bool" where
  "in_bounds rank file \<longleftrightarrow> rank \<ge> 0 \<and> rank < 8 \<and> file \<ge> 0 \<and> file < 8"

section \<open>Attacks and check\<close>

definition has_pc :: "board \<Rightarrow> int \<Rightarrow> int \<Rightarrow> TTPieceType \<Rightarrow> TTColor \<Rightarrow> bool" where
  "has_pc b r f ty c \<longleftrightarrow> in_bounds r f \<and> pc_type (b r f) = ty \<and> pc_color (b r f) = c"

definition other_color :: "TTColor \<Rightarrow> TTColor" where
  "other_color c = (if c = TT_COLOR_WHITE then TT_COLOR_BLACK else TT_COLOR_WHITE)"

definition knight_steps :: "(int \<times> int) list" where
  "knight_steps = [(- 2, - 1), (- 2, 1), (2, - 1), (2, 1), (- 1, - 2), (- 1, 2), (1, - 2), (1, 2)]"

definition king_steps :: "(int \<times> int) list" where
  "king_steps = [(- 1, - 1), (- 1, 0), (- 1, 1), (0, - 1), (0, 1), (1, - 1), (1, 0), (1, 1)]"

definition rook_dirs :: "(int \<times> int) list" where
  "rook_dirs = [(1, 0), (- 1, 0), (0, 1), (0, - 1)]"

definition bishop_dirs :: "(int \<times> int) list" where
  "bishop_dirs = [(1, 1), (1, - 1), (- 1, 1), (- 1, - 1)]"

text \<open>Walking from a square in one direction: is the first piece met a slider of the colour?\<close>

fun ray_hit :: "nat \<Rightarrow> board \<Rightarrow> int \<Rightarrow> int \<Rightarrow> int \<Rightarrow> int \<Rightarrow> TTPieceType \<Rightarrow> TTColor \<Rightarrow> bool" where
  "ray_hit 0 b r f dr df slider by_color = False"
| "ray_hit (Suc n) b r f dr df slider by_color =
     (if \<not> in_bounds r f then False
      else if pc_type (b r f) \<noteq> TT_PIECE_NONE
      then pc_color (b r f) = by_color \<and> (pc_type (b r f) = slider \<or> pc_type (b r f) = TT_PIECE_QUEEN)
      else ray_hit n b (r + dr) (f + df) dr df slider by_color)"

definition tt_chess_square_attacked :: "board \<Rightarrow> int \<Rightarrow> int \<Rightarrow> TTColor \<Rightarrow> bool" where
  "tt_chess_square_attacked b rank file by_color \<longleftrightarrow>
     (let pr = (if by_color = TT_COLOR_WHITE then rank - 1 else rank + 1) in
      has_pc b pr (file - 1) TT_PIECE_PAWN by_color \<or>
      has_pc b pr (file + 1) TT_PIECE_PAWN by_color \<or>
      list_ex (\<lambda>(dr, df). has_pc b (rank + dr) (file + df) TT_PIECE_KNIGHT by_color) knight_steps \<or>
      list_ex (\<lambda>(dr, df). has_pc b (rank + dr) (file + df) TT_PIECE_KING by_color) king_steps \<or>
      list_ex (\<lambda>(dr, df). ray_hit 8 b (rank + dr) (file + df) dr df TT_PIECE_ROOK by_color) rook_dirs \<or>
      list_ex (\<lambda>(dr, df). ray_hit 8 b (rank + dr) (file + df) dr df TT_PIECE_BISHOP by_color) bishop_dirs)"

text \<open>The squares in the order of the nested loops.\<close>

definition squares :: "(int \<times> int) list" where
  "squares = concat (map (\<lambda>r. map (\<lambda>f. (r, f)) [0, 1, 2, 3, 4, 5, 6, 7]) [0, 1, 2, 3, 4, 5, 6, 7])"

definition tt_chess_in_check :: "board \<Rightarrow> TTColor \<Rightarrow> bool" where
  "tt_chess_in_check b c =
     (case find (\<lambda>(r, f). pc_type (b r f) = TT_PIECE_KING \<and> pc_color (b r f) = c) squares of
        None \<Rightarrow> False
      | Some (r, f) \<Rightarrow> tt_chess_square_attacked b r f (other_color c))"

definition move_leaves_self_in_check :: "board \<Rightarrow> int \<Rightarrow> int \<Rightarrow> int \<Rightarrow> int \<Rightarrow> bool" where
  "move_leaves_self_in_check b fr ff tr tf =
     (let b1 = set_sq b tr tf (b fr ff); b2 = set_sq b1 fr ff no_piece
      in tt_chess_in_check b2 (pc_color (b2 tr tf)))"

section \<open>Is there a legal move?\<close>

definition is_none :: "board \<Rightarrow> int \<Rightarrow> int \<Rightarrow> bool" where
  "is_none b r f \<longleftrightarrow> pc_type (b r f) = TT_PIECE_NONE"

definition pawn_dir :: "TTColor \<Rightarrow> int" where
  "pawn_dir c = (if c = TT_COLOR_WHITE then 1 else - 1)"

definition pawn_start :: "TTColor \<Rightarrow> int" where
  "pawn_start c = (if c = TT_COLOR_WHITE then 1 else 6)"

definition ep_rank :: "TTColor \<Rightarrow> int" where
  "ep_rank c = (if c = TT_COLOR_WHITE then 5 else 2)"

definition pawn_has_move :: "board \<Rightarrow> int \<Rightarrow> TTColor \<Rightarrow> int \<Rightarrow> int \<Rightarrow> bool" where
  "pawn_has_move b ep c fr ff \<longleftrightarrow>
     (let tr = fr + pawn_dir c; tr2 = fr + 2 * pawn_dir c in
      (in_bounds tr ff \<and> is_none b tr ff \<and>
         (\<not> move_leaves_self_in_check b fr ff tr ff \<or>
          (fr = pawn_start c \<and> is_none b tr2 ff \<and> \<not> move_leaves_self_in_check b fr ff tr2 ff))) \<or>
      list_ex (\<lambda>df. let tf = ff + df in
         in_bounds tr tf \<and>
         (if \<not> is_none b tr tf \<and> pc_color (b tr tf) \<noteq> c then \<not> move_leaves_self_in_check b fr ff tr tf
          else if is_none b tr tf \<and> tf = ep \<and> tr = ep_rank c then \<not> move_leaves_self_in_check b fr ff tr tf
          else False)) [- 1, 1])"

definition step_has_move :: "board \<Rightarrow> TTColor \<Rightarrow> int \<Rightarrow> int \<Rightarrow> (int \<times> int) list \<Rightarrow> bool" where
  "step_has_move b c fr ff steps \<longleftrightarrow>
     list_ex (\<lambda>(dr, df).
       in_bounds (fr + dr) (ff + df) \<and>
       \<not> (\<not> is_none b (fr + dr) (ff + df) \<and> pc_color (b (fr + dr) (ff + df)) = c) \<and>
       \<not> move_leaves_self_in_check b fr ff (fr + dr) (ff + df)) steps"

fun ray_has_move :: "nat \<Rightarrow> board \<Rightarrow> TTColor \<Rightarrow> int \<Rightarrow> int \<Rightarrow> int \<Rightarrow> int \<Rightarrow> int \<Rightarrow> int \<Rightarrow> bool" where
  "ray_has_move 0 b c fr ff tr tf dr df = False"
| "ray_has_move (Suc n) b c fr ff tr tf dr df =
     (if \<not> in_bounds tr tf then False
      else if \<not> is_none b tr tf \<and> pc_color (b tr tf) = c then False
      else if \<not> move_leaves_self_in_check b fr ff tr tf then True
      else if \<not> is_none b tr tf then False
      else ray_has_move n b c fr ff (tr + dr) (tf + df) dr df)"

definition slide_has_move :: "board \<Rightarrow> TTColor \<Rightarrow> int \<Rightarrow> int \<Rightarrow> (int \<times> int) list \<Rightarrow> bool" where
  "slide_has_move b c fr ff dirs \<longleftrightarrow>
     list_ex (\<lambda>(dr, df). ray_has_move 8 b c fr ff (fr + dr) (ff + df) dr df) dirs"

definition piece_has_move :: "board \<Rightarrow> int \<Rightarrow> TTColor \<Rightarrow> int \<Rightarrow> int \<Rightarrow> bool" where
  "piece_has_move b ep c fr ff =
     (if is_none b fr ff \<or> pc_color (b fr ff) \<noteq> c then False
      else case pc_type (b fr ff) of
        TT_PIECE_PAWN \<Rightarrow> pawn_has_move b ep c fr ff
      | TT_PIECE_KNIGHT \<Rightarrow> step_has_move b c fr ff knight_steps
      | TT_PIECE_KING \<Rightarrow> step_has_move b c fr ff king_steps
      | TT_PIECE_ROOK \<Rightarrow> slide_has_move b c fr ff rook_dirs
      | TT_PIECE_BISHOP \<Rightarrow> slide_has_move b c fr ff bishop_dirs
      | TT_PIECE_QUEEN \<Rightarrow> slide_has_move b c fr ff bishop_dirs \<or> slide_has_move b c fr ff rook_dirs
      | TT_PIECE_NONE \<Rightarrow> False)"

definition tt_chess_has_legal_move :: "board \<Rightarrow> int \<Rightarrow> TTColor \<Rightarrow> bool" where
  "tt_chess_has_legal_move b ep c \<longleftrightarrow> list_ex (\<lambda>(fr, ff). piece_has_move b ep c fr ff) squares"

section \<open>Making a move\<close>

text \<open>The squares strictly between the start and the target of a sliding move.\<close>

fun path_clear :: "nat \<Rightarrow> board \<Rightarrow> int \<Rightarrow> int \<Rightarrow> int \<Rightarrow> int \<Rightarrow> int \<Rightarrow> int \<Rightarrow> bool" where
  "path_clear 0 b r f sr sf tr tf = False"
| "path_clear (Suc n) b r f sr sf tr tf =
     (if r = tr \<and> f = tf then True
      else if \<not> is_none b r f then False
      else path_clear n b (r + sr) (f + sf) sr sf tr tf)"

definition pawn_move_ok :: "TTChess \<Rightarrow> int \<Rightarrow> int \<Rightarrow> int \<Rightarrow> int \<Rightarrow> bool" where
  "pawn_move_ok g fr ff tr tf =
     (let b = ch_board g; c = pc_color (b fr ff); dr = tr - fr; df = tf - ff in
      if df = 0 \<and> is_none b tr tf then
        dr = pawn_dir c \<or> (dr = 2 * pawn_dir c \<and> fr = pawn_start c \<and> is_none b (fr + pawn_dir c) ff)
      else if df = 1 \<or> df = - 1 then
        dr = pawn_dir c \<and> (\<not> is_none b tr tf \<or> (tr = ep_rank c \<and> tf = ch_ep_file g))
      else False)"

definition knight_move_ok :: "int \<Rightarrow> int \<Rightarrow> bool" where
  "knight_move_ok dr df \<longleftrightarrow>
     dr = 2 \<and> df = 1 \<or> dr = 2 \<and> df = - 1 \<or> dr = - 2 \<and> df = 1 \<or> dr = - 2 \<and> df = - 1 \<or>
     dr = 1 \<and> df = 2 \<or> dr = 1 \<and> df = - 2 \<or> dr = - 1 \<and> df = 2 \<or> dr = - 1 \<and> df = - 2"

definition ks_right :: "TTChess \<Rightarrow> TTColor \<Rightarrow> bool" where
  "ks_right g c = (if c = TT_COLOR_WHITE then ch_white_ks g else ch_black_ks g)"

definition qs_right :: "TTChess \<Rightarrow> TTColor \<Rightarrow> bool" where
  "qs_right g c = (if c = TT_COLOR_WHITE then ch_white_qs g else ch_black_qs g)"

definition king_move_ok :: "TTChess \<Rightarrow> int \<Rightarrow> int \<Rightarrow> int \<Rightarrow> int \<Rightarrow> bool" where
  "king_move_ok g fr ff tr tf =
     (let b = ch_board g; c = pc_color (b fr ff); dr = tr - fr; df = tf - ff; att = tt_chess_square_attacked b in
      if dr \<ge> - 1 \<and> dr \<le> 1 \<and> df \<ge> - 1 \<and> df \<le> 1 \<and> (dr \<noteq> 0 \<or> df \<noteq> 0) then True
      else if dr = 0 \<and> df = 2 then
        ks_right g c \<and> is_none b fr 5 \<and> is_none b fr 6 \<and>
        pc_type (b fr 7) = TT_PIECE_ROOK \<and> pc_color (b fr 7) = c \<and>
        \<not> att fr 4 (other_color c) \<and> \<not> att fr 5 (other_color c) \<and> \<not> att fr 6 (other_color c)
      else if dr = 0 \<and> df = - 2 then
        qs_right g c \<and> is_none b fr 1 \<and> is_none b fr 2 \<and> is_none b fr 3 \<and>
        pc_type (b fr 0) = TT_PIECE_ROOK \<and> pc_color (b fr 0) = c \<and>
        \<not> att fr 4 (other_color c) \<and> \<not> att fr 3 (other_color c) \<and> \<not> att fr 2 (other_color c)
      else False)"

definition slide_move_ok :: "board \<Rightarrow> int \<Rightarrow> int \<Rightarrow> int \<Rightarrow> int \<Rightarrow> bool" where
  "slide_move_ok b fr ff tr tf =
     (let ty = pc_type (b fr ff); dr = tr - fr; df = tf - ff;
          straight = ((dr = 0) \<noteq> (df = 0));
          diag = (dr \<noteq> 0 \<and> df \<noteq> 0 \<and> (dr = df \<or> dr = - df))
      in (ty = TT_PIECE_ROOK \<and> straight \<or> ty = TT_PIECE_BISHOP \<and> diag \<or> ty = TT_PIECE_QUEEN \<and> (straight \<or> diag))
         \<and> path_clear 8 b (fr + sgn dr) (ff + sgn df) (sgn dr) (sgn df) tr tf)"

definition move_shape_ok :: "TTChess \<Rightarrow> int \<Rightarrow> int \<Rightarrow> int \<Rightarrow> int \<Rightarrow> bool" where
  "move_shape_ok g fr ff tr tf =
     (case pc_type (ch_board g fr ff) of
        TT_PIECE_PAWN \<Rightarrow> pawn_move_ok g fr ff tr tf
      | TT_PIECE_KNIGHT \<Rightarrow> knight_move_ok (tr - fr) (tf - ff)
      | TT_PIECE_KING \<Rightarrow> king_move_ok g fr ff tr tf
      | TT_PIECE_NONE \<Rightarrow> False
      | _ \<Rightarrow> slide_move_ok (ch_board g) fr ff tr tf)"

text \<open>The checks of \<^verbatim>\<open>tt_chess_move\<close> before it changes the game.\<close>

definition move_accepted :: "TTChess \<Rightarrow> int \<Rightarrow> int \<Rightarrow> int \<Rightarrow> int \<Rightarrow> bool" where
  "move_accepted g fr ff tr tf \<longleftrightarrow>
     in_bounds fr ff \<and> in_bounds tr tf \<and>
     \<not> is_none (ch_board g) fr ff \<and> pc_color (ch_board g fr ff) = ch_to_move g \<and>
     \<not> (\<not> is_none (ch_board g) tr tf \<and> pc_color (ch_board g tr tf) = pc_color (ch_board g fr ff)) \<and>
     move_shape_ok g fr ff tr tf"

text \<open>The board after the move: castling rook, en-passant victim, the piece itself, promotion.\<close>

definition moved_board :: "board \<Rightarrow> int \<Rightarrow> int \<Rightarrow> int \<Rightarrow> int \<Rightarrow> board" where
  "moved_board b fr ff tr tf =
     (let p = b fr ff; df = tf - ff;
          b1 = (if pc_type p = TT_PIECE_KING \<and> df = 2 then set_sq (set_sq b fr 5 (b fr 7)) fr 7 no_piece
                else if pc_type p = TT_PIECE_KING \<and> df = - 2 then set_sq (set_sq b fr 3 (b fr 0)) fr 0 no_piece
                else b);
          b2 = (if pc_type p = TT_PIECE_PAWN \<and> df \<noteq> 0 \<and> is_none b tr tf then set_sq b1 fr tf no_piece else b1);
          p' = (if pc_type p = TT_PIECE_PAWN \<and> (tr = 0 \<or> tr = 7) then p \<lparr>pc_type := TT_PIECE_QUEEN\<rparr> else p)
      in set_sq (set_sq b2 tr tf p') fr ff no_piece)"

text \<open>The castling rights after a piece of some type left one corner or was taken on one.\<close>

definition rook_touched :: "TTPieceType \<Rightarrow> int \<Rightarrow> int \<Rightarrow> TTChess \<Rightarrow> TTChess" where
  "rook_touched ty r f g =
     (if ty = TT_PIECE_ROOK then
        g \<lparr>ch_white_qs := ch_white_qs g \<and> \<not> (r = 0 \<and> f = 0),
           ch_white_ks := ch_white_ks g \<and> \<not> (r = 0 \<and> f = 7),
           ch_black_qs := ch_black_qs g \<and> \<not> (r = 7 \<and> f = 0),
           ch_black_ks := ch_black_ks g \<and> \<not> (r = 7 \<and> f = 7)\<rparr>
      else g)"

definition king_moved :: "TTPiece \<Rightarrow> TTChess \<Rightarrow> TTChess" where
  "king_moved p g =
     (if pc_type p = TT_PIECE_KING then
        if pc_color p = TT_COLOR_WHITE then g \<lparr>ch_white_ks := False, ch_white_qs := False\<rparr>
        else g \<lparr>ch_black_ks := False, ch_black_qs := False\<rparr>
      else g)"

definition set_status :: "TTColor \<Rightarrow> TTChess \<Rightarrow> TTChess" where
  "set_status mover g =
     (let other = other_color mover; b = ch_board g in
      if tt_chess_in_check b other then
        if \<not> tt_chess_has_legal_move b (ch_ep_file g) other
        then g \<lparr>ch_status := TT_CHESS_CHECKMATE, ch_winner := mover\<rparr> else g
      else if \<not> tt_chess_has_legal_move b (ch_ep_file g) other then g \<lparr>ch_status := TT_CHESS_STALEMATE\<rparr>
      else g)"

definition apply_move :: "TTChess \<Rightarrow> int \<Rightarrow> int \<Rightarrow> int \<Rightarrow> int \<Rightarrow> TTChess" where
  "apply_move g fr ff tr tf =
     (let p = ch_board g fr ff; t = ch_board g tr tf;
          g1 = g \<lparr>ch_ep_file := (if pc_type p = TT_PIECE_PAWN \<and> tr - fr = 2 * pawn_dir (pc_color p) then ff else - 1),
                  ch_board := moved_board (ch_board g) fr ff tr tf\<rparr>;
          g2 = rook_touched (pc_type t) tr tf (rook_touched (pc_type p) fr ff (king_moved p g1))
      in set_status (pc_color p) (g2 \<lparr>ch_to_move := other_color (ch_to_move g2)\<rparr>))"

definition tt_chess_move :: "TTChess \<Rightarrow> int \<Rightarrow> int \<Rightarrow> int \<Rightarrow> int \<Rightarrow> bool \<times> TTChess" where
  "tt_chess_move g fr ff tr tf =
     (if move_accepted g fr ff tr tf then (True, apply_move g fr ff tr tf) else (False, g))"

end
