(* ===== verification/ChessRules.thy ===== *)
theory ChessRules
  imports Chess
begin

text \<open>
  What the chess engine's loops compute, against the geometry of the game: lines, clear lines,
  attacks; the search for a legal move against the moves \<^verbatim>\<open>tt_chess_move\<close> accepts; the
  invariant of games that are played by it.
\<close>

section \<open>Lines\<close>

definition straight_line :: "int \<Rightarrow> int \<Rightarrow> int \<Rightarrow> int \<Rightarrow> bool" where
  "straight_line r f r' f' \<longleftrightarrow> (r' = r) \<noteq> (f' = f)"

definition diag_line :: "int \<Rightarrow> int \<Rightarrow> int \<Rightarrow> int \<Rightarrow> bool" where
  "diag_line r f r' f' \<longleftrightarrow> r' \<noteq> r \<and> \<bar>r' - r\<bar> = \<bar>f' - f\<bar>"

definition line_dist :: "int \<Rightarrow> int \<Rightarrow> int \<Rightarrow> int \<Rightarrow> int" where
  "line_dist r f r' f' = max \<bar>r' - r\<bar> \<bar>f' - f\<bar>"

definition clear_between :: "board \<Rightarrow> int \<Rightarrow> int \<Rightarrow> int \<Rightarrow> int \<Rightarrow> bool" where
  "clear_between b r f r' f' \<longleftrightarrow>
     (\<forall>j. 0 < j \<and> j < line_dist r f r' f' \<longrightarrow> is_none b (r + j * sgn (r' - r)) (f + j * sgn (f' - f)))"

definition unit_dir :: "int \<Rightarrow> int \<Rightarrow> bool" where
  "unit_dir dr df \<longleftrightarrow> dr \<in> {- 1, 0, 1} \<and> df \<in> {- 1, 0, 1} \<and> (dr \<noteq> 0 \<or> df \<noteq> 0)"

lemma dirs_unit:
  "(dr, df) \<in> set rook_dirs \<longleftrightarrow> unit_dir dr df \<and> (dr = 0 \<or> df = 0)"
  "(dr, df) \<in> set bishop_dirs \<longleftrightarrow> unit_dir dr df \<and> dr \<noteq> 0 \<and> df \<noteq> 0"
  by (auto simp: rook_dirs_def bishop_dirs_def unit_dir_def)

lemma unit_dir_cases:
  assumes "unit_dir dr df"
  obtains "dr = 0" "df = 1" | "dr = 0" "df = - 1" | "dr = 1" "df = 0" | "dr = 1" "df = 1" | "dr = 1" "df = - 1"
    | "dr = - 1" "df = 0" | "dr = - 1" "df = 1" | "dr = - 1" "df = - 1"
  using assms by (auto simp: unit_dir_def)

lemma unit_scaled:
  assumes "unit_dir dr df" "0 < m"
  shows "sgn (m * dr) = dr" "sgn (m * df) = df" "line_dist r f (r + m * dr) (f + m * df) = m"
    "straight_line r f (r + m * dr) (f + m * df) \<longleftrightarrow> dr = 0 \<or> df = 0"
    "diag_line r f (r + m * dr) (f + m * df) \<longleftrightarrow> dr \<noteq> 0 \<and> df \<noteq> 0"
  using assms by (auto simp: line_dist_def straight_line_def diag_line_def elim!: unit_dir_cases)

lemma line_scaled:
  assumes "straight_line r f r' f' \<or> diag_line r f r' f'"
  shows "unit_dir (sgn (r' - r)) (sgn (f' - f))" "0 < line_dist r f r' f'"
    "r' = r + line_dist r f r' f' * sgn (r' - r)" "f' = f + line_dist r f r' f' * sgn (f' - f)"
  using assms by (auto simp: straight_line_def diag_line_def unit_dir_def line_dist_def sgn_if abs_if max_def split: if_splits)

lemma clear_between_scaled:
  assumes "unit_dir dr df" "0 < m"
  shows "clear_between b r f (r + m * dr) (f + m * df) \<longleftrightarrow> (\<forall>j. 0 < j \<and> j < m \<longrightarrow> is_none b (r + j * dr) (f + j * df))"
  using unit_scaled [OF assms] by (simp add: clear_between_def)

lemma clear_between_back:
  assumes "unit_dir dr df" "0 < m"
  shows "clear_between b (r + m * dr) (f + m * df) r f \<longleftrightarrow> (\<forall>j. 0 < j \<and> j < m \<longrightarrow> is_none b (r + j * dr) (f + j * df))"
proof -
  have u: "unit_dir (- dr) (- df)" using assms(1) by (auto simp: unit_dir_def)
  have "clear_between b (r + m * dr) (f + m * df) r f
      \<longleftrightarrow> (\<forall>j. 0 < j \<and> j < m \<longrightarrow> is_none b (r + (m - j) * dr) (f + (m - j) * df))"
    using clear_between_scaled [OF u assms(2), of b "r + m * dr" "f + m * df"] by (simp add: algebra_simps)
  also have "\<dots> \<longleftrightarrow> (\<forall>j. 0 < j \<and> j < m \<longrightarrow> is_none b (r + j * dr) (f + j * df))"
  proof safe
    fix j assume a: "\<forall>j. 0 < j \<and> j < m \<longrightarrow> is_none b (r + (m - j) * dr) (f + (m - j) * df)" "0 < j" "j < m"
    then show "is_none b (r + j * dr) (f + j * df)" using spec [OF a(1), of "m - j"] by simp
  next
    fix j assume a: "\<forall>j. 0 < j \<and> j < m \<longrightarrow> is_none b (r + j * dr) (f + j * df)" "0 < j" "j < m"
    then show "is_none b (r + (m - j) * dr) (f + (m - j) * df)" using spec [OF a(1), of "m - j"] by simp
  qed
  finally show ?thesis .
qed

lemma in_bounds_between:
  assumes "in_bounds r f" "in_bounds (r + m * dr) (f + m * df)" "unit_dir dr df" "0 \<le> j" "j \<le> m"
  shows "in_bounds (r + j * dr) (f + j * df)"
  using assms(3) assms(1,2,4,5) by (cases rule: unit_dir_cases) (auto simp: in_bounds_def)

lemma in_bounds_reach:
  assumes "in_bounds r f" "in_bounds (r + m * dr) (f + m * df)" "unit_dir dr df"
  shows "m \<le> 7"
  using assms(3) assms(1,2) by (cases rule: unit_dir_cases) (auto simp: in_bounds_def)

section \<open>The walks\<close>

text \<open>One step of a walk, in terms of the number of steps still to go.\<close>

lemma ex_Suc: "(\<exists>k<Suc n. P k) \<longleftrightarrow> P 0 \<or> (\<exists>k<n. P (Suc k))"
  by (metis less_Suc_eq_0_disj)

lemma all_Suc: "(\<forall>j<Suc k. P j) \<longleftrightarrow> P 0 \<and> (\<forall>j<k. P (Suc j))"
  by (metis less_Suc_eq_0_disj)

lemma walk_shift: "(r + dr) + int j * dr = r + int (Suc j) * dr"
  by (simp add: algebra_simps)

lemma ray_hit_iff:
  "ray_hit n b r f dr df slider c \<longleftrightarrow>
   (\<exists>k<n. (\<forall>j<Suc k. in_bounds (r + int j * dr) (f + int j * df)) \<and> (\<forall>j<k. is_none b (r + int j * dr) (f + int j * df)) \<and>
     \<not> is_none b (r + int k * dr) (f + int k * df) \<and> pc_color (b (r + int k * dr) (f + int k * df)) = c \<and>
     pc_type (b (r + int k * dr) (f + int k * df)) \<in> {slider, TT_PIECE_QUEEN})"
proof (induction n arbitrary: r f)
  case (Suc n)
  show ?case
    unfolding ray_hit.simps Suc.IH walk_shift ex_Suc by (auto simp: is_none_def all_Suc)
qed simp

lemma ray_has_move_iff:
  "ray_has_move n b c fr ff r f dr df \<longleftrightarrow>
   (\<exists>k<n. (\<forall>j<Suc k. in_bounds (r + int j * dr) (f + int j * df)) \<and> (\<forall>j<k. is_none b (r + int j * dr) (f + int j * df)) \<and>
     (is_none b (r + int k * dr) (f + int k * df) \<or> pc_color (b (r + int k * dr) (f + int k * df)) \<noteq> c) \<and>
     \<not> move_leaves_self_in_check b fr ff (r + int k * dr) (f + int k * df))"
proof (induction n arbitrary: r f)
  case (Suc n)
  show ?case
    unfolding ray_has_move.simps Suc.IH walk_shift ex_Suc by (auto simp: all_Suc)
qed simp

text \<open>A walk of eight steps from a square of the board sees every distance.\<close>

lemma ray_exhaustive:
  assumes "in_bounds r f" "unit_dir dr df"
  shows "(\<exists>k<8. (\<forall>j<Suc k. in_bounds (r + dr + int j * dr) (f + df + int j * df)) \<and>
            (\<forall>j<k. is_none b (r + dr + int j * dr) (f + df + int j * df)) \<and> P (r + dr + int k * dr) (f + df + int k * df))
     \<longleftrightarrow> (\<exists>m>0. in_bounds (r + m * dr) (f + m * df) \<and>
            (\<forall>j. 0 < j \<and> j < m \<longrightarrow> is_none b (r + j * dr) (f + j * df)) \<and> P (r + m * dr) (f + m * df))"
    (is "?L \<longleftrightarrow> ?R")
proof
  assume ?L
  then obtain k where k: "k < 8" "\<forall>j<Suc k. in_bounds (r + int (Suc j) * dr) (f + int (Suc j) * df)"
    "\<forall>j<k. is_none b (r + int (Suc j) * dr) (f + int (Suc j) * df)" "P (r + int (Suc k) * dr) (f + int (Suc k) * df)"
    unfolding walk_shift by blast
  have "is_none b (r + j * dr) (f + j * df)" if "0 < j" "j < int (Suc k)" for j
  proof -
    have "int (Suc (nat j - 1)) = j" "nat j - 1 < k" using that by simp_all
    then show ?thesis using k(3) by metis
  qed
  moreover have "in_bounds (r + int (Suc k) * dr) (f + int (Suc k) * df)" using k(2) by blast
  ultimately show ?R using k(4) by (intro exI [of _ "int (Suc k)"] conjI allI impI) auto
next
  assume ?R
  then obtain m where m: "m > 0" "in_bounds (r + m * dr) (f + m * df)"
    "\<forall>j. 0 < j \<and> j < m \<longrightarrow> is_none b (r + j * dr) (f + j * df)" "P (r + m * dr) (f + m * df)" by blast
  have "m \<le> 7" by (rule in_bounds_reach [OF assms(1) m(2) assms(2)])
  obtain k where k: "m = int (Suc k)" using m(1) by (metis gr0_conv_Suc pos_int_cases)
  have "in_bounds (r + int (Suc j) * dr) (f + int (Suc j) * df)" if "j < Suc k" for j
    using in_bounds_between [OF assms(1) m(2) assms(2)] k that by (simp del: of_nat_Suc)
  moreover have "is_none b (r + int (Suc j) * dr) (f + int (Suc j) * df)" if "j < k" for j
    using m(3) k that by (simp del: of_nat_Suc)
  moreover have "k < 8" using k \<open>m \<le> 7\<close> by simp
  ultimately show ?L unfolding walk_shift
    using m(4) unfolding k by (intro exI [of _ k] conjI allI impI)
qed

lemma all_int_step: "(i :: int) < m \<Longrightarrow> (\<forall>j. i \<le> j \<and> j < m \<longrightarrow> Q j) \<longleftrightarrow> Q i \<and> (\<forall>j. i + 1 \<le> j \<and> j < m \<longrightarrow> Q j)"
proof -
  assume "i < m"
  moreover have "i \<le> j \<longleftrightarrow> j = i \<or> i + 1 \<le> j" for j by auto
  ultimately show ?thesis by metis
qed

lemma path_clear_scaled:
  assumes "unit_dir sr sf" "0 < i" "i \<le> m" "m - i < int n"
  shows "path_clear n b (r + i * sr) (f + i * sf) sr sf (r + m * sr) (f + m * sf)
     \<longleftrightarrow> (\<forall>j. i \<le> j \<and> j < m \<longrightarrow> is_none b (r + j * sr) (f + j * sf))"
  using assms(2-4)
proof (induction n arbitrary: i)
  case (Suc n)
  have at: "r + i * sr = r + m * sr \<and> f + i * sf = f + m * sf \<longleftrightarrow> i = m"
    using assms(1) by (auto simp: unit_dir_def)
  show ?case
  proof (cases "i = m")
    case True
    then show ?thesis by auto
  next
    case False
    have nx: "r + i * sr + sr = r + (i + 1) * sr" "f + i * sf + sf = f + (i + 1) * sf" by (simp_all add: algebra_simps)
    have "path_clear (Suc n) b (r + i * sr) (f + i * sf) sr sf (r + m * sr) (f + m * sf) \<longleftrightarrow>
        is_none b (r + i * sr) (f + i * sf) \<and> (\<forall>j. i + 1 \<le> j \<and> j < m \<longrightarrow> is_none b (r + j * sr) (f + j * sf))"
      unfolding path_clear.simps at nx using Suc.IH [of "i + 1"] Suc.prems False by auto
    also have "\<dots> \<longleftrightarrow> (\<forall>j. i \<le> j \<and> j < m \<longrightarrow> is_none b (r + j * sr) (f + j * sf))"
      using all_int_step [of i m] False Suc.prems by simp
    finally show ?thesis .
  qed
qed simp

lemma path_clear_iff:
  assumes "in_bounds r f" "in_bounds r' f'" "straight_line r f r' f' \<or> diag_line r f r' f'"
  shows "path_clear 8 b (r + sgn (r' - r)) (f + sgn (f' - f)) (sgn (r' - r)) (sgn (f' - f)) r' f' \<longleftrightarrow> clear_between b r f r' f'"
proof -
  let ?m = "line_dist r f r' f'" and ?sr = "sgn (r' - r)" and ?sf = "sgn (f' - f)"
  note l = line_scaled [OF assms(3)]
  have "?m \<le> 7" using assms(1,2) by (auto simp: line_dist_def in_bounds_def)
  then have "path_clear 8 b (r + 1 * ?sr) (f + 1 * ?sf) ?sr ?sf (r + ?m * ?sr) (f + ?m * ?sf)
     \<longleftrightarrow> (\<forall>j. 1 \<le> j \<and> j < ?m \<longrightarrow> is_none b (r + j * ?sr) (f + j * ?sf))"
    using l(1,2) by (intro path_clear_scaled) auto
  then show ?thesis unfolding l(3) [symmetric] l(4) [symmetric] by (auto simp: clear_between_def)
qed

lemma line_sym:
  "straight_line r f r' f' \<longleftrightarrow> straight_line r' f' r f" "diag_line r f r' f' \<longleftrightarrow> diag_line r' f' r f"
  by (auto simp: straight_line_def diag_line_def abs_minus_commute)

lemma clear_between_sym:
  assumes "straight_line r f r' f' \<or> diag_line r f r' f'"
  shows "clear_between b r f r' f' \<longleftrightarrow> clear_between b r' f' r f"
proof -
  note l = line_scaled [OF assms]
  show ?thesis
    using clear_between_scaled [OF l(1,2), of b r f] clear_between_back [OF l(1,2), of b r f]
    unfolding l(3) [symmetric] l(4) [symmetric] by simp
qed

text \<open>Walking in all directions of a kind from a square reaches the squares on clear lines of that kind.\<close>

lemma walk_lines:
  assumes "\<And>dr df. (dr, df) \<in> set dirs \<longleftrightarrow> unit_dir dr df \<and> K dr df"
    and "\<And>r' f'. line r f r' f' \<Longrightarrow> straight_line r f r' f' \<or> diag_line r f r' f'"
    and "\<And>dr df m. unit_dir dr df \<Longrightarrow> 0 < m \<Longrightarrow> line r f (r + m * dr) (f + m * df) \<longleftrightarrow> K dr df"
  shows "(\<exists>(dr, df)\<in>set dirs. \<exists>m>0. in_bounds (r + m * dr) (f + m * df) \<and>
            (\<forall>j. 0 < j \<and> j < m \<longrightarrow> is_none b (r + j * dr) (f + j * df)) \<and> P (r + m * dr) (f + m * df))
     \<longleftrightarrow> (\<exists>r' f'. in_bounds r' f' \<and> line r f r' f' \<and> clear_between b r f r' f' \<and> P r' f')" (is "?L \<longleftrightarrow> ?R")
proof
  assume ?L
  then obtain dr df m where d: "(dr, df) \<in> set dirs" "m > 0" "in_bounds (r + m * dr) (f + m * df)"
    "\<forall>j. 0 < j \<and> j < m \<longrightarrow> is_none b (r + j * dr) (f + j * df)" "P (r + m * dr) (f + m * df)" by auto
  then have "unit_dir dr df" "K dr df" using assms(1) by auto
  then show ?R using d assms(3) clear_between_scaled [of dr df m b r f] by blast
next
  assume ?R
  then obtain r' f' where r: "in_bounds r' f'" "line r f r' f'" "clear_between b r f r' f'" "P r' f'" by blast
  let ?m = "line_dist r f r' f'" and ?dr = "sgn (r' - r)" and ?df = "sgn (f' - f)"
  note l = line_scaled [OF assms(2) [OF r(2)]]
  have "(?dr, ?df) \<in> set dirs"
    using assms(1) assms(3) [OF l(1,2)] r(2) l(1) unfolding l(3) [symmetric] l(4) [symmetric] by blast
  moreover have "\<forall>j. 0 < j \<and> j < ?m \<longrightarrow> is_none b (r + j * ?dr) (f + j * ?df)"
    using r(3) by (simp add: clear_between_def)
  ultimately show ?L
    using r(1,4) l(2) l(3) [symmetric] l(4) [symmetric]
    by (intro bexI [of _ "(?dr, ?df)"]) (simp, intro exI [of _ ?m], simp_all)
qed

lemma walk_rook:
  "(\<exists>(dr, df)\<in>set rook_dirs. \<exists>m>0. in_bounds (r + m * dr) (f + m * df) \<and>
      (\<forall>j. 0 < j \<and> j < m \<longrightarrow> is_none b (r + j * dr) (f + j * df)) \<and> P (r + m * dr) (f + m * df))
   \<longleftrightarrow> (\<exists>r' f'. in_bounds r' f' \<and> straight_line r f r' f' \<and> clear_between b r f r' f' \<and> P r' f')"
  by (rule walk_lines [where K = "\<lambda>dr df. dr = 0 \<or> df = 0"]) (use dirs_unit unit_scaled in auto)

lemma walk_bishop:
  "(\<exists>(dr, df)\<in>set bishop_dirs. \<exists>m>0. in_bounds (r + m * dr) (f + m * df) \<and>
      (\<forall>j. 0 < j \<and> j < m \<longrightarrow> is_none b (r + j * dr) (f + j * df)) \<and> P (r + m * dr) (f + m * df))
   \<longleftrightarrow> (\<exists>r' f'. in_bounds r' f' \<and> diag_line r f r' f' \<and> clear_between b r f r' f' \<and> P r' f')"
  by (rule walk_lines [where K = "\<lambda>dr df. dr \<noteq> 0 \<and> df \<noteq> 0"]) (use dirs_unit unit_scaled in auto)

section \<open>Attacks\<close>

text \<open>The piece on \<open>(r, f)\<close> attacks the square \<open>(r', f')\<close>, by the rules of the game.\<close>

definition attacks :: "board \<Rightarrow> int \<Rightarrow> int \<Rightarrow> int \<Rightarrow> int \<Rightarrow> bool" where
  "attacks b r f r' f' =
     (let straight = straight_line r f r' f' \<and> clear_between b r f r' f';
          diag = diag_line r f r' f' \<and> clear_between b r f r' f'
      in case pc_type (b r f) of
        TT_PIECE_NONE \<Rightarrow> False
      | TT_PIECE_PAWN \<Rightarrow> r' = r + pawn_dir (pc_color (b r f)) \<and> \<bar>f' - f\<bar> = 1
      | TT_PIECE_KNIGHT \<Rightarrow> \<bar>r' - r\<bar> = 1 \<and> \<bar>f' - f\<bar> = 2 \<or> \<bar>r' - r\<bar> = 2 \<and> \<bar>f' - f\<bar> = 1
      | TT_PIECE_KING \<Rightarrow> line_dist r f r' f' = 1
      | TT_PIECE_ROOK \<Rightarrow> straight
      | TT_PIECE_BISHOP \<Rightarrow> diag
      | TT_PIECE_QUEEN \<Rightarrow> straight \<or> diag)"

lemma list_ex_ray:
  assumes "in_bounds r f" "\<And>dr df. (dr, df) \<in> set dirs \<Longrightarrow> unit_dir dr df"
  shows "list_ex (\<lambda>(dr, df). ray_hit 8 b (r + dr) (f + df) dr df slider c) dirs \<longleftrightarrow>
    (\<exists>(dr, df)\<in>set dirs. \<exists>m>0. in_bounds (r + m * dr) (f + m * df) \<and>
       (\<forall>j. 0 < j \<and> j < m \<longrightarrow> is_none b (r + j * dr) (f + j * df)) \<and>
       (\<not> is_none b (r + m * dr) (f + m * df) \<and> pc_color (b (r + m * dr) (f + m * df)) = c \<and>
        pc_type (b (r + m * dr) (f + m * df)) \<in> {slider, TT_PIECE_QUEEN}))"
  unfolding list_ex_iff
  using ray_exhaustive [OF assms(1) assms(2), where b = b and
      P = "\<lambda>r f. \<not> is_none b r f \<and> pc_color (b r f) = c \<and> pc_type (b r f) \<in> {slider, TT_PIECE_QUEEN}"]
  by (intro bex_cong refl) (auto simp: ray_hit_iff split: prod.splits)

lemma abs_step: "\<bar>x - y\<bar> = (1 :: int) \<longleftrightarrow> y = - 1 + x \<or> y = 1 + x" "\<bar>x - y\<bar> = (2 :: int) \<longleftrightarrow> y = - 2 + x \<or> y = 2 + x"
  "\<bar>x - y\<bar> \<le> (1 :: int) \<longleftrightarrow> y = - 1 + x \<or> y = x \<or> y = 1 + x"
  by auto

lemma line_dist_1: "line_dist r f r' f' = 1 \<longleftrightarrow> \<bar>r' - r\<bar> \<le> 1 \<and> \<bar>f' - f\<bar> \<le> 1 \<and> (r \<noteq> r' \<or> f \<noteq> f')"
  by (auto simp: line_dist_def max_def)

lemma list_ex_steps:
  fixes r f :: int
  shows "list_ex (\<lambda>(dr, df). P (r + dr) (f + df)) xs \<longleftrightarrow> (\<exists>r' f'. (r' - r, f' - f) \<in> set xs \<and> P r' f')"
proof
  assume "list_ex (\<lambda>(dr, df). P (r + dr) (f + df)) xs"
  then obtain dr df where "(dr, df) \<in> set xs" "P (r + dr) (f + df)" by (auto simp: list_ex_iff)
  then show "\<exists>r' f'. (r' - r, f' - f) \<in> set xs \<and> P r' f'"
    by (intro exI [of _ "r + dr"] exI [of _ "f + df"]) simp
next
  assume "\<exists>r' f'. (r' - r, f' - f) \<in> set xs \<and> P r' f'"
  then obtain r' f' where "(r' - r, f' - f) \<in> set xs" "P r' f'" by blast
  then show "list_ex (\<lambda>(dr, df). P (r + dr) (f + df)) xs"
    unfolding list_ex_iff by (intro bexI [of _ "(r' - r, f' - f)"]) simp_all
qed

text \<open>The squares from which a piece of a type attacks.\<close>

definition attacker :: "board \<Rightarrow> TTColor \<Rightarrow> TTPieceType set \<Rightarrow> int \<Rightarrow> int \<Rightarrow> bool" where
  "attacker b c types r f \<longleftrightarrow>
     (\<exists>r' f'. in_bounds r' f' \<and> pc_color (b r' f') = c \<and> pc_type (b r' f') \<in> types \<and> attacks b r' f' r f)"

lemma pawn_attack_iff:
  "(let pr = (if c = TT_COLOR_WHITE then r - 1 else r + 1) in
     has_pc b pr (f - 1) TT_PIECE_PAWN c \<or> has_pc b pr (f + 1) TT_PIECE_PAWN c) \<longleftrightarrow> attacker b c {TT_PIECE_PAWN} r f"
proof -
  have k: "attacks b r' f' r f \<longleftrightarrow> r' = (if c = TT_COLOR_WHITE then r - 1 else r + 1) \<and> (f' = f - 1 \<or> f' = f + 1)"
    if "pc_type (b r' f') = TT_PIECE_PAWN" "pc_color (b r' f') = c" for r' f'
    using that by (auto simp: attacks_def pawn_dir_def abs_step)
  have "attacker b c {TT_PIECE_PAWN} r f \<longleftrightarrow>
      (\<exists>r' f'. in_bounds r' f' \<and> pc_color (b r' f') = c \<and> pc_type (b r' f') = TT_PIECE_PAWN \<and>
         r' = (if c = TT_COLOR_WHITE then r - 1 else r + 1) \<and> (f' = f - 1 \<or> f' = f + 1))"
    unfolding attacker_def using k by blast
  then show ?thesis by (auto simp: has_pc_def Let_def)
qed

lemma knight_attack_iff:
  "list_ex (\<lambda>(dr, df). has_pc b (r + dr) (f + df) TT_PIECE_KNIGHT c) knight_steps \<longleftrightarrow> attacker b c {TT_PIECE_KNIGHT} r f"
proof -
  have "attacks b r' f' r f \<longleftrightarrow> (r' - r, f' - f) \<in> set knight_steps" if "pc_type (b r' f') = TT_PIECE_KNIGHT" for r' f'
    using that by (auto simp: attacks_def knight_steps_def abs_step diff_eq_eq)
  then show ?thesis
    using list_ex_steps [of "\<lambda>r' f'. has_pc b r' f' TT_PIECE_KNIGHT c" r f]
    unfolding attacker_def has_pc_def by blast
qed

lemma king_attack_iff:
  "list_ex (\<lambda>(dr, df). has_pc b (r + dr) (f + df) TT_PIECE_KING c) king_steps \<longleftrightarrow> attacker b c {TT_PIECE_KING} r f"
proof -
  have "attacks b r' f' r f \<longleftrightarrow> (r' - r, f' - f) \<in> set king_steps" if "pc_type (b r' f') = TT_PIECE_KING" for r' f'
    using that by (auto simp: attacks_def king_steps_def line_dist_1 abs_step diff_eq_eq)
  then show ?thesis
    using list_ex_steps [of "\<lambda>r' f'. has_pc b r' f' TT_PIECE_KING c" r f]
    unfolding attacker_def has_pc_def by blast
qed

lemma line_attack_iff:
  assumes "in_bounds r f"
  shows "list_ex (\<lambda>(dr, df). ray_hit 8 b (r + dr) (f + df) dr df TT_PIECE_ROOK c) rook_dirs \<or>
     list_ex (\<lambda>(dr, df). ray_hit 8 b (r + dr) (f + df) dr df TT_PIECE_BISHOP c) bishop_dirs
   \<longleftrightarrow> attacker b c {TT_PIECE_ROOK, TT_PIECE_BISHOP, TT_PIECE_QUEEN} r f"
proof -
  have "list_ex (\<lambda>(dr, df). ray_hit 8 b (r + dr) (f + df) dr df TT_PIECE_ROOK c) rook_dirs \<longleftrightarrow>
    (\<exists>r' f'. in_bounds r' f' \<and> straight_line r f r' f' \<and> clear_between b r f r' f' \<and> \<not> is_none b r' f' \<and>
       pc_color (b r' f') = c \<and> pc_type (b r' f') \<in> {TT_PIECE_ROOK, TT_PIECE_QUEEN})"
    by (subst list_ex_ray [OF assms]) (simp add: dirs_unit, rule walk_rook)
  moreover have "list_ex (\<lambda>(dr, df). ray_hit 8 b (r + dr) (f + df) dr df TT_PIECE_BISHOP c) bishop_dirs \<longleftrightarrow>
    (\<exists>r' f'. in_bounds r' f' \<and> diag_line r f r' f' \<and> clear_between b r f r' f' \<and> \<not> is_none b r' f' \<and>
       pc_color (b r' f') = c \<and> pc_type (b r' f') \<in> {TT_PIECE_BISHOP, TT_PIECE_QUEEN})"
    by (subst list_ex_ray [OF assms]) (simp add: dirs_unit, rule walk_bishop)
  moreover have "attacks b r' f' r f \<longleftrightarrow> clear_between b r f r' f' \<and> \<not> is_none b r' f' \<and>
      (straight_line r f r' f' \<and> pc_type (b r' f') \<in> {TT_PIECE_ROOK, TT_PIECE_QUEEN} \<or>
       diag_line r f r' f' \<and> pc_type (b r' f') \<in> {TT_PIECE_BISHOP, TT_PIECE_QUEEN})"
    if "pc_type (b r' f') \<in> {TT_PIECE_ROOK, TT_PIECE_BISHOP, TT_PIECE_QUEEN}" for r' f'
    using that clear_between_sym [of r f r' f' b] line_sym [of r f r' f'] by (auto simp: attacks_def is_none_def)
  ultimately show ?thesis unfolding attacker_def by blast
qed

text \<open>The attack scan is right.  For every board and every square on it, the scan outward from the square
  (pawns, knights, king, then the eight rays up to the first piece) answers true exactly when some piece of
  the colour stands on the board and attacks the square by the rules, lines being clear in between.\<close>

theorem square_attacked_iff:
  assumes "in_bounds r f"
  shows "tt_chess_square_attacked b r f c \<longleftrightarrow>
    (\<exists>r' f'. in_bounds r' f' \<and> pc_color (b r' f') = c \<and> attacks b r' f' r f)"
proof -
  have "pc_type (b r' f') \<in> {TT_PIECE_PAWN} \<or> pc_type (b r' f') \<in> {TT_PIECE_KNIGHT} \<or> pc_type (b r' f') \<in> {TT_PIECE_KING}
      \<or> pc_type (b r' f') \<in> {TT_PIECE_ROOK, TT_PIECE_BISHOP, TT_PIECE_QUEEN}" if "attacks b r' f' r f" for r' f'
    using that by (cases "pc_type (b r' f')") (simp_all add: attacks_def)
  then have "(\<exists>r' f'. in_bounds r' f' \<and> pc_color (b r' f') = c \<and> attacks b r' f' r f) \<longleftrightarrow>
    attacker b c {TT_PIECE_PAWN} r f \<or> attacker b c {TT_PIECE_KNIGHT} r f \<or> attacker b c {TT_PIECE_KING} r f \<or>
    attacker b c {TT_PIECE_ROOK, TT_PIECE_BISHOP, TT_PIECE_QUEEN} r f"
    unfolding attacker_def by blast
  then show ?thesis
    unfolding tt_chess_square_attacked_def Let_def
    using pawn_attack_iff [of c r b f] knight_attack_iff [of b r f c] king_attack_iff [of b r f c] line_attack_iff [OF assms, of b c]
    unfolding Let_def by argo
qed

theorem square_attacked_iff_witness:
  "\<not> tt_chess_square_attacked (\<lambda>_ _. no_piece) 3 4 TT_COLOR_WHITE"
  using square_attacked_iff [of 3 4 "\<lambda>_ _. no_piece" TT_COLOR_WHITE]
  by (simp add: in_bounds_def attacks_def no_piece_def)

section \<open>Legal moves\<close>

text \<open>A move that is accepted for a piece of the side to move, castling apart.\<close>

definition plain_target :: "TTChess \<Rightarrow> int \<Rightarrow> int \<Rightarrow> int \<Rightarrow> int \<Rightarrow> bool" where
  "plain_target g fr ff tr tf \<longleftrightarrow>
     in_bounds tr tf \<and> (is_none (ch_board g) tr tf \<or> pc_color (ch_board g tr tf) \<noteq> pc_color (ch_board g fr ff)) \<and>
     move_shape_ok g fr ff tr tf \<and> \<not> (pc_type (ch_board g fr ff) = TT_PIECE_KING \<and> \<bar>tf - ff\<bar> = 2)"

lemma step_has_move_iff:
  assumes "\<And>tr tf. move_shape_ok g fr ff tr tf \<and> \<not> (pc_type (ch_board g fr ff) = TT_PIECE_KING \<and> \<bar>tf - ff\<bar> = 2)
      \<longleftrightarrow> (tr - fr, tf - ff) \<in> set steps"
  shows "step_has_move (ch_board g) (pc_color (ch_board g fr ff)) fr ff steps
    \<longleftrightarrow> (\<exists>tr tf. plain_target g fr ff tr tf \<and> \<not> move_leaves_self_in_check (ch_board g) fr ff tr tf)"
  unfolding step_has_move_def plain_target_def
  using list_ex_steps [of "\<lambda>tr tf. in_bounds tr tf \<and>
       \<not> (\<not> is_none (ch_board g) tr tf \<and> pc_color (ch_board g tr tf) = pc_color (ch_board g fr ff)) \<and>
       \<not> move_leaves_self_in_check (ch_board g) fr ff tr tf" fr ff steps] assms
  by blast

lemma knight_has_move_iff:
  assumes "pc_type (ch_board g fr ff) = TT_PIECE_KNIGHT"
  shows "step_has_move (ch_board g) (pc_color (ch_board g fr ff)) fr ff knight_steps
    \<longleftrightarrow> (\<exists>tr tf. plain_target g fr ff tr tf \<and> \<not> move_leaves_self_in_check (ch_board g) fr ff tr tf)"
  by (rule step_has_move_iff) (use assms in \<open>auto simp: move_shape_ok_def knight_move_ok_def knight_steps_def\<close>)

lemma king_has_move_iff:
  assumes "pc_type (ch_board g fr ff) = TT_PIECE_KING"
  shows "step_has_move (ch_board g) (pc_color (ch_board g fr ff)) fr ff king_steps
    \<longleftrightarrow> (\<exists>tr tf. plain_target g fr ff tr tf \<and> \<not> move_leaves_self_in_check (ch_board g) fr ff tr tf)"
proof (rule step_has_move_iff)
  fix tr tf
  have u: "x \<ge> - 1 \<and> x \<le> 1 \<longleftrightarrow> x = - 1 \<or> x = 0 \<or> x = 1" for x :: int by arith
  have "(dr, df) \<in> set king_steps \<longleftrightarrow> (dr \<ge> - 1 \<and> dr \<le> 1) \<and> (df \<ge> - 1 \<and> df \<le> 1) \<and> (dr \<noteq> 0 \<or> df \<noteq> 0)" for dr df
    unfolding u by (auto simp: king_steps_def)
  then have k: "(dr, df) \<in> set king_steps \<longleftrightarrow> dr \<ge> - 1 \<and> dr \<le> 1 \<and> df \<ge> - 1 \<and> df \<le> 1 \<and> (dr \<noteq> 0 \<or> df \<noteq> 0)" for dr df
    by (simp only: conj_assoc)
  have in_steps: "king_move_ok g fr ff tr tf \<and> \<not> \<bar>tf - ff\<bar> = 2" if "(tr - fr, tf - ff) \<in> set king_steps"
    using that unfolding k king_move_ok_def Let_def by auto
  have off: "\<not> king_move_ok g fr ff tr tf" if "(tr - fr, tf - ff) \<notin> set king_steps" "\<not> \<bar>tf - ff\<bar> = 2"
  proof -
    have "tf - ff \<noteq> 2" "tf - ff \<noteq> - 2" using that(2) by auto
    then show ?thesis using that(1) unfolding k king_move_ok_def Let_def by (simp only: if_False simp_thms)
  qed
  show "move_shape_ok g fr ff tr tf \<and> \<not> (pc_type (ch_board g fr ff) = TT_PIECE_KING \<and> \<bar>tf - ff\<bar> = 2)
      \<longleftrightarrow> (tr - fr, tf - ff) \<in> set king_steps"
    using in_steps off assms unfolding move_shape_ok_def by (simp only: TTPieceType.case) blast
qed

lemma slide_has_move_iff:
  assumes "in_bounds fr ff" "\<And>dr df. (dr, df) \<in> set dirs \<Longrightarrow> unit_dir dr df"
  shows "slide_has_move b c fr ff dirs \<longleftrightarrow>
    (\<exists>(dr, df)\<in>set dirs. \<exists>m>0. in_bounds (fr + m * dr) (ff + m * df) \<and>
       (\<forall>j. 0 < j \<and> j < m \<longrightarrow> is_none b (fr + j * dr) (ff + j * df)) \<and>
       ((is_none b (fr + m * dr) (ff + m * df) \<or> pc_color (b (fr + m * dr) (ff + m * df)) \<noteq> c) \<and>
        \<not> move_leaves_self_in_check b fr ff (fr + m * dr) (ff + m * df)))"
  unfolding slide_has_move_def list_ex_iff
  using ray_exhaustive [OF assms(1) assms(2), where b = b and
      P = "\<lambda>r f. (is_none b r f \<or> pc_color (b r f) \<noteq> c) \<and> \<not> move_leaves_self_in_check b fr ff r f"]
  by (intro bex_cong refl) (auto simp: ray_has_move_iff split: prod.splits)

lemma slide_shape_iff:
  assumes "in_bounds fr ff" "in_bounds tr tf"
  shows "slide_move_ok b fr ff tr tf \<longleftrightarrow>
    clear_between b fr ff tr tf \<and>
    (pc_type (b fr ff) \<in> {TT_PIECE_ROOK, TT_PIECE_QUEEN} \<and> straight_line fr ff tr tf \<or>
     pc_type (b fr ff) \<in> {TT_PIECE_BISHOP, TT_PIECE_QUEEN} \<and> diag_line fr ff tr tf)"
proof -
  have s: "((tr - fr = 0) \<noteq> (tf - ff = 0)) \<longleftrightarrow> straight_line fr ff tr tf" by (auto simp: straight_line_def)
  have d: "(tr - fr \<noteq> 0 \<and> tf - ff \<noteq> 0 \<and> (tr - fr = tf - ff \<or> tr - fr = - (tf - ff))) \<longleftrightarrow> diag_line fr ff tr tf"
    by (auto simp: diag_line_def abs_if)
  show ?thesis
    unfolding slide_move_ok_def Let_def s d using path_clear_iff [OF assms, of b] by auto
qed

lemma slider_has_move_iff:
  assumes "in_bounds fr ff" "b = ch_board g" "c = pc_color (b fr ff)"
  shows "pc_type (b fr ff) = TT_PIECE_ROOK \<Longrightarrow> slide_has_move b c fr ff rook_dirs
      \<longleftrightarrow> (\<exists>tr tf. plain_target g fr ff tr tf \<and> \<not> move_leaves_self_in_check b fr ff tr tf)"
    and "pc_type (b fr ff) = TT_PIECE_BISHOP \<Longrightarrow> slide_has_move b c fr ff bishop_dirs
      \<longleftrightarrow> (\<exists>tr tf. plain_target g fr ff tr tf \<and> \<not> move_leaves_self_in_check b fr ff tr tf)"
    and "pc_type (b fr ff) = TT_PIECE_QUEEN \<Longrightarrow> slide_has_move b c fr ff bishop_dirs \<or> slide_has_move b c fr ff rook_dirs
      \<longleftrightarrow> (\<exists>tr tf. plain_target g fr ff tr tf \<and> \<not> move_leaves_self_in_check b fr ff tr tf)"
proof -
  have r: "slide_has_move b c fr ff rook_dirs \<longleftrightarrow> (\<exists>tr tf. in_bounds tr tf \<and> straight_line fr ff tr tf \<and> clear_between b fr ff tr tf \<and>
      (is_none b tr tf \<or> pc_color (b tr tf) \<noteq> c) \<and> \<not> move_leaves_self_in_check b fr ff tr tf)"
    by (subst slide_has_move_iff [OF assms(1)]) (simp add: dirs_unit, rule walk_rook)
  have s: "slide_has_move b c fr ff bishop_dirs \<longleftrightarrow> (\<exists>tr tf. in_bounds tr tf \<and> diag_line fr ff tr tf \<and> clear_between b fr ff tr tf \<and>
      (is_none b tr tf \<or> pc_color (b tr tf) \<noteq> c) \<and> \<not> move_leaves_self_in_check b fr ff tr tf)"
    by (subst slide_has_move_iff [OF assms(1)]) (simp add: dirs_unit, rule walk_bishop)
  have t: "plain_target g fr ff tr tf \<longleftrightarrow> in_bounds tr tf \<and> (is_none b tr tf \<or> pc_color (b tr tf) \<noteq> c) \<and>
      clear_between b fr ff tr tf \<and>
      (pc_type (b fr ff) \<in> {TT_PIECE_ROOK, TT_PIECE_QUEEN} \<and> straight_line fr ff tr tf \<or>
       pc_type (b fr ff) \<in> {TT_PIECE_BISHOP, TT_PIECE_QUEEN} \<and> diag_line fr ff tr tf)"
    if "pc_type (b fr ff) \<in> {TT_PIECE_ROOK, TT_PIECE_BISHOP, TT_PIECE_QUEEN}" for tr tf
    using that slide_shape_iff [OF assms(1), of tr tf b] assms(2,3) by (auto simp: plain_target_def move_shape_ok_def)
  show "pc_type (b fr ff) = TT_PIECE_ROOK \<Longrightarrow> slide_has_move b c fr ff rook_dirs
      \<longleftrightarrow> (\<exists>tr tf. plain_target g fr ff tr tf \<and> \<not> move_leaves_self_in_check b fr ff tr tf)"
    "pc_type (b fr ff) = TT_PIECE_BISHOP \<Longrightarrow> slide_has_move b c fr ff bishop_dirs
      \<longleftrightarrow> (\<exists>tr tf. plain_target g fr ff tr tf \<and> \<not> move_leaves_self_in_check b fr ff tr tf)"
    "pc_type (b fr ff) = TT_PIECE_QUEEN \<Longrightarrow> slide_has_move b c fr ff bishop_dirs \<or> slide_has_move b c fr ff rook_dirs
      \<longleftrightarrow> (\<exists>tr tf. plain_target g fr ff tr tf \<and> \<not> move_leaves_self_in_check b fr ff tr tf)"
    unfolding r s by (simp add: t, blast)+
qed

lemma pawn_has_move_iff:
  assumes "in_bounds fr ff" "pc_type (ch_board g fr ff) = TT_PIECE_PAWN" "c = pc_color (ch_board g fr ff)"
  shows "pawn_has_move (ch_board g) (ch_ep_file g) c fr ff
    \<longleftrightarrow> (\<exists>tr tf. plain_target g fr ff tr tf \<and> \<not> move_leaves_self_in_check (ch_board g) fr ff tr tf)"
proof -
  let ?b = "ch_board g" and ?d = "pawn_dir c"
  let ?ok = "\<lambda>tr tf. \<not> move_leaves_self_in_check ?b fr ff tr tf"
  have start: "fr = pawn_start c \<Longrightarrow> in_bounds (fr + ?d) ff \<and> in_bounds (fr + 2 * ?d) ff"
    using assms(1) by (auto simp: in_bounds_def pawn_dir_def pawn_start_def)
  have d0: "?d \<noteq> 0" "?d \<noteq> 2 * ?d" by (auto simp: pawn_dir_def)
  have t: "plain_target g fr ff tr tf \<longleftrightarrow> in_bounds tr tf \<and>
      (tf = ff \<and> is_none ?b tr tf \<and> (tr = fr + ?d \<or> tr = fr + 2 * ?d \<and> fr = pawn_start c \<and> is_none ?b (fr + ?d) ff) \<or>
       (tf = ff + 1 \<or> tf = ff - 1) \<and> tr = fr + ?d \<and>
         (\<not> is_none ?b tr tf \<and> pc_color (?b tr tf) \<noteq> c \<or> is_none ?b tr tf \<and> tr = ep_rank c \<and> tf = ch_ep_file g))" for tr tf
    using assms(2,3) by (auto simp: plain_target_def move_shape_ok_def pawn_move_ok_def Let_def)
  have p: "pawn_has_move ?b (ch_ep_file g) c fr ff \<longleftrightarrow>
      (in_bounds (fr + ?d) ff \<and> is_none ?b (fr + ?d) ff \<and> ?ok (fr + ?d) ff) \<or>
      (in_bounds (fr + 2 * ?d) ff \<and> is_none ?b (fr + ?d) ff \<and> fr = pawn_start c \<and> is_none ?b (fr + 2 * ?d) ff \<and> ?ok (fr + 2 * ?d) ff) \<or>
      (\<exists>tf. (tf = ff + 1 \<or> tf = ff - 1) \<and> in_bounds (fr + ?d) tf \<and>
        (\<not> is_none ?b (fr + ?d) tf \<and> pc_color (?b (fr + ?d) tf) \<noteq> c \<or> is_none ?b (fr + ?d) tf \<and> fr + ?d = ep_rank c \<and> tf = ch_ep_file g)
        \<and> ?ok (fr + ?d) tf)"
  proof -
    have "list_ex (\<lambda>df. Q (ff + df)) [- 1, 1] \<longleftrightarrow> (\<exists>tf. (tf = ff + 1 \<or> tf = ff - 1) \<and> Q tf)" for Q
      by auto
    note s = this [of "\<lambda>tf. in_bounds (fr + ?d) tf \<and>
         (if \<not> is_none ?b (fr + ?d) tf \<and> pc_color (?b (fr + ?d) tf) \<noteq> c then ?ok (fr + ?d) tf
          else if is_none ?b (fr + ?d) tf \<and> tf = ch_ep_file g \<and> fr + ?d = ep_rank c then ?ok (fr + ?d) tf else False)"]
    show ?thesis unfolding pawn_has_move_def Let_def s using start by (simp only: if_bool_eq_disj) blast
  qed
  show ?thesis unfolding p t by blast
qed

lemma piece_has_move_iff:
  assumes "in_bounds fr ff"
  shows "piece_has_move (ch_board g) (ch_ep_file g) c fr ff \<longleftrightarrow>
    \<not> is_none (ch_board g) fr ff \<and> pc_color (ch_board g fr ff) = c \<and>
    (\<exists>tr tf. plain_target g fr ff tr tf \<and> \<not> move_leaves_self_in_check (ch_board g) fr ff tr tf)"
proof (cases "is_none (ch_board g) fr ff \<or> pc_color (ch_board g fr ff) \<noteq> c")
  case True
  then show ?thesis by (auto simp: piece_has_move_def)
next
  case False
  then have c: "\<not> is_none (ch_board g) fr ff" "c = pc_color (ch_board g fr ff)" by auto
  have "piece_has_move (ch_board g) (ch_ep_file g) c fr ff \<longleftrightarrow>
      (\<exists>tr tf. plain_target g fr ff tr tf \<and> \<not> move_leaves_self_in_check (ch_board g) fr ff tr tf)"
  proof (cases "pc_type (ch_board g fr ff)")
    case TT_PIECE_NONE
    then show ?thesis using c(1) by (simp add: is_none_def)
  next
    case TT_PIECE_PAWN
    show ?thesis using pawn_has_move_iff [OF assms TT_PIECE_PAWN c(2)] False TT_PIECE_PAWN
      by (simp only: piece_has_move_def if_False TTPieceType.case)
  next
    case TT_PIECE_KNIGHT
    show ?thesis using knight_has_move_iff [OF TT_PIECE_KNIGHT] False TT_PIECE_KNIGHT c(2)
      by (simp only: piece_has_move_def if_False TTPieceType.case)
  next
    case TT_PIECE_KING
    show ?thesis using king_has_move_iff [OF TT_PIECE_KING] False TT_PIECE_KING c(2)
      by (simp only: piece_has_move_def if_False TTPieceType.case)
  next
    case TT_PIECE_ROOK
    show ?thesis using slider_has_move_iff(1) [OF assms refl c(2) TT_PIECE_ROOK] False TT_PIECE_ROOK
      by (simp only: piece_has_move_def if_False TTPieceType.case)
  next
    case TT_PIECE_BISHOP
    show ?thesis using slider_has_move_iff(2) [OF assms refl c(2) TT_PIECE_BISHOP] False TT_PIECE_BISHOP
      by (simp only: piece_has_move_def if_False TTPieceType.case)
  next
    case TT_PIECE_QUEEN
    show ?thesis using slider_has_move_iff(3) [OF assms refl c(2) TT_PIECE_QUEEN] False TT_PIECE_QUEEN
      by (simp only: piece_has_move_def if_False TTPieceType.case)
  qed
  then show ?thesis using c by blast
qed

lemma set_squares: "(r, f) \<in> set squares \<longleftrightarrow> in_bounds r f"
proof -
  have p: "(r, f) \<in> set (concat (map (\<lambda>r. map (\<lambda>f. (r, f)) fs) rs)) \<longleftrightarrow> r \<in> set rs \<and> f \<in> set fs" for fs rs :: "int list"
    by auto
  have r: "x \<in> set [0, 1, 2, 3, 4, 5, 6, 7] \<longleftrightarrow> 0 \<le> x \<and> x < 8" for x :: int by auto
  show ?thesis unfolding squares_def p r in_bounds_def by blast
qed

text \<open>C25: the search for a legal move is complete and sound.  In every position, the search that decides
  checkmate and stalemate succeeds exactly when there is a move that \<^verbatim>\<open>tt_chess_move\<close> accepts for the side
  to move, castling apart, and that does not leave its own king attacked.  The two pieces of code spell out
  the rules separately (a generator and a validator) and agree on every position.\<close>

theorem has_legal_move_iff_accepted:
  "tt_chess_has_legal_move (ch_board g) (ch_ep_file g) (ch_to_move g) \<longleftrightarrow>
   (\<exists>fr ff tr tf. fst (tt_chess_move g fr ff tr tf) \<and>
      \<not> (pc_type (ch_board g fr ff) = TT_PIECE_KING \<and> \<bar>tf - ff\<bar> = 2) \<and>
      \<not> move_leaves_self_in_check (ch_board g) fr ff tr tf)"
proof -
  have "tt_chess_has_legal_move (ch_board g) (ch_ep_file g) (ch_to_move g) \<longleftrightarrow>
      (\<exists>fr ff. in_bounds fr ff \<and> piece_has_move (ch_board g) (ch_ep_file g) (ch_to_move g) fr ff)"
    unfolding tt_chess_has_legal_move_def list_ex_iff using set_squares by auto
  also have "\<dots> \<longleftrightarrow> (\<exists>fr ff. in_bounds fr ff \<and> \<not> is_none (ch_board g) fr ff \<and> pc_color (ch_board g fr ff) = ch_to_move g \<and>
      (\<exists>tr tf. plain_target g fr ff tr tf \<and> \<not> move_leaves_self_in_check (ch_board g) fr ff tr tf))"
    using piece_has_move_iff by blast
  also have "\<dots> \<longleftrightarrow> (\<exists>fr ff tr tf. move_accepted g fr ff tr tf \<and>
      \<not> (pc_type (ch_board g fr ff) = TT_PIECE_KING \<and> \<bar>tf - ff\<bar> = 2) \<and> \<not> move_leaves_self_in_check (ch_board g) fr ff tr tf)"
    unfolding plain_target_def move_accepted_def by blast
  finally show ?thesis by (simp only: tt_chess_move_def if_distrib [of fst] fst_conv if_bool_eq_disj simp_thms)
qed

end
