(* ===== verification/ChessGame.thy ===== *)
theory ChessGame
  imports ChessRules
begin

text \<open>
  Games as they are played by \<^verbatim>\<open>tt_chess_move\<close>: the positions it can reach, what holds in all of
  them, and what that says about the special moves.
\<close>

inductive chess_played :: "TTChess \<Rightarrow> bool" where
  start: "chess_played tt_chess_init"
| move: "chess_played g \<Longrightarrow> fst (tt_chess_move g fr ff tr tf) \<Longrightarrow> chess_played (snd (tt_chess_move g fr ff tr tf))"

definition home_rank :: "TTColor \<Rightarrow> int" where
  "home_rank c = (if c = TT_COLOR_WHITE then 0 else 7)"

text \<open>The en-passant file names the square a pawn of the other side has just passed over.\<close>

definition ep_inv :: "TTChess \<Rightarrow> bool" where
  "ep_inv g \<longleftrightarrow> ch_ep_file g = - 1 \<or>
     (let c = ch_to_move g; r = ep_rank c in
      is_none (ch_board g) r (ch_ep_file g) \<and>
      has_pc (ch_board g) (r - pawn_dir c) (ch_ep_file g) TT_PIECE_PAWN (other_color c))"

definition pawn_inv :: "TTChess \<Rightarrow> bool" where
  "pawn_inv g \<longleftrightarrow> (\<forall>r f. pc_type (ch_board g r f) = TT_PIECE_PAWN \<longrightarrow> r \<noteq> 0 \<and> r \<noteq> 7)"

text \<open>A castling right vouches for king and rook on their home squares.\<close>

definition king_home :: "TTChess \<Rightarrow> TTColor \<Rightarrow> bool" where
  "king_home g c \<longleftrightarrow> (\<forall>r f. pc_type (ch_board g r f) = TT_PIECE_KING \<and> pc_color (ch_board g r f) = c \<longrightarrow> r = home_rank c \<and> f = 4)"

definition castle_inv :: "TTChess \<Rightarrow> bool" where
  "castle_inv g \<longleftrightarrow> (\<forall>c.
     (ks_right g c \<longrightarrow> king_home g c \<and> ch_board g (home_rank c) 7 = \<lparr>pc_type = TT_PIECE_ROOK, pc_color = c\<rparr>) \<and>
     (qs_right g c \<longrightarrow> king_home g c \<and> ch_board g (home_rank c) 0 = \<lparr>pc_type = TT_PIECE_ROOK, pc_color = c\<rparr>))"

definition chess_inv :: "TTChess \<Rightarrow> bool" where
  "chess_inv g \<longleftrightarrow> ep_inv g \<and> pawn_inv g \<and> castle_inv g"

section \<open>The effect of a move\<close>

lemma set_sq_apply: "set_sq b r f p r' f' = (if r' = r \<and> f' = f then p else b r' f')"
  by (simp add: set_sq_def)

lemma set_status_keeps:
  "ch_board (set_status c g) = ch_board g" "ch_ep_file (set_status c g) = ch_ep_file g" "ch_to_move (set_status c g) = ch_to_move g"
  "ks_right (set_status c g) d = ks_right g d" "qs_right (set_status c g) d = qs_right g d"
  by (simp_all add: set_status_def Let_def ks_right_def qs_right_def)

lemma rights_after:
  "ks_right (rook_touched ty r f g) c \<longleftrightarrow> ks_right g c \<and> \<not> (ty = TT_PIECE_ROOK \<and> r = home_rank c \<and> f = 7)"
  "qs_right (rook_touched ty r f g) c \<longleftrightarrow> qs_right g c \<and> \<not> (ty = TT_PIECE_ROOK \<and> r = home_rank c \<and> f = 0)"
  "ks_right (king_moved p g) c \<longleftrightarrow> ks_right g c \<and> \<not> (pc_type p = TT_PIECE_KING \<and> pc_color p = c)"
  "qs_right (king_moved p g) c \<longleftrightarrow> qs_right g c \<and> \<not> (pc_type p = TT_PIECE_KING \<and> pc_color p = c)"
  by (cases c; cases "pc_color p"; auto simp: ks_right_def qs_right_def rook_touched_def king_moved_def home_rank_def)+

lemma touch_keeps:
  "ch_board (rook_touched ty r f g) = ch_board g" "ch_ep_file (rook_touched ty r f g) = ch_ep_file g"
  "ch_to_move (rook_touched ty r f g) = ch_to_move g"
  "ch_board (king_moved p g) = ch_board g" "ch_ep_file (king_moved p g) = ch_ep_file g" "ch_to_move (king_moved p g) = ch_to_move g"
  by (simp_all add: rook_touched_def king_moved_def)

lemma apply_move_fields:
  shows "ch_board (apply_move g fr ff tr tf) = moved_board (ch_board g) fr ff tr tf"
    "ch_to_move (apply_move g fr ff tr tf) = other_color (ch_to_move g)"
    "ch_ep_file (apply_move g fr ff tr tf) =
       (if pc_type (ch_board g fr ff) = TT_PIECE_PAWN \<and> tr - fr = 2 * pawn_dir (pc_color (ch_board g fr ff)) then ff else - 1)"
    "ks_right (apply_move g fr ff tr tf) c \<longleftrightarrow> ks_right g c \<and>
       \<not> (pc_type (ch_board g fr ff) = TT_PIECE_KING \<and> pc_color (ch_board g fr ff) = c) \<and>
       \<not> (pc_type (ch_board g fr ff) = TT_PIECE_ROOK \<and> fr = home_rank c \<and> ff = 7) \<and>
       \<not> (pc_type (ch_board g tr tf) = TT_PIECE_ROOK \<and> tr = home_rank c \<and> tf = 7)"
    "qs_right (apply_move g fr ff tr tf) c \<longleftrightarrow> qs_right g c \<and>
       \<not> (pc_type (ch_board g fr ff) = TT_PIECE_KING \<and> pc_color (ch_board g fr ff) = c) \<and>
       \<not> (pc_type (ch_board g fr ff) = TT_PIECE_ROOK \<and> fr = home_rank c \<and> ff = 0) \<and>
       \<not> (pc_type (ch_board g tr tf) = TT_PIECE_ROOK \<and> tr = home_rank c \<and> tf = 0)"
proof -
  have k: "ks_right (h\<lparr>ch_to_move := x\<rparr>) d = ks_right h d" "qs_right (h\<lparr>ch_to_move := x\<rparr>) d = qs_right h d"
    "ks_right (h\<lparr>ch_ep_file := e, ch_board := y\<rparr>) d = ks_right h d" "qs_right (h\<lparr>ch_ep_file := e, ch_board := y\<rparr>) d = qs_right h d" for h x d e y
    by (simp_all add: ks_right_def qs_right_def)
  show "ks_right (apply_move g fr ff tr tf) c \<longleftrightarrow> ks_right g c \<and>
       \<not> (pc_type (ch_board g fr ff) = TT_PIECE_KING \<and> pc_color (ch_board g fr ff) = c) \<and>
       \<not> (pc_type (ch_board g fr ff) = TT_PIECE_ROOK \<and> fr = home_rank c \<and> ff = 7) \<and>
       \<not> (pc_type (ch_board g tr tf) = TT_PIECE_ROOK \<and> tr = home_rank c \<and> tf = 7)"
    "qs_right (apply_move g fr ff tr tf) c \<longleftrightarrow> qs_right g c \<and>
       \<not> (pc_type (ch_board g fr ff) = TT_PIECE_KING \<and> pc_color (ch_board g fr ff) = c) \<and>
       \<not> (pc_type (ch_board g fr ff) = TT_PIECE_ROOK \<and> fr = home_rank c \<and> ff = 0) \<and>
       \<not> (pc_type (ch_board g tr tf) = TT_PIECE_ROOK \<and> tr = home_rank c \<and> tf = 0)"
    unfolding apply_move_def Let_def set_status_keeps k rights_after by blast+
qed (simp_all add: apply_move_def Let_def set_status_keeps touch_keeps)

lemma moved_board_cases:
  assumes "(fr, ff) \<noteq> (tr, tf)"
  shows "moved_board b fr ff tr tf r f = no_piece \<or>
    (r = tr \<and> f = tf \<and> moved_board b fr ff tr tf r f =
       (if pc_type (b fr ff) = TT_PIECE_PAWN \<and> (tr = 0 \<or> tr = 7) then (b fr ff) \<lparr>pc_type := TT_PIECE_QUEEN\<rparr> else b fr ff)) \<or>
    moved_board b fr ff tr tf r f = b r f \<or>
    (pc_type (b fr ff) = TT_PIECE_KING \<and> r = fr \<and>
       (tf - ff = 2 \<and> f = 5 \<and> moved_board b fr ff tr tf r f = b fr 7 \<or>
        tf - ff = - 2 \<and> f = 3 \<and> moved_board b fr ff tr tf r f = b fr 0))"
proof -
  let ?p = "b fr ff" and ?df = "tf - ff"
  define b1 where "b1 = (if pc_type ?p = TT_PIECE_KING \<and> ?df = 2 then set_sq (set_sq b fr 5 (b fr 7)) fr 7 no_piece
      else if pc_type ?p = TT_PIECE_KING \<and> ?df = - 2 then set_sq (set_sq b fr 3 (b fr 0)) fr 0 no_piece else b)"
  define b2 where "b2 = (if pc_type ?p = TT_PIECE_PAWN \<and> ?df \<noteq> 0 \<and> is_none b tr tf then set_sq b1 fr tf no_piece else b1)"
  let ?castle = "pc_type ?p = TT_PIECE_KING \<and> r = fr \<and> (?df = 2 \<and> f = 5 \<and> b1 r f = b fr 7 \<or> ?df = - 2 \<and> f = 3 \<and> b1 r f = b fr 0)"
  have b1: "b1 r f = no_piece \<or> b1 r f = b r f \<or> ?castle"
    unfolding b1_def by (simp add: set_sq_apply)
  have b2: "b2 r f = no_piece \<or> b2 r f = b1 r f"
    unfolding b2_def by (simp add: set_sq_apply)
  have m: "moved_board b fr ff tr tf r f = (if r = fr \<and> f = ff then no_piece
      else if r = tr \<and> f = tf then (if pc_type ?p = TT_PIECE_PAWN \<and> (tr = 0 \<or> tr = 7) then ?p \<lparr>pc_type := TT_PIECE_QUEEN\<rparr> else ?p)
      else b2 r f)"
    unfolding moved_board_def Let_def b1_def [symmetric] b2_def [symmetric] by (simp add: set_sq_apply)
  show ?thesis
  proof (cases "r = fr \<and> f = ff \<or> r = tr \<and> f = tf")
    case True
    then show ?thesis unfolding m by auto
  next
    case False
    then have "moved_board b fr ff tr tf r f = b2 r f" unfolding m by auto
    then show ?thesis using b1 b2 by auto
  qed
qed

lemma moved_board_same:
  assumes "(r, f) \<noteq> (fr, ff)" "(r, f) \<noteq> (tr, tf)"
    "\<not> (pc_type (b fr ff) = TT_PIECE_KING \<and> \<bar>tf - ff\<bar> = 2 \<and> r = fr)"
    "\<not> (pc_type (b fr ff) = TT_PIECE_PAWN \<and> tf \<noteq> ff \<and> r = fr \<and> f = tf)"
  shows "moved_board b fr ff tr tf r f = b r f"
  using assms by (auto simp: moved_board_def Let_def set_sq_apply)

section \<open>Invariance\<close>

lemma accepted_facts:
  assumes "move_accepted g fr ff tr tf"
  shows "in_bounds fr ff" "in_bounds tr tf" "pc_type (ch_board g fr ff) \<noteq> TT_PIECE_NONE" "pc_color (ch_board g fr ff) = ch_to_move g"
    "is_none (ch_board g) tr tf \<or> pc_color (ch_board g tr tf) \<noteq> ch_to_move g" "(fr, ff) \<noteq> (tr, tf)"
    "pc_type (ch_board g fr ff) = TT_PIECE_PAWN \<Longrightarrow> pawn_move_ok g fr ff tr tf"
    "pc_type (ch_board g fr ff) = TT_PIECE_KING \<Longrightarrow> king_move_ok g fr ff tr tf"
  using assms by (auto simp: move_accepted_def move_shape_ok_def is_none_def)

text \<open>A castling king comes from its home square.\<close>

lemma castling_from_home:
  assumes "castle_inv g" "move_accepted g fr ff tr tf" "pc_type (ch_board g fr ff) = TT_PIECE_KING" "\<bar>tf - ff\<bar> = 2"
  shows "fr = home_rank (ch_to_move g) \<and> ff = 4 \<and> tr = fr \<and>
    (tf = 6 \<and> ks_right g (ch_to_move g) \<and> ch_board g fr 7 = \<lparr>pc_type = TT_PIECE_ROOK, pc_color = ch_to_move g\<rparr> \<or>
     tf = 2 \<and> qs_right g (ch_to_move g) \<and> ch_board g fr 0 = \<lparr>pc_type = TT_PIECE_ROOK, pc_color = ch_to_move g\<rparr>)"
proof -
  let ?c = "ch_to_move g"
  note a = accepted_facts [OF assms(2)]
  have df: "tf - ff = 2 \<or> tf - ff = - 2" using assms(4) by auto
  have k: "king_move_ok g fr ff tr tf" by (rule a(8) [OF assms(3)])
  have st: "\<not> (tf - ff \<ge> - 1 \<and> tf - ff \<le> 1)" using df by auto
  have "tr = fr \<and> (tf - ff = 2 \<and> ks_right g ?c \<or> tf - ff = - 2 \<and> qs_right g ?c)"
    using k df st a(4) unfolding king_move_ok_def Let_def by (auto split: if_splits)
  moreover from this have "king_home g ?c" using assms(1) by (auto simp: castle_inv_def)
  then have "fr = home_rank ?c \<and> ff = 4" using assms(3) a(4) by (auto simp: king_home_def)
  ultimately show ?thesis using assms(1) by (auto simp: castle_inv_def)
qed

lemma moved_ep_inv:
  assumes "chess_inv g" "move_accepted g fr ff tr tf"
  shows "ep_inv (apply_move g fr ff tr tf)"
proof (cases "pc_type (ch_board g fr ff) = TT_PIECE_PAWN \<and> tr - fr = 2 * pawn_dir (pc_color (ch_board g fr ff))")
  case False
  then show ?thesis unfolding ep_inv_def apply_move_fields by auto
next
  case True
  let ?c = "ch_to_move g" and ?b = "ch_board g"
  note a = accepted_facts [OF assms(2)]
  have p: "tf = ff" "fr = pawn_start ?c" "is_none ?b (fr + pawn_dir ?c) ff" "tr = fr + 2 * pawn_dir ?c" "is_none ?b tr tf"
    using a(7) True a(4) by (auto simp: pawn_move_ok_def pawn_dir_def Let_def split: if_splits)
  have r: "ep_rank (other_color ?c) = fr + pawn_dir ?c" "fr + pawn_dir ?c - pawn_dir (other_color ?c) = tr"
    "tr \<noteq> 0" "tr \<noteq> 7"
    using p(2,4) by (auto simp: ep_rank_def other_color_def pawn_dir_def pawn_start_def)
  have "moved_board ?b fr ff tr tf (fr + pawn_dir ?c) ff = ?b (fr + pawn_dir ?c) ff"
    using True p by (intro moved_board_same) (auto simp: pawn_dir_def)
  moreover have "moved_board ?b fr ff tr tf tr tf = ?b fr ff"
    using True a(6) r(3,4) by (auto simp: moved_board_def set_sq_apply Let_def)
  moreover have "other_color (other_color ?c) = ?c" by (cases ?c) (simp_all add: other_color_def)
  ultimately show ?thesis
    unfolding ep_inv_def apply_move_fields Let_def r
    using True p(1,3) a(2,4) by (simp add: is_none_def has_pc_def)
qed

lemma moved_pawn_inv:
  assumes "chess_inv g" "move_accepted g fr ff tr tf"
  shows "pawn_inv (apply_move g fr ff tr tf)"
  unfolding pawn_inv_def apply_move_fields
proof (intro allI impI)
  fix r f
  assume pawn: "pc_type (moved_board (ch_board g) fr ff tr tf r f) = TT_PIECE_PAWN"
  have inv: "\<And>r f. pc_type (ch_board g r f) = TT_PIECE_PAWN \<Longrightarrow> r \<noteq> 0 \<and> r \<noteq> 7" and ci: "castle_inv g"
    using assms(1) by (auto simp: chess_inv_def pawn_inv_def)
  note a = accepted_facts [OF assms(2)]
  have cas: "pc_type (ch_board g fr 7) \<noteq> TT_PIECE_PAWN \<and> tf - ff = 2 \<or> pc_type (ch_board g fr 0) \<noteq> TT_PIECE_PAWN \<and> tf - ff = - 2"
    if "pc_type (ch_board g fr ff) = TT_PIECE_KING" "\<bar>tf - ff\<bar> = 2"
    using castling_from_home [OF ci assms(2) that] by auto
  show "r \<noteq> 0 \<and> r \<noteq> 7"
    using moved_board_cases [OF a(6), of "ch_board g" r f] pawn inv [of r f] cas by (auto simp: no_piece_def split: if_splits)
qed

lemma moved_king_home:
  assumes "chess_inv g" "move_accepted g fr ff tr tf" "king_home g c"
    "\<not> (pc_type (ch_board g fr ff) = TT_PIECE_KING \<and> pc_color (ch_board g fr ff) = c)"
  shows "king_home (apply_move g fr ff tr tf) c"
  unfolding king_home_def apply_move_fields
proof (intro allI impI)
  fix r f
  assume k: "pc_type (moved_board (ch_board g) fr ff tr tf r f) = TT_PIECE_KING \<and> pc_color (moved_board (ch_board g) fr ff tr tf r f) = c"
  have ci: "castle_inv g" using assms(1) by (simp add: chess_inv_def)
  note a = accepted_facts [OF assms(2)]
  have cas: "pc_type (ch_board g fr 7) \<noteq> TT_PIECE_KING \<and> tf - ff = 2 \<or> pc_type (ch_board g fr 0) \<noteq> TT_PIECE_KING \<and> tf - ff = - 2"
    if "pc_type (ch_board g fr ff) = TT_PIECE_KING" "\<bar>tf - ff\<bar> = 2"
    using castling_from_home [OF ci assms(2) that] by auto
  have home: "pc_type (ch_board g r f) = TT_PIECE_KING \<and> pc_color (ch_board g r f) = c \<longrightarrow> r = home_rank c \<and> f = 4"
    using assms(3) by (simp add: king_home_def)
  show "r = home_rank c \<and> f = 4"
    using moved_board_cases [OF a(6), of "ch_board g" r f] k home cas assms(4) by (auto simp: no_piece_def split: if_splits)
qed

text \<open>A rook on its home corner that keeps its castling right is not touched by the move.\<close>

lemma moved_corner:
  assumes "chess_inv g" "move_accepted g fr ff tr tf" "f \<in> {0, 7}"
    and rook: "ch_board g (home_rank c) f = \<lparr>pc_type = TT_PIECE_ROOK, pc_color = c\<rparr>"
    and moved: "\<not> (pc_type (ch_board g fr ff) = TT_PIECE_KING \<and> pc_color (ch_board g fr ff) = c)"
      "\<not> (pc_type (ch_board g fr ff) = TT_PIECE_ROOK \<and> fr = home_rank c \<and> ff = f)"
      "\<not> (pc_type (ch_board g tr tf) = TT_PIECE_ROOK \<and> tr = home_rank c \<and> tf = f)"
  shows "moved_board (ch_board g) fr ff tr tf (home_rank c) f = \<lparr>pc_type = TT_PIECE_ROOK, pc_color = c\<rparr>"
proof -
  note a = accepted_facts [OF assms(2)]
  have ci: "castle_inv g" and pi: "pawn_inv g" using assms(1) by (auto simp: chess_inv_def)
  have "(home_rank c, f) \<noteq> (fr, ff)" "(home_rank c, f) \<noteq> (tr, tf)" using moved(2,3) rook by auto
  moreover have "\<not> (pc_type (ch_board g fr ff) = TT_PIECE_KING \<and> \<bar>tf - ff\<bar> = 2 \<and> home_rank c = fr)"
  proof
    assume k: "pc_type (ch_board g fr ff) = TT_PIECE_KING \<and> \<bar>tf - ff\<bar> = 2 \<and> home_rank c = fr"
    then have "home_rank c = home_rank (ch_to_move g)" using castling_from_home [OF ci assms(2)] by auto
    then have "c = ch_to_move g" by (cases c; cases "ch_to_move g") (auto simp: home_rank_def)
    then show False using k moved(1) a(4) by auto
  qed
  moreover have "\<not> (pc_type (ch_board g fr ff) = TT_PIECE_PAWN \<and> tf \<noteq> ff \<and> home_rank c = fr \<and> f = tf)"
    using pi by (auto simp: pawn_inv_def home_rank_def)
  ultimately show ?thesis using moved_board_same rook by metis
qed

lemma moved_castle_inv:
  assumes "chess_inv g" "move_accepted g fr ff tr tf"
  shows "castle_inv (apply_move g fr ff tr tf)"
  unfolding castle_inv_def
proof (intro allI conjI impI)
  fix c
  have ci: "castle_inv g" using assms(1) by (simp add: chess_inv_def)
  { assume r: "ks_right (apply_move g fr ff tr tf) c"
    then have "king_home g c" "ch_board g (home_rank c) 7 = \<lparr>pc_type = TT_PIECE_ROOK, pc_color = c\<rparr>"
      using ci unfolding apply_move_fields castle_inv_def by blast+
    then show "king_home (apply_move g fr ff tr tf) c"
      "ch_board (apply_move g fr ff tr tf) (home_rank c) 7 = \<lparr>pc_type = TT_PIECE_ROOK, pc_color = c\<rparr>"
      using r moved_king_home [OF assms, of c] moved_corner [OF assms, of 7 c] unfolding apply_move_fields by blast+ }
  { assume r: "qs_right (apply_move g fr ff tr tf) c"
    then have "king_home g c" "ch_board g (home_rank c) 0 = \<lparr>pc_type = TT_PIECE_ROOK, pc_color = c\<rparr>"
      using ci unfolding apply_move_fields castle_inv_def by blast+
    then show "king_home (apply_move g fr ff tr tf) c"
      "ch_board (apply_move g fr ff tr tf) (home_rank c) 0 = \<lparr>pc_type = TT_PIECE_ROOK, pc_color = c\<rparr>"
      using r moved_king_home [OF assms, of c] moved_corner [OF assms, of 0 c] unfolding apply_move_fields by blast+ }
qed

lemma init_board: "ch_board tt_chess_init r f =
   (if 0 \<le> f \<and> f < 8 then
      if r = 0 then \<lparr>pc_type = back_rank ! nat f, pc_color = TT_COLOR_WHITE\<rparr>
      else if r = 1 then \<lparr>pc_type = TT_PIECE_PAWN, pc_color = TT_COLOR_WHITE\<rparr>
      else if r = 6 then \<lparr>pc_type = TT_PIECE_PAWN, pc_color = TT_COLOR_BLACK\<rparr>
      else if r = 7 then \<lparr>pc_type = back_rank ! nat f, pc_color = TT_COLOR_BLACK\<rparr>
      else no_piece
    else no_piece)"
proof -
  have u: "[0..<8] = [0, 1, 2, 3, 4, 5, 6, 7 :: nat]" by (simp add: upt_rec)
  have f: "0 \<le> f \<and> f < 8 \<longleftrightarrow> f = 0 \<or> f = 1 \<or> f = 2 \<or> f = 3 \<or> f = 4 \<or> f = 5 \<or> f = 6 \<or> f = 7" by auto
  show ?thesis
    unfolding f by (simp add: tt_chess_init_def u chess_zero_def set_piece_def set_sq_def back_rank_def)
qed

lemma back_rank_types:
  assumes "0 \<le> f" "f < 8"
  shows "back_rank ! nat f = TT_PIECE_KING \<longleftrightarrow> f = 4" "back_rank ! nat f \<noteq> TT_PIECE_PAWN"
proof -
  have "f = 0 \<or> f = 1 \<or> f = 2 \<or> f = 3 \<or> f = 4 \<or> f = 5 \<or> f = 6 \<or> f = 7" using assms by auto
  then show "back_rank ! nat f = TT_PIECE_KING \<longleftrightarrow> f = 4" "back_rank ! nat f \<noteq> TT_PIECE_PAWN"
    by (auto simp: back_rank_def)
qed

lemma init_king_home: "king_home tt_chess_init c"
  unfolding king_home_def init_board using back_rank_types by (auto simp: home_rank_def no_piece_def split: if_splits)

lemma init_inv: "chess_inv tt_chess_init"
proof -
  have "ch_board tt_chess_init (home_rank c) 7 = \<lparr>pc_type = TT_PIECE_ROOK, pc_color = c\<rparr>"
    "ch_board tt_chess_init (home_rank c) 0 = \<lparr>pc_type = TT_PIECE_ROOK, pc_color = c\<rparr>" for c
    unfolding init_board by (cases c; simp add: home_rank_def back_rank_def)+
  moreover have "pawn_inv tt_chess_init"
    unfolding pawn_inv_def init_board using back_rank_types by (auto simp: no_piece_def split: if_splits)
  moreover have "ch_ep_file tt_chess_init = - 1"
    by (simp add: tt_chess_init_def set_piece_def chess_zero_def upt_rec)
  ultimately show ?thesis using init_king_home by (simp add: chess_inv_def castle_inv_def ep_inv_def)
qed

lemma played_inv: "chess_played g \<Longrightarrow> chess_inv g"
proof (induction rule: chess_played.induct)
  case (move g fr ff tr tf)
  then have "move_accepted g fr ff tr tf" by (simp add: tt_chess_move_def split: if_splits)
  then show ?case
    using move moved_ep_inv moved_pawn_inv moved_castle_inv by (simp add: tt_chess_move_def chess_inv_def)
qed (rule init_inv)

text \<open>The special moves are sound in every game.  Whenever a move is accepted in a position reached from the
  start by accepted moves: a pawn that moves diagonally to an empty square removes an enemy pawn (the code
  clears the square beside it without looking); a king that moves two files stands on its own back rank on
  the e-file, keeps the rank, and the rook of its colour stands in the corner the code moves it from; and no
  pawn is left on the first or last rank.\<close>

theorem special_moves_sound:
  assumes "chess_played g" "fst (tt_chess_move g fr ff tr tf)"
  shows "(pc_type (ch_board g fr ff) = TT_PIECE_PAWN \<and> tf \<noteq> ff \<and> is_none (ch_board g) tr tf \<longrightarrow>
       has_pc (ch_board g) fr tf TT_PIECE_PAWN (other_color (ch_to_move g))) \<and>
    (pc_type (ch_board g fr ff) = TT_PIECE_KING \<and> \<bar>tf - ff\<bar> = 2 \<longrightarrow>
       fr = home_rank (ch_to_move g) \<and> ff = 4 \<and> tr = fr \<and>
       ch_board g fr (if tf = 6 then 7 else 0) = \<lparr>pc_type = TT_PIECE_ROOK, pc_color = ch_to_move g\<rparr>) \<and>
    pawn_inv (snd (tt_chess_move g fr ff tr tf))"
proof -
  have acc: "move_accepted g fr ff tr tf" using assms(2) by (simp add: tt_chess_move_def split: if_splits)
  have inv: "chess_inv g" by (rule played_inv [OF assms(1)])
  note a = accepted_facts [OF acc]
  have "has_pc (ch_board g) fr tf TT_PIECE_PAWN (other_color (ch_to_move g))"
    if "pc_type (ch_board g fr ff) = TT_PIECE_PAWN" "tf \<noteq> ff" "is_none (ch_board g) tr tf"
  proof -
    have "tr = ep_rank (ch_to_move g)" "tf = ch_ep_file g" "fr = tr - pawn_dir (ch_to_move g)"
      using a(7) [OF that(1)] that(2,3) a(4) by (auto simp: pawn_move_ok_def Let_def split: if_splits)
    then show ?thesis using inv a(2) by (auto simp: chess_inv_def ep_inv_def Let_def in_bounds_def)
  qed
  moreover have "fr = home_rank (ch_to_move g) \<and> ff = 4 \<and> tr = fr \<and>
      ch_board g fr (if tf = 6 then 7 else 0) = \<lparr>pc_type = TT_PIECE_ROOK, pc_color = ch_to_move g\<rparr>"
    if "pc_type (ch_board g fr ff) = TT_PIECE_KING" "\<bar>tf - ff\<bar> = 2"
    using castling_from_home [OF _ acc that] inv by (auto simp: chess_inv_def)
  moreover have "pawn_inv (snd (tt_chess_move g fr ff tr tf))"
    using moved_pawn_inv [OF inv acc] acc by (simp add: tt_chess_move_def)
  ultimately show ?thesis by blast
qed

theorem special_moves_sound_witness:
  "fst (tt_chess_move tt_chess_init 1 4 3 4) \<and> pawn_inv (snd (tt_chess_move tt_chess_init 1 4 3 4))"
proof -
  have "ch_to_move tt_chess_init = TT_COLOR_WHITE"
    by (simp add: tt_chess_init_def set_piece_def chess_zero_def upt_rec)
  then have "fst (tt_chess_move tt_chess_init 1 4 3 4)"
    by (simp add: tt_chess_move_def move_accepted_def move_shape_ok_def pawn_move_ok_def init_board in_bounds_def is_none_def
        no_piece_def pawn_dir_def pawn_start_def)
  then show ?thesis using special_moves_sound [OF start] by blast
qed

section \<open>Moves out of check\<close>

text \<open>The position after e2-e4, f7-f6, Qd1-h5: the black king is attacked along the diagonal.\<close>

definition queen_check :: TTChess where
  "queen_check = apply_move (apply_move (apply_move tt_chess_init 1 4 3 4) 6 5 5 5) 0 3 4 7"

lemmas accept_simps = move_accepted_def move_shape_ok_def pawn_move_ok_def in_bounds_def is_none_def pawn_dir_def pawn_start_def
  slide_move_ok_def Let_def eval_nat_numeral other_color_def

lemma init_to_move: "ch_to_move tt_chess_init = TT_COLOR_WHITE"
  by (simp add: tt_chess_init_def set_piece_def chess_zero_def upt_rec)

lemma board_1: "ch_board (apply_move tt_chess_init 1 4 3 4) =
   set_sq (set_sq (ch_board tt_chess_init) 3 4 \<lparr>pc_type = TT_PIECE_PAWN, pc_color = TT_COLOR_WHITE\<rparr>) 1 4 no_piece"
  unfolding apply_move_fields by (simp add: moved_board_def Let_def init_board)

lemma board_2: "ch_board (apply_move (apply_move tt_chess_init 1 4 3 4) 6 5 5 5) =
   set_sq (set_sq (ch_board (apply_move tt_chess_init 1 4 3 4)) 5 5 \<lparr>pc_type = TT_PIECE_PAWN, pc_color = TT_COLOR_BLACK\<rparr>) 6 5 no_piece"
  unfolding apply_move_fields(1) [of "apply_move tt_chess_init 1 4 3 4"]
  by (simp add: moved_board_def Let_def board_1 set_sq_apply init_board)

lemma board_3: "ch_board queen_check =
   set_sq (set_sq (ch_board (apply_move (apply_move tt_chess_init 1 4 3 4) 6 5 5 5)) 4 7
     \<lparr>pc_type = TT_PIECE_QUEEN, pc_color = TT_COLOR_WHITE\<rparr>) 0 3 no_piece"
  unfolding queen_check_def apply_move_fields(1) [of "apply_move (apply_move tt_chess_init 1 4 3 4) 6 5 5 5"]
  by (simp add: moved_board_def Let_def board_2 board_1 set_sq_apply init_board back_rank_def)

lemma played_apply: "chess_played g \<Longrightarrow> move_accepted g fr ff tr tf \<Longrightarrow> chess_played (apply_move g fr ff tr tf)"
  using move [of g fr ff tr tf] by (simp add: tt_chess_move_def)

lemma queen_check_played: "chess_played queen_check"
proof -
  have m1: "move_accepted tt_chess_init 1 4 3 4"
    by (simp add: accept_simps init_board init_to_move no_piece_def)
  have m2: "move_accepted (apply_move tt_chess_init 1 4 3 4) 6 5 5 5"
    by (simp add: accept_simps board_1 set_sq_apply init_board init_to_move no_piece_def apply_move_fields(2))
  have m3: "move_accepted (apply_move (apply_move tt_chess_init 1 4 3 4) 6 5 5 5) 0 3 4 7"
    by (simp add: accept_simps board_2 board_1 set_sq_apply init_board init_to_move no_piece_def apply_move_fields(2) back_rank_def)
  show ?thesis
    unfolding queen_check_def by (intro played_apply [OF played_apply [OF played_apply [OF start m1] m2] m3])
qed

lemma find_found: "x \<in> set xs \<Longrightarrow> P x \<Longrightarrow> \<exists>y. find P xs = Some y"
  by (induction xs) auto

lemma find_result: "find P xs = Some x \<Longrightarrow> x \<in> set xs \<and> P x"
  by (induction xs) (auto split: if_splits)

text \<open>The black king's whereabouts survive changes of other pieces.\<close>

definition black_king_home :: "board \<Rightarrow> bool" where
  "black_king_home b \<longleftrightarrow> (\<forall>r f. pc_type (b r f) = TT_PIECE_KING \<and> pc_color (b r f) = TT_COLOR_BLACK \<longrightarrow> r = 7 \<and> f = 4)"

lemma black_king_home_set: "black_king_home b \<Longrightarrow> pc_type p \<noteq> TT_PIECE_KING \<Longrightarrow> black_king_home (set_sq b r f p)"
  by (auto simp: black_king_home_def set_sq_apply)

lemma black_king_home_init: "black_king_home (ch_board tt_chess_init)"
  using init_king_home [of TT_COLOR_BLACK] by (simp add: king_home_def black_king_home_def home_rank_def)

lemma check_by_attack:
  assumes "in_bounds r f" "pc_type (b r f) = TT_PIECE_KING" "pc_color (b r f) = c"
    "\<And>r' f'. in_bounds r' f' \<Longrightarrow> pc_type (b r' f') = TT_PIECE_KING \<and> pc_color (b r' f') = c \<Longrightarrow> r' = r \<and> f' = f"
  shows "tt_chess_in_check b c \<longleftrightarrow> tt_chess_square_attacked b r f (other_color c)"
proof -
  let ?P = "\<lambda>(r, f). pc_type (b r f) = TT_PIECE_KING \<and> pc_color (b r f) = c"
  have "(r, f) \<in> set squares" using assms(1) set_squares by blast
  moreover have "?P (r, f)" using assms(2,3) by simp
  ultimately obtain x where "find ?P squares = Some x" using find_found [of "(r, f)" squares ?P] by blast
  moreover obtain r' f' where "x = (r', f')" by (cases x)
  ultimately have s: "find ?P squares = Some (r', f')" by simp
  then have "(r', f') \<in> set squares \<and> ?P (r', f')" by (rule find_result)
  then have "r' = r \<and> f' = f" using assms(4) [of r' f'] set_squares [of r' f'] by simp
  then show ?thesis using s by (simp add: tt_chess_in_check_def)
qed

lemma king_attacked:
  assumes "b 7 4 = \<lparr>pc_type = TT_PIECE_KING, pc_color = TT_COLOR_BLACK\<rparr>" "is_none b 6 5" "is_none b 5 6"
    "b 4 7 = \<lparr>pc_type = TT_PIECE_QUEEN, pc_color = TT_COLOR_WHITE\<rparr>"
    "black_king_home b"
  shows "tt_chess_in_check b TT_COLOR_BLACK"
proof -
  have "is_none b (4 + j) (7 - j)" if "0 < j" "j < 3" for j
  proof -
    have "j = 1 \<or> j = 2" using that by arith
    then show ?thesis using assms(2,3) by auto
  qed
  then have "clear_between b 4 7 7 4" by (simp add: clear_between_def line_dist_def)
  then have "attacks b 4 7 7 4" using assms(4) by (simp add: attacks_def diag_line_def)
  then have "attacker b TT_COLOR_WHITE {TT_PIECE_ROOK, TT_PIECE_BISHOP, TT_PIECE_QUEEN} 7 4"
    using assms(4) unfolding attacker_def by (intro exI [of _ 4] exI [of _ 7]) (simp add: in_bounds_def)
  then have "tt_chess_square_attacked b 7 4 TT_COLOR_WHITE"
    using line_attack_iff [of 7 4 b TT_COLOR_WHITE] unfolding tt_chess_square_attacked_def Let_def
    by (simp add: in_bounds_def)
  then show ?thesis
    using check_by_attack [of 7 4 b TT_COLOR_BLACK] assms(1,5) by (simp add: in_bounds_def other_color_def black_king_home_def)
qed

text \<open>Check does not bind.  There is a game, played by accepted moves from the start, in which black is in
  check, plays a pawn move at the other end of the board, and \<^verbatim>\<open>tt_chess_move\<close> accepts it although the black
  king is still attacked afterwards: the validator never asks \<^verbatim>\<open>move_leaves_self_in_check\<close>.\<close>

theorem move_ignoring_check_accepted:
  "\<exists>g. chess_played g \<and> ch_to_move g = TT_COLOR_BLACK \<and> tt_chess_in_check (ch_board g) TT_COLOR_BLACK \<and>
     fst (tt_chess_move g 6 0 5 0) \<and> move_leaves_self_in_check (ch_board g) 6 0 5 0 \<and>
     tt_chess_in_check (ch_board (snd (tt_chess_move g 6 0 5 0))) TT_COLOR_BLACK"
proof (intro exI conjI)
  note bs = board_3 board_2 board_1 set_sq_apply
  show "chess_played queen_check" by (rule queen_check_played)
  show c: "ch_to_move queen_check = TT_COLOR_BLACK"
    by (simp add: queen_check_def apply_move_fields(2) init_to_move other_color_def)
  have acc: "move_accepted queen_check 6 0 5 0"
    by (simp add: accept_simps bs init_board no_piece_def c)
  then show "fst (tt_chess_move queen_check 6 0 5 0)" by (simp add: tt_chess_move_def)
  have king: "black_king_home (ch_board queen_check)"
    unfolding board_3 board_2 board_1 by (intro black_king_home_set black_king_home_init) (simp_all add: no_piece_def)
  show "tt_chess_in_check (ch_board queen_check) TT_COLOR_BLACK"
    by (rule king_attacked) (use king in \<open>simp_all add: bs init_board back_rank_def is_none_def no_piece_def\<close>)
  have p: "ch_board queen_check 6 0 = \<lparr>pc_type = TT_PIECE_PAWN, pc_color = TT_COLOR_BLACK\<rparr>"
    by (simp add: bs init_board)
  have m: "moved_board (ch_board queen_check) 6 0 5 0 = set_sq (set_sq (ch_board queen_check) 5 0 (ch_board queen_check 6 0)) 6 0 no_piece"
    by (simp add: moved_board_def p)
  have "tt_chess_in_check (moved_board (ch_board queen_check) 6 0 5 0) TT_COLOR_BLACK"
    unfolding m
  proof (rule king_attacked)
    show "black_king_home (set_sq (set_sq (ch_board queen_check) 5 0 (ch_board queen_check 6 0)) 6 0 no_piece)"
      using king p by (intro black_king_home_set) (simp_all add: no_piece_def)
  qed (simp_all add: bs init_board back_rank_def is_none_def no_piece_def)
  then show "tt_chess_in_check (ch_board (snd (tt_chess_move queen_check 6 0 5 0))) TT_COLOR_BLACK"
    "move_leaves_self_in_check (ch_board queen_check) 6 0 5 0"
    using acc by (simp_all add: tt_chess_move_def apply_move_fields(1) move_leaves_self_in_check_def m p Let_def set_sq_apply)
qed

end
