(* ===== verification/ChessWire.thy ===== *)
theory ChessWire
  imports ChessGame EventQueue
begin

text \<open>
  Chess over lossless packets, \<^verbatim>\<open>src/src/tox_thread.c\<close> (\<^verbatim>\<open>chess_send\<close> to
  \<^verbatim>\<open>handle_cmd_chess_resign\<close>).  The per-friend game pointers are a map from friend numbers;
  each handler returns the games, the packets handed to toxcore and the events for the user
  interface.  Whether toxcore takes a packet is the argument \<open>ok\<close>; memory allocation succeeds.
\<close>

abbreviation (input) "TT_MAX_FRIENDS_CHESS \<equiv> (256 :: nat)"
abbreviation (input) "TT_GAME_PACKET_INVITE \<equiv> (160 :: byte)"
abbreviation (input) "TT_GAME_PACKET_DATA \<equiv> (161 :: byte)"
abbreviation (input) "TT_GAME_HEADER_SIZE \<equiv> (6 :: nat)"
abbreviation (input) "TT_GAME_VERSION \<equiv> (1 :: byte)"
abbreviation (input) "TT_GAME_TYPE_CHESS \<equiv> (1 :: byte)"
abbreviation (input) "TT_CHESS_PKT_INVITE \<equiv> (1 :: byte)"
abbreviation (input) "TT_CHESS_PKT_ACCEPT \<equiv> (2 :: byte)"
abbreviation (input) "TT_CHESS_PKT_MOVE \<equiv> (254 :: byte)"
abbreviation (input) "TT_CHESS_PKT_RESIGN \<equiv> (255 :: byte)"

record TTChessGame =
  cg_board :: TTChess
  cg_id :: u32
  cg_self_color :: TTColor
  cg_pending_invite :: bool
  cg_started :: bool

type_synonym chess_games = "nat \<rightharpoonup> TTChessGame"
type_synonym chess_result = "chess_games \<times> bytes list \<times> TTEvent list"

definition game_zero :: TTChessGame where
  "game_zero = \<lparr>cg_board = chess_zero, cg_id = 0, cg_self_color = TT_COLOR_WHITE, cg_pending_invite = False, cg_started = False\<rparr>"

definition color_byte :: "TTColor \<Rightarrow> byte" where
  "color_byte c = (if c = TT_COLOR_WHITE then 0 else 1)"

text \<open>
  The packet: the payload is copied to offset 6, over the last byte of the four-byte id at
  offset 3.  \<^const>\<open>None\<close> when the payload does not fit.
\<close>

definition chess_packet :: "byte \<Rightarrow> u32 \<Rightarrow> bytes \<Rightarrow> bytes option" where
  "chess_packet ty gid payload =
     (if length payload > 8 then None
      else Some (take TT_GAME_HEADER_SIZE ([ty, TT_GAME_VERSION, TT_GAME_TYPE_CHESS] @ be32 gid) @ payload))"

definition chess_send :: "bool \<Rightarrow> byte \<Rightarrow> u32 \<Rightarrow> bytes \<Rightarrow> bool \<times> bytes list" where
  "chess_send ok ty gid payload =
     (case chess_packet ty gid payload of
        None \<Rightarrow> (False, [])
      | Some p \<Rightarrow> if ok then (True, [p]) else (False, []))"

definition chess_free :: "chess_games \<Rightarrow> nat \<Rightarrow> chess_games" where
  "chess_free games fn = (if fn \<ge> TT_MAX_FRIENDS_CHESS then games else games(fn := None))"

definition ev_simple :: "TTEventType \<Rightarrow> nat \<Rightarrow> bytes option \<Rightarrow> nat \<Rightarrow> int \<Rightarrow> TTEvent list" where
  "ev_simple ty fn s len ival = (case push_simple True True ty fn s len ival of None \<Rightarrow> [] | Some e \<Rightarrow> [e])"

definition chess_end :: "chess_games \<Rightarrow> nat \<Rightarrow> int \<Rightarrow> bool \<Rightarrow> chess_games \<times> TTEvent list" where
  "chess_end games fn reason we_won =
     (if fn \<ge> TT_MAX_FRIENDS_CHESS \<or> games fn = None then (games, [])
      else (chess_free games fn,
            [(tt_event_new TT_EV_CHESS_END) \<lparr>ev_fn := fn, ev_ival := reason, ev_ival2 := (if we_won then 1 else 0)\<rparr>]))"

text \<open>The end of the game after a move, the same lines in the receive and the command handler.\<close>

definition chess_check_end :: "chess_games \<Rightarrow> nat \<Rightarrow> TTChessGame \<Rightarrow> chess_games \<times> TTEvent list" where
  "chess_check_end games fn g =
     (if ch_status (cg_board g) = TT_CHESS_CHECKMATE then chess_end games fn 0 (ch_winner (cg_board g) = cg_self_color g)
      else if ch_status (cg_board g) = TT_CHESS_STALEMATE then chess_end games fn 1 False
      else (games, []))"

definition chess_rx_invite :: "chess_games \<Rightarrow> nat \<Rightarrow> bytes \<Rightarrow> chess_result" where
  "chess_rx_invite games fn d =
     (if length d \<noteq> 2 \<or> hd d \<noteq> TT_CHESS_PKT_INVITE then (games, [], [])
      else if d ! 1 \<noteq> 0 \<and> d ! 1 \<noteq> 1 then (games, [], [])
      else if games fn \<noteq> None then (games, [], [])
      else (games(fn \<mapsto> game_zero \<lparr>cg_pending_invite := True,
                          cg_self_color := (if d ! 1 = 0 then TT_COLOR_WHITE else TT_COLOR_BLACK)\<rparr>), [],
            ev_simple TT_EV_CHESS_INVITE fn (Some (ascii (if d ! 1 = 0 then ''white'' else ''black''))) 0 0))"

definition chess_rx_move :: "chess_games \<Rightarrow> nat \<Rightarrow> TTChessGame \<Rightarrow> bytes \<Rightarrow> chess_result" where
  "chess_rx_move games fn g d =
     (if length d \<noteq> 5 \<or> \<not> cg_started g then (games, [], [])
      else case (tt_chess_parse_square [d ! 1, d ! 2], tt_chess_parse_square [d ! 3, d ! 4]) of
        (Some (fr, ff), Some (tr, tf)) \<Rightarrow>
          if ch_to_move (cg_board g) = cg_self_color g then (games, [], [])
          else
            let (moved, b) = tt_chess_move (cg_board g) fr ff tr tf in
            if \<not> moved then (games, [], [])
            else
              let g' = g \<lparr>cg_board := b\<rparr>;
                  (games', evs) = chess_check_end (games(fn \<mapsto> g')) fn g'
              in (games', [], ev_simple TT_EV_CHESS_MOVE fn (Some [d ! 1, d ! 2, d ! 3, d ! 4]) 4 0 @ evs)
      | _ \<Rightarrow> (games, [], []))"

definition chess_rx :: "chess_games \<Rightarrow> nat \<Rightarrow> byte \<Rightarrow> bytes \<Rightarrow> chess_result" where
  "chess_rx games fn ty d =
     (if fn \<ge> TT_MAX_FRIENDS_CHESS \<or> length d < 1 then (games, [], [])
      else if ty = TT_GAME_PACKET_INVITE then chess_rx_invite games fn d
      else if ty \<noteq> TT_GAME_PACKET_DATA then (games, [], [])
      else case games fn of
        None \<Rightarrow> (games, [], [])
      | Some g \<Rightarrow>
          if hd d = TT_CHESS_PKT_ACCEPT then
            (if length d \<noteq> 1 \<or> cg_pending_invite g \<or> cg_started g then (games, [], [])
             else (games(fn \<mapsto> g \<lparr>cg_started := True\<rparr>), [],
                   ev_simple TT_EV_CHESS_START fn None 0 (if cg_self_color g = TT_COLOR_WHITE then 1 else 0)))
          else if hd d = TT_CHESS_PKT_MOVE then chess_rx_move games fn g d
          else if hd d = TT_CHESS_PKT_RESIGN then
            (if length d \<noteq> 1 \<or> \<not> cg_started g then (games, [], [])
             else let (games', evs) = chess_end games fn 2 True in (games', [], evs))
          else (games, [], []))"

text \<open>Where a custom packet goes: tunnel packets to the tunnel engine, game packets to \<^verbatim>\<open>chess_rx\<close>.\<close>

datatype route = RouteDrop | RouteTunnelE2EE bytes | RouteTunnel bytes | RouteChess byte bytes

definition cb_friend_lossless_packet :: "bytes \<Rightarrow> route" where
  "cb_friend_lossless_packet d =
     (if length d < 1 then RouteDrop
      else if d ! 0 = 164 \<or> d ! 0 = 165 then
        (if length d < 2 \<or> d ! 1 \<noteq> 1 then RouteDrop else RouteTunnelE2EE (drop 2 d))
      else if d ! 0 = 162 \<or> d ! 0 = 163 then RouteTunnel d
      else if length d < TT_GAME_HEADER_SIZE then RouteDrop
      else if d ! 0 \<noteq> TT_GAME_PACKET_INVITE \<and> d ! 0 \<noteq> TT_GAME_PACKET_DATA then RouteDrop
      else if d ! 1 \<noteq> TT_GAME_VERSION \<or> d ! 2 \<noteq> TT_GAME_TYPE_CHESS then RouteDrop
      else RouteChess (d ! 0) (drop TT_GAME_HEADER_SIZE d))"

definition cb_friend_lossy_packet :: "bytes \<Rightarrow> route" where
  "cb_friend_lossy_packet d =
     (if length d \<ge> 2 \<and> d ! 0 = 201 \<and> d ! 1 = 1 then RouteTunnelE2EE (drop 2 d) else RouteTunnel d)"

definition chess_deliver :: "chess_games \<Rightarrow> nat \<Rightarrow> bytes \<Rightarrow> chess_result" where
  "chess_deliver games fn d =
     (case cb_friend_lossless_packet d of RouteChess ty p \<Rightarrow> chess_rx games fn ty p | _ \<Rightarrow> (games, [], []))"

section \<open>Commands\<close>

text \<open>The 32 random bits are the argument \<open>r\<close>.\<close>

definition handle_cmd_chess_invite :: "bool \<Rightarrow> u32 \<Rightarrow> chess_games \<Rightarrow> nat \<Rightarrow> chess_result" where
  "handle_cmd_chess_invite ok r games fn =
     (if fn \<ge> TT_MAX_FRIENDS_CHESS \<or> games fn \<noteq> None then (games, [], [])
      else
        let c = (if bit r 0 then TT_COLOR_BLACK else TT_COLOR_WHITE);
            g = game_zero \<lparr>cg_board := tt_chess_init, cg_self_color := c, cg_id := r\<rparr>;
            (sent, pkts) = chess_send ok TT_GAME_PACKET_INVITE (cg_id g) [TT_CHESS_PKT_INVITE, color_byte (other_color c)]
        in if sent then (games(fn \<mapsto> g), pkts, []) else (chess_free (games(fn \<mapsto> g)) fn, pkts, []))"

definition handle_cmd_chess_accept :: "bool \<Rightarrow> chess_games \<Rightarrow> nat \<Rightarrow> chess_result" where
  "handle_cmd_chess_accept ok games fn =
     (if fn \<ge> TT_MAX_FRIENDS_CHESS then (games, [], [])
      else case games fn of
        None \<Rightarrow> (games, [], [])
      | Some g \<Rightarrow>
          if \<not> cg_pending_invite g then (games, [], [])
          else
            let g' = g \<lparr>cg_board := tt_chess_init, cg_pending_invite := False, cg_started := True\<rparr>;
                (sent, pkts) = chess_send ok TT_GAME_PACKET_DATA (cg_id g') [TT_CHESS_PKT_ACCEPT]
            in if sent then (games(fn \<mapsto> g'), pkts,
                   ev_simple TT_EV_CHESS_START fn None 0 (if cg_self_color g' = TT_COLOR_WHITE then 1 else 0))
               else (chess_free (games(fn \<mapsto> g')) fn, pkts, []))"

definition handle_cmd_chess_decline :: "chess_games \<Rightarrow> nat \<Rightarrow> chess_result" where
  "handle_cmd_chess_decline games fn =
     (if fn \<ge> TT_MAX_FRIENDS_CHESS then (games, [], [])
      else case games fn of
        None \<Rightarrow> (games, [], [])
      | Some g \<Rightarrow> if cg_pending_invite g then (chess_free games fn, [], []) else (games, [], []))"

definition handle_cmd_chess_move :: "bool \<Rightarrow> chess_games \<Rightarrow> nat \<Rightarrow> bytes \<Rightarrow> chess_result" where
  "handle_cmd_chess_move ok games fn mv =
     (if fn \<ge> TT_MAX_FRIENDS_CHESS then (games, [], [])
      else case games fn of
        None \<Rightarrow> (games, [], [])
      | Some g \<Rightarrow>
          if \<not> cg_started g \<or> length mv \<noteq> 4 then (games, [], [])
          else case (tt_chess_parse_square [mv ! 0, mv ! 1], tt_chess_parse_square [mv ! 2, mv ! 3]) of
            (Some (fr, ff), Some (tr, tf)) \<Rightarrow>
              if ch_to_move (cg_board g) \<noteq> cg_self_color g then (games, [], [])
              else
                let (moved, b) = tt_chess_move (cg_board g) fr ff tr tf in
                if \<not> moved then (games, [], [])
                else
                  let g' = g \<lparr>cg_board := b\<rparr>; games1 = games(fn \<mapsto> g');
                      (sent, pkts) = chess_send ok TT_GAME_PACKET_DATA (cg_id g')
                         [TT_CHESS_PKT_MOVE, mv ! 0, mv ! 1, mv ! 2, mv ! 3]
                  in if \<not> sent then (let (games2, evs) = chess_end games1 fn 2 False in (games2, pkts, evs))
                     else (let (games2, evs) = chess_check_end games1 fn g' in (games2, pkts, evs))
          | _ \<Rightarrow> (games, [], []))"

definition handle_cmd_chess_resign :: "bool \<Rightarrow> chess_games \<Rightarrow> nat \<Rightarrow> chess_result" where
  "handle_cmd_chess_resign ok games fn =
     (if fn \<ge> TT_MAX_FRIENDS_CHESS then (games, [], [])
      else case games fn of
        None \<Rightarrow> (games, [], [])
      | Some g \<Rightarrow>
          if \<not> cg_started g then (games, [], [])
          else
            let (sent, pkts) = chess_send ok TT_GAME_PACKET_DATA (cg_id g) [TT_CHESS_PKT_RESIGN];
                (games', evs) = chess_end games fn 2 False
            in (games', pkts, evs))"

section \<open>Two peers\<close>

definition deliver_all :: "chess_games \<Rightarrow> nat \<Rightarrow> bytes list \<Rightarrow> chess_games" where
  "deliver_all games fn pkts = foldl (\<lambda>g p. fst (chess_deliver g fn p)) games pkts"

datatype chess_cmd = CmdMove bytes | CmdResign

definition chess_do :: "chess_cmd \<Rightarrow> chess_games \<Rightarrow> nat \<Rightarrow> chess_result" where
  "chess_do cmd games fn =
     (case cmd of CmdMove mv \<Rightarrow> handle_cmd_chess_move True games fn mv | CmdResign \<Rightarrow> handle_cmd_chess_resign True games fn)"

text \<open>
  One command on either side, its packets delivered to the other: \<open>a\<close> is the number under which
  the first peer knows the second, \<open>b\<close> the converse.
\<close>

definition peers_step :: "nat \<Rightarrow> nat \<Rightarrow> chess_games \<times> chess_games \<Rightarrow> bool \<times> chess_cmd \<Rightarrow> chess_games \<times> chess_games" where
  "peers_step a b G c =
     (if fst c then (let (GA, pkts, _) = chess_do (snd c) (fst G) a in (GA, deliver_all (snd G) b pkts))
      else (let (GB, pkts, _) = chess_do (snd c) (snd G) b in (deliver_all (fst G) a pkts, GB)))"

definition peers_handshake :: "u32 \<Rightarrow> nat \<Rightarrow> nat \<Rightarrow> chess_games \<times> chess_games \<Rightarrow> chess_games \<times> chess_games" where
  "peers_handshake r a b G =
     (let (GA, pkts, _) = handle_cmd_chess_invite True r (fst G) a;
          GB = deliver_all (snd G) b pkts;
          (GB', pkts', _) = handle_cmd_chess_accept True GB b
      in (deliver_all GA a pkts', GB'))"

definition game_sync :: "TTChessGame \<Rightarrow> TTChessGame \<Rightarrow> bool" where
  "game_sync g h \<longleftrightarrow> cg_started g \<and> cg_started h \<and> \<not> cg_pending_invite g \<and> \<not> cg_pending_invite h \<and>
     cg_board h = cg_board g \<and> cg_self_color h = other_color (cg_self_color g) \<and> chess_played (cg_board g)"

definition peers_agree :: "TTChessGame option \<Rightarrow> TTChessGame option \<Rightarrow> bool" where
  "peers_agree x y \<longleftrightarrow> (x = None \<and> y = None) \<or> (\<exists>g h. x = Some g \<and> y = Some h \<and> game_sync g h)"

lemma other_other [simp]: "other_color (other_color c) = c"
  by (cases c) (simp_all add: other_color_def)

lemma other_neq [simp]: "other_color c \<noteq> c" "c \<noteq> other_color c"
  by (cases c; simp add: other_color_def)+

lemma game_sync_sym: "game_sync g h \<longleftrightarrow> game_sync h g"
  by (auto simp: game_sync_def)

lemma peers_agree_sym: "peers_agree x y \<longleftrightarrow> peers_agree y x"
  by (auto simp: peers_agree_def game_sync_sym)

lemma chess_send_delivered:
  assumes "ty = 160 \<or> ty = 161" "length payload \<le> 8"
  obtains p where "chess_send True ty gid payload = (True, [p])" "chess_deliver G fn p = chess_rx G fn ty payload"
proof -
  obtain b0 b1 b2 b3 where b: "be32 gid = [b0, b1, b2, b3]" by (simp add: be32_def)
  have "cb_friend_lossless_packet ([ty, 1, 1, b0, b1, b2] @ payload) = RouteChess ty payload"
    using assms(1) by (auto simp: cb_friend_lossless_packet_def)
  moreover have "chess_send True ty gid payload = (True, [[ty, 1, 1, b0, b1, b2] @ payload])"
    using assms(2) by (simp add: chess_send_def chess_packet_def b numeral_eq_Suc)
  ultimately show ?thesis using that by (simp add: chess_deliver_def)
qed

lemma check_end_other: "fn < 256 \<Longrightarrow> G fn = Some g \<Longrightarrow>
   fst (chess_check_end G fn g) fn = (if ch_status (cg_board g) \<in> {TT_CHESS_CHECKMATE, TT_CHESS_STALEMATE} then None else Some g)"
  by (simp add: chess_check_end_def chess_end_def chess_free_def)

text \<open>A move made on one side and its packet on the other have the same effect.\<close>

lemma move_synced:
  assumes "a < 256" "b < 256" "GA a = Some g" "GB b = Some h" "game_sync g h"
    and cmd: "handle_cmd_chess_move True GA a mv = (GA', pkts, evs)"
  shows "peers_agree (GA' a) (deliver_all GB b pkts b)"
proof -
  note s = assms(5) [unfolded game_sync_def]
  let ?from = "tt_chess_parse_square [mv ! 0, mv ! 1]" and ?to = "tt_chess_parse_square [mv ! 2, mv ! 3]"
  show ?thesis
  proof (cases "length mv = 4 \<and> ?from \<noteq> None \<and> ?to \<noteq> None \<and> ch_to_move (cg_board g) = cg_self_color g \<and>
      fst (tt_chess_move (cg_board g) (fst (the ?from)) (snd (the ?from)) (fst (the ?to)) (snd (the ?to)))")
    case False
    then have "GA' = GA \<and> pkts = []"
      using cmd assms(1,3) s by (auto simp: handle_cmd_chess_move_def split_beta split: option.splits if_splits)
    then show ?thesis using assms by (auto simp: deliver_all_def peers_agree_def)
  next
    case True
    then obtain fr ff tr tf where sq: "?from = Some (fr, ff)" "?to = Some (tr, tf)" by (metis not_None_eq surj_pair)
    define b' where "b' = snd (tt_chess_move (cg_board g) fr ff tr tf)"
    have acc: "fst (tt_chess_move (cg_board g) fr ff tr tf)" using True sq by simp
    then have mvd: "tt_chess_move (cg_board g) fr ff tr tf = (True, b')" by (simp add: b'_def prod_eq_iff)
    have pl: "chess_played b'" using chess_played.move [OF _ acc] s by (simp add: b'_def)
    let ?g = "g \<lparr>cg_board := b'\<rparr>" and ?h = "h \<lparr>cg_board := b'\<rparr>"
    let ?pl = "[254, mv ! 0, mv ! 1, mv ! 2, mv ! 3]"
    obtain p where p: "chess_send True 161 (cg_id g) ?pl = (True, [p])" "chess_deliver GB b p = chess_rx GB b 161 ?pl"
      by (rule chess_send_delivered [of 161 ?pl "cg_id g" GB b]) simp_all
    have A: "GA' = fst (chess_check_end (GA(a \<mapsto> ?g)) a ?g)" "pkts = [p]"
      using cmd True sq mvd p(1) assms(1,3) s by (simp_all add: handle_cmd_chess_move_def Let_def split_beta)
    have B: "fst (chess_rx GB b 161 ?pl) = fst (chess_check_end (GB(b \<mapsto> ?h)) b ?h)"
      using True sq mvd assms(2,4) s by (simp add: chess_rx_def chess_rx_move_def Let_def split_beta)
    have "deliver_all GB b pkts b = fst (chess_check_end (GB(b \<mapsto> ?h)) b ?h) b"
      unfolding deliver_all_def A(2) foldl.simps p(2) B ..
    moreover have "game_sync ?g ?h" using s pl by (simp add: game_sync_def)
    ultimately show ?thesis using A(1) assms(1,2) by (auto simp: check_end_other peers_agree_def)
  qed
qed

lemma resign_synced:
  assumes "a < 256" "b < 256" "GA a = Some g" "GB b = Some h" "game_sync g h"
    and cmd: "handle_cmd_chess_resign True GA a = (GA', pkts, evs)"
  shows "peers_agree (GA' a) (deliver_all GB b pkts b)"
proof -
  note s = assms(5) [unfolded game_sync_def]
  obtain p where p: "chess_send True 161 (cg_id g) [255] = (True, [p])" "chess_deliver GB b p = chess_rx GB b 161 [255]"
    by (rule chess_send_delivered [of 161 "[255]" "cg_id g" GB b]) simp_all
  have "GA' a = None" "pkts = [p]"
    using cmd p(1) assms(1,3) s by (auto simp: handle_cmd_chess_resign_def Let_def split_beta chess_end_def chess_free_def)
  moreover have "fst (chess_rx GB b 161 [255]) b = None"
    using assms(2,4) s by (simp add: chess_rx_def Let_def chess_end_def chess_free_def)
  ultimately show ?thesis by (simp add: deliver_all_def p(2) peers_agree_def)
qed

lemma do_synced:
  assumes "a < 256" "b < 256" "peers_agree (GA a) (GB b)" "chess_do cmd GA a = (GA', pkts, evs)"
  shows "peers_agree (GA' a) (deliver_all GB b pkts b)"
proof (cases "GA a")
  case None
  then have "GA' = GA \<and> pkts = []"
    using assms(1,4) by (auto simp: chess_do_def handle_cmd_chess_move_def handle_cmd_chess_resign_def split: chess_cmd.splits)
  then show ?thesis using assms(3) by (simp add: deliver_all_def)
next
  case (Some g)
  then obtain h where "GB b = Some h" "game_sync g h" using assms(3) by (auto simp: peers_agree_def)
  then show ?thesis
    using move_synced [where GA = GA and GB = GB, OF assms(1,2) Some] resign_synced [where GA = GA and GB = GB, OF assms(1,2) Some] assms(4)
    by (cases cmd) (auto simp: chess_do_def)
qed

lemma step_synced:
  assumes "a < 256" "b < 256" "peers_agree (fst G a) (snd G b)"
  shows "peers_agree (fst (peers_step a b G c) a) (snd (peers_step a b G c) b)"
proof (cases "fst c")
  case True
  obtain GA' pkts evs where "chess_do (snd c) (fst G) a = (GA', pkts, evs)" by (metis surj_pair)
  then show ?thesis using do_synced [where GA = "fst G" and GB = "snd G", OF assms] True by (simp add: peers_step_def)
next
  case False
  have sym: "peers_agree (snd G b) (fst G a)" using assms(3) peers_agree_sym by blast
  obtain GB' pkts evs where "chess_do (snd c) (snd G) b = (GB', pkts, evs)" by (metis surj_pair)
  then show ?thesis
    using do_synced [where GA = "snd G" and GB = "fst G", OF assms(2,1) sym] False peers_agree_sym by (simp add: peers_step_def)
qed

lemma handshake_synced:
  assumes "a < 256" "b < 256" "fst G a = None" "snd G b = None"
  shows "peers_agree (fst (peers_handshake r a b G) a) (snd (peers_handshake r a b G) b)"
    "fst (peers_handshake r a b G) a \<noteq> None"
proof -
  define c where "c = (if bit r 0 then TT_COLOR_BLACK else TT_COLOR_WHITE)"
  define g where "g = game_zero \<lparr>cg_board := tt_chess_init, cg_self_color := c, cg_id := r\<rparr>"
  define h where "h = game_zero \<lparr>cg_pending_invite := True, cg_self_color := other_color c\<rparr>"
  define h' where "h' = h \<lparr>cg_board := tt_chess_init, cg_pending_invite := False, cg_started := True\<rparr>"
  let ?inv = "[1, color_byte (other_color c)]"
  obtain p where p: "chess_send True 160 r ?inv = (True, [p])" "chess_deliver (snd G) b p = chess_rx (snd G) b 160 ?inv"
    by (rule chess_send_delivered [of 160 ?inv r "snd G" b]) simp_all
  have A: "handle_cmd_chess_invite True r (fst G) a = ((fst G)(a \<mapsto> g), [p], [])"
    using assms(1,3) p(1) by (simp add: handle_cmd_chess_invite_def Let_def g_def c_def)
  have B: "deliver_all (snd G) b [p] = (snd G)(b \<mapsto> h)"
    using assms(2,4) by (cases c) (simp_all add: deliver_all_def p(2) chess_rx_def chess_rx_invite_def h_def color_byte_def other_color_def)
  obtain q where q: "chess_send True 161 (cg_id h') [2] = (True, [q])"
    "chess_deliver ((fst G)(a \<mapsto> g)) a q = chess_rx ((fst G)(a \<mapsto> g)) a 161 [2]"
    by (rule chess_send_delivered [of 161 "[2]" "cg_id h'" "(fst G)(a \<mapsto> g)" a]) simp_all
  have C: "fst (handle_cmd_chess_accept True ((snd G)(b \<mapsto> h)) b) = (snd G)(b \<mapsto> h')"
    "fst (snd (handle_cmd_chess_accept True ((snd G)(b \<mapsto> h)) b)) = [q]"
    using assms(2) q(1) by (simp_all add: handle_cmd_chess_accept_def Let_def h'_def split_beta) (simp_all add: h_def)
  have D: "deliver_all ((fst G)(a \<mapsto> g)) a [q] a = Some (g \<lparr>cg_started := True\<rparr>)"
    using assms(1) by (simp add: deliver_all_def q(2) chess_rx_def) (simp add: g_def game_zero_def)
  have H: "fst (peers_handshake r a b G) a = Some (g \<lparr>cg_started := True\<rparr>)" "snd (peers_handshake r a b G) b = Some h'"
    using A B C D by (simp_all add: peers_handshake_def Let_def split_beta)
  have "game_sync (g \<lparr>cg_started := True\<rparr>) h'"
    by (simp add: game_sync_def h'_def h_def g_def game_zero_def start)
  then show "peers_agree (fst (peers_handshake r a b G) a) (snd (peers_handshake r a b G) b)"
    "fst (peers_handshake r a b G) a \<noteq> None"
    by (simp_all add: H peers_agree_def)
qed



end
