(* ===== verification/TunnelLoop.thy ===== *)
theory TunnelLoop
  imports Tunnel ChessWire
begin

text \<open>
  The moving parts of the tunnel engine, \<^verbatim>\<open>src/src/tunnel.c\<close>: reading a connection into its window, returning
  and taking credit, opening connections on the host, the poll of the main loop, the receive handlers,
  and the operations and commands of the user interface.
\<close>

section \<open>Reading a connection\<close>

text \<open>\<^verbatim>\<open>tt_recv\<close> on a stream of at most \<open>mx\<close> bytes; \<^const>\<open>None\<close> is \<^verbatim>\<open>EAGAIN\<close>.\<close>

definition recv_stream :: "nat \<Rightarrow> int \<Rightarrow> tstate \<Rightarrow> recv_item option \<times> tstate" where
  "recv_stream mx fd st =
     (case tu_in st fd of
        [] \<Rightarrow> (None, st)
      | RErr # r \<Rightarrow> (Some RErr, st \<lparr>tu_in := (tu_in st)(fd := r)\<rparr>)
      | RData d # r \<Rightarrow>
          (Some (RData (take mx d)),
           st \<lparr>tu_in := (tu_in st)(fd := (if length d \<le> mx then r else RData (drop mx d) # r))\<rparr>))"

fun item_size :: "recv_item \<Rightarrow> nat" where
  "item_size (RData d) = Suc (length d)"
| "item_size RErr = 1"

lemma recv_shrinks:
  assumes "recv_stream mx fd st = (Some (RData d), st1)" "d \<noteq> []"
  shows "sum_list (map item_size (tu_in st1 fd)) < sum_list (map item_size (tu_in st fd))"
proof -
  from assms(1) obtain d' r where q: "tu_in st fd = RData d' # r"
    by (auto simp: recv_stream_def split: list.splits recv_item.splits)
  have "mx \<noteq> 0" "d' \<noteq> []" using assms q by (auto simp: recv_stream_def)
  then show ?thesis using assms q by (auto simp: recv_stream_def)
qed

lemma flush_keeps_in: "flush_loop X mx c st = (rc, c', st') \<Longrightarrow> tu_in st' = tu_in st"
  using sends_flush [of st X mx c] by (simp add: sends_def)

lemma flush_conn: "\<exists>u b. fst (snd (flush_loop X mx c st)) = c \<lparr>cn_unacked := u, cn_out := b\<rparr>"
proof (induction X mx c st rule: flush_loop.induct)
  case (1 X mx c st)
  let ?ch = "min (length (cn_out c)) mx"
  obtain rc st1 where e: "tcp_send_ex X (cn_fn c) (cn_port_idx c) (cn_connid c) 4 (take ?ch (cn_out c)) st = (rc, st1)"
    by (metis prod.exhaust)
  have c: "\<exists>u b. c = c \<lparr>cn_unacked := u, cn_out := b\<rparr>" by (intro exI [of _ "cn_unacked c"] exI [of _ "cn_out c"]) simp
  show ?case
    by (subst flush_loop.simps) (use e c 1 [OF _ refl e [symmetric]] in \<open>auto simp: Let_def\<close>)
qed

lemma flush_keeps_sock: "flush_loop X mx c st = (rc, c', st') \<Longrightarrow> cn_sock c' = cn_sock c"
  using flush_conn [of X mx c st] by auto

lemma out_add_sock: "conn_out_add d c = (ok, c') \<Longrightarrow> cn_sock c' = cn_sock c"
  by (auto simp: conn_out_add_def split: if_splits)

function drain_loop :: "tenv \<Rightarrow> nat \<Rightarrow> TTTunnelConn \<Rightarrow> tstate \<Rightarrow> bool \<times> TTTunnelConn \<times> tstate" where
  "drain_loop X mx c st =
     (case recv_stream mx (cn_sock c) st of
        (None, st1) \<Rightarrow> (True, c, st1)
      | (Some RErr, st1) \<Rightarrow> (False, c, st1)
      | (Some (RData d), st1) \<Rightarrow>
          if d = [] then (False, c, st1)
          else case conn_out_add d c of
            (False, c1) \<Rightarrow> (False, c1, st1)
          | (True, c1) \<Rightarrow>
              (case flush_loop X mx c1 st1 of
                 (FLUSH_FATAL, c2, st2) \<Rightarrow> (False, c2, st2)
               | (FLUSH_CONGESTED, c2, st2) \<Rightarrow> (True, c2, st2)
               | (FLUSH_EMPTY, c2, st2) \<Rightarrow> drain_loop X mx c2 st2))"
  by pat_completeness auto
termination
  by (relation "measure (\<lambda>(X, mx, c, st). sum_list (map item_size (tu_in st (cn_sock c))))")
    (auto dest: recv_shrinks [OF sym] simp: flush_keeps_in [OF sym] flush_keeps_sock [OF sym] out_add_sock [OF sym])

declare drain_loop.simps [simp del]

definition conn_drain_out :: "tenv \<Rightarrow> TTTunnelConn \<Rightarrow> tstate \<Rightarrow> bool \<times> TTTunnelConn \<times> tstate" where
  "conn_drain_out X c st =
     (case conn_flush_out X c st of
        (FLUSH_FATAL, c1, st1) \<Rightarrow> (False, c1, st1)
      | (FLUSH_CONGESTED, c1, st1) \<Rightarrow> (True, c1, st1)
      | (FLUSH_EMPTY, c1, st1) \<Rightarrow> drain_loop X (conn_read_max st) c1 st1)"

section \<open>Credit\<close>

definition conn_return_credit :: "tenv \<Rightarrow> TTTunnelConn \<Rightarrow> tstate \<Rightarrow> TTTunnelConn \<times> tstate" where
  "conn_return_credit X c st =
     (let due = cn_ack_due c + 1 in
      if due \<ge> TT_TUNNEL_ACK_BATCH \<or> due \<ge> TT_TUNNEL_TCP_WINDOW
      then (c \<lparr>cn_ack_due := 0\<rparr>, tcp_send X (cn_fn c) (cn_port_idx c) (cn_connid c) TT_TCP_ACK (be16 due) st)
      else (c \<lparr>cn_ack_due := due\<rparr>, st))"

definition credit_of :: "bytes \<Rightarrow> nat" where
  "credit_of payload = (if length payload \<ge> 2 then unat (rd16 (payload ! 0) (payload ! 1)) else 1)"

definition conn_take_credit :: "TTTunnelConn \<Rightarrow> bytes \<Rightarrow> tstate \<Rightarrow> TTTunnelConn \<times> tstate" where
  "conn_take_credit c payload st =
     (let n = credit_of payload;
          c1 = c \<lparr>cn_unacked := (if n \<ge> unat (cn_unacked c) then 0 else cn_unacked c - of_nat n)\<rparr>
      in if cn_peer_gone c1 \<and> cn_unacked c1 = 0 then conn_free c1 st else (c1, st))"

definition conn_mark_peer_gone :: "TTTunnelConn \<Rightarrow> tstate \<Rightarrow> TTTunnelConn \<times> tstate" where
  "conn_mark_peer_gone c st =
     (if cn_unacked c = 0 then conn_free c st
      else (c \<lparr>cn_peer_gone := True, cn_sock := (if cn_sock c \<ge> 0 then -1 else cn_sock c)\<rparr>, tu_close (cn_sock c) st))"

section \<open>Opening connections\<close>

definition open_fail :: "tenv \<Rightarrow> TTTunnel \<Rightarrow> nat \<Rightarrow> TTTunnelConn \<Rightarrow> tstate \<Rightarrow> TTTunnel \<times> tstate" where
  "open_fail X tn j c st =
     (case conn_free c st of
        (c1, st1) \<Rightarrow> (conn_put j c1 tn, tcp_send X (cn_fn c) (cn_port_idx c) (cn_connid c) TT_TCP_OPEN_FAIL [] st1))"

definition host_open_conn :: "tenv \<Rightarrow> TTTunnel \<Rightarrow> nat \<Rightarrow> u16 \<Rightarrow> u16 \<Rightarrow> tstate \<Rightarrow> TTTunnel \<times> tstate" where
  "host_open_conn X tn fn port_idx connid st =
     (if conn_find tn fn connid \<noteq> None then (tn, st)
      else case conn_alloc tn of
        None \<Rightarrow> (tn, tcp_send X fn port_idx connid TT_TCP_OPEN_FAIL [] st)
      | Some (j, c0) \<Rightarrow>
          let fd = z_socket X (tu_sockets st); st1 = st \<lparr>tu_sockets := tu_sockets st + 1\<rparr>;
              c = c0 \<lparr>cn_fn := fn, cn_port_idx := port_idx, cn_connid := connid, cn_sock := (if fd < 0 then -1 else fd)\<rparr> in
          if fd < 0 then open_fail X tn j c st1
          else case (if unat port_idx \<ge> tt_port_list_len (tn_tcp tn) then None
                     else z_resolve X (tn_server_host tn) (tt_port_list_port (tn_tcp tn) (unat port_idx))) of
            None \<Rightarrow> open_fail X tn j c st1
          | Some srv \<Rightarrow>
              (case z_connect X srv of
                 CONN_DONE \<Rightarrow> (conn_put j c tn, tcp_send X fn port_idx connid TT_TCP_OPEN_ACK [] st1)
               | CONN_INPROGRESS \<Rightarrow> (conn_put j (c \<lparr>cn_connecting := True\<rparr>) tn, st1)
               | CONN_ERROR \<Rightarrow> open_fail X tn j c st1))"

section \<open>Poll\<close>

definition drain_or_fin :: "tenv \<Rightarrow> TTTunnelConn \<Rightarrow> tstate \<Rightarrow> TTTunnelConn \<times> tstate" where
  "drain_or_fin X c st =
     (case conn_drain_out X c st of
        (ok, c1, st1) \<Rightarrow>
          if ok then (c1, st1) else conn_free c1 (tcp_send X (cn_fn c1) (cn_port_idx c1) (cn_connid c1) TT_TCP_FIN [] st1))"

definition finish_connect :: "tenv \<Rightarrow> TTTunnelConn \<Rightarrow> tstate \<Rightarrow> TTTunnelConn \<times> tstate" where
  "finish_connect X c st =
     (case z_soerror X (cn_sock c) of
        None \<Rightarrow> (c, st)
      | Some err \<Rightarrow>
          if err = 0 then
            let st1 = tcp_send X (cn_fn c) (cn_port_idx c) (cn_connid c) TT_TCP_OPEN_ACK [] st
            in (c \<lparr>cn_connecting := False, cn_pend := []\<rparr>,
                if cn_pend c \<noteq> [] then tu_log (OSend (cn_sock c) (cn_pend c)) st1 else st1)
          else
            (case conn_free c st of
               (c1, st1) \<Rightarrow> (c1, tcp_send X (cn_fn c) (cn_port_idx c) (cn_connid c) TT_TCP_OPEN_FAIL [] st1)))"

definition host_conn_poll :: "tenv \<Rightarrow> TTTunnelConn \<Rightarrow> tstate \<Rightarrow> TTTunnelConn \<times> tstate" where
  "host_conn_poll X c st =
     (if \<not> cn_used c then (c, st)
      else case (if cn_connecting c then finish_connect X c st else (c, st)) of
        (c1, st1) \<Rightarrow> if cn_used c1 \<and> cn_sock c1 \<ge> 0 then drain_or_fin X c1 st1 else (c1, st1))"

definition client_conn_poll :: "tenv \<Rightarrow> TTTunnelConn \<Rightarrow> tstate \<Rightarrow> TTTunnelConn \<times> tstate" where
  "client_conn_poll X c st = (if \<not> cn_used c \<or> cn_sock c < 0 then (c, st) else drain_or_fin X c st)"

definition retry_conn :: "tenv \<Rightarrow> TTTunnelConn \<Rightarrow> tstate \<Rightarrow> TTTunnelConn \<times> tstate" where
  "retry_conn X c st = (if cn_used c \<and> cn_sock c \<ge> 0 \<and> cn_out c \<noteq> [] then drain_or_fin X c st else (c, st))"

definition each_conn :: "(TTTunnelConn \<Rightarrow> tstate \<Rightarrow> TTTunnelConn \<times> tstate) \<Rightarrow> TTTunnel \<times> tstate \<Rightarrow> TTTunnel \<times> tstate" where
  "each_conn f p =
     foldl (\<lambda>(tn, st) j. case f (tn_conns tn j) st of (c, st1) \<Rightarrow> (conn_put j c tn, st1)) p [0..<TT_TUNNEL_MAX_CONNS]"

definition host_sock_poll :: "tenv \<Rightarrow> TTTunnel \<Rightarrow> tstate \<Rightarrow> nat \<Rightarrow> tstate" where
  "host_sock_poll X tn st k =
     (let s = tn_socks tn k in
      if \<not> ks_used s \<or> ks_sock s < 0 then st
      else case recv_dgram (ks_sock s) st of
        (None, st1) \<Rightarrow> st1
      | (Some (_, d), st1) \<Rightarrow> if d \<noteq> [] then tunnel_send X (ks_fn s) (unat (ks_port_idx s)) d st1 else st1)"

definition tunnel_poll_host :: "tenv \<Rightarrow> TTTunnel \<Rightarrow> tstate \<Rightarrow> TTTunnel \<times> tstate" where
  "tunnel_poll_host X tn st =
     (let p = each_conn (host_conn_poll X) (tn, foldl (host_sock_poll X tn) st [0..<TT_MAX_FRIENDS * TT_TUNNEL_MAX_PORTS])
      in if tu_e2ee (snd p) \<noteq> None then each_conn (retry_conn X) p else p)"

definition client_sock_poll :: "tenv \<Rightarrow> TTTunnel \<times> tstate \<Rightarrow> nat \<Rightarrow> TTTunnel \<times> tstate" where
  "client_sock_poll X p i =
     (case p of (tn, st) \<Rightarrow>
        if tn_listen_sock tn i < 0 then p
        else case recv_dgram (tn_listen_sock tn i) st of
          (None, st1) \<Rightarrow> (tn, st1)
        | (Some (from_addr, d), st1) \<Rightarrow>
            if d = [] then (tn, st1)
            else (if tn_peer tn i = None then tn \<lparr>tn_peer := (tn_peer tn)(i \<mapsto> from_addr)\<rparr> else tn,
                  tunnel_send X (tn_peer_fn tn) i d st1))"

text \<open>Accepts the waiting connections of one port; without a free slot it closes the new one and stops.\<close>

fun accept_loop :: "tenv \<Rightarrow> nat \<Rightarrow> int list \<Rightarrow> TTTunnel \<Rightarrow> tstate \<Rightarrow> TTTunnel \<times> tstate" where
  "accept_loop X i [] tn st = (tn, st \<lparr>tu_accept := (tu_accept st)(tn_tcp_listen_sock tn i := [])\<rparr>)"
| "accept_loop X i (fd # fds) tn st =
     (case conn_alloc tn of
        None \<Rightarrow> (tn, tu_close fd (st \<lparr>tu_accept := (tu_accept st)(tn_tcp_listen_sock tn i := fds)\<rparr>))
      | Some (j, c0) \<Rightarrow>
          let c = c0 \<lparr>cn_fn := tn_peer_fn tn, cn_port_idx := of_nat i, cn_connid := tn_next_connid tn, cn_sock := fd\<rparr>;
              nx = tn_next_connid tn + 1
          in accept_loop X i fds ((conn_put j c tn) \<lparr>tn_next_connid := (if nx = 0 then 1 else nx)\<rparr>)
               (tcp_send X (tn_peer_fn tn) (cn_port_idx c) (cn_connid c) TT_TCP_OPEN [] st))"

definition accept_port :: "tenv \<Rightarrow> TTTunnel \<times> tstate \<Rightarrow> nat \<Rightarrow> TTTunnel \<times> tstate" where
  "accept_port X p i =
     (case p of (tn, st) \<Rightarrow>
        if tn_tcp_listen_sock tn i < 0 then p else accept_loop X i (tu_accept st (tn_tcp_listen_sock tn i)) tn st)"

definition tunnel_poll_client :: "tenv \<Rightarrow> TTTunnel \<Rightarrow> tstate \<Rightarrow> TTTunnel \<times> tstate" where
  "tunnel_poll_client X tn st =
     (let p1 = (if tn_peer_fn tn \<noteq> UINT32_MAX then foldl (client_sock_poll X) (tn, st) [0..<tt_port_list_len (tn_udp_local tn)] else (tn, st));
          p2 = foldl (accept_port X) p1 [0..<tt_port_list_len (tn_tcp_local (fst p1))];
          p3 = each_conn (client_conn_poll X) p2
      in each_conn (retry_conn X) p3)"

definition tunnel_kick :: "tenv \<Rightarrow> TTTunnel \<Rightarrow> tstate \<Rightarrow> TTTunnel \<times> tstate" where
  "tunnel_kick X tn st =
     (if tu_e2ee st = None \<or> tn_peer_fn tn = UINT32_MAX then (tn, st)
      else
        let ts = tun_session st (tn_peer_fn tn);
            st1 = (if \<not> s_active ts \<and> \<not> s_init_pending ts \<and> \<not> s_reply_due ts then tt_tunnel_e2ee_start X (tn_peer_fn tn) st else st);
            live = s_active (tun_session st1 (tn_peer_fn tn))
        in if live \<noteq> tn_e2ee_active tn
           then (tn \<lparr>tn_e2ee_active := live\<rparr>,
                 tu_push ((tt_event_new TT_EV_TUNNEL_E2EE) \<lparr>ev_ival := sint (tn_id tn), ev_ival2 := (if live then 1 else 0)\<rparr>) st1)
           else (tn, st1))"

definition tunnel_poll_one :: "tenv \<Rightarrow> tstate \<Rightarrow> nat \<Rightarrow> tstate" where
  "tunnel_poll_one X st i =
     (case tu_tunnels st i of
        None \<Rightarrow> st
      | Some tn \<Rightarrow>
          if tn_pending tn \<and> tn_host tn \<and> tn_pending_since tn \<noteq> 0 \<and> v_now (z_eng X) - tn_pending_since tn \<ge> TT_TUNNEL_PENDING_TIMEOUT then
            tunnel_free i tn (tu_push ((tt_event_new TT_EV_TUNNEL_ERROR) \<lparr>ev_ival := sint (tn_id tn),
                ev_str := Some (ascii ''The friend never accepted the tunnel invite.'')\<rparr>) st)
          else if tn_pending tn then st
          else
            (case tunnel_kick X (tunnel_resolve X tn) st of
               (tn1, st1) \<Rightarrow>
                 (case (if tn_host tn1 then tunnel_poll_host X tn1 st1 else tunnel_poll_client X tn1 st1) of
                    (tn2, st2) \<Rightarrow>
                      let st3 = tn_put i tn2 st2
                      in if tu_e2ee st3 \<noteq> None \<and> tn_peer_fn tn2 \<noteq> UINT32_MAX then snd (tunnel_carrier_retry X (tn_peer_fn tn2) st3) else st3)))"

definition tt_tunnel_poll :: "tenv \<Rightarrow> tstate \<Rightarrow> tstate" where
  "tt_tunnel_poll X st = foldl (tunnel_poll_one X) st [0..<TT_TUNNEL_MAX_TUNNELS]"

section \<open>Receiving\<close>

definition tunnel_rx_one :: "tenv \<Rightarrow> nat \<Rightarrow> nat \<Rightarrow> bytes \<Rightarrow> tstate \<Rightarrow> nat \<Rightarrow> tstate" where
  "tunnel_rx_one X fn port_idx payload st i =
     (case tu_tunnels st i of
        None \<Rightarrow> st
      | Some tn \<Rightarrow>
          if tn_pending tn then st
          else if tn_host tn then (case host_forward X tn fn port_idx payload st of (tn1, st1) \<Rightarrow> tn_put i tn1 st1)
          else if fn = tn_peer_fn tn \<and> port_idx < tt_port_list_len (tn_udp_local tn) \<and> tn_listen_sock tn port_idx \<ge> 0 then
            (case tn_peer tn port_idx of None \<Rightarrow> st | Some a \<Rightarrow> tu_log (OSendto (tn_listen_sock tn port_idx) a payload) st)
          else st)"

definition tt_tunnel_rx :: "tenv \<Rightarrow> nat \<Rightarrow> bytes \<Rightarrow> tstate \<Rightarrow> tstate" where
  "tt_tunnel_rx X fn data st =
     (if length data < 3 then st
      else if data ! 0 \<noteq> 200 \<or> data ! 1 \<noteq> 1 then st
      else foldl (tunnel_rx_one X fn (unat (data ! 2)) (drop 3 data)) st [0..<TT_TUNNEL_MAX_TUNNELS])"

text \<open>Applies an operation to the connection of a friend, when there is one.\<close>

definition at_conn :: "(TTTunnelConn \<Rightarrow> tstate \<Rightarrow> TTTunnelConn \<times> tstate) \<Rightarrow> TTTunnel \<Rightarrow> nat \<Rightarrow> u16 \<Rightarrow> tstate \<Rightarrow> TTTunnel \<times> tstate" where
  "at_conn f tn fn connid st =
     (case conn_find tn fn connid of
        None \<Rightarrow> (tn, st)
      | Some j \<Rightarrow> (case f (tn_conns tn j) st of (c, st1) \<Rightarrow> (conn_put j c tn, st1)))"

definition host_data :: "tenv \<Rightarrow> bytes \<Rightarrow> TTTunnelConn \<Rightarrow> tstate \<Rightarrow> TTTunnelConn \<times> tstate" where
  "host_data X payload c st =
     (let c1 = (if cn_connecting c then conn_pend payload c else c);
          st1 = (if \<not> cn_connecting c \<and> cn_sock c \<ge> 0 then tu_log (OSend (cn_sock c) payload) st else st)
      in conn_return_credit X c1 st1)"

definition client_data :: "tenv \<Rightarrow> bytes \<Rightarrow> TTTunnelConn \<Rightarrow> tstate \<Rightarrow> TTTunnelConn \<times> tstate" where
  "client_data X payload c st =
     (if cn_sock c \<ge> 0 then conn_return_credit X c (tu_log (OSend (cn_sock c) payload) st) else (c, st))"

definition tunnel_tcp_rx_host :: "tenv \<Rightarrow> TTTunnel \<Rightarrow> nat \<Rightarrow> u16 \<Rightarrow> u16 \<Rightarrow> byte \<Rightarrow> bytes \<Rightarrow> tstate \<Rightarrow> TTTunnel \<times> tstate" where
  "tunnel_tcp_rx_host X tn fn port_idx connid opcode payload st =
     (if opcode = TT_TCP_OPEN then host_open_conn X tn fn port_idx connid st
      else if opcode = TT_TCP_DATA then at_conn (host_data X payload) tn fn connid st
      else if opcode = TT_TCP_ACK then at_conn (\<lambda>c. conn_take_credit c payload) tn fn connid st
      else if opcode = TT_TCP_FIN then at_conn conn_mark_peer_gone tn fn connid st
      else (tn, st))"

definition tunnel_tcp_rx_client :: "tenv \<Rightarrow> TTTunnel \<Rightarrow> nat \<Rightarrow> u16 \<Rightarrow> u16 \<Rightarrow> byte \<Rightarrow> bytes \<Rightarrow> tstate \<Rightarrow> TTTunnel \<times> tstate" where
  "tunnel_tcp_rx_client X tn fn port_idx connid opcode payload st =
     (if unat port_idx \<ge> tt_port_list_len (tn_tcp_local tn) then (tn, st)
      else if opcode = TT_TCP_OPEN_FAIL then at_conn conn_free tn fn connid st
      else if opcode = TT_TCP_DATA then at_conn (client_data X payload) tn fn connid st
      else if opcode = TT_TCP_ACK then at_conn (\<lambda>c. conn_take_credit c payload) tn fn connid st
      else if opcode = TT_TCP_FIN then at_conn conn_mark_peer_gone tn fn connid st
      else (tn, st))"

definition tunnel_tcp_one :: "tenv \<Rightarrow> nat \<Rightarrow> u16 \<Rightarrow> u16 \<Rightarrow> byte \<Rightarrow> bytes \<Rightarrow> tstate \<Rightarrow> nat \<Rightarrow> tstate" where
  "tunnel_tcp_one X fn port_idx connid opcode payload st i =
     (case tu_tunnels st i of
        None \<Rightarrow> st
      | Some tn \<Rightarrow>
          if tn_pending tn then st
          else case (if tn_host tn then tunnel_tcp_rx_host X tn fn port_idx connid opcode payload st
                     else if fn = tn_peer_fn tn then tunnel_tcp_rx_client X tn fn port_idx connid opcode payload st
                     else (tn, st)) of
            (tn1, st1) \<Rightarrow> tn_put i tn1 st1)"

definition tt_tunnel_rx_tcp :: "tenv \<Rightarrow> nat \<Rightarrow> bytes \<Rightarrow> tstate \<Rightarrow> tstate" where
  "tt_tunnel_rx_tcp X fn data st =
     (if length data < 1 then st
      else if data ! 0 = 163 then tunnel_sig_rx fn data st
      else if data ! 0 \<noteq> 162 \<or> length data < 6 \<or> data ! 1 \<noteq> 1 then st
      else foldl (tunnel_tcp_one X fn (ucast (data ! 2)) (rd16 (data ! 3) (data ! 4)) (data ! 5) (drop 6 data)) st
             [0..<TT_TUNNEL_MAX_TUNNELS])"

text \<open>The tunnel packets among the custom packets that toxcore delivers.\<close>

definition tunnel_lossless :: "tenv \<Rightarrow> nat \<Rightarrow> bytes \<Rightarrow> tstate \<Rightarrow> tstate" where
  "tunnel_lossless X fn data st =
     (case cb_friend_lossless_packet data of
        RouteTunnelE2EE f \<Rightarrow>
          (case tt_tunnel_e2ee_rx X fn f TT_FRAME_DATA_MAX False st of
             (Inr pt, st1) \<Rightarrow> if pt \<noteq> [] then tt_tunnel_rx_tcp X fn pt st1 else st1
           | (Inl _, st1) \<Rightarrow> st1)
      | RouteTunnel d \<Rightarrow> tt_tunnel_rx_tcp X fn d st
      | _ \<Rightarrow> st)"

definition tunnel_lossy :: "tenv \<Rightarrow> nat \<Rightarrow> bytes \<Rightarrow> tstate \<Rightarrow> tstate" where
  "tunnel_lossy X fn data st =
     (case cb_friend_lossy_packet data of
        RouteTunnelE2EE f \<Rightarrow>
          (case tt_tunnel_e2ee_rx X fn f TT_FRAME_DATA_MAX True st of
             (Inr pt, st1) \<Rightarrow> if pt \<noteq> [] then tt_tunnel_rx X fn pt st1 else st1
           | (Inl _, st1) \<Rightarrow> st1)
      | RouteTunnel d \<Rightarrow> tt_tunnel_rx X fn d st
      | _ \<Rightarrow> st)"

section \<open>Sharing\<close>

definition tunnel_add_event :: "nat \<Rightarrow> TTTunnel \<Rightarrow> int \<Rightarrow> bytes \<Rightarrow> TTPortRangeList \<Rightarrow> TTPortRangeList \<Rightarrow> TTEvent" where
  "tunnel_add_event fn tn v host udp tcp =
     (tt_event_new TT_EV_TUNNEL_ADD) \<lparr>ev_fn := fn, ev_ival := sint (tn_id tn), ev_ival2 := v,
        ev_str := Some (take 299 (host @ ascii '' udp '' @ list_str udp @ ascii '' tcp '' @ list_str tcp))\<rparr>"

definition tt_tunnel_share :: "tenv \<Rightarrow> nat \<Rightarrow> bytes \<Rightarrow> TTPortRangeList \<Rightarrow> TTPortRangeList \<Rightarrow> tstate \<Rightarrow> u32 \<times> tstate" where
  "tt_tunnel_share X fn server_host udp tcp st =
     (if fn \<ge> TT_MAX_FRIENDS then (0, st)
      else case tunnel_alloc True st of
        None \<Rightarrow> (0, st)
      | Some (i, tn, st1) \<Rightarrow>
          let tn1 = tn \<lparr>tn_pending := True, tn_pending_since := v_now (z_eng X), tn_peer_fn := fn,
                        tn_server_host := take 255 server_host, tn_udp := udp, tn_tcp := tcp\<rparr>;
              tn2 = (case v_peer (z_eng X) fn of
                       None \<Rightarrow> tn1
                     | Some pk \<Rightarrow> tn1 \<lparr>tn_allow := (tn_allow tn1)(0 := \<lparr>al_used = True, al_pk = pk, al_fn = fn\<rparr>)\<rparr>);
              st2 = sig_invite X fn tn2 (tn_put i tn2 st1)
          in (tn_id tn2, tu_push (tunnel_add_event fn tn2 1 server_host udp tcp) st2))"

definition tt_tunnel_accept :: "tenv \<Rightarrow> nat \<Rightarrow> TTPortRangeList \<Rightarrow> TTPortRangeList \<Rightarrow> tstate \<Rightarrow> u32 \<times> tstate" where
  "tt_tunnel_accept X fn udp tcp st =
     (case tunnel_by_peer st fn False of
        None \<Rightarrow> (0, st)
      | Some i \<Rightarrow>
          let tn = the (tu_tunnels st i) in
          if \<not> tn_pending tn then (0, st)
          else
            let tn1 = tn \<lparr>tn_next_connid := 1, tn_udp_local := udp, tn_tcp_local := tcp\<rparr> in
            case bind_client_local X tn1 (tn_put i tn1 st) of
              (ok, tn2, st1) \<Rightarrow>
                if \<not> ok then
                  (0, tunnel_free i tn2 (tu_push ((tt_event_new TT_EV_TUNNEL_ERROR) \<lparr>ev_ival := sint (tn_id tn2),
                        ev_str := Some (ascii ''Could not bind local ports for the tunnel (no free loopback IP / ports).'')\<rparr>) st1))
                else
                  let tn3 = tn2 \<lparr>tn_pending := False\<rparr>;
                      st2 = sig_accept X fn udp tcp (tn_put i tn3 st1)
                  in (tn_id tn3, tu_push (tunnel_add_event fn tn3 0 (ascii ''127.0.0.'' @ print_u (unat (tn_local_ip tn3))) udp tcp) st2))"

definition tt_tunnel_decline :: "tenv \<Rightarrow> nat \<Rightarrow> tstate \<Rightarrow> tstate" where
  "tt_tunnel_decline X fn st =
     (case tunnel_by_peer st fn False of
        None \<Rightarrow> st
      | Some i \<Rightarrow>
          let tn = the (tu_tunnels st i) in
          if \<not> tn_pending tn then st else tunnel_free i tn (sig_send X fn TT_TUN_SIG_DECLINE [] st))"

section \<open>Commands\<close>

definition cut_line :: "bytes \<Rightarrow> (bytes \<times> bytes) option" where
  "cut_line s = (if 10 \<in> set s then Some (takeWhile (\<lambda>c. c \<noteq> 10) s, drop 1 (dropWhile (\<lambda>c. c \<noteq> 10) s)) else None)"

definition cmd_tunnel_allow :: "tenv \<Rightarrow> int \<Rightarrow> bytes option \<Rightarrow> tstate \<Rightarrow> tstate" where
  "cmd_tunnel_allow X ival str st =
     (case str of
        None \<Rightarrow> st
      | Some s \<Rightarrow> if ival = 0 then tt_tunnel_allow_all X s st else snd (tt_tunnel_allow X (of_int ival) s st))"

definition cmd_tunnel_deny :: "int \<Rightarrow> bytes option \<Rightarrow> tstate \<Rightarrow> tstate" where
  "cmd_tunnel_deny ival str st = (case str of None \<Rightarrow> st | Some s \<Rightarrow> snd (tt_tunnel_deny (of_int ival) s st))"

definition cmd_tunnel_share :: "tenv \<Rightarrow> nat \<Rightarrow> bytes option \<Rightarrow> tstate \<Rightarrow> tstate" where
  "cmd_tunnel_share X fn str st =
     (case str of
        None \<Rightarrow> st
      | Some s \<Rightarrow>
          (case cut_line (take 255 s) of
             None \<Rightarrow> st
           | Some (host, p1) \<Rightarrow>
               (case cut_line p1 of
                  None \<Rightarrow> st
                | Some (u, t) \<Rightarrow>
                    snd (tt_tunnel_share X fn host (snd (tt_port_list_parse (Some u))) (snd (tt_port_list_parse (Some t))) st))))"

definition cmd_tunnel_accept :: "tenv \<Rightarrow> nat \<Rightarrow> bytes option \<Rightarrow> tstate \<Rightarrow> tstate" where
  "cmd_tunnel_accept X fn str st =
     (case str of
        None \<Rightarrow> st
      | Some s \<Rightarrow>
          (case cut_line (take 255 s) of
             None \<Rightarrow> st
           | Some (u, t) \<Rightarrow>
               snd (tt_tunnel_accept X fn (snd (tt_port_list_parse (Some u))) (snd (tt_port_list_parse (Some t))) st)))"

end
