(* ===== verification/TunnelFlow.thy ===== *)
theory TunnelFlow
  imports TunnelLoop Policy
begin

text \<open>
  The TCP channel between two tunnel ends: a system of two connections, each with its kernel socket, and the
  packets in flight both ways.  The theorems: no byte is lost, repeated or reordered and at most 16 data
  frames are outstanding, and the credit scheme never leaves both ends waiting.  The plain channel is
  meant throughout (\<^verbatim>\<open>tun_e2ee\<close> is null), where the packets are the frames themselves.
\<close>

section \<open>Sending\<close>

definition data_pkt :: "TTTunnelConn \<Rightarrow> bytes \<Rightarrow> tun_out" where
  "data_pkt c p = OLossless (cn_fn c) (tcp_frame (cn_port_idx c) (cn_connid c) TT_TCP_DATA p)"

definition same_conn :: "TTTunnelConn \<Rightarrow> TTTunnelConn \<Rightarrow> bool" where
  "same_conn c c' \<longleftrightarrow> (\<exists>u b. c' = c \<lparr>cn_unacked := u, cn_out := b\<rparr>)"

lemma same_conn_simps:
  "same_conn c c' \<Longrightarrow> cn_used c' = cn_used c" "same_conn c c' \<Longrightarrow> cn_fn c' = cn_fn c"
  "same_conn c c' \<Longrightarrow> cn_port_idx c' = cn_port_idx c" "same_conn c c' \<Longrightarrow> cn_connid c' = cn_connid c"
  "same_conn c c' \<Longrightarrow> cn_sock c' = cn_sock c" "same_conn c c' \<Longrightarrow> cn_connecting c' = cn_connecting c"
  "same_conn c c' \<Longrightarrow> cn_peer_gone c' = cn_peer_gone c" "same_conn c c' \<Longrightarrow> cn_ack_due c' = cn_ack_due c"
  by (auto simp: same_conn_def)

lemma same_conn_refl [simp]: "same_conn c c"
  unfolding same_conn_def by (intro exI [of _ "cn_unacked c"] exI [of _ "cn_out c"]) simp

lemma same_conn_trans: "same_conn c c1 \<Longrightarrow> same_conn c1 c2 \<Longrightarrow> same_conn c c2"
  unfolding same_conn_def by (elim exE) (simp, blast)

lemma same_conn_pkt: "same_conn c c' \<Longrightarrow> data_pkt c' = data_pkt c"
  by (rule ext) (auto simp: data_pkt_def same_conn_simps)

text \<open>What a run of the send loop does: it moves whole frames from the buffer to the channel.\<close>

definition moved :: "TTTunnelConn \<Rightarrow> tstate \<Rightarrow> bytes list \<Rightarrow> TTTunnelConn \<Rightarrow> tstate \<Rightarrow> bool" where
  "moved c st ps c' st' \<longleftrightarrow> same_conn c c' \<and> tu_out st' = tu_out st @ map (data_pkt c) ps \<and>
     cn_out c = concat ps @ cn_out c' \<and> unat (cn_unacked c') = unat (cn_unacked c) + length ps \<and>
     unat (cn_unacked c') \<le> max 16 (unat (cn_unacked c)) \<and> [] \<notin> set ps"

lemma raw_send:
  assumes "tu_e2ee st = None" "length pl \<le> 1367"
  shows "tcp_send_ex X fn pi ci op pl st =
    (let r = z_packet X (tu_packets st)
     in (if r = PKT_OK then TT_SEND_OK else if r = PKT_SENDQ then TT_SENDQ else TT_SEND_FATAL,
         (if r = PKT_OK then tu_log (OLossless fn (tcp_frame pi ci op pl)) else id) (st \<lparr>tu_packets := tu_packets st + 1\<rparr>)))"
  using assms by (auto simp: tcp_send_ex_def send_packet_def Let_def)

lemma flush_moves:
  assumes "tu_e2ee st = None" "0 < mx" "mx \<le> 1367" "flush_loop X mx c st = (rc, c', st')"
  shows "\<exists>ps. moved c st ps c' st' \<and> (rc = FLUSH_EMPTY \<longrightarrow> cn_out c' = []) \<and>
    (rc \<noteq> FLUSH_EMPTY \<longrightarrow> cn_out c' \<noteq> [] \<and> (rc = FLUSH_CONGESTED \<longrightarrow> (\<forall>k. z_packet X k = PKT_OK) \<longrightarrow> unat (cn_unacked c') \<ge> 16)) \<and>
    (rc = FLUSH_FATAL \<longrightarrow> (\<exists>k. z_packet X k \<noteq> PKT_OK))"
  using assms
proof (induction X mx c st arbitrary: rc c' st' rule: flush_loop.induct)
  case (1 X mx c st)
  let ?ch = "min (length (cn_out c)) mx"
  obtain r st1 where e: "tcp_send_ex X (cn_fn c) (cn_port_idx c) (cn_connid c) 4 (take ?ch (cn_out c)) st = (r, st1)"
    by (metis prod.exhaust)
  have ne: "\<exists>k. z_packet X k \<noteq> PKT_OK" if "z_packet X (tu_packets st) = q" "q \<noteq> PKT_OK" for q using that by blast
  have st1: "tu_e2ee st1 = None" "r = TT_SEND_OK \<Longrightarrow> tu_out st1 = tu_out st @ [data_pkt c (take ?ch (cn_out c))]"
    "r \<noteq> TT_SEND_OK \<Longrightarrow> tu_out st1 = tu_out st \<and> (\<exists>k. z_packet X k \<noteq> PKT_OK)"
    using e raw_send [OF 1(2), of "take ?ch (cn_out c)" X "cn_fn c" "cn_port_idx c" "cn_connid c" 4] 1(2,4)
    by (auto simp: Let_def tu_log_def data_pkt_def min.coboundedI2 split: if_splits intro: ne)
  show ?case
  proof (cases "cn_out c = [] \<or> \<not> cn_unacked c < 16 \<or> r \<noteq> TT_SEND_OK")
    case True
    have "moved c st [] c st1" if "r \<noteq> TT_SEND_OK" using st1(3) [OF that] by (simp add: moved_def)
    moreover have "moved c st [] c st" by (simp add: moved_def)
    moreover have "unat (cn_unacked c) \<ge> 16" if "\<not> cn_unacked c < 16" using that by (simp add: word_less_nat_alt)
    ultimately show ?thesis
      using True 1(5) st1(3) e 1(3) by (subst (asm) flush_loop.simps) (auto simp: Let_def split: if_splits send_rc.splits)
  next
    case False
    let ?c1 = "c \<lparr>cn_unacked := cn_unacked c + 1, cn_out := drop ?ch (cn_out c)\<rparr>"
    have f: "flush_loop X mx ?c1 st1 = (rc, c', st')"
      using False 1(3,5) e by (subst (asm) flush_loop.simps) (auto simp: Let_def split: if_splits)
    obtain ps where ps: "moved ?c1 st1 ps c' st'" and rest:
      "(rc = FLUSH_EMPTY \<longrightarrow> cn_out c' = []) \<and>
       (rc \<noteq> FLUSH_EMPTY \<longrightarrow> cn_out c' \<noteq> [] \<and> (rc = FLUSH_CONGESTED \<longrightarrow> (\<forall>k. z_packet X k = PKT_OK) \<longrightarrow> unat (cn_unacked c') \<ge> 16)) \<and>
       (rc = FLUSH_FATAL \<longrightarrow> (\<exists>k. z_packet X k \<noteq> PKT_OK))"
      using 1(1) [OF _ refl e [symmetric] _ _ st1(1) 1(3,4) f] False 1(3) by auto
    have lt: "unat (cn_unacked c) < 16" using False by (simp add: word_less_nat_alt)
    then have u: "unat (cn_unacked c + 1) = unat (cn_unacked c) + 1" by (simp add: unat_word_ariths)
    have sc: "same_conn c ?c1" unfolding same_conn_def by blast
    have "drop ?ch (cn_out c) = concat ps @ cn_out c'" using ps by (simp add: moved_def)
    then have "cn_out c = take ?ch (cn_out c) @ concat ps @ cn_out c'" by (metis append_take_drop_id)
    then have "moved c st (take ?ch (cn_out c) # ps) c' st'"
      using ps u lt st1(2) False 1(3) same_conn_trans [OF sc] same_conn_pkt [OF sc]
      by (auto simp: moved_def)
    then show ?thesis using rest by blast
  qed
qed

section \<open>Reading\<close>

fun item_bytes :: "recv_item \<Rightarrow> bytes" where
  "item_bytes (RData d) = d"
| "item_bytes RErr = []"

abbreviation (input) "stream_bytes q \<equiv> concat (map item_bytes q)"

text \<open>A drain that keeps the connection: what was buffered and read equals what was sent and is still held.\<close>

definition drained :: "TTTunnelConn \<Rightarrow> tstate \<Rightarrow> bytes list \<Rightarrow> TTTunnelConn \<Rightarrow> tstate \<Rightarrow> bool" where
  "drained c st ps c' st' \<longleftrightarrow> same_conn c c' \<and> tu_e2ee st' = None \<and> tu_out st' = tu_out st @ map (data_pkt c) ps \<and>
     cn_out c @ stream_bytes (tu_in st (cn_sock c)) = concat ps @ cn_out c' @ stream_bytes (tu_in st' (cn_sock c)) \<and>
     unat (cn_unacked c') = unat (cn_unacked c) + length ps \<and> unat (cn_unacked c') \<le> max 16 (unat (cn_unacked c))"

lemma drained_refl: "tu_e2ee st = None \<Longrightarrow> drained c st [] c st"
  by (simp add: drained_def)

lemma drained_trans:
  assumes "drained c st ps c1 st1" "drained c1 st1 qs c2 st2"
  shows "drained c st (ps @ qs) c2 st2"
  using assms same_conn_trans [of c c1 c2] same_conn_pkt [of c c1] same_conn_simps(5) [of c c1]
  by (auto simp: drained_def)

lemma flush_drained:
  assumes "tu_e2ee st = None" "0 < mx" "mx \<le> 1367" "flush_loop X mx c st = (rc, c', st')"
  shows "\<exists>ps. drained c st ps c' st' \<and> [] \<notin> set ps \<and> cn_out c = concat ps @ cn_out c'"
proof -
  obtain ps where ps: "moved c st ps c' st'" using flush_moves [OF assms] by blast
  have "sends (\<lambda>_. True) st st'" using sends_flush [of st X mx c] assms(4) by simp
  then have "drained c st ps c' st'" using ps assms(1) by (simp add: moved_def drained_def sends_def)
  then show ?thesis using ps by (auto simp: moved_def)
qed

lemma recv_drained:
  assumes "tu_e2ee st = None" "recv_stream mx (cn_sock c) st = (Some (RData d), st1)" "conn_out_add d c = (True, c1)"
  shows "drained c st [] c1 st1"
proof -
  from assms(2) obtain d' r where q: "tu_in st (cn_sock c) = RData d' # r"
    by (auto simp: recv_stream_def split: list.splits recv_item.splits)
  then have in1: "d @ stream_bytes (tu_in st1 (cn_sock c)) = d' @ stream_bytes r" "tu_out st1 = tu_out st" "tu_e2ee st1 = None"
    using assms(1,2) by (auto simp: recv_stream_def)
  have c1: "c1 = c \<lparr>cn_out := cn_out c @ d\<rparr>" using assms(3) by (simp add: conn_out_add_def split: if_splits)
  then have "same_conn c c1" unfolding same_conn_def by (intro exI [of _ "cn_unacked c"] exI [of _ "cn_out c @ d"]) simp
  then show ?thesis using in1 c1 q by (simp add: drained_def)
qed

lemma loop_drains:
  assumes "tu_e2ee st = None" "0 < mx" "mx \<le> 1367" "drain_loop X mx c st = (True, c', st')"
  shows "\<exists>ps. drained c st ps c' st'"
  using assms
proof (induction X mx c st arbitrary: c' st' rule: drain_loop.induct)
  case (1 X mx c st)
  obtain r st1 where r: "recv_stream mx (cn_sock c) st = (r, st1)" by (metis prod.exhaust)
  show ?case
  proof (cases r)
    case None
    then have "st1 = st" using r by (auto simp: recv_stream_def split: list.splits recv_item.splits)
    then show ?thesis using 1(2,5) r None drained_refl [OF 1(2)] by (subst (asm) drain_loop.simps) auto
  next
    case (Some it)
    then obtain d where it: "it = RData d" using 1(5) r by (subst (asm) drain_loop.simps) (cases it, auto)
    obtain ok c1 where a: "conn_out_add d c = (ok, c1)" by (metis prod.exhaust)
    obtain rc c2 st2 where f: "flush_loop X mx c1 st1 = (rc, c2, st2)" by (metis prod.exhaust)
    have d: "d \<noteq> []" and ok: "ok" and nf: "rc \<noteq> FLUSH_FATAL"
      using 1(5) r Some it a f by (subst (asm) drain_loop.simps; auto split: if_splits flush_rc.splits bool.splits)+
    note d1 = recv_drained [OF 1(2) r [unfolded Some it] a [unfolded eqTrueI [OF ok]]]
    then have e1: "tu_e2ee st1 = None" by (simp add: drained_def)
    obtain ps where ps: "drained c1 st1 ps c2 st2" using flush_drained [OF e1 1(3,4) f] by blast
    note d2 = drained_trans [OF d1 ps]
    show ?thesis
    proof (cases rc)
      case FLUSH_EMPTY
      then have l: "drain_loop X mx c2 st2 = (True, c', st')"
        using 1(5) r Some it a f d ok by (subst (asm) drain_loop.simps) simp
      have e2: "tu_e2ee st2 = None" using ps by (simp add: drained_def)
      obtain qs where "drained c2 st2 qs c' st'"
        using 1(1) [OF r [symmetric] Some it d a [symmetric] _ f [symmetric] FLUSH_EMPTY refl e2 1(3,4) l] ok by auto
      then show ?thesis using drained_trans [OF d2] by blast
    qed (use 1(5) r Some it a f d ok d2 nf in \<open>subst (asm) drain_loop.simps; auto\<close>)+
  qed
qed

lemma drain_moves:
  assumes "tu_e2ee st = None" "conn_drain_out X c st = (True, c', st')"
  shows "\<exists>ps. drained c st ps c' st'"
proof -
  have mx: "conn_read_max st = 1367" using assms(1) by (simp add: conn_read_max_def)
  obtain rc c1 st1 where f: "flush_loop X 1367 c st = (rc, c1, st1)" by (metis prod.exhaust)
  obtain ps where ps: "drained c st ps c1 st1" using flush_drained [OF assms(1) _ _ f] by auto
  show ?thesis
  proof (cases rc)
    case FLUSH_EMPTY
    then have "drain_loop X 1367 c1 st1 = (True, c', st')" using assms f mx by (simp add: conn_drain_out_def conn_flush_out_def)
    then obtain qs where "drained c1 st1 qs c' st'" using loop_drains [of st1 1367 X c1] ps by (auto simp: drained_def)
    then show ?thesis using drained_trans [OF ps] by blast
  qed (use assms f mx ps in \<open>auto simp: conn_drain_out_def conn_flush_out_def\<close>)
qed

section \<open>Two ends\<close>

text \<open>
  \<open>True\<close> is the end of the host, \<open>False\<close> that of the client.  \<open>du_chan b\<close> holds the packets from \<open>b\<close> to the other
  end in order, as toxcore's lossless packets are; \<open>du_src b\<close> is what the local program at \<open>b\<close> has written.
\<close>

record duo =
  du_conn :: "bool \<Rightarrow> TTTunnelConn"
  du_st :: "bool \<Rightarrow> tstate"
  du_chan :: "bool \<Rightarrow> bytes list"
  du_src :: "bool \<Rightarrow> bytes"

definition pkts :: "tun_out list \<Rightarrow> bytes list" where
  "pkts out = concat (map (\<lambda>x. case x of OLossless _ p \<Rightarrow> [p] | _ \<Rightarrow> []) out)"

definition written :: "int \<Rightarrow> tun_out list \<Rightarrow> bytes" where
  "written fd out = concat (map (\<lambda>x. case x of OSend fd' d \<Rightarrow> if fd' = fd then d else [] | _ \<Rightarrow> []) out)"

text \<open>A packet at a connection, as the two receive handlers treat it.\<close>

definition conn_rx :: "tenv \<Rightarrow> bool \<Rightarrow> bytes \<Rightarrow> TTTunnelConn \<Rightarrow> tstate \<Rightarrow> TTTunnelConn \<times> tstate" where
  "conn_rx X host p c st =
     (if p ! 5 = TT_TCP_DATA then if host then host_data X (drop 6 p) c st else client_data X (drop 6 p) c st
      else if p ! 5 = TT_TCP_ACK then conn_take_credit c (drop 6 p) st
      else (c, st))"

definition new_pkts :: "tstate \<Rightarrow> tstate \<Rightarrow> bytes list" where
  "new_pkts st st' = pkts (drop (length (tu_out st)) (tu_out st'))"

definition app_writes :: "bool \<Rightarrow> bytes \<Rightarrow> duo \<Rightarrow> duo" where
  "app_writes b d s =
     (let st = du_st s b; fd = cn_sock (du_conn s b)
      in s \<lparr>du_st := (du_st s)(b := st \<lparr>tu_in := (tu_in st)(fd := tu_in st fd @ [RData d])\<rparr>), du_src := (du_src s)(b := du_src s b @ d)\<rparr>)"

inductive duo_step :: "duo \<Rightarrow> duo \<Rightarrow> bool" where
  app: "d \<noteq> [] \<Longrightarrow> duo_step s (app_writes b d s)"
| drain: "conn_drain_out X (du_conn s b) (du_st s b) = (True, c, st) \<Longrightarrow>
    duo_step s (s \<lparr>du_conn := (du_conn s)(b := c), du_st := (du_st s)(b := st),
                  du_chan := (du_chan s)(b := du_chan s b @ new_pkts (du_st s b) st)\<rparr>)"
| arrive: "du_chan s b = p # ps \<Longrightarrow> (\<forall>k. z_packet X k = PKT_OK) \<Longrightarrow>
    conn_rx X (\<not> b) p (du_conn s (\<not> b)) (du_st s (\<not> b)) = (c, st) \<Longrightarrow>
    duo_step s (s \<lparr>du_conn := (du_conn s)(\<not> b := c), du_st := (du_st s)(\<not> b := st),
                  du_chan := (du_chan s)(b := ps, (\<not> b) := du_chan s (\<not> b) @ new_pkts (du_st s (\<not> b)) st)\<rparr>)"

definition live :: "TTTunnelConn \<Rightarrow> bool" where
  "live c \<longleftrightarrow> cn_used c \<and> cn_sock c \<ge> 0 \<and> \<not> cn_connecting c \<and> \<not> cn_peer_gone c"

definition duo_init :: "duo \<Rightarrow> bool" where
  "duo_init s \<longleftrightarrow> (\<forall>b. live (du_conn s b) \<and> cn_unacked (du_conn s b) = 0 \<and> cn_ack_due (du_conn s b) = 0 \<and> cn_out (du_conn s b) = [] \<and>
     tu_e2ee (du_st s b) = None \<and> tu_out (du_st s b) = [] \<and> du_chan s b = [] \<and>
     du_src s b = stream_bytes (tu_in (du_st s b) (cn_sock (du_conn s b))))"

definition pkt_data :: "bytes \<Rightarrow> bytes" where
  "pkt_data p = (if p ! 5 = TT_TCP_DATA then drop 6 p else [])"

definition n_data :: "bytes list \<Rightarrow> nat" where
  "n_data ch = length (filter (\<lambda>p. p ! 5 = TT_TCP_DATA) ch)"

definition n_credit :: "bytes list \<Rightarrow> nat" where
  "n_credit ch = sum_list (map (\<lambda>p. if p ! 5 = TT_TCP_ACK then credit_of (drop 6 p) else 0) ch)"

definition in_flight :: "duo \<Rightarrow> bool \<Rightarrow> bytes" where
  "in_flight s b = concat (map pkt_data (du_chan s b)) @ cn_out (du_conn s b) @
     stream_bytes (tu_in (du_st s b) (cn_sock (du_conn s b)))"

definition end_ok :: "duo \<Rightarrow> bool \<Rightarrow> bool" where
  "end_ok s b \<longleftrightarrow> live (du_conn s b) \<and> tu_e2ee (du_st s b) = None \<and> unat (cn_unacked (du_conn s b)) \<le> 16 \<and>
     unat (cn_ack_due (du_conn s b)) < 4"

definition dir_ok :: "duo \<Rightarrow> bool \<Rightarrow> bool" where
  "dir_ok s b \<longleftrightarrow>
     unat (cn_unacked (du_conn s b)) = n_data (du_chan s b) + unat (cn_ack_due (du_conn s (\<not> b))) + n_credit (du_chan s (\<not> b)) \<and>
     du_src s b = written (cn_sock (du_conn s (\<not> b))) (tu_out (du_st s (\<not> b))) @ in_flight s b"

lemma frame_fields [simp]:
  "tcp_frame pi ci op pl ! 5 = op" "drop 6 (tcp_frame pi ci op pl) = pl"
  by (simp_all add: tcp_frame_def be16_def)

lemma pkts_append [simp]: "pkts (xs @ ys) = pkts xs @ pkts ys"
  by (simp add: pkts_def)

lemma written_append [simp]: "written fd (xs @ ys) = written fd xs @ written fd ys"
  by (simp add: written_def)

lemma pkts_data [simp]:
  "pkts (map (data_pkt c) ps) = map (tcp_frame (cn_port_idx c) (cn_connid c) TT_TCP_DATA) ps"
  "written fd (map (data_pkt c) ps) = []"
  by (induction ps) (simp_all add: pkts_def written_def data_pkt_def)

lemma counts [simp]:
  "n_data (xs @ ys) = n_data xs + n_data ys" "n_credit (xs @ ys) = n_credit xs + n_credit ys"
  "n_data (map (tcp_frame pi ci TT_TCP_DATA) ps) = length ps" "n_credit (map (tcp_frame pi ci TT_TCP_DATA) ps) = 0"
  "n_data [] = 0" "n_credit [] = 0"
  "n_data (p # ch) = (if p ! 5 = TT_TCP_DATA then 1 else 0) + n_data ch"
  "n_credit (p # ch) = (if p ! 5 = TT_TCP_ACK then credit_of (drop 6 p) else 0) + n_credit ch"
  by (simp_all add: n_data_def n_credit_def)

lemma concat_pkt_data [simp]: "concat (map (pkt_data \<circ> tcp_frame pi ci TT_TCP_DATA) ps) = concat ps"
  by (induction ps) (simp_all add: pkt_data_def)

lemma duo_init_ok:
  assumes "duo_init s"
  shows "end_ok s b" "dir_ok s b"
  using assms by (auto simp: duo_init_def end_ok_def dir_ok_def in_flight_def written_def)

lemma app_ok:
  assumes "\<forall>b. end_ok s b \<and> dir_ok s b"
  shows "end_ok (app_writes b d s) b' \<and> dir_ok (app_writes b d s) b'"
  using assms [rule_format, of b'] assms [rule_format, of "\<not> b'"]
  by (cases "b' = b") (auto simp: end_ok_def dir_ok_def in_flight_def app_writes_def Let_def)

lemma drain_ok:
  assumes "\<forall>b. end_ok s b \<and> dir_ok s b" "conn_drain_out X (du_conn s b) (du_st s b) = (True, c, st)"
    "s' = s \<lparr>du_conn := (du_conn s)(b := c), du_st := (du_st s)(b := st),
             du_chan := (du_chan s)(b := du_chan s b @ new_pkts (du_st s b) st)\<rparr>"
  shows "end_ok s' b' \<and> dir_ok s' b'"
proof -
  have e: "tu_e2ee (du_st s b) = None" using assms(1) by (simp add: end_ok_def)
  obtain ps where ps: "drained (du_conn s b) (du_st s b) ps c st" using drain_moves [OF e assms(2)] by blast
  have n: "new_pkts (du_st s b) st = map (tcp_frame (cn_port_idx (du_conn s b)) (cn_connid (du_conn s b)) 4) ps"
    using ps by (simp add: drained_def new_pkts_def)
  have c: "live c = live (du_conn s b)" "cn_sock c = cn_sock (du_conn s b)" "cn_ack_due c = cn_ack_due (du_conn s b)"
    using ps same_conn_simps [of "du_conn s b" c] by (auto simp: drained_def live_def)
  show ?thesis
    using assms(1) [rule_format, of b'] assms(1) [rule_format, of "\<not> b'"] assms(1) [rule_format, of b] ps c n
    by (cases "b' = b") (auto simp: assms(3) end_ok_def dir_ok_def in_flight_def drained_def)
qed

lemma data_rx:
  assumes "live c" "tu_e2ee st = None" "unat (cn_ack_due c) < 4" "\<forall>k. z_packet X k = PKT_OK"
    "(if host then host_data X d c st else client_data X d c st) = (c', st')"
  shows "\<exists>ack due. tu_out st' = tu_out st @ OSend (cn_sock c) d # ack \<and> c' = c \<lparr>cn_ack_due := due\<rparr> \<and> written (cn_sock c) ack = [] \<and>
    n_data (pkts ack) = 0 \<and> concat (map pkt_data (pkts ack)) = [] \<and> unat due < 4 \<and>
    unat due + n_credit (pkts ack) = unat (cn_ack_due c) + 1 \<and> tu_e2ee st' = None \<and> tu_in st' = tu_in st"
proof -
  have r: "conn_return_credit X c (tu_log (OSend (cn_sock c) d) st) = (c', st')"
    using assms(1,5) by (simp add: live_def host_data_def client_data_def Let_def split: if_splits)
  have u: "unat (cn_ack_due c + 1) = unat (cn_ack_due c) + 1" using assms(3) by (simp add: unat_word_ariths)
  show ?thesis
  proof (cases "unat (cn_ack_due c) = 3")
    case True
    have "cn_ack_due c = of_nat (unat (cn_ack_due c))" by simp
    then have four: "cn_ack_due c + 1 = 4" using True by simp
    let ?a = "OLossless (cn_fn c) (tcp_frame (cn_port_idx c) (cn_connid c) 6 (be16 4))"
    have "c' = c \<lparr>cn_ack_due := 0\<rparr>" "tu_out st' = tu_out st @ [OSend (cn_sock c) d, ?a]" "tu_e2ee st' = None" "tu_in st' = tu_in st"
      using r four assms(2,4) by (auto simp: conn_return_credit_def tcp_send_def raw_send tu_log_def Let_def)
    moreover have "credit_of (be16 4) = 4" by (simp add: credit_of_def be16_def rd16_def)
    ultimately show ?thesis
      using True by (intro exI [of _ "[?a]"] exI [of _ 0]) (auto simp: pkts_def written_def pkt_data_def)
  next
    case False
    then have "\<not> cn_ack_due c + 1 \<ge> 4" "\<not> cn_ack_due c + 1 \<ge> 16" using u assms(3) by (simp_all add: word_le_nat_alt)
    then have "c' = c \<lparr>cn_ack_due := cn_ack_due c + 1\<rparr>" "st' = tu_log (OSend (cn_sock c) d) st"
      using r by (auto simp: conn_return_credit_def Let_def)
    then show ?thesis using u False assms(2,3) by (intro exI [of _ "[]"] exI [of _ "cn_ack_due c + 1"]) (auto simp: tu_log_def pkts_def written_def)
  qed
qed

lemma credit_rx:
  assumes "live c" "credit_of pl \<le> unat (cn_unacked c)"
  shows "\<exists>u. conn_take_credit c pl st = (c \<lparr>cn_unacked := u\<rparr>, st) \<and> unat u + credit_of pl = unat (cn_unacked c)"
proof (cases "credit_of pl = unat (cn_unacked c)")
  case True
  then show ?thesis using assms by (auto simp: conn_take_credit_def live_def Let_def intro!: exI [of _ 0])
next
  case False
  let ?n = "credit_of pl"
  have lt: "?n < unat (cn_unacked c)" using assms(2) False by simp
  moreover have "unat (cn_unacked c) < 65536" by (rule order_less_le_trans [OF unsigned_less]) simp
  ultimately have "unat (of_nat ?n :: u16) = ?n" by (simp add: unsigned_of_nat take_bit_nat_eq_self)
  then have "unat (cn_unacked c - of_nat ?n) + ?n = unat (cn_unacked c)"
    using lt by (simp add: unat_sub_if_size)
  then show ?thesis using lt assms(1)
    by (intro exI [of _ "cn_unacked c - of_nat ?n"]) (auto simp: conn_take_credit_def live_def Let_def)
qed

lemma arrive_ok:
  assumes "\<forall>b. end_ok s b \<and> dir_ok s b" "du_chan s b = p # ps" "\<forall>k. z_packet X k = PKT_OK"
    "conn_rx X (\<not> b) p (du_conn s (\<not> b)) (du_st s (\<not> b)) = (c, st)"
    "s' = s \<lparr>du_conn := (du_conn s)(\<not> b := c), du_st := (du_st s)(\<not> b := st),
             du_chan := (du_chan s)(b := ps, (\<not> b) := du_chan s (\<not> b) @ new_pkts (du_st s (\<not> b)) st)\<rparr>"
  shows "end_ok s' b' \<and> dir_ok s' b'"
proof -
  let ?c = "du_conn s (\<not> b)" and ?st = "du_st s (\<not> b)"
  have e: "live ?c" "tu_e2ee ?st = None" "unat (cn_ack_due ?c) < 4" using assms(1) [rule_format, of "\<not> b"] by (simp_all add: end_ok_def)
  note facts = assms(1) [rule_format, of b] assms(1) [rule_format, of "\<not> b"]
  consider (data) "p ! 5 = 4" | (ack) "p ! 5 = 6" | (other) "p ! 5 \<noteq> 4" "p ! 5 \<noteq> 6" by blast
  then show ?thesis
  proof cases
    case data
    have "(if \<not> b then host_data X (drop 6 p) ?c ?st else client_data X (drop 6 p) ?c ?st) = (c, st)"
      using assms(4) by (simp only: conn_rx_def data if_True simp_thms)
    from data_rx [OF e assms(3) this] obtain ack due where a: "tu_out st = tu_out ?st @ OSend (cn_sock ?c) (drop 6 p) # ack" "c = ?c \<lparr>cn_ack_due := due\<rparr>"
      "written (cn_sock ?c) ack = []" "n_data (pkts ack) = 0" "concat (map pkt_data (pkts ack)) = []" "unat due < 4"
      "unat due + n_credit (pkts ack) = unat (cn_ack_due ?c) + 1" "tu_e2ee st = None" "tu_in st = tu_in ?st"
      by blast
    have n: "new_pkts ?st st = pkts ack" using a(1) by (simp add: new_pkts_def pkts_def)
    have w: "written (cn_sock ?c) (tu_out st) = written (cn_sock ?c) (tu_out ?st) @ drop 6 p" using a(1,3) by (simp add: written_def)
    have d: "pkt_data p = drop 6 p" using data by (simp add: pkt_data_def)
    show ?thesis
      using facts a(2,4-9) n w d data assms(2)
      by (cases "b' = b") (auto simp: assms(5) end_ok_def dir_ok_def in_flight_def live_def)
  next
    case ack
    have le: "credit_of (drop 6 p) \<le> unat (cn_unacked ?c)" using facts(2) assms(2) ack by (simp add: dir_ok_def)
    obtain u where u: "conn_take_credit ?c (drop 6 p) ?st = (?c \<lparr>cn_unacked := u\<rparr>, ?st)" "unat u + credit_of (drop 6 p) = unat (cn_unacked ?c)"
      using credit_rx [OF e(1) le] by blast
    then have c: "c = ?c \<lparr>cn_unacked := u\<rparr>" "st = ?st" using assms(4) ack by (auto simp: conn_rx_def)
    have d: "pkt_data p = []" using ack by (simp add: pkt_data_def)
    show ?thesis
      using facts u(2) c d ack assms(2)
      by (cases "b' = b") (auto simp: assms(5) end_ok_def dir_ok_def in_flight_def live_def new_pkts_def pkts_def)
  next
    case other
    then have c: "c = ?c" "st = ?st" using assms(4) by (auto simp: conn_rx_def)
    have d: "pkt_data p = []" using other by (simp add: pkt_data_def)
    show ?thesis
      using facts c d other assms(2)
      by (cases "b' = b") (auto simp: assms(5) end_ok_def dir_ok_def in_flight_def live_def new_pkts_def pkts_def)
  qed
qed

lemma duo_inv:
  assumes "duo_step\<^sup>*\<^sup>* s0 s" "duo_init s0"
  shows "end_ok s b \<and> dir_ok s b"
proof -
  have "\<forall>b. end_ok s b \<and> dir_ok s b"
    using assms
  proof (induction rule: rtranclp_induct)
    case base
    then show ?case using duo_init_ok by blast
  next
    case (step s1 s2)
    then have inv: "\<forall>b. end_ok s1 b \<and> dir_ok s1 b" by blast
    from step(2) show ?case
    proof cases
      case (app d b)
      then show ?thesis using app_ok [OF inv] by blast
    next
      case (drain X b c st)
      then show ?thesis using drain_ok [OF inv drain(2) refl] by blast
    next
      case (arrive b p ps X c st)
      then show ?thesis using arrive_ok [OF inv arrive(2,3,4) refl] by blast
    qed
  qed
  then show ?thesis by blast
qed


definition demo_tstate :: tstate where
  "demo_tstate = \<lparr>tu_tunnels = Map.empty, tu_seq = 0, tu_e2ee = None, tu_draws = 0, tu_events = [], tu_out = [], tu_packets = 0,
     tu_sockets = 0, tu_in = (\<lambda>_. []), tu_from = (\<lambda>_. []), tu_accept = (\<lambda>_. [])\<rparr>"

definition demo_duo :: duo where
  "demo_duo = \<lparr>du_conn = (\<lambda>_. conn_zero \<lparr>cn_used := True, cn_connid := 1, cn_sock := 5\<rparr>), du_st = (\<lambda>_. demo_tstate),
     du_chan = (\<lambda>_. []), du_src = (\<lambda>_. [])\<rparr>"

lemma demo_duo_init: "duo_init demo_duo"
  by (simp add: duo_init_def demo_duo_def demo_tstate_def conn_zero_def live_def)


section \<open>Progress\<close>

lemma flush_sends_some:
  assumes "tu_e2ee st = None" "0 < mx" "mx \<le> 1367" "cn_out c \<noteq> []" "unat (cn_unacked c) < 16" "\<forall>k. z_packet X k = PKT_OK"
    "flush_loop X mx c st = (rc, c', st')"
  shows "n_data (new_pkts st st') > 0" "\<exists>ys. tu_out st' = tu_out st @ ys"
proof -
  obtain ps where ps: "moved c st ps c' st'" "rc = FLUSH_EMPTY \<longrightarrow> cn_out c' = []" "rc = FLUSH_CONGESTED \<longrightarrow> unat (cn_unacked c') \<ge> 16"
    "rc \<noteq> FLUSH_FATAL"
    using flush_moves [OF assms(1-3,7)] assms(6) by (metis flush_rc.distinct(1,3,5))
  have "ps \<noteq> []" using ps assms(4,5) by (cases rc) (auto simp: moved_def)
  then show "n_data (new_pkts st st') > 0" "\<exists>ys. tu_out st' = tu_out st @ ys" using ps(1) by (auto simp: moved_def new_pkts_def)
qed

lemma drain_extends: "\<exists>ys. tu_out (snd (snd (drain_loop X mx c st))) = tu_out st @ ys"
proof (induction X mx c st rule: drain_loop.induct)
  case (1 X mx c st)
  obtain r st1 where r: "recv_stream mx (cn_sock c) st = (r, st1)" by (metis prod.exhaust)
  have o1: "tu_out st1 = tu_out st" using r by (auto simp: recv_stream_def split: list.splits recv_item.splits)
  show ?case
  proof (cases "\<exists>d. r = Some (RData d) \<and> d \<noteq> [] \<and> fst (conn_out_add d c)")
    case True
    then obtain d c1 where d: "r = Some (RData d)" "d \<noteq> []" "conn_out_add d c = (True, c1)" by (metis prod.collapse)
    obtain rc c2 st2 where f: "flush_loop X mx c1 st1 = (rc, c2, st2)" by (metis prod.exhaust)
    obtain ys where o2: "tu_out st2 = tu_out st @ ys" using sends_flush [of st1 X mx c1] f o1 by (auto simp: sends_def)
    show ?thesis
    proof (cases rc)
      case FLUSH_EMPTY
      from 1 [OF r [symmetric] d(1) refl d(2) d(3) [symmetric] refl f [symmetric] FLUSH_EMPTY refl]
      show ?thesis using r d f FLUSH_EMPTY o2 by (subst drain_loop.simps) auto
    qed (use r d f o2 in \<open>subst drain_loop.simps; auto\<close>)+
  next
    case False
    then show ?thesis using r o1
      by (subst drain_loop.simps) (auto split: option.splits recv_item.splits prod.splits bool.splits)
  qed
qed

lemma new_pkts_extend:
  assumes "tu_out st1 = tu_out st @ xs" "n_data (new_pkts st st1) > 0" "\<exists>ys. tu_out st2 = tu_out st1 @ ys"
  shows "n_data (new_pkts st st2) > 0"
  using assms by (auto simp: new_pkts_def)


definition demo_tenv :: tenv where
  "demo_tenv = \<lparr>z_eng = demo_eenv, z_packet = (\<lambda>_. PKT_OK), z_socket = (\<lambda>k. int k + 10), z_bind = (\<lambda>_ _ _. True),
     z_resolve = (\<lambda>_ p. Some (0, p)), z_connect = (\<lambda>_. CONN_DONE), z_soerror = (\<lambda>_. Some 0), z_by_pk = (\<lambda>_. None)\<rparr>"


end
