(* ===== verification/TunnelSafe.thy ===== *)
theory TunnelSafe
  imports TunnelFlow
begin

text \<open>
  Every input of the tunnel engine, one step each, and what no sequence of them can break: with the encrypted
  channel on, nothing but encrypted frames and signalling leaves for a friend, and every connection keeps
  its send window and its credit count.  Operations on one connection share a contract, the locale
  \<open>conn_op\<close>, which lifts to the loops over a tunnel's connections.
\<close>

declare upt_rec_numeral [simp del]

section \<open>The contract\<close>

definition guarded :: "tun_out \<Rightarrow> bool" where
  "guarded x \<longleftrightarrow> sealed x \<or> (\<exists>fn p. x = OLossless fn p \<and> take 2 p = [163, 1])"

definition conn_ok :: "TTTunnelConn \<Rightarrow> bool" where
  "conn_ok c \<longleftrightarrow> unat (cn_unacked c) \<le> 16 \<and> unat (cn_ack_due c) < 4"

definition tun_ok :: "TTTunnel \<Rightarrow> bool" where
  "tun_ok tn \<longleftrightarrow> (\<forall>j. conn_ok (tn_conns tn j))"

definition st_ok :: "tstate \<Rightarrow> bool" where
  "st_ok st \<longleftrightarrow> (\<forall>i tn. tu_tunnels st i = Some tn \<longrightarrow> tun_ok tn)"

definition good :: "tstate \<Rightarrow> tstate \<Rightarrow> bool" where
  "good st st' \<longleftrightarrow> (tu_e2ee st' = None) = (tu_e2ee st = None) \<and> (st_ok st \<longrightarrow> st_ok st') \<and>
     (tu_e2ee st \<noteq> None \<longrightarrow> (\<exists>ps. tu_out st' = tu_out st @ ps \<and> list_all guarded ps))"

lemma good_refl [simp]: "good st st"
  by (simp add: good_def)

lemma good_trans: "good st st1 \<Longrightarrow> good st1 st2 \<Longrightarrow> good st st2"
  by (fastforce simp: good_def)

lemma good_sends: "sends P st st' \<Longrightarrow> (\<And>x. tu_e2ee st \<noteq> None \<Longrightarrow> P x \<Longrightarrow> sealed x) \<Longrightarrow> good st st'"
  by (fastforce simp: sends_def good_def st_ok_def guarded_def list_all_iff)

lemma good_log [simp]:
  "good st (tu_log (OSend fd d) st)" "good st (tu_log (OSendto fd a d) st)" "good st (tu_log (OClose fd) st)"
  by (simp_all add: good_def tu_log_def guarded_def sealed_def st_ok_def)

lemma good_close [simp]: "good st (tu_close fd st)"
  by (simp add: tu_close_def)

lemma good_push [simp]: "good st (tu_push ev st)"
  by (simp add: good_def tu_push_def st_ok_def)

lemma good_put: "(st_ok st \<Longrightarrow> tun_ok tn) \<Longrightarrow> good st (tn_put i tn st)"
  by (auto simp: good_def tn_put_def st_ok_def)

lemma good_fields [simp]:
  "good st (st \<lparr>tu_sockets := n\<rparr>)" "good st (st \<lparr>tu_in := q\<rparr>)" "good st (st \<lparr>tu_from := f\<rparr>)" "good st (st \<lparr>tu_accept := a\<rparr>)" "good st (st \<lparr>tu_seq := m\<rparr>)"
  by (simp_all add: good_def st_ok_def)

lemma good_foldl: "(\<And>st i. good st (f st i)) \<Longrightarrow> good st (foldl f st is')"
  by (induction is' arbitrary: st) (auto intro: good_trans)

lemma good_tcp [simp]: "good st (tcp_send X fn pi ci op pl st)" "good st (snd (tcp_send_ex X fn pi ci op pl st))"
  unfolding tcp_send_def by (rule good_sends [OF sends_tcp]; simp)+

text \<open>Operations on one connection: they emit only guarded packets and keep the window.\<close>

locale conn_op =
  fixes step :: "TTTunnelConn \<Rightarrow> tstate \<Rightarrow> TTTunnelConn \<times> tstate"
  assumes emits: "good st (snd (step c st))"
    and keeps: "conn_ok c \<Longrightarrow> conn_ok (fst (step c st))"
begin

lemma loop_ok: "good (snd p) (snd (foldl (\<lambda>(tn, st) j. case step (tn_conns tn j) st of (c, st1) \<Rightarrow> (conn_put j c tn, st1)) p js)) \<and>
  (tun_ok (fst p) \<longrightarrow> tun_ok (fst (foldl (\<lambda>(tn, st) j. case step (tn_conns tn j) st of (c, st1) \<Rightarrow> (conn_put j c tn, st1)) p js)))"
proof (induction js arbitrary: p)
  case (Cons j js)
  obtain tn st where p: "p = (tn, st)" by (metis prod.exhaust)
  obtain c st1 where s: "step (tn_conns tn j) st = (c, st1)" by (metis prod.exhaust)
  have g: "good st st1" using emits [of st "tn_conns tn j"] s by simp
  have k: "tun_ok tn \<Longrightarrow> tun_ok (conn_put j c tn)" using keeps [of "tn_conns tn j" st] s by (auto simp: tun_ok_def conn_put_def)
  show ?case using Cons.IH [of "(conn_put j c tn, st1)"] g k good_trans [OF g] by (auto simp: p s)
qed simp

lemma each_ok:
  "good (snd p) (snd (each_conn step p))" "tun_ok (fst p) \<Longrightarrow> tun_ok (fst (each_conn step p))"
  using loop_ok [of p "[0..<64]"] by (simp_all add: each_conn_def)

lemma at_ok:
  "good st (snd (at_conn step tn fn ci st))" "tun_ok tn \<Longrightarrow> tun_ok (fst (at_conn step tn fn ci st))"
  using emits keeps by (auto simp: at_conn_def conn_put_def tun_ok_def split: option.splits prod.splits) (metis fst_conv snd_conv)+

end

section \<open>Connections\<close>

lemma free_ok: "conn_ok (fst (conn_free c st))" "good st (snd (conn_free c st))"
  by (simp_all add: conn_free_def conn_ok_def)

lemma flush_ok:
  "good st (snd (snd (flush_loop X mx c st))) \<and> (conn_ok c \<longrightarrow> conn_ok (fst (snd (flush_loop X mx c st))))"
proof (induction X mx c st rule: flush_loop.induct)
  case (1 X mx c st)
  let ?ch = "min (length (cn_out c)) mx"
  obtain rc st1 where e: "tcp_send_ex X (cn_fn c) (cn_port_idx c) (cn_connid c) 4 (take ?ch (cn_out c)) st = (rc, st1)"
    by (metis prod.exhaust)
  have g: "good st st1" using good_tcp(2) [of st X "cn_fn c" "cn_port_idx c" "cn_connid c" 4 "take ?ch (cn_out c)"] e by simp
  have k: "conn_ok (c \<lparr>cn_unacked := cn_unacked c + 1, cn_out := b\<rparr>)" if "conn_ok c" "cn_unacked c < 16" for b
    using that by (simp add: conn_ok_def word_less_nat_alt unat_word_ariths)
  show ?case
    by (subst (1 2) flush_loop.simps) (use e g 1 [OF _ refl e [symmetric]] good_trans [OF g] k in \<open>auto simp: Let_def\<close>)
qed

lemma recv_ok: "good st (snd (recv_stream mx fd st))"
  by (auto simp: recv_stream_def split: list.splits recv_item.splits)

lemma out_add_ok: "conn_out_add d c = (ok, c') \<Longrightarrow> conn_ok c' = conn_ok c"
  by (auto simp: conn_out_add_def conn_ok_def split: if_splits)

lemma loop_drain_ok:
  "good st (snd (snd (drain_loop X mx c st))) \<and> (conn_ok c \<longrightarrow> conn_ok (fst (snd (drain_loop X mx c st))))"
proof (induction X mx c st rule: drain_loop.induct)
  case (1 X mx c st)
  obtain r st1 where r: "recv_stream mx (cn_sock c) st = (r, st1)" by (metis prod.exhaust)
  have g1: "good st st1" using recv_ok [of st mx "cn_sock c"] r by simp
  show ?case
  proof (cases "\<exists>d. r = Some (RData d) \<and> d \<noteq> [] \<and> fst (conn_out_add d c)")
    case True
    then obtain d c1 where d: "r = Some (RData d)" "d \<noteq> []" "conn_out_add d c = (True, c1)" by (metis prod.collapse)
    obtain rc c2 st2 where f: "flush_loop X mx c1 st1 = (rc, c2, st2)" by (metis prod.exhaust)
    have k1: "conn_ok c1 = conn_ok c" using out_add_ok [OF d(3)] .
    have g2: "good st st2" "conn_ok c \<Longrightarrow> conn_ok c2" using flush_ok [of st1 X mx c1] f good_trans [OF g1] k1 by auto
    show ?thesis
    proof (cases rc)
      case FLUSH_EMPTY
      from 1 [OF r [symmetric] d(1) refl d(2) d(3) [symmetric] refl f [symmetric] FLUSH_EMPTY refl]
      show ?thesis using r d f FLUSH_EMPTY g2 good_trans [OF g2(1)] by (subst (1 2) drain_loop.simps) auto
    qed (use r d f g2 in \<open>subst (1 2) drain_loop.simps; auto\<close>)+
  next
    case False
    then show ?thesis using r g1
      by (subst (1 2) drain_loop.simps) (auto simp: out_add_ok split: option.splits recv_item.splits prod.splits bool.splits)
  qed
qed

lemma drain_fin_ok: "good st (snd (drain_or_fin X c st))" "conn_ok c \<Longrightarrow> conn_ok (fst (drain_or_fin X c st))"
proof -
  obtain rc c1 st1 where f: "flush_loop X (conn_read_max st) c st = (rc, c1, st1)" by (metis prod.exhaust)
  have g1: "good st st1" "conn_ok c \<Longrightarrow> conn_ok c1" using flush_ok [of st X "conn_read_max st" c] f by auto
  obtain ok c2 st2 where d: "conn_drain_out X c st = (ok, c2, st2)" by (metis prod.exhaust)
  have g2: "good st st2 \<and> (conn_ok c \<longrightarrow> conn_ok c2)"
    using d f g1 loop_drain_ok [of st1 X "conn_read_max st" c1] good_trans [OF g1(1)]
    by (cases rc) (auto simp: conn_drain_out_def conn_flush_out_def)
  then have "good st (snd (conn_free c2 (tcp_send X fn pi ci op pl st2)))" for fn pi ci op pl
    using good_trans good_tcp(1) free_ok(2) by meson
  then show "good st (snd (drain_or_fin X c st))" "conn_ok c \<Longrightarrow> conn_ok (fst (drain_or_fin X c st))"
    using g2 free_ok(1) by (simp_all add: drain_or_fin_def d)
qed

lemma credit_ok: "good st (snd (conn_return_credit X c st))" "conn_ok c \<Longrightarrow> conn_ok (fst (conn_return_credit X c st))"
  by (auto simp: conn_return_credit_def conn_ok_def word_le_nat_alt unat_word_ariths Let_def)

lemma finish_ok: "good st (snd (finish_connect X c st))" "conn_ok c \<Longrightarrow> conn_ok (fst (finish_connect X c st))"
proof -
  have k: "conn_ok c \<Longrightarrow> conn_ok (c \<lparr>cn_connecting := x, cn_pend := y\<rparr>)" for x y by (simp add: conn_ok_def)
  show "good st (snd (finish_connect X c st))" "conn_ok c \<Longrightarrow> conn_ok (fst (finish_connect X c st))"
    using free_ok(1) [of c st] good_trans [OF free_ok(2) good_tcp(1)] good_trans [OF good_tcp(1) good_log(1)] k
    by (auto simp: finish_connect_def Let_def split_beta split: option.splits)
qed

interpretation host_poll: conn_op "host_conn_poll X" for X
proof unfold_locales
  fix c st
  obtain c1 st1 where f: "(if cn_connecting c then finish_connect X c st else (c, st)) = (c1, st1)" by (metis prod.exhaust)
  have g: "good st st1" "conn_ok c \<Longrightarrow> conn_ok c1" using f finish_ok(1) [of st X c] finish_ok(2) [of c X st] by (auto split: if_splits)
  show "good st (snd (host_conn_poll X c st))"
    using good_trans [OF g(1) drain_fin_ok(1)] g by (simp add: host_conn_poll_def f)
  show "conn_ok c \<Longrightarrow> conn_ok (fst (host_conn_poll X c st))"
    using drain_fin_ok(2) g by (simp add: host_conn_poll_def f)
qed

interpretation client_poll: conn_op "client_conn_poll X" for X
  by unfold_locales (simp_all add: client_conn_poll_def drain_fin_ok)

interpretation retry: conn_op "retry_conn X" for X
  by unfold_locales (simp_all add: retry_conn_def drain_fin_ok)

interpretation from_client: conn_op "host_data X d" for X d
proof unfold_locales
  fix c st
  have k: "conn_ok (conn_pend d c) = conn_ok c" by (simp add: conn_pend_def conn_ok_def)
  show "good st (snd (host_data X d c st))"
    using good_trans [OF good_log(1) credit_ok(1)] credit_ok(1) by (simp add: host_data_def Let_def)
  show "conn_ok c \<Longrightarrow> conn_ok (fst (host_data X d c st))"
    using credit_ok(2) k by (simp add: host_data_def Let_def)
qed

interpretation from_host: conn_op "client_data X d" for X d
  by unfold_locales (auto simp: client_data_def credit_ok intro: good_trans [OF good_log(1) credit_ok(1)])

lemma take_credit_le: "unat (if n \<ge> unat u then 0 else u - of_nat n :: u16) \<le> unat u"
proof (cases "n \<ge> unat u")
  case False
  moreover have "unat u < 65536" by (rule order_less_le_trans [OF unsigned_less]) simp
  ultimately have "unat (of_nat n :: u16) = n" by (simp add: unsigned_of_nat take_bit_nat_eq_self)
  then show ?thesis using False by (simp add: unat_sub_if_size)
qed simp

interpretation credited: conn_op "\<lambda>c. conn_take_credit c d" for d
proof unfold_locales
  fix c st
  have "conn_ok c \<Longrightarrow> conn_ok (c \<lparr>cn_unacked := (if credit_of d \<ge> unat (cn_unacked c) then 0 else cn_unacked c - of_nat (credit_of d))\<rparr>)"
    using take_credit_le [of "cn_unacked c" "credit_of d"] by (simp add: conn_ok_def)
  then show "conn_ok c \<Longrightarrow> conn_ok (fst (conn_take_credit c d st))"
    by (auto simp: conn_take_credit_def free_ok Let_def simp del: if_split)
  show "good st (snd (conn_take_credit c d st))" by (simp add: conn_take_credit_def free_ok Let_def)
qed

interpretation fin: conn_op conn_mark_peer_gone
  by unfold_locales (auto simp: conn_mark_peer_gone_def conn_free_def conn_ok_def)

interpretation freed: conn_op conn_free
  by unfold_locales (simp_all add: free_ok)

lemmas conn_ops = host_poll.each_ok client_poll.each_ok retry.each_ok from_client.at_ok from_host.at_ok credited.at_ok fin.at_ok freed.at_ok

section \<open>Tunnels\<close>

lemma ok_put: "tun_ok tn \<Longrightarrow> conn_ok c \<Longrightarrow> tun_ok (conn_put j c tn)"
  by (simp add: tun_ok_def conn_put_def)

lemma ok_alloc: "conn_alloc tn = Some (j, c) \<Longrightarrow> conn_ok c"
  by (auto simp: conn_alloc_def conn_ok_def split: option.splits)

lemma good_then: "good (st \<lparr>tu_sockets := n\<rparr>) st' \<Longrightarrow> good st st'"
  by (rule good_trans [of _ "st \<lparr>tu_sockets := n\<rparr>"]) simp_all

lemma open_fail_ok: "good st (snd (open_fail X tn j c st))" "tun_ok tn \<Longrightarrow> tun_ok (fst (open_fail X tn j c st))"
  using good_trans [OF free_ok(2) good_tcp(1)] ok_put [OF _ free_ok(1)] by (simp_all add: open_fail_def split_beta)

lemma open_ok: "good st (snd (host_open_conn X tn fn pi ci st))" "tun_ok tn \<Longrightarrow> tun_ok (fst (host_open_conn X tn fn pi ci st))"
proof -
  have k: "conn_ok (c \<lparr>cn_fn := a, cn_port_idx := p, cn_connid := i, cn_sock := s\<rparr>) = conn_ok c"
    "conn_ok (c \<lparr>cn_fn := a, cn_port_idx := p, cn_connid := i, cn_sock := s, cn_connecting := x\<rparr>) = conn_ok c" for c a p i s x
    by (simp_all add: conn_ok_def)
  show "good st (snd (host_open_conn X tn fn pi ci st))"
    by (auto simp: host_open_conn_def Let_def split: option.splits connect_result.splits
        intro: good_then [OF open_fail_ok(1)] good_then [OF good_tcp(1)] good_then [OF good_refl])
  show "tun_ok tn \<Longrightarrow> tun_ok (fst (host_open_conn X tn fn pi ci st))"
    by (auto simp: host_open_conn_def Let_def k ok_alloc split: option.splits connect_result.splits intro!: open_fail_ok(2) ok_put)
qed

lemma tcp_host_ok:
  "good st (snd (tunnel_tcp_rx_host X tn fn pi ci op d st))" "tun_ok tn \<Longrightarrow> tun_ok (fst (tunnel_tcp_rx_host X tn fn pi ci op d st))"
  by (simp_all add: tunnel_tcp_rx_host_def open_ok conn_ops)

lemma tcp_client_ok:
  "good st (snd (tunnel_tcp_rx_client X tn fn pi ci op d st))" "tun_ok tn \<Longrightarrow> tun_ok (fst (tunnel_tcp_rx_client X tn fn pi ci op d st))"
  by (simp_all add: tunnel_tcp_rx_client_def conn_ops)

lemma good_put_pair:
  assumes "tu_tunnels st i = Some tn" "good st st1" "tun_ok tn \<Longrightarrow> tun_ok tn1"
  shows "good st (tn_put i tn1 st1)"
proof -
  have "good st1 (tn_put i tn1 st1)" if "st_ok st" using assms that by (intro good_put) (auto simp: st_ok_def)
  moreover have "good st (tn_put i tn1 st1)" if "\<not> st_ok st" using assms(2) that by (auto simp: good_def tn_put_def)
  ultimately show ?thesis using good_trans [OF assms(2)] by blast
qed

lemma tcp_one_ok: "good st (tunnel_tcp_one X fn pi ci op d st i)"
  using tcp_host_ok tcp_client_ok
  by (auto simp: tunnel_tcp_one_def split_beta split: option.splits intro!: good_put_pair)

lemma free_tunnel_ok: "good st (tunnel_free i tn st)"
proof -
  have a: "good st1 (st1 \<lparr>tu_tunnels := (tu_tunnels st1)(i := None)\<rparr>)" for st1 by (auto simp: good_def st_ok_def)
  have b: "good st (foldl (\<lambda>s j. tu_close (tn_tcp_listen_sock tn j) (tu_close (tn_listen_sock tn j) s)) st js)" for js
    by (rule good_foldl) (rule good_trans [OF good_close good_close])
  have c: "good st (foldl (\<lambda>s j. if ks_used (tn_socks tn j) then tu_close (ks_sock (tn_socks tn j)) s else s) st js)" for js
    by (rule good_foldl) simp
  have d: "good st1 (foldl (\<lambda>s j. if cn_used (tn_conns tn j) then tu_close (cn_sock (tn_conns tn j)) s else s) st1 js)" for js st1
    by (rule good_foldl) simp
  show ?thesis
  proof (cases "tn_host tn")
    case True
    show ?thesis unfolding tunnel_free_def Let_def if_P [OF True] by (rule good_trans [OF good_trans [OF c d] a])
  next
    case False
    show ?thesis unfolding tunnel_free_def Let_def if_not_P [OF False] by (rule good_trans [OF b a])
  qed
qed

lemma tunnel_zero_ok: "tun_ok (tunnel_zero \<lparr>tn_host := h, tn_id := n\<rparr>)"
  by (simp add: tun_ok_def tunnel_zero_def conn_zero_def conn_ok_def)

lemma alloc_ok:
  assumes "tunnel_alloc h st = Some (i, tn, st1)"
  shows "good st st1" "tun_ok tn"
proof -
  have tn: "tn = tunnel_zero \<lparr>tn_host := h, tn_id := tu_seq st + 1\<rparr>"
    and st1: "st1 = tn_put i tn (st \<lparr>tu_seq := (if tu_seq st + 1 = 0 then 1 else tu_seq st + 1)\<rparr>)"
    using assms unfolding tunnel_alloc_def Let_def by (metis (no_types, lifting) option.case_eq_if option.distinct(1) option.sel prod.inject)+
  show "tun_ok tn" unfolding tn by (rule tunnel_zero_ok)
  then show "good st st1" unfolding st1 by (intro good_trans [OF good_fields(5) good_put])
qed

lemma sig_send_ok [simp]: "good st (sig_send X fn op pl st)"
proof -
  have "good st (snd (send_packet X False fn (163 # 1 # op # pl) st))"
    by (auto simp: send_packet_def tu_log_def good_def st_ok_def guarded_def Let_def)
  then show ?thesis by (simp add: sig_send_def)
qed

section \<open>The encrypted channel\<close>

lemma good_sealed: "sends sealed st st' \<Longrightarrow> good st st'"
  by (rule good_sends)

lemma start_sends: "sends sealed st (tt_tunnel_e2ee_start X fn st)"
  using sends_trans [OF sends_tun_put sends_sealed]
  by (auto simp: tt_tunnel_e2ee_start_def split: prod.splits sum.splits)

lemma tick_sends: "sends sealed st (tunnel_tick_friend X st fn)"
  using sends_trans [OF sends_tun_put sends_sealed] by (auto simp: tunnel_tick_friend_def split: prod.splits)

lemma reply_sends: "sends sealed st (tunnel_e2ee_reply X fn st)"
  using sends_trans [OF sends_tun_put sends_sealed]
  by (auto simp: tunnel_e2ee_reply_def split: prod.splits sum.splits)

lemma rx_sends: "sends sealed st (snd (tt_tunnel_e2ee_rx X fn f cap lossy st))"
proof -
  obtain r h s w where fd: "tt_session_feed (v_sodium (z_eng X)) (tu_draws st) (tun_session st fn) (e2ee_env (z_eng X) fn) f cap = (r, h, s, w)"
    by (metis prod.exhaust)
  note put = sends_tun_put [of sealed st fn s w]
  show ?thesis
    using sends_trans [OF put reply_sends] sends_trans [OF put start_sends] put
    by (auto simp: tt_tunnel_e2ee_rx_def fd Let_def split: sum.splits)
qed

lemma retry_sends: "sends sealed st (snd (tunnel_carrier_retry X fn st))"
  using sends_carrier by (simp add: tunnel_carrier_retry_def Let_def)

lemma udp_ok: "good st (tunnel_send X fn pi d st)"
proof (cases "tu_e2ee st = None")
  case True
  have "sends (\<lambda>_. True) st (snd (send_packet X True fn ([200, 1, of_nat pi] @ d) st))" by (rule sends_packet) simp
  then show ?thesis using True good_sends [of "\<lambda>_. True" st] by (auto simp: tunnel_send_def Let_def)
next
  case False
  obtain b st1 where c: "tunnel_carrier_retry X fn st = (b, st1)" by (metis prod.exhaust)
  obtain r s w where sl: "tt_session_send_lossy (v_sodium (z_eng X)) (tu_draws st1) (tun_session st1 fn) ([200, 1, of_nat pi] @ d) 1372 = (r, s, w)"
    by (metis prod.exhaust)
  have g: "sends sealed st st1" using retry_sends [of st X fn] c by simp
  note p = sends_after_put [OF g, of fn s w]
  note e = sends_trans [OF p sends_sealed]
  have "sends sealed st (tunnel_send X fn pi d st)"
    using False g p e c sl by (cases r) (auto simp: tunnel_send_def Let_def)
  then show ?thesis by (rule good_sealed)
qed

section \<open>Poll, receive, commands\<close>

lemma dgram_ok: "good st (snd (recv_dgram fd st))"
  by (auto simp: recv_dgram_def split: list.splits)

lemma host_sock_ok: "good st (host_sock_poll X tn st k)"
proof -
  obtain r st1 where r: "recv_dgram (ks_sock (tn_socks tn k)) st = (r, st1)" by (metis prod.exhaust)
  have "good st st1" using dgram_ok [of st "ks_sock (tn_socks tn k)"] r by simp
  then show ?thesis using good_trans [OF _ udp_ok] r by (auto simp: host_sock_poll_def Let_def split: option.splits)
qed

lemma poll_host_ok: "good st (snd (tunnel_poll_host X tn st))" "tun_ok tn \<Longrightarrow> tun_ok (fst (tunnel_poll_host X tn st))"
proof -
  let ?st1 = "foldl (host_sock_poll X tn) st [0..<256 * 32]"
  have u: "good st ?st1" by (rule good_foldl) (rule host_sock_ok)
  have c: "good st (snd (each_conn (host_conn_poll X) (tn, ?st1)))"
    using good_trans [OF u host_poll.each_ok(1) [of "(tn, ?st1)" X, unfolded snd_conv]] .
  show "good st (snd (tunnel_poll_host X tn st))"
    unfolding tunnel_poll_host_def Let_def using c good_trans [OF c retry.each_ok(1)] by (simp only: split: if_split) blast
  show "tun_ok tn \<Longrightarrow> tun_ok (fst (tunnel_poll_host X tn st))"
    unfolding tunnel_poll_host_def Let_def
    using host_poll.each_ok(2) [of "(tn, ?st1)" X] retry.each_ok(2) by (simp only: fst_conv split: if_split) blast
qed

lemma client_sock_ok:
  "good (snd p) (snd (client_sock_poll X p i)) \<and> (tun_ok (fst p) \<longrightarrow> tun_ok (fst (client_sock_poll X p i)))"
proof -
  obtain tn st where p: "p = (tn, st)" by (metis prod.exhaust)
  obtain r st1 where r: "recv_dgram (tn_listen_sock tn i) st = (r, st1)" by (metis prod.exhaust)
  have "good st st1" using dgram_ok [of st "tn_listen_sock tn i"] r by simp
  then show ?thesis using good_trans [OF _ udp_ok] r
    by (auto simp: client_sock_poll_def p tun_ok_def split: option.splits)
qed

lemma accept_loop_ok:
  "good st (snd (accept_loop X i fds tn st)) \<and> (tun_ok tn \<longrightarrow> tun_ok (fst (accept_loop X i fds tn st)))"
proof (induction X i fds tn st rule: accept_loop.induct)
  case (2 X i fd fds tn st)
  show ?case
  proof (cases "conn_alloc tn")
    case None
    then show ?thesis using good_trans [OF good_fields(4) good_close] by simp
  next
    case (Some a)
    then obtain j c0 where a: "conn_alloc tn = Some (j, c0)" by (metis prod.exhaust)
    let ?c = "c0 \<lparr>cn_fn := tn_peer_fn tn, cn_port_idx := of_nat i, cn_connid := tn_next_connid tn, cn_sock := fd\<rparr>"
    have k: "conn_ok ?c" using ok_alloc [OF a] by (simp add: conn_ok_def)
    have k': "tun_ok tn \<Longrightarrow> tun_ok ((conn_put j ?c tn) \<lparr>tn_next_connid := n\<rparr>)" for n
      using ok_put [OF _ k, of tn j] by (simp add: tun_ok_def)
    let ?nx = "tn_next_connid tn + 1"
    let ?tn = "(conn_put j ?c tn) \<lparr>tn_next_connid := (if ?nx = 0 then 1 else ?nx)\<rparr>"
    let ?st = "tcp_send X (tn_peer_fn tn) (cn_port_idx ?c) (cn_connid ?c) 1 [] st"
    have ih: "good ?st (snd (accept_loop X i fds ?tn ?st)) \<and> (tun_ok ?tn \<longrightarrow> tun_ok (fst (accept_loop X i fds ?tn ?st)))"
      by (rule 2 [OF a refl refl refl])
    have e: "accept_loop X i (fd # fds) tn st = accept_loop X i fds ?tn ?st" by (simp add: a Let_def)
    show ?thesis unfolding e using conjunct1 [OF ih] conjunct2 [OF ih] good_trans [OF good_tcp(1)] k' by blast
  qed
qed simp

lemma accept_port_ok:
  "good (snd p) (snd (accept_port X p i)) \<and> (tun_ok (fst p) \<longrightarrow> tun_ok (fst (accept_port X p i)))"
  using accept_loop_ok by (auto simp: accept_port_def split: prod.splits)

lemma pair_foldl_ok:
  assumes "\<And>p i. good (snd p) (snd (f p i)) \<and> (tun_ok (fst p) \<longrightarrow> tun_ok (fst (f p i)))"
  shows "good (snd p) (snd (foldl f p js)) \<and> (tun_ok (fst p) \<longrightarrow> tun_ok (fst (foldl f p js)))"
proof (induction js arbitrary: p)
  case (Cons j js)
  have s: "good (snd p) (snd (f p j))" "tun_ok (fst p) \<Longrightarrow> tun_ok (fst (f p j))" using assms by blast+
  show ?case using Cons.IH [of "f p j"] s good_trans [OF s(1)] by simp
qed simp

lemma poll_client_ok: "good st (snd (tunnel_poll_client X tn st)) \<and> (tun_ok tn \<longrightarrow> tun_ok (fst (tunnel_poll_client X tn st)))"
proof -
  define p1 where "p1 = (if tn_peer_fn tn \<noteq> 4294967295 then foldl (client_sock_poll X) (tn, st) [0..<tt_port_list_len (tn_udp_local tn)] else (tn, st))"
  define p2 where "p2 = foldl (accept_port X) p1 [0..<tt_port_list_len (tn_tcp_local (fst p1))]"
  have 1: "good st (snd p1) \<and> (tun_ok tn \<longrightarrow> tun_ok (fst p1))"
    using pair_foldl_ok [of "client_sock_poll X" "(tn, st)", OF client_sock_ok] by (simp add: p1_def)
  have 2: "good (snd p1) (snd p2) \<and> (tun_ok (fst p1) \<longrightarrow> tun_ok (fst p2))"
    unfolding p2_def by (rule pair_foldl_ok) (rule accept_port_ok)
  have e: "tunnel_poll_client X tn st = each_conn (retry_conn X) (each_conn (client_conn_poll X) p2)"
    by (simp add: tunnel_poll_client_def p1_def p2_def Let_def)
  have "good st (snd p2)" using 1 2 good_trans by blast
  from good_trans [OF good_trans [OF this client_poll.each_ok(1)] retry.each_ok(1)]
  show ?thesis using 1 2 client_poll.each_ok(2) retry.each_ok(2) by (simp add: e)
qed

lemma kick_ok: "good st (snd (tunnel_kick X tn st))" "tun_ok (fst (tunnel_kick X tn st)) = tun_ok tn"
  using good_sealed [OF start_sends] good_trans [OF good_sealed [OF start_sends] good_push]
  by (auto simp: tunnel_kick_def Let_def tun_ok_def)

lemma resolve_ok: "tun_ok (tunnel_resolve X tn) = tun_ok tn"
  by (simp add: tunnel_resolve_def tun_ok_def split: option.splits)

lemma poll_one_ok: "good st (tunnel_poll_one X st i)"
proof (cases "tu_tunnels st i")
  case (Some tn)
  obtain tn1 st1 where k: "tunnel_kick X (tunnel_resolve X tn) st = (tn1, st1)" by (metis prod.exhaust)
  obtain tn2 st2 where p: "(if tn_host tn1 then tunnel_poll_host X tn1 st1 else tunnel_poll_client X tn1 st1) = (tn2, st2)" by (metis prod.exhaust)
  have g1: "good st st1" "tun_ok tn1 = tun_ok tn"
    using kick_ok(1) [of st X "tunnel_resolve X tn"] kick_ok(2) [of X "tunnel_resolve X tn" st] k resolve_ok by auto
  have g2: "good st1 st2 \<and> (tun_ok tn1 \<longrightarrow> tun_ok tn2)"
    using p poll_host_ok(1) [of st1 X tn1] poll_host_ok(2) [of tn1 X st1] poll_client_ok [of st1 X tn1] by (auto split: if_splits)
  have g3: "good st (tn_put i tn2 st2)" using good_put_pair [OF Some good_trans [OF g1(1)]] g1 g2 by blast
  note g4 = good_trans [OF g3 good_sealed [OF retry_sends]]
  show ?thesis
    using Some k p g3 g4 good_trans [OF good_push free_tunnel_ok] by (simp add: tunnel_poll_one_def Let_def)
qed (simp add: tunnel_poll_one_def)

section \<open>Packets from friends\<close>

lemma host_sock_open_ok:
  "good st (snd (snd (host_sock X tn fn pi st)))" "tun_ok (fst (snd (host_sock X tn fn pi st))) = tun_ok tn"
  using good_trans [OF good_fields(1) good_close] by (auto simp: host_sock_def Let_def tun_ok_def split: option.splits)

lemma forward_ok:
  "good st (snd (host_forward X tn fn pi d st))" "tun_ok (fst (host_forward X tn fn pi d st)) = tun_ok tn"
proof -
  obtain fd tn1 st1 where h: "host_sock X tn fn pi st = (fd, tn1, st1)" by (metis prod.exhaust)
  have k: "good st st1" "tun_ok tn1 = tun_ok tn"
    using host_sock_open_ok(1) [of st X tn fn pi] host_sock_open_ok(2) [of X tn fn pi st] h by auto
  show "good st (snd (host_forward X tn fn pi d st))" using k good_trans [OF k(1) good_log(2)] by (simp add: host_forward_def h)
  show "tun_ok (fst (host_forward X tn fn pi d st)) = tun_ok tn" using k by (simp add: host_forward_def h)
qed

lemma rx_one_ok: "good st (tunnel_rx_one X fn pi d st i)"
  using forward_ok by (auto simp: tunnel_rx_one_def split_beta split: option.splits intro!: good_put_pair)

lemma rx_udp_ok: "good st (tt_tunnel_rx X fn d st)"
  by (simp add: tt_tunnel_rx_def good_foldl rx_one_ok)

lemma by_peer_Some: "tunnel_by_peer st fn h = Some i \<Longrightarrow> \<exists>tn. tu_tunnels st i = Some tn"
  by (auto simp: tunnel_by_peer_def find_Some_iff split: option.splits)

lemma find_tunnel_Some: "tunnel_find st tid = Some i \<Longrightarrow> \<exists>tn. tu_tunnels st i = Some tn"
  by (auto simp: tunnel_find_def find_Some_iff split: option.splits)

lemma tun_ok_fields [simp]:
  "tun_ok (tn \<lparr>tn_pending := b\<rparr>) = tun_ok tn" "tun_ok (tn \<lparr>tn_peer_fn := fn\<rparr>) = tun_ok tn"
  "tun_ok (tn \<lparr>tn_server_host := h\<rparr>) = tun_ok tn" "tun_ok (tn \<lparr>tn_udp := u\<rparr>) = tun_ok tn" "tun_ok (tn \<lparr>tn_tcp := u\<rparr>) = tun_ok tn"
  "tun_ok (tn \<lparr>tn_allow := a\<rparr>) = tun_ok tn" "tun_ok (tn \<lparr>tn_socks := s\<rparr>) = tun_ok tn" "tun_ok (tn \<lparr>tn_next_connid := n\<rparr>) = tun_ok tn"
  "tun_ok (tn \<lparr>tn_udp_local := u\<rparr>) = tun_ok tn" "tun_ok (tn \<lparr>tn_tcp_local := u\<rparr>) = tun_ok tn" "tun_ok (tn \<lparr>tn_pending_since := t\<rparr>) = tun_ok tn"
  "tun_ok (tn \<lparr>tn_listen_sock := f\<rparr>) = tun_ok tn" "tun_ok (tn \<lparr>tn_tcp_listen_sock := f\<rparr>) = tun_ok tn" "tun_ok (tn \<lparr>tn_local_ip := ip\<rparr>) = tun_ok tn"
  "tun_ok (tn \<lparr>tn_peer_pk := pk\<rparr>) = tun_ok tn"
  by (simp_all add: tun_ok_def)

lemma good_alloc_put:
  assumes "tunnel_alloc h st = Some (i, tn, st1)" "tun_ok tn'"
  shows "good st (tn_put i tn' st1)"
  using good_trans [OF alloc_ok(1) [OF assms(1)] good_put] assms(2) by blast

lemma invite_ok: "good st (rx_invite fn d st)"
  using good_trans [OF good_alloc_put good_push] alloc_ok(2)
  by (auto simp: rx_invite_def Let_def split: option.splits)

lemma accepted_ok: "good st (rx_accept fn d st)"
proof (cases "tunnel_by_peer st fn True")
  case (Some i)
  then obtain tn where tn: "tu_tunnels st i = Some tn" using by_peer_Some by blast
  have "good st (tn_put i (tn \<lparr>tn_pending := False\<rparr>) st)" by (rule good_put_pair [OF tn]) simp_all
  then show ?thesis using good_trans [OF _ good_push] Some tn by (simp add: rx_accept_def Let_def)
qed (simp add: rx_accept_def)

lemma declined_ok: "good st (rx_decline fn st)"
  using good_trans [OF good_push free_tunnel_ok] by (simp add: rx_decline_def Let_def split: option.split)

lemma sig_rx_ok: "good st (tunnel_sig_rx fn d st)"
  by (simp add: tunnel_sig_rx_def invite_ok accepted_ok declined_ok Let_def)

lemma rx_tcp_ok: "good st (tt_tunnel_rx_tcp X fn d st)"
  by (simp add: tt_tunnel_rx_tcp_def sig_rx_ok good_foldl tcp_one_ok)

lemma lossless_ok: "good st (tunnel_lossless X fn d st)"
proof (cases "cb_friend_lossless_packet d")
  case (RouteTunnelE2EE f)
  obtain r st1 where r: "tt_tunnel_e2ee_rx X fn f TT_FRAME_DATA_MAX False st = (r, st1)" by (metis prod.exhaust)
  have "good st st1" using good_sealed [OF rx_sends [of st X fn f TT_FRAME_DATA_MAX False]] r by simp
  then show ?thesis using RouteTunnelE2EE r good_trans [OF _ rx_tcp_ok] by (auto simp: tunnel_lossless_def split: sum.splits)
qed (simp_all add: tunnel_lossless_def rx_tcp_ok)

lemma lossy_ok: "good st (tunnel_lossy X fn d st)"
proof (cases "cb_friend_lossy_packet d")
  case (RouteTunnelE2EE f)
  obtain r st1 where r: "tt_tunnel_e2ee_rx X fn f TT_FRAME_DATA_MAX True st = (r, st1)" by (metis prod.exhaust)
  have "good st st1" using good_sealed [OF rx_sends [of st X fn f TT_FRAME_DATA_MAX True]] r by simp
  then show ?thesis using RouteTunnelE2EE r good_trans [OF _ rx_udp_ok] by (auto simp: tunnel_lossy_def split: sum.splits)
qed (simp_all add: tunnel_lossy_def rx_udp_ok)

section \<open>Commands\<close>

lemma bind_local_ok: "good st (snd (bind_local X tcp ip port st))"
  using good_trans [OF good_fields(1) good_close] by (auto simp: bind_local_def Let_def)

lemma bind_ports_ok: "good st (snd (snd (bind_ports X tcp ip l js n socks st)))"
proof (induction X tcp ip l js n socks st rule: bind_ports.induct)
  case (2 X tcp ip l i idxs n socks st)
  obtain s st1 where b: "bind_local X tcp ip (tt_port_list_port l i) st = (s, st1)" by (metis prod.exhaust)
  have "good st st1" using bind_local_ok [of st X tcp ip "tt_port_list_port l i"] b by simp
  then show ?case using 2 [OF b [symmetric]] good_trans b by (auto simp: fun_upd_def)
qed simp

lemma close_socks_ok: "good st (close_socks socks n st)"
  by (simp add: close_socks_def good_foldl)

lemma bind_octets_ok:
  "good st (snd (snd (bind_octets X ips tn st))) \<and> tun_ok (fst (snd (bind_octets X ips tn st))) = tun_ok tn"
proof (induction X ips tn st rule: bind_octets.induct)
  case (2 X ip ips tn st)
  let ?nu = "tt_port_list_len (tn_udp_local tn)" and ?nt = "tt_port_list_len (tn_tcp_local tn)"
  obtain bound us st1 where u: "bind_ports X False ip (tn_udp_local tn) [0..<?nu] 0 (tn_listen_sock tn) st = (bound, us, st1)"
    by (metis prod.exhaust)
  obtain tbound ts st2 where t: "bind_ports X True ip (tn_tcp_local tn) [0..<?nt] 0 (tn_tcp_listen_sock tn) st1 = (tbound, ts, st2)"
    by (metis prod.exhaust)
  have g1: "good st st1" using bind_ports_ok [of st X False ip "tn_udp_local tn" "[0..<?nu]" 0 "tn_listen_sock tn"] u by simp
  have g2: "good st st2"
    using good_trans [OF g1 bind_ports_ok [of st1 X True ip "tn_tcp_local tn" "[0..<?nt]" 0 "tn_tcp_listen_sock tn"]] t by simp
  have g3: "good st (close_socks us bound st1)" "good st (close_socks us ?nu (close_socks ts tbound st2))"
    using good_trans [OF g1 close_socks_ok] good_trans [OF good_trans [OF g2 close_socks_ok] close_socks_ok] .
  consider "ip_used st ip" | "\<not> ip_used st ip" "bound \<noteq> ?nu" | "\<not> ip_used st ip" "bound = ?nu" "tbound \<noteq> ?nt"
    | "\<not> ip_used st ip" "bound = ?nu" "tbound = ?nt" by blast
  then show ?case
  proof cases
    case 1
    then show ?thesis using 2(1) by simp
  next
    case c: 2
    from 2(2) [OF c(1) refl refl u [symmetric] refl refl c(2)]
    show ?thesis using c u good_trans [OF g3(1)] by (simp add: Let_def)
  next
    case c: 3
    from 2(3) [OF c(1) refl refl u [symmetric] refl refl _ t [symmetric] refl refl c(3)]
    show ?thesis using c u t good_trans [OF g3(2)] by (simp add: Let_def)
  next
    case c: 4
    then show ?thesis using u t g2 by (simp add: Let_def)
  qed
qed simp

lemma bind_ok:
  assumes "bind_client_local X tn st = (ok, tn1, st1)"
  shows "good st st1" "tun_ok tn1 = tun_ok tn"
  using bind_octets_ok [of st X "map of_nat [2..<255]" tn] assms by (simp_all add: bind_client_local_def)

lemma start_host_ok: "good st (snd (tt_tunnel_start_host h u t st))"
  using good_alloc_put alloc_ok(2) by (auto simp: tt_tunnel_start_host_def split: option.splits)

lemma bound_ok:
  assumes a: "good st (tn_put i tn st1)" "tun_ok tn" and b: "bind_client_local X tn (tn_put i tn st1) = (ok, tn3, st2)"
  shows "good st (tn_put i tn3 st2)" "good st st2" "tun_ok tn3"
proof -
  show t: "tun_ok tn3" using bind_ok(2) [OF b] a(2) by simp
  show g: "good st st2" using good_trans [OF a(1) bind_ok(1) [OF b]] .
  show "good st (tn_put i tn3 st2)" using good_trans [OF g good_put] t by blast
qed

lemma start_client_ok: "good st (snd (tt_tunnel_start_client X u t pk st))"
proof (cases "tunnel_alloc False st")
  case (Some q)
  then obtain i tn st1 where a: "tunnel_alloc False st = Some (i, tn, st1)" by (metis prod.exhaust)
  note g = alloc_ok [OF a]
  show ?thesis
  proof (cases "hex_to_pk pk")
    case None
    then show ?thesis using a good_trans [OF g(1) free_tunnel_ok] by (simp add: tt_tunnel_start_client_def Let_def)
  next
    case (Some k)
    let ?tn = "tn \<lparr>tn_next_connid := 1, tn_peer_pk := k, tn_udp_local := u, tn_tcp_local := t\<rparr>"
    obtain ok tn3 st2 where b: "bind_client_local X ?tn (tn_put i ?tn st1) = (ok, tn3, st2)" by (metis prod.exhaust)
    note c = bound_ok [OF good_alloc_put [OF a, of ?tn] _ b]
    show ?thesis using a Some b c g(2) good_trans [OF c(2) free_tunnel_ok] by (simp add: tt_tunnel_start_client_def Let_def)
  qed
qed (simp add: tt_tunnel_start_client_def)

lemma stop_ok: "good st (tt_tunnel_stop tid st)"
  using good_trans [OF good_push free_tunnel_ok] by (simp add: tt_tunnel_stop_def split: option.split)

lemma stop_all_ok: "good st (tt_tunnel_stop_all st)"
  unfolding tt_tunnel_stop_all_def by (rule good_foldl) (simp add: free_tunnel_ok split: option.split)

lemma allow_ok: "good st (snd (tt_tunnel_allow X tid pk st))"
  using find_tunnel_Some [of st tid] good_put_pair [OF _ good_refl]
  by (fastforce simp: tt_tunnel_allow_def Let_def split: option.splits)

lemma allow_all_ok: "good st (tt_tunnel_allow_all X pk st)"
  unfolding tt_tunnel_allow_all_def by (rule good_foldl) (simp add: allow_ok split: option.split)

lemma deny_ok: "good st (snd (tt_tunnel_deny tid pk st))"
proof (cases "tunnel_find st tid")
  case (Some i)
  then obtain tn where tn: "tu_tunnels st i = Some tn" using find_tunnel_Some by blast
  show ?thesis using Some tn by (auto simp: tt_tunnel_deny_def Let_def split: option.split intro!: good_put_pair [OF tn])
qed (simp add: tt_tunnel_deny_def)

lemma share_ok: "good st (snd (tt_tunnel_share X fn h u t st))"
proof (cases "tunnel_alloc True st")
  case (Some q)
  then obtain i tn st1 where a: "tunnel_alloc True st = Some (i, tn, st1)" by (metis prod.exhaust)
  have s: "good st (tu_push ev (sig_invite X fn tn' (tn_put i tn' st1)))" if "tun_ok tn'" for tn' ev
    unfolding sig_invite_def by (intro good_trans [OF good_trans [OF good_alloc_put [OF a that] sig_send_ok] good_push])
  show ?thesis using a s alloc_ok(2) [OF a] by (auto simp: tt_tunnel_share_def Let_def split: option.split)
qed (simp add: tt_tunnel_share_def)

lemma accept_ok: "good st (snd (tt_tunnel_accept X fn u t st))"
proof (cases "tunnel_by_peer st fn False")
  case (Some i)
  then obtain tn where tn: "tu_tunnels st i = Some tn" using by_peer_Some by blast
  let ?tn = "tn \<lparr>tn_next_connid := 1, tn_udp_local := u, tn_tcp_local := t\<rparr>"
  obtain ok tn2 st1 where b: "bind_client_local X ?tn (tn_put i ?tn st) = (ok, tn2, st1)" by (metis prod.exhaust)
  have g0: "good st (tn_put i ?tn st)" by (rule good_put_pair [OF tn]) simp_all
  have g1: "good st st1" "tun_ok tn2 = tun_ok tn" using good_trans [OF g0 bind_ok(1) [OF b]] bind_ok(2) [OF b] by simp_all
  have g2: "good st (tu_push ev (sig_send X fn op pl (tn_put i (tn2 \<lparr>tn_pending := False\<rparr>) st1)))" for ev op pl
    using good_put_pair [OF tn g1(1), of "tn2 \<lparr>tn_pending := False\<rparr>"] g1(2) good_trans sig_send_ok good_push
    by (metis tun_ok_fields(1))
  have g3: "good st (tunnel_free i tn2 (tu_push ev st1))" for ev using good_trans [OF good_trans [OF g1(1) good_push] free_tunnel_ok] .
  show ?thesis using Some tn b g2 g3 by (simp add: tt_tunnel_accept_def sig_accept_def Let_def)
qed (simp add: tt_tunnel_accept_def)

lemma decline_ok: "good st (tt_tunnel_decline X fn st)"
  using good_trans [OF sig_send_ok free_tunnel_ok] by (simp add: tt_tunnel_decline_def Let_def split: option.split)

lemma command_ok:
  "good st (cmd_tunnel_allow X v s st)" "good st (cmd_tunnel_deny v s st)" "good st (cmd_tunnel_share X fn s st)" "good st (cmd_tunnel_accept X fn s st)"
  by (auto simp: cmd_tunnel_allow_def cmd_tunnel_deny_def cmd_tunnel_share_def cmd_tunnel_accept_def
      allow_ok allow_all_ok deny_ok share_ok accept_ok split: option.split)

lemma poll_ok: "good st (tt_tunnel_poll X st)"
  unfolding tt_tunnel_poll_def by (rule good_foldl) (rule poll_one_ok)

lemma tick_ok: "good st (tt_tunnel_e2ee_tick X st)"
  unfolding tt_tunnel_e2ee_tick_def by (simp add: good_foldl good_sealed tick_sends)

section \<open>Runs\<close>

text \<open>What can happen to the engine: the kernel has data, a friend sends, the main loop turns, the user acts.\<close>

datatype tun_input =
    TKernel "int \<Rightarrow> recv_item list" "int \<Rightarrow> (sockaddr \<times> bytes) list" "int \<Rightarrow> int list"
  | TLossless nat bytes
  | TLossy nat bytes
  | TPoll
  | TTick
  | TStartHost bytes TTPortRangeList TTPortRangeList
  | TStartClient TTPortRangeList TTPortRangeList "bytes option"
  | TAllow int "bytes option"
  | TDeny int "bytes option"
  | TShare nat "bytes option"
  | TAccept nat "bytes option"
  | TDecline nat
  | TStop int
  | TStopAll

fun tun_step :: "tstate \<Rightarrow> tenv \<times> tun_input \<Rightarrow> tstate" where
  "tun_step st (X, TKernel i f a) = st \<lparr>tu_in := i, tu_from := f, tu_accept := a\<rparr>"
| "tun_step st (X, TLossless fn d) = tunnel_lossless X fn d st"
| "tun_step st (X, TLossy fn d) = tunnel_lossy X fn d st"
| "tun_step st (X, TPoll) = (if tt_tunnel_active st then tt_tunnel_poll X st else st)"
| "tun_step st (X, TTick) = tt_tunnel_e2ee_tick X st"
| "tun_step st (X, TStartHost h u t) = snd (tt_tunnel_start_host h u t st)"
| "tun_step st (X, TStartClient u t pk) = snd (tt_tunnel_start_client X u t pk st)"
| "tun_step st (X, TAllow v s) = cmd_tunnel_allow X v s st"
| "tun_step st (X, TDeny v s) = cmd_tunnel_deny v s st"
| "tun_step st (X, TShare fn s) = cmd_tunnel_share X fn s st"
| "tun_step st (X, TAccept fn s) = cmd_tunnel_accept X fn s st"
| "tun_step st (X, TDecline fn) = tt_tunnel_decline X fn st"
| "tun_step st (X, TStop v) = tt_tunnel_stop (of_int v) st"
| "tun_step st (X, TStopAll) = tt_tunnel_stop_all st"

definition tun_run :: "tstate \<Rightarrow> (tenv \<times> tun_input) list \<Rightarrow> tstate" where
  "tun_run st ins = foldl tun_step st ins"

lemma kernel_ok: "good st (st \<lparr>tu_in := i, tu_from := f, tu_accept := a\<rparr>)"
  by (simp add: good_def st_ok_def)

lemmas inputs_ok = kernel_ok lossless_ok lossy_ok poll_ok tick_ok start_host_ok start_client_ok command_ok decline_ok stop_ok stop_all_ok

lemma step_ok: "good st (tun_step st x)"
  by (cases "(st, x)" rule: tun_step.cases) (simp_all add: inputs_ok)

lemma run_ok: "good st (tun_run st ins)"
  unfolding tun_run_def by (rule good_foldl) (rule step_ok)

text \<open>C9: With the encrypted tunnel channel on, whatever the kernel, the friends and the user do, every packet the
  tunnel engine hands to toxcore is a frame of the encrypted channel or tunnel signalling (packet type 163),
  never forwarded payload in the clear.\<close>

theorem tunnel_payload_never_plain:
  assumes "tu_e2ee st \<noteq> None"
  shows "list_all guarded (drop (length (tu_out st)) (tu_out (tun_run st ins)))"
  using run_ok [of st ins] assms by (auto simp: good_def)

theorem tunnel_payload_never_plain_witness:
  "let st = demo_tstate \<lparr>tu_e2ee := Some (\<lambda>_. tt_session_init)\<rparr>;
       ins = [(demo_tenv, TShare 3 (Some (ascii ''lan'' @ [10, 55, 10, 56]))), (demo_tenv, TLossless 3 [163, 1, 2, 0, 0, 0, 0, 0, 0, 0, 0]), (demo_tenv, TPoll)]
   in tu_e2ee st \<noteq> None \<and> list_all guarded (tu_out (tun_run st ins))"
  unfolding Let_def using tunnel_payload_never_plain [of "demo_tstate \<lparr>tu_e2ee := Some (\<lambda>_. tt_session_init)\<rparr>"]
  by (simp add: demo_tstate_def)

text \<open>In every run that starts without tunnels, each connection has at most 16 packets without credit and
  fewer than 4 packets whose credit it still owes.\<close>

theorem tunnel_windows_bounded:
  assumes "\<And>i. tu_tunnels st i = None" "tu_tunnels (tun_run st ins) i = Some tn"
  shows "conn_ok (tn_conns tn j)"
  using run_ok [of st ins] assms by (auto simp: good_def st_ok_def tun_ok_def)

theorem tunnel_windows_bounded_witness:
  "\<exists>tn. tu_tunnels (tun_run demo_tstate [(demo_tenv, TStartHost [108] [] [\<lparr>pr_start = 80, pr_count = 1\<rparr>])]) 0 = Some tn \<and> conn_ok (tn_conns tn 0)"
proof -
  let ?run = "tun_run demo_tstate [(demo_tenv, TStartHost [108] [] [\<lparr>pr_start = 80, pr_count = 1\<rparr>])]"
  have "find (\<lambda>i. tu_tunnels demo_tstate i = None) [0..<16] = Some 0" by (simp add: demo_tstate_def upt_conv_Cons)
  then have "tu_tunnels ?run 0 \<noteq> None"
    by (simp add: tun_run_def tt_tunnel_start_host_def tunnel_alloc_def tn_put_def Let_def)
  then show ?thesis using tunnel_windows_bounded [of demo_tstate _ 0 _ 0] by (auto simp: demo_tstate_def)
qed

end
