(* ===== verification/TunnelSetup.thy ===== *)
theory TunnelSetup
  imports TunnelSafe
begin

text \<open>
  Setting a tunnel up: the invite that \<^verbatim>\<open>tt_tunnel_share\<close> sends is read back by the friend as it was
  meant.  And two places where the engine does less than its comments say: a host opens TCP connections for
  friends that its allow list does not have, and data for a friend without an encrypted session is dropped
  although the caller is told that it was sent.
\<close>

section \<open>The invite\<close>

lemma get_ranges_put [simp]:
  "get_ranges (length l) (concat (map (\<lambda>r. be16 (pr_start r) @ be16 (pr_count r)) l) @ b) = Some (l, b)"
  by (induction l) (simp_all add: be16_def)

lemma get_range_list_put [simp]:
  assumes "length l \<le> 8"
  shows "get_range_list (put_ranges l @ b) = Some (l, b)"
proof -
  obtain b0 b1 where e: "be16 (of_nat (length l)) = [b0, b1]" "rd16 b0 b1 = of_nat (length l)" by (simp add: be16_def)
  have "unat (of_nat (length l) :: u16) = length l" using assms by (simp add: unsigned_of_nat take_bit_nat_eq_self)
  then show ?thesis using assms e by (simp add: put_ranges_def min_def)
qed

lemma length_put_ranges [simp]: "length (put_ranges l) = 2 + 4 * length l"
  by (induction l) (simp_all add: put_ranges_def)

lemma by_peer_fresh:
  assumes "tunnel_by_peer st fn h = None" "find (\<lambda>i. tu_tunnels st i = None) [0..<16] = Some i"
    "tn_host tn = h" "tn_peer_fn tn = fn"
  shows "tunnel_by_peer (tu_push ev (tn_put i tn (st \<lparr>tu_seq := n\<rparr>))) fn h = Some i"
proof -
  have i: "i < 16" using assms(2) by (auto simp: find_Some_iff)
  have none: "\<not> (tn_host t = h \<and> tn_peer_fn t = fn)" if "j < i" "tu_tunnels st j = Some t" for j t
  proof -
    have "j \<in> set [0..<16]" using that(1) i by simp
    then have "\<not> (case tu_tunnels st j of None \<Rightarrow> False | Some tn \<Rightarrow> tn_host tn = h \<and> tn_peer_fn tn = fn)"
      using assms(1) by (auto simp: tunnel_by_peer_def find_None_iff)
    then show ?thesis using that(2) by simp
  qed
  show ?thesis
    unfolding tunnel_by_peer_def find_Some_iff
    using i none assms(3,4)
    by (intro exI [of _ i]) (auto simp: tu_push_def tn_put_def split: option.splits)
qed

lemma invite_read:
  assumes "0 \<notin> set host" "length host \<le> 200" "length udp \<le> 8" "length tcp \<le> 8"
    and "tunnel_by_peer st fn False = None" "find (\<lambda>i. tu_tunnels st i = None) [0..<16] = Some i"
  obtains tn where
    "tunnel_by_peer (rx_invite fn (host @ [0] @ put_ranges udp @ put_ranges tcp) st) fn False = Some i"
    "tu_tunnels (rx_invite fn (host @ [0] @ put_ranges udp @ put_ranges tcp) st) i = Some tn"
    "tn_pending tn" "tn_server_host tn = host" "tn_udp tn = udp" "tn_tcp tn = tcp"
proof -
  let ?p = "host @ [0] @ put_ranges udp @ put_ranges tcp"
  let ?tn = "tunnel_zero \<lparr>tn_host := False, tn_id := tu_seq st + 1, tn_pending := True, tn_peer_fn := fn,
    tn_server_host := host, tn_udp := udp, tn_tcp := tcp\<rparr>"
  have "\<exists>r. take (length ?p - 2) ?p = host @ 0 # r"
    by (intro exI [of _ "take (length (put_ranges udp @ put_ranges tcp) - 2) (put_ranges udp @ put_ranges tcp)"]) (simp add: take_Cons')
  then obtain r where r: "take (length ?p - 2) ?p = host @ 0 # r" by blast
  have hl: "length (takeWhile (\<lambda>c. c \<noteq> 0) (take (length ?p - 2) ?p)) = length host"
    unfolding r using assms(1) by (subst takeWhile_append2) auto
  have d: "drop (length host + 1) ?p = put_ranges udp @ put_ranges tcp" by simp
  have tcp: "get_range_list (put_ranges tcp) = Some (tcp, [])" using get_range_list_put [OF assms(4), of "[]"] by simp
  obtain ev n where e: "rx_invite fn ?p st = tu_push ev (tn_put i ?tn (st \<lparr>tu_seq := n\<rparr>))"
    unfolding rx_invite_def Let_def hl d
    using assms(2,3,5,6) tcp by (auto simp: tunnel_alloc_def tn_put_def Let_def)
  show ?thesis
  proof (rule that [of ?tn])
    show "tunnel_by_peer (rx_invite fn ?p st) fn False = Some i"
      unfolding e by (rule by_peer_fresh [OF assms(5,6)]) (simp_all add: tunnel_zero_def)
    show "tu_tunnels (rx_invite fn ?p st) i = Some ?tn" unfolding e by (simp add: tu_push_def tn_put_def)
  qed simp_all
qed

text \<open>The invite that sharing a service sends reaches the friend intact: when toxcore takes the packet and
  the friend has a free slot and no tunnel from this sender, the friend ends up with a pending client tunnel
  for the sender that names the same server and the same UDP and TCP port ranges.\<close>

theorem invite_roundtrip:
  assumes "0 \<notin> set host" "length host \<le> 200" "ports_ok udp" "ports_ok tcp"
    and "tt_tunnel_share X fn host udp tcp st = (tid, st1)" "tu_out st1 = tu_out st @ [OLossless fn pkt]"
    and "tunnel_by_peer peer me False = None" "find (\<lambda>i. tu_tunnels peer i = None) [0..<16] = Some i"
  shows "\<exists>tn. tu_tunnels (tunnel_lossless Y me pkt peer) i = Some tn \<and> tunnel_by_peer (tunnel_lossless Y me pkt peer) me False = Some i \<and>
    tn_pending tn \<and> tn_server_host tn = host \<and> tn_udp tn = udp \<and> tn_tcp tn = tcp"
proof -
  let ?p = "host @ [0] @ put_ranges udp @ put_ranges tcp"
  have l: "length udp \<le> 8" "length tcp \<le> 8" using assms(3,4) by (simp_all add: ports_ok_def)
  have "pkt = 163 # 1 # 1 # ?p" using assms(2,5,6) l
    by (auto simp: tt_tunnel_share_def tunnel_alloc_def sig_invite_def sig_send_def send_packet_def tu_log_def tu_push_def tn_put_def
        Let_def split: if_splits option.splits)
  then have e: "tunnel_lossless Y me pkt peer = rx_invite me ?p peer"
    by (simp add: tunnel_lossless_def cb_friend_lossless_packet_def tt_tunnel_rx_tcp_def tunnel_sig_rx_def)
  show ?thesis unfolding e by (rule invite_read [OF assms(1,2) l assms(7,8)]) blast
qed

theorem invite_roundtrip_witness:
  "\<exists>pkt tn. tu_out (snd (tt_tunnel_share demo_tenv 3 (ascii ''lan'') [\<lparr>pr_start = 80, pr_count = 2\<rparr>] [] demo_tstate)) = [OLossless 3 pkt] \<and>
     tu_tunnels (tunnel_lossless demo_tenv 5 pkt demo_tstate) 0 = Some tn \<and> tn_server_host tn = ascii ''lan'' \<and> tn_udp tn = [\<lparr>pr_start = 80, pr_count = 2\<rparr>]"
proof -
  have f: "find (\<lambda>i. tu_tunnels demo_tstate i = None) [0..<16] = Some 0" by (simp add: demo_tstate_def upt_conv_Cons)
  have n: "tunnel_by_peer demo_tstate 5 False = None" by (simp add: tunnel_by_peer_def demo_tstate_def find_None_iff)
  have o: "tu_out demo_tstate = []" by (simp add: demo_tstate_def)
  obtain tid st1 where s: "tt_tunnel_share demo_tenv 3 (ascii ''lan'') [\<lparr>pr_start = 80, pr_count = 2\<rparr>] [] demo_tstate = (tid, st1)"
    by (metis prod.exhaust)
  then obtain pkt where p: "tu_out st1 = tu_out demo_tstate @ [OLossless 3 pkt]"
    by (simp add: tt_tunnel_share_def tunnel_alloc_def f Let_def sig_invite_def sig_send_def send_packet_def tu_log_def tu_push_def tn_put_def
        demo_tenv_def ascii_def split: option.splits; force)
  have "ports_ok [\<lparr>pr_start = 80, pr_count = 2\<rparr>]" "ports_ok []" "0 \<notin> set (ascii ''lan'')" "length (ascii ''lan'') \<le> 200"
    by (simp_all add: ports_ok_def range_ok_def tt_port_range_len_def ascii_def)
  from invite_roundtrip [OF this(3,4,1,2) s p n f, of demo_tenv] show ?thesis using s p o by auto
qed

section \<open>The allow list\<close>

text \<open>A host tunnel opens a TCP connection to its server for any friend, whether or not the friend is
  on the tunnel's allow list: the list guards UDP only.\<close>

theorem tcp_open_needs_no_permission:
  assumes "\<not> fn_allowed tn fn" "conn_find tn fn ci = None" "find (\<lambda>j. \<not> cn_used (tn_conns tn j)) [0..<64] = Some j"
    and "0 \<le> z_socket X (tu_sockets st)" "unat pi < tt_port_list_len (tn_tcp tn)"
    and "z_resolve X (tn_server_host tn) (tt_port_list_port (tn_tcp tn) (unat pi)) = Some srv" "z_connect X srv = CONN_DONE"
  shows "conn_find (fst (tunnel_tcp_rx_host X tn fn pi ci 1 d st)) fn ci = Some j"
proof -
  let ?tn = "fst (tunnel_tcp_rx_host X tn fn pi ci 1 d st)"
  have c: "tn_conns ?tn = (tn_conns tn)(j := (tn_conns tn j) \<lparr>cn_used := True, cn_connecting := False, cn_peer_gone := False, cn_unacked := 0,
      cn_ack_due := 0, cn_fn := fn, cn_port_idx := pi, cn_connid := ci, cn_sock := z_socket X (tu_sockets st)\<rparr>)"
    using assms by (simp add: tunnel_tcp_rx_host_def host_open_conn_def conn_alloc_def conn_put_def Let_def)
  have j: "j < 64" using assms(3) by (auto simp: find_Some_iff)
  have none: "\<forall>k < 64. \<not> (cn_used (tn_conns tn k) \<and> cn_fn (tn_conns tn k) = fn \<and> cn_connid (tn_conns tn k) = ci)"
    using assms(2) by (auto simp: conn_find_def find_None_iff Let_def)
  show ?thesis unfolding conn_find_def find_Some_iff Let_def using j none by (intro exI [of _ j]) (auto simp: c)
qed

theorem tcp_open_needs_no_permission_witness:
  "let tn = tunnel_zero \<lparr>tn_host := True, tn_tcp := [\<lparr>pr_start = 80, pr_count = 1\<rparr>]\<rparr>
   in \<not> fn_allowed tn 3 \<and> conn_find (fst (tunnel_tcp_rx_host demo_tenv tn 3 0 7 1 [] demo_tstate)) 3 7 = Some 0"
proof -
  let ?tn = "tunnel_zero \<lparr>tn_host := True, tn_tcp := [\<lparr>pr_start = 80, pr_count = 1\<rparr>]\<rparr>"
  have "\<not> fn_allowed ?tn 3" by (simp add: fn_allowed_def tunnel_zero_def list_ex_iff)
  moreover have "conn_find ?tn 3 7 = None" by (simp add: conn_find_def tunnel_zero_def conn_zero_def find_None_iff)
  moreover have "find (\<lambda>j. \<not> cn_used (tn_conns ?tn j)) [0..<64] = Some 0" by (simp add: tunnel_zero_def conn_zero_def upt_conv_Cons)
  ultimately show ?thesis
    unfolding Let_def using tcp_open_needs_no_permission [of ?tn 3 7 0 demo_tenv demo_tstate 0 "(0, 80)" "[]"]
    by (simp add: demo_tenv_def demo_tstate_def tt_port_range_len_def)
qed

section \<open>Data without a session\<close>

text \<open>While the encrypted channel is on but the session with the friend is not active, flushing a
  connection reports that everything was sent and empties the buffer, although no packet left: the bytes are lost.\<close>

theorem inactive_session_loses_data:
  assumes "tu_e2ee st \<noteq> None" "\<not> s_active (tun_session st (cn_fn c))" "cn_unacked c = 0" "length (cn_out c) \<le> 1312" "cn_out c \<noteq> []"
  shows "conn_flush_out X c st = (FLUSH_EMPTY, c \<lparr>cn_unacked := 1, cn_out := []\<rparr>, st)"
proof -
  have s: "tcp_send_ex X (cn_fn c) (cn_port_idx c) (cn_connid c) 4 (cn_out c) st = (TT_SEND_OK, st)"
    using assms by (simp add: tcp_send_ex_def)
  have "flush_loop X 1312 (c \<lparr>cn_unacked := 1, cn_out := []\<rparr>) st = (FLUSH_EMPTY, c \<lparr>cn_unacked := 1, cn_out := []\<rparr>, st)"
    by (subst flush_loop.simps) simp
  then show ?thesis using assms s by (simp add: conn_flush_out_def conn_read_max_def, subst flush_loop.simps) (simp add: min_def)
qed

theorem inactive_session_loses_data_witness:
  "conn_flush_out demo_tenv (conn_zero \<lparr>cn_out := [1, 2]\<rparr>) (demo_tstate \<lparr>tu_e2ee := Some (\<lambda>_. tt_session_init)\<rparr>) =
     (FLUSH_EMPTY, conn_zero \<lparr>cn_unacked := 1, cn_out := []\<rparr>, demo_tstate \<lparr>tu_e2ee := Some (\<lambda>_. tt_session_init)\<rparr>)"
  using inactive_session_loses_data [of "demo_tstate \<lparr>tu_e2ee := Some (\<lambda>_. tt_session_init)\<rparr>" "conn_zero \<lparr>cn_out := [1, 2]\<rparr>" demo_tenv]
  by (simp add: tun_session_def tt_session_init_def conn_zero_def)

end
