(* ===== verification/AudioRing.thy ===== *)
theory AudioRing
  imports EventQueue
begin

text \<open>
  The audio rings of \<^verbatim>\<open>src/src/audio_alsa.c\<close>: 50 frames of 1920 bytes between the device workers and the tox
  thread, with 32-bit frame cursors that only count up and are reduced modulo 50 on access.  The workers are
  given one iteration at a time; what the device reads is their argument.

  What a ring promises is the locale \<open>lossy_fifo\<close>: a queue that drops its oldest bytes when a push does not fit.
\<close>

abbreviation (input) "TT_AUDIO_RING_FRAMES \<equiv> (50 :: nat)"
abbreviation (input) "TT_AUDIO_FRAME_FRAMES \<equiv> (960 :: nat)"
abbreviation (input) "TT_AUDIO_FRAME_BYTES \<equiv> (1920 :: nat)"
abbreviation (input) "ring_bytes \<equiv> (96000 :: nat)"

record TTAudioRing =
  rg_buf :: bytes
  rg_head :: u32
  rg_tail :: u32

record TTAudio =
  au_run :: bool
  au_cap_ring :: TTAudioRing
  au_play_ring :: TTAudioRing

definition memcpy_at :: "nat \<Rightarrow> bytes \<Rightarrow> bytes \<Rightarrow> bytes" where
  "memcpy_at off src buf = take off buf @ src @ drop (off + length src) buf"

definition ring_reset :: "TTAudioRing \<Rightarrow> TTAudioRing" where
  "ring_reset r = r \<lparr>rg_head := 0, rg_tail := 0\<rparr>"

definition ring_copy_in :: "nat \<Rightarrow> bytes \<Rightarrow> bytes \<Rightarrow> bytes" where
  "ring_copy_in off src buf =
     (if off + length src \<le> ring_bytes then memcpy_at off src buf
      else let first = ring_bytes - off in memcpy_at 0 (drop first src) (memcpy_at off (take first src) buf))"

definition ring_push :: "TTAudioRing \<Rightarrow> bytes \<Rightarrow> nat \<Rightarrow> TTAudioRing" where
  "ring_push r pcm0 frames0 =
     (let pcm = (if frames0 > TT_AUDIO_RING_FRAMES then drop ((frames0 - TT_AUDIO_RING_FRAMES) * TT_AUDIO_FRAME_BYTES) pcm0 else pcm0);
          frames = (if frames0 > TT_AUDIO_RING_FRAMES then TT_AUDIO_RING_FRAMES else frames0);
          used = unat (rg_head r - rg_tail r);
          tail = (if used + frames > TT_AUDIO_RING_FRAMES then rg_tail r + of_nat (used + frames - TT_AUDIO_RING_FRAMES) else rg_tail r);
          off = (unat (rg_head r) mod TT_AUDIO_RING_FRAMES) * TT_AUDIO_FRAME_BYTES
      in r \<lparr>rg_buf := ring_copy_in off (take (frames * TT_AUDIO_FRAME_BYTES) pcm) (rg_buf r),
            rg_head := rg_head r + of_nat frames, rg_tail := tail\<rparr>)"

definition ring_copy_out :: "nat \<Rightarrow> nat \<Rightarrow> bytes \<Rightarrow> bytes" where
  "ring_copy_out off n buf =
     (if off + n \<le> ring_bytes then take n (drop off buf)
      else let first = ring_bytes - off in take first (drop off buf) @ take (n - first) buf)"

definition ring_pop :: "TTAudioRing \<Rightarrow> nat \<Rightarrow> nat \<times> bytes \<times> TTAudioRing" where
  "ring_pop r max_frames =
     (let used = unat (rg_head r - rg_tail r);
          n = min (if used > TT_AUDIO_RING_FRAMES then TT_AUDIO_RING_FRAMES else used) max_frames;
          off = (unat (rg_tail r) mod TT_AUDIO_RING_FRAMES) * TT_AUDIO_FRAME_BYTES
      in (n, ring_copy_out off (n * TT_AUDIO_FRAME_BYTES) (rg_buf r), r \<lparr>rg_tail := rg_tail r + of_nat n\<rparr>))"

text \<open>What the calloc of \<^verbatim>\<open>tt_audio_start\<close> and the two resets leave.\<close>

definition audio_zero :: TTAudio where
  "audio_zero = (let r = ring_reset \<lparr>rg_buf = replicate ring_bytes 0, rg_head = 0, rg_tail = 0\<rparr>
     in \<lparr>au_run = True, au_cap_ring = r, au_play_ring = r\<rparr>)"

datatype pcm_read = ReadOverrun | ReadError | ReadSamples nat bytes

text \<open>One turn of the capture worker; \<^const>\<open>None\<close> ends it.\<close>

definition capture_worker :: "bool \<Rightarrow> pcm_read \<Rightarrow> TTAudio \<Rightarrow> TTAudio option" where
  "capture_worker mic_muted rd a =
     (case rd of
        ReadOverrun \<Rightarrow> Some a
      | ReadError \<Rightarrow> None
      | ReadSamples n pcm \<Rightarrow>
          Some (if mic_muted then a
                else if n = TT_AUDIO_FRAME_FRAMES then a \<lparr>au_cap_ring := ring_push (au_cap_ring a) pcm 1\<rparr> else a))"

text \<open>One turn of the playback worker: what it writes to the device.\<close>

definition playback_worker :: "TTAudio \<Rightarrow> bytes \<times> TTAudio" where
  "playback_worker a = (case ring_pop (au_play_ring a) 1 of (n, pcm, r) \<Rightarrow> (if n = 0 then [] else pcm, a \<lparr>au_play_ring := r\<rparr>))"

definition tt_audio_capture_pop :: "TTAudio option \<Rightarrow> nat \<Rightarrow> nat \<times> bytes \<times> TTAudio option" where
  "tt_audio_capture_pop au max_frames =
     (case au of
        None \<Rightarrow> (0, [], None)
      | Some a \<Rightarrow> (case ring_pop (au_cap_ring a) max_frames of (n, pcm, r) \<Rightarrow> (n, pcm, Some (a \<lparr>au_cap_ring := r\<rparr>))))"

definition tt_audio_playback_push :: "TTAudio option \<Rightarrow> bytes \<Rightarrow> nat \<Rightarrow> TTAudio option" where
  "tt_audio_playback_push au pcm frames = map_option (\<lambda>a. a \<lparr>au_play_ring := ring_push (au_play_ring a) pcm frames\<rparr>) au"

section \<open>The promise\<close>

text \<open>
  A queue that keeps at most \<open>cap\<close> items: a push that does not fit drops the oldest.
\<close>

datatype 'a fifo_op = Put "'a list" | Get nat

fun fifo_run :: "('s \<Rightarrow> 'a list \<Rightarrow> 's) \<Rightarrow> ('s \<Rightarrow> nat \<Rightarrow> 'a list \<times> 's) \<Rightarrow> 's \<Rightarrow> 'a fifo_op list \<Rightarrow> 'a list" where
  "fifo_run put get s [] = []"
| "fifo_run put get s (Put xs # ops) = fifo_run put get (put s xs) ops"
| "fifo_run put get s (Get k # ops) = (case get s k of (ys, s') \<Rightarrow> ys @ fifo_run put get s' ops)"

fun puts :: "'a fifo_op list \<Rightarrow> 'a list list" where
  "puts [] = []"
| "puts (Put xs # ops) = xs # puts ops"
| "puts (Get k # ops) = puts ops"

definition dq_put :: "nat \<Rightarrow> 'a list \<Rightarrow> 'a list \<Rightarrow> 'a list" where
  "dq_put cap q xs = drop (length (q @ xs) - cap) (q @ xs)"

definition dq_get :: "nat \<Rightarrow> 'a list \<Rightarrow> nat \<Rightarrow> 'a list \<times> 'a list" where
  "dq_get u q k = (take (k * u) q, drop (k * u) q)"

text \<open>\<open>good s n\<close>: the state is sound after at most \<open>n\<close> units have been put into it.\<close>

locale lossy_fifo =
  fixes good :: "'s \<Rightarrow> nat \<Rightarrow> bool" and held :: "'s \<Rightarrow> 'a list" and put :: "'s \<Rightarrow> 'a list \<Rightarrow> 's" and get :: "'s \<Rightarrow> nat \<Rightarrow> 'a list \<times> 's"
    and unit_size :: nat and cap :: nat and limit :: nat
  assumes put_good: "good s n \<Longrightarrow> length xs = k * unit_size \<Longrightarrow> n + k < limit \<Longrightarrow> good (put s xs) (n + k)"
    and put_held: "good s n \<Longrightarrow> length xs = k * unit_size \<Longrightarrow> n + k < limit \<Longrightarrow> held (put s xs) = dq_put cap (held s) xs"
    and get_good: "good s n \<Longrightarrow> good (snd (get s k)) n"
    and get_taken: "good s n \<Longrightarrow> fst (get s k) = take (k * unit_size) (held s)"
    and get_held: "good s n \<Longrightarrow> held (snd (get s k)) = drop (k * unit_size) (held s)"
begin

lemma run_refines:
  assumes "good s n" "\<forall>xs \<in> set (puts ops). unit_size dvd length xs" "unit_size \<noteq> 0"
    "n + sum_list (map (\<lambda>xs. length xs div unit_size) (puts ops)) < limit"
  shows "fifo_run put get s ops = fifo_run (dq_put cap) (dq_get unit_size) (held s) ops"
  using assms
proof (induction ops arbitrary: s n)
  case (Cons x ops)
  show ?case
  proof (cases x)
    case (Put xs)
    let ?k = "length xs div unit_size"
    have k: "length xs = ?k * unit_size" "n + ?k < limit" using Cons.prems Put by auto
    have "fifo_run put get (put s xs) ops = fifo_run (dq_put cap) (dq_get unit_size) (held (put s xs)) ops"
      by (rule Cons.IH [OF put_good [OF Cons.prems(1) k]]) (use Cons.prems Put in auto)
    then show ?thesis using put_held [OF Cons.prems(1) k] Put by simp
  next
    case (Get k)
    have "fifo_run put get (snd (get s k)) ops = fifo_run (dq_put cap) (dq_get unit_size) (held (snd (get s k))) ops"
      by (rule Cons.IH [OF get_good [OF Cons.prems(1)]]) (use Cons.prems Get in auto)
    then show ?thesis using get_taken [OF Cons.prems(1)] get_held [OF Cons.prems(1)] Get by (simp add: dq_get_def [of _ "held s"] split_beta)
  qed
qed simp

end

section \<open>The rings keep it\<close>

lemma length_memcpy_at [simp]: "off + length src \<le> length buf \<Longrightarrow> length (memcpy_at off src buf) = length buf"
  by (simp add: memcpy_at_def)

lemma memcpy_at_nth:
  "off + length src \<le> length buf \<Longrightarrow> j < length buf \<Longrightarrow>
     memcpy_at off src buf ! j = (if off \<le> j \<and> j < off + length src then src ! (j - off) else buf ! j)"
  by (auto simp: memcpy_at_def nth_append min_def)

text \<open>A write at \<open>b mod M\<close> of a circular buffer, read at position \<open>i\<close> of the unbounded stream.\<close>

lemma mod_forward: "(b :: nat) mod M + d < M \<Longrightarrow> (b + d) mod M = b mod M + d"
  by (metis mod_add_left_eq mod_less)

lemma mod_around:
  assumes "(b :: nat) mod M + d \<ge> M" "d \<le> M" "0 < M"
  shows "(b + d) mod M = b mod M + d - M"
proof -
  have "(b + d) mod M = (b mod M + d) mod M" by (simp add: mod_add_left_eq)
  also have "\<dots> = (b mod M + d - M) mod M" using assms by (simp add: le_mod_geq)
  also have "\<dots> = b mod M + d - M" using assms mod_less_divisor [OF assms(3), of b] by (intro mod_less) linarith
  finally show ?thesis .
qed

lemma length_copy_in [simp]:
  assumes "length buf = 96000" "off < 96000" "length src \<le> 96000"
  shows "length (ring_copy_in off src buf) = 96000"
  using assms by (auto simp: ring_copy_in_def Let_def)

lemma copy_in_nth:
  assumes "length buf = 96000" "off < 96000" "length src \<le> 96000" "j < 96000"
  shows "ring_copy_in off src buf ! j =
    (if off \<le> j \<and> j < off + length src then src ! (j - off) else if j + 96000 < off + length src then src ! (j + 96000 - off) else buf ! j)"
proof (cases "off + length src \<le> 96000")
  case True
  then show ?thesis using assms by (auto simp: ring_copy_in_def memcpy_at_nth)
next
  case False
  let ?f = "96000 - off" let ?b = "memcpy_at off (take ?f src) buf"
  have l: "length (take ?f src) = ?f" using False by simp
  have b: "?b ! j = (if off \<le> j then src ! (j - off) else buf ! j)" using assms l by (simp add: memcpy_at_nth)
  have "length ?b = 96000" using assms l by simp
  then have "ring_copy_in off src buf ! j = (if j < length src - ?f then src ! (?f + j) else ?b ! j)"
    using assms False by (simp add: ring_copy_in_def Let_def memcpy_at_nth)
  moreover have "?f + j = j + 96000 - off" "j < length src - ?f \<longleftrightarrow> j + 96000 < off + length src" using assms False by auto
  moreover have "j < off" if "j + 96000 < off + length src" using that assms by linarith
  moreover have "j < off + length src" using False assms by linarith
  ultimately show ?thesis using b by auto
qed

lemma copy_in_new:
  assumes "length buf = 96000" "length src \<le> 96000" "d < length src"
  shows "ring_copy_in (b mod 96000) src buf ! ((b + d) mod 96000) = src ! d"
proof (cases "b mod 96000 + d < 96000")
  case True
  then show ?thesis using assms mod_forward [OF True] by (simp add: copy_in_nth)
next
  case False
  have "(b + d) mod 96000 = b mod 96000 + d - 96000" using False assms by (intro mod_around) auto
  moreover have "b mod 96000 + d - 96000 < b mod 96000" using False assms by linarith
  ultimately show ?thesis using assms False by (simp add: copy_in_nth)
qed

lemma copy_in_old:
  assumes "length buf = 96000" "length src \<le> d" "d < 96000"
  shows "ring_copy_in (b mod 96000) src buf ! ((b + d) mod 96000) = buf ! ((b + d) mod 96000)"
proof (cases "b mod 96000 + d < 96000")
  case True
  then show ?thesis using assms mod_forward [OF True] by (simp add: copy_in_nth)
next
  case False
  have "(b + d) mod 96000 = b mod 96000 + d - 96000" using False assms by (intro mod_around) auto
  moreover have "b mod 96000 + d - 96000 < b mod 96000" using False assms by linarith
  ultimately show ?thesis using assms False by (simp add: copy_in_nth)
qed

definition ring_held :: "TTAudioRing \<Rightarrow> bytes" where
  "ring_held r = map (\<lambda>i. rg_buf r ! (i mod 96000)) [unat (rg_tail r) * 1920..<unat (rg_head r) * 1920]"

definition ring_good :: "TTAudioRing \<Rightarrow> nat \<Rightarrow> bool" where
  "ring_good r n \<longleftrightarrow> length (rg_buf r) = 96000 \<and> unat (rg_tail r) \<le> unat (rg_head r) \<and>
     unat (rg_head r) \<le> unat (rg_tail r) + 50 \<and> unat (rg_head r) \<le> n"


lemma ring_used: "ring_good r n \<Longrightarrow> unat (rg_head r - rg_tail r) = unat (rg_head r) - unat (rg_tail r)"
  by (simp add: ring_good_def unat_sub word_le_nat_alt)

lemma length_ring_held: "ring_good r n \<Longrightarrow> length (ring_held r) = (unat (rg_head r) - unat (rg_tail r)) * 1920"
  by (simp add: ring_held_def diff_mult_distrib)

lemma unat_add_small: "unat x + k < 2 ^ 32 \<Longrightarrow> unat (x + of_nat k :: u32) = unat x + k"
  by (simp add: unat_word_ariths unsigned_of_nat take_bit_nat_def)

lemma frame_offset: "(h mod 50) * 1920 = (h * 1920) mod (96000 :: nat)"
  using mult_mod_left [of h 50 1920] by simp

definition ring_put :: "TTAudioRing \<Rightarrow> bytes \<Rightarrow> TTAudioRing" where
  "ring_put r xs = ring_push r xs (length xs div 1920)"

definition ring_get :: "TTAudioRing \<Rightarrow> nat \<Rightarrow> bytes \<times> TTAudioRing" where
  "ring_get r k = snd (ring_pop r k)"

text \<open>A push of at most 50 frames.\<close>

lemma push_fields:
  assumes g: "ring_good r n" and k: "length xs = k * 1920" "k \<le> 50" and n: "n + k < 2 ^ 32"
  defines "t \<equiv> max (unat (rg_tail r)) (unat (rg_head r) + k - 50)"
  shows "unat (rg_head (ring_push r xs k)) = unat (rg_head r) + k" "unat (rg_tail (ring_push r xs k)) = t"
    "rg_buf (ring_push r xs k) = ring_copy_in ((unat (rg_head r) * 1920) mod 96000) xs (rg_buf r)"
proof -
  have h: "unat (rg_head r) + k < 2 ^ 32" "unat (rg_tail r) \<le> unat (rg_head r)" "unat (rg_head r) \<le> unat (rg_tail r) + 50"
    using g n by (auto simp: ring_good_def)
  show "unat (rg_head (ring_push r xs k)) = unat (rg_head r) + k"
    using k unat_add_small [OF h(1)] by (simp add: ring_push_def Let_def)
  have "unat (rg_tail r + of_nat (unat (rg_head r) - unat (rg_tail r) + k - 50)) = unat (rg_tail r) + (unat (rg_head r) - unat (rg_tail r) + k - 50)"
    using h k by (intro unat_add_small) linarith
  then show "unat (rg_tail (ring_push r xs k)) = t"
    using k ring_used [OF g] h unfolding t_def by (auto simp: ring_push_def Let_def max_def)
  show "rg_buf (ring_push r xs k) = ring_copy_in ((unat (rg_head r) * 1920) mod 96000) xs (rg_buf r)"
    using k by (simp add: ring_push_def Let_def frame_offset)
qed

lemma push_held:
  assumes g: "ring_good r n" and k: "length xs = k * 1920" "k \<le> 50" and n: "n + k < 2 ^ 32"
  shows "ring_held (ring_push r xs k) = dq_put 96000 (ring_held r) xs" "ring_good (ring_push r xs k) (n + k)"
proof -
  let ?r = "ring_push r xs k" and ?h = "unat (rg_head r)" and ?t = "unat (rg_tail r)"
  let ?t' = "max ?t (?h + k - 50)"
  note f = push_fields [OF g k n]
  have b: "length (rg_buf r) = 96000" "?t \<le> ?h" "?h \<le> ?t + 50" "?h \<le> n" using g by (auto simp: ring_good_def)
  have lb: "length (rg_buf ?r) = 96000" using b k f(3) by simp
  show "ring_good ?r (n + k)" using f b lb k by (auto simp: ring_good_def)
  have new: "rg_buf ?r ! ((?h * 1920 + d) mod 96000) = xs ! d" if "d < length xs" for d
    using copy_in_new [OF b(1) _ that, of "?h * 1920"] k f(3) by simp
  have old: "rg_buf ?r ! (i mod 96000) = rg_buf r ! (i mod 96000)" if i: "?h * 1920 + length xs \<le> i + 96000" "i < ?h * 1920" for i
  proof -
    define d where "d = i + 96000 - ?h * 1920"
    have d: "i + 96000 = ?h * 1920 + d" "length xs \<le> d" "d < 96000" using i unfolding d_def by linarith+
    have "i mod 96000 = (?h * 1920 + d) mod 96000" using d(1) by (metis mod_add_self2)
    then show ?thesis using copy_in_old [OF b(1) d(2,3), of "?h * 1920"] f(3) by simp
  qed
  define e where "e = ?t' - ?t"
  have t': "unat (rg_tail ?r) = ?t + e" using f(2) by (simp add: e_def)
  have lh: "length (ring_held r) = (?h - ?t) * 1920" using length_ring_held [OF g] .
  have drops: "length (ring_held r @ xs) - 96000 = e * 1920" using lh k(1) b(2,3) k(2) by (auto simp: e_def max_def)
  have len: "length (ring_held ?r) = length (dq_put 96000 (ring_held r) xs)"
    using drops lh k b f(1) t' by (simp add: ring_held_def dq_put_def diff_mult_distrib add_mult_distrib)
  show "ring_held ?r = dq_put 96000 (ring_held r) xs"
  proof (rule nth_equalityI [OF len])
    fix i assume i: "i < length (ring_held ?r)"
    have i': "?t * 1920 + e * 1920 + i < ?h * 1920 + k * 1920" using i f(1) t' by (simp add: ring_held_def add_mult_distrib)
    have 1: "ring_held ?r ! i = rg_buf ?r ! ((?t * 1920 + e * 1920 + i) mod 96000)"
      using i t' by (simp add: ring_held_def add_mult_distrib)
    have 2: "dq_put 96000 (ring_held r) xs ! i = (ring_held r @ xs) ! (e * 1920 + i)"
    proof -
      have "e * 1920 \<le> length (ring_held r @ xs)" using drops by linarith
      then show ?thesis unfolding dq_put_def drops by (rule nth_drop)
    qed
    show "ring_held ?r ! i = dq_put 96000 (ring_held r) xs ! i"
    proof (cases "?t * 1920 + e * 1920 + i < ?h * 1920")
      case True
      have "?h * 1920 + length xs \<le> ?t * 1920 + e * 1920 + i + 96000" using k(1) by (auto simp: e_def max_def)
      note o = old [OF this True]
      have l: "e * 1920 + i < (?h - ?t) * 1920" using True by (simp add: diff_mult_distrib)
      have "(ring_held r @ xs) ! (e * 1920 + i) = rg_buf r ! ((?t * 1920 + e * 1920 + i) mod 96000)"
        using l lh by (simp add: nth_append ring_held_def add.assoc)
      then show ?thesis unfolding 1 2 using o by simp
    next
      case False
      define d where "d = ?t * 1920 + e * 1920 + i - ?h * 1920"
      have d: "?t * 1920 + e * 1920 + i = ?h * 1920 + d" "d < length xs" using False i' k(1) unfolding d_def by linarith+
      have th: "?t * 1920 \<le> ?h * 1920" using b(2) by simp
      have lt: "length (ring_held r) = ?h * 1920 - ?t * 1920" using lh by (simp add: diff_mult_distrib)
      have "\<not> e * 1920 + i < ?h * 1920 - ?t * 1920" "e * 1920 + i - (?h * 1920 - ?t * 1920) = d" using d(1) th by linarith+
      then have "(ring_held r @ xs) ! (e * 1920 + i) = xs ! d" unfolding nth_append lt by simp
      then show ?thesis unfolding 1 2 d(1) using new [OF d(2)] by simp
    qed
  qed
qed

lemma put_law:
  assumes g: "ring_good r n" and k: "length xs = k * 1920" and n: "n + k < 2 ^ 32"
  shows "ring_held (ring_put r xs) = dq_put 96000 (ring_held r) xs \<and> ring_good (ring_put r xs) (n + k)"
proof (cases "k \<le> 50")
  case True
  then show ?thesis using push_held [OF g k True n] k by (simp add: ring_put_def)
next
  case False
  let ?xs = "drop ((k - 50) * 1920) xs"
  have e: "ring_put r xs = ring_push r ?xs 50" using False k by (simp add: ring_put_def ring_push_def)
  have l: "length ?xs = 50 * 1920" using False k by (simp add: diff_mult_distrib)
  have d: "dq_put 96000 q xs = dq_put 96000 q ?xs" for q using False k l
    by (simp add: dq_put_def diff_mult_distrib add_mult_distrib)
  have "n + 50 < 2 ^ 32" using False n by linarith
  from push_held [OF g l _ this] show ?thesis unfolding e d using False by (auto simp: ring_good_def)
qed

lemma pop_law:
  assumes g: "ring_good r n"
  shows "fst (ring_get r k) = take (k * 1920) (ring_held r)" "ring_held (snd (ring_get r k)) = drop (k * 1920) (ring_held r)"
    "ring_good (snd (ring_get r k)) n"
proof -
  let ?h = "unat (rg_head r)" and ?t = "unat (rg_tail r)"
  have b: "length (rg_buf r) = 96000" "?t \<le> ?h" "?h \<le> ?t + 50" using g by (auto simp: ring_good_def)
  define m where "m = min (?h - ?t) k"
  have m: "m \<le> ?h - ?t" "m \<le> 50" using b by (auto simp: m_def)
  have p: "ring_pop r k = (m, ring_copy_out ((?t * 1920) mod 96000) (m * 1920) (rg_buf r), r \<lparr>rg_tail := rg_tail r + of_nat m\<rparr>)"
    using ring_used [OF g] b by (simp add: ring_pop_def m_def frame_offset Let_def)
  have "?h < 2 ^ 32" by (rule order_less_le_trans [OF unsigned_less]) simp
  then have "?t + m < 2 ^ 32" using m b(2) by linarith
  from unat_add_small [OF this] have t: "unat (rg_tail (snd (ring_get r k))) = ?t + m" by (simp add: ring_get_def p)
  show "ring_good (snd (ring_get r k)) n" using g t m b by (auto simp: ring_good_def ring_get_def p)
  have lh: "length (ring_held r) = (?h - ?t) * 1920" using length_ring_held [OF g] .
  have km: "take (k * 1920) (ring_held r) = take (m * 1920) (ring_held r)" "drop (k * 1920) (ring_held r) = drop (m * 1920) (ring_held r)"
    using lh by (auto simp: m_def min_def)
  show "ring_held (snd (ring_get r k)) = drop (k * 1920) (ring_held r)"
    unfolding km using t by (simp add: ring_held_def ring_get_def p drop_map add_mult_distrib)
  let ?o = "(?t * 1920) mod 96000"
  have out: "length (ring_copy_out ?o (m * 1920) (rg_buf r)) = m * 1920"
    using b(1) m(2) by (auto simp: ring_copy_out_def Let_def)
  have nth: "ring_copy_out ?o (m * 1920) (rg_buf r) ! i = rg_buf r ! ((?t * 1920 + i) mod 96000)" if "i < m * 1920" for i
  proof (cases "?o + i < 96000")
    case True
    then show ?thesis using that b(1) m(2) mod_forward [OF True] by (auto simp: ring_copy_out_def nth_append Let_def)
  next
    case False
    have "(?t * 1920 + i) mod 96000 = ?o + i - 96000" using False that m(2) by (intro mod_around) auto
    moreover have "i + ?o - 96000 < m * 1920 + ?o - 96000" using False that by linarith
    ultimately show ?thesis using False that b(1) m(2) by (auto simp: ring_copy_out_def nth_append Let_def add.commute [of _ i])
  qed
  show "fst (ring_get r k) = take (k * 1920) (ring_held r)"
    unfolding km by (rule nth_equalityI) (use out nth lh m(1) in \<open>auto simp: ring_get_def p ring_held_def\<close>)
qed

interpretation audio_ring: lossy_fifo ring_good ring_held ring_put ring_get 1920 96000 "2 ^ 32"
  by unfold_locales (use put_law pop_law in auto)

lemma reset_good: "length (rg_buf r) = 96000 \<Longrightarrow> ring_good (ring_reset r) 0" "ring_held (ring_reset r) = []"
  by (simp_all add: ring_good_def ring_reset_def ring_held_def)

text \<open>For any sequence of pushes of whole frames and pops, starting from a reset ring and as long as the
  32-bit cursors do not wrap, the popped bytes are those of a queue of 96000 bytes (50 frames) that drops its oldest
  bytes when a push does not fit: in order, unmixed, the newest kept.\<close>

theorem audio_ring_refines:
  assumes "length (rg_buf r) = 96000" "\<forall>xs \<in> set (puts ops). 1920 dvd length xs"
    "sum_list (map (\<lambda>xs. length xs div 1920) (puts ops)) < 2 ^ 32"
  shows "fifo_run ring_put ring_get (ring_reset r) ops = fifo_run (dq_put 96000) (dq_get 1920) [] ops"
  using audio_ring.run_refines [OF reset_good(1) [OF assms(1)] assms(2)] assms(3) by (simp add: reset_good(2))

theorem audio_ring_refines_witness:
  "fifo_run ring_put ring_get (ring_reset \<lparr>rg_buf = replicate 96000 0, rg_head = 7, rg_tail = 3\<rparr>)
     [Put (replicate 1920 1), Get 1, Get 1] = replicate 1920 1"
  by (subst audio_ring_refines) (simp_all add: dq_put_def dq_get_def)

end
