(* ===== verification/Video.thy ===== *)
theory Video
  imports AudioRing
begin

text \<open>
  The camera layer of \<^verbatim>\<open>src/src/video_v4l2.c\<close>: the choice of a capture format, the conversion of a captured YUYV
  frame to planar YUV420, and the slot that holds the latest frame.  What the driver answers is a parameter.
\<close>

record TTVideo =
  vd_ready :: bool
  vd_w :: nat
  vd_h :: nat
  vd_stride :: nat
  vd_frame_bytes :: nat
  vd_yuv :: bytes
  vd_seq :: nat

text \<open>
  \<open>fmt (w, h)\<close> is the width, height and row size the driver settles on when asked for \<open>w\<close> by \<open>h\<close> YUYV, \<^const>\<open>None\<close> when
  it refuses or picks another pixel format.
\<close>

definition set_format :: "(nat \<times> nat \<Rightarrow> (nat \<times> nat \<times> nat) option) \<Rightarrow> (nat \<times> nat \<times> nat) option" where
  "set_format fmt =
     (case List.map_filter fmt [(1280, 720), (640, 480), (320, 240)] of
        [] \<Rightarrow> None
      | (w, h, bpl) # _ \<Rightarrow> Some (w mod 65536, h mod 65536, if bpl \<ge> w * 2 then bpl else w * 2))"

text \<open>The bytes a conversion stores, in order, and their effect on the destination.\<close>

definition poke :: "bytes \<Rightarrow> (nat \<times> byte) list \<Rightarrow> bytes" where
  "poke dst ws = foldl (\<lambda>d (i, b). d[i := b]) dst ws"

definition convert_row_yuyv :: "bytes \<Rightarrow> nat \<Rightarrow> nat \<Rightarrow> (nat \<times> nat) option \<Rightarrow> nat \<Rightarrow> (nat \<times> byte) list" where
  "convert_row_yuyv src w dy chroma uw =
     concat (map (\<lambda>k. let x = 2 * k in
         [(dy + x, src ! (2 * x)), (dy + x + 1, src ! (2 * x + 2))] @
         (case chroma of
            Some (du, dv) \<Rightarrow> if x div 2 < uw then [(du + x div 2, src ! (2 * x + 1)), (dv + x div 2, src ! (2 * x + 3))] else []
          | None \<Rightarrow> []))
       [0..<(w + 1) div 2])"

definition yuyv_to_yuv420 :: "TTVideo \<Rightarrow> bytes \<Rightarrow> bytes \<Rightarrow> bytes" where
  "yuyv_to_yuv420 v src dst =
     (let w = vd_w v; h = vd_h v; du = w * h; dv = du + (w div 2) * (h div 2); uw = w div 2
      in poke dst (concat (map (\<lambda>y. convert_row_yuyv (drop (y * vd_stride v) src) w (y * w)
           (if y mod 2 = 0 then Some (du + y div 2 * uw, dv + y div 2 * uw) else None) uw) [0..<h])))"

definition frame_publish :: "TTVideo \<Rightarrow> bytes \<Rightarrow> TTVideo" where
  "frame_publish v yuv = v \<lparr>vd_yuv := take (vd_frame_bytes v) yuv, vd_seq := (vd_seq v + 1) mod 2 ^ 64, vd_ready := True\<rparr>"

text \<open>One captured buffer: too short a buffer is skipped.  \<open>back\<close> is the scratch buffer.\<close>

definition video_worker :: "TTVideo \<Rightarrow> bytes \<Rightarrow> bytes \<Rightarrow> TTVideo" where
  "video_worker v back buf = (if length buf \<ge> vd_stride v * vd_h v then frame_publish v (yuyv_to_yuv420 v buf back) else v)"

definition video_open :: "nat \<times> nat \<times> nat \<Rightarrow> TTVideo" where
  "video_open f = (case f of (w, h, stride) \<Rightarrow>
     \<lparr>vd_ready = False, vd_w = w, vd_h = h, vd_stride = stride, vd_frame_bytes = w * h * 3 div 2, vd_yuv = [], vd_seq = 0\<rparr>)"

definition tt_video_fetch_local :: "TTVideo option \<Rightarrow> nat \<Rightarrow> (bytes \<times> nat \<times> nat \<times> nat) option" where
  "tt_video_fetch_local vd cap =
     (case vd of
        None \<Rightarrow> None
      | Some v \<Rightarrow> if cap < vd_frame_bytes v then None else if vd_ready v then Some (vd_yuv v, vd_w v, vd_h v, vd_seq v) else None)"

section \<open>The conversion\<close>

text \<open>Planar YUV420 of a YUYV picture, plane by plane; chroma comes from the even rows.\<close>

definition yuv420_of :: "nat \<Rightarrow> nat \<Rightarrow> nat \<Rightarrow> bytes \<Rightarrow> bytes" where
  "yuv420_of w h stride src =
     map (\<lambda>i. src ! (i div w * stride + 2 * (i mod w))) [0..<w * h] @
     map (\<lambda>i. src ! (2 * (i div (w div 2)) * stride + 4 * (i mod (w div 2)) + 1)) [0..<w div 2 * (h div 2)] @
     map (\<lambda>i. src ! (2 * (i div (w div 2)) * stride + 4 * (i mod (w div 2)) + 3)) [0..<w div 2 * (h div 2)]"

lemma length_poke [simp]: "length (poke dst ws) = length dst"
  unfolding poke_def by (induction ws arbitrary: dst) auto

lemma poke_nth_other: "i \<notin> fst ` set ws \<Longrightarrow> poke dst ws ! i = dst ! i"
  unfolding poke_def by (induction ws arbitrary: dst) auto

text \<open>When all writes agree with a target, what they touch is the target.\<close>

lemma poke_nth:
  assumes "\<And>i b. (i, b) \<in> set ws \<Longrightarrow> b = ref ! i" "i \<in> fst ` set ws" "i < length dst"
  shows "poke dst ws ! i = ref ! i"
  using assms
proof (induction ws arbitrary: dst)
  case (Cons x ws)
  obtain j b where x: "x = (j, b)" by (metis prod.exhaust)
  have e: "poke dst (x # ws) = poke (dst[j := b]) ws" by (simp add: poke_def x)
  show ?case
  proof (cases "i \<in> fst ` set ws")
    case True
    then show ?thesis unfolding e using Cons.IH [of "dst[j := b]"] Cons.prems by auto
  next
    case False
    then have "i = j" using Cons.prems(2) x by auto
    moreover have "b = ref ! j" using Cons.prems(1) x by simp
    ultimately show ?thesis unfolding e poke_nth_other [OF False] using Cons.prems(3) by simp
  qed
qed simp

lemma poke_covers:
  assumes "\<And>i b. (i, b) \<in> set ws \<Longrightarrow> b = ref ! i" "length dst = length ref" "\<And>i. i < length ref \<Longrightarrow> i \<in> fst ` set ws"
  shows "poke dst ws = ref"
  by (rule nth_equalityI) (use poke_nth [OF assms(1)] assms(2,3) in auto)

lemma grid_index:
  assumes "(y :: nat) < h" "x < w"
  shows "y * w + x < w * h" "(y * w + x) div w = y" "(y * w + x) mod w = x"
proof -
  have "y * w + x < Suc y * w" using assms by simp
  also have "\<dots> \<le> h * w" using assms by (intro mult_right_mono) auto
  finally show "y * w + x < w * h" by (simp add: mult.commute)
  show "(y * w + x) div w = y" "(y * w + x) mod w = x" using assms by auto
qed

lemma grid_cover:
  assumes "(i :: nat) < w * h"
  obtains y x where "i = y * w + x" "y < h" "x < w"
proof (rule that [of "i div w" "i mod w"])
  show "i = i div w * w + i mod w" by simp
  show "i mod w < w" using assms by (cases "w = 0") auto
  show "i div w < h" using assms by (simp add: less_mult_imp_div_less mult.commute)
qed

lemma yuv420_planes:
  assumes "c < n" "k < m"
  shows "y < 2 * n \<Longrightarrow> x < 2 * m \<Longrightarrow> yuv420_of (2 * m) (2 * n) st src ! (y * (2 * m) + x) = src ! (y * st + 2 * x)"
    "yuv420_of (2 * m) (2 * n) st src ! (2 * m * (2 * n) + (c * m + k)) = src ! (2 * c * st + 4 * k + 1)"
    "yuv420_of (2 * m) (2 * n) st src ! (2 * m * (2 * n) + m * n + (c * m + k)) = src ! (2 * c * st + 4 * k + 3)"
  using grid_index [of y "2 * n" x "2 * m"] grid_index [OF assms] by (simp_all add: yuv420_of_def nth_append)

lemma row_writes:
  assumes "(i, b) \<in> set (convert_row_yuyv (drop o' src) (2 * m) dy ch m)" "o' \<le> length src"
  obtains k where "k < m" "(i = dy + 2 * k \<and> b = src ! (o' + 2 * (2 * k))) \<or> (i = dy + (2 * k + 1) \<and> b = src ! (o' + 2 * (2 * k + 1)))"
  | k du dv where "k < m" "ch = Some (du, dv)" "(i = du + k \<and> b = src ! (o' + 4 * k + 1)) \<or> (i = dv + k \<and> b = src ! (o' + 4 * k + 3))"
  using assms by (auto simp: convert_row_yuyv_def Let_def add.assoc split: option.splits if_splits)

lemma row_covers:
  assumes "k < m"
  shows "dy + 2 * k \<in> fst ` set (convert_row_yuyv src (2 * m) dy ch m)"
    "dy + (2 * k + 1) \<in> fst ` set (convert_row_yuyv src (2 * m) dy ch m)"
    "du + k \<in> fst ` set (convert_row_yuyv src (2 * m) dy (Some (du, dv)) m)"
    "dv + k \<in> fst ` set (convert_row_yuyv src (2 * m) dy (Some (du, dv)) m)"
  using assms by (force simp: convert_row_yuyv_def Let_def image_iff split: option.splits)+

text \<open>For a picture of even width and height whose rows lie within the captured buffer, the conversion loop leaves
  exactly the planar YUV420 picture: every luma byte in the first plane, and in the second and third the
  chroma bytes of the even rows.\<close>

theorem yuyv_converted:
  assumes "vd_w v = 2 * m" "vd_h v = 2 * n" "0 < m" "0 < n" "vd_stride v * vd_h v \<le> length src" "length dst = vd_w v * vd_h v * 3 div 2"
  shows "yuyv_to_yuv420 v src dst = yuv420_of (vd_w v) (vd_h v) (vd_stride v) src"
proof -
  let ?w = "2 * m" and ?h = "2 * n" and ?st = "vd_stride v" and ?N = "2 * m * (2 * n)"
  let ?ref = "yuv420_of ?w ?h ?st src"
  let ?row = "\<lambda>y. convert_row_yuyv (drop (y * ?st) src) ?w (y * ?w) (if y mod 2 = 0 then Some (?N + y div 2 * m, ?N + m * n + y div 2 * m) else None) m"
  let ?ws = "concat (map ?row [0..<?h])"
  have half: "2 * m div 2 = m" "2 * n div 2 = n" by simp_all
  have e: "yuyv_to_yuv420 v src dst = poke dst ?ws" by (simp only: yuyv_to_yuv420_def Let_def assms(1,2) half)
  have "poke dst ?ws = ?ref"
  proof (rule poke_covers)
    fix i b assume "(i, b) \<in> set ?ws"
    then obtain y where y: "y < ?h" "(i, b) \<in> set (?row y)" by auto
    have o: "y * ?st \<le> length src" using y(1) assms(2,5) by (metis le_trans less_imp_le_nat mult.commute mult_le_mono1)
    show "b = ?ref ! i"
    proof (rule row_writes [OF y(2) o])
      fix k assume k: "k < m" "(i = y * ?w + 2 * k \<and> b = src ! (y * ?st + 2 * (2 * k))) \<or> (i = y * ?w + (2 * k + 1) \<and> b = src ! (y * ?st + 2 * (2 * k + 1)))"
      note p = yuv420_planes(1) [OF assms(4,3) y(1), of _ ?st src]
      have "2 * k < ?w" "2 * k + 1 < ?w" using k(1) by auto
      from p [OF this(1)] p [OF this(2)] show ?thesis using k(2) by metis
    next
      fix k du dv
      assume k: "k < m" "(if y mod 2 = 0 then Some (?N + y div 2 * m, ?N + m * n + y div 2 * m) else None) = Some (du, dv)"
        "(i = du + k \<and> b = src ! (y * ?st + 4 * k + 1)) \<or> (i = dv + k \<and> b = src ! (y * ?st + 4 * k + 3))"
      then have c: "y = 2 * (y div 2)" "y div 2 < n" "du = ?N + y div 2 * m" "dv = ?N + m * n + y div 2 * m" using y(1) by (auto split: if_splits)
      show ?thesis using k(3) yuv420_planes(2,3) [OF c(2) k(1), of ?st src] c by (metis add.assoc)
    qed
  next
    show "length dst = length ?ref" using assms(1,2,6) by (simp add: yuv420_of_def)
    fix i assume i: "i < length ?ref"
    have row: "i \<in> fst ` set ?ws" if "y < ?h" "i \<in> fst ` set (?row y)" for y using that by force
    consider "i < ?N" | "i < ?N + m * n" "\<not> i < ?N" | "\<not> i < ?N + m * n" "i < ?N + m * n + m * n" using i by (force simp: yuv420_of_def)
    then show "i \<in> fst ` set ?ws"
    proof cases
      case 1
      then obtain y x where yx: "i = y * ?w + x" "y < ?h" "x < ?w" by (rule grid_cover)
      have k: "x div 2 < m" using yx(3) by auto
      have "x = 2 * (x div 2) \<or> x = 2 * (x div 2) + 1" by presburger
      then have "i = y * ?w + 2 * (x div 2) \<or> i = y * ?w + (2 * (x div 2) + 1)" unfolding yx(1) by simp
      then show ?thesis by (elim disjE) (rule row [OF yx(2)], erule ssubst, rule row_covers [OF k])+
    next
      case 2
      then have "i - ?N < m * n" by linarith
      then obtain c k where ck: "i - ?N = c * m + k" "c < n" "k < m" by (rule grid_cover)
      have "i = ?N + c * m + k" "2 * c < ?h" using 2 ck by linarith+
      then show ?thesis using row [of "2 * c"] row_covers(3) [OF ck(3)] by simp
    next
      case 3
      then have "i - (?N + m * n) < m * n" by linarith
      then obtain c k where ck: "i - (?N + m * n) = c * m + k" "c < n" "k < m" by (rule grid_cover)
      have "i = ?N + m * n + c * m + k" "2 * c < ?h" using 3 ck by linarith+
      then show ?thesis using row [of "2 * c"] row_covers(4) [OF ck(3)] by simp
    qed
  qed
  then show ?thesis using e assms(1,2) by simp
qed

theorem yuyv_converted_witness:
  "yuyv_to_yuv420 (video_open (2, 2, 4)) [1, 2, 3, 4, 5, 6, 7, 8] [0, 0, 0, 0, 0, 0] = [1, 3, 5, 7, 2, 4]"
  using yuyv_converted [of "video_open (2, 2, 4)" 1 1 "[1, 2, 3, 4, 5, 6, 7, 8]" "[0, 0, 0, 0, 0, 0]"]
  by (simp add: video_open_def yuv420_of_def upt_rec)

end
