(* ===== verification/Call.thy ===== *)
theory Call
  imports Video "HOL-Library.Signed_Division"
begin

text \<open>
  Audio and video calls, \<^verbatim>\<open>src/src/av.c\<close>: the one call slot of the engine, the callbacks of toxav, the commands of
  the user interface and the turn of the main loop that moves captured audio and video to the wire.

  The record \<open>avstate\<close> holds whether toxav runs, the call slot, the events for the user interface and the log of
  what was handed to toxav.  \<open>avenv\<close> is the world of one turn: whether the toxav call of this turn succeeds, the
  time, whether the microphone opens, what the camera driver answers and whether its stream starts.
\<close>

abbreviation (input) "TT_AV_AUDIO_BITRATE \<equiv> (32 :: int)"
abbreviation (input) "TT_AV_VIDEO_BITRATE \<equiv> (2500 :: int)"
abbreviation (input) "TT_AV_VTEST_SIZE \<equiv> (160 :: nat)"
abbreviation (input) "TT_AV_VTEST_COUNT \<equiv> (150 :: nat)"
abbreviation (input) "NO_FRIEND \<equiv> (4294967295 :: nat)"
abbreviation (input) "TT_AUDIO_RX_MAX_SAMPLES \<equiv> (48000 :: nat)"
abbreviation (input) "CALL_ERROR \<equiv> (1 :: u32)"
abbreviation (input) "CALL_FINISHED \<equiv> (2 :: u32)"
abbreviation (input) "SENDING_A \<equiv> (4 :: u32)"
abbreviation (input) "SENDING_V \<equiv> (8 :: u32)"
abbreviation (input) "ACCEPTING_A \<equiv> (16 :: u32)"
abbreviation (input) "ACCEPTING_V \<equiv> (32 :: u32)"

unbundle bit_operations_syntax

datatype call_control = CONTROL_RESUME | CONTROL_PAUSE | CONTROL_CANCEL

datatype av_out =
    AvCall nat int int
  | AvAnswer nat int int
  | AvControl nat call_control
  | AvAudioRate nat int
  | AvVideoRate nat int
  | AvAudio nat bytes
  | AvVideo nat nat nat bytes bytes bytes

record TTAvg =
  g_mic_muted :: bool
  g_deaf :: bool
  g_selfview_on :: bool
  g_started :: int
  g_state :: u32
  g_paused_state :: u32
  g_call_fn :: nat
  g_audio :: "TTAudio option"
  g_video :: "TTVideo option"
  g_vtest_on :: bool
  g_vtest_sent :: nat
  g_vtest_at :: int
  g_vtest_fn :: nat
  g_video_last_seq :: nat

record avstate =
  as_av :: bool
  as_avg :: "TTAvg option"
  as_events :: "TTEvent list"
  as_out :: "av_out list"

record avenv =
  x_ok :: bool
  x_now :: int
  x_mic :: bool
  x_format :: "nat \<times> nat \<Rightarrow> (nat \<times> nat \<times> nat) option"
  x_cam :: bool

definition av_log :: "av_out \<Rightarrow> avstate \<Rightarrow> avstate" where
  "av_log x st = st \<lparr>as_out := as_out st @ [x]\<rparr>"

definition av_with :: "(TTAvg \<Rightarrow> TTAvg) \<Rightarrow> avstate \<Rightarrow> avstate" where
  "av_with f st = st \<lparr>as_avg := map_option f (as_avg st)\<rparr>"

definition has :: "u32 \<Rightarrow> u32 \<Rightarrow> bool" where
  "has s bits \<longleftrightarrow> s AND bits \<noteq> 0"

section \<open>Devices\<close>

definition tt_audio_start :: "avenv \<Rightarrow> TTAvg \<Rightarrow> TTAvg" where
  "tt_audio_start X g = (if g_audio g \<noteq> None then g else if x_mic X then g \<lparr>g_audio := Some audio_zero\<rparr> else g)"

definition tt_audio_stop :: "TTAvg \<Rightarrow> TTAvg" where
  "tt_audio_stop g = g \<lparr>g_audio := None\<rparr>"

definition tt_video_start :: "avenv \<Rightarrow> TTAvg \<Rightarrow> TTAvg" where
  "tt_video_start X g =
     (if g_video g \<noteq> None then g
      else case set_format (x_format X) of
        None \<Rightarrow> g
      | Some f \<Rightarrow> if x_cam X then g \<lparr>g_video := Some (video_open f)\<rparr> else g)"

definition tt_video_stop :: "TTAvg \<Rightarrow> TTAvg" where
  "tt_video_stop g = g \<lparr>g_video := None\<rparr>"

definition audio_lifecycle :: "avenv \<Rightarrow> bool \<Rightarrow> TTAvg \<Rightarrow> TTAvg" where
  "audio_lifecycle X up g =
     (if up \<and> g_audio g = None then tt_audio_start X g else if \<not> up \<and> g_audio g \<noteq> None then tt_audio_stop g else g)"

definition video_lifecycle :: "avenv \<Rightarrow> bool \<Rightarrow> TTAvg \<Rightarrow> TTAvg" where
  "video_lifecycle X up g =
     (if up \<and> g_video g = None then tt_video_start X g else if \<not> up \<and> g_video g \<noteq> None then tt_video_stop g else g)"

section \<open>Events\<close>

definition push_av :: "TTEventType \<Rightarrow> nat \<Rightarrow> int \<Rightarrow> int \<Rightarrow> avstate \<Rightarrow> avstate" where
  "push_av ty fn i i2 st = st \<lparr>as_events := as_events st @ [(tt_event_new ty) \<lparr>ev_fn := fn, ev_ival := i, ev_ival2 := i2\<rparr>]\<rparr>"

definition push_av_local_state :: "nat \<Rightarrow> u32 \<Rightarrow> avstate \<Rightarrow> avstate" where
  "push_av_local_state fn s st = push_av TT_EV_AV_STATE fn (sint s) 1 (av_with (\<lambda>g. g \<lparr>g_state := s\<rparr>) st)"

definition call_down :: "avenv \<Rightarrow> TTAvg \<Rightarrow> TTAvg" where
  "call_down X g =
     video_lifecycle X False (audio_lifecycle X False
       (g \<lparr>g_started := 0, g_call_fn := NO_FRIEND, g_vtest_on := False, g_selfview_on := False\<rparr>))"

definition call_time :: "avenv \<Rightarrow> TTAvg option \<Rightarrow> int" where
  "call_time X g = (case g of None \<Rightarrow> 0 | Some g \<Rightarrow> if g_started g \<noteq> 0 then x_now X - g_started g else 0)"

definition push_av_local_ended :: "avenv \<Rightarrow> nat \<Rightarrow> int \<Rightarrow> avstate \<Rightarrow> avstate" where
  "push_av_local_ended X fn err st =
     push_av TT_EV_AV_ENDED fn err (call_time X (as_avg st)) (av_with (\<lambda>g. call_down X (g \<lparr>g_state := 0\<rparr>)) st)"

section \<open>Callbacks\<close>

definition new_call :: "nat \<Rightarrow> TTAvg \<Rightarrow> TTAvg" where
  "new_call fn g = g \<lparr>g_started := 0, g_state := 0, g_call_fn := fn, g_mic_muted := False, g_deaf := False, g_selfview_on := False\<rparr>"

definition cb_av_call :: "nat \<Rightarrow> bool \<Rightarrow> bool \<Rightarrow> avstate \<Rightarrow> avstate" where
  "cb_av_call fn audio video st =
     push_av TT_EV_AV_INCOMING fn (if audio then 1 else 0) (if video then 1 else 0) (av_with (new_call fn) st)"

definition cb_av_call_state :: "avenv \<Rightarrow> nat \<Rightarrow> u32 \<Rightarrow> avstate \<Rightarrow> avstate" where
  "cb_av_call_state X fn s st =
     push_av TT_EV_AV_STATE fn (sint s) 0
       (case as_avg st of
          None \<Rightarrow> st
        | Some g \<Rightarrow>
            let g1 = (if has s SENDING_A \<and> g_started g = 0 then g \<lparr>g_started := x_now X\<rparr> else g) \<lparr>g_state := s\<rparr>;
                over = has s (CALL_FINISHED OR CALL_ERROR);
                st1 = (if over then push_av TT_EV_AV_ENDED fn (if has s CALL_ERROR then 1 else 0) (call_time X (Some g1)) st else st);
                g2 = (if over then call_down X g1
                      else if has s (SENDING_A OR ACCEPTING_A) then audio_lifecycle X True g1 else g1);
                g3 = (if has s SENDING_V \<and> g_call_fn g2 = fn then video_lifecycle X True g2 else g2)
            in st1 \<lparr>as_avg := Some g3\<rparr>)"

text \<open>Sixteen-bit samples are integers, bytes in memory are little endian.\<close>

definition s16 :: "int \<Rightarrow> int" where
  "s16 x = sint (word_of_int x :: u16)"

definition s16_bytes :: "int list \<Rightarrow> bytes" where
  "s16_bytes xs = concat (map (\<lambda>x. let w = (word_of_int x :: u16) in [ucast w, ucast (drop_bit 8 w)]) xs)"

definition mono_of :: "int list \<Rightarrow> nat \<Rightarrow> nat \<Rightarrow> int list" where
  "mono_of pcm sample_count channels =
     map (\<lambda>i. s16 (sum_list (map (\<lambda>c. pcm ! (i * channels + c)) [0..<channels]) sdiv int channels))
       [0..<min (sample_count div channels) TT_AUDIO_RX_MAX_SAMPLES]"

definition resample_at :: "int list \<Rightarrow> nat \<Rightarrow> nat \<Rightarrow> int" where
  "resample_at smp rate i =
     (let num = i * rate; p = num div 48000; fr = num mod 48000; a = smp ! p;
          b = (if p + 1 < length smp then smp ! (p + 1) else a)
      in s16 (a + ((b - a) * int fr) sdiv 48000))"

definition resample :: "int list \<Rightarrow> nat \<Rightarrow> int list" where
  "resample smp rate =
     (if rate = 48000 then smp
      else map (resample_at smp rate) [0..<min (length smp * 48000 div rate) TT_AUDIO_RX_MAX_SAMPLES])"

definition audio_rx_convert :: "TTAvg \<Rightarrow> int list \<Rightarrow> nat \<Rightarrow> nat \<Rightarrow> nat \<Rightarrow> TTAvg" where
  "audio_rx_convert g pcm sample_count channels rate =
     (if rate = 0 \<or> channels = 0 then g
      else
        let out = resample (mono_of pcm sample_count channels) rate in
        foldl (\<lambda>g f. g \<lparr>g_audio := tt_audio_playback_push (g_audio g) (s16_bytes (drop (f * TT_AUDIO_FRAME_FRAMES) out)) 1\<rparr>) g
          [0..<length out div TT_AUDIO_FRAME_FRAMES])"

definition cb_av_audio_rx :: "int list \<Rightarrow> nat \<Rightarrow> nat \<Rightarrow> nat \<Rightarrow> avstate \<Rightarrow> avstate" where
  "cb_av_audio_rx pcm sample_count channels rate st =
     av_with (\<lambda>g.
       if g_audio g = None \<or> g_deaf g then g
       else if channels = 1 \<and> rate = 48000
       then g \<lparr>g_audio := tt_audio_playback_push (g_audio g) (s16_bytes pcm) (sample_count div TT_AUDIO_FRAME_FRAMES)\<rparr>
       else audio_rx_convert g pcm sample_count channels rate) st"

text \<open>
  The copies of a received picture: destination offset, plane, source offset, length.  \<open>junk\<close> is what the
  allocated payload holds before them.
\<close>

datatype plane = PlaneY | PlaneU | PlaneV

definition rx_copies :: "nat \<Rightarrow> nat \<Rightarrow> nat \<Rightarrow> nat \<Rightarrow> nat \<Rightarrow> (nat \<times> plane \<times> nat \<times> nat) list" where
  "rx_copies w h ys us vs =
     map (\<lambda>j. (j * ys, PlaneY, j * ys, w)) [0..<h] @
     concat (map (\<lambda>j. [(ys * h + j * us, PlaneU, j * us, (w + 1) div 2),
                       (ys * h + us * ((h + 1) div 2) + j * vs, PlaneV, j * vs, (w + 1) div 2)]) [0..<(h + 1) div 2])"

definition rx_payload :: "nat \<Rightarrow> nat \<Rightarrow> nat \<Rightarrow> nat \<Rightarrow> nat" where
  "rx_payload h ys us vs = ys * h + us * ((h + 1) div 2) + vs * ((h + 1) div 2)"

definition rx_accepts :: "nat \<Rightarrow> nat \<Rightarrow> int \<Rightarrow> int \<Rightarrow> int \<Rightarrow> bool" where
  "rx_accepts w h ystride ustride vstride \<longleftrightarrow>
     w \<noteq> 0 \<and> h \<noteq> 0 \<and> 0 \<le> ystride \<and> 0 \<le> ustride \<and> 0 \<le> vstride \<and>
     w \<le> nat ystride \<and> (w + 1) div 2 \<le> nat ustride \<and> (w + 1) div 2 \<le> nat vstride \<and>
     nat ystride * h \<le> 460800 \<and> nat ustride * ((h + 1) div 2) \<le> 460800 \<and> nat vstride * ((h + 1) div 2) \<le> 460800"

definition cb_av_video_rx :: "nat \<Rightarrow> nat \<Rightarrow> nat \<Rightarrow> (plane \<Rightarrow> bytes) \<Rightarrow> int \<Rightarrow> int \<Rightarrow> int \<Rightarrow> bytes \<Rightarrow> avstate \<Rightarrow> avstate" where
  "cb_av_video_rx fn w h planes ystride ustride vstride junk st =
     (if \<not> rx_accepts w h ystride ustride vstride then st
      else
        let buf = foldl (\<lambda>b (d, p, s, n). memcpy_at d (take n (drop s (planes p))) b)
                    (take (rx_payload h (nat ystride) (nat ustride) (nat vstride)) junk)
                    (rx_copies w h (nat ystride) (nat ustride) (nat vstride))
        in st \<lparr>as_events := as_events st @ [(tt_event_new TT_EV_AV_FRAME) \<lparr>ev_fn := fn, ev_ival := int w, ev_ival2 := int h, ev_str := Some buf\<rparr>]\<rparr>)"

definition cb_av_audio_br :: "nat \<Rightarrow> nat \<Rightarrow> avstate \<Rightarrow> avstate" where
  "cb_av_audio_br fn rate st = (if rate < 6 then st else av_log (AvAudioRate fn (int rate)) st)"

definition cb_av_video_br :: "nat \<Rightarrow> nat \<Rightarrow> avstate \<Rightarrow> avstate" where
  "cb_av_video_br fn rate st = (if rate = 0 then st else av_log (AvVideoRate fn (int rate)) st)"

section \<open>Start and stop\<close>

definition avg_zero :: TTAvg where
  "avg_zero = \<lparr>g_mic_muted = False, g_deaf = False, g_selfview_on = False, g_started = 0, g_state = 0, g_paused_state = 0, g_call_fn = 0,
     g_audio = None, g_video = None, g_vtest_on = False, g_vtest_sent = 0, g_vtest_at = 0, g_vtest_fn = 0, g_video_last_seq = 0\<rparr>"

definition tt_av_init :: "avenv \<Rightarrow> avstate \<Rightarrow> bool \<times> avstate" where
  "tt_av_init X st =
     (if as_av st then (False, st)
      else if x_ok X then (True, st \<lparr>as_av := True, as_avg := Some avg_zero\<rparr>) else (False, st \<lparr>as_avg := None\<rparr>))"

definition tt_av_kill :: "avstate \<Rightarrow> avstate" where
  "tt_av_kill st = st \<lparr>as_av := False, as_avg := None\<rparr>"

section \<open>The turn of the main loop\<close>

definition send_frames :: "nat \<Rightarrow> nat \<Rightarrow> bytes \<Rightarrow> avstate \<Rightarrow> avstate" where
  "send_frames fn n pcm st =
     foldl (\<lambda>s f. av_log (AvAudio fn (take TT_AUDIO_FRAME_BYTES (drop (f * TT_AUDIO_FRAME_BYTES) pcm))) s) st [0..<n]"

lemma pop_shrinks:
  assumes "tt_audio_capture_pop (Some a) 4 = (n, pcm, Some a')" "n \<noteq> 0"
  shows "unat (rg_head (au_cap_ring a') - rg_tail (au_cap_ring a')) < unat (rg_head (au_cap_ring a) - rg_tail (au_cap_ring a))"
proof -
  let ?d = "rg_head (au_cap_ring a) - rg_tail (au_cap_ring a)"
  have n: "n \<le> unat ?d" and a': "au_cap_ring a' = (au_cap_ring a) \<lparr>rg_tail := rg_tail (au_cap_ring a) + of_nat n\<rparr>"
    using assms(1) by (auto simp: tt_audio_capture_pop_def ring_pop_def Let_def min_def split: if_splits)
  have "n < 2 ^ 32" using n by (rule le_less_trans) (rule order_less_le_trans [OF unsigned_less], simp)
  then have "unat (?d - of_nat n) = unat ?d - n" using n by (simp add: unat_sub word_le_nat_alt unsigned_of_nat take_bit_nat_eq_self)
  moreover have "rg_head (au_cap_ring a') - rg_tail (au_cap_ring a') = ?d - of_nat n" by (simp add: a')
  ultimately show ?thesis using assms(2) n by simp
qed

function audio_send_drain :: "TTAvg \<Rightarrow> TTAudio \<Rightarrow> avstate \<Rightarrow> TTAudio \<times> avstate" where
  "audio_send_drain g a st =
     (case tt_audio_capture_pop (Some a) 4 of
        (n, pcm, Some a1) \<Rightarrow> if n = 0 then (a1, st) else audio_send_drain g a1 (send_frames (g_call_fn g) n pcm st)
      | (_, _, None) \<Rightarrow> (a, st))"
  by pat_completeness auto
termination
  by (relation "measure (\<lambda>(g, a, st). unat (rg_head (au_cap_ring a) - rg_tail (au_cap_ring a)))") (auto dest: pop_shrinks [OF sym])

declare audio_send_drain.simps [simp del]

definition vtest_pattern :: "nat \<Rightarrow> nat \<Rightarrow> nat \<Rightarrow> bytes \<times> bytes \<times> bytes" where
  "vtest_pattern w h tick =
     (concat (map (\<lambda>j. map (\<lambda>i. of_nat ((i + tick * 8) div 4)) [0..<w]) [0..<h]),
      replicate (w div 2 * (h div 2)) 128, replicate (w div 2 * (h div 2)) 128)"

fun vtest_pump :: "nat \<Rightarrow> TTAvg \<Rightarrow> avstate \<Rightarrow> TTAvg \<times> avstate" where
  "vtest_pump 0 g st = (g, st)"
| "vtest_pump (Suc k) g st =
     (if g_vtest_sent g < TT_AV_VTEST_COUNT then
        (case vtest_pattern TT_AV_VTEST_SIZE 90 (g_vtest_sent g) of
           (y, u, v) \<Rightarrow> vtest_pump k (g \<lparr>g_vtest_sent := g_vtest_sent g + 1\<rparr>) (av_log (AvVideo (g_vtest_fn g) TT_AV_VTEST_SIZE 90 y u v) st))
      else (g, st))"

text \<open>The buffer of the drain has 1280 * 720 bytes.\<close>

definition video_send_drain :: "avenv \<Rightarrow> avstate \<Rightarrow> avstate" where
  "video_send_drain X st =
     (case as_avg st of
        None \<Rightarrow> st
      | Some g \<Rightarrow>
          if \<not> has (g_state g) SENDING_V \<or> g_call_fn g = NO_FRIEND then st
          else if g_vtest_on g then
            if g_vtest_at g \<noteq> 0 \<and> x_now X - g_vtest_at g < 1 then st
            else (case vtest_pump 2 (g \<lparr>g_vtest_at := x_now X\<rparr>) st of
              (g1, st1) \<Rightarrow> st1 \<lparr>as_avg := Some (if g_vtest_sent g1 \<ge> TT_AV_VTEST_COUNT then g1 \<lparr>g_vtest_on := False\<rparr> else g1)\<rparr>)
          else case tt_video_fetch_local (g_video g) (1280 * 720) of
            None \<Rightarrow> st
          | Some (yuv, w, h, seq) \<Rightarrow>
              if seq = g_video_last_seq g then st
              else av_log (AvVideo (g_call_fn g) w h (take (w * h) yuv) (take (w div 2 * (h div 2)) (drop (w * h) yuv))
                      (take (w div 2 * (h div 2)) (drop (w * h + w div 2 * (h div 2)) yuv)))
                     (st \<lparr>as_avg := Some (g \<lparr>g_video_last_seq := seq\<rparr>)\<rparr>))"

definition selfview_drain :: "avenv \<Rightarrow> avstate \<Rightarrow> avstate" where
  "selfview_drain X st =
     (case as_avg st of
        None \<Rightarrow> st
      | Some g \<Rightarrow>
          if \<not> g_selfview_on g \<or> g_video g = None \<or> x_now X = g_vtest_at g then st
          else
            let st1 = st \<lparr>as_avg := Some (g \<lparr>g_vtest_at := x_now X\<rparr>)\<rparr> in
            case tt_video_fetch_local (g_video g) (1280 * 720) of
              None \<Rightarrow> st1
            | Some (yuv, w, h, seq) \<Rightarrow>
                st1 \<lparr>as_events := as_events st1 @ [(tt_event_new TT_EV_AV_FRAME) \<lparr>ev_fn := g_call_fn g, ev_ival := int w, ev_ival2 := int h,
                        ev_str := Some (take (w * h + 2 * (w div 2 * (h div 2))) yuv)\<rparr>]\<rparr>)"

definition tt_av_iterate :: "avenv \<Rightarrow> avstate \<Rightarrow> avstate" where
  "tt_av_iterate X st =
     selfview_drain X (video_send_drain X
       (case as_avg st of
          None \<Rightarrow> st
        | Some g \<Rightarrow>
            (case g_audio g of
               None \<Rightarrow> st
             | Some a \<Rightarrow>
                 if has (g_state g) (SENDING_A OR ACCEPTING_A)
                 then (case audio_send_drain g a st of (a1, st1) \<Rightarrow> st1 \<lparr>as_avg := Some (g \<lparr>g_audio := Some a1\<rparr>)\<rparr>)
                 else st)))"

section \<open>Commands\<close>

definition audio_br_fixup :: "int \<Rightarrow> int" where
  "audio_br_fixup br = (if br > 0 \<and> (br < 6 \<or> br > 510) then TT_AV_AUDIO_BITRATE else br)"

definition video_br_fixup :: "int \<Rightarrow> int" where
  "video_br_fixup br = (if br > 0 \<and> br > 1000000 then TT_AV_VIDEO_BITRATE else br)"

definition tt_av_cmd_call :: "avenv \<Rightarrow> nat \<Rightarrow> int \<Rightarrow> int \<Rightarrow> avstate \<Rightarrow> avstate" where
  "tt_av_cmd_call X fn audio_br video_br st =
     (if \<not> as_av st then st
      else
        let st1 = av_log (AvCall fn (audio_br_fixup audio_br) (video_br_fixup video_br)) st
        in if x_ok X then av_with (new_call fn) st1 else push_av TT_EV_AV_ENDED fn 1 0 st1)"

definition tt_av_cmd_answer :: "avenv \<Rightarrow> nat \<Rightarrow> int \<Rightarrow> int \<Rightarrow> avstate \<Rightarrow> avstate" where
  "tt_av_cmd_answer X fn audio_br video_br st =
     (if \<not> as_av st then st
      else
        let st1 = av_log (AvAnswer fn (audio_br_fixup audio_br) (video_br_fixup video_br)) st;
            s = (ACCEPTING_A OR SENDING_A) OR (if video_br > 0 then ACCEPTING_V OR SENDING_V else 0)
        in if \<not> x_ok X then st1
           else av_with (\<lambda>g. let g1 = audio_lifecycle X True g in if video_br > 0 then video_lifecycle X True g1 else g1)
                  (push_av_local_state fn s st1))"

definition tt_av_cmd_hangup :: "avenv \<Rightarrow> nat \<Rightarrow> avstate \<Rightarrow> avstate" where
  "tt_av_cmd_hangup X fn st =
     (if \<not> as_av st then st
      else let st1 = av_log (AvControl fn CONTROL_CANCEL) st in if x_ok X then push_av_local_ended X fn 0 st1 else st1)"

definition tt_av_cmd_pause :: "avenv \<Rightarrow> nat \<Rightarrow> avstate \<Rightarrow> avstate" where
  "tt_av_cmd_pause X fn st =
     (if \<not> as_av st then st
      else let st1 = av_log (AvControl fn CONTROL_PAUSE) st
        in if x_ok X then push_av_local_state fn 0 (av_with (\<lambda>g. g \<lparr>g_paused_state := g_state g\<rparr>) st1) else st1)"

definition tt_av_cmd_resume :: "avenv \<Rightarrow> nat \<Rightarrow> avstate \<Rightarrow> avstate" where
  "tt_av_cmd_resume X fn st =
     (if \<not> as_av st then st
      else
        let st1 = av_log (AvControl fn CONTROL_RESUME) st;
            s = (case as_avg st of None \<Rightarrow> 0 | Some g \<Rightarrow> g_paused_state g)
        in if x_ok X
           then av_with (\<lambda>g. if has s SENDING_V \<and> g_call_fn g = fn then video_lifecycle X True g else g)
                  (push_av_local_state fn s (av_with (\<lambda>g. g \<lparr>g_paused_state := 0\<rparr>) st1))
           else st1)"

definition tt_av_cmd_mute :: "bool \<Rightarrow> avstate \<Rightarrow> avstate" where
  "tt_av_cmd_mute muted st = av_with (\<lambda>g. g \<lparr>g_mic_muted := muted\<rparr>) st"

definition tt_av_cmd_deaf :: "bool \<Rightarrow> avstate \<Rightarrow> avstate" where
  "tt_av_cmd_deaf deaf st = av_with (\<lambda>g. g \<lparr>g_deaf := deaf\<rparr>) st"

definition tt_av_cmd_selfview :: "bool \<Rightarrow> avstate \<Rightarrow> avstate" where
  "tt_av_cmd_selfview on st =
     av_with (\<lambda>g. let g1 = g \<lparr>g_selfview_on := on\<rparr> in if on then g1 \<lparr>g_vtest_at := 0\<rparr> else g1) st"

definition tt_av_cmd_vtest :: "nat \<Rightarrow> bool \<Rightarrow> avstate \<Rightarrow> avstate" where
  "tt_av_cmd_vtest fn on st =
     av_with (\<lambda>g. let g1 = g \<lparr>g_vtest_on := on, g_vtest_fn := fn\<rparr> in if on then g1 \<lparr>g_vtest_sent := 0, g_vtest_at := 0\<rparr> else g1) st"

definition tt_av_cmd_camera :: "avenv \<Rightarrow> nat \<Rightarrow> int \<Rightarrow> avstate \<Rightarrow> avstate" where
  "tt_av_cmd_camera X fn on st =
     (case as_avg st of
        None \<Rightarrow> st
      | Some g \<Rightarrow>
          if \<not> as_av st \<or> g_call_fn g \<noteq> fn \<or> on = (if has (g_state g) SENDING_V then 1 else 0) then st
          else
            let st1 = av_log (AvVideoRate fn (if on \<noteq> 0 then TT_AV_VIDEO_BITRATE else 0)) st;
                s = (if on \<noteq> 0 then g_state g OR SENDING_V else g_state g AND NOT SENDING_V)
            in if \<not> x_ok X then st1
               else av_with (video_lifecycle X (on \<noteq> 0)) (push_av_local_state fn s st1))"

definition tt_av_cmd_video_br :: "nat \<Rightarrow> int \<Rightarrow> avstate \<Rightarrow> avstate" where
  "tt_av_cmd_video_br fn br st = (if \<not> as_av st then st else av_log (AvVideoRate fn (video_br_fixup br)) st)"

end
