(* ===== verification/CallSafe.thy ===== *)
theory CallSafe
  imports Call
begin

text \<open>
  What the call engine guarantees.  The step relation \<open>av_step\<close> lets toxav, the user, the device workers and
  the main loop act in any order; \<open>calls\<close> is the set of friends toxav has a call with, which limits what toxav does to what
  its documentation allows: it reports on and accepts commands for existing calls only.
\<close>

section \<open>Steps\<close>

definition over :: "u32 \<Rightarrow> bool" where
  "over s \<longleftrightarrow> has s (2 OR 1)"

definition av_worker :: "pcm_read \<Rightarrow> avstate \<Rightarrow> avstate" where
  "av_worker rd st =
     av_with (\<lambda>g. case g_audio g of
         None \<Rightarrow> g
       | Some a \<Rightarrow> (case capture_worker (g_mic_muted g) rd a of None \<Rightarrow> g | Some a' \<Rightarrow> g \<lparr>g_audio := Some a'\<rparr>)) st"

definition av_player :: "avstate \<Rightarrow> avstate" where
  "av_player st = av_with (\<lambda>g. g \<lparr>g_audio := map_option (snd \<circ> playback_worker) (g_audio g)\<rparr>) st"

definition av_camera_frame :: "bytes \<Rightarrow> bytes \<Rightarrow> avstate \<Rightarrow> avstate" where
  "av_camera_frame back buf st = av_with (\<lambda>g. g \<lparr>g_video := map_option (\<lambda>v. video_worker v back buf) (g_video g)\<rparr>) st"

inductive av_step :: "nat set \<times> avstate \<Rightarrow> nat set \<times> avstate \<Rightarrow> bool" where
  incoming: "calls = {} \<Longrightarrow> fn < 4294967295 \<Longrightarrow> av_step (calls, st) ({fn}, cb_av_call fn a v st)"
| state_change: "fn \<in> calls \<Longrightarrow> fn < 4294967295 \<Longrightarrow>
    av_step (calls, st) (if over s then calls - {fn} else calls, cb_av_call_state X fn s st)"
| call: "(x_ok X \<Longrightarrow> calls = {}) \<Longrightarrow>
    av_step (calls, st) (if as_av st \<and> x_ok X then {fn} else calls, tt_av_cmd_call X fn a v st)"
| answer: "(x_ok X \<Longrightarrow> fn \<in> calls) \<Longrightarrow> av_step (calls, st) (calls, tt_av_cmd_answer X fn a v st)"
| hangup: "(x_ok X \<Longrightarrow> fn \<in> calls) \<Longrightarrow>
    av_step (calls, st) (if as_av st \<and> x_ok X then calls - {fn} else calls, tt_av_cmd_hangup X fn st)"
| pause: "(x_ok X \<Longrightarrow> fn \<in> calls) \<Longrightarrow> av_step (calls, st) (calls, tt_av_cmd_pause X fn st)"
| resume: "(x_ok X \<Longrightarrow> fn \<in> calls) \<Longrightarrow> av_step (calls, st) (calls, tt_av_cmd_resume X fn st)"
| camera: "(x_ok X \<Longrightarrow> fn \<in> calls) \<Longrightarrow> av_step (calls, st) (calls, tt_av_cmd_camera X fn on st)"
| mute: "av_step (calls, st) (calls, tt_av_cmd_mute b st)"
| deaf: "av_step (calls, st) (calls, tt_av_cmd_deaf b st)"
| selfview: "av_step (calls, st) (calls, tt_av_cmd_selfview b st)"
| vtest: "av_step (calls, st) (calls, tt_av_cmd_vtest fn b st)"
| video_br: "av_step (calls, st) (calls, tt_av_cmd_video_br fn br st)"
| audio_rx: "av_step (calls, st) (calls, cb_av_audio_rx pcm n ch rate st)"
| video_rx: "av_step (calls, st) (calls, cb_av_video_rx fn w h planes ys us vs junk st)"
| audio_rate: "av_step (calls, st) (calls, cb_av_audio_br fn r st)"
| video_rate: "av_step (calls, st) (calls, cb_av_video_br fn r st)"
| turn: "av_step (calls, st) (calls, tt_av_iterate X st)"
| capture: "av_step (calls, st) (calls, av_worker rd st)"
| play: "av_step (calls, st) (calls, av_player st)"
| picture: "av_step (calls, st) (calls, av_camera_frame back buf st)"
| kill: "av_step (calls, st) ({}, tt_av_kill st)"

section \<open>Devices follow the call\<close>

definition devices_off :: "avstate \<Rightarrow> bool" where
  "devices_off st = (case as_avg st of None \<Rightarrow> True | Some g \<Rightarrow> g_audio g = None \<and> g_video g = None)"

lemma off_with:
  "(\<And>g. as_avg st = Some g \<Longrightarrow> g_audio g = None \<Longrightarrow> g_video g = None \<Longrightarrow> g_audio (f g) = None \<and> g_video (f g) = None) \<Longrightarrow>
   devices_off st \<Longrightarrow> devices_off (av_with f st)"
  by (simp add: devices_off_def av_with_def split: option.splits)

lemma off_simps [simp]:
  "devices_off (push_av ty fn i j st) = devices_off st" "devices_off (av_log x st) = devices_off st"
  "devices_off (push_av_local_state fn s st) = devices_off st"
  by (auto simp: devices_off_def push_av_def av_log_def push_av_local_state_def av_with_def split: option.splits)

lemma down_off: "g_audio (call_down X g) = None" "g_video (call_down X g) = None" "g_call_fn (call_down X g) = 4294967295"
  by (simp_all add: call_down_def audio_lifecycle_def video_lifecycle_def tt_audio_stop_def tt_video_stop_def)

lemma over_off: "over s \<Longrightarrow> fn < 4294967295 \<Longrightarrow> devices_off (cb_av_call_state X fn s st)"
  by (simp add: cb_av_call_state_def over_def devices_off_def push_av_def Let_def down_off split: option.splits)

lemma ended_off: "devices_off (push_av_local_ended X fn err st)"
  by (simp add: push_av_local_ended_def devices_off_def av_with_def push_av_def down_off split: option.splits)

lemma pump_st: "\<exists>xs. snd (vtest_pump k g st) = st \<lparr>as_out := as_out st @ xs\<rparr>"
proof (induction k g st rule: vtest_pump.induct)
  case (1 g st)
  show ?case by (intro exI [of _ "[]"]) simp
next
  case (2 k g st)
  show ?case
  proof (cases "g_vtest_sent g < 150")
    case True
    obtain y u v where p: "vtest_pattern 160 90 (g_vtest_sent g) = (y, u, v)" by (metis prod.exhaust)
    from 2 [OF True p [symmetric] refl] show ?thesis using True p by (auto simp: av_log_def)
  next
    case False
    then show ?thesis by (intro exI [of _ "[]"]) simp
  qed
qed

lemma pump_devices:
  "g_audio (fst (vtest_pump k g st)) = g_audio g" "g_video (fst (vtest_pump k g st)) = g_video g"
  by (induction k g st rule: vtest_pump.induct) (auto split: prod.splits)

lemma send_off:
  assumes "devices_off st"
  shows "devices_off (video_send_drain X st)"
proof (cases "as_avg st")
  case (Some g)
  obtain g1 st1 where p: "vtest_pump 2 (g \<lparr>g_vtest_at := x_now X\<rparr>) st = (g1, st1)" by (metis prod.exhaust)
  have off: "g_audio g = None" "g_video g = None" using assms Some by (simp_all add: devices_off_def)
  then have "g_audio g1 = None" "g_video g1 = None"
    using pump_devices [of 2 "g \<lparr>g_vtest_at := x_now X\<rparr>" st] p by simp_all
  then show ?thesis using assms Some off p by (simp add: video_send_drain_def tt_video_fetch_local_def, simp add: devices_off_def)
qed (use assms in \<open>simp add: video_send_drain_def\<close>)

lemma view_off: "devices_off st \<Longrightarrow> devices_off (selfview_drain X st)"
  by (cases "as_avg st") (auto simp: selfview_drain_def devices_off_def)

lemma turn_off: "devices_off st \<Longrightarrow> devices_off (tt_av_iterate X st)"
  using send_off view_off by (cases "as_avg st") (simp_all add: tt_av_iterate_def, simp add: devices_off_def)

lemma video_rx_off: "devices_off (cb_av_video_rx fn w h planes ys us vs junk st) = devices_off st"
  by (simp add: cb_av_video_rx_def devices_off_def Let_def)

lemma kill_off: "devices_off (tt_av_kill st)"
  by (simp add: tt_av_kill_def devices_off_def)

definition line_ok :: "nat set \<times> avstate \<Rightarrow> bool" where
  "line_ok p \<longleftrightarrow> (\<exists>f. fst p \<subseteq> {f}) \<and> (fst p = {} \<longrightarrow> devices_off (snd p))"

lemma step_line_ok:
  assumes "av_step p q" "line_ok p"
  shows "line_ok q"
  using assms
proof (induction rule: av_step.induct)
  case (state_change fn calls st s X)
  then have "calls = {fn}" by (auto simp: line_ok_def)
  then show ?case using over_off [OF _ state_change(2)] by (auto simp: line_ok_def)
next
  case (hangup X fn calls st)
  then have "x_ok X \<Longrightarrow> calls = {fn}" by (auto simp: line_ok_def)
  then show ?case using hangup ended_off by (auto simp: line_ok_def tt_av_cmd_hangup_def Let_def)
next
  case (turn calls st X)
  then show ?case using turn_off by (simp add: line_ok_def)
qed (auto simp: line_ok_def Let_def
      cb_av_call_def tt_av_cmd_call_def tt_av_cmd_answer_def tt_av_cmd_pause_def tt_av_cmd_resume_def tt_av_cmd_camera_def
      tt_av_cmd_mute_def tt_av_cmd_deaf_def tt_av_cmd_selfview_def tt_av_cmd_vtest_def tt_av_cmd_video_br_def cb_av_audio_rx_def
      cb_av_audio_br_def cb_av_video_br_def av_worker_def av_player_def av_camera_frame_def kill_off video_rx_off
      intro!: off_with split: option.splits)


definition demo_avenv :: avenv where
  "demo_avenv = \<lparr>x_ok = True, x_now = 100, x_mic = True, x_format = (\<lambda>(w, h). Some (w, h, 2 * w)), x_cam = True\<rparr>"

definition demo_av :: avstate where
  "demo_av = \<lparr>as_av = True, as_avg = Some avg_zero, as_events = [], as_out = []\<rparr>"

lemma demo_av_off: "devices_off demo_av"
  by (simp add: demo_av_def devices_off_def avg_zero_def)


section \<open>A muted microphone\<close>

definition is_audio :: "av_out \<Rightarrow> bool" where
  "is_audio x = (case x of AvAudio fn d \<Rightarrow> True | _ \<Rightarrow> False)"

definition cap_empty :: "TTAvg \<Rightarrow> bool" where
  "cap_empty g = (case g_audio g of None \<Rightarrow> True | Some a \<Rightarrow> rg_head (au_cap_ring a) = rg_tail (au_cap_ring a))"

definition silent :: "avstate \<Rightarrow> avstate \<Rightarrow> bool" where
  "silent st st' \<longleftrightarrow> filter is_audio (as_out st') = filter is_audio (as_out st) \<and> pred_option cap_empty (as_avg st')"

definition muted :: "avstate \<Rightarrow> bool" where
  "muted st = pred_option g_mic_muted (as_avg st)"

lemma empty_zero [simp]: "cap_empty (g \<lparr>g_audio := Some audio_zero\<rparr>)"
  by (simp add: cap_empty_def audio_zero_def ring_reset_def Let_def)

lemma empty_life:
  "cap_empty g \<Longrightarrow> cap_empty (audio_lifecycle X up g)" "cap_empty g \<Longrightarrow> cap_empty (video_lifecycle X up g)"
  by (auto simp: audio_lifecycle_def tt_audio_start_def tt_audio_stop_def video_lifecycle_def tt_video_start_def tt_video_stop_def
      cap_empty_def [of "_ \<lparr>g_audio := None\<rparr>"] split: option.splits) (auto simp: cap_empty_def)

lemma empty_fields [simp]:
  "cap_empty (g \<lparr>g_started := t\<rparr>) = cap_empty g" "cap_empty (g \<lparr>g_state := s\<rparr>) = cap_empty g" "cap_empty (g \<lparr>g_call_fn := f\<rparr>) = cap_empty g"
  "cap_empty (g \<lparr>g_vtest_on := b\<rparr>) = cap_empty g" "cap_empty (g \<lparr>g_selfview_on := b\<rparr>) = cap_empty g" "cap_empty (g \<lparr>g_mic_muted := b\<rparr>) = cap_empty g"
  "cap_empty (g \<lparr>g_deaf := b\<rparr>) = cap_empty g" "cap_empty (g \<lparr>g_paused_state := s\<rparr>) = cap_empty g" "cap_empty (g \<lparr>g_vtest_fn := f\<rparr>) = cap_empty g"
  "cap_empty (g \<lparr>g_vtest_sent := n\<rparr>) = cap_empty g" "cap_empty (g \<lparr>g_vtest_at := t\<rparr>) = cap_empty g" "cap_empty (g \<lparr>g_video_last_seq := n\<rparr>) = cap_empty g"
  "cap_empty (g \<lparr>g_video := v\<rparr>) = cap_empty g"
  by (simp_all add: cap_empty_def)

lemma empty_down: "cap_empty g \<Longrightarrow> cap_empty (call_down X g)"
  by (simp add: call_down_def empty_life)

lemma empty_push: "cap_empty g \<Longrightarrow> cap_empty (g \<lparr>g_audio := tt_audio_playback_push (g_audio g) d n\<rparr>)"
  by (simp add: cap_empty_def tt_audio_playback_push_def split: option.splits)

lemma empty_convert: "cap_empty g \<Longrightarrow> cap_empty (audio_rx_convert g pcm n ch rate)"
proof -
  have "cap_empty g \<Longrightarrow> cap_empty (foldl (\<lambda>g f. g \<lparr>g_audio := tt_audio_playback_push (g_audio g) (s16_bytes (drop (f * 960) out)) 1\<rparr>) g fs)" for out fs
    by (induction fs arbitrary: g) (auto intro: empty_push)
  then show "cap_empty g \<Longrightarrow> cap_empty (audio_rx_convert g pcm n ch rate)" by (simp add: audio_rx_convert_def Let_def)
qed

lemma silent_with:
  "(\<And>g. as_avg st = Some g \<Longrightarrow> cap_empty g \<Longrightarrow> cap_empty (f g)) \<Longrightarrow> silent st0 st \<Longrightarrow> silent st0 (av_with f st)"
  by (cases "as_avg st") (simp_all add: silent_def av_with_def)

lemma silent_log: "silent st0 st \<Longrightarrow> \<not> is_audio x \<Longrightarrow> silent st0 (av_log x st)"
  by (simp add: silent_def av_log_def)

lemma silent_push: "silent st0 st \<Longrightarrow> silent st0 (push_av ty fn i j st)"
  by (simp add: silent_def push_av_def)

lemma silent_local: "silent st0 st \<Longrightarrow> silent st0 (push_av_local_state fn s st)"
  unfolding push_av_local_state_def by (intro silent_push silent_with) simp_all

lemma silent_put: "silent st0 st \<Longrightarrow> cap_empty g \<Longrightarrow> silent st0 (st \<lparr>as_avg := Some g\<rparr>)"
  by (simp add: silent_def)

lemma silent_event: "silent st0 st \<Longrightarrow> silent st0 (st \<lparr>as_events := es\<rparr>)"
  by (simp add: silent_def)

lemma silent_kill: "silent st0 st \<Longrightarrow> silent st0 (tt_av_kill st)"
  by (simp add: silent_def tt_av_kill_def)

lemma silent_avg: "silent st0 st \<Longrightarrow> as_avg st = Some g \<Longrightarrow> cap_empty g"
  by (simp add: silent_def)

lemma not_audio [simp]:
  "\<not> is_audio (AvCall fn a v)" "\<not> is_audio (AvAnswer fn a v)" "\<not> is_audio (AvControl fn c)" "\<not> is_audio (AvAudioRate fn a)"
  "\<not> is_audio (AvVideoRate fn a)" "\<not> is_audio (AvVideo fn w h p1 p2 p3)"
  by (simp_all add: is_audio_def)

lemma silent_pump:
  "silent st0 st \<Longrightarrow> cap_empty g \<Longrightarrow> silent st0 (snd (vtest_pump k g st)) \<and> cap_empty (fst (vtest_pump k g st))"
  by (induction k g st rule: vtest_pump.induct) (auto simp: silent_log split: prod.splits)

lemma silent_send: "silent st0 st \<Longrightarrow> silent st0 (video_send_drain X st)"
proof (cases "as_avg st")
  case (Some g)
  assume s: "silent st0 st"
  note e = silent_avg [OF s Some]
  obtain g1 st1 where p: "vtest_pump 2 (g \<lparr>g_vtest_at := x_now X\<rparr>) st = (g1, st1)" by (metis prod.exhaust)
  have k: "silent st0 st1" "cap_empty g1" using silent_pump [OF s, of "g \<lparr>g_vtest_at := x_now X\<rparr>" 2] e p by auto
  show ?thesis using Some s e p k by (auto simp: video_send_drain_def silent_put silent_log split: option.splits)
qed (simp add: video_send_drain_def)

lemma silent_view: "silent st0 st \<Longrightarrow> silent st0 (selfview_drain X st)"
  using silent_avg by (fastforce simp: selfview_drain_def silent_put silent_event Let_def split: option.splits)

lemma silent_turn: "silent st0 st \<Longrightarrow> silent st0 (tt_av_iterate X st)"
proof -
  assume s: "silent st0 st"
  have "silent st0 (st \<lparr>as_avg := Some (g \<lparr>g_audio := Some a1\<rparr>)\<rparr>) \<and> st1 = st"
    if "as_avg st = Some g" "g_audio g = Some a" "audio_send_drain g a st = (a1, st1)" for g a a1 st1
  proof -
    have r: "rg_head (au_cap_ring a) = rg_tail (au_cap_ring a)" using silent_avg [OF s that(1)] that(2) by (simp add: cap_empty_def)
    then have "audio_send_drain g a st = (a \<lparr>au_cap_ring := au_cap_ring a\<rparr>, st)"
      by (subst audio_send_drain.simps) (simp add: tt_audio_capture_pop_def ring_pop_def Let_def)
    then show ?thesis using that r s by (auto simp: silent_put cap_empty_def)
  qed
  then show ?thesis using s unfolding tt_av_iterate_def by (intro silent_view silent_send) (auto split: option.splits prod.splits)
qed

lemma silent_state: "silent st0 st \<Longrightarrow> silent st0 (cb_av_call_state X fn s st)"
  unfolding cb_av_call_state_def
  by (rule silent_push) (cases "as_avg st"; auto simp: Let_def intro!: silent_put silent_push empty_down empty_life dest: silent_avg)

lemma silent_step:
  assumes "av_step p q" "muted (snd p)" "silent st0 (snd p)"
  shows "silent st0 (snd q)"
  using assms
proof (induction rule: av_step.induct)
  case (capture calls st rd)
  then show ?case
    by (auto simp: av_worker_def muted_def cap_empty_def capture_worker_def intro!: silent_with split: option.splits pcm_read.splits)
next
  case (play calls st)
  then show ?case
    by (auto simp: av_player_def cap_empty_def playback_worker_def intro!: silent_with split: option.splits prod.splits)
qed (auto simp: Let_def cb_av_call_def tt_av_cmd_call_def tt_av_cmd_answer_def tt_av_cmd_hangup_def push_av_local_ended_def tt_av_cmd_pause_def
      tt_av_cmd_resume_def tt_av_cmd_camera_def tt_av_cmd_mute_def tt_av_cmd_deaf_def tt_av_cmd_selfview_def tt_av_cmd_vtest_def
      tt_av_cmd_video_br_def cb_av_audio_rx_def cb_av_video_rx_def cb_av_audio_br_def cb_av_video_br_def av_camera_frame_def new_call_def
      silent_turn silent_state silent_kill
      intro!: silent_push silent_with silent_log silent_local silent_event empty_life empty_down empty_push empty_convert split: option.splits)

text \<open>C29: From a state in which the microphone is muted and no captured audio waits, no sequence of steps through
  states in which it stays muted hands toxav a single audio frame.\<close>

theorem muted_microphone_sends_nothing:
  assumes "(\<lambda>p q. av_step p q \<and> muted (snd q))\<^sup>*\<^sup>* (calls, st) (calls', st')" "muted st" "pred_option cap_empty (as_avg st)"
  shows "filter is_audio (as_out st') = filter is_audio (as_out st)"
proof -
  have "muted (snd q) \<and> silent st (snd q)" if "(\<lambda>p q. av_step p q \<and> muted (snd q))\<^sup>*\<^sup>* (calls, st) q" for q
    using that assms(2,3)
  proof (induction rule: rtranclp_induct)
    case (step p q)
    then show ?case using silent_step [of p q st] by simp
  qed (simp add: silent_def)
  from this [OF assms(1)] show ?thesis by (simp add: silent_def)
qed

theorem muted_microphone_sends_nothing_witness:
  "let st = tt_av_cmd_mute True demo_av; st' = av_worker (ReadSamples 960 (replicate 1920 1)) st
   in muted st \<and> filter is_audio (as_out st') = []"
proof -
  let ?st = "tt_av_cmd_mute True demo_av" let ?st' = "av_worker (ReadSamples 960 (replicate 1920 1)) ?st"
  have m: "muted ?st" "muted ?st'" "pred_option cap_empty (as_avg ?st)" "as_out ?st = []"
    by (simp_all add: tt_av_cmd_mute_def av_worker_def av_with_def demo_av_def muted_def avg_zero_def cap_empty_def)
  have "(\<lambda>p q. av_step p q \<and> muted (snd q))\<^sup>*\<^sup>* ({}, ?st) ({}, ?st')" using m av_step.capture by (intro r_into_rtranclp) simp
  from muted_microphone_sends_nothing [OF this m(1,3)] show ?thesis using m by (simp add: Let_def)
qed

section \<open>Two callers\<close>

text \<open>With two callers the slot belongs to the last one: when friend \<open>b\<close> calls while friend \<open>a\<close> rings and then gives
  up, answering \<open>a\<close> starts the microphone for a slot without a friend, so everything captured is addressed to friend
  number 4294967295 and \<open>a\<close> hears nothing.\<close>

theorem second_caller_takes_the_line:
  assumes "as_av st" "as_avg st = Some g" "g_audio g = None" "x_ok X" "x_mic X"
  shows "\<exists>g'. as_avg (tt_av_cmd_answer X a 32 0 (cb_av_call_state X b 2 (cb_av_call b True vb (cb_av_call a True va st)))) = Some g' \<and>
    g_audio g' \<noteq> None \<and> g_call_fn g' = 4294967295"
proof -
  have h: "has 2 (2 OR 1)" "\<not> has 2 4" "\<not> has 2 8" by (simp_all add: has_def)
  have d: "g_audio (call_down X g1) = None \<and> g_call_fn (call_down X g1) = 4294967295" for g1 by (simp add: down_off)
  show ?thesis using assms d h
    by (simp add: tt_av_cmd_answer_def cb_av_call_state_def cb_av_call_def push_av_def av_with_def av_log_def push_av_local_state_def
        new_call_def audio_lifecycle_def tt_audio_start_def Let_def)
qed

theorem second_caller_takes_the_line_witness:
  "\<exists>g'. as_avg (tt_av_cmd_answer demo_avenv 1 32 0 (cb_av_call_state demo_avenv 2 2 (cb_av_call 2 True False (cb_av_call 1 True False demo_av)))) = Some g' \<and>
    g_audio g' \<noteq> None \<and> g_call_fn g' = 4294967295"
  by (rule second_caller_takes_the_line [of demo_av avg_zero]) (simp_all add: demo_av_def avg_zero_def demo_avenv_def)

section \<open>High-definition cameras\<close>

text \<open>When the camera accepts the size the code asks for first, 1280 by 720, no camera picture is ever sent: the frame of
  1382400 bytes does not fit the buffer of 921600 bytes the main loop fetches it into.\<close>

theorem hd_camera_sends_nothing:
  assumes "x_format X (1280, 720) = Some (1280, 720, bpl)" "x_cam X" "g_video g = None" "as_avg st = Some (tt_video_start X g)" "\<not> g_vtest_on g"
  shows "as_out (video_send_drain X' (av_camera_frame back buf st)) = as_out st"
proof -
  have f: "set_format (x_format X) = Some (1280, 720, if bpl \<ge> 2560 then bpl else 2560)"
    using assms(1) by (simp add: set_format_def List.map_filter_def)
  let ?v = "video_open (1280, 720, if bpl \<ge> 2560 then bpl else 2560)"
  have g: "tt_video_start X g = g \<lparr>g_video := Some ?v\<rparr>" unfolding tt_video_start_def f using assms(2,3) by simp
  have b: "vd_frame_bytes (video_worker ?v back buf) = 1382400"
    by (simp add: video_worker_def frame_publish_def video_open_def)
  show ?thesis using assms(4,5) b unfolding g
    by (simp add: video_send_drain_def av_camera_frame_def av_with_def tt_video_fetch_local_def)
qed

theorem hd_camera_sends_nothing_witness:
  "as_out (video_send_drain demo_avenv (av_camera_frame [] (replicate 1843200 7) (demo_av \<lparr>as_avg := Some (tt_video_start demo_avenv avg_zero)\<rparr>))) = []"
  using hd_camera_sends_nothing [of demo_avenv 2560 avg_zero "demo_av \<lparr>as_avg := Some (tt_video_start demo_avenv avg_zero)\<rparr>" demo_avenv "[]" "replicate 1843200 7"]
  by (simp add: demo_avenv_def demo_av_def avg_zero_def)

section \<open>Received audio and video\<close>

lemma s16_id: "- 32768 \<le> x \<Longrightarrow> x < 32768 \<Longrightarrow> s16 x = x"
  by (simp add: s16_def signed_of_int signed_take_bit_int_eq_self)

lemma sdiv_between:
  assumes "0 \<le> fr" "fr < (48000 :: int)"
  shows "min 0 d \<le> (d * fr) sdiv 48000 \<and> (d * fr) sdiv 48000 \<le> max 0 d"
proof -
  have "\<bar>d\<bar> * fr \<le> \<bar>d\<bar> * 48000" using assms by (intro mult_left_mono) auto
  then have "\<bar>d\<bar> * fr div 48000 \<le> \<bar>d\<bar> * 48000 div 48000" by (rule zdiv_mono1) simp
  then have "\<bar>d\<bar> * fr div 48000 \<le> \<bar>d\<bar>" "0 \<le> \<bar>d\<bar> * fr div 48000" using assms by (simp_all add: pos_imp_zdiv_nonneg_iff)
  moreover have "(d * fr) sdiv 48000 = sgn d * (sgn fr * (\<bar>d\<bar> * fr div 48000))"
    using assms by (simp add: signed_divide_int_def sgn_mult abs_mult)
  ultimately show ?thesis using assms by (cases d "0 :: int" rule: linorder_cases; cases "fr = 0") (auto simp: sgn_if)
qed

text \<open>Converting received audio to 48 kHz reads only samples that were received, and every produced sample lies
  between its two neighbours, so the 16-bit result never wraps.\<close>

theorem resample_in_bounds:
  assumes "0 < rate" "rate \<noteq> 48000" "i < length (resample smp rate)" "\<forall>x \<in> set smp. - 32768 \<le> x \<and> x < 32768"
  shows "i * rate div 48000 < length smp \<and>
    (let p = i * rate div 48000; a = smp ! p; b = (if p + 1 < length smp then smp ! (p + 1) else a)
     in min a b \<le> resample smp rate ! i \<and> resample smp rate ! i \<le> max a b)"
proof -
  let ?p = "i * rate div 48000" let ?a = "smp ! ?p" let ?b = "if ?p + 1 < length smp then smp ! (?p + 1) else ?a"
  have i: "i < length smp * 48000 div rate" using assms(2,3) by (simp add: resample_def)
  have "(i + 1) * rate \<le> length smp * 48000 div rate * rate" using i by (intro mult_right_mono) auto
  also have "\<dots> \<le> length smp * 48000" by simp
  finally have "i * rate < length smp * 48000" using assms(1) by (simp add: add_mult_distrib)
  then have p: "?p < length smp" by (simp add: less_mult_imp_div_less)
  have r: "resample smp rate ! i = s16 (?a + ((?b - ?a) * int (i * rate mod 48000)) sdiv 48000)"
    using assms(2,3) by (simp add: resample_def resample_at_def Let_def)
  have ab: "- 32768 \<le> ?a" "?a < 32768" "- 32768 \<le> ?b" "?b < 32768" using assms(4) p by auto
  have "min 0 (?b - ?a) \<le> ((?b - ?a) * int (i * rate mod 48000)) sdiv 48000 \<and> ((?b - ?a) * int (i * rate mod 48000)) sdiv 48000 \<le> max 0 (?b - ?a)"
    by (rule sdiv_between) simp_all
  then have m: "min ?a ?b \<le> ?a + ((?b - ?a) * int (i * rate mod 48000)) sdiv 48000"
    "?a + ((?b - ?a) * int (i * rate mod 48000)) sdiv 48000 \<le> max ?a ?b" by linarith+
  then have "resample smp rate ! i = ?a + ((?b - ?a) * int (i * rate mod 48000)) sdiv 48000"
    unfolding r using ab by (intro s16_id) linarith+
  then show ?thesis using p m by (simp add: Let_def)
qed

theorem resample_in_bounds_witness:
  "let p = 1 * 24000 div 48000; a = [100, 200 :: int] ! p; b = (if p + 1 < length [100, 200 :: int] then [100, 200] ! (p + 1) else a)
   in min a b \<le> resample [100, 200] 24000 ! 1 \<and> resample [100, 200] 24000 ! 1 \<le> max a b"
proof -
  have "1 < length (resample [100, 200] 24000)" by (simp add: resample_def)
  from resample_in_bounds [OF _ _ this] show ?thesis by simp
qed

text \<open>Every row copy of a received picture that passes the stride checks stays inside the allocated payload and inside
  its source plane of stride times rows bytes.\<close>

theorem received_picture_in_bounds:
  assumes "rx_accepts w h ys us vs" "(d, p, s, n) \<in> set (rx_copies w h (nat ys) (nat us) (nat vs))"
  shows "d + n \<le> rx_payload h (nat ys) (nat us) (nat vs) \<and>
    s + n \<le> (case p of PlaneY \<Rightarrow> nat ys * h | PlaneU \<Rightarrow> nat us * ((h + 1) div 2) | PlaneV \<Rightarrow> nat vs * ((h + 1) div 2))"
proof -
  have row: "j * k + n' \<le> k * r" if "j < r" "n' \<le> k" for j k r n' :: nat
  proof -
    have "j * k + n' \<le> Suc j * k" using that by simp
    also have "\<dots> \<le> r * k" using that by (intro mult_right_mono) auto
    finally show ?thesis by (simp add: mult.commute)
  qed
  have l: "w \<le> nat ys" "(w + 1) div 2 \<le> nat us" "(w + 1) div 2 \<le> nat vs" using assms(1) by (auto simp: rx_accepts_def)
  from assms(2) consider j where "j < h" "d = j * nat ys" "p = PlaneY" "s = j * nat ys" "n = w"
    | j where "j < (h + 1) div 2" "d = nat ys * h + j * nat us" "p = PlaneU" "s = j * nat us" "n = (w + 1) div 2"
    | j where "j < (h + 1) div 2" "d = nat ys * h + nat us * ((h + 1) div 2) + j * nat vs" "p = PlaneV" "s = j * nat vs" "n = (w + 1) div 2"
    unfolding rx_copies_def by auto
  then show ?thesis
  proof cases
    case 1
    then show ?thesis using row [OF 1(1) l(1)] by (simp add: rx_payload_def)
  next
    case 2
    then show ?thesis using row [OF 2(1) l(2)] by (simp add: rx_payload_def)
  next
    case 3
    then show ?thesis using row [OF 3(1) l(3)] by (simp add: rx_payload_def)
  qed
qed

theorem received_picture_in_bounds_witness:
  "rx_accepts 2 2 2 1 1 \<and> 4 + 1 \<le> rx_payload 2 2 1 1"
proof -
  have a: "rx_accepts 2 2 2 1 1" by (simp add: rx_accepts_def)
  have "(4, PlaneU, 0, 1) \<in> set (rx_copies 2 2 (nat 2) (nat 1) (nat 1))" by (simp add: rx_copies_def)
  from received_picture_in_bounds [OF a this] show ?thesis using a by simp
qed

end
