(* ===== verification/Contacts.thy ===== *)
theory Contacts
  imports Policy SessionStore
begin

text \<open>
  The contact list and our own identity in \<^verbatim>\<open>src/src/tox_thread.c\<close>: adding, accepting and deleting friends, the
  callbacks that report about them, our name and status, saving the profile, and the bootstrap nodes.

  \<open>cstate\<close> is the message engine with the log of what was asked of toxcore; \<open>cenv\<close> adds to the environment of the engine
  what toxcore answers and which step of writing a file succeeds.
\<close>

abbreviation (input) "TOX_ADDRESS_SIZE \<equiv> (38 :: nat)"
abbreviation (input) "TOX_MAX_FRIEND_REQUEST_LENGTH \<equiv> (921 :: nat)"
abbreviation (input) "TOX_MAX_NAME_LENGTH \<equiv> (128 :: nat)"
abbreviation (input) "TOX_MAX_STATUS_MESSAGE_LENGTH \<equiv> (1007 :: nat)"

datatype contact_call =
    KFriendAdd bytes bytes
  | KFriendAddNorequest bytes
  | KFriendDelete nat
  | KSetName bytes
  | KSetStatusMessage bytes
  | KSetStatus int
  | KSetTyping nat bool
  | KSetNospam u32
  | KBootstrap string nat bytes
  | KRelay string nat bytes

record cenv =
  w_eng :: eenv
  w_session_key :: "bytes option"
  w_savedata :: bytes
  w_address :: bytes
  w_set_ok :: bool
  w_open :: bool
  w_alloc :: bool
  w_rename :: bool
  w_random :: u32

record cstate =
  c_eng :: engine
  c_calls :: "contact_call list"
  c_last_bootstrap :: int

definition c_call :: "contact_call \<Rightarrow> cstate \<Rightarrow> cstate" where
  "c_call k st = st \<lparr>c_calls := c_calls st @ [k]\<rparr>"

definition c_note :: "TTEventType \<Rightarrow> nat \<Rightarrow> bytes option \<Rightarrow> int \<Rightarrow> cstate \<Rightarrow> cstate" where
  "c_note ty fn str ival st = st \<lparr>c_eng := en_note ty fn str ival (c_eng st)\<rparr>"

definition c_disk :: "(disk \<Rightarrow> disk) \<Rightarrow> cstate \<Rightarrow> cstate" where
  "c_disk f st = st \<lparr>c_eng := (c_eng st) \<lparr>en_files := (en_files (c_eng st)) \<lparr>fs_disk := f (fs_disk (en_files (c_eng st)))\<rparr>\<rparr>\<rparr>"

section \<open>The profile\<close>

text \<open>
  The temporary file gets the savedata, encrypted under the pass key when there is one; whatever was written, it
  then replaces the profile.
\<close>

definition profile_content :: "cenv \<Rightarrow> bytes" where
  "profile_content X =
     (case f_key (v_files (w_eng X)) of
        None \<Rightarrow> w_savedata X
      | Some k \<Rightarrow>
          if \<not> w_alloc X then []
          else case te_encrypt (f_toxes (v_files (w_eng X))) k (w_savedata X) of None \<Rightarrow> [] | Some ct \<Rightarrow> ct)"

definition save_profile :: "cenv \<Rightarrow> cstate \<Rightarrow> cstate" where
  "save_profile X st =
     (case f_profile (v_files (w_eng X)) of
        None \<Rightarrow> st
      | Some path \<Rightarrow>
          let tmp = path @ ''.tmp'' in
          if \<not> w_open X then st
          else c_disk (\<lambda>d. if w_rename X then d(path \<mapsto> profile_content X, tmp := None) else d(tmp := None)) st)"

definition publish_toxid :: "cenv \<Rightarrow> cstate \<Rightarrow> cstate" where
  "publish_toxid X st = c_note TT_EV_TOXID 0 (Some (hex_bytes (w_address X))) 0 st"

section \<open>Callbacks\<close>

definition cb_friend_name :: "nat \<Rightarrow> bytes \<Rightarrow> cstate \<Rightarrow> cstate" where
  "cb_friend_name fn name st = c_note TT_EV_FRIEND_NAME fn (Some name) 0 st"

definition cb_friend_status_message :: "nat \<Rightarrow> bytes \<Rightarrow> cstate \<Rightarrow> cstate" where
  "cb_friend_status_message fn msg st = c_note TT_EV_FRIEND_STATUS_MSG fn (Some msg) 0 st"

definition cb_friend_status :: "nat \<Rightarrow> int \<Rightarrow> cstate \<Rightarrow> cstate" where
  "cb_friend_status fn status st = c_note TT_EV_FRIEND_STATUS fn None status st"

definition cb_friend_request :: "bytes \<Rightarrow> bytes \<Rightarrow> cstate \<Rightarrow> cstate" where
  "cb_friend_request pk msg st =
     (let st1 = c_note TT_EV_FRIEND_REQUEST 0 (Some (hex_bytes pk)) 0 st
      in if msg \<noteq> [] then c_note TT_EV_FRIEND_REQUEST 0 (Some msg) 0 st1 else st1)"

section \<open>Adding friends\<close>

definition isxdigit :: "byte \<Rightarrow> bool" where
  "isxdigit c \<longleftrightarrow> (48 \<le> c \<and> c \<le> 57) \<or> (97 \<le> c \<and> c \<le> 102) \<or> (65 \<le> c \<and> c \<le> 70)"

definition xdigit_value :: "byte \<Rightarrow> nat" where
  "xdigit_value c = (if c \<le> 57 then unat c - 48 else if c \<le> 70 then unat c - 55 else unat c - 87)"

text \<open>
  The search for a ToxID in a C string: the loop tests the byte 75 positions on before it looks at the
  position.  At the terminating zero this ends the loop; further on it is a read outside the string.
\<close>

datatype toxid_span = Span nat | NoSpan | OutOfBounds

function toxid_scan :: "bytes \<Rightarrow> nat \<Rightarrow> toxid_span" where
  "toxid_scan s p =
     (if p + 75 > length s then OutOfBounds
      else if p + 75 = length s then NoSpan
      else
        let j = length (takeWhile isxdigit (take 76 (drop p s)))
        in if j = 76 then Span p else toxid_scan s (if j > 0 then p + j else p + 1))"
  by pat_completeness auto
termination
  by (relation "measure (\<lambda>(s, p). length s - p)") (auto intro!: diff_less_mono2)

declare toxid_scan.simps [simp del]

definition extract_toxid_hex :: "bytes \<Rightarrow> toxid_span" where
  "extract_toxid_hex s = toxid_scan s 0"

text \<open>\<^verbatim>\<open>sscanf(p, "%2hhx")\<close>.\<close>

definition scan_2hhx :: "bytes \<Rightarrow> byte option" where
  "scan_2hhx p =
     (let p1 = dropWhile is_space p;
          neg = (take 1 p1 = [45]);
          p2 = (if p1 \<noteq> [] \<and> (hd p1 = 45 \<or> hd p1 = 43) then take 1 (tl p1) else take 2 p1);
          ds = takeWhile isxdigit p2;
          v = (of_nat (foldl (\<lambda>n d. 16 * n + xdigit_value d) 0 ds) :: byte)
      in if ds = [] then None else Some (if neg then - v else v))"

definition scan_key :: "nat \<Rightarrow> bytes \<Rightarrow> bytes option" where
  "scan_key n s =
     (let bs = map (\<lambda>j. scan_2hhx (drop (j * 2) s)) [0..<n] in if None \<in> set bs then None else Some (map the bs))"

definition handle_cmd_add :: "cenv \<Rightarrow> bytes option \<Rightarrow> cstate \<Rightarrow> cstate option" where
  "handle_cmd_add X str st =
     (case str of
        None \<Rightarrow> Some st
      | Some s \<Rightarrow>
          (case extract_toxid_hex s of
             OutOfBounds \<Rightarrow> None
           | NoSpan \<Rightarrow> Some st
           | Span p \<Rightarrow>
               (case scan_key TOX_ADDRESS_SIZE (drop p s) of
                  None \<Rightarrow> Some st
                | Some addr \<Rightarrow>
                    let rest = drop (p + 76) s;
                        msg = (if 10 \<in> set rest then take (TOX_MAX_FRIEND_REQUEST_LENGTH - 1) (tl (dropWhile (\<lambda>c. c \<noteq> 10) rest))
                               else ascii ''adding you on TkTox'')
                    in Some (save_profile X (c_call (KFriendAdd addr msg) st)))))"

definition handle_cmd_accept :: "cenv \<Rightarrow> bytes option \<Rightarrow> cstate \<Rightarrow> cstate" where
  "handle_cmd_accept X str st =
     (case str of
        None \<Rightarrow> st
      | Some s \<Rightarrow>
          if length s \<noteq> 64 then st
          else case scan_key 32 s of
            None \<Rightarrow> st
          | Some pk \<Rightarrow> save_profile X (c_call (KFriendAddNorequest pk) st))"

section \<open>Deleting a friend\<close>

definition forget_queue :: "cenv \<Rightarrow> nat \<Rightarrow> engine \<Rightarrow> engine" where
  "forget_queue X fn e =
     (if tt_oq_count (en_oq e) fn > 0 then oq_store (w_eng X) (e \<lparr>en_oq := snd (tt_oq_take_all (en_oq e) fn)\<rparr>) else e)"

definition forget_e2ee :: "cenv \<Rightarrow> nat \<Rightarrow> engine \<Rightarrow> engine" where
  "forget_e2ee X fn e =
     (let e1 = policy_store (w_eng X) (e \<lparr>en_e2ee := (en_e2ee e)(fn := tt_session_clear), en_required := (en_required e)(fn := False),
            en_fallback := (en_fallback e)(fn := False), en_handshake_at := (en_handshake_at e)(fn := 0), en_warned := (en_warned e)(fn := False)\<rparr>);
          E = v_files (w_eng X)
      in e1 \<lparr>en_files := (en_files e1) \<lparr>fs_disk :=
           tt_session_store_save (f_toxes E) (f_io E) (map (en_e2ee e1) [0..<TT_MAX_FRIENDS]) (f_profile E) (w_session_key X) (fs_disk (en_files e1))\<rparr>\<rparr>)"

definition cmd_delete_friend :: "cenv \<Rightarrow> nat \<Rightarrow> cstate \<Rightarrow> cstate" where
  "cmd_delete_friend X fn st =
     (let st1 = c_call (KFriendDelete fn) st;
          e1 = forget_queue X fn (c_eng st1);
          e2 = (if v_mode (w_eng X) \<and> fn < TT_MAX_FRIENDS then forget_e2ee X fn e1 else e1)
      in save_profile X (st1 \<lparr>c_eng := e2\<rparr>))"

section \<open>Our own name and status\<close>

definition cmd_set_typing :: "nat \<Rightarrow> int \<Rightarrow> cstate \<Rightarrow> cstate" where
  "cmd_set_typing fn ival st = c_call (KSetTyping fn (ival \<noteq> 0)) st"

definition cmd_set_name :: "cenv \<Rightarrow> bytes option \<Rightarrow> cstate \<Rightarrow> cstate" where
  "cmd_set_name X str st =
     (case str of
        None \<Rightarrow> st
      | Some s \<Rightarrow>
          let n = take TOX_MAX_NAME_LENGTH s; st1 = c_call (KSetName n) st
          in save_profile X (if w_set_ok X then c_note TT_EV_SELF_NAME 0 (Some n) 0 st1 else st1))"

definition cmd_set_status_msg :: "cenv \<Rightarrow> bytes option \<Rightarrow> cstate \<Rightarrow> cstate" where
  "cmd_set_status_msg X str st =
     (case str of
        None \<Rightarrow> st
      | Some s \<Rightarrow>
          let n = take TOX_MAX_STATUS_MESSAGE_LENGTH s; st1 = c_call (KSetStatusMessage n) st
          in save_profile X (if w_set_ok X then c_note TT_EV_SELF_STATUS_MSG 0 (Some n) 0 st1 else st1))"

definition cmd_cycle_status :: "cenv \<Rightarrow> int \<Rightarrow> cstate \<Rightarrow> cstate" where
  "cmd_cycle_status X ival st =
     (let nxt = (if ival + 1 \<ge> 0 then (ival + 1) mod 3 else - ((- (ival + 1)) mod 3))
      in save_profile X (c_note TT_EV_SELF_STATUS 0 None nxt (c_call (KSetStatus nxt) st)))"

definition cmd_set_status :: "cenv \<Rightarrow> int \<Rightarrow> cstate \<Rightarrow> cstate" where
  "cmd_set_status X ival st =
     (if ival < 0 \<or> ival > 2 then st else save_profile X (c_note TT_EV_SELF_STATUS 0 None ival (c_call (KSetStatus ival) st)))"

definition cmd_set_nospam :: "cenv \<Rightarrow> cstate \<Rightarrow> cstate" where
  "cmd_set_nospam X st = save_profile X (publish_toxid X (c_call (KSetNospam (w_random X)) st))"

section \<open>Bootstrap\<close>

record boot_node =
  bn_host :: string
  bn_port :: nat
  bn_keyhex :: string
  bn_relay :: bool
  bn_tor_ok :: bool

definition boots :: "boot_node list" where
  "boots =
    [\<lparr>bn_host = ''144.217.167.73'', bn_port = 33445, bn_keyhex = ''7E5668E0EE09E19F320AD47902419331FFEE147BB3606769CFBE921A2A2FD34C'', bn_relay = True, bn_tor_ok = True\<rparr>,
     \<lparr>bn_host = ''tox.abilinski.com'', bn_port = 33445, bn_keyhex = ''10C00EB250C3233E343E2AEBA07115A5C28920E9C8D29492F6D00B29049EDC7E'', bn_relay = False, bn_tor_ok = False\<rparr>,
     \<lparr>bn_host = ''tox1.mf-net.eu'', bn_port = 33445, bn_keyhex = ''B3E5FA80DC8EBD1149AD2AB35ED8B85BD546DEDE261CA593234C619249419506'', bn_relay = True, bn_tor_ok = False\<rparr>,
     \<lparr>bn_host = ''3.0.24.15'', bn_port = 33445, bn_keyhex = ''E20ABCF38CDBFFD7D04B29C956B33F7B27A3BB7AF0618101617B036E4AEA402D'', bn_relay = False, bn_tor_ok = True\<rparr>,
     \<lparr>bn_host = ''139.162.110.188'', bn_port = 33445, bn_keyhex = ''F76A11284547163889DDC89A7738CF271797BF5E5E220643E97AD3C7E7903D55'', bn_relay = True, bn_tor_ok = True\<rparr>,
     \<lparr>bn_host = ''tox2.mf-net.eu'', bn_port = 33445, bn_keyhex = ''70EA214FDE161E7432530605213F18F7427DC773E276B3E317A07531F548545F'', bn_relay = True, bn_tor_ok = False\<rparr>,
     \<lparr>bn_host = ''144.172.88.203'', bn_port = 33445, bn_keyhex = ''2016A0F2797EE3A8B004BA623F11AAFC8146F1B8F45107232A1A1AECCE856674'', bn_relay = True, bn_tor_ok = True\<rparr>,
     \<lparr>bn_host = ''172.104.215.182'', bn_port = 33445, bn_keyhex = ''DA2BD927E01CD05EBCC2574EBE5BEBB10FF59AE0B2105A7D1E2B40E49BB20239'', bn_relay = True, bn_tor_ok = True\<rparr>,
     \<lparr>bn_host = ''tox.initramfs.io'', bn_port = 33445, bn_keyhex = ''3F0A45A268367C1BEA652F258C85F4A66DA76BCAA667A49E770BCC4917AB6A25'', bn_relay = True, bn_tor_ok = False\<rparr>,
     \<lparr>bn_host = ''tox3.mf-net.eu'', bn_port = 33445, bn_keyhex = ''F4FC9398B7167668ED2BCF85634E04D4CDCDD2F95DA5F305BD234888B6E6A771'', bn_relay = True, bn_tor_ok = False\<rparr>,
     \<lparr>bn_host = ''188.214.122.30'', bn_port = 33445, bn_keyhex = ''2A9F7A620581D5D1B09B004624559211C5ED3D1D712E8066ACDB0896A7335705'', bn_relay = True, bn_tor_ok = True\<rparr>]"

definition bootstrap_node :: "bool \<Rightarrow> cstate \<Rightarrow> boot_node \<Rightarrow> cstate" where
  "bootstrap_node tor st b =
     (if tor \<and> \<not> bn_tor_ok b then st
      else if length (bn_keyhex b) \<noteq> 64 then st
      else case scan_key 32 (ascii (bn_keyhex b)) of
        None \<Rightarrow> st
      | Some key \<Rightarrow>
          let st1 = c_call (KBootstrap (bn_host b) (bn_port b) key) st
          in if bn_relay b then c_call (KRelay (bn_host b) (bn_port b) key) st1 else st1)"

definition bootstrap_all :: "cenv \<Rightarrow> bool \<Rightarrow> cstate \<Rightarrow> cstate" where
  "bootstrap_all X tor st = (foldl (bootstrap_node tor) st boots) \<lparr>c_last_bootstrap := v_now (w_eng X)\<rparr>"

section \<open>Pasted IDs\<close>

definition toxid_at :: "bytes \<Rightarrow> nat \<Rightarrow> bool" where
  "toxid_at s p \<longleftrightarrow> p + 76 \<le> length s \<and> list_all isxdigit (take 76 (drop p s))"

lemma takeWhile_stop:
  assumes "j = length (takeWhile P xs)" "j < length xs"
  shows "\<not> P (xs ! j)"
  using assms nth_length_takeWhile by blast

lemma toxid_digit:
  assumes "toxid_at s i" "k < 76"
  shows "isxdigit (s ! (i + k))"
proof -
  have l: "i + 76 \<le> length s" and a: "\<forall>x \<in> set (take 76 (drop i s)). isxdigit x"
    using assms(1) by (auto simp: toxid_at_def list_all_iff)
  have "take 76 (drop i s) ! k \<in> set (take 76 (drop i s))" using l assms(2) by (intro nth_mem) simp
  then show ?thesis using a l assms(2) by simp
qed

lemma least_skip:
  assumes "\<And>i. p \<le> i \<Longrightarrow> i < q \<Longrightarrow> \<not> P i" "p \<le> (q :: nat)"
  shows "(p \<le> m \<and> P m \<and> (\<forall>i. p \<le> i \<and> i < m \<longrightarrow> \<not> P i)) \<longleftrightarrow> (q \<le> m \<and> P m \<and> (\<forall>i. q \<le> i \<and> i < m \<longrightarrow> \<not> P i))"
proof
  assume l: "p \<le> m \<and> P m \<and> (\<forall>i. p \<le> i \<and> i < m \<longrightarrow> \<not> P i)"
  then have "q \<le> m" using assms(1) [of m] by force
  then show "q \<le> m \<and> P m \<and> (\<forall>i. q \<le> i \<and> i < m \<longrightarrow> \<not> P i)" using l assms(2) by auto
next
  assume r: "q \<le> m \<and> P m \<and> (\<forall>i. q \<le> i \<and> i < m \<longrightarrow> \<not> P i)"
  have "\<not> P i" if "p \<le> i" "i < m" for i using r assms(1) [of i] that by (cases "i < q") auto
  then show "p \<le> m \<and> P m \<and> (\<forall>i. p \<le> i \<and> i < m \<longrightarrow> \<not> P i)" using r assms(2) by auto
qed

lemma scan_skips:
  assumes "p + 76 \<le> length s" "j = length (takeWhile isxdigit (take 76 (drop p s)))" "j \<noteq> 76" "p \<le> i" "i \<le> p + j"
  shows "\<not> toxid_at s i"
proof
  assume a: "toxid_at s i"
  have l: "length (take 76 (drop p s)) = 76" using assms(1) by simp
  have j: "j < 76" using length_takeWhile_le [of isxdigit "take 76 (drop p s)"] assms(2,3) l by linarith
  have "\<not> isxdigit (take 76 (drop p s) ! j)" by (rule takeWhile_stop [OF assms(2)]) (use j l in simp)
  then have n: "\<not> isxdigit (s ! (p + j))" using j assms(1) by simp
  have "p + j - i < 76" "i + (p + j - i) = p + j" using j assms(4,5) by linarith+
  then show False using toxid_digit [OF a, of "p + j - i"] n by simp
qed

lemma toxid_scan_iff:
  "toxid_scan s p = Span m \<longleftrightarrow> p \<le> m \<and> toxid_at s m \<and> (\<forall>i. p \<le> i \<and> i < m \<longrightarrow> \<not> toxid_at s i)"
proof (induction s p rule: toxid_scan.induct)
  case (1 s p)
  let ?j = "length (takeWhile isxdigit (take 76 (drop p s)))"
  show ?case
  proof (cases "p + 76 \<le> length s")
    case False
    then have "\<not> toxid_at s i" if "p \<le> i" for i using that by (simp add: toxid_at_def)
    then show ?thesis using False by (subst toxid_scan.simps) auto
  next
    case l: True
    show ?thesis
    proof (cases "?j = 76")
      case True
      then have "takeWhile isxdigit (take 76 (drop p s)) = take 76 (drop p s)"
        using l by (intro takeWhile_eq_take [THEN trans]) simp
      then have "toxid_at s p" using l by (simp add: toxid_at_def takeWhile_eq_all_conv list_all_iff)
      then show ?thesis using True l by (subst toxid_scan.simps) (auto simp: Let_def le_less)
    next
      case False
      let ?q = "if ?j > 0 then p + ?j else p + 1"
      have skip: "\<not> toxid_at s i" if "p \<le> i" "i < ?q" for i
        using scan_skips [OF l refl False that(1)] that by (auto split: if_splits)
      have "toxid_scan s p = toxid_scan s ?q" using l False by (subst toxid_scan.simps) (simp add: Let_def)
      moreover have "toxid_scan s ?q = Span m \<longleftrightarrow> ?q \<le> m \<and> toxid_at s m \<and> (\<forall>i. ?q \<le> i \<and> i < m \<longrightarrow> \<not> toxid_at s i)"
        using 1 [OF _ _ refl False] l by simp
      moreover have "p \<le> ?q" by simp
      moreover note least_skip [of p ?q "toxid_at s" m, OF skip this]
      ultimately show ?thesis by simp
    qed
  qed
qed

text \<open>The search for a ToxID in pasted text answers position \<open>p\<close> exactly when 76 hexadecimal digits stand there and
  nowhere before; skipping ahead after a shorter run of digits never misses an ID.\<close>

theorem toxid_found_iff:
  "extract_toxid_hex s = Span p \<longleftrightarrow> toxid_at s p \<and> (\<forall>i < p. \<not> toxid_at s i)"
  by (auto simp: extract_toxid_hex_def toxid_scan_iff)

theorem toxid_found_iff_witness:
  "extract_toxid_hex ([73, 68, 58] @ replicate 76 65) = Span 3"
proof -
  let ?s = "[73, 68, 58] @ replicate 76 65 :: bytes"
  have "toxid_at ?s 3" by (simp add: toxid_at_def list_all_iff isxdigit_def)
  moreover have "\<not> toxid_at ?s i" if "i < 3" for i
  proof
    assume "toxid_at ?s i"
    moreover have "2 - i < 76" by arith
    ultimately have "isxdigit (?s ! (i + (2 - i)))" by (rule toxid_digit)
    then show False using that by (simp add: isxdigit_def)
  qed
  ultimately show ?thesis by (subst toxid_found_iff) blast
qed

text \<open>Text of fewer than 75 characters makes the search read past the end of the string.\<close>

theorem short_toxid_read_out_of_bounds:
  assumes "length s < 75"
  shows "handle_cmd_add X (Some s) st = None"
  using assms by (simp add: handle_cmd_add_def extract_toxid_hex_def toxid_scan.simps)

definition demo_cenv :: cenv where
  "demo_cenv = \<lparr>w_eng = demo_eenv, w_session_key = None, w_savedata = [1, 2], w_address = [], w_set_ok = True, w_open = True, w_alloc = True,
     w_rename = True, w_random = 7\<rparr>"

definition demo_cstate :: cstate where
  "demo_cstate = \<lparr>c_eng = demo_engine, c_calls = [], c_last_bootstrap = 0\<rparr>"

theorem short_toxid_read_out_of_bounds_witness:
  "handle_cmd_add demo_cenv (Some (ascii ''bob'')) demo_cstate = None"
  by (rule short_toxid_read_out_of_bounds) simp

section \<open>The profile on disk\<close>

text \<open>When the profile cannot be encrypted, saving it replaces the identity on disk with an empty file.\<close>

theorem failed_encryption_empties_profile:
  assumes "f_profile (v_files (w_eng X)) = Some path" "f_key (v_files (w_eng X)) = Some k" "w_open X" "w_rename X"
    "te_encrypt (f_toxes (v_files (w_eng X))) k (w_savedata X) = None"
  shows "fs_disk (en_files (c_eng (save_profile X st))) path = Some []"
  using assms by (simp add: save_profile_def c_disk_def profile_content_def)

theorem failed_encryption_empties_profile_witness:
  "let E = (v_files demo_eenv) \<lparr>f_profile := Some ''me'', f_key := Some [], f_toxes := toy_toxes \<lparr>te_encrypt := \<lambda>_ _. None\<rparr>\<rparr>;
       X = demo_cenv \<lparr>w_eng := demo_eenv \<lparr>v_files := E\<rparr>\<rparr>
   in fs_disk (en_files (c_eng (save_profile X demo_cstate))) ''me'' = Some []"
  unfolding Let_def by (rule failed_encryption_empties_profile) (simp_all add: demo_cenv_def)

section \<open>Bootstrapping through Tor\<close>

definition ip_literal :: "string \<Rightarrow> bool" where
  "ip_literal h \<longleftrightarrow> list_all (\<lambda>c. c \<in> set ''0123456789.'') h"

definition dns_free :: "contact_call \<Rightarrow> bool" where
  "dns_free k = (case k of KBootstrap h p key \<Rightarrow> ip_literal h | KRelay h p key \<Rightarrow> ip_literal h | _ \<Rightarrow> True)"

lemma bootstrap_dns_free:
  assumes "list_all (\<lambda>b. bn_tor_ok b \<longrightarrow> ip_literal (bn_host b)) bs" "list_all dns_free (c_calls st)"
  shows "list_all dns_free (c_calls (foldl (bootstrap_node True) st bs))"
  using assms by (induction bs arbitrary: st) (auto simp: bootstrap_node_def c_call_def dns_free_def Let_def split: option.splits)

text \<open>In Tor mode, bootstrapping contacts nodes by numeric address only, so no name is ever looked up outside Tor.\<close>

theorem tor_bootstrap_without_dns:
  assumes "list_all dns_free (c_calls st)"
  shows "list_all dns_free (c_calls (bootstrap_all X True st))"
proof -
  have "list_all (\<lambda>b. bn_tor_ok b \<longrightarrow> ip_literal (bn_host b)) boots" by (simp add: boots_def ip_literal_def)
  from bootstrap_dns_free [OF this assms] show ?thesis by (simp add: bootstrap_all_def)
qed

theorem tor_bootstrap_without_dns_witness:
  "list_all dns_free (c_calls (bootstrap_all demo_cenv True demo_cstate))"
  by (rule tor_bootstrap_without_dns) (simp add: demo_cstate_def)

end
