(* ===== verification/Group.thy ===== *)
theory Group
  imports Contacts
begin

text \<open>
  Group chats in \<^verbatim>\<open>src/src/tox_thread.c\<close>: the callbacks of toxcore, the table of pending invites and the commands of
  the user interface.  \<open>genv\<close> holds what toxcore answers in the turn: \<open>q_ok\<close> says whether the call that the
  handler makes succeeds, the other fields answer its queries.
\<close>

abbreviation (input) "TT_MAX_GROUP_INVITES \<equiv> (8 :: nat)"
abbreviation (input) "TT_GROUP_INVITE_DATA_MAX \<equiv> (512 :: nat)"
abbreviation (input) "TOX_GROUP_MAX_GROUP_NAME_LENGTH \<equiv> (48 :: nat)"
abbreviation (input) "TOX_GROUP_MAX_MESSAGE_LENGTH \<equiv> (1372 :: nat)"
abbreviation (input) "TOX_GROUP_MAX_TOPIC_LENGTH \<equiv> (512 :: nat)"
abbreviation (input) "TOX_GROUP_MAX_PASSWORD_SIZE \<equiv> (32 :: nat)"
abbreviation (input) "TT_MOD_EV_FAIL_BASE \<equiv> (100 :: int)"
abbreviation (input) "MOD_EVENT_KICK \<equiv> (0 :: int)"
abbreviation (input) "MOD_EVENT_OBSERVER \<equiv> (1 :: int)"
abbreviation (input) "MOD_EVENT_USER \<equiv> (2 :: int)"
abbreviation (input) "MOD_EVENT_MODERATOR \<equiv> (3 :: int)"

record TTGroupInvite =
  gi_used :: bool
  gi_fn :: nat
  gi_data :: bytes
  gi_name :: bytes

datatype group_call =
    GNew bool bytes bytes
  | GJoin bytes "bytes option" bytes
  | GLeave nat
  | GSend nat int bytes
  | GSendPrivate nat nat bytes
  | GSetTopic nat bytes
  | GInviteFriend nat int
  | GInviteAccept nat bytes bytes
  | GSetPassword nat "bytes option"
  | GSetPrivacy nat bool
  | GSetVoice nat int
  | GSetTopicLock nat bool
  | GSetPeerLimit nat nat
  | GSetRole nat nat int
  | GKick nat nat
  | GSetIgnore nat nat bool

record genv =
  q_ok :: bool
  q_gn :: nat
  q_self_name :: bytes
  q_group_name :: "nat \<Rightarrow> bytes"
  q_peer_name :: "nat \<Rightarrow> nat \<Rightarrow> bytes"
  q_peer_role :: "nat \<Rightarrow> nat \<Rightarrow> int"
  q_roster :: "nat \<Rightarrow> bytes list"
  q_self_pid :: "nat \<Rightarrow> nat option"
  q_self_role :: "nat \<Rightarrow> int"
  q_chat_id :: "nat \<Rightarrow> bytes option"
  q_topic :: "nat \<Rightarrow> bytes"
  q_voice :: "nat \<Rightarrow> int"
  q_topic_lock :: "nat \<Rightarrow> int"
  q_peer_limit :: "nat \<Rightarrow> nat"
  q_privacy :: "nat \<Rightarrow> int"

record gstate =
  gs_invites :: "TTGroupInvite list"
  gs_events :: "TTEvent list"
  gs_calls :: "group_call list"

definition group_push :: "TTEventType \<Rightarrow> nat \<Rightarrow> bytes \<Rightarrow> int \<Rightarrow> int \<Rightarrow> gstate \<Rightarrow> gstate" where
  "group_push ty gn s i i2 st =
     st \<lparr>gs_events := gs_events st @ [(tt_event_new ty) \<lparr>ev_fn := gn, ev_ival := i, ev_ival2 := i2, ev_str := (if s = [] then None else Some s)\<rparr>]\<rparr>"

definition g_call :: "group_call \<Rightarrow> gstate \<Rightarrow> gstate" where
  "g_call c st = st \<lparr>gs_calls := gs_calls st @ [c]\<rparr>"

section \<open>Callbacks\<close>

definition cb_group_message :: "nat \<Rightarrow> nat \<Rightarrow> int \<Rightarrow> bytes \<Rightarrow> gstate \<Rightarrow> gstate" where
  "cb_group_message gn pid ty msg st = group_push TT_EV_GROUP_MSG gn msg (int pid) ty st"

definition cb_group_private_message :: "nat \<Rightarrow> nat \<Rightarrow> int \<Rightarrow> bytes \<Rightarrow> gstate \<Rightarrow> gstate" where
  "cb_group_private_message gn pid ty msg st = group_push TT_EV_GROUP_PRIV_MSG gn msg (int pid) ty st"

definition cb_group_topic :: "nat \<Rightarrow> nat \<Rightarrow> bytes \<Rightarrow> gstate \<Rightarrow> gstate" where
  "cb_group_topic gn pid topic st = group_push TT_EV_GROUP_TOPIC gn topic 0 (int pid) st"

definition cb_group_peer_join :: "genv \<Rightarrow> nat \<Rightarrow> nat \<Rightarrow> gstate \<Rightarrow> gstate" where
  "cb_group_peer_join Q gn pid st =
     (let nm = take TOX_MAX_NAME_LENGTH (q_peer_name Q gn pid);
          st1 = group_push TT_EV_GROUP_PEER_JOIN gn [] (int pid) 0 st;
          st2 = (if nm \<noteq> [] then group_push TT_EV_GROUP_PEER_NAME gn nm (int pid) 0 st1 else st1)
      in group_push TT_EV_GROUP_PEER_ROLE gn [] (int pid) (q_peer_role Q gn pid) st2)"

definition cb_group_peer_exit :: "nat \<Rightarrow> nat \<Rightarrow> int \<Rightarrow> bytes \<Rightarrow> gstate \<Rightarrow> gstate" where
  "cb_group_peer_exit gn pid ty name st = group_push TT_EV_GROUP_PEER_EXIT gn name (int pid) ty st"

definition cb_group_peer_name :: "nat \<Rightarrow> nat \<Rightarrow> bytes \<Rightarrow> gstate \<Rightarrow> gstate" where
  "cb_group_peer_name gn pid name st = group_push TT_EV_GROUP_PEER_NAME gn name (int pid) 0 st"

definition cb_group_peer_status :: "nat \<Rightarrow> nat \<Rightarrow> int \<Rightarrow> gstate \<Rightarrow> gstate" where
  "cb_group_peer_status gn pid status st = group_push TT_EV_GROUP_PEER_STATUS gn [] (int pid) status st"

definition cb_group_moderation :: "genv \<Rightarrow> nat \<Rightarrow> nat \<Rightarrow> int \<Rightarrow> gstate \<Rightarrow> gstate" where
  "cb_group_moderation Q gn target mty st =
     group_push TT_EV_GROUP_MOD gn [] (int target) mty
       (if mty = MOD_EVENT_KICK \<and> q_self_pid Q gn = Some target then g_call (GLeave gn) st else st)"

definition cb_group_privacy_state :: "nat \<Rightarrow> int \<Rightarrow> gstate \<Rightarrow> gstate" where
  "cb_group_privacy_state gn s st = group_push TT_EV_GROUP_STATE gn [] s (-1) st"

definition cb_group_voice_state :: "nat \<Rightarrow> int \<Rightarrow> gstate \<Rightarrow> gstate" where
  "cb_group_voice_state gn s st = group_push TT_EV_GROUP_STATE gn [] (-1) s st"

definition cb_group_topic_lock :: "nat \<Rightarrow> int \<Rightarrow> gstate \<Rightarrow> gstate" where
  "cb_group_topic_lock gn s st = group_push TT_EV_GROUP_STATE gn [] (-2) s st"

definition cb_group_peer_limit :: "nat \<Rightarrow> u32 \<Rightarrow> gstate \<Rightarrow> gstate" where
  "cb_group_peer_limit gn limit st = group_push TT_EV_GROUP_STATE gn (print_u (unat limit)) (-3) (sint limit) st"

definition cb_group_password :: "nat \<Rightarrow> gstate \<Rightarrow> gstate" where
  "cb_group_password gn st = group_push TT_EV_GROUP_STATE gn [] (-4) 0 st"

definition cb_group_join_fail :: "nat \<Rightarrow> int \<Rightarrow> gstate \<Rightarrow> gstate" where
  "cb_group_join_fail gn fail_type st = g_call (GLeave gn) (group_push TT_EV_GROUP_JOIN_FAIL gn [] fail_type 0 st)"

definition cb_group_self_join :: "genv \<Rightarrow> nat \<Rightarrow> gstate \<Rightarrow> gstate" where
  "cb_group_self_join Q gn st = group_push TT_EV_GROUP_JOINED gn (take TOX_GROUP_MAX_GROUP_NAME_LENGTH (q_group_name Q gn)) 0 0 st"

definition invite_slot :: "TTGroupInvite list \<Rightarrow> nat" where
  "invite_slot is' = (case find (\<lambda>i. \<not> gi_used (is' ! i)) [0..<TT_MAX_GROUP_INVITES] of None \<Rightarrow> 0 | Some i \<Rightarrow> i)"

definition cb_group_invite :: "nat \<Rightarrow> bytes \<Rightarrow> bytes \<Rightarrow> gstate \<Rightarrow> gstate" where
  "cb_group_invite fn data name st =
     (if data = [] \<or> length data > TT_GROUP_INVITE_DATA_MAX then st
      else
        let i = invite_slot (gs_invites st); nm = take TOX_GROUP_MAX_GROUP_NAME_LENGTH name
        in group_push TT_EV_GROUP_INVITE fn nm 0 (int i)
             (st \<lparr>gs_invites := (gs_invites st)[i := \<lparr>gi_used = True, gi_fn = fn, gi_data = data, gi_name = nm\<rparr>]\<rparr>))"

section \<open>Commands\<close>

definition our_name :: "genv \<Rightarrow> bytes" where
  "our_name Q = (let n = take TOX_MAX_NAME_LENGTH (q_self_name Q) in if n = [] then [95] else n)"

definition handle_cmd_group_create :: "genv \<Rightarrow> bytes option \<Rightarrow> gstate \<Rightarrow> gstate" where
  "handle_cmd_group_create Q str st =
     (case str of
        None \<Rightarrow> st
      | Some s \<Rightarrow>
          if 10 \<notin> set s then st
          else
            let gname = takeWhile (\<lambda>c. c \<noteq> 10) s; pub = (tl (dropWhile (\<lambda>c. c \<noteq> 10) s) = ascii ''public'') in
            if gname = [] \<or> length gname > TOX_GROUP_MAX_GROUP_NAME_LENGTH then st
            else
              let st1 = g_call (GNew pub gname (our_name Q)) st
              in if q_ok Q then group_push TT_EV_GROUP_NEW (q_gn Q) gname 0 (if pub then 0 else 1) st1 else st1)"

definition handle_cmd_group_join :: "genv \<Rightarrow> bytes \<Rightarrow> bytes option \<Rightarrow> gstate \<Rightarrow> gstate" where
  "handle_cmd_group_join Q s pw st =
     (if length s \<noteq> 64 then st
      else case scan_key 32 s of
        None \<Rightarrow> st
      | Some cid \<Rightarrow> g_call (GJoin cid (case pw of None \<Rightarrow> None | Some p \<Rightarrow> if p = [] then None else Some p) (our_name Q)) st)"

definition cmd_group_join :: "genv \<Rightarrow> bytes option \<Rightarrow> gstate \<Rightarrow> gstate" where
  "cmd_group_join Q str st =
     (case str of
        None \<Rightarrow> st
      | Some s \<Rightarrow>
          let cid = takeWhile (\<lambda>c. c \<noteq> 10) s in
          if length cid \<noteq> 64 then st
          else handle_cmd_group_join Q cid (if 10 \<in> set s then Some (tl (dropWhile (\<lambda>c. c \<noteq> 10) s)) else None) st)"

definition cmd_group_leave :: "genv \<Rightarrow> nat \<Rightarrow> gstate \<Rightarrow> gstate" where
  "cmd_group_leave Q gn st = (let st1 = g_call (GLeave gn) st in if q_ok Q then group_push TT_EV_GROUP_LEFT gn [] 0 0 st1 else st1)"

definition handle_cmd_group_send :: "nat \<Rightarrow> bytes option \<Rightarrow> int \<Rightarrow> gstate \<Rightarrow> gstate" where
  "handle_cmd_group_send gn msg mtype st =
     (case msg of None \<Rightarrow> st | Some m \<Rightarrow> if m = [] then st else g_call (GSend gn mtype (take TOX_GROUP_MAX_MESSAGE_LENGTH m)) st)"

definition handle_cmd_group_priv_send :: "nat \<Rightarrow> nat \<Rightarrow> bytes option \<Rightarrow> gstate \<Rightarrow> gstate" where
  "handle_cmd_group_priv_send gn pid msg st =
     (case msg of None \<Rightarrow> st | Some m \<Rightarrow> if m = [] then st else g_call (GSendPrivate gn pid (take TOX_GROUP_MAX_MESSAGE_LENGTH m)) st)"

definition handle_cmd_group_topic :: "genv \<Rightarrow> nat \<Rightarrow> bytes option \<Rightarrow> gstate \<Rightarrow> gstate" where
  "handle_cmd_group_topic Q gn topic st =
     (case topic of
        None \<Rightarrow> st
      | Some s \<Rightarrow>
          let st1 = g_call (GSetTopic gn (take TOX_GROUP_MAX_TOPIC_LENGTH s)) st
          in if q_ok Q then group_push TT_EV_GROUP_TOPIC gn (take TOX_GROUP_MAX_TOPIC_LENGTH (q_topic Q gn)) 0 (-1) st1 else st1)"

definition cmd_group_invite :: "nat \<Rightarrow> int \<Rightarrow> gstate \<Rightarrow> gstate" where
  "cmd_group_invite gn friend st = g_call (GInviteFriend gn friend) st"

definition handle_cmd_group_invite_accept :: "genv \<Rightarrow> int \<Rightarrow> gstate \<Rightarrow> gstate" where
  "handle_cmd_group_invite_accept Q idx st =
     (if idx < 0 \<or> idx \<ge> int TT_MAX_GROUP_INVITES \<or> \<not> gi_used (gs_invites st ! nat idx) then st
      else
        let gi = gs_invites st ! nat idx;
            st1 = g_call (GInviteAccept (gi_fn gi) (gi_data gi) (our_name Q)) st;
            st2 = (if q_ok Q then group_push TT_EV_GROUP_JOINED (q_gn Q) (gi_name gi) 0 0 st1 else st1)
        in st2 \<lparr>gs_invites := (gs_invites st2)[nat idx := gi \<lparr>gi_used := False\<rparr>]\<rparr>)"

definition handle_cmd_group_invite_decline :: "int \<Rightarrow> gstate \<Rightarrow> gstate" where
  "handle_cmd_group_invite_decline idx st =
     (if idx < 0 \<or> idx \<ge> int TT_MAX_GROUP_INVITES \<or> \<not> gi_used (gs_invites st ! nat idx) then st
      else st \<lparr>gs_invites := (gs_invites st)[nat idx := (gs_invites st ! nat idx) \<lparr>gi_used := False\<rparr>]\<rparr>)"

definition cmd_group_password :: "nat \<Rightarrow> bytes option \<Rightarrow> gstate \<Rightarrow> gstate" where
  "cmd_group_password gn str st =
     (let p = (case str of None \<Rightarrow> [] | Some s \<Rightarrow> take TOX_GROUP_MAX_PASSWORD_SIZE s)
      in g_call (GSetPassword gn (if p = [] then None else Some p)) st)"

definition cmd_group_privacy :: "nat \<Rightarrow> int \<Rightarrow> gstate \<Rightarrow> gstate" where
  "cmd_group_privacy gn v st = g_call (GSetPrivacy gn (v = 0)) st"

definition cmd_group_voice :: "nat \<Rightarrow> int \<Rightarrow> gstate \<Rightarrow> gstate" where
  "cmd_group_voice gn v st = (if v < 0 \<or> v > 2 then st else g_call (GSetVoice gn v) st)"

definition cmd_group_topic_lock :: "nat \<Rightarrow> int \<Rightarrow> gstate \<Rightarrow> gstate" where
  "cmd_group_topic_lock gn v st = g_call (GSetTopicLock gn (v \<noteq> 0)) st"

definition cmd_group_peer_limit :: "nat \<Rightarrow> int \<Rightarrow> gstate \<Rightarrow> gstate" where
  "cmd_group_peer_limit gn v st = g_call (GSetPeerLimit gn (if v > 0 then nat v mod 65536 else 0)) st"

definition role_event :: "int \<Rightarrow> int" where
  "role_event v = (if v = 0 then MOD_EVENT_KICK + TT_MOD_EV_FAIL_BASE else if v = 1 then MOD_EVENT_MODERATOR
     else if v = 2 then MOD_EVENT_USER else MOD_EVENT_OBSERVER)"

definition cmd_group_role :: "genv \<Rightarrow> nat \<Rightarrow> nat \<Rightarrow> int \<Rightarrow> gstate \<Rightarrow> gstate" where
  "cmd_group_role Q gn pid v st =
     (if v < 0 \<or> v > 3 then st
      else group_push TT_EV_GROUP_MOD_SELF gn (if q_ok Q then take TOX_MAX_NAME_LENGTH (q_peer_name Q gn pid) else []) (int pid)
             (if q_ok Q then role_event v else TT_MOD_EV_FAIL_BASE + role_event v) (g_call (GSetRole gn pid v) st))"

definition cmd_group_kick :: "genv \<Rightarrow> nat \<Rightarrow> nat \<Rightarrow> gstate \<Rightarrow> gstate" where
  "cmd_group_kick Q gn pid st =
     (let nm = take TOX_MAX_NAME_LENGTH (q_peer_name Q gn pid); st1 = g_call (GKick gn pid) st
      in if q_ok Q then group_push TT_EV_GROUP_MOD_SELF gn nm (int pid) MOD_EVENT_KICK st1
         else group_push TT_EV_GROUP_MOD_SELF gn [] (int pid) (TT_MOD_EV_FAIL_BASE + MOD_EVENT_KICK) st1)"

definition cmd_group_ignore :: "genv \<Rightarrow> nat \<Rightarrow> nat \<Rightarrow> int \<Rightarrow> gstate \<Rightarrow> gstate" where
  "cmd_group_ignore Q gn pid v st =
     (let st1 = g_call (GSetIgnore gn pid (v \<noteq> 0)) st
      in if q_ok Q then group_push TT_EV_GROUP_IGNORE_SELF gn (take TOX_MAX_NAME_LENGTH (q_peer_name Q gn pid)) (int pid) (if v \<noteq> 0 then 1 else 0) st1
         else group_push TT_EV_GROUP_IGNORE_SELF gn [] (int pid) (TT_MOD_EV_FAIL_BASE + 1) st1)"

text \<open>\<open>q_roster\<close> lists the names toxcore answers for the peers 0, 1, and so on, up to the first failing query.\<close>

definition sync_peer :: "genv \<Rightarrow> nat \<Rightarrow> gstate \<Rightarrow> nat \<times> bytes \<Rightarrow> gstate" where
  "sync_peer Q gn st p =
     group_push TT_EV_GROUP_PEER_ROLE gn [] (int (fst p)) (q_peer_role Q gn (fst p))
       (group_push TT_EV_GROUP_PEER_NAME gn (take TOX_MAX_NAME_LENGTH (snd p)) (int (fst p)) 0 st)"

definition cmd_group_sync :: "genv \<Rightarrow> nat \<Rightarrow> gstate \<Rightarrow> gstate" where
  "cmd_group_sync Q gn st =
     (let names = takeWhile (\<lambda>n. n \<noteq> []) (q_roster Q gn);
          st1 = foldl (sync_peer Q gn) st (zip [0..<length names] names);
          st2 = (case q_chat_id Q gn of None \<Rightarrow> st1 | Some cid \<Rightarrow> group_push TT_EV_GROUP_STATE gn (hex_bytes cid) (-5) 0 st1);
          st3 = group_push TT_EV_GROUP_STATE gn [] (-6) (q_self_role Q gn) st2;
          st4 = (case q_self_pid Q gn of None \<Rightarrow> st3 | Some p \<Rightarrow> group_push TT_EV_GROUP_STATE gn [] (-11) (int p) st3);
          st5 = group_push TT_EV_GROUP_STATE gn [] (-7) (q_voice Q gn) st4;
          st6 = group_push TT_EV_GROUP_STATE gn [] (-8) (q_topic_lock Q gn) st5;
          st7 = group_push TT_EV_GROUP_STATE gn (print_u (q_peer_limit Q gn)) (-9) 0 st6;
          st8 = group_push TT_EV_GROUP_STATE gn [] (-10) (q_privacy Q gn) st7
      in group_push TT_EV_GROUP_TOPIC gn (take TOX_GROUP_MAX_TOPIC_LENGTH (q_topic Q gn)) 0 (-1) st8)"

section \<open>Prompts and slots\<close>

text \<open>
  What the user sees: a prompt per invite, which carries a slot number, until it is answered.  \<open>open_prompts\<close> follows
  the inputs and remembers, for every slot number of an unanswered prompt, the invite that the prompt showed first.
\<close>

datatype group_input = Invited nat bytes bytes | Accepted int genv | Declined int

fun group_input_step :: "gstate \<Rightarrow> group_input \<Rightarrow> gstate" where
  "group_input_step st (Invited fn d n) = cb_group_invite fn d n st"
| "group_input_step st (Accepted i Q) = handle_cmd_group_invite_accept Q i st"
| "group_input_step st (Declined i) = handle_cmd_group_invite_decline i st"

type_synonym prompts = "nat \<rightharpoonup> (nat \<times> bytes)"

fun prompts_step :: "prompts \<Rightarrow> gstate \<Rightarrow> group_input \<Rightarrow> prompts" where
  "prompts_step ps st (Invited fn d n) =
     (if d = [] \<or> length d > TT_GROUP_INVITE_DATA_MAX then ps
      else let i = invite_slot (gs_invites st) in if ps i = None then ps(i \<mapsto> (fn, d)) else ps)"
| "prompts_step ps st (Accepted i Q) = ps(nat i := None)"
| "prompts_step ps st (Declined i) = ps(nat i := None)"

fun group_run :: "prompts \<times> gstate \<Rightarrow> group_input list \<Rightarrow> prompts \<times> gstate" where
  "group_run p [] = p"
| "group_run p (x # xs) = group_run (prompts_step (fst p) (snd p) x, group_input_step (snd p) x) xs"

text \<open>No invite arrives while all slots are taken.\<close>

fun never_full :: "gstate \<Rightarrow> group_input list \<Rightarrow> bool" where
  "never_full st [] = True"
| "never_full st (x # xs) =
     ((case x of Invited _ _ _ \<Rightarrow> \<exists>i < TT_MAX_GROUP_INVITES. \<not> gi_used (gs_invites st ! i) | Accepted i _ \<Rightarrow> 0 \<le> i | Declined i \<Rightarrow> 0 \<le> i) \<and>
      never_full (group_input_step st x) xs)"

definition prompts_match :: "prompts \<times> gstate \<Rightarrow> bool" where
  "prompts_match p \<longleftrightarrow> length (gs_invites (snd p)) = 8 \<and>
     (\<forall>i < 8. case fst p i of
        None \<Rightarrow> \<not> gi_used (gs_invites (snd p) ! i)
      | Some (fn, d) \<Rightarrow> gi_used (gs_invites (snd p) ! i) \<and> gi_fn (gs_invites (snd p) ! i) = fn \<and> gi_data (gs_invites (snd p) ! i) = d)"

lemma free_slot:
  assumes "\<exists>i < 8. \<not> gi_used (is' ! i)"
  shows "invite_slot is' < 8" "\<not> gi_used (is' ! invite_slot is')"
proof -
  from assms have "find (\<lambda>i. \<not> gi_used (is' ! i)) [0..<8] \<noteq> None" by (auto simp: find_None_iff)
  then obtain i where i: "find (\<lambda>i. \<not> gi_used (is' ! i)) [0..<8] = Some i" by blast
  then have "invite_slot is' = i" by (simp add: invite_slot_def)
  moreover have "i < 8" "\<not> gi_used (is' ! i)" using i by (auto simp: find_Some_iff)
  ultimately show "invite_slot is' < 8" "\<not> gi_used (is' ! invite_slot is')" by simp_all
qed

lemma push_invites [simp]: "gs_invites (group_push ty gn s i j st) = gs_invites st"
  by (simp add: group_push_def)

lemma call_invites [simp]: "gs_invites (g_call c st) = gs_invites st"
  by (simp add: g_call_def)

lemma prompts_step_match:
  assumes "prompts_match (ps, st)" "never_full st (x # xs)"
  shows "prompts_match (prompts_step ps st x, group_input_step st x)"
proof (cases x)
  case (Invited fn d n)
  show ?thesis
  proof (cases "d = [] \<or> length d > 512")
    case False
    let ?i = "invite_slot (gs_invites st)"
    note f = free_slot [of "gs_invites st"]
    have i: "?i < 8" "\<not> gi_used (gs_invites st ! ?i)" using f assms(2) Invited by auto
    have l: "length (gs_invites st) = 8" using assms(1) by (simp add: prompts_match_def)
    have "case ps ?i of None \<Rightarrow> True | Some (fn, d) \<Rightarrow> gi_used (gs_invites st ! ?i)"
      using assms(1) i(1) unfolding prompts_match_def by (fastforce split: option.splits)
    then have "ps ?i = None" using i(2) by (auto split: option.splits)
    then show ?thesis using assms(1) i l False Invited
      by (auto simp: prompts_match_def cb_group_invite_def nth_list_update Let_def split: option.splits)
  qed (use assms Invited in \<open>simp add: cb_group_invite_def\<close>)
next
  case (Accepted i Q)
  have l: "length (gs_invites st) = 8" "0 \<le> i" using assms Accepted by (simp_all add: prompts_match_def)
  show ?thesis
    using assms(1) l Accepted
    by (auto simp: prompts_match_def handle_cmd_group_invite_accept_def nth_list_update Let_def split: option.splits)
next
  case (Declined i)
  have l: "length (gs_invites st) = 8" "0 \<le> i" using assms Declined by (simp_all add: prompts_match_def)
  show ?thesis
    using assms(1) l Declined
    by (auto simp: prompts_match_def handle_cmd_group_invite_decline_def nth_list_update split: option.splits)
qed

lemma group_run_match:
  assumes "prompts_match p" "never_full (snd p) xs"
  shows "prompts_match (group_run p xs)"
  using assms
proof (induction xs arbitrary: p)
  case (Cons x xs)
  then show ?case using prompts_step_match [of "fst p" "snd p" x xs] by simp
qed simp

text \<open>As long as no group invite arrives while eight are unanswered, accepting a prompt joins the group that the
  prompt showed: the call to toxcore carries the friend and the data of that very invite.\<close>

theorem accepted_invite_is_the_one_shown:
  assumes "never_full st0 xs" "length (gs_invites st0) = 8" "\<forall>i < 8. \<not> gi_used (gs_invites st0 ! i)"
    and "group_run (Map.empty, st0) xs = (ps, st)" "ps i = Some (fn, d)" "i < 8"
  shows "gs_calls (handle_cmd_group_invite_accept Q (int i) st) = gs_calls st @ [GInviteAccept fn d (our_name Q)]"
proof -
  have "prompts_match (Map.empty, st0)" using assms(2,3) by (simp add: prompts_match_def)
  from group_run_match [OF this, of xs] assms(1,4) have m: "prompts_match (ps, st)" by simp
  then have "gi_used (gs_invites st ! i)" "gi_fn (gs_invites st ! i) = fn" "gi_data (gs_invites st ! i) = d"
    using assms(5,6) by (auto simp: prompts_match_def split: option.splits)
  then show ?thesis using assms(6)
    by (simp add: handle_cmd_group_invite_accept_def g_call_def group_push_def Let_def)
qed

definition demo_gstate :: gstate where
  "demo_gstate = \<lparr>gs_invites = replicate 8 \<lparr>gi_used = False, gi_fn = 0, gi_data = [], gi_name = []\<rparr>, gs_events = [], gs_calls = []\<rparr>"

definition demo_genv :: genv where
  "demo_genv = \<lparr>q_ok = True, q_gn = 0, q_self_name = [], q_group_name = (\<lambda>_. []), q_peer_name = (\<lambda>_ _. []), q_peer_role = (\<lambda>_ _. 2),
     q_roster = (\<lambda>_. []), q_self_pid = (\<lambda>_. None), q_self_role = (\<lambda>_. 2), q_chat_id = (\<lambda>_. None), q_topic = (\<lambda>_. []), q_voice = (\<lambda>_. 0),
     q_topic_lock = (\<lambda>_. 0), q_peer_limit = (\<lambda>_. 100), q_privacy = (\<lambda>_. 0)\<rparr>"

theorem accepted_invite_is_the_one_shown_witness:
  "gs_calls (handle_cmd_group_invite_accept demo_genv 0 (cb_group_invite 3 [1, 2] [97] demo_gstate)) = [GInviteAccept 3 [1, 2] [95]]"
proof -
  have f: "invite_slot (gs_invites demo_gstate) = 0" by (simp add: invite_slot_def demo_gstate_def upt_conv_Cons)
  have r: "group_run (Map.empty, demo_gstate) [Invited 3 [1, 2] [97]] = ([0 \<mapsto> (3, [1, 2])], cb_group_invite 3 [1, 2] [97] demo_gstate)"
    by (simp add: f)
  have n: "never_full demo_gstate [Invited 3 [1, 2] [97]]" by (auto simp: demo_gstate_def intro!: exI [of _ 0])
  have l: "length (gs_invites demo_gstate) = 8" "\<forall>i < 8. \<not> gi_used (gs_invites demo_gstate ! i)" by (simp_all add: demo_gstate_def)
  have "gs_calls (handle_cmd_group_invite_accept demo_genv (int 0) (cb_group_invite 3 [1, 2] [97] demo_gstate)) =
      gs_calls (cb_group_invite 3 [1, 2] [97] demo_gstate) @ [GInviteAccept 3 [1, 2] (our_name demo_genv)]"
    by (rule accepted_invite_is_the_one_shown [OF n l r]) simp_all
  moreover have "gs_calls (cb_group_invite 3 [1, 2] [97] demo_gstate) = []" "our_name demo_genv = [95]"
    by (simp_all add: cb_group_invite_def group_push_def demo_gstate_def our_name_def demo_genv_def Let_def)
  ultimately show ?thesis by simp
qed

text \<open>When all eight slots are taken, the next invite silently replaces slot 0: the prompt that the user already sees for
  slot 0 then accepts the newcomer's invite, not the one it shows.\<close>

theorem full_table_swaps_invite:
  assumes "length (gs_invites st) = 8" "\<forall>i < 8. gi_used (gs_invites st ! i)" "d \<noteq> []" "length d \<le> 512"
  shows "gs_calls (handle_cmd_group_invite_accept Q 0 (cb_group_invite fn d n st)) = gs_calls st @ [GInviteAccept fn d (our_name Q)]"
proof -
  have "find (\<lambda>i. \<not> gi_used (gs_invites st ! i)) [0..<8] = None" using assms(2) by (simp add: find_None_iff)
  then have "invite_slot (gs_invites st) = 0" by (simp add: invite_slot_def)
  then show ?thesis using assms(1,3,4)
    by (simp add: cb_group_invite_def handle_cmd_group_invite_accept_def g_call_def group_push_def Let_def)
qed

theorem full_table_swaps_invite_witness:
  "let st = demo_gstate \<lparr>gs_invites := replicate 8 \<lparr>gi_used = True, gi_fn = 1, gi_data = [7], gi_name = []\<rparr>\<rparr>
   in gs_calls (handle_cmd_group_invite_accept demo_genv 0 (cb_group_invite 3 [1, 2] [97] st)) = [GInviteAccept 3 [1, 2] (our_name demo_genv)]"
  unfolding Let_def by (subst full_table_swaps_invite) (simp_all add: demo_gstate_def)

end
