(* ===== verification/Startup.thy ===== *)
theory Startup
  imports Group
begin

text \<open>
  The start of the tox thread, \<^verbatim>\<open>tox_thread_main\<close> of \<^verbatim>\<open>src/src/tox_thread.c\<close>: the choice of a proxy, the passphrase and
  the two keys derived from it, loading the profile, what is restored from the files next to it and reported
  to the user interface, the upkeep of the main loop and what is written at the end.

  \<open>benv\<close> is the world at start: environment variables, the passphrase dialog, the disk operations that can fail,
  toxencryptsave and whether \<^verbatim>\<open>tox_new\<close> accepts the options.  Allocation succeeds.
\<close>

section \<open>Savedata\<close>

text \<open>
  The blob of toxcore: an eight byte header, then sections of length, type cookie (both little endian) and
  payload.  The caller bounds the blob by 4 MiB, so the 32-bit sum of the code does not wrap.
\<close>

definition le32 :: "u32 \<Rightarrow> bytes" where
  "le32 v = rev (be32 v)"

definition le_at :: "nat \<Rightarrow> bytes \<Rightarrow> u32" where
  "le_at i b = rd32 (b ! (i + 3)) (b ! (i + 2)) (b ! (i + 1)) (b ! i)"

definition low16 :: "u32 \<Rightarrow> nat" where
  "low16 v = unat v mod 65536"

abbreviation (input) "STATE_TYPE_DHT \<equiv> (2 :: nat)"
abbreviation (input) "STATE_TYPE_END \<equiv> (255 :: nat)"

function strip_loop :: "bytes \<Rightarrow> bytes \<Rightarrow> nat \<Rightarrow> bool \<Rightarrow> bytes \<times> nat \<times> bool" where
  "strip_loop buf out r stripped =
     (if r + 8 > length buf then (out, r, stripped)
      else
        let slen = unat (le_at r buf); ty = low16 (le_at (r + 4) buf); whole = 8 + slen in
        if slen > length buf - (r + 8) then (out, r, stripped)
        else if ty = STATE_TYPE_DHT then strip_loop buf out (r + whole) True
        else
          let out1 = out @ take whole (drop r buf) in
          if ty = STATE_TYPE_END then (out1, r + whole, stripped) else strip_loop buf out1 (r + whole) stripped)"
  by pat_completeness auto
termination
  by (relation "measure (\<lambda>(buf, out, r, s). length buf - r)") auto

declare strip_loop.simps [simp del]

definition savedata_strip_dht :: "bytes \<Rightarrow> bytes option" where
  "savedata_strip_dht buf =
     (if length buf < 16 \<or> buf ! 0 \<noteq> 0 \<or> le_at 4 buf \<noteq> 0x15ed1b1f then None
      else case strip_loop buf (take 8 buf) 8 False of
        (out, r, stripped) \<Rightarrow> if r \<noteq> length buf \<or> \<not> stripped then None else Some out)"

section \<open>Options, passphrase, keys\<close>

record tox_options =
  o_proxy :: "(bytes \<times> nat) option"
  o_udp :: bool
  o_local_discovery :: bool
  o_hole_punching :: bool
  o_savedata :: "bytes option"

record benv =
  b_profile :: "string option"
  b_proxy_host :: "bytes option"
  b_proxy_port :: "bytes option"
  b_passphrase :: "bytes option"
  b_gui :: bool
  b_dialog :: "bytes option"
  b_tty :: bool
  b_getpass :: "bytes option"
  b_toxes :: toxes
  b_get_salt :: "bytes \<Rightarrow> bytes option"
  b_derive_with_salt :: "bytes \<Rightarrow> bytes \<Rightarrow> bytes option"
  b_derive :: "nat \<Rightarrow> bytes \<Rightarrow> bytes option"
  b_open :: "string \<Rightarrow> bool"
  b_read :: bool
  b_tox_new :: "tox_options \<Rightarrow> bool"

text \<open>What \<^verbatim>\<open>tox_options_new\<close> gives.\<close>

definition default_options :: tox_options where
  "default_options = \<lparr>o_proxy = None, o_udp = True, o_local_discovery = True, o_hole_punching = True, o_savedata = None\<rparr>"

definition atol :: "bytes \<Rightarrow> int" where
  "atol s = (case scan_ld s of None \<Rightarrow> 0 | Some n \<Rightarrow> n)"

definition proxy_port :: "int \<Rightarrow> int" where
  "proxy_port p = (if p \<le> 0 \<or> p > 65535 then 9050 else p)"

text \<open>The environment comes before the settings file; an empty host means no proxy.\<close>

definition proxy_choice :: "benv \<Rightarrow> disk \<Rightarrow> bytes \<times> int" where
  "proxy_choice B d =
     (let set = tt_settings_load (b_profile B) d in
      case b_proxy_host B of
        Some (c # cs) \<Rightarrow>
          (take 63 (c # cs), proxy_port (case b_proxy_port B of Some (p # ps) \<Rightarrow> atol (p # ps) | _ \<Rightarrow> 9050))
      | _ \<Rightarrow> if set_proxy_set set then (set_proxy_host set, proxy_port (set_proxy_port set)) else ([], 0))"

definition ip_host :: "bytes \<Rightarrow> bool" where
  "ip_host h \<longleftrightarrow> list_all (\<lambda>c. is_digit c \<or> c = 46) h"

text \<open>\<^const>\<open>None\<close>: refuse to start.\<close>

definition set_proxy :: "bytes \<times> int \<Rightarrow> tox_options option" where
  "set_proxy c =
     (case c of (host, port) \<Rightarrow>
        if host = [] then Some default_options
        else if \<not> ip_host host then None
        else Some (default_options \<lparr>o_proxy := Some (host, nat port), o_udp := False, o_local_discovery := False, o_hole_punching := False\<rparr>))"

text \<open>
  The dialog of the user interface answers with a passphrase or is cancelled.
\<close>

definition tt_passphrase_acquire :: "benv \<Rightarrow> bytes option" where
  "tt_passphrase_acquire B =
     (case b_passphrase B of
        Some (c # cs) \<Rightarrow> Some (c # cs)
      | _ \<Rightarrow> if b_gui B then b_dialog B else if b_tty B then b_getpass B else None)"

definition read_salt :: "benv \<Rightarrow> string \<Rightarrow> disk \<Rightarrow> bytes option" where
  "read_salt B path d =
     (case d path of
        None \<Rightarrow> None
      | Some c \<Rightarrow>
          let head = take TOX_PASS_ENCRYPTION_EXTRA_LENGTH c in
          if b_open B path \<and> length head = TOX_PASS_ENCRYPTION_EXTRA_LENGTH \<and> te_is_encrypted (b_toxes B) head then b_get_salt B head else None)"

text \<open>\<open>b_derive i\<close> draws a fresh salt for the i-th derivation.\<close>

definition derive_key :: "benv \<Rightarrow> nat \<Rightarrow> string option \<Rightarrow> bytes \<Rightarrow> disk \<Rightarrow> bytes option" where
  "derive_key B i file pass d =
     (case Option.bind file (\<lambda>p. read_salt B p d) of
        Some salt \<Rightarrow> b_derive_with_salt B pass salt
      | None \<Rightarrow> b_derive B i pass)"

section \<open>The profile\<close>

datatype loaded = NoSavedata | WrongKey | Savedata bytes

definition load_profile :: "benv \<Rightarrow> bytes \<Rightarrow> bool \<Rightarrow> disk \<Rightarrow> loaded" where
  "load_profile B key tor_mode d =
     (case Option.bind (b_profile B) (\<lambda>p. if b_open B p then d p else None) of
        None \<Rightarrow> NoSavedata
      | Some buf \<Rightarrow>
          if length buf = 0 \<or> length buf > 4 * 1024 * 1024 \<or> \<not> b_read B then NoSavedata
          else
            case (if length buf \<ge> TOX_PASS_ENCRYPTION_EXTRA_LENGTH \<and> te_is_encrypted (b_toxes B) buf
                  then te_decrypt (b_toxes B) key buf else Some buf) of
              None \<Rightarrow> WrongKey
            | Some sd \<Rightarrow>
                Savedata (if tor_mode then (case savedata_strip_dht sd of Some s \<Rightarrow> s | None \<Rightarrow> sd) else sd))"

section \<open>Starting\<close>

datatype boot_error = HostnameProxy | NoPassphrase | NoPassKey | NoSessionKey | WrongPassphrase | ToxNewFailed

record booted =
  bt_options :: tox_options
  bt_pass_key :: bytes
  bt_session_key :: bytes
  bt_tor_mode :: bool

definition boot :: "benv \<Rightarrow> disk \<Rightarrow> boot_error + booted" where
  "boot B d =
     (case set_proxy (proxy_choice B d) of
        None \<Rightarrow> Inl HostnameProxy
      | Some opts \<Rightarrow>
          let tor_mode = (o_proxy opts \<noteq> None) in
          case tt_passphrase_acquire B of
            None \<Rightarrow> Inl NoPassphrase
          | Some pass \<Rightarrow>
              (case derive_key B 0 (b_profile B) pass d of
                 None \<Rightarrow> Inl NoPassKey
               | Some key \<Rightarrow>
                   (case derive_key B 1 (map_option (\<lambda>p. p @ ''.ses'') (b_profile B)) pass d of
                      None \<Rightarrow> Inl NoSessionKey
                    | Some skey \<Rightarrow>
                        (case load_profile B key tor_mode d of
                           WrongKey \<Rightarrow> Inl WrongPassphrase
                         | l \<Rightarrow>
                             let opts1 = (case l of Savedata sd \<Rightarrow> opts \<lparr>o_savedata := Some sd\<rparr> | _ \<Rightarrow> opts) in
                             if b_tox_new B opts1
                             then Inr \<lparr>bt_options = opts1, bt_pass_key = key, bt_session_key = skey, bt_tor_mode = tor_mode\<rparr>
                             else Inl ToxNewFailed))))"

section \<open>What is reported and restored\<close>

record fenv_friend =
  ff_name :: bytes
  ff_connection :: int
  ff_status_msg :: bytes
  ff_status :: int

definition emit_friend :: "cenv \<Rightarrow> (nat \<Rightarrow> fenv_friend) \<Rightarrow> cstate \<Rightarrow> nat \<Rightarrow> cstate" where
  "emit_friend X who st fn =
     (let f = who fn;
          st1 = c_note TT_EV_FRIEND_NAME fn (Some (take TOX_MAX_NAME_LENGTH (ff_name f))) 0 st;
          st2 = c_note TT_EV_FRIEND_CONNECTION fn None (ff_connection f) st1;
          st3 = c_note TT_EV_FRIEND_STATUS_MSG fn (Some (take TOX_MAX_STATUS_MESSAGE_LENGTH (ff_status_msg f))) 0 st2;
          st4 = c_note TT_EV_FRIEND_STATUS fn None (ff_status f) st3
      in st4 \<lparr>c_eng := emit_friend_identity (w_eng X) fn (c_eng st4)\<rparr>)"

definition emit_initial_friend_list :: "cenv \<Rightarrow> (nat \<Rightarrow> fenv_friend) \<Rightarrow> nat list \<Rightarrow> cstate \<Rightarrow> cstate" where
  "emit_initial_friend_list X who friends st = c_note TT_EV_FRIEND_LIST_END 0 None 0 (foldl (emit_friend X who) st friends)"

text \<open>
  \<open>before\<close> are the groups toxcore lists at start, with whether each is connected (\<^const>\<open>None\<close> when it cannot say);
  \<open>after\<close> the groups of the second listing, without those that were left, \<open>known\<close> whether the name query succeeds.
\<close>

definition leave_dead :: "gstate \<Rightarrow> nat \<times> bool option \<Rightarrow> gstate" where
  "leave_dead st g = (if snd g = Some False then g_call (GLeave (fst g)) st else st)"

definition emit_group :: "genv \<Rightarrow> (nat \<Rightarrow> bool) \<Rightarrow> gstate \<Rightarrow> nat \<Rightarrow> gstate" where
  "emit_group Q known st gn =
     (if \<not> known gn then st
      else
        let st1 = group_push TT_EV_GROUP_JOINED gn (take TOX_GROUP_MAX_GROUP_NAME_LENGTH (q_group_name Q gn)) 0 (q_privacy Q gn) st;
            topic = take TOX_GROUP_MAX_TOPIC_LENGTH (q_topic Q gn)
        in if topic \<noteq> [] then group_push TT_EV_GROUP_TOPIC gn topic 0 (-1) st1 else st1)"

definition emit_initial_group_list :: "genv \<Rightarrow> (nat \<Rightarrow> bool) \<Rightarrow> (nat \<times> bool option) list \<Rightarrow> nat list \<Rightarrow> gstate \<Rightarrow> gstate" where
  "emit_initial_group_list Q known before after st = foldl (emit_group Q known) (foldl leave_dead st before) after"

definition publish_self :: "cenv \<Rightarrow> bytes \<Rightarrow> bytes \<Rightarrow> int \<Rightarrow> cstate \<Rightarrow> cstate" where
  "publish_self X name msg status st =
     (let st1 = publish_toxid X st;
          st2 = c_note TT_EV_SELF_NAME 0 (Some (take TOX_MAX_NAME_LENGTH name)) 0 st1;
          st3 = c_note TT_EV_SELF_STATUS_MSG 0 (Some (take TOX_MAX_STATUS_MESSAGE_LENGTH msg)) 0 st2
      in c_note TT_EV_SELF_STATUS 0 None status st3)"

definition restore_avatar :: "eenv \<Rightarrow> engine \<Rightarrow> engine" where
  "restore_avatar X e =
     (let e1 = e \<lparr>en_files := avatar_persist_load (v_files X) (en_files e)\<rparr>; a = fs_self (en_files e1)
      in if av_has a then en_push ((tt_event_new TT_EV_AVATAR_SELF) \<lparr>ev_str := Some (take (av_size a) (av_data a))\<rparr>) e1 else e1)"

definition restore_queue :: "eenv \<Rightarrow> engine \<Rightarrow> engine" where
  "restore_queue X e =
     (let E = v_files X; fs = en_files e in
      e \<lparr>en_oq := tt_oq_load (f_toxes E) (f_io E) (en_oq e) (f_profile E) (f_key E) (fs_disk fs),
         en_files := fs \<lparr>fs_resume := tt_resume_load (f_toxes E) (f_io E) (f_profile E) (f_key E) (fs_disk fs)\<rparr>\<rparr>)"

text \<open>One friend of the loop over the restored sessions.\<close>

definition restore_session :: "eenv \<Rightarrow> engine \<Rightarrow> nat \<Rightarrow> engine" where
  "restore_session X e fn =
     (if \<not> s_active (en_e2ee e fn) then e
      else
        e2ee_push_state X fn True
          (if \<not> en_required e fn
           then en_note TT_EV_E2EE_ENFORCE fn None 1 (policy_store X (e \<lparr>en_required := (en_required e)(fn := True)\<rparr>))
           else e))"

definition restore_e2ee :: "eenv \<Rightarrow> bytes option \<Rightarrow> engine \<Rightarrow> engine" where
  "restore_e2ee X skey e =
     (if \<not> v_mode X then e
      else
        let E = v_files X; d = fs_disk (en_files e);
            e1 = e \<lparr>en_required := tt_settings_load_e2ee (f_profile E) d\<rparr>;
            e2 = foldl (\<lambda>e fn. if en_required e fn then en_note TT_EV_E2EE_ENFORCE fn None 1 e else e) e1 [0..<TT_MAX_FRIENDS];
            ses = tt_session_store_load (f_toxes E) (f_io E) (replicate TT_MAX_FRIENDS tt_session_init) (f_profile E) skey d
        in foldl (restore_session X) (e2 \<lparr>en_e2ee := (\<lambda>fn. if fn < TT_MAX_FRIENDS then ses ! fn else tt_session_init)\<rparr>) [0..<TT_MAX_FRIENDS])"

section \<open>Upkeep and shutdown\<close>

definition dht_upkeep :: "cenv \<Rightarrow> bool \<Rightarrow> cstate \<Rightarrow> cstate" where
  "dht_upkeep X tor_mode st =
     (let now = v_now (w_eng X); since = now - c_last_bootstrap st
      in if since \<ge> (if en_self_online (c_eng st) then 300 else 10)
         then (bootstrap_all X tor_mode st) \<lparr>c_last_bootstrap := now\<rparr> else st)"

definition shutdown_save :: "cenv \<Rightarrow> cstate \<Rightarrow> cstate" where
  "shutdown_save X st =
     (let E = v_files (w_eng X); st1 = save_profile X st; e = c_eng st1
      in c_disk (\<lambda>d0.
           let d1 = tt_oq_save (f_toxes E) (f_io E) (en_oq e) (f_profile E) (f_key E) d0;
               d2 = tt_resume_save (f_toxes E) (f_io E) (fs_resume (en_files e)) (f_profile E) (f_key E) d1
           in if v_mode (w_eng X)
              then tt_session_store_save (f_toxes E) (f_io E) (map (en_e2ee e) [0..<TT_MAX_FRIENDS]) (f_profile E) (w_session_key X) d2
              else d2) st1)"

section \<open>Stripping the savedata\<close>

text \<open>A section as toxcore writes it, and a blob of sections.\<close>

definition section_put :: "u32 \<times> bytes \<Rightarrow> bytes" where
  "section_put s = le32 (of_nat (length (snd s))) @ le32 (fst s) @ snd s"

definition of_type :: "nat \<Rightarrow> u32 \<times> bytes \<Rightarrow> bool" where
  "of_type ty s \<longleftrightarrow> low16 (fst s) = ty"

definition savedata_of :: "bytes \<Rightarrow> (u32 \<times> bytes) list \<Rightarrow> bytes" where
  "savedata_of hdr ss = hdr @ concat (map section_put ss)"

definition savedata_ok :: "bytes \<Rightarrow> (u32 \<times> bytes) list \<Rightarrow> bool" where
  "savedata_ok hdr ss \<longleftrightarrow> length hdr = 8 \<and> hdr ! 0 = 0 \<and> le_at 4 hdr = 0x15ed1b1f \<and> ss \<noteq> [] \<and>
     (\<forall>s \<in> set ss. length (snd s) < 2 ^ 32) \<and> of_type STATE_TYPE_END (List.last ss) \<and> (\<forall>s \<in> set (butlast ss). \<not> of_type STATE_TYPE_END s)"

lemma length_le32 [simp]: "length (le32 v) = 4"
  by (simp add: le32_def)

lemma le_at_le32: "i = length xs \<Longrightarrow> le_at i (xs @ le32 v @ ys) = v"
  by (simp add: le_at_def le32_def be32_def nth_append)

lemma length_section_put [simp]: "length (section_put s) = 8 + length (snd s)"
  by (simp add: section_put_def)

lemma section_fields:
  assumes "r = length pre" "length (snd s) < 2 ^ 32"
  shows "unat (le_at r (pre @ section_put s @ post)) = length (snd s)" "le_at (r + 4) (pre @ section_put s @ post) = fst s"
proof -
  have "le_at r (pre @ section_put s @ post) = of_nat (length (snd s))"
    using le_at_le32 [OF assms(1), of "of_nat (length (snd s))" "le32 (fst s) @ snd s @ post"] by (simp add: section_put_def)
  then show "unat (le_at r (pre @ section_put s @ post)) = length (snd s)" using assms(2) by (simp add: unsigned_of_nat take_bit_nat_eq_self)
  show "le_at (r + 4) (pre @ section_put s @ post) = fst s"
    using le_at_le32 [of "r + 4" "pre @ le32 (of_nat (length (snd s)))" "fst s" "snd s @ post"] assms(1) by (simp add: section_put_def)
qed

lemma strip_loop_section:
  assumes "r = length pre" "length (snd s) < 2 ^ 32" "buf = pre @ section_put s @ post"
  shows "strip_loop buf out r stripped =
    (if of_type STATE_TYPE_DHT s then strip_loop buf out (r + length (section_put s)) True
     else if of_type STATE_TYPE_END s then (out @ section_put s, r + length (section_put s), stripped)
     else strip_loop buf (out @ section_put s) (r + length (section_put s)) stripped)"
proof -
  have f: "unat (le_at r buf) = length (snd s)" "le_at (r + 4) buf = fst s" using section_fields [OF assms(1,2)] assms(3) by simp_all
  have b: "\<not> r + 8 > length buf" "\<not> length (snd s) > length buf - (r + 8)" using assms(1,3) by simp_all
  have t: "take (8 + length (snd s)) (drop r buf) = section_put s" using assms(1,3) by simp
  show ?thesis by (subst strip_loop.simps) (simp add: f b t of_type_def Let_def)
qed

lemma strip_loop_all:
  assumes "buf = pre @ concat (map section_put ss)" "ss \<noteq> []" "\<forall>s \<in> set ss. length (snd s) < 2 ^ 32"
    "of_type STATE_TYPE_END (List.last ss)" "\<forall>s \<in> set (butlast ss). \<not> of_type STATE_TYPE_END s"
  shows "strip_loop buf out (length pre) stripped =
    (out @ concat (map section_put (filter (\<lambda>s. \<not> of_type STATE_TYPE_DHT s) ss)), length buf, stripped \<or> list_ex (of_type STATE_TYPE_DHT) ss)"
  using assms
proof (induction ss arbitrary: pre out stripped)
  case (Cons s ss)
  have b: "buf = pre @ section_put s @ concat (map section_put ss)" using Cons.prems(1) by simp
  note step = strip_loop_section [OF refl _ b, of out stripped]
  show ?case
  proof (cases "ss = []")
    case True
    then have "of_type STATE_TYPE_END s" "\<not> of_type STATE_TYPE_DHT s" using Cons.prems(4) by (auto simp: of_type_def)
    then show ?thesis using step Cons.prems(3) b True by simp
  next
    case False
    have "buf = (pre @ section_put s) @ concat (map section_put ss)" using b by simp
    note IH = Cons.IH [OF this False]
    have "\<not> of_type STATE_TYPE_END s" using Cons.prems(5) False by simp
    then show ?thesis using step IH Cons.prems(3,4,5) False by (cases "of_type STATE_TYPE_DHT s") simp_all
  qed
qed simp

lemma strip_savedata:
  assumes "savedata_ok hdr ss"
  shows "savedata_strip_dht (savedata_of hdr ss) =
    (if list_ex (of_type STATE_TYPE_DHT) ss then Some (savedata_of hdr (filter (\<lambda>s. \<not> of_type STATE_TYPE_DHT s) ss)) else None)"
proof -
  let ?buf = "savedata_of hdr ss"
  have h: "length hdr = 8" "hdr ! 0 = 0" "le_at 4 hdr = 0x15ed1b1f" "ss \<noteq> []" using assms by (simp_all add: savedata_ok_def)
  obtain s ss' where s: "ss = s # ss'" using h(4) by (cases ss) simp_all
  have "length ?buf \<ge> 16" using h(1) s by (simp add: savedata_of_def)
  moreover have "?buf ! 0 = 0" "take 8 ?buf = hdr" using h by (simp_all add: savedata_of_def nth_append)
  moreover have "le_at 4 ?buf = 0x15ed1b1f" using h(1,3) by (simp add: savedata_of_def le_at_def nth_append)
  moreover have "strip_loop ?buf hdr 8 False =
     (savedata_of hdr (filter (\<lambda>s. \<not> of_type STATE_TYPE_DHT s) ss), length ?buf, list_ex (of_type STATE_TYPE_DHT) ss)"
    using strip_loop_all [of ?buf hdr ss hdr False] assms h(1) by (simp add: savedata_of_def savedata_ok_def)
  ultimately show ?thesis by (simp add: savedata_strip_dht_def)
qed

lemma stripped_or_same:
  assumes "savedata_ok hdr ss"
  shows "(case savedata_strip_dht (savedata_of hdr ss) of Some s \<Rightarrow> s | None \<Rightarrow> savedata_of hdr ss) =
    savedata_of hdr (filter (\<lambda>s. \<not> of_type STATE_TYPE_DHT s) ss)"
proof (cases "list_ex (of_type STATE_TYPE_DHT) ss")
  case False
  then have "filter (\<lambda>s. \<not> of_type STATE_TYPE_DHT s) ss = ss" by (auto simp: list_ex_iff filter_id_conv)
  then show ?thesis using False by (simp add: strip_savedata [OF assms])
qed (simp add: strip_savedata [OF assms])

section \<open>Behind a proxy\<close>

lemma boot_inr:
  assumes "boot B d = Inr r"
  obtains opts where "set_proxy (proxy_choice B d) = Some opts" "bt_tor_mode r = (o_proxy opts \<noteq> None)"
    "load_profile B (bt_pass_key r) (bt_tor_mode r) d \<noteq> WrongKey"
    "bt_options r = (case load_profile B (bt_pass_key r) (bt_tor_mode r) d of Savedata sd \<Rightarrow> opts \<lparr>o_savedata := Some sd\<rparr> | _ \<Rightarrow> opts)"
  using assms by (force simp: boot_def Let_def split: option.splits loaded.splits if_splits)

lemma load_profile_tor:
  "load_profile B key True d =
     (case load_profile B key False d of
        Savedata sd \<Rightarrow> Savedata (case savedata_strip_dht sd of Some s \<Rightarrow> s | None \<Rightarrow> sd)
      | l \<Rightarrow> l)"
  by (auto simp: load_profile_def split: option.splits)

lemma upkeep_dns_free:
  assumes "list_all dns_free (c_calls st)"
  shows "list_all dns_free (c_calls (dht_upkeep X True st))"
proof -
  have "list_all (\<lambda>b. bn_tor_ok b \<longrightarrow> ip_literal (bn_host b)) boots" by (simp add: boots_def ip_literal_def)
  from bootstrap_dns_free [OF this assms] show ?thesis using assms by (simp add: dht_upkeep_def bootstrap_all_def Let_def)
qed


section \<open>The identity\<close>

text \<open>C31: The thread starts with a fresh identity, which the next save writes over the profile, exactly when there is no profile
  path or the file cannot be opened or read, is empty or is larger than 4 MiB; a profile that cannot be
  decrypted never starts.\<close>

theorem fresh_identity_iff:
  assumes "boot B d = Inr r"
  shows "o_savedata (bt_options r) = None \<longleftrightarrow>
    (case b_profile B of
       None \<Rightarrow> True
     | Some p \<Rightarrow> \<not> b_open B p \<or> \<not> b_read B \<or> (case d p of None \<Rightarrow> True | Some c \<Rightarrow> length c = 0 \<or> length c > 4 * 1024 * 1024))"
proof -
  obtain opts where o: "set_proxy (proxy_choice B d) = Some opts" "load_profile B (bt_pass_key r) (bt_tor_mode r) d \<noteq> WrongKey"
    "bt_options r = (case load_profile B (bt_pass_key r) (bt_tor_mode r) d of Savedata sd \<Rightarrow> opts \<lparr>o_savedata := Some sd\<rparr> | _ \<Rightarrow> opts)"
    using boot_inr [OF assms] by blast
  have "o_savedata opts = None" using o(1) by (auto simp: set_proxy_def default_options_def split: prod.splits if_splits)
  then have "o_savedata (bt_options r) = None \<longleftrightarrow> load_profile B (bt_pass_key r) (bt_tor_mode r) d = NoSavedata"
    using o(2,3) by (auto split: loaded.splits)
  also have "\<dots> \<longleftrightarrow> (case b_profile B of
       None \<Rightarrow> True
     | Some p \<Rightarrow> \<not> b_open B p \<or> \<not> b_read B \<or> (case d p of None \<Rightarrow> True | Some c \<Rightarrow> length c = 0 \<or> length c > 4 * 1024 * 1024))"
    by (auto simp: load_profile_def split: option.splits)
  finally show ?thesis .
qed

text \<open>C30: What one run saved is what the next run loads: after \<^verbatim>\<open>save_profile\<close> under a key derived from the passphrase,
  starting again with the same passphrase derives the same key from the salt in the file and hands toxcore the
  saved identity.\<close>

theorem restart_keeps_identity:
  assumes "f_profile (v_files (w_eng X)) = Some p" "b_profile B = Some p" "f_key (v_files (w_eng X)) = Some k"
    "f_toxes (v_files (w_eng X)) = b_toxes B" "w_open X" "w_alloc X" "w_rename X"
    "toxes_ok (b_toxes B)" "\<forall>c. te_is_encrypted (b_toxes B) (take 80 c) = te_is_encrypted (b_toxes B) c"
    "\<forall>pt ct. te_encrypt (b_toxes B) k pt = Some ct \<longrightarrow> b_get_salt B (take 80 ct) = Some salt"
    "tt_passphrase_acquire B = Some pass" "b_derive_with_salt B pass salt = Some k"
    "w_savedata X \<noteq> []" "length (w_savedata X) + 80 \<le> 4 * 1024 * 1024" "b_open B p" "b_read B"
    "d' = fs_disk (en_files (c_eng (save_profile X st)))" "fst (proxy_choice B d') = []"
    "derive_key B 1 (Some (p @ ''.ses'')) pass d' = Some sk" "b_tox_new B (default_options \<lparr>o_savedata := Some (w_savedata X)\<rparr>)"
  shows "boot B d' = Inr \<lparr>bt_options = default_options \<lparr>o_savedata := Some (w_savedata X)\<rparr>, bt_pass_key = k, bt_session_key = sk, bt_tor_mode = False\<rparr>"
proof -
  obtain ct where ct: "te_encrypt (b_toxes B) k (w_savedata X) = Some ct" "length ct = length (w_savedata X) + 80"
    "te_is_encrypted (b_toxes B) ct" "te_decrypt (b_toxes B) k ct = Some (w_savedata X)"
    using assms(8,13) by (auto simp: toxes_ok_def)
  have d: "d' p = Some ct" using assms(1,3-7,17) ct(1) by (simp add: save_profile_def c_disk_def profile_content_def)
  have key: "derive_key B 0 (Some p) pass d' = Some k"
    using d ct(1-3) assms(9,10,12,15) by (simp add: derive_key_def read_salt_def Let_def)
  have "load_profile B k False d' = Savedata (w_savedata X)"
    using assms(2,13-16) d ct(2-4) by (simp add: load_profile_def)
  moreover have "set_proxy (proxy_choice B d') = Some default_options" using assms(18) by (cases "proxy_choice B d'") (simp add: set_proxy_def)
  ultimately show ?thesis using assms(2,11,19,20) key by (simp add: boot_def Let_def default_options_def)
qed

section \<open>Sessions across a restart\<close>

lemma en_note_required [simp]: "en_required (en_note ty fn s i e) = en_required e"
  by (simp add: en_note_def en_push_def split: option.splits)

lemma en_note_e2ee [simp]: "en_e2ee (en_note ty fn s i e) = en_e2ee e"
  by (simp add: en_note_def en_push_def split: option.splits)

lemma en_note_sent [simp]: "en_sent (en_note ty fn s i e) = en_sent e"
  by (simp add: en_note_def en_push_def split: option.splits)

lemma notes_keep:
  "let e' = foldl (\<lambda>e fn. if en_required e fn then en_note TT_EV_E2EE_ENFORCE fn None 1 e else e) e fns
   in en_required e' = en_required e \<and> en_sent e' = en_sent e"
  by (induction fns arbitrary: e) (simp_all add: Let_def)

lemma restore_session_one:
  "en_e2ee (restore_session X e fn) = en_e2ee e \<and> en_sent (restore_session X e fn) = en_sent e \<and>
   en_required (restore_session X e fn) = (if s_active (en_e2ee e fn) then (en_required e)(fn := True) else en_required e)"
  by (auto simp: restore_session_def e2ee_push_state_def en_push_def policy_store_def fun_eq_iff)

lemma restore_session_all:
  "en_e2ee (foldl (restore_session X) e fns) = en_e2ee e \<and> en_sent (foldl (restore_session X) e fns) = en_sent e \<and>
   (\<forall>fn. en_required (foldl (restore_session X) e fns) fn \<longleftrightarrow> en_required e fn \<or> (fn \<in> set fns \<and> s_active (en_e2ee e fn)))"
  by (induction fns arbitrary: e) (auto simp: restore_session_one)

lemma restored_required:
  assumes "v_mode X" "fn < TT_MAX_FRIENDS" "e' = restore_e2ee X skey e"
  shows "en_sent e' = en_sent e \<and> (en_required e' fn \<longleftrightarrow> tt_settings_load_e2ee (f_profile (v_files X)) (fs_disk (en_files e)) fn \<or> s_active (en_e2ee e' fn))"
  using assms notes_keep [of "e \<lparr>en_required := tt_settings_load_e2ee (f_profile (v_files X)) (fs_disk (en_files e))\<rparr>" "[0..<TT_MAX_FRIENDS]"]
  by (simp add: restore_e2ee_def Let_def restore_session_all)


section \<open>Witnesses\<close>

definition demo_benv :: benv where
  "demo_benv = \<lparr>b_profile = Some ''me'', b_proxy_host = None, b_proxy_port = None, b_passphrase = Some [112], b_gui = False, b_dialog = None,
     b_tty = False, b_getpass = None, b_toxes = toy_toxes, b_get_salt = (\<lambda>_. Some [7]), b_derive_with_salt = (\<lambda>p s. Some (p @ s)),
     b_derive = (\<lambda>i p. Some p), b_open = (\<lambda>_. True), b_read = True, b_tox_new = (\<lambda>_. True)\<rparr>"

definition demo_hdr :: bytes where
  "demo_hdr = [0, 0, 0, 0, 0x1f, 0x1b, 0xed, 0x15]"

definition demo_sections :: "(u32 \<times> bytes) list" where
  "demo_sections = [(0x01ce0001, [1, 2]), (0x01ce0002, [9, 9, 9]), (0x01ce00ff, [])]"

lemma boot_starts:
  assumes "set_proxy (proxy_choice B d) \<noteq> None" "tt_passphrase_acquire B = Some pass" "derive_key B 0 (b_profile B) pass d = Some k"
    "derive_key B 1 (map_option (\<lambda>p. p @ ''.ses'') (b_profile B)) pass d = Some sk" "\<forall>tor. load_profile B k tor d \<noteq> WrongKey" "\<forall>opts. b_tox_new B opts"
  shows "\<exists>r. boot B d = Inr r"
  using assms by (auto simp: boot_def Let_def split: loaded.splits)

lemma demo_savedata_ok: "savedata_ok demo_hdr demo_sections"
  by (simp add: savedata_ok_def demo_hdr_def demo_sections_def le_at_def rd32_def of_type_def low16_def)


theorem fresh_identity_iff_witness:
  "\<exists>r. boot demo_benv [''me'' \<mapsto> []] = Inr r \<and> o_savedata (bt_options r) = None"
proof -
  obtain r where r: "boot demo_benv [''me'' \<mapsto> []] = Inr r"
    by (auto simp: boot_def Let_def tt_passphrase_acquire_def demo_benv_def derive_key_def read_salt_def load_profile_def proxy_choice_def
        tt_settings_load_def settings_path_def settings_zero_def set_proxy_def)
  from fresh_identity_iff [OF r] r show ?thesis by (simp add: demo_benv_def)
qed

theorem restart_keeps_identity_witness:
  "let X = demo_cenv \<lparr>w_eng := demo_eenv \<lparr>v_files := (v_files demo_eenv) \<lparr>f_profile := Some ''me'', f_key := Some [112, 7]\<rparr>\<rparr>\<rparr>;
       d = fs_disk (en_files (c_eng (save_profile X demo_cstate)))
   in \<exists>r. boot demo_benv d = Inr r \<and> o_savedata (bt_options r) = Some [1, 2]"
proof -
  let ?X = "demo_cenv \<lparr>w_eng := demo_eenv \<lparr>v_files := (v_files demo_eenv) \<lparr>f_profile := Some ''me'', f_key := Some [112, 7]\<rparr>\<rparr>\<rparr>"
  let ?d = "fs_disk (en_files (c_eng (save_profile ?X demo_cstate)))"
  have d: "?d = [''me'' \<mapsto> replicate 80 1 @ [1, 2]]"
    by (auto simp: save_profile_def c_disk_def profile_content_def demo_cenv_def demo_cstate_def demo_eenv_def demo_engine_def demo_env_def demo_state_def toy_toxes_def fun_eq_iff)
  have pc: "fst (proxy_choice demo_benv ?d) = []"
    by (simp add: d proxy_choice_def demo_benv_def tt_settings_load_def settings_path_def settings_zero_def)
  have sk: "derive_key demo_benv 1 (Some (''me'' @ ''.ses'')) [112] ?d = Some [112]" by (simp add: d derive_key_def read_salt_def demo_benv_def)
  have enc: "\<forall>c. te_is_encrypted (b_toxes demo_benv) (take 80 c) = te_is_encrypted (b_toxes demo_benv) c" by (simp add: demo_benv_def toy_toxes_def)
  have "boot demo_benv ?d = Inr \<lparr>bt_options = default_options \<lparr>o_savedata := Some (w_savedata ?X)\<rparr>, bt_pass_key = [112, 7], bt_session_key = [112], bt_tor_mode = False\<rparr>"
    by (rule restart_keeps_identity [where p = "''me''" and pass = "[112]" and salt = "[7]" and X = ?X and st = demo_cstate, OF _ _ _ _ _ _ _ _ enc _ _ _ _ _ _ _ refl pc sk])
       (simp_all add: demo_benv_def demo_cenv_def demo_eenv_def demo_env_def toy_toxes_ok tt_passphrase_acquire_def)
  then show ?thesis by (simp add: demo_cenv_def)
qed


end
