(* ===== verification/History.thy ===== *)
theory History
  imports Sidecar
begin

text \<open>
  The chat-history sidecar, \<^verbatim>\<open>src/src/history.c\<close>: all transcripts are written in one
  file, one entry per contact, and one contact's transcript is looked up in it.  Keys and
  transcripts are C strings (bytes without a zero); a null pointer is \<^const>\<open>None\<close>.
\<close>

abbreviation (input) "TT_HIST_MAX_FILE \<equiv> (8 * 1024 * 1024 :: nat)"

record TTHistEntry =
  he_key :: "bytes option"
  he_transcript :: "bytes option"

definition hist_magic :: bytes where
  "hist_magic = ascii ''TTHS1''"

definition hist_path :: "string option \<Rightarrow> string" where
  "hist_path profile = (case profile of None \<Rightarrow> ''TkTox.tox'' | Some p \<Rightarrow> p) @ ''.hist''"

text \<open>What one entry adds to the file: nothing when the key or the transcript is missing or empty.\<close>

definition hist_entry :: "TTHistEntry \<Rightarrow> bytes" where
  "hist_entry e =
     (case (he_key e, he_transcript e) of
        (Some k, Some t) \<Rightarrow>
          if t = [] \<or> k = [] then []
          else print_u (length k) @ [32] @ print_u (length t) @ [10] @ k @ [10] @ t
      | _ \<Rightarrow> [])"

definition hist_content :: "TTHistEntry list \<Rightarrow> bytes" where
  "hist_content es = hist_magic @ concat (map hist_entry es)"

definition tt_hist_save ::
  "toxes \<Rightarrow> (nat \<Rightarrow> bool) \<Rightarrow> string option \<Rightarrow> bytes option \<Rightarrow> TTHistEntry list \<Rightarrow> disk \<Rightarrow> bool \<times> disk" where
  "tt_hist_save T io profile pass_key entries d =
     sidecar_write T io TT_HIST_MAX_FILE pass_key (hist_path profile) (hist_content entries) d"

text \<open>
  The search loop on the plaintext from offset \<^verbatim>\<open>off\<close> on; \<open>pt_len\<close> is the length of the
  whole plaintext.  The result is the copied text when the key is found.
\<close>

function hist_find :: "nat \<Rightarrow> bytes \<Rightarrow> nat \<Rightarrow> bytes \<Rightarrow> bytes option" where
  "hist_find pt_len key cap p =
     (if p = [] then None
      else case scan_uu 64 64 p of
        None \<Rightarrow> None
      | Some (klen, tlen, r) \<Rightarrow>
          if r = [] \<or> hd r \<noteq> 10 then None
          else if klen > pt_len \<or> tlen > pt_len then None
          else if klen + 1 + tlen > length (tl r) then None
          else if klen = length key \<and> take klen (tl r) = key then
            (if tl r ! klen \<noteq> 10 then None
             else Some (take (min tlen (cap - 1)) (drop (klen + 1) (tl r))))
          else hist_find pt_len key cap (drop (klen + 1 + tlen) (tl r)))"
  by pat_completeness auto
termination
proof (relation "measure (\<lambda>(_, _, _, p). length p)")
  show "wf (measure (\<lambda>(_, _, _, p). length p))" by simp
next
  fix pt_len :: nat and key :: bytes and cap :: nat and p x klen y tlen r
  assume a: "scan_uu 64 64 p = Some x" "(klen, y) = x" "(tlen, r) = y" "\<not> (r = [] \<or> hd r \<noteq> 10)"
  have "length r \<le> length p" using a(1-3) length_scan_uu [of 64 64 p klen tlen r] by simp
  moreover have "length (tl r) < length r" using a(4) by (cases r) auto
  ultimately show "((pt_len, key, cap, drop (klen + 1 + tlen) (tl r)), pt_len, key, cap, p)
      \<in> measure (\<lambda>(_, _, _, p). length p)"
    by simp
qed

declare hist_find.simps [simp del]

definition hist_lookup :: "bytes \<Rightarrow> nat \<Rightarrow> bytes \<Rightarrow> bytes option" where
  "hist_lookup key cap pt =
     (if length pt < 5 \<or> take 5 pt \<noteq> hist_magic then None else hist_find (length pt) key cap (drop 5 pt))"

text \<open>\<^const>\<open>None\<close> is the result false; otherwise the bytes copied to the output buffer before the terminator.\<close>

definition tt_hist_load ::
  "toxes \<Rightarrow> (nat \<Rightarrow> bool) \<Rightarrow> string option \<Rightarrow> bytes option \<Rightarrow> bytes option \<Rightarrow> nat \<Rightarrow> disk \<Rightarrow> bytes option" where
  "tt_hist_load T io profile pass_key key cap d =
     (case key of None \<Rightarrow> None
      | Some k \<Rightarrow>
          if cap = 0 then None
          else case sidecar_read T io TT_HIST_MAX_FILE (hist_path profile) d of
            None \<Rightarrow> None
          | Some buf \<Rightarrow>
              (case blob_decrypt T pass_key buf of None \<Rightarrow> None | Some pt \<Rightarrow> hist_lookup k cap pt))"

section \<open>Lookup in a written file\<close>

definition hist_ok :: "TTHistEntry \<Rightarrow> bool" where
  "hist_ok e \<longleftrightarrow> hist_entry e \<noteq> []"

text \<open>The transcripts as a map: the first entry with the key, if it is one that is written.\<close>

definition hist_map :: "TTHistEntry list \<Rightarrow> bytes \<rightharpoonup> bytes" where
  "hist_map es = map_of (map (\<lambda>e. (the (he_key e), the (he_transcript e))) (filter hist_ok es))"

lemma hist_ok_cases:
  assumes "hist_ok e"
  obtains k t where "he_key e = Some k" "he_transcript e = Some t" "k \<noteq> []" "t \<noteq> []"
    "hist_entry e = print_u (length k) @ 32 # print_u (length t) @ 10 # k @ 10 # t"
  using assms that by (auto simp: hist_ok_def hist_entry_def split: option.splits if_splits)

lemma hist_find_entry:
  assumes "length (hist_entry e @ r) \<le> n" "n \<le> TT_HIST_MAX_FILE" "hist_ok e"
  shows "hist_find n key cap (hist_entry e @ r) =
    (if he_key e = Some key then Some (take (cap - 1) (the (he_transcript e))) else hist_find n key cap r)"
proof -
  obtain k t where e: "he_key e = Some k" "he_transcript e = Some t"
    "hist_entry e = print_u (length k) @ 32 # print_u (length t) @ 10 # k @ 10 # t"
    using hist_ok_cases [OF assms(3)] by metis
  have len: "length k + length t \<le> n" using assms(1) unfolding e(3) by simp
  have big: "length k < 2 ^ 64" "length t < 2 ^ 64" using len assms(2) by simp_all
  have "\<not> is_digit (hd (10 # k @ 10 # t @ r))" by (simp add: is_digit_def word_le_nat_alt)
  then have s: "scan_uu 64 64 (hist_entry e @ r) = Some (length k, length t, 10 # k @ 10 # t @ r)"
    using scan_uu_print [of "length k" 64 "length t" 64 "10 # k @ 10 # t @ r"] big by (simp add: e(3))
  have ne: "hist_entry e \<noteq> []" using assms(3) by (simp add: hist_ok_def)
  have "take (min (length t) (cap - 1)) t = take (cap - 1) t" by (simp add: min_def)
  then show ?thesis
    using len by (subst hist_find.simps) (auto simp: s ne e(1,2) nth_append min_def)
qed

lemma hist_find_entries:
  "length (concat (map hist_entry es)) \<le> n \<Longrightarrow> n \<le> TT_HIST_MAX_FILE \<Longrightarrow>
   hist_find n key cap (concat (map hist_entry es)) = map_option (take (cap - 1)) (hist_map es key)"
proof (induction es)
  case Nil
  then show ?case by (subst hist_find.simps) (simp add: hist_map_def)
next
  case (Cons e es)
  show ?case
  proof (cases "hist_ok e")
    case True
    then show ?thesis
      using hist_find_entry [of e "concat (map hist_entry es)" n key cap] Cons
      by (auto simp: hist_map_def elim: hist_ok_cases)
  next
    case False
    then show ?thesis using Cons by (simp add: hist_map_def hist_ok_def)
  qed
qed

lemma hist_lookup_content:
  "length (hist_content es) \<le> TT_HIST_MAX_FILE \<Longrightarrow>
   hist_lookup key cap (hist_content es) = map_option (take (cap - 1)) (hist_map es key)"
  using hist_find_entries [of es "length (hist_content es)" key cap]
  by (simp add: hist_lookup_def hist_content_def hist_magic_def)

interpretation hif: sidecar_format "\<lambda>es. length (hist_content es) \<le> TT_HIST_MAX_FILE" hist_content
  "\<lambda>p key cap. hist_lookup key cap p" "\<lambda>es key cap. map_option (take (cap - 1)) (hist_map es key)" TT_HIST_MAX_FILE
proof
  fix es :: "TTHistEntry list"
  show "hist_content es \<noteq> []" by (simp add: hist_content_def hist_magic_def ascii_def)
qed (simp add: hist_lookup_content fun_eq_iff)

lemma history_reload:
  assumes "toxes_ok T" "\<And>i. io i" "\<And>i. io' i" "0 < cap" "length (hist_content es) + 80 \<le> TT_HIST_MAX_FILE"
    "pass_key = None \<Longrightarrow> \<not> te_is_encrypted T (hist_content es)"
  shows "fst (tt_hist_save T io profile pass_key es d)"
    and "tt_hist_load T io' profile pass_key (Some key) cap (snd (tt_hist_save T io profile pass_key es d))
      = map_option (take (cap - 1)) (hist_map es key)"
proof -
  have "length (hist_content es) \<le> TT_HIST_MAX_FILE" using assms(5) by simp
  then obtain d' buf where b:
    "sidecar_write T io TT_HIST_MAX_FILE pass_key (hist_path profile) (hist_content es) d = (True, d')"
    "sidecar_read T io' TT_HIST_MAX_FILE (hist_path profile) d' = Some buf"
    "map_option (\<lambda>p key cap. hist_lookup key cap p) (blob_decrypt T pass_key buf)
      = Some (\<lambda>key cap. map_option (take (cap - 1)) (hist_map es key))"
    using hif.load_after_save [of T io io' es pass_key "hist_path profile" d] assms by blast
  then obtain pt where pt: "blob_decrypt T pass_key buf = Some pt"
    "(\<lambda>key cap. hist_lookup key cap pt) = (\<lambda>key cap. map_option (take (cap - 1)) (hist_map es key))"
    by (auto simp: map_option_eq_Some)
  have "hist_lookup key cap pt = map_option (take (cap - 1)) (hist_map es key)"
    using fun_cong [OF fun_cong [OF pt(2), of key], of cap] .
  then show "fst (tt_hist_save T io profile pass_key es d)"
    "tt_hist_load T io' profile pass_key (Some key) cap (snd (tt_hist_save T io profile pass_key es d))
      = map_option (take (cap - 1)) (hist_map es key)"
    using b(1,2) pt(1) assms(4) by (simp_all add: tt_hist_load_def tt_hist_save_def)
qed

text \<open>Chat history survives a restart.  After a save of any list of entries (with or without a key) that
  fits the file limit, loading a contact gives exactly the transcript written for that key, the first one
  if there are several, cut to the caller's buffer; entries without key or text are as if absent, and a key
  that was not written is not found.\<close>

theorem history_roundtrip:
  assumes "toxes_ok T" "\<And>i. io i" "\<And>i. io' i" "0 < cap" "length (hist_content es) + 80 \<le> TT_HIST_MAX_FILE"
    "pass_key = None \<Longrightarrow> \<not> te_is_encrypted T (hist_content es)"
  shows "let (ok, d') = tt_hist_save T io profile pass_key es d
    in ok \<and> (\<forall>key. tt_hist_load T io' profile pass_key (Some key) cap d' = map_option (take (cap - 1)) (hist_map es key))"
  using history_reload [OF assms] by (simp add: split_beta)

theorem history_roundtrip_witness:
  "tt_hist_load toy_toxes (\<lambda>_. True) None (Some [1]) (Some [98]) 100
     (snd (tt_hist_save toy_toxes (\<lambda>_. True) None (Some [1])
        [\<lparr>he_key = Some [97], he_transcript = Some [49, 32, 50]\<rparr>, \<lparr>he_key = Some [98], he_transcript = Some [50]\<rparr>] Map.empty))
     = Some [50]"
proof -
  let ?es = "[\<lparr>he_key = Some [97], he_transcript = Some [49, 32, 50]\<rparr>, \<lparr>he_key = Some [98], he_transcript = Some [50]\<rparr>] :: TTHistEntry list"
  have "length (hist_content ?es) + 80 \<le> TT_HIST_MAX_FILE"
    by (simp add: hist_content_def hist_entry_def hist_magic_def print_u.simps)
  then have "tt_hist_load toy_toxes (\<lambda>_. True) None (Some [1]) (Some [98]) 100
     (snd (tt_hist_save toy_toxes (\<lambda>_. True) None (Some [1]) ?es Map.empty))
      = map_option (take (100 - 1)) (hist_map ?es [98])"
    using history_roundtrip [OF toy_toxes_ok, where io = "\<lambda>_. True" and io' = "\<lambda>_. True" and es = ?es
        and pass_key = "Some [1]"] by (simp add: split_beta)
  then show ?thesis by (simp add: hist_map_def hist_ok_def hist_entry_def)
qed

end
