(* ===== verification/Profiles.thy ===== *)
theory Profiles
  imports Startup History "HOL-Library.Multiset" "HOL-Library.List_Lexorder" "HOL-Library.Char_ord"
begin

text \<open>
  The profile picker, \<^verbatim>\<open>src/src/ui/profiles.c\<close>: the list of profiles in the working directory, and creating,
  renaming and deleting a profile with the files next to it.  The widgets are not modelled; a handler gets the
  text of its entry field or the index of the selected row as an argument.  \<open>dir\<close> is what \<^verbatim>\<open>readdir\<close> returns,
  \<open>ren k\<close> says whether the k-th rename succeeds.
\<close>

section \<open>The list\<close>

definition has_infix :: "string \<Rightarrow> string \<Rightarrow> bool" where
  "has_infix p s \<longleftrightarrow> list_ex (\<lambda>i. take (length p) (drop i s) = p) [0..<length s]"

definition is_profile :: "string \<Rightarrow> bool" where
  "is_profile name \<longleftrightarrow>
     \<not> (length name \<le> 4 \<or> drop (length name - 4) name \<noteq> ''.tox'') \<and> \<not> (has_infix ''.tmp'' name \<or> has_infix ''.new'' name)"

definition base_name :: "string \<Rightarrow> string" where
  "base_name name = take (length name - 4) name"

text \<open>\<^verbatim>\<open>strcmp(a, b) > 0\<close>\<close>

fun strcmp_gt :: "string \<Rightarrow> string \<Rightarrow> bool" where
  "strcmp_gt [] bs = False"
| "strcmp_gt (a # as) [] = True"
| "strcmp_gt (a # as) (b # bs) = ((of_char a :: nat) > of_char b \<or> (a = b \<and> strcmp_gt as bs))"

text \<open>The inner loop of the insertion sort; the counter is \<^verbatim>\<open>j + 1\<close>.\<close>

fun shift_loop :: "string list \<Rightarrow> string \<Rightarrow> nat \<Rightarrow> string list" where
  "shift_loop out key 0 = out[0 := key]"
| "shift_loop out key (Suc j) =
     (if strcmp_gt (out ! j) key then shift_loop (out[Suc j := out ! j]) key j else out[Suc j := key])"

definition sort_names :: "string list \<Rightarrow> string list" where
  "sort_names out = foldl (\<lambda>out i. shift_loop out (out ! i) i) out [1..<length out]"

definition list_profiles :: "string list \<Rightarrow> string list" where
  "list_profiles dir = sort_names (map base_name (filter is_profile dir))"

section \<open>The picker\<close>

record Picker =
  pk_profiles :: "string list"
  pk_sel :: int
  pk_result :: "string option"
  pk_done :: bool
  pk_new :: bool
  pk_rename :: bool
  pk_delete :: bool
  pk_label :: string

definition picker_zero :: Picker where
  "picker_zero = \<lparr>pk_profiles = [], pk_sel = 0, pk_result = None, pk_done = False, pk_new = False, pk_rename = False, pk_delete = False, pk_label = []\<rparr>"

definition pk_refresh :: "string list \<Rightarrow> Picker \<Rightarrow> Picker" where
  "pk_refresh dir pk = pk \<lparr>pk_profiles := list_profiles dir, pk_sel := -1\<rparr>"

definition no_selection :: "Picker \<Rightarrow> bool" where
  "no_selection pk \<longleftrightarrow> pk_sel pk < 0 \<or> pk_sel pk \<ge> int (length (pk_profiles pk))"

definition selected :: "Picker \<Rightarrow> string" where
  "selected pk = pk_profiles pk ! nat (pk_sel pk)"

definition pk_open :: "Picker \<Rightarrow> Picker" where
  "pk_open pk = (if no_selection pk then pk else pk \<lparr>pk_result := Some (selected pk @ ''.tox''), pk_done := True\<rparr>)"

definition pk_cancel :: "Picker \<Rightarrow> Picker" where
  "pk_cancel pk = pk \<lparr>pk_done := True\<rparr>"

definition pk_select :: "int option \<Rightarrow> Picker \<Rightarrow> Picker" where
  "pk_select row pk = pk \<lparr>pk_sel := (case row of None \<Rightarrow> -1 | Some i \<Rightarrow> i)\<rparr>"

text \<open>Only letters, digits, dot, underscore and dash survive, at most 255 of them.\<close>

definition name_char :: "char \<Rightarrow> bool" where
  "name_char c \<longleftrightarrow> (let n = of_char c :: nat in
     (48 \<le> n \<and> n \<le> 57) \<or> (65 \<le> n \<and> n \<le> 90) \<or> (97 \<le> n \<and> n \<le> 122) \<or> c \<in> set ''._-'')"

definition clean_name :: "string \<Rightarrow> string" where
  "clean_name name = take 255 (filter name_char name)"

definition pk_new_ok :: "string \<Rightarrow> disk \<Rightarrow> Picker \<Rightarrow> Picker" where
  "pk_new_ok name d pk =
     (let path = clean_name name @ ''.tox'' in
      if \<not> pk_new pk \<or> clean_name name = [] \<or> d path \<noteq> None then pk
      else pk \<lparr>pk_result := Some path, pk_done := True\<rparr>)"

definition pk_new_cancel :: "Picker \<Rightarrow> Picker" where
  "pk_new_cancel pk = pk \<lparr>pk_new := False\<rparr>"

definition pk_new_open :: "Picker \<Rightarrow> Picker" where
  "pk_new_open pk = pk \<lparr>pk_new := True\<rparr>"

definition suffixes :: "string list" where
  "suffixes = ['''', ''.oq'', ''.tt'', ''.ses'', ''.hist'', ''.ava'', ''.rsum'']"

definition rename_file :: "string \<Rightarrow> string \<Rightarrow> disk \<Rightarrow> disk" where
  "rename_file from to d = (case d from of None \<Rightarrow> d | Some c \<Rightarrow> if from = to then d else d(to \<mapsto> c, from := None))"

definition rename_all :: "(nat \<Rightarrow> bool) \<Rightarrow> string \<Rightarrow> string \<Rightarrow> disk \<Rightarrow> disk" where
  "rename_all ren oldpath newpath d =
     foldl (\<lambda>d k. if ren k then rename_file (oldpath @ suffixes ! k) (newpath @ suffixes ! k) d else d) d [0..<length suffixes]"

definition pk_rename_ok :: "(nat \<Rightarrow> bool) \<Rightarrow> string \<Rightarrow> (disk \<Rightarrow> string list) \<Rightarrow> disk \<Rightarrow> Picker \<Rightarrow> disk \<times> Picker" where
  "pk_rename_ok ren name dir d pk =
     (if \<not> pk_rename pk \<or> no_selection pk \<or> clean_name name = [] then (d, pk)
      else
        let oldpath = selected pk @ ''.tox''; newpath = clean_name name @ ''.tox'' in
        if oldpath = newpath then (d, pk \<lparr>pk_rename := False\<rparr>)
        else if d newpath \<noteq> None then (d, pk)
        else let d1 = rename_all ren oldpath newpath d in (d1, pk_refresh (dir d1) (pk \<lparr>pk_rename := False\<rparr>)))"

definition pk_rename_cancel :: "Picker \<Rightarrow> Picker" where
  "pk_rename_cancel pk = pk \<lparr>pk_rename := False\<rparr>"

definition pk_rename_open :: "Picker \<Rightarrow> Picker" where
  "pk_rename_open pk = (if pk_rename pk \<or> no_selection pk then pk else pk \<lparr>pk_rename := True\<rparr>)"

definition delete_all :: "string \<Rightarrow> disk \<Rightarrow> disk" where
  "delete_all path d = foldl (\<lambda>d s. d(path @ s := None)) d suffixes"

definition pk_delete_ok :: "(disk \<Rightarrow> string list) \<Rightarrow> disk \<Rightarrow> Picker \<Rightarrow> disk \<times> Picker" where
  "pk_delete_ok dir d pk =
     (if \<not> pk_delete pk \<or> no_selection pk then (d, pk)
      else let d1 = delete_all (selected pk @ ''.tox'') d in (d1, pk_refresh (dir d1) (pk \<lparr>pk_delete := False\<rparr>)))"

definition pk_delete_cancel :: "Picker \<Rightarrow> Picker" where
  "pk_delete_cancel pk = pk \<lparr>pk_delete := False\<rparr>"

text \<open>The label of the dialog names the profile.\<close>

definition pk_delete_open :: "Picker \<Rightarrow> Picker" where
  "pk_delete_open pk = (if pk_delete pk \<or> no_selection pk then pk else pk \<lparr>pk_delete := True, pk_label := selected pk\<rparr>)"

text \<open>The start of \<^verbatim>\<open>tt_profile_picker\<close>: an empty list goes straight to the dialog for a new profile.\<close>

definition tt_profile_picker :: "string list \<Rightarrow> Picker" where
  "tt_profile_picker dir = (let pk = pk_refresh dir picker_zero in if pk_profiles pk = [] then pk_new_open pk else pk)"

section \<open>The list is sorted\<close>

lemma strcmp_gt_less: "strcmp_gt a b \<longleftrightarrow> b < a"
  by (induction a b rule: strcmp_gt.induct) (auto simp: less_char_def)

definition insert_key :: "string list \<Rightarrow> string \<Rightarrow> string list" where
  "insert_key xs key = rev (dropWhile (\<lambda>x. key < x) (rev xs)) @ key # rev (takeWhile (\<lambda>x. key < x) (rev xs))"

lemma shift_loop_insert: "shift_loop (xs @ y # zs) key (length xs) = insert_key xs key @ zs"
proof (induction xs arbitrary: y zs rule: rev_induct)
  case Nil
  then show ?case by (simp add: insert_key_def)
next
  case (snoc x xs)
  have a: "(xs @ [x]) @ y # zs = xs @ x # y # zs" by simp
  show ?case
  proof (cases "key < x")
    case True
    then have "shift_loop ((xs @ [x]) @ y # zs) key (length (xs @ [x])) = shift_loop (xs @ x # x # zs) key (length xs)"
      unfolding a by (simp add: strcmp_gt_less list_update_append nth_append)
    also have "\<dots> = insert_key xs key @ x # zs" by (rule snoc.IH)
    finally show ?thesis using True by (simp add: insert_key_def)
  next
    case False
    then show ?thesis unfolding a by (simp add: strcmp_gt_less list_update_append nth_append insert_key_def)
  qed
qed

lemma mset_insert_key: "mset (insert_key xs key) = add_mset key (mset xs)"
proof -
  have "mset (rev (dropWhile (\<lambda>x. key < x) (rev xs))) + mset (rev (takeWhile (\<lambda>x. key < x) (rev xs))) = mset xs"
    by (metis mset_append mset_rev takeWhile_dropWhile_id union_commute)
  then show ?thesis by (simp add: insert_key_def)
qed

lemma sorted_insert_key: "sorted xs \<Longrightarrow> sorted (insert_key xs key)"
proof (induction xs rule: rev_induct)
  case (snoc x xs)
  show ?case
  proof (cases "key < x")
    case True
    have e: "insert_key (xs @ [x]) key = insert_key xs key @ [x]" using True by (simp add: insert_key_def)
    have "\<forall>y \<in> set (insert_key xs key). y \<le> x"
      using snoc.prems True by (auto simp: sorted_append simp flip: set_mset_mset simp: mset_insert_key)
    then show ?thesis using snoc by (simp add: e sorted_append)
  next
    case False
    then show ?thesis using snoc.prems by (auto simp: insert_key_def sorted_append)
  qed
qed (simp add: insert_key_def)

lemma sort_names_prefix:
  assumes "n \<le> length out" "0 < n"
  shows "\<exists>p. foldl (\<lambda>out i. shift_loop out (out ! i) i) out [1..<n] = p @ drop n out \<and> sorted p \<and> mset p = mset (take n out)"
  using assms
proof (induction n)
  case (Suc n)
  show ?case
  proof (cases "n = 0")
    case True
    then show ?thesis using Suc.prems by (intro exI [of _ "take 1 out"]) (cases out; simp)
  next
    case False
    then obtain p where p: "foldl (\<lambda>out i. shift_loop out (out ! i) i) out [1..<n] = p @ drop n out" "sorted p" "mset p = mset (take n out)"
      using Suc by auto
    have l: "length p = n" using p(3) Suc.prems by (metis Suc_leD length_take min_absorb2 size_mset)
    have d: "drop n out = out ! n # drop (Suc n) out" using Suc.prems by (simp add: Cons_nth_drop_Suc)
    have "foldl (\<lambda>out i. shift_loop out (out ! i) i) out [1..<Suc n] = insert_key p (out ! n) @ drop (Suc n) out"
      using False p(1) shift_loop_insert [of p "out ! n" "drop (Suc n) out"] l by (simp add: d nth_append)
    moreover have "mset (insert_key p (out ! n)) = mset (take (Suc n) out)"
      using Suc.prems p(3) by (simp add: mset_insert_key take_Suc_conv_app_nth)
    ultimately show ?thesis using sorted_insert_key [OF p(2)] by blast
  qed
qed simp

lemma sort_names_sort: "sort_names out = sort out"
proof (cases out)
  case (Cons a as)
  then obtain p where "sort_names out = p" "sorted p" "mset p = mset out"
    using sort_names_prefix [of "length out" out] by (auto simp: sort_names_def)
  then show ?thesis by (metis properties_for_sort)
qed (simp add: sort_names_def)

text \<open>C32: The picker lists the base names of exactly the profile files of the directory, each as often as the
  directory holds it, in ascending order: the in-place insertion sort over \<^verbatim>\<open>strcmp\<close> computes the sorted list.\<close>

theorem profiles_listed_sorted:
  "list_profiles dir = sort (map base_name (filter is_profile dir))"
  by (simp add: list_profiles_def sort_names_sort)

section \<open>Renaming\<close>

lemma profile_path_inj:
  assumes "(a @ ''.tox'') @ s = (b @ ''.tox'') @ s'" "s \<in> set suffixes" "s' \<in> set suffixes"
  shows "a = b \<and> s = s'"
  using arg_cong [OF assms(1), of rev] assms(2,3) by (auto simp: suffixes_def)

lemma rename_all_foldl:
  "rename_all (\<lambda>_. True) p q d = foldl (\<lambda>d s. rename_file (p @ s) (q @ s) d) d suffixes"
proof -
  have "foldl (\<lambda>d s. rename_file (p @ s) (q @ s) d) d (map ((!) suffixes) [0..<length suffixes]) = rename_all (\<lambda>_. True) p q d"
    unfolding foldl_map by (simp add: rename_all_def)
  then show ?thesis by (simp add: map_nth)
qed

lemma rename_files:
  assumes "a \<noteq> b" "distinct ss" "set ss \<subseteq> set suffixes" "p = a @ ''.tox''" "q = b @ ''.tox''"
  shows "foldl (\<lambda>d s. rename_file (p @ s) (q @ s) d) d ss =
    (\<lambda>f. if \<exists>s \<in> set ss. f = p @ s then None
         else if \<exists>s \<in> set ss. f = q @ s \<and> d (p @ s) \<noteq> None then d (p @ drop (length q) f) else d f)"
  using assms(2,3)
proof (induction ss rule: rev_induct)
  case (snoc s ss)
  have pq: "p @ x \<noteq> q @ y" if "x \<in> set suffixes" "y \<in> set suffixes" for x y
    using profile_path_inj [of a x b y] that assms(1,4,5) by auto
  have IH: "foldl (\<lambda>d s. rename_file (p @ s) (q @ s) d) d ss =
    (\<lambda>f. if \<exists>s \<in> set ss. f = p @ s then None
         else if \<exists>s \<in> set ss. f = q @ s \<and> d (p @ s) \<noteq> None then d (p @ drop (length q) f) else d f)" using snoc by simp
  have s: "s \<in> set suffixes" "s \<notin> set ss" "set ss \<subseteq> set suffixes" using snoc.prems by auto
  have ps: "(if \<exists>x \<in> set ss. p @ s = p @ x then None
         else if \<exists>x \<in> set ss. p @ s = q @ x \<and> d (p @ x) \<noteq> None then d (p @ drop (length q) (p @ s)) else d (p @ s)) = d (p @ s)"
    using s pq by auto
  have qp: "q @ y \<noteq> p @ x" if "x \<in> set suffixes" "y \<in> set suffixes" for x y using pq [OF that] by auto
  show ?case unfolding foldl_append foldl.simps IH unfolding rename_file_def ps
    using s pq qp by (cases "d (p @ s)") (auto simp: fun_eq_iff subset_iff)
qed simp

lemma renamed:
  assumes "a \<noteq> b" "s \<in> set suffixes" "d ((b @ ''.tox'') @ s) = None"
  shows "rename_all (\<lambda>_. True) (a @ ''.tox'') (b @ ''.tox'') d ((b @ ''.tox'') @ s) = d ((a @ ''.tox'') @ s)"
    "rename_all (\<lambda>_. True) (a @ ''.tox'') (b @ ''.tox'') d ((a @ ''.tox'') @ s) = None"
proof -
  have d: "distinct suffixes" by (simp add: suffixes_def)
  note r = rename_files [OF assms(1) d subset_refl refl refl]
  have n: "(b @ ''.tox'') @ s \<noteq> (a @ ''.tox'') @ x" if "x \<in> set suffixes" for x
    using profile_path_inj [of b s a x] that assms(1,2) by auto
  show "rename_all (\<lambda>_. True) (a @ ''.tox'') (b @ ''.tox'') d ((b @ ''.tox'') @ s) = d ((a @ ''.tox'') @ s)"
    unfolding rename_all_foldl r using n assms(2,3) by auto
  show "rename_all (\<lambda>_. True) (a @ ''.tox'') (b @ ''.tox'') d ((a @ ''.tox'') @ s) = None"
    unfolding rename_all_foldl r using assms(2) by auto
qed

text \<open>Renaming a profile takes everything with it: when no file carries the new name yet and the renames succeed, the
  identity, settings, encryption policy, sessions, queued messages, transfers and history read under the new name
  are those that were read under the old one, and no file of the old name is left.\<close>

theorem rename_keeps_data:
  assumes "pk_rename pk" "\<not> no_selection pk" "clean_name name \<noteq> []" "selected pk \<noteq> clean_name name"
    "p = selected pk @ ''.tox''" "q = clean_name name @ ''.tox''" "\<forall>s \<in> set suffixes. d (q @ s) = None"
    "d' = fst (pk_rename_ok (\<lambda>_. True) name dir d pk)"
  shows "d' q = d p \<and> tt_settings_load (Some q) d' = tt_settings_load (Some p) d \<and>
    tt_settings_load_e2ee (Some q) d' = tt_settings_load_e2ee (Some p) d \<and>
    tt_session_store_load T io e2ee (Some q) key d' = tt_session_store_load T io e2ee (Some p) key d \<and>
    tt_oq_load T io oq (Some q) key d' = tt_oq_load T io oq (Some p) key d \<and>
    tt_resume_load T io (Some q) key d' = tt_resume_load T io (Some p) key d \<and>
    tt_hist_load T io (Some q) key friend cap d' = tt_hist_load T io (Some p) key friend cap d \<and>
    d' (ava_path q) = d (ava_path p) \<and> (\<forall>s \<in> set suffixes. d' (p @ s) = None)"
proof -
  have q: "d q = None" using assms(7) by (simp add: suffixes_def)
  then have d': "d' = rename_all (\<lambda>_. True) p q d" using assms(1-6,8) by (simp add: pk_rename_ok_def Let_def)
  have r: "d' (q @ s) = d (p @ s)" "d' (p @ s) = None" if "s \<in> set suffixes" for s
    using renamed [OF assms(4) that, of d] assms(5-7) that by (simp_all add: d')
  have f: "d' q = d p" "d' (q @ ''.tt'') = d (p @ ''.tt'')" "d' (q @ ''.ses'') = d (p @ ''.ses'')" "d' (q @ ''.oq'') = d (p @ ''.oq'')"
    "d' (q @ ''.rsum'') = d (p @ ''.rsum'')" "d' (q @ ''.hist'') = d (p @ ''.hist'')" "d' (q @ ''.ava'') = d (p @ ''.ava'')"
    using r(1) [of "[]"] r(1) [of "''.tt''"] r(1) [of "''.ses''"] r(1) [of "''.oq''"] r(1) [of "''.rsum''"] r(1) [of "''.hist''"] r(1) [of "''.ava''"]
    by (simp_all add: suffixes_def)
  then show ?thesis
    using r(2) by (simp add: tt_settings_load_def tt_settings_load_e2ee_def settings_path_def tt_session_store_load_def ses_path_def tt_oq_load_def oq_path_def
        tt_resume_load_def rsum_path_def tt_hist_load_def hist_path_def ava_path_def sidecar_read_def split: option.splits)
qed

section \<open>Deleting\<close>

lemma delete_all_files: "delete_all path d = (\<lambda>f. if \<exists>s \<in> set suffixes. f = path @ s then None else d f)"
  by (auto simp: delete_all_def suffixes_def fun_eq_iff)

text \<open>The confirmation deletes the profile that is selected when it is pressed, which need not be the one the dialog
  names: selecting another row while the dialog is open deletes that other profile and keeps the named one.\<close>

theorem delete_hits_the_selected:
  assumes "\<not> no_selection pk" "\<not> pk_delete pk" "0 \<le> j" "j < int (length (pk_profiles pk))" "pk_profiles pk ! nat j \<noteq> selected pk"
    "pk1 = pk_select (Some j) (pk_delete_open pk)" "d1 = fst (pk_delete_ok dir d pk1)"
  shows "pk_label pk1 = selected pk \<and> (\<forall>s \<in> set suffixes. d1 ((selected pk @ ''.tox'') @ s) = d ((selected pk @ ''.tox'') @ s)) \<and>
    (\<forall>s \<in> set suffixes. d1 ((pk_profiles pk ! nat j @ ''.tox'') @ s) = None)"
proof -
  have pk1: "pk1 = pk \<lparr>pk_delete := True, pk_label := selected pk, pk_sel := j\<rparr>" using assms(1,2,6) by (simp add: pk_delete_open_def pk_select_def)
  have "\<not> no_selection pk1" "selected pk1 = pk_profiles pk ! nat j" using pk1 assms(3,4) by (simp_all add: no_selection_def selected_def)
  then have d1: "d1 = delete_all (pk_profiles pk ! nat j @ ''.tox'') d" using assms(7) pk1 by (simp add: pk_delete_ok_def Let_def)
  have "(selected pk @ ''.tox'') @ s \<noteq> (pk_profiles pk ! nat j @ ''.tox'') @ s'" if "s \<in> set suffixes" "s' \<in> set suffixes" for s s'
    using profile_path_inj [of "selected pk" s "pk_profiles pk ! nat j" s'] that assms(5) by auto
  then show ?thesis using pk1 by (auto simp: d1 delete_all_files)
qed

section \<open>Witnesses\<close>

definition demo_picker :: Picker where
  "demo_picker = picker_zero \<lparr>pk_profiles := [''a'', ''b''], pk_sel := 0\<rparr>"

theorem rename_keeps_data_witness:
  "let d' = fst (pk_rename_ok (\<lambda>_. True) ''c!'' (\<lambda>_. []) [''a.tox'' \<mapsto> [1], ''a.tox.oq'' \<mapsto> [2]] (demo_picker \<lparr>pk_rename := True\<rparr>))
   in d' ''c.tox'' = Some [1] \<and> d' ''a.tox'' = None"
proof -
  let ?pk = "demo_picker \<lparr>pk_rename := True\<rparr>" and ?d = "[''a.tox'' \<mapsto> [1 :: byte], ''a.tox.oq'' \<mapsto> [2]]"
  have c: "clean_name ''c!'' = ''c''" by (simp add: clean_name_def name_char_def)
  have s: "selected ?pk = ''a''" "\<not> no_selection ?pk" by (simp_all add: selected_def no_selection_def demo_picker_def)
  have "pk_rename ?pk" "clean_name ''c!'' \<noteq> []" "selected ?pk \<noteq> clean_name ''c!''" "\<forall>s \<in> set suffixes. ?d ((clean_name ''c!'' @ ''.tox'') @ s) = None"
    by (simp_all add: c s suffixes_def)
  note r = rename_keeps_data [OF this(1) s(2) this(2,3) refl refl this(4) refl, of "\<lambda>_. []"]
  let ?d' = "fst (pk_rename_ok (\<lambda>_. True) ''c!'' (\<lambda>_. []) ?d ?pk)"
  have "?d' (clean_name ''c!'' @ ''.tox'') = ?d (selected ?pk @ ''.tox'')" "\<forall>s \<in> set suffixes. ?d' ((selected ?pk @ ''.tox'') @ s) = None"
    using r by blast+
  then have "?d' ''c.tox'' = Some [1]" "?d' ''a.tox'' = None" by (simp_all add: c s suffixes_def)
  then show ?thesis unfolding Let_def by blast
qed

theorem delete_hits_the_selected_witness:
  "let pk = pk_select (Some 1) (pk_delete_open demo_picker); d = fst (pk_delete_ok (\<lambda>_. []) [''a.tox'' \<mapsto> [1], ''b.tox'' \<mapsto> [2]] pk)
   in pk_label pk = ''a'' \<and> d ''a.tox'' = Some [1] \<and> d ''b.tox'' = None"
proof -
  have "\<not> no_selection demo_picker" "\<not> pk_delete demo_picker" "(0 :: int) \<le> 1" "1 < int (length (pk_profiles demo_picker))"
    "pk_profiles demo_picker ! nat 1 \<noteq> selected demo_picker"
    by (simp_all add: no_selection_def selected_def demo_picker_def picker_zero_def)
  from delete_hits_the_selected [OF this refl refl, of "\<lambda>_. []" "[''a.tox'' \<mapsto> [1], ''b.tox'' \<mapsto> [2]]"]
  show ?thesis by (simp add: Let_def suffixes_def selected_def demo_picker_def picker_zero_def)
qed

end
