(* ===== verification/Transcript.thy ===== *)
theory Transcript
  imports History
begin

text \<open>
  The transcripts of the user interface, \<^verbatim>\<open>src/src/ui/ui_tk.c\<close>: how a message is written
  into the fixed buffer of a chat, how the history pane is redrawn from the buffer, what is inserted while the
  chat is open, and the replacement of emoticons.  Strings are bytes without a zero.  The history
  widget is the list of its insertions, text with tag; the clock's text is an argument.
\<close>

abbreviation (input) "TT_TRANSCRIPT_MAX \<equiv> (65536 :: nat)"
abbreviation (input) "TT_LAST_MAX \<equiv> (48 :: nat)"

type_synonym insertion = "bytes \<times> string"

section \<open>Emoticons\<close>

definition EMOTICONS :: "(bytes \<times> bytes) list" where
  "EMOTICONS =
     [([58, 39, 40], [0xf0, 0x9f, 0x98, 0xa2]), (ascii ''>:('', [0xf0, 0x9f, 0x98, 0xa0]),
      (ascii '':-)'', [0xf0, 0x9f, 0x99, 0x82]), (ascii '':-('', [0xf0, 0x9f, 0x99, 0x81]),
      (ascii '':-D'', [0xf0, 0x9f, 0x98, 0x84]), (ascii '';-)'', [0xf0, 0x9f, 0x98, 0x89]),
      (ascii '':)'', [0xf0, 0x9f, 0x99, 0x82]), (ascii '':('', [0xf0, 0x9f, 0x99, 0x81]),
      (ascii '';)'', [0xf0, 0x9f, 0x98, 0x89]), (ascii '':D'', [0xf0, 0x9f, 0x98, 0x84]),
      (ascii '':P'', [0xf0, 0x9f, 0x98, 0x9b]), (ascii '';P'', [0xf0, 0x9f, 0x98, 0x9c]),
      (ascii '':o'', [0xf0, 0x9f, 0x98, 0xae]), (ascii '':*'', [0xf0, 0x9f, 0x98, 0x98]),
      (ascii ''<3'', [0xf0, 0x9f, 0x92, 0x9a]), (ascii '':/'', [0xf0, 0x9f, 0x99, 0x8d]),
      (ascii '':|'', [0xf0, 0x9f, 0x98, 0x90]), (ascii ''B)'', [0xf0, 0x9f, 0x98, 0x8e])]"

text \<open>The inner loop: \<open>rlen\<close> and \<open>rep\<close>.\<close>

definition emoticon_at :: "bytes \<Rightarrow> nat \<times> bytes option" where
  "emoticon_at buf =
     foldl (\<lambda>(rlen, rep) (pat, uni).
        if take (length pat) buf = pat \<and> length pat > rlen then (length pat, Some uni) else (rlen, rep)) (0, None) EMOTICONS"

abbreviation (input) "EMOTIFY_OUT \<equiv> (1372 * 4 + 8 :: nat)"

function emotify_loop :: "bytes \<Rightarrow> bytes \<Rightarrow> bytes" where
  "emotify_loop out [] = out"
| "emotify_loop out (c # cs) =
     (case emoticon_at (c # cs) of
        (rlen, Some uni) \<Rightarrow>
          if length out + length uni \<ge> EMOTIFY_OUT then out
          else emotify_loop (out @ uni) (drop (rlen - 1) cs)
      | (_, None) \<Rightarrow> emotify_loop (if length out + 1 < EMOTIFY_OUT then out @ [c] else out) cs)"
  by pat_completeness auto
termination
  by (relation "measure (\<lambda>(out, buf). length buf)") auto

definition emotify :: "bytes \<Rightarrow> nat \<Rightarrow> bytes" where
  "emotify buf cap = take (cap - 1) (emotify_loop [] buf)"

section \<open>Writing a line\<close>

definition transcript_line :: "bytes \<Rightarrow> bytes \<Rightarrow> int \<Rightarrow> bytes \<Rightarrow> bytes" where
  "transcript_line stamp who me text = stamp @ [31, if me \<noteq> 0 then 49 else 48, 31] @ who @ [31] @ text @ [10]"

text \<open>Whole lines are dropped from the front until the new one fits.\<close>

function drop_lines :: "nat \<Rightarrow> bytes \<Rightarrow> bytes" where
  "drop_lines need tr =
     (if tr = [] \<or> length tr + need < TT_TRANSCRIPT_MAX then tr
      else case dropWhile (\<lambda>c. c \<noteq> 10) tr of [] \<Rightarrow> [] | nl # rest \<Rightarrow> drop_lines need rest)"
  by pat_completeness auto
termination
proof (relation "measure (\<lambda>(need, tr). length tr)", simp)
  fix need :: nat and tr nl rest
  assume "dropWhile (\<lambda>c :: byte. c \<noteq> 10) tr = nl # rest"
  then show "((need, rest), need, tr) \<in> measure (\<lambda>(need, tr). length tr)"
    using length_dropWhile_le [of "\<lambda>c :: byte. c \<noteq> 10" tr] by simp
qed

declare drop_lines.simps [simp del]

text \<open>The new transcript and the preview of the roster.\<close>

definition transcript_append :: "bytes \<Rightarrow> bytes \<Rightarrow> bytes \<Rightarrow> int \<Rightarrow> bytes \<Rightarrow> bytes \<times> bytes" where
  "transcript_append stamp transcript who me text =
     (let need = length stamp + length who + length text + 8;
          tr = drop_lines need transcript;
          cap = TT_TRANSCRIPT_MAX - length tr;
          line = transcript_line stamp who me text;
          tr' = (if length line < cap then tr @ line
                 else if cap \<ge> 2 then tr @ take (cap - 2) line @ [10]
                 else tr @ take (cap - 1) line)
      in (tr', take (TT_LAST_MAX - 1) text))"

section \<open>Redrawing\<close>

definition hist_line_classify :: "byte \<Rightarrow> string \<times> bool" where
  "hist_line_classify fl =
     (let sys = (fl = 50 \<or> fl = 51) in (if sys then [] else if fl = 49 then ''who_me'' else ''who'', sys))"

definition cut_at :: "byte \<Rightarrow> bytes \<Rightarrow> bytes \<times> bytes option" where
  "cut_at c xs = (takeWhile (\<lambda>x. x \<noteq> c) xs, case dropWhile (\<lambda>x. x \<noteq> c) xs of [] \<Rightarrow> None | _ # r \<Rightarrow> Some r)"

definition header_body :: "bytes \<Rightarrow> string \<Rightarrow> bytes \<Rightarrow> bytes \<Rightarrow> insertion list" where
  "header_body who tag stamp body =
     [(who, tag), ([9], ''stamp''), (stamp, ''stamp''), ([10], []), (body, ''msg''), ([10], ''gap'')]"

definition render_line :: "bytes \<Rightarrow> insertion list" where
  "render_line line =
     (case cut_at 31 line of
        (stamp, Some r1) \<Rightarrow>
          (case cut_at 31 r1 of
             (flag, Some r2) \<Rightarrow>
               (case cut_at 31 r2 of
                  (who, Some body) \<Rightarrow>
                    (case hist_line_classify (if flag = [] then 0 else hd flag) of
                       (who_tag, sys) \<Rightarrow>
                         if sys then [(body, ''sys''), ([10], ''gap'')] else header_body who who_tag stamp body)
                | (_, None) \<Rightarrow> [(line, []), ([10], [])])
           | (_, None) \<Rightarrow> [(line, []), ([10], [])])
      | (_, None) \<Rightarrow> [(line, []), ([10], [])])"

function hist_render :: "bytes \<Rightarrow> insertion list" where
  "hist_render p =
     (if p = [] then []
      else case cut_at 10 p of
        (line, nl) \<Rightarrow> render_line (take 4095 line) @ (case nl of None \<Rightarrow> [] | Some rest \<Rightarrow> hist_render rest))"
  by pat_completeness auto
termination
proof (relation "measure length", simp)
  fix p x line nl rest
  assume "(line, nl) = cut_at 10 p" "nl = Some rest" 
  then have "\<exists>c. dropWhile (\<lambda>x. x \<noteq> 10) p = c # rest" by (auto simp: cut_at_def split: list.splits)
  then show "(rest, p) \<in> measure length"
    using length_dropWhile_le [of "\<lambda>x :: byte. x \<noteq> 10" p] by auto
qed

declare hist_render.simps [simp del]

text \<open>What an open chat shows at once; flag 2 or 3 is a system line.\<close>

definition hist_append_live :: "bytes \<Rightarrow> bytes \<Rightarrow> int \<Rightarrow> bytes \<Rightarrow> insertion list" where
  "hist_append_live stamp who me text =
     (if bit me 1 then [(text, ''sys''), ([10], ''gap'')]
      else header_body who (if me \<noteq> 0 then ''who_me'' else ''who'') stamp text)"

section \<open>Redrawing gives what was shown\<close>

text \<open>A message as it is appended, its line, and what an open chat shows of it.\<close>

type_synonym message = "bytes \<times> bytes \<times> int \<times> bytes"

definition line_of :: "message \<Rightarrow> bytes" where
  "line_of m = (case m of (stamp, who, me, text) \<Rightarrow> transcript_line stamp who me text)"

definition live_of :: "message \<Rightarrow> insertion list" where
  "live_of m = (case m of (stamp, who, me, text) \<Rightarrow> hist_append_live stamp who me text)"

definition append_of :: "bytes \<Rightarrow> message \<Rightarrow> bytes" where
  "append_of tr m = (case m of (stamp, who, me, text) \<Rightarrow> fst (transcript_append stamp tr who me text))"

text \<open>The window a buffer of this size keeps: the oldest messages go until the new one fits.\<close>

function keep_newest :: "message list \<Rightarrow> message \<Rightarrow> message list" where
  "keep_newest ws m =
     (if ws = [] \<or> sum_list (map (\<lambda>w. length (line_of w)) ws) + length (line_of m) + 3 < TT_TRANSCRIPT_MAX then ws @ [m]
      else keep_newest (tl ws) m)"
  by pat_completeness auto
termination
  by (relation "measure (\<lambda>(ws, m). length ws)") auto

declare keep_newest.simps [simp del]

text \<open>A message of a friend or of our own on one line, short enough to be shown whole.\<close>

definition plain :: "message \<Rightarrow> bool" where
  "plain m \<longleftrightarrow> (case m of (stamp, who, me, text) \<Rightarrow>
     me \<in> {0, 1} \<and> 10 \<notin> set stamp \<union> set who \<union> set text \<and> 31 \<notin> set stamp \<union> set who \<and> length (line_of m) \<le> 4096)"

lemma cut_at_append [simp]: "c \<notin> set xs \<Longrightarrow> cut_at c (xs @ c # ys) = (xs, Some ys)"
  unfolding cut_at_def by (induction xs) auto

lemma length_line_of [simp]: "length (line_of (stamp, who, me, text)) = length stamp + length who + length text + 5"
  by (simp add: line_of_def transcript_line_def)

lemma plain_line:
  assumes "plain m"
  obtains l where "line_of m = l @ [10]" "10 \<notin> set l" "length l \<le> 4095" "render_line l = live_of m"
proof -
  obtain stamp who me tx where m: "m = (stamp, who, me, tx)" by (cases m)
  let ?l = "stamp @ 31 # [if me \<noteq> 0 then 49 else 48] @ 31 # who @ 31 # tx"
  have p: "me = 0 \<or> me = 1" "10 \<notin> set stamp \<union> set who \<union> set tx" "31 \<notin> set stamp" "31 \<notin> set who" "length (line_of m) \<le> 4096"
    using assms by (auto simp: plain_def m)
  have "line_of m = ?l @ [10]" by (simp add: m line_of_def transcript_line_def)
  moreover have "10 \<notin> set ?l" using p(2) by auto
  moreover have "length ?l \<le> 4095" using p(5) by (simp add: m)
  moreover have "render_line ?l = live_of m"
    using p(1,3,4) cut_at_append [of 31 "[if me \<noteq> 0 then 49 else 48]"]
    by (auto simp: render_line_def m live_of_def hist_append_live_def hist_line_classify_def)
  ultimately show ?thesis using that by blast
qed

lemma hist_render_Nil [simp]: "hist_render [] = []"
  by (simp add: hist_render.simps)

lemma hist_render_line:
  assumes "10 \<notin> set l" "length l \<le> 4095"
  shows "hist_render (l @ 10 # rest) = render_line l @ hist_render rest"
  using assms by (subst hist_render.simps) simp

lemma hist_render_plain:
  assumes "list_all plain ms"
  shows "hist_render (concat (map line_of ms) @ rest) = concat (map live_of ms) @ hist_render rest"
  using assms
proof (induction ms)
  case (Cons m ms)
  have "plain m" using Cons.prems by simp
  from plain_line [OF this] obtain l where "line_of m = l @ [10]" "10 \<notin> set l" "length l \<le> 4095" "render_line l = live_of m" by blast
  then show ?case using Cons by (simp add: hist_render_line)
qed simp

lemma drop_lines_line:
  assumes "10 \<notin> set l" "\<not> length (l @ 10 # rest) + need < TT_TRANSCRIPT_MAX"
  shows "drop_lines need (l @ 10 # rest) = drop_lines need rest"
proof -
  have "dropWhile (\<lambda>c. c \<noteq> 10) (l @ 10 # rest) = 10 # rest" using assms(1) by (induction l) auto
  then show ?thesis
    using drop_lines.simps [of need "l @ 10 # rest"] if_not_P [OF assms(2)] assms(2) by (simp only: append_is_Nil_conv list.distinct simp_thms if_False list.case)
qed

lemma drop_lines_plain:
  assumes "list_all plain ws" "plain m"
  shows "drop_lines (length (line_of m) + 3) (concat (map line_of ws)) @ line_of m = concat (map line_of (keep_newest ws m))"
  using assms
proof (induction ws)
  case Nil
  then show ?case by (simp add: drop_lines.simps keep_newest.simps)
next
  case (Cons w ws)
  have "plain w" using Cons.prems by simp
  from plain_line [OF this] obtain l where l: "line_of w = l @ [10]" "10 \<notin> set l" by blast
  show ?case
  proof (cases "length (concat (map line_of (w # ws))) + (length (line_of m) + 3) < TT_TRANSCRIPT_MAX")
    case True
    then show ?thesis by (subst drop_lines.simps, subst keep_newest.simps) (simp add: length_concat comp_def)
  next
    case False
    have "drop_lines (length (line_of m) + 3) (concat (map line_of (w # ws))) = drop_lines (length (line_of m) + 3) (concat (map line_of ws))"
      using False l drop_lines_line [OF l(2), of "concat (map line_of ws)" "length (line_of m) + 3"] by simp
    moreover have "keep_newest (w # ws) m = keep_newest ws m"
      using False by (subst keep_newest.simps) (simp add: length_concat comp_def)
    ultimately show ?thesis using Cons by simp
  qed
qed

lemma keep_newest_plain: "list_all plain ws \<Longrightarrow> plain m \<Longrightarrow> list_all plain (keep_newest ws m)"
proof (induction ws m rule: keep_newest.induct)
  case (1 ws m)
  have "list_all plain (tl ws)" using 1(2) by (cases ws) auto
  then show ?case using 1 by (subst keep_newest.simps) auto
qed

lemma keep_newest_size:
  "plain m \<Longrightarrow> length (concat (map line_of (keep_newest ws m))) < TT_TRANSCRIPT_MAX"
proof (induction ws m rule: keep_newest.induct)
  case (1 ws m)
  have "length (line_of m) \<le> 4096" using 1(2) by (auto simp: plain_def split: prod.splits)
  then show ?case using 1 by (subst keep_newest.simps) (auto simp: length_concat comp_def)
qed

lemma transcript_append_fits:
  assumes "drop_lines (length (transcript_line stamp who me text) + 3) tr = tr'"
    "length tr' + length (transcript_line stamp who me text) < TT_TRANSCRIPT_MAX"
  shows "fst (transcript_append stamp tr who me text) = tr' @ transcript_line stamp who me text"
proof -
  have "length stamp + length who + length text + 8 = length (transcript_line stamp who me text) + 3" by (simp add: transcript_line_def)
  then have "drop_lines (length stamp + length who + length text + 8) tr = tr'" using assms(1) by (simp only:)
  moreover have "length (transcript_line stamp who me text) < TT_TRANSCRIPT_MAX - length tr'" using assms(2) by simp
  ultimately show ?thesis by (simp add: transcript_append_def Let_def)
qed

lemma append_plain:
  assumes "list_all plain ws" "plain m"
  shows "append_of (concat (map line_of ws)) m = concat (map line_of (keep_newest ws m))"
proof -
  obtain stamp who me tx where m: "m = (stamp, who, me, tx)" by (cases m)
  have e: "drop_lines (length (line_of m) + 3) (concat (map line_of ws)) @ line_of m = concat (map line_of (keep_newest ws m))"
    by (rule drop_lines_plain [OF assms])
  have "length (drop_lines (length (line_of m) + 3) (concat (map line_of ws)) @ line_of m) < TT_TRANSCRIPT_MAX"
    unfolding e by (rule keep_newest_size [OF assms(2)])
  then have "append_of (concat (map line_of ws)) m = drop_lines (length (line_of m) + 3) (concat (map line_of ws)) @ line_of m"
    using transcript_append_fits [OF refl, of stamp who me tx "concat (map line_of ws)"] by (simp add: append_of_def m line_of_def)
  then show ?thesis using e by simp
qed

lemma foldl_append_plain:
  assumes "list_all plain ws" "list_all plain ms"
  shows "foldl append_of (concat (map line_of ws)) ms = concat (map line_of (foldl keep_newest ws ms)) \<and> list_all plain (foldl keep_newest ws ms)"
  using assms
proof (induction ms arbitrary: ws)
  case (Cons m ms)
  then show ?case using append_plain [of ws m] keep_newest_plain [of ws m] by simp
qed simp



section \<open>What is not shown as it was\<close>

text \<open>A transcript made of whole lines.\<close>

definition whole_lines :: "bytes \<Rightarrow> bool" where
  "whole_lines tr \<longleftrightarrow> tr = [] \<or> last tr = 10"

lemma hist_render_whole:
  assumes "whole_lines tr"
  shows "hist_render (tr @ rest) = hist_render tr @ hist_render rest"
  using assms
proof (induction tr rule: hist_render.induct)
  case (1 tr)
  show ?case
  proof (cases "tr = []")
    case False
    then have nl: "10 \<in> set tr" using 1(2) last_in_set [of tr] by (auto simp: whole_lines_def)
    obtain l r where lr: "tr = l @ 10 # r" "10 \<notin> set l" using split_list_first [OF nl] by blast
    have c: "cut_at 10 tr = (l, Some r)" "cut_at 10 (tr @ rest) = (l, Some (r @ rest))" using lr by simp_all
    have "whole_lines r" using 1(2) lr(1) by (auto simp: whole_lines_def split: if_splits)
    then have "hist_render (r @ rest) = hist_render r @ hist_render rest" using 1(1) [OF False c(1) [symmetric] refl] by simp
    then show ?thesis using False c by (subst (1 2) hist_render.simps) simp
  qed simp
qed

text \<open>C37: The author of a line can be forged: a friend's message with a line break, followed by a well-formed line, is
  redrawn as the friend's message and a message of our own, with text and time chosen by the friend.\<close>

theorem friend_forges_own_message:
  assumes "whole_lines tr" "length tr + length (transcript_line stamp who 0 text) + 3 < TT_TRANSCRIPT_MAX"
    "text = t @ [10] @ stamp' @ [31, 49, 31] @ me' @ [31] @ t'" "plain (stamp, who, 0, t)" "plain (stamp', me', 1, t')"
  shows "hist_render (fst (transcript_append stamp tr who 0 text)) =
    hist_render tr @ hist_append_live stamp who 0 t @ hist_append_live stamp' me' 1 t'"
proof -
  have "drop_lines (length (transcript_line stamp who 0 text) + 3) tr = tr" using assms(2) by (simp add: drop_lines.simps)
  then have "fst (transcript_append stamp tr who 0 text) = tr @ transcript_line stamp who 0 text"
    by (rule transcript_append_fits) (use assms(2) in simp)
  also have "\<dots> = tr @ concat (map line_of [(stamp, who, 0, t), (stamp', me', 1, t')])"
    by (simp add: line_of_def transcript_line_def assms(3))
  finally show ?thesis
    using hist_render_plain [of "[(stamp, who, 0, t), (stamp', me', 1, t')]" "[]"] assms(4,5)
    by (simp add: hist_render_whole [OF assms(1)] live_of_def)
qed

theorem friend_forges_own_message_witness:
  "hist_render (fst (transcript_append [49] [] [65] 0 [104, 105, 10, 50, 31, 49, 31, 77, 101, 31, 121, 101, 115])) =
     [([65], ''who''), ([9], ''stamp''), ([49], ''stamp''), ([10], []), ([104, 105], ''msg''), ([10], ''gap''),
      ([77, 101], ''who_me''), ([9], ''stamp''), ([50], ''stamp''), ([10], []), ([121, 101, 115], ''msg''), ([10], ''gap'')]"
proof -
  have "whole_lines []" "length ([] :: bytes) + length (transcript_line [49] [65] 0 [104, 105, 10, 50, 31, 49, 31, 77, 101, 31, 121, 101, 115]) + 3 < TT_TRANSCRIPT_MAX"
    "[104, 105, 10, 50, 31, 49, 31, 77, 101, 31, 121, 101, 115] = [104, 105] @ [10] @ [50] @ [31, 49, 31] @ [77, 101] @ [31] @ [121, 101, 115 :: byte]"
    "plain ([49], [65], 0, [104, 105])" "plain ([50], [77, 101], 1, [121, 101, 115])"
    by (simp_all add: whole_lines_def transcript_line_def plain_def)
  from friend_forges_own_message [OF this] show ?thesis
    by (simp add: hist_append_live_def header_body_def)
qed

text \<open>A system line is gray while the chat is open but is stored with flag 1 and redrawn as a message of our own.\<close>

theorem system_line_redrawn_as_own:
  assumes "me \<in> {2, 3}" "plain (stamp, who, 1, text)"
  shows "hist_append_live stamp who me text = [(text, ''sys''), ([10], ''gap'')] \<and>
    hist_render (fst (transcript_append stamp [] who me text)) = header_body who ''who_me'' stamp text"
proof -
  have "transcript_line stamp who me text = transcript_line stamp who 1 text" using assms(1) by (auto simp: transcript_line_def)
  then have "fst (transcript_append stamp [] who me text) = append_of [] (stamp, who, 1, text)"
    by (simp add: transcript_append_def append_of_def Let_def)
  also have "\<dots> = concat (map line_of [(stamp, who, 1, text)])"
    using append_plain [of "[]" "(stamp, who, 1, text)"] assms(2) by (simp add: keep_newest.simps)
  finally have "hist_render (fst (transcript_append stamp [] who me text)) = live_of (stamp, who, 1, text)"
    using hist_render_plain [of "[(stamp, who, 1, text)]" "[]"] assms(2) by simp
  then show ?thesis using assms(1) by (auto simp: live_of_def hist_append_live_def)
qed

theorem system_line_redrawn_as_own_witness:
  "hist_render (fst (transcript_append [49] [] [121] 3 [120])) = header_body [121] ''who_me'' [49] [120]"
  using system_line_redrawn_as_own [of 3 "[49]" "[121]" "[120]"] by (simp add: plain_def)

end
