(* ===== verification/UiState.thy ===== *)
theory UiState
  imports Transcript ChessWire PortList Settings
begin

text \<open>
  The state of the Tk front end, \<^verbatim>\<open>src/src/ui/ui_tk.c\<close>: the rows of the roster, the groups with their
  members, the mirrored tunnels and the windows that are open, with the operations on them, the
  selection, the stored history and the typing indicator.  Linked lists are lists; a found pointer is the
  first matching row and is written with \<open>upd_first\<close>.  Widgets only show this state and are left out, except the
  history pane (\<open>u_hist\<close>, its insertions), the label of the file dialog and which dialogs are up.
  Posted commands are collected in \<open>u_posted\<close>, and
  \<open>u_video_timers\<close> counts the queued ticks of the video pane.
\<close>

abbreviation (input) "TT_NAME_MAX \<equiv> (128 :: nat)"
abbreviation (input) "TOX_MAX_STATUS_MESSAGE_LENGTH \<equiv> (1007 :: nat)"
abbreviation (input) "TOX_MAX_FILENAME_LENGTH \<equiv> (255 :: nat)"
abbreviation (input) "TOX_GROUP_MAX_TOPIC_LENGTH \<equiv> (512 :: nat)"
abbreviation (input) "TOX_MAX_MESSAGE_LENGTH \<equiv> (1372 :: nat)"
abbreviation (input) "UINT32_MAX \<equiv> (4294967295 :: nat)"

datatype TTCommandType =
    TT_CMD_ADD_FRIEND | TT_CMD_ACCEPT_FRIEND | TT_CMD_DELETE_FRIEND | TT_CMD_SEND_MESSAGE | TT_CMD_SET_NAME
  | TT_CMD_SET_STATUS_MSG | TT_CMD_CYCLE_STATUS | TT_CMD_SET_STATUS | TT_CMD_SET_NOSPAM | TT_CMD_SET_AVATAR
  | TT_CMD_CLEAR_AVATAR | TT_CMD_SEND_FILE | TT_CMD_FILE_ACCEPT | TT_CMD_FILE_REJECT
  | TT_CMD_GROUP_CREATE | TT_CMD_GROUP_JOIN | TT_CMD_GROUP_LEAVE | TT_CMD_GROUP_SEND | TT_CMD_GROUP_PRIV_SEND
  | TT_CMD_GROUP_TOPIC | TT_CMD_GROUP_INVITE | TT_CMD_GROUP_INVITE_ACC | TT_CMD_GROUP_INVITE_DEC | TT_CMD_GROUP_PASSWORD
  | TT_CMD_GROUP_PRIVACY | TT_CMD_GROUP_VOICE | TT_CMD_GROUP_TOPIC_LOCK | TT_CMD_GROUP_PEER_LIMIT | TT_CMD_GROUP_ROLE
  | TT_CMD_GROUP_KICK | TT_CMD_GROUP_IGNORE | TT_CMD_GROUP_SYNC | TT_CMD_SET_TYPING | TT_CMD_FILE_CANCEL
  | TT_CMD_AV_CALL | TT_CMD_AV_ANSWER | TT_CMD_AV_HANGUP | TT_CMD_AV_PAUSE | TT_CMD_AV_RESUME | TT_CMD_AV_MUTE
  | TT_CMD_AV_DEAF | TT_CMD_AV_SELFVIEW | TT_CMD_AV_CAMERA | TT_CMD_AV_VTEST | TT_CMD_AV_SET_VIDEO_BR
  | TT_CMD_E2EE_REORDER | TT_CMD_E2EE_REPLAY | TT_CMD_E2EE_ENFORCE
  | TT_CMD_CHESS_INVITE | TT_CMD_CHESS_ACCEPT | TT_CMD_CHESS_DECLINE | TT_CMD_CHESS_MOVE | TT_CMD_CHESS_RESIGN
  | TT_CMD_TUNNEL_ALLOW | TT_CMD_TUNNEL_DENY | TT_CMD_TUNNEL_SHARE | TT_CMD_TUNNEL_ACCEPT | TT_CMD_TUNNEL_DECLINE | TT_CMD_TUNNEL_STOP

record TTCommand =
  cmd_type :: TTCommandType
  cmd_fn :: nat
  cmd_str :: "bytes option"
  cmd_ival :: int
  cmd_ival2 :: int

section \<open>Rows\<close>

record Contact =
  ct_fn :: nat
  ct_is_request :: bool
  ct_name :: bytes
  ct_status_msg :: bytes
  ct_key_hex :: bytes
  ct_pubkey_hex :: bytes
  ct_last_online :: int
  ct_last :: bytes
  ct_conn :: int
  ct_presence :: int
  ct_unread :: nat
  ct_avatar_img :: bytes
  ct_transcript :: bytes
  ct_offer_pending :: bool
  ct_offer_id :: int
  ct_offer_size :: nat
  ct_offer_name :: bytes
  ct_xfer_me :: bool
  ct_xfer_name :: bytes
  ct_xfer_running :: bool
  ct_xfer_run_id :: int
  ct_last_mid :: nat
  ct_last_read :: nat
  ct_peer_typing :: bool
  ct_call_state :: int
  ct_call_incoming :: bool
  ct_call_active :: bool
  ct_call_muted :: bool
  ct_call_deaf :: bool
  ct_call_video :: bool
  ct_call_cam :: bool
  ct_call_started :: int
  ct_call_paused_self :: bool
  ct_call_ringing :: bool
  ct_e2ee :: bool
  ct_e2ee_code :: bytes
  ct_e2ee_required :: bool

datatype SelKind = TT_SEL_NONE | TT_SEL_REQUEST | TT_SEL_CHAT | TT_SEL_GROUP

record GroupMember =
  gm_pid :: nat
  gm_name :: bytes
  gm_role :: int
  gm_ignored :: bool
  gm_announce :: bool

record Group =
  gr_gn :: nat
  gr_name :: bytes
  gr_topic :: bytes
  gr_chat_id_hex :: bytes
  gr_self_role :: int
  gr_self_pid :: nat
  gr_privacy :: int
  gr_voice :: int
  gr_topic_lock :: int
  gr_peer_limit :: int
  gr_unread :: nat
  gr_last :: bytes
  gr_transcript :: bytes
  gr_members :: "GroupMember list"

record TTTunnelUI =
  tn_id :: nat
  tn_host :: bool
  tn_pending :: bool
  tn_e2ee :: bool
  tn_peer_fn :: nat
  tn_endpoint :: bytes

record Ui =
  u_contacts :: "Contact list"
  u_groups :: "Group list"
  u_sel_kind :: SelKind
  u_sel_fn :: nat
  u_typing_fn :: nat
  u_typing_sent :: bool
  u_typing_last :: int
  u_typing_idle_sched :: bool
  u_call_timer_sched :: bool
  u_self_name :: bytes
  u_self_status_msg :: bytes
  u_self_presence :: int
  u_self_conn :: int
  u_tor_mode :: bool
  u_my_toxid :: bytes
  u_filter :: bytes
  u_ready :: bool
  u_add_open :: bool
  u_name_open :: bool
  u_smsg_open :: bool
  u_st_open :: bool
  u_history :: bool
  u_offer_open :: bool
  u_offer_label :: bytes
  u_gnew_open :: bool
  u_gjoin_open :: bool
  u_ginvite_open :: bool
  u_gtopic_open :: bool
  u_gctl_open :: bool
  u_pass_open :: bool
  u_quitting :: bool
  u_self_avatar_img :: bytes
  u_avatar_seq :: nat
  u_video_img :: bool
  u_video_sched :: bool
  u_video_timers :: nat
  u_video_frame :: bytes
  u_video_w :: nat
  u_video_h :: nat
  u_video_cap :: nat
  u_video_last :: int
  u_video_self :: bool
  u_chess_fn :: nat
  u_chess_board :: TTChess
  u_chess_self :: TTColor
  u_chess_started :: bool
  u_chess_my_turn :: bool
  u_chess_sel_rank :: int
  u_chess_sel_file :: int
  u_chess_dragging :: bool
  u_chess_invite_open :: bool
  u_tun_panel_open :: bool
  u_tun_share_open :: bool
  u_tun_invite_open :: bool
  u_tun_invite_fn :: nat
  u_tun_invite_udp :: TTPortRangeList
  u_tun_invite_tcp :: TTPortRangeList
  u_tun_invite_host :: bytes
  u_tunnels :: "TTTunnelUI list"
  u_gi :: "int option"
  u_hist :: "insertion list"
  u_posted :: "TTCommand list"

text \<open>
  What the outside gives: the clock and its text, the success of an allocation, whether the members window
  exists, whether an image decodes, and the files for the stored history.
\<close>

record uenv =
  x_now :: int
  x_stamp :: bytes
  x_alloc :: bool
  x_gm :: bool
  x_decodes :: "bytes \<Rightarrow> bool"
  x_profile :: "string option"
  x_key :: "bytes option"
  x_toxes :: toxes
  x_io :: "nat \<Rightarrow> bool"
  x_disk :: disk

section \<open>Lists\<close>

fun upd_first :: "('a \<Rightarrow> bool) \<Rightarrow> ('a \<Rightarrow> 'a) \<Rightarrow> 'a list \<Rightarrow> 'a list" where
  "upd_first P f [] = []"
| "upd_first P f (x # xs) = (if P x then f x # xs else x # upd_first P f xs)"

fun remove_first :: "('a \<Rightarrow> bool) \<Rightarrow> 'a list \<Rightarrow> 'a list" where
  "remove_first P [] = []"
| "remove_first P (x # xs) = (if P x then xs else x # remove_first P xs)"

definition tt_post2 :: "TTCommandType \<Rightarrow> nat \<Rightarrow> bytes option \<Rightarrow> int \<Rightarrow> int \<Rightarrow> Ui \<Rightarrow> Ui" where
  "tt_post2 ty fn str ival ival2 ui =
     ui \<lparr>u_posted := u_posted ui @ [\<lparr>cmd_type = ty, cmd_fn = fn, cmd_str = str, cmd_ival = ival, cmd_ival2 = ival2\<rparr>]\<rparr>"

definition tt_post :: "TTCommandType \<Rightarrow> nat \<Rightarrow> bytes option \<Rightarrow> int \<Rightarrow> Ui \<Rightarrow> Ui" where
  "tt_post ty fn str ival = tt_post2 ty fn str ival 0"

section \<open>Contacts\<close>

definition is_friend :: "nat \<Rightarrow> Contact \<Rightarrow> bool" where
  "is_friend fn c \<longleftrightarrow> \<not> ct_is_request c \<and> ct_fn c = fn"

definition contact_by_fn :: "Ui \<Rightarrow> nat \<Rightarrow> Contact option" where
  "contact_by_fn ui fn = find (is_friend fn) (u_contacts ui)"

definition request_row :: "Ui \<Rightarrow> Contact option" where
  "request_row ui = find ct_is_request (u_contacts ui)"

definition contact_zero :: Contact where
  "contact_zero =
     \<lparr>ct_fn = 0, ct_is_request = False, ct_name = [], ct_status_msg = [], ct_key_hex = [], ct_pubkey_hex = [],
      ct_last_online = 0, ct_last = [], ct_conn = 0, ct_presence = 0, ct_unread = 0, ct_avatar_img = [], ct_transcript = [],
      ct_offer_pending = False, ct_offer_id = 0, ct_offer_size = 0, ct_offer_name = [], ct_xfer_me = False, ct_xfer_name = [],
      ct_xfer_running = False, ct_xfer_run_id = 0, ct_last_mid = 0, ct_last_read = 0, ct_peer_typing = False,
      ct_call_state = 0, ct_call_incoming = False, ct_call_active = False, ct_call_muted = False, ct_call_deaf = False,
      ct_call_video = False, ct_call_cam = False, ct_call_started = 0, ct_call_paused_self = False, ct_call_ringing = False,
      ct_e2ee = False, ct_e2ee_code = [], ct_e2ee_required = False\<rparr>"

definition contact_add :: "nat \<Rightarrow> bool \<Rightarrow> Ui \<Rightarrow> Ui" where
  "contact_add fn is_request ui =
     ui \<lparr>u_contacts := u_contacts ui @ [contact_zero \<lparr>ct_fn := fn, ct_is_request := is_request\<rparr>]\<rparr>"

definition upd_contact :: "nat \<Rightarrow> (Contact \<Rightarrow> Contact) \<Rightarrow> Ui \<Rightarrow> Ui" where
  "upd_contact fn f ui = ui \<lparr>u_contacts := upd_first (is_friend fn) f (u_contacts ui)\<rparr>"

text \<open>\<open>P\<close> finds the row that goes.\<close>

definition contact_remove :: "(Contact \<Rightarrow> bool) \<Rightarrow> Ui \<Rightarrow> Ui" where
  "contact_remove P ui =
     (case find P (u_contacts ui) of
        None \<Rightarrow> ui
      | Some dead \<Rightarrow>
          let ui1 = ui \<lparr>u_contacts := remove_first P (u_contacts ui)\<rparr> in
          if ct_offer_pending dead then tt_post TT_CMD_FILE_REJECT 0 None (ct_offer_id dead) ui1 else ui1)"

definition contact_get :: "uenv \<Rightarrow> nat \<Rightarrow> Ui \<Rightarrow> Ui option" where
  "contact_get X fn ui =
     (case contact_by_fn ui fn of
        Some _ \<Rightarrow> Some ui
      | None \<Rightarrow> if x_alloc X then Some (contact_add fn False ui) else None)"

section \<open>Groups\<close>

definition is_group :: "nat \<Rightarrow> Group \<Rightarrow> bool" where
  "is_group gn g \<longleftrightarrow> gr_gn g = gn"

definition group_by_gn :: "Ui \<Rightarrow> nat \<Rightarrow> Group option" where
  "group_by_gn ui gn = find (is_group gn) (u_groups ui)"

definition group_zero :: Group where
  "group_zero =
     \<lparr>gr_gn = 0, gr_name = [], gr_topic = [], gr_chat_id_hex = [], gr_self_role = 0, gr_self_pid = 0, gr_privacy = 0,
      gr_voice = 0, gr_topic_lock = 0, gr_peer_limit = 0, gr_unread = 0, gr_last = [], gr_transcript = [], gr_members = []\<rparr>"

abbreviation (input) "TOX_GROUP_ROLE_FOUNDER \<equiv> (0 :: int)"
abbreviation (input) "TOX_GROUP_ROLE_MODERATOR \<equiv> (1 :: int)"
abbreviation (input) "TOX_GROUP_ROLE_USER \<equiv> (2 :: int)"
abbreviation (input) "TOX_GROUP_ROLE_OBSERVER \<equiv> (3 :: int)"

text \<open>A new group goes to the end whether or not its number is listed.\<close>

definition new_group :: "nat \<Rightarrow> Group" where
  "new_group gn = group_zero \<lparr>gr_gn := gn, gr_self_role := TOX_GROUP_ROLE_USER\<rparr>"

definition group_add :: "Group \<Rightarrow> Ui \<Rightarrow> Ui" where
  "group_add g ui = ui \<lparr>u_groups := u_groups ui @ [g]\<rparr>"

definition upd_group :: "nat \<Rightarrow> (Group \<Rightarrow> Group) \<Rightarrow> Ui \<Rightarrow> Ui" where
  "upd_group gn f ui = ui \<lparr>u_groups := upd_first (is_group gn) f (u_groups ui)\<rparr>"

definition group_remove :: "nat \<Rightarrow> Ui \<Rightarrow> Ui" where
  "group_remove gn ui = ui \<lparr>u_groups := remove_first (is_group gn) (u_groups ui)\<rparr>"

definition is_member :: "nat \<Rightarrow> GroupMember \<Rightarrow> bool" where
  "is_member pid m \<longleftrightarrow> gm_pid m = pid"

definition group_member :: "Group \<Rightarrow> nat \<Rightarrow> GroupMember option" where
  "group_member g pid = find (is_member pid) (gr_members g)"

definition group_member_upsert :: "uenv \<Rightarrow> nat \<Rightarrow> Group \<Rightarrow> Group" where
  "group_member_upsert X pid g =
     (case group_member g pid of
        Some _ \<Rightarrow> g
      | None \<Rightarrow>
          if x_alloc X
          then g \<lparr>gr_members := gr_members g @ [\<lparr>gm_pid = pid, gm_name = [], gm_role = TOX_GROUP_ROLE_USER, gm_ignored = False, gm_announce = False\<rparr>]\<rparr>
          else g)"

definition upd_member :: "nat \<Rightarrow> (GroupMember \<Rightarrow> GroupMember) \<Rightarrow> Group \<Rightarrow> Group" where
  "upd_member pid f g = g \<lparr>gr_members := upd_first (is_member pid) f (gr_members g)\<rparr>"

definition drop_member :: "nat \<Rightarrow> Group \<Rightarrow> Group" where
  "drop_member pid g = g \<lparr>gr_members := remove_first (is_member pid) (gr_members g)\<rparr>"

section \<open>Tunnels\<close>

definition is_tunnel :: "nat \<Rightarrow> TTTunnelUI \<Rightarrow> bool" where
  "is_tunnel i tn \<longleftrightarrow> tn_id tn = i"

definition tun_ui_find :: "Ui \<Rightarrow> nat \<Rightarrow> TTTunnelUI option" where
  "tun_ui_find ui i = find (is_tunnel i) (u_tunnels ui)"

definition upd_tunnel :: "nat \<Rightarrow> (TTTunnelUI \<Rightarrow> TTTunnelUI) \<Rightarrow> Ui \<Rightarrow> Ui" where
  "upd_tunnel i f ui = ui \<lparr>u_tunnels := upd_first (is_tunnel i) f (u_tunnels ui)\<rparr>"

definition tun_ui_remove :: "nat \<Rightarrow> Ui \<Rightarrow> Ui" where
  "tun_ui_remove i ui = ui \<lparr>u_tunnels := remove_first (is_tunnel i) (u_tunnels ui)\<rparr>"

section \<open>The selection\<close>

definition to_lower :: "byte \<Rightarrow> byte" where
  "to_lower c = (if 65 \<le> c \<and> c \<le> 90 then c + 32 else c)"

definition starts_ci :: "bytes \<Rightarrow> bytes \<Rightarrow> bool" where
  "starts_ci needle hay \<longleftrightarrow> map to_lower (take (length needle) hay) = map to_lower needle"

fun stristr :: "bytes \<Rightarrow> bytes \<Rightarrow> bool" where
  "stristr [] needle = (needle = [])"
| "stristr (c # cs) needle = (starts_ci needle (c # cs) \<or> stristr cs needle)"

definition contact_listed :: "Ui \<Rightarrow> Contact \<Rightarrow> bool" where
  "contact_listed ui c \<longleftrightarrow> u_filter ui = [] \<or> stristr (ct_name c) (u_filter ui) \<or> stristr (ct_status_msg c) (u_filter ui)"

definition group_listed :: "Ui \<Rightarrow> Group \<Rightarrow> bool" where
  "group_listed ui g \<longleftrightarrow> u_filter ui = [] \<or> stristr (gr_name g) (u_filter ui) \<or> stristr (gr_topic g) (u_filter ui)"

text \<open>Whether the redrawn roster still has the selected row.\<close>

definition have_keep :: "Ui \<Rightarrow> bool" where
  "have_keep ui \<longleftrightarrow>
     (case u_sel_kind ui of
        TT_SEL_NONE \<Rightarrow> False
      | TT_SEL_REQUEST \<Rightarrow> list_ex ct_is_request (u_contacts ui)
      | TT_SEL_CHAT \<Rightarrow> list_ex (\<lambda>c. is_friend (u_sel_fn ui) c \<and> contact_listed ui c) (u_contacts ui)
      | TT_SEL_GROUP \<Rightarrow> list_ex (\<lambda>g. is_group (u_sel_fn ui) g \<and> group_listed ui g) (u_groups ui))"

text \<open>The end of \<^verbatim>\<open>show_selected\<close>, when nothing is selected: an empty pane.\<close>

definition show_none :: "Ui \<Rightarrow> Ui" where
  "show_none ui = ui \<lparr>u_hist := []\<rparr>"

text \<open>Drawing the roster drops a selection that has no row.\<close>

definition roster_render :: "Ui \<Rightarrow> Ui" where
  "roster_render ui =
     (if have_keep ui \<or> u_sel_kind ui = TT_SEL_NONE then ui else show_none (ui \<lparr>u_sel_kind := TT_SEL_NONE\<rparr>))"

definition show_selected :: "Ui \<Rightarrow> Ui" where
  "show_selected ui =
     (case u_sel_kind ui of
        TT_SEL_NONE \<Rightarrow> show_none ui
      | TT_SEL_REQUEST \<Rightarrow> (case request_row ui of Some _ \<Rightarrow> ui | None \<Rightarrow> show_none ui)
      | TT_SEL_CHAT \<Rightarrow>
          (case contact_by_fn ui (u_sel_fn ui) of
             Some c \<Rightarrow>
               roster_render ((upd_contact (u_sel_fn ui) (\<lambda>c. c \<lparr>ct_unread := 0\<rparr>) ui) \<lparr>u_hist := hist_render (ct_transcript c)\<rparr>)
           | None \<Rightarrow> show_none ui)
      | TT_SEL_GROUP \<Rightarrow>
          (case group_by_gn ui (u_sel_fn ui) of
             Some g \<Rightarrow>
               roster_render ((upd_group (u_sel_fn ui) (\<lambda>g. g \<lparr>gr_unread := 0\<rparr>) ui) \<lparr>u_hist := hist_render (gr_transcript g)\<rparr>)
           | None \<Rightarrow> show_none ui))"

definition chat_open :: "Ui \<Rightarrow> nat \<Rightarrow> bool" where
  "chat_open ui fn \<longleftrightarrow> u_sel_kind ui = TT_SEL_CHAT \<and> u_sel_fn ui = fn"

definition group_open :: "Ui \<Rightarrow> nat \<Rightarrow> bool" where
  "group_open ui gn \<longleftrightarrow> u_sel_kind ui = TT_SEL_GROUP \<and> u_sel_fn ui = gn"

definition show_live :: "uenv \<Rightarrow> bool \<Rightarrow> bytes \<Rightarrow> int \<Rightarrow> bytes \<Rightarrow> Ui \<Rightarrow> Ui" where
  "show_live X open who me text ui =
     (if open then ui \<lparr>u_hist := u_hist ui @ hist_append_live (x_stamp X) who me text\<rparr> else ui)"

section \<open>Transcripts of the rows\<close>

definition chat_append :: "uenv \<Rightarrow> bytes \<Rightarrow> int \<Rightarrow> bytes \<Rightarrow> Contact \<Rightarrow> Contact" where
  "chat_append X who me text c =
     (case transcript_append (x_stamp X) (ct_transcript c) who me text of (tr, l) \<Rightarrow> c \<lparr>ct_transcript := tr, ct_last := l\<rparr>)"

definition group_append :: "uenv \<Rightarrow> bytes \<Rightarrow> int \<Rightarrow> bytes \<Rightarrow> Group \<Rightarrow> Group" where
  "group_append X who me text g =
     (case transcript_append (x_stamp X) (gr_transcript g) who me text of (tr, l) \<Rightarrow> g \<lparr>gr_transcript := tr, gr_last := l\<rparr>)"

definition chat_append_sys :: "uenv \<Rightarrow> int \<Rightarrow> bytes \<Rightarrow> Contact \<Rightarrow> Contact" where
  "chat_append_sys X me text = chat_append X (if me \<noteq> 0 then ascii ''you'' else []) (2 + me) text"

definition group_append_sys :: "uenv \<Rightarrow> int \<Rightarrow> bytes \<Rightarrow> Group \<Rightarrow> Group" where
  "group_append_sys X me text = group_append X (if me \<noteq> 0 then ascii ''you'' else []) (2 + me) text"

definition group_sys_line :: "uenv \<Rightarrow> nat \<Rightarrow> bytes \<Rightarrow> Ui \<Rightarrow> Ui" where
  "group_sys_line X gn line ui = show_live X (group_open ui gn) [] 2 line (upd_group gn (group_append_sys X 0 line) ui)"

definition xfer_line :: "uenv \<Rightarrow> nat \<Rightarrow> bool \<Rightarrow> bytes \<Rightarrow> Ui \<Rightarrow> Ui" where
  "xfer_line X fn mine fmt ui =
     (let text = take 511 fmt; me = (if mine then 1 else 0)
      in show_live X (chat_open ui fn) [] (2 + me) text (upd_contact fn (chat_append_sys X me text) ui))"

definition contact_all_read :: "Contact \<Rightarrow> bool" where
  "contact_all_read c \<longleftrightarrow> ct_last_mid c \<noteq> 0 \<and> ct_last_read c \<ge> ct_last_mid c"

section \<open>Stored history\<close>

definition contact_hist_key :: "Contact \<Rightarrow> bytes option" where
  "contact_hist_key c = (if ct_pubkey_hex c = [] then None else Some (take 64 (ct_pubkey_hex c)))"

definition group_hist_key :: "Group \<Rightarrow> bytes option" where
  "group_hist_key g = (if gr_chat_id_hex g = [] then None else Some (take 64 (gr_chat_id_hex g)))"

definition history_entries :: "Ui \<Rightarrow> TTHistEntry list" where
  "history_entries ui =
     map (\<lambda>c. \<lparr>he_key = Some (ct_pubkey_hex c), he_transcript = Some (ct_transcript c)\<rparr>)
       (filter (\<lambda>c. ct_transcript c \<noteq> [] \<and> contact_hist_key c \<noteq> None) (u_contacts ui)) @
     map (\<lambda>g. \<lparr>he_key = Some (gr_chat_id_hex g), he_transcript = Some (gr_transcript g)\<rparr>)
       (filter (\<lambda>g. gr_transcript g \<noteq> [] \<and> group_hist_key g \<noteq> None) (u_groups ui))"

definition history_save :: "uenv \<Rightarrow> Ui \<Rightarrow> disk \<Rightarrow> disk" where
  "history_save X ui d =
     (if \<not> u_history ui \<or> x_profile X = None \<or> history_entries ui = [] \<or> \<not> x_alloc X then d
      else snd (tt_hist_save (x_toxes X) (x_io X) (x_profile X) (x_key X) (history_entries ui) d))"

text \<open>The text after the third separator of the last line, which is looked for behind the last newline.\<close>

definition preview_of :: "bytes \<Rightarrow> bytes option" where
  "preview_of tr =
     (let p = rev (takeWhile (\<lambda>c. c \<noteq> 10) (rev tr)) in
      if p = [] then None
      else Option.bind (snd (cut_at 31 p)) (\<lambda>r. Option.bind (snd (cut_at 31 r)) (\<lambda>r. snd (cut_at 31 r))))"

definition hist_lookup_row :: "uenv \<Rightarrow> bytes option \<Rightarrow> bytes option" where
  "hist_lookup_row X k =
     (case k of
        None \<Rightarrow> None
      | Some k \<Rightarrow>
          map_option (\<lambda>b. take (TT_TRANSCRIPT_MAX - 1) (c_str b))
            (tt_hist_load (x_toxes X) (x_io X) (x_profile X) (x_key X) (Some k) TT_TRANSCRIPT_MAX (x_disk X)))"

definition history_load_contact :: "uenv \<Rightarrow> Contact \<Rightarrow> Contact" where
  "history_load_contact X c =
     (case hist_lookup_row X (contact_hist_key c) of
        None \<Rightarrow> c
      | Some tr \<Rightarrow>
          c \<lparr>ct_transcript := tr, ct_last := (case preview_of tr of Some b \<Rightarrow> take (TT_LAST_MAX - 1) b | None \<Rightarrow> ct_last c)\<rparr>)"

definition history_load_group :: "uenv \<Rightarrow> Group \<Rightarrow> Group" where
  "history_load_group X g =
     (case hist_lookup_row X (group_hist_key g) of
        None \<Rightarrow> g
      | Some tr \<Rightarrow>
          g \<lparr>gr_transcript := tr, gr_last := (case preview_of tr of Some b \<Rightarrow> take (TT_LAST_MAX - 1) b | None \<Rightarrow> gr_last g)\<rparr>)"

section \<open>The typing indicator\<close>

abbreviation (input) "TT_TYPING_TIMEOUT \<equiv> (5 :: int)"

definition typing_stop :: "Ui \<Rightarrow> Ui" where
  "typing_stop ui =
     (let ui1 = (if u_typing_sent ui \<and> u_typing_fn ui \<noteq> UINT32_MAX then tt_post TT_CMD_SET_TYPING (u_typing_fn ui) None 0 ui else ui)
      in ui1 \<lparr>u_typing_sent := False, u_typing_fn := UINT32_MAX\<rparr>)"

text \<open>The timer fires.\<close>

definition typing_tick :: "uenv \<Rightarrow> Ui \<Rightarrow> Ui" where
  "typing_tick X ui =
     (let ui1 = ui \<lparr>u_typing_idle_sched := False\<rparr> in
      if \<not> u_typing_sent ui1 \<or> u_typing_fn ui1 = UINT32_MAX then ui1
      else if x_now X - u_typing_last ui1 < TT_TYPING_TIMEOUT - 1 then ui1 \<lparr>u_typing_idle_sched := True\<rparr>
      else typing_stop ui1)"

definition typing_keystroke :: "uenv \<Rightarrow> nat \<Rightarrow> Ui \<Rightarrow> Ui" where
  "typing_keystroke X fn ui =
     (let ui1 = ui \<lparr>u_typing_last := x_now X\<rparr> in
      if u_typing_sent ui1 \<and> u_typing_fn ui1 = fn then ui1 \<lparr>u_typing_idle_sched := True\<rparr>
      else
        let ui2 = (if u_typing_sent ui1 \<and> u_typing_fn ui1 \<noteq> fn then typing_stop ui1 else ui1)
        in (tt_post TT_CMD_SET_TYPING fn None 1 ui2) \<lparr>u_typing_fn := fn, u_typing_sent := True, u_typing_idle_sched := True\<rparr>)"

end
