(* ===== verification/UiEvents.thy ===== *)
theory UiEvents
  imports UiState
begin

text \<open>
  The events of the tox thread as the Tk front end takes them, \<^verbatim>\<open>handle_event\<close> of
  \<^verbatim>\<open>src/src/ui/ui_tk.c\<close>: one definition per case of the switch, and the helpers of the file and video code.  The
  text of an event is its bytes with the length; a copy into a buffer ends at a zero byte.  Constants of toxcore and
  toxav have the values of their headers.
\<close>

definition copy_str :: "nat \<Rightarrow> bytes \<Rightarrow> bytes" where
  "copy_str n b = c_str (take n b)"

definition to_u32 :: "int \<Rightarrow> nat" where
  "to_u32 i = nat (i mod 2 ^ 32)"

definition strtoull :: "bytes \<Rightarrow> nat" where
  "strtoull p = (case scan_u 64 p of None \<Rightarrow> 0 | Some (v, _) \<Rightarrow> v)"

definition quoted :: "bytes \<Rightarrow> bytes" where
  "quoted s = [0xe2, 0x80, 0x9c] @ s @ [0xe2, 0x80, 0x9d]"

definition or_default :: "bytes \<Rightarrow> string \<Rightarrow> bytes" where
  "or_default s d = (if s = [] then ascii d else s)"

text \<open>One decimal, half to even; exact for sizes below \<open>2^53\<close>, where the conversion to double is.\<close>

definition fmt_size :: "nat \<Rightarrow> bytes" where
  "fmt_size n =
     (if n < 1024 then print_u n @ ascii '' B''
      else
        let u = (if n \<ge> 1024 * 1024 then 1024 * 1024 else 1024);
            q = 10 * n div u; r = 10 * n mod u;
            t = (if 2 * r > u \<or> (2 * r = u \<and> odd q) then q + 1 else q)
        in print_u (t div 10) @ [46] @ print_u (t mod 10) @ ascii (if n \<ge> 1024 * 1024 then '' MiB'' else '' KiB''))"

definition print_02 :: "nat \<Rightarrow> bytes" where
  "print_02 n = (if n < 10 then [48] else []) @ print_u n"

section \<open>Own identity\<close>

definition on_toxid :: "TTEvent \<Rightarrow> Ui \<Rightarrow> Ui" where
  "on_toxid e ui = (case ev_str e of Some b \<Rightarrow> ui \<lparr>u_my_toxid := take 99 (c_str b)\<rparr> | None \<Rightarrow> ui)"

definition on_self_name :: "TTEvent \<Rightarrow> Ui \<Rightarrow> Ui" where
  "on_self_name e ui = (case ev_str e of Some (b # bs) \<Rightarrow> ui \<lparr>u_self_name := copy_str 127 (b # bs)\<rparr> | _ \<Rightarrow> ui)"

definition on_self_status_msg :: "TTEvent \<Rightarrow> Ui \<Rightarrow> Ui" where
  "on_self_status_msg e ui =
     (case ev_str e of Some b \<Rightarrow> ui \<lparr>u_self_status_msg := copy_str TOX_MAX_STATUS_MESSAGE_LENGTH b\<rparr> | None \<Rightarrow> ui)"

section \<open>Friends\<close>

definition friend_row :: "uenv \<Rightarrow> nat \<Rightarrow> (Ui \<Rightarrow> Ui) \<Rightarrow> Ui \<Rightarrow> Ui" where
  "friend_row X fn f ui = (case contact_get X fn ui of None \<Rightarrow> ui | Some ui1 \<Rightarrow> f ui1)"

definition refresh_open :: "nat \<Rightarrow> Ui \<Rightarrow> Ui" where
  "refresh_open fn ui = (if chat_open ui fn then show_selected ui else ui)"

definition on_friend_name :: "uenv \<Rightarrow> TTEvent \<Rightarrow> Ui \<Rightarrow> Ui" where
  "on_friend_name X e =
     friend_row X (ev_fn e) (\<lambda>ui.
       refresh_open (ev_fn e) (roster_render
         (case ev_str e of
            Some (b # bs) \<Rightarrow> upd_contact (ev_fn e) (\<lambda>c. c \<lparr>ct_name := copy_str (TT_NAME_MAX - 1) (b # bs)\<rparr>) ui
          | _ \<Rightarrow> ui)))"

definition on_friend_connection :: "uenv \<Rightarrow> TTEvent \<Rightarrow> Ui \<Rightarrow> Ui" where
  "on_friend_connection X e =
     friend_row X (ev_fn e) (\<lambda>ui.
       refresh_open (ev_fn e) (roster_render
         (upd_contact (ev_fn e)
            (\<lambda>c. c \<lparr>ct_conn := ev_ival e, ct_peer_typing := (if ev_ival e = 0 then False else ct_peer_typing c)\<rparr>) ui)))"

definition on_friend_status :: "uenv \<Rightarrow> TTEvent \<Rightarrow> Ui \<Rightarrow> Ui" where
  "on_friend_status X e =
     friend_row X (ev_fn e) (\<lambda>ui. roster_render (upd_contact (ev_fn e) (\<lambda>c. c \<lparr>ct_presence := ev_ival e\<rparr>) ui))"

definition on_friend_status_msg :: "uenv \<Rightarrow> TTEvent \<Rightarrow> Ui \<Rightarrow> Ui" where
  "on_friend_status_msg X e =
     friend_row X (ev_fn e) (\<lambda>ui.
       case ev_str e of
         None \<Rightarrow> ui
       | Some b \<Rightarrow>
           refresh_open (ev_fn e) (roster_render
             (upd_contact (ev_fn e) (\<lambda>c. c \<lparr>ct_status_msg := copy_str TOX_MAX_STATUS_MESSAGE_LENGTH b\<rparr>) ui)))"

definition on_friend_pubkey :: "uenv \<Rightarrow> TTEvent \<Rightarrow> Ui \<Rightarrow> Ui" where
  "on_friend_pubkey X e =
     friend_row X (ev_fn e) (\<lambda>ui.
       case ev_str e of
         None \<Rightarrow> ui
       | Some b \<Rightarrow> upd_contact (ev_fn e) (\<lambda>c. c \<lparr>ct_pubkey_hex := copy_str 64 b\<rparr>) ui)"

definition on_friend_last_online :: "uenv \<Rightarrow> TTEvent \<Rightarrow> Ui \<Rightarrow> Ui" where
  "on_friend_last_online X e =
     friend_row X (ev_fn e) (\<lambda>ui. refresh_open (ev_fn e) (upd_contact (ev_fn e) (\<lambda>c. c \<lparr>ct_last_online := ev_ival e\<rparr>) ui))"

text \<open>The line goes to the transcript, and to the pane if the chat is open; otherwise it is counted as unread.\<close>

definition show_or_count :: "uenv \<Rightarrow> nat \<Rightarrow> bytes \<Rightarrow> int \<Rightarrow> bytes \<Rightarrow> Ui \<Rightarrow> Ui" where
  "show_or_count X fn who me text ui =
     (let ui1 = upd_contact fn (chat_append X who me text) ui in
      if chat_open ui1 fn then show_live X True who me text ui1
      else upd_contact fn (\<lambda>c. c \<lparr>ct_unread := ct_unread c + 1\<rparr>) ui1)"

definition display_name :: "Ui \<Rightarrow> nat \<Rightarrow> bytes" where
  "display_name ui fn = or_default (case contact_by_fn ui fn of Some c \<Rightarrow> ct_name c | None \<Rightarrow> []) ''unknown''"

definition on_friend_message :: "uenv \<Rightarrow> TTEvent \<Rightarrow> Ui \<Rightarrow> Ui" where
  "on_friend_message X e =
     friend_row X (ev_fn e) (\<lambda>ui.
       case ev_str e of
         None \<Rightarrow> ui
       | Some b \<Rightarrow>
           let ui1 = upd_contact (ev_fn e) (\<lambda>c. c \<lparr>ct_peer_typing := False\<rparr>) ui;
               text = copy_str TOX_MAX_MESSAGE_LENGTH b;
               who = display_name ui1 (ev_fn e)
           in roster_render
                (if ev_ival e = 1
                 then show_or_count X (ev_fn e) who 2
                        (take (TOX_MAX_MESSAGE_LENGTH + TT_NAME_MAX + 3) (ascii ''* '' @ who @ [32] @ text)) ui1
                 else show_or_count X (ev_fn e) who 0 text ui1))"

definition known_row :: "nat \<Rightarrow> (Contact \<Rightarrow> Ui \<Rightarrow> Ui) \<Rightarrow> Ui \<Rightarrow> Ui" where
  "known_row fn f ui = (case contact_by_fn ui fn of None \<Rightarrow> ui | Some c \<Rightarrow> f c ui)"

definition on_friend_typing :: "TTEvent \<Rightarrow> Ui \<Rightarrow> Ui" where
  "on_friend_typing e = known_row (ev_fn e) (\<lambda>_. upd_contact (ev_fn e) (\<lambda>c. c \<lparr>ct_peer_typing := (ev_ival e \<noteq> 0)\<rparr>))"

definition on_message_sent :: "TTEvent \<Rightarrow> Ui \<Rightarrow> Ui" where
  "on_message_sent e =
     known_row (ev_fn e) (\<lambda>_ ui.
       roster_render (upd_contact (ev_fn e) (\<lambda>c. c \<lparr>ct_last_mid := to_u32 (ev_ival e), ct_last_read := 0\<rparr>) ui))"

definition on_read_receipt :: "TTEvent \<Rightarrow> Ui \<Rightarrow> Ui" where
  "on_read_receipt e =
     known_row (ev_fn e) (\<lambda>_ ui.
       roster_render (upd_contact (ev_fn e) (\<lambda>c. c \<lparr>ct_last_read := max (ct_last_read c) (to_u32 (ev_ival e))\<rparr>) ui))"

text \<open>A system line of a friend's chat: \<open>me\<close> as stored, the pane always gets flag 3.\<close>

definition friend_sys_line :: "uenv \<Rightarrow> nat \<Rightarrow> int \<Rightarrow> bytes \<Rightarrow> Ui \<Rightarrow> Ui" where
  "friend_sys_line X fn me line ui = show_live X (chat_open ui fn) [] 3 line (upd_contact fn (chat_append_sys X me line) ui)"

definition on_offline_flushed :: "uenv \<Rightarrow> TTEvent \<Rightarrow> Ui \<Rightarrow> Ui" where
  "on_offline_flushed X e =
     known_row (ev_fn e) (\<lambda>_ ui.
       roster_render (friend_sys_line X (ev_fn e) 1
         (take 95 (print_ld (ev_ival e) @ ascii '' queued message'' @ (if ev_ival e = 1 then [] else [115]) @ ascii '' delivered'')) ui))"

definition on_friend_request :: "uenv \<Rightarrow> TTEvent \<Rightarrow> Ui \<Rightarrow> Ui" where
  "on_friend_request X e ui =
     roster_render
       (case ev_str e of
          None \<Rightarrow> ui
        | Some b \<Rightarrow>
            if length (c_str b) = 64 then
              (case request_row ui of
                 Some _ \<Rightarrow> ui
               | None \<Rightarrow>
                   if \<not> x_alloc X then ui
                   else (contact_add 0 True ui) \<lparr>u_contacts :=
                          upd_first ct_is_request (\<lambda>c. c \<lparr>ct_key_hex := c_str b\<rparr>) (u_contacts (contact_add 0 True ui))\<rparr>)
            else
              ui \<lparr>u_contacts := upd_first ct_is_request (\<lambda>c. c \<lparr>ct_last := copy_str (TT_LAST_MAX - 1) b\<rparr>) (u_contacts ui)\<rparr>)"

definition on_friend_list_end :: "uenv \<Rightarrow> Ui \<Rightarrow> Ui" where
  "on_friend_list_end X ui =
     (let ui1 = ui \<lparr>u_ready := True\<rparr> in
      if u_history ui1 \<and> x_profile X \<noteq> None
      then roster_render (ui1 \<lparr>u_contacts := map (\<lambda>c. if ct_is_request c then c else history_load_contact X c) (u_contacts ui1)\<rparr>)
      else ui1)"

section \<open>Encryption\<close>

definition on_e2ee_state :: "uenv \<Rightarrow> TTEvent \<Rightarrow> Ui \<Rightarrow> Ui" where
  "on_e2ee_state X e =
     friend_row X (ev_fn e) (\<lambda>ui.
       let now = (ev_ival e = 1);
           was = (case contact_by_fn ui (ev_fn e) of Some c \<Rightarrow> ct_e2ee c | None \<Rightarrow> False);
           ui1 = upd_contact (ev_fn e) (\<lambda>c. c \<lparr>ct_e2ee := now, ct_e2ee_code :=
                   (case ev_str e of
                      Some b \<Rightarrow> if now \<and> length b = 32 then c_str b else if \<not> now then [] else ct_e2ee_code c
                    | None \<Rightarrow> if \<not> now then [] else ct_e2ee_code c)\<rparr>) ui
       in if now \<noteq> was then refresh_open (ev_fn e) (roster_render ui1) else ui1)"

definition on_e2ee_warn :: "uenv \<Rightarrow> TTEvent \<Rightarrow> Ui \<Rightarrow> Ui" where
  "on_e2ee_warn X e =
     friend_row X (ev_fn e) (\<lambda>ui.
       case ev_str e of
         None \<Rightarrow> ui
       | Some b \<Rightarrow> refresh_open (ev_fn e) (upd_contact (ev_fn e) (chat_append_sys X 1 (c_str b)) ui))"

definition on_e2ee_enforce :: "uenv \<Rightarrow> TTEvent \<Rightarrow> Ui \<Rightarrow> Ui" where
  "on_e2ee_enforce X e =
     friend_row X (ev_fn e) (upd_contact (ev_fn e) (\<lambda>c. c \<lparr>ct_e2ee_required := (ev_ival e \<noteq> 0)\<rparr>))"

section \<open>Calls and video\<close>

abbreviation (input) "SENDING_A \<equiv> (4 :: int)"
abbreviation (input) "SENDING_V \<equiv> (8 :: int)"
abbreviation (input) "ACCEPTING_A \<equiv> (16 :: int)"

definition on_av_incoming :: "uenv \<Rightarrow> TTEvent \<Rightarrow> Ui \<Rightarrow> Ui" where
  "on_av_incoming X e =
     friend_row X (ev_fn e) (\<lambda>ui.
       let ui1 = upd_contact (ev_fn e) (\<lambda>c. c \<lparr>ct_call_incoming := True, ct_call_active := False, ct_call_state := 0,
                   ct_call_video := (ev_ival2 e \<noteq> 0), ct_call_started := 0, ct_call_paused_self := False, ct_call_ringing := False\<rparr>) ui;
           line = take (TT_NAME_MAX + 31) (ascii ''incoming '' @ ascii (if ev_ival2 e \<noteq> 0 then ''audio+video'' else ''audio'') @
                    ascii '' call from '' @ display_name ui1 (ev_fn e))
       in roster_render (friend_sys_line X (ev_fn e) 1 line ui1))"

definition call_timer_kick :: "Ui \<Rightarrow> Ui" where
  "call_timer_kick ui =
     (if u_call_timer_sched ui then ui
      else if list_ex (\<lambda>c. ct_call_active c \<and> \<not> ct_is_request c) (u_contacts ui) then ui \<lparr>u_call_timer_sched := True\<rparr> else ui)"

definition av_state_row :: "uenv \<Rightarrow> int \<Rightarrow> int \<Rightarrow> Contact \<Rightarrow> Contact" where
  "av_state_row X ival ival2 c =
     (let c1 = c \<lparr>ct_call_state := ival, ct_call_cam := bit ival 3\<rparr>;
          c2 = (if bit ival 2 \<or> bit ival 4
                then c1 \<lparr>ct_call_incoming := False, ct_call_active := True, ct_call_ringing := False,
                         ct_call_started := (if ct_call_started c1 = 0 then x_now X else ct_call_started c1)\<rparr>
                else c1)
      in if ival2 \<noteq> 0 then c2 \<lparr>ct_call_paused_self := (ival = 0)\<rparr> else c2)"

definition on_av_state :: "uenv \<Rightarrow> TTEvent \<Rightarrow> Ui \<Rightarrow> Ui" where
  "on_av_state X e =
     known_row (ev_fn e) (\<lambda>c ui.
       let ui1 = upd_contact (ev_fn e) (av_state_row X (ev_ival e) (ev_ival2 e)) ui;
           ui2 = (if bit (ev_ival e) 2 \<or> bit (ev_ival e) 4 then call_timer_kick ui1 else ui1);
           ui3 = (if ct_call_active (av_state_row X (ev_ival e) (ev_ival2 e) c) \<and> ev_ival e = 0 \<and> ev_ival2 e = 0
                  then friend_sys_line X (ev_fn e) 0 (ascii ''peer paused the call'') ui2 else ui2)
       in roster_render (refresh_open (ev_fn e) ui3))"

definition call_cleared :: "Contact \<Rightarrow> Contact" where
  "call_cleared c = c \<lparr>ct_call_active := False, ct_call_incoming := False, ct_call_state := 0, ct_call_muted := False, ct_call_deaf := False,
     ct_call_video := False, ct_call_cam := False, ct_call_started := 0, ct_call_paused_self := False, ct_call_ringing := False\<rparr>"

definition on_av_ended :: "uenv \<Rightarrow> TTEvent \<Rightarrow> Ui \<Rightarrow> Ui" where
  "on_av_ended X e =
     known_row (ev_fn e) (\<lambda>_ ui.
       let s = nat (ev_ival2 e);
           line = take 63
             (if ev_ival2 e > 0
              then ascii ''call ended ('' @ ascii (if ev_ival e \<noteq> 0 then ''error'' else ''finished'') @ ascii '') '' @ [0xe2, 0x80, 0x94, 32] @
                     print_u (s div 60) @ [58] @ print_02 (s mod 60)
              else ascii ''call ended ('' @ ascii (if ev_ival e \<noteq> 0 then ''error'' else ''no connection'') @ ascii '')'')
       in roster_render (friend_sys_line X (ev_fn e) 1 line ((upd_contact (ev_fn e) call_cleared ui) \<lparr>u_video_self := False\<rparr>)))"

text \<open>Without memory the old frame is gone and its size is left.\<close>

definition video_frame_take :: "uenv \<Rightarrow> TTEvent \<Rightarrow> Ui \<Rightarrow> Ui" where
  "video_frame_take X e ui =
     (let fr = (case ev_str e of Some b \<Rightarrow> b | None \<Rightarrow> []); need = length fr in
      if need < 1 \<or> need > 460800 then ui
      else if u_video_cap ui < need \<and> \<not> x_alloc X then ui \<lparr>u_video_cap := 0, u_video_frame := []\<rparr>
      else
        ui \<lparr>u_video_frame := fr @ drop need (u_video_frame ui), u_video_cap := max (u_video_cap ui) need,
            u_video_w := nat (ev_ival e mod 2 ^ 16), u_video_h := nat (ev_ival2 e mod 2 ^ 16),
            u_video_last := x_now X, u_video_sched := True,
            u_video_timers := (if u_video_sched ui then u_video_timers ui else u_video_timers ui + 1)\<rparr>)"

section \<open>Avatars\<close>

definition b64_table :: bytes where
  "b64_table = ascii ''ABCDEFGHIJKLMNOPQRSTUVWXYZabcdefghijklmnopqrstuvwxyz0123456789+/''"

definition b64_digit :: "nat \<Rightarrow> u32 \<Rightarrow> byte" where
  "b64_digit s v = b64_table ! unat (take_bit 6 (drop_bit s v))"

text \<open>The data is an array of \<^verbatim>\<open>char\<close>, which is signed: a byte from 128 on is extended with ones.\<close>

definition sx :: "byte \<Rightarrow> u32" where
  "sx b = signed b"

fun avatar_b64 :: "bytes \<Rightarrow> bytes" where
  "avatar_b64 [] = []"
| "avatar_b64 [a] = (let v = push_bit 16 (sx a) in [b64_digit 18 v, b64_digit 12 v, 61, 61])"
| "avatar_b64 [a, b] =
     (let v = or (push_bit 16 (sx a)) (push_bit 8 (sx b)) in [b64_digit 18 v, b64_digit 12 v, b64_digit 6 v, 61])"
| "avatar_b64 (a # b # c # r) =
     (let v = or (or (push_bit 16 (sx a)) (push_bit 8 (sx b))) (sx c)
      in [b64_digit 18 v, b64_digit 12 v, b64_digit 6 v, b64_digit 0 v] @ avatar_b64 r)"

text \<open>The name of the new photo, empty when Tk cannot decode it; the counter of names goes on.\<close>

definition avatar_photo_create :: "uenv \<Rightarrow> bytes \<Rightarrow> nat \<Rightarrow> bytes \<times> nat" where
  "avatar_photo_create X png seq =
     (if length png < 8 then ([], seq)
      else if \<not> x_alloc X \<or> \<not> x_decodes X (avatar_b64 png) then ([], seq + 1)
      else (ascii ''av'' @ print_u (seq + 1), seq + 1))"

definition on_avatar_self :: "uenv \<Rightarrow> TTEvent \<Rightarrow> Ui \<Rightarrow> Ui" where
  "on_avatar_self X e ui =
     (case ev_str e of
        Some (b # bs) \<Rightarrow>
          (case avatar_photo_create X (b # bs) (u_avatar_seq ui) of (img, seq) \<Rightarrow> ui \<lparr>u_self_avatar_img := img, u_avatar_seq := seq\<rparr>)
      | _ \<Rightarrow> ui \<lparr>u_self_avatar_img := []\<rparr>)"

definition on_avatar :: "uenv \<Rightarrow> TTEvent \<Rightarrow> Ui \<Rightarrow> Ui" where
  "on_avatar X e =
     known_row (ev_fn e) (\<lambda>_ ui.
       roster_render
         (case ev_str e of
            Some (b # bs) \<Rightarrow>
              (case avatar_photo_create X (b # bs) (u_avatar_seq ui) of
                 (img, seq) \<Rightarrow> (upd_contact (ev_fn e) (\<lambda>c. c \<lparr>ct_avatar_img := img\<rparr>) ui) \<lparr>u_avatar_seq := seq\<rparr>)
          | _ \<Rightarrow> upd_contact (ev_fn e) (\<lambda>c. c \<lparr>ct_avatar_img := []\<rparr>) ui))"

definition on_avatar_cleared :: "TTEvent \<Rightarrow> Ui \<Rightarrow> Ui" where
  "on_avatar_cleared e =
     known_row (ev_fn e) (\<lambda>_ ui. roster_render (upd_contact (ev_fn e) (\<lambda>c. c \<lparr>ct_avatar_img := []\<rparr>) ui))"

section \<open>Files\<close>

definition name_size :: "bytes \<Rightarrow> (bytes \<times> bytes) option" where
  "name_size b = (case cut_at 10 (c_str b) of (name, Some sz) \<Rightarrow> Some (name, sz) | (_, None) \<Rightarrow> None)"

definition on_file_tx_started :: "uenv \<Rightarrow> TTEvent \<Rightarrow> Ui \<Rightarrow> Ui" where
  "on_file_tx_started X e =
     known_row (ev_fn e) (\<lambda>_ ui.
       let str = (case ev_str e of Some b \<Rightarrow> b | None \<Rightarrow> []);
           name = copy_str TOX_MAX_FILENAME_LENGTH (case name_size str of Some (n # ns, _) \<Rightarrow> n # ns | _ \<Rightarrow> str);
           sz = fmt_size (case name_size str of Some (_, s) \<Rightarrow> strtoull s | None \<Rightarrow> 0)
       in xfer_line X (ev_fn e) True (ascii ''sending file '' @ quoted name @ ascii '' ('' @ sz @ ascii '')'')
            (upd_contact (ev_fn e) (\<lambda>c. c \<lparr>ct_xfer_me := True, ct_xfer_running := True, ct_xfer_run_id := ev_ival e, ct_xfer_name := name\<rparr>) ui))"

definition on_file_progress :: "uenv \<Rightarrow> TTEvent \<Rightarrow> Ui \<Rightarrow> Ui" where
  "on_file_progress X e =
     known_row (ev_fn e) (\<lambda>c ui.
       let (got, tot) = (case cut_at 47 (case ev_str e of Some b \<Rightarrow> c_str b | None \<Rightarrow> []) of
             (g, Some t) \<Rightarrow> (fmt_size (strtoull (take 31 g)), fmt_size (strtoull t))
           | (_, None) \<Rightarrow> ([63], [63]))
       in xfer_line X (ev_fn e) (ct_xfer_me c) (quoted (or_default (ct_xfer_name c) ''?'') @ [32] @ got @ ascii '' / '' @ tot) ui)"

definition xfer_over :: "nat \<Rightarrow> Ui \<Rightarrow> Ui" where
  "xfer_over fn = upd_contact fn (\<lambda>c. c \<lparr>ct_xfer_running := False\<rparr>)"

definition on_file_done :: "uenv \<Rightarrow> TTEvent \<Rightarrow> Ui \<Rightarrow> Ui" where
  "on_file_done X e =
     known_row (ev_fn e) (\<lambda>c ui.
       xfer_over (ev_fn e)
         (xfer_line X (ev_fn e) (ct_xfer_me c)
            (quoted (or_default (ct_xfer_name c) ''?'') @ ascii '' complete '' @ [0xe2, 0x80, 0x94, 32] @
             (case ev_str e of Some b \<Rightarrow> c_str b | None \<Rightarrow> [])) ui))"

definition on_file_failed :: "uenv \<Rightarrow> TTEvent \<Rightarrow> Ui \<Rightarrow> Ui" where
  "on_file_failed X e =
     known_row (ev_fn e) (\<lambda>c ui.
       xfer_over (ev_fn e)
         (xfer_line X (ev_fn e) (ct_xfer_me c) (quoted (or_default (ct_xfer_name c) ''?'') @ ascii '' failed'') ui))"

text \<open>The dialog shows the offer of its last refresh.\<close>

definition offer_text :: "Contact \<Rightarrow> bytes" where
  "offer_text c = ascii ''wants to send you '' @ quoted (ct_offer_name c) @ ascii '' ('' @ fmt_size (ct_offer_size c) @ ascii '')''"

definition offer_show :: "uenv \<Rightarrow> nat \<Rightarrow> Contact \<Rightarrow> Ui \<Rightarrow> Ui" where
  "offer_show X fn c ui =
     (let ui1 = ui \<lparr>u_offer_label := take (TOX_MAX_FILENAME_LENGTH + 95) (offer_text c)\<rparr> in
      if u_offer_open ui1 then ui1
      else roster_render (xfer_line X fn False (offer_text c) (ui1 \<lparr>u_offer_open := True\<rparr>)))"

definition offer_row :: "int \<Rightarrow> bytes \<Rightarrow> Contact \<Rightarrow> Contact" where
  "offer_row xid name c =
     c \<lparr>ct_offer_name := take TOX_MAX_FILENAME_LENGTH name, ct_xfer_name := take TOX_MAX_FILENAME_LENGTH name,
        ct_xfer_me := False, ct_xfer_running := True, ct_xfer_run_id := xid\<rparr>"

definition on_file_offer :: "uenv \<Rightarrow> TTEvent \<Rightarrow> Ui \<Rightarrow> Ui" where
  "on_file_offer X e =
     known_row (ev_fn e) (\<lambda>c ui.
       case Option.bind (ev_str e) name_size of
         None \<Rightarrow> ui
       | Some (name, sz) \<Rightarrow>
           let f = (\<lambda>c. (offer_row (ev_ival e) name c) \<lparr>ct_offer_pending := True, ct_offer_id := ev_ival e, ct_offer_size := strtoull sz\<rparr>)
           in offer_show X (ev_fn e) (f c) (upd_contact (ev_fn e) f ui))"

definition on_file_resumed :: "uenv \<Rightarrow> TTEvent \<Rightarrow> Ui \<Rightarrow> Ui" where
  "on_file_resumed X e =
     known_row (ev_fn e) (\<lambda>_ ui.
       case Option.bind (ev_str e) name_size of
         None \<Rightarrow> ui
       | Some (name, _) \<Rightarrow>
           xfer_line X (ev_fn e) False (ascii ''resuming '' @ quoted (take TOX_MAX_FILENAME_LENGTH name) @ ascii '' from a partial download'')
             (upd_contact (ev_fn e) (offer_row (ev_ival e) name) ui))"

section \<open>Groups\<close>

definition on_group_new :: "uenv \<Rightarrow> TTEvent \<Rightarrow> Ui \<Rightarrow> Ui" where
  "on_group_new X e ui =
     roster_render
       (if \<not> x_alloc X then ui
        else tt_post TT_CMD_GROUP_SYNC (ev_fn e) None 0
               (group_add ((new_group (ev_fn e)) \<lparr>gr_name := (case ev_str e of Some b \<Rightarrow> copy_str (TT_NAME_MAX - 1) b | None \<Rightarrow> []),
                  gr_privacy := ev_ival2 e, gr_self_role := TOX_GROUP_ROLE_FOUNDER\<rparr>) ui))"

definition on_group_joined :: "uenv \<Rightarrow> TTEvent \<Rightarrow> Ui \<Rightarrow> Ui" where
  "on_group_joined X e ui =
     roster_render
       (if \<not> x_alloc X then ui
        else tt_post TT_CMD_GROUP_SYNC (ev_fn e) None 0
               (group_add ((new_group (ev_fn e)) \<lparr>gr_name := (case ev_str e of Some b \<Rightarrow> copy_str (TT_NAME_MAX - 1) b | None \<Rightarrow> []),
                  gr_privacy := (if ev_ival2 e \<noteq> 0 then 1 else 0)\<rparr>) ui))"

definition deselect_group :: "nat \<Rightarrow> Ui \<Rightarrow> Ui" where
  "deselect_group gn ui = (if group_open ui gn then ui \<lparr>u_sel_kind := TT_SEL_NONE\<rparr> else ui)"

definition on_group_left :: "uenv \<Rightarrow> TTEvent \<Rightarrow> Ui \<Rightarrow> Ui" where
  "on_group_left X e ui =
     show_selected (roster_render
       (case group_by_gn ui (ev_fn e) of
          None \<Rightarrow> ui
        | Some _ \<Rightarrow> group_remove (ev_fn e) (deselect_group (ev_fn e) (upd_group (ev_fn e) (group_append_sys X 0 (ascii ''you left the group'')) ui))))"

definition known_group :: "nat \<Rightarrow> (Group \<Rightarrow> Ui \<Rightarrow> Ui) \<Rightarrow> Ui \<Rightarrow> Ui" where
  "known_group gn f ui = (case group_by_gn ui gn of None \<Rightarrow> ui | Some g \<Rightarrow> f g ui)"

definition member_name :: "Group \<Rightarrow> nat \<Rightarrow> string \<Rightarrow> bytes" where
  "member_name g pid d = or_default (case group_member g pid of Some m \<Rightarrow> gm_name m | None \<Rightarrow> []) d"

definition group_count :: "nat \<Rightarrow> Ui \<Rightarrow> Ui" where
  "group_count gn = upd_group gn (\<lambda>g. g \<lparr>gr_unread := gr_unread g + 1\<rparr>)"

definition on_group_msg :: "uenv \<Rightarrow> TTEvent \<Rightarrow> Ui \<Rightarrow> Ui" where
  "on_group_msg X e =
     known_group (ev_fn e) (\<lambda>g ui.
       case ev_str e of
         None \<Rightarrow> ui
       | Some b \<Rightarrow>
           let pid = to_u32 (ev_ival e);
               ui1 = upd_group (ev_fn e) (group_member_upsert X pid) ui;
               who = member_name g pid ''peer'';
               text = copy_str TOX_MAX_MESSAGE_LENGTH b;
               act = take (TOX_MAX_MESSAGE_LENGTH + TT_NAME_MAX + 3) (ascii ''* '' @ who @ [32] @ text)
           in roster_render
                (if ev_ival2 e = 1
                 then show_live X (group_open ui (ev_fn e)) who 2 act (upd_group (ev_fn e) (group_append X who 2 act) ui1)
                 else
                   let ui2 = upd_group (ev_fn e) (group_append X who 0 text) ui1
                   in if group_open ui (ev_fn e) then show_live X True who 0 text ui2 else group_count (ev_fn e) ui2))"

definition on_group_priv_msg :: "uenv \<Rightarrow> TTEvent \<Rightarrow> Ui \<Rightarrow> Ui" where
  "on_group_priv_msg X e =
     known_group (ev_fn e) (\<lambda>g ui.
       case ev_str e of
         None \<Rightarrow> ui
       | Some b \<Rightarrow>
           let pid = to_u32 (ev_ival e);
               who = member_name g pid ''peer'';
               text = ascii ''[private] '' @ copy_str TOX_MAX_MESSAGE_LENGTH b;
               ui1 = upd_group (ev_fn e) (group_append X who 0 text) (upd_group (ev_fn e) (group_member_upsert X pid) ui)
           in roster_render (if group_open ui (ev_fn e) then show_live X True who 0 text ui1 else group_count (ev_fn e) ui1))"

definition on_group_topic :: "uenv \<Rightarrow> TTEvent \<Rightarrow> Ui \<Rightarrow> Ui" where
  "on_group_topic X e =
     known_group (ev_fn e) (\<lambda>g ui.
       let ui1 = (case ev_str e of
                    Some b \<Rightarrow> upd_group (ev_fn e) (\<lambda>g. g \<lparr>gr_topic := copy_str TOX_GROUP_MAX_TOPIC_LENGTH b\<rparr>) ui
                  | None \<Rightarrow> ui)
       in roster_render
            (if ev_ival2 e = -1 then ui1
             else group_sys_line X (ev_fn e)
                    (take (TT_NAME_MAX + 31) (member_name g (to_u32 (ev_ival2 e)) ''peer'' @ ascii '' set the topic'')) ui1))"

definition sync_if_shown :: "uenv \<Rightarrow> nat \<Rightarrow> Ui \<Rightarrow> Ui" where
  "sync_if_shown X gn ui = (if group_open ui gn \<and> x_gm X then tt_post TT_CMD_GROUP_SYNC gn None 0 ui else ui)"

definition on_group_peer_join :: "uenv \<Rightarrow> TTEvent \<Rightarrow> Ui \<Rightarrow> Ui" where
  "on_group_peer_join X e =
     known_group (ev_fn e) (\<lambda>_ ui.
       let pid = to_u32 (ev_ival e)
       in sync_if_shown X (ev_fn e) (upd_group (ev_fn e) (\<lambda>g. upd_member pid (\<lambda>m. m \<lparr>gm_announce := True\<rparr>) (group_member_upsert X pid g)) ui))"

definition exit_type_str :: "int \<Rightarrow> string" where
  "exit_type_str t = (if t = 1 then ''timed out'' else if t = 2 then ''disconnected'' else if t = 3 then ''lost connection''
     else if t = 4 then ''was kicked'' else if t = 5 then ''sync error'' else ''left'')"

definition mod_event_str :: "int \<Rightarrow> string" where
  "mod_event_str v = (if v = 0 then ''kicked'' else if v = 1 then ''demoted to observer'' else if v = 2 then ''set to user''
     else if v = 3 then ''promoted to moderator'' else ''moderated'')"

definition on_group_peer_exit :: "uenv \<Rightarrow> TTEvent \<Rightarrow> Ui \<Rightarrow> Ui" where
  "on_group_peer_exit X e =
     known_group (ev_fn e) (\<lambda>g ui.
       let pid = to_u32 (ev_ival e);
           live = (case group_member g pid of Some m \<Rightarrow> gm_name m | None \<Rightarrow> []);
           who = (if live \<noteq> [] then live
                  else case ev_str e of Some (b # bs) \<Rightarrow> copy_str (TT_NAME_MAX - 1) (b # bs) | _ \<Rightarrow> ascii ''A peer'')
       in upd_group (ev_fn e) (drop_member pid)
            (group_sys_line X (ev_fn e) (take (TT_NAME_MAX + TT_LAST_MAX + 47) (who @ [32] @ ascii (exit_type_str (ev_ival2 e)))) ui))"

text \<open>The deferred announcement of a join.\<close>

definition announce_join :: "uenv \<Rightarrow> nat \<Rightarrow> nat \<Rightarrow> Ui \<Rightarrow> Ui" where
  "announce_join X gn pid ui =
     (case Option.bind (group_by_gn ui gn) (\<lambda>g. group_member g pid) of
        Some m \<Rightarrow>
          if \<not> gm_announce m then ui
          else group_sys_line X gn (take (TT_NAME_MAX + 31) (or_default (gm_name m) ''A peer'' @ ascii '' joined the group''))
                 (upd_group gn (upd_member pid (\<lambda>m. m \<lparr>gm_announce := False\<rparr>)) ui)
      | None \<Rightarrow> ui)"

definition on_group_peer_name :: "uenv \<Rightarrow> TTEvent \<Rightarrow> Ui \<Rightarrow> Ui" where
  "on_group_peer_name X e =
     known_group (ev_fn e) (\<lambda>_ ui.
       let pid = to_u32 (ev_ival e)
       in announce_join X (ev_fn e) pid (upd_group (ev_fn e)
            (\<lambda>g. upd_member pid (\<lambda>m. case ev_str e of Some b \<Rightarrow> m \<lparr>gm_name := copy_str (TT_NAME_MAX - 1) b\<rparr> | None \<Rightarrow> m)
                   (group_member_upsert X pid g)) ui))"

definition on_group_peer_role :: "uenv \<Rightarrow> TTEvent \<Rightarrow> Ui \<Rightarrow> Ui" where
  "on_group_peer_role X e =
     known_group (ev_fn e) (\<lambda>_ ui.
       let pid = to_u32 (ev_ival e)
       in announce_join X (ev_fn e) pid (upd_group (ev_fn e)
            (\<lambda>g. upd_member pid (\<lambda>m. m \<lparr>gm_role := ev_ival2 e\<rparr>) (group_member_upsert X pid g)) ui))"

definition on_group_invite :: "TTEvent \<Rightarrow> Ui \<Rightarrow> Ui" where
  "on_group_invite e ui = (case u_gi ui of Some _ \<Rightarrow> ui | None \<Rightarrow> ui \<lparr>u_gi := Some (ev_ival2 e)\<rparr>)"

definition on_group_mod :: "uenv \<Rightarrow> TTEvent \<Rightarrow> Ui \<Rightarrow> Ui" where
  "on_group_mod X e =
     known_group (ev_fn e) (\<lambda>g ui.
       let pid = to_u32 (ev_ival e);
           ui1 = group_sys_line X (ev_fn e) (take (TT_NAME_MAX + 47) (member_name g pid ''A peer'' @ [32] @ ascii (mod_event_str (ev_ival2 e)))) ui
       in if ev_ival2 e = 0 then ui1
          else upd_group (ev_fn e) (upd_member pid (\<lambda>m. m \<lparr>gm_role := ev_ival2 e\<rparr>)) ui1)"

definition actor_target :: "Group \<Rightarrow> TTEvent \<Rightarrow> bytes" where
  "actor_target g e =
     (let live = (case group_member g (to_u32 (ev_ival e)) of Some m \<Rightarrow> gm_name m | None \<Rightarrow> []) in
      if live \<noteq> [] then live else case ev_str e of Some (b # bs) \<Rightarrow> c_str (b # bs) | _ \<Rightarrow> ascii ''peer'')"

definition role_of_event :: "int \<Rightarrow> int" where
  "role_of_event v = (if v = 3 then TOX_GROUP_ROLE_MODERATOR else if v = 2 then TOX_GROUP_ROLE_USER else TOX_GROUP_ROLE_OBSERVER)"

definition on_group_mod_self :: "uenv \<Rightarrow> TTEvent \<Rightarrow> Ui \<Rightarrow> Ui" where
  "on_group_mod_self X e =
     known_group (ev_fn e) (\<lambda>g ui.
       let failed = (ev_ival2 e \<ge> 100);
           v = (if failed then ev_ival2 e - 100 else ev_ival2 e);
           pid = to_u32 (ev_ival e);
           who = actor_target g e
       in if failed
          then group_sys_line X (ev_fn e) (take (TT_NAME_MAX + 159)
                 (ascii ''could not apply '' @ ascii (mod_event_str v) @ ascii '' to '' @ who @ ascii '' (permission denied or peer gone)'')) ui
          else group_sys_line X (ev_fn e) (take (TT_NAME_MAX + 159) (ascii ''you '' @ ascii (mod_event_str v) @ [32] @ who))
                 (sync_if_shown X (ev_fn e)
                    (upd_group (ev_fn e) (if v = 0 then drop_member pid else upd_member pid (\<lambda>m. m \<lparr>gm_role := role_of_event v\<rparr>)) ui)))"

definition on_group_ignore_self :: "uenv \<Rightarrow> TTEvent \<Rightarrow> Ui \<Rightarrow> Ui" where
  "on_group_ignore_self X e =
     known_group (ev_fn e) (\<lambda>g ui.
       let failed = (ev_ival2 e \<ge> 100);
           ignored = (\<not> failed \<and> ev_ival2 e \<noteq> 0);
           who = actor_target g e
       in if failed
          then group_sys_line X (ev_fn e) (take (TT_NAME_MAX + 95)
                 (ascii ''could not '' @ ascii (if ignored then ''ignore'' else ''unignore'') @ [32] @ who @ ascii '' (peer gone)'')) ui
          else group_sys_line X (ev_fn e) (take (TT_NAME_MAX + 95) (ascii ''you '' @ ascii (if ignored then ''ignored'' else ''unignored'') @ [32] @ who))
                 (upd_group (ev_fn e) (upd_member (to_u32 (ev_ival e)) (\<lambda>m. m \<lparr>gm_ignored := ignored\<rparr>)) ui))"

definition voice_of :: "int \<Rightarrow> int" where
  "voice_of v = (if v > 0 \<and> v \<le> 2 then v else 0)"

definition peer_limit_of :: "TTEvent \<Rightarrow> int" where
  "peer_limit_of e = (case ev_str e of Some b \<Rightarrow> max 0 (atoi (c_str b)) | None \<Rightarrow> 0)"

definition flag_of :: "int \<Rightarrow> int" where
  "flag_of v = (if v \<noteq> 0 then 1 else 0)"

text \<open>The row after the event and the line that is announced, if any.\<close>

definition group_state_row :: "uenv \<Rightarrow> bool \<Rightarrow> TTEvent \<Rightarrow> Group \<Rightarrow> Group \<times> bytes option" where
  "group_state_row X hist e g =
     (let i = ev_ival e; v = ev_ival2 e in
      if i = -1 then (g \<lparr>gr_voice := voice_of v\<rparr>, Some (ascii ''voice state: '' @ ascii
          (if voice_of v = 0 then ''everyone may speak'' else if voice_of v = 1 then ''only moderators may speak'' else ''only the founder may speak'')))
      else if i = -2 then (g \<lparr>gr_topic_lock := flag_of v\<rparr>, Some (ascii ''topic lock '' @ ascii (if v \<noteq> 0 then ''enabled'' else ''disabled'')))
      else if i = -3 then (g \<lparr>gr_peer_limit := peer_limit_of e\<rparr>,
          Some (ascii ''peer limit set to '' @ (case ev_str e of Some b \<Rightarrow> c_str b | None \<Rightarrow> [63])))
      else if i = -7 then (g \<lparr>gr_voice := voice_of v\<rparr>, None)
      else if i = -8 then (g \<lparr>gr_topic_lock := flag_of v\<rparr>, None)
      else if i = -9 then (g \<lparr>gr_peer_limit := peer_limit_of e\<rparr>, None)
      else if i = -10 then (g \<lparr>gr_privacy := flag_of v\<rparr>, None)
      else if i = -4 then (g, Some (ascii ''password changed''))
      else if i = -5 then
        (let g1 = (case ev_str e of Some b \<Rightarrow> if length b = 64 then g \<lparr>gr_chat_id_hex := c_str b\<rparr> else g | None \<Rightarrow> g)
         in (if hist \<and> x_profile X \<noteq> None \<and> gr_transcript g1 = [] then history_load_group X g1 else g1, None))
      else if i = -6 then (g \<lparr>gr_self_role := v\<rparr>, None)
      else if i = -11 then (g \<lparr>gr_self_pid := to_u32 v\<rparr>, None)
      else (g \<lparr>gr_privacy := i\<rparr>, Some (ascii ''group is now '' @ ascii (if i \<noteq> 0 then ''private'' else ''public''))))"

definition on_group_state :: "uenv \<Rightarrow> TTEvent \<Rightarrow> Ui \<Rightarrow> Ui" where
  "on_group_state X e =
     known_group (ev_fn e) (\<lambda>g ui.
       let ui1 = upd_group (ev_fn e) (\<lambda>g. fst (group_state_row X (u_history ui) e g)) ui
       in case snd (group_state_row X (u_history ui) e g) of
            None \<Rightarrow> ui1
          | Some line \<Rightarrow> group_sys_line X (ev_fn e) (take 95 line) ui1)"

definition on_group_join_fail :: "uenv \<Rightarrow> TTEvent \<Rightarrow> Ui \<Rightarrow> Ui" where
  "on_group_join_fail X e ui =
     (let line = ascii ''join failed: '' @ ascii (if ev_ival e = 0 then ''peer limit reached'' else if ev_ival e = 1 then ''wrong password'' else ''unknown reason'')
      in show_selected (roster_render
           (case group_by_gn ui (ev_fn e) of
              None \<Rightarrow> ui
            | Some _ \<Rightarrow> group_remove (ev_fn e) (deselect_group (ev_fn e) (group_sys_line X (ev_fn e) line ui)))))"

section \<open>Chess\<close>

definition on_chess_invite :: "TTEvent \<Rightarrow> Ui \<Rightarrow> Ui" where
  "on_chess_invite e ui =
     (if u_chess_invite_open ui then ui
      else ui \<lparr>u_chess_invite_open := True, u_chess_fn := ev_fn e,
               u_chess_self := (if map_option c_str (ev_str e) = Some (ascii ''white'') then TT_COLOR_WHITE else TT_COLOR_BLACK),
               u_chess_started := False, u_chess_sel_rank := -1, u_chess_sel_file := -1, u_chess_dragging := False\<rparr>)"

definition chess_open :: "nat \<Rightarrow> TTColor \<Rightarrow> bool \<Rightarrow> Ui \<Rightarrow> Ui" where
  "chess_open fn self started ui =
     ui \<lparr>u_chess_fn := fn, u_chess_self := self, u_chess_started := started, u_chess_sel_rank := -1, u_chess_sel_file := -1,
         u_chess_dragging := False, u_chess_my_turn := (started \<and> ch_to_move (u_chess_board ui) = self)\<rparr>"

definition on_chess_start :: "TTEvent \<Rightarrow> Ui \<Rightarrow> Ui" where
  "on_chess_start e ui =
     (let self = (if ev_ival e = 1 then TT_COLOR_WHITE else TT_COLOR_BLACK)
      in chess_open (ev_fn e) self True (ui \<lparr>u_chess_board := tt_chess_init, u_chess_invite_open := False\<rparr>))"

definition on_chess_move :: "TTEvent \<Rightarrow> Ui \<Rightarrow> Ui" where
  "on_chess_move e ui =
     (case ev_str e of
        Some [a, b, c, d] \<Rightarrow>
          if u_chess_fn ui \<noteq> ev_fn e then ui
          else
            (case (tt_chess_parse_square [a, b], tt_chess_parse_square [c, d]) of
               (Some (fr, ff), Some (tr, tf)) \<Rightarrow>
                 if ch_to_move (u_chess_board ui) = u_chess_self ui then ui
                 else
                   (case tt_chess_move (u_chess_board ui) fr ff tr tf of
                      (False, _) \<Rightarrow> ui
                    | (True, g) \<Rightarrow> ui \<lparr>u_chess_board := g, u_chess_my_turn := (ch_to_move g = u_chess_self ui)\<rparr>)
             | _ \<Rightarrow> ui)
      | _ \<Rightarrow> ui)"

definition on_chess_end :: "TTEvent \<Rightarrow> Ui \<Rightarrow> Ui" where
  "on_chess_end e ui =
     (if u_chess_fn ui \<noteq> ev_fn e then ui
      else ui \<lparr>u_chess_invite_open := False, u_chess_fn := UINT32_MAX, u_chess_sel_rank := -1, u_chess_sel_file := -1, u_chess_dragging := False\<rparr>)"

section \<open>Tunnels\<close>

definition on_tunnel_invite :: "TTEvent \<Rightarrow> Ui \<Rightarrow> Ui" where
  "on_tunnel_invite e ui =
     (if u_tun_invite_open ui then ui
      else
        (case cut_at 10 (take 255 (case ev_str e of Some b \<Rightarrow> c_str b | None \<Rightarrow> [63])) of
           (host, p1) \<Rightarrow>
             let p1' = map_option (\<lambda>p. fst (cut_at 10 p)) p1; p2 = Option.bind p1 (\<lambda>p. snd (cut_at 10 p))
             in ui \<lparr>u_tun_invite_open := True, u_tun_invite_fn := ev_fn e, u_tun_invite_host := host,
                    u_tun_invite_udp := snd (tt_port_list_parse p1'), u_tun_invite_tcp := snd (tt_port_list_parse p2)\<rparr>))"

definition on_tunnel_add :: "uenv \<Rightarrow> TTEvent \<Rightarrow> Ui \<Rightarrow> Ui" where
  "on_tunnel_add X e ui =
     (let i = to_u32 (ev_ival e); ep = take 299 (case ev_str e of Some b \<Rightarrow> c_str b | None \<Rightarrow> [63]) in
      case tun_ui_find ui i of
        None \<Rightarrow>
          if \<not> x_alloc X then ui
          else ui \<lparr>u_tunnels := \<lparr>tn_id = i, tn_host = (ev_ival2 e \<noteq> 0), tn_pending = False, tn_e2ee = False, tn_peer_fn = ev_fn e, tn_endpoint = ep\<rparr> # u_tunnels ui\<rparr>
      | Some _ \<Rightarrow> upd_tunnel i (\<lambda>tn. tn \<lparr>tn_host := (ev_ival2 e \<noteq> 0), tn_peer_fn := ev_fn e, tn_endpoint := ep\<rparr>) ui)"

definition on_tunnel_state :: "TTEvent \<Rightarrow> Ui \<Rightarrow> Ui" where
  "on_tunnel_state e =
     (let i = to_u32 (ev_ival e)
      in if ev_ival2 e = 2 then tun_ui_remove i else upd_tunnel i (\<lambda>tn. tn \<lparr>tn_pending := False, tn_peer_fn := ev_fn e\<rparr>))"

section \<open>The switch\<close>

definition handle_event :: "uenv \<Rightarrow> TTEvent \<Rightarrow> Ui \<Rightarrow> Ui" where
  "handle_event X e ui =
     (case ev_type e of
        TT_EV_TOXID \<Rightarrow> on_toxid e ui
      | TT_EV_SELF_CONNECTION \<Rightarrow> ui \<lparr>u_self_conn := ev_ival e\<rparr>
      | TT_EV_SELF_NAME \<Rightarrow> on_self_name e ui
      | TT_EV_SELF_STATUS_MSG \<Rightarrow> on_self_status_msg e ui
      | TT_EV_SELF_STATUS \<Rightarrow> ui \<lparr>u_self_presence := ev_ival e\<rparr>
      | TT_EV_TOR_MODE \<Rightarrow> ui \<lparr>u_tor_mode := True\<rparr>
      | TT_EV_FRIEND_NAME \<Rightarrow> on_friend_name X e ui
      | TT_EV_FRIEND_CONNECTION \<Rightarrow> on_friend_connection X e ui
      | TT_EV_FRIEND_STATUS \<Rightarrow> on_friend_status X e ui
      | TT_EV_FRIEND_STATUS_MSG \<Rightarrow> on_friend_status_msg X e ui
      | TT_EV_FRIEND_PUBKEY \<Rightarrow> on_friend_pubkey X e ui
      | TT_EV_FRIEND_LAST_ONLINE \<Rightarrow> on_friend_last_online X e ui
      | TT_EV_FRIEND_MESSAGE \<Rightarrow> on_friend_message X e ui
      | TT_EV_FRIEND_TYPING \<Rightarrow> on_friend_typing e ui
      | TT_EV_MESSAGE_SENT \<Rightarrow> on_message_sent e ui
      | TT_EV_FRIEND_READ_RECEIPT \<Rightarrow> on_read_receipt e ui
      | TT_EV_OFFLINE_FLUSHED \<Rightarrow> on_offline_flushed X e ui
      | TT_EV_AV_INCOMING \<Rightarrow> on_av_incoming X e ui
      | TT_EV_AV_STATE \<Rightarrow> on_av_state X e ui
      | TT_EV_AV_ENDED \<Rightarrow> on_av_ended X e ui
      | TT_EV_AV_FRAME \<Rightarrow> video_frame_take X e ui
      | TT_EV_E2EE_STATE \<Rightarrow> on_e2ee_state X e ui
      | TT_EV_E2EE_WARN \<Rightarrow> on_e2ee_warn X e ui
      | TT_EV_E2EE_ENFORCE \<Rightarrow> on_e2ee_enforce X e ui
      | TT_EV_FRIEND_REQUEST \<Rightarrow> on_friend_request X e ui
      | TT_EV_FRIEND_LIST_END \<Rightarrow> on_friend_list_end X ui
      | TT_EV_AVATAR_SELF \<Rightarrow> on_avatar_self X e ui
      | TT_EV_AVATAR \<Rightarrow> on_avatar X e ui
      | TT_EV_AVATAR_CLEARED \<Rightarrow> on_avatar_cleared e ui
      | TT_EV_FILE_TX_STARTED \<Rightarrow> on_file_tx_started X e ui
      | TT_EV_FILE_PROGRESS \<Rightarrow> on_file_progress X e ui
      | TT_EV_FILE_DONE \<Rightarrow> on_file_done X e ui
      | TT_EV_FILE_FAILED \<Rightarrow> on_file_failed X e ui
      | TT_EV_FILE_OFFER \<Rightarrow> on_file_offer X e ui
      | TT_EV_FILE_RESUMED \<Rightarrow> on_file_resumed X e ui
      | TT_EV_GROUP_NEW \<Rightarrow> on_group_new X e ui
      | TT_EV_GROUP_JOINED \<Rightarrow> on_group_joined X e ui
      | TT_EV_GROUP_LEFT \<Rightarrow> on_group_left X e ui
      | TT_EV_GROUP_MSG \<Rightarrow> on_group_msg X e ui
      | TT_EV_GROUP_PRIV_MSG \<Rightarrow> on_group_priv_msg X e ui
      | TT_EV_GROUP_TOPIC \<Rightarrow> on_group_topic X e ui
      | TT_EV_GROUP_PEER_JOIN \<Rightarrow> on_group_peer_join X e ui
      | TT_EV_GROUP_PEER_EXIT \<Rightarrow> on_group_peer_exit X e ui
      | TT_EV_GROUP_PEER_NAME \<Rightarrow> on_group_peer_name X e ui
      | TT_EV_GROUP_PEER_STATUS \<Rightarrow> ui
      | TT_EV_GROUP_PEER_ROLE \<Rightarrow> on_group_peer_role X e ui
      | TT_EV_GROUP_INVITE \<Rightarrow> on_group_invite e ui
      | TT_EV_GROUP_MOD \<Rightarrow> on_group_mod X e ui
      | TT_EV_GROUP_MOD_SELF \<Rightarrow> on_group_mod_self X e ui
      | TT_EV_GROUP_IGNORE_SELF \<Rightarrow> on_group_ignore_self X e ui
      | TT_EV_GROUP_STATE \<Rightarrow> on_group_state X e ui
      | TT_EV_GROUP_JOIN_FAIL \<Rightarrow> on_group_join_fail X e ui
      | TT_EV_PASSPHRASE_NEEDED \<Rightarrow> ui \<lparr>u_pass_open := True\<rparr>
      | TT_EV_CHESS_INVITE \<Rightarrow> on_chess_invite e ui
      | TT_EV_CHESS_START \<Rightarrow> on_chess_start e ui
      | TT_EV_CHESS_MOVE \<Rightarrow> on_chess_move e ui
      | TT_EV_CHESS_END \<Rightarrow> on_chess_end e ui
      | TT_EV_TUNNEL_INVITE \<Rightarrow> on_tunnel_invite e ui
      | TT_EV_TUNNEL_ADD \<Rightarrow> on_tunnel_add X e ui
      | TT_EV_TUNNEL_STATE \<Rightarrow> on_tunnel_state e ui
      | TT_EV_TUNNEL_E2EE \<Rightarrow> upd_tunnel (to_u32 (ev_ival e)) (\<lambda>tn. tn \<lparr>tn_e2ee := (ev_ival2 e \<noteq> 0)\<rparr>) ui
      | TT_EV_TUNNEL_REMOVE \<Rightarrow> tun_ui_remove (to_u32 (ev_ival e)) ui
      | TT_EV_TUNNEL_ERROR \<Rightarrow> tun_ui_remove (to_u32 (ev_ival e)) ui
      | TT_EV_SHUTDOWN \<Rightarrow> ui \<lparr>u_quitting := True\<rparr>)"

text \<open>The timer empties the queue.\<close>

definition poll_events :: "uenv \<Rightarrow> TTEvent list \<Rightarrow> Ui \<Rightarrow> Ui" where
  "poll_events X es ui = (if u_quitting ui then ui else foldl (\<lambda>ui e. handle_event X e ui) ui es)"

end
