(* ===== verification/UiCommands.thy ===== *)
theory UiCommands
  imports UiEvents Contacts
begin

text \<open>
  The callbacks of the Tk front end, \<^verbatim>\<open>src/src/ui/ui_tk.c\<close>: what the buttons, keys and timers do to the state and which
  commands they post.  The text of an entry widget, the answer of a file dialog and the result of a system call are
  arguments.  The return value, which only tells Tk whether to go on with its own binding, is left out, and so are the
  callbacks that only pop up a menu, copy to the clipboard or build a window without changing the state.
\<close>

definition ui_zero :: Ui where
  "ui_zero =
     \<lparr>u_contacts = [], u_groups = [], u_sel_kind = TT_SEL_NONE, u_sel_fn = 0, u_typing_fn = UINT32_MAX, u_typing_sent = False,
      u_typing_last = 0, u_typing_idle_sched = False, u_call_timer_sched = False, u_self_name = [], u_self_status_msg = [],
      u_self_presence = 0, u_self_conn = 0, u_tor_mode = False, u_my_toxid = [], u_filter = [], u_ready = False, u_add_open = False,
      u_name_open = False, u_smsg_open = False, u_st_open = False, u_history = False, u_offer_open = False, u_offer_label = [],
      u_gnew_open = False, u_gjoin_open = False, u_ginvite_open = False, u_gtopic_open = False, u_gctl_open = False, u_pass_open = False,
      u_quitting = False, u_self_avatar_img = [], u_avatar_seq = 0, u_video_img = False, u_video_sched = False, u_video_timers = 0,
      u_video_frame = [], u_video_w = 0, u_video_h = 0, u_video_cap = 0, u_video_last = 0, u_video_self = False, u_chess_fn = 0,
      u_chess_board = cg_board game_zero, u_chess_self = TT_COLOR_WHITE, u_chess_started = False, u_chess_my_turn = False,
      u_chess_sel_rank = 0, u_chess_sel_file = 0, u_chess_dragging = False, u_chess_invite_open = False, u_tun_panel_open = False,
      u_tun_share_open = False, u_tun_invite_open = False, u_tun_invite_fn = 0, u_tun_invite_udp = [], u_tun_invite_tcp = [],
      u_tun_invite_host = [], u_tunnels = [], u_gi = None, u_hist = [], u_posted = []\<rparr>"

text \<open>The state when the window opens.\<close>

definition ui_run :: "uenv \<Rightarrow> Ui" where
  "ui_run X = ui_zero \<lparr>u_history := set_history (tt_settings_load (x_profile X) (x_disk X))\<rparr>"

section \<open>Selecting\<close>

definition contact_by_iid :: "Ui \<Rightarrow> bytes \<Rightarrow> Contact option" where
  "contact_by_iid ui iid =
     (if take 3 iid = ascii ''req'' then request_row ui
      else if iid = [] \<or> hd iid \<noteq> 102 then None
      else contact_by_fn ui (to_u32 (int (strtoull (tl iid)))))"

definition group_by_iid :: "Ui \<Rightarrow> bytes \<Rightarrow> Group option" where
  "group_by_iid ui iid =
     (if iid = [] \<or> hd iid \<noteq> 103 \<or> tl iid = [] \<or> \<not> list_all is_digit (tl iid) then None
      else group_by_gn ui (to_u32 (int (strtoull (tl iid)))))"

definition cc_selected :: "bytes \<Rightarrow> Ui \<Rightarrow> Ui" where
  "cc_selected res ui =
     (if res = [] then ui
      else
        let (kind, fn) = (case contact_by_iid ui res of
              Some c \<Rightarrow> if ct_is_request c then (TT_SEL_REQUEST, 0) else (TT_SEL_CHAT, ct_fn c)
            | None \<Rightarrow> (case group_by_iid ui res of Some g \<Rightarrow> (TT_SEL_GROUP, gr_gn g) | None \<Rightarrow> (TT_SEL_NONE, 0)))
        in if kind = u_sel_kind ui \<and> fn = u_sel_fn ui then ui
           else show_selected (ui \<lparr>u_sel_kind := kind, u_sel_fn := fn\<rparr>))"

definition selected_contact :: "Ui \<Rightarrow> Contact option" where
  "selected_contact ui = (if u_sel_kind ui = TT_SEL_CHAT then contact_by_fn ui (u_sel_fn ui) else None)"

definition with_selected :: "(Contact \<Rightarrow> Ui \<Rightarrow> Ui) \<Rightarrow> Ui \<Rightarrow> Ui" where
  "with_selected f ui = (case selected_contact ui of None \<Rightarrow> ui | Some c \<Rightarrow> f c ui)"

definition gselected :: "Ui \<Rightarrow> Group option" where
  "gselected ui = (if u_sel_kind ui = TT_SEL_GROUP then group_by_gn ui (u_sel_fn ui) else None)"

definition with_gselected :: "(Group \<Rightarrow> Ui \<Rightarrow> Ui) \<Rightarrow> Ui \<Rightarrow> Ui" where
  "with_gselected f ui = (case gselected ui of None \<Rightarrow> ui | Some g \<Rightarrow> f g ui)"

section \<open>Writing\<close>

definition cc_input_key :: "uenv \<Rightarrow> Ui \<Rightarrow> Ui" where
  "cc_input_key X ui = (if u_sel_kind ui = TT_SEL_CHAT then typing_keystroke X (u_sel_fn ui) ui else ui)"

text \<open>The text widget ends its content with a line break.\<close>

definition input_text :: "bytes \<Rightarrow> bytes" where
  "input_text t = (let buf = take TOX_MAX_MESSAGE_LENGTH t in if buf \<noteq> [] \<and> last buf = 10 then butlast buf else buf)"

definition is_action :: "bytes \<Rightarrow> bool" where
  "is_action buf \<longleftrightarrow> take 4 buf = ascii ''/me '' \<and> length buf > 4"

definition sent_body :: "bytes \<Rightarrow> bytes" where
  "sent_body buf = (if is_action buf then emotify (drop 4 buf) (TOX_MAX_MESSAGE_LENGTH + 1 - 4) else emotify buf (TOX_MAX_MESSAGE_LENGTH + 1))"

definition own_name :: "Ui \<Rightarrow> bytes" where
  "own_name ui = or_default (u_self_name ui) ''you''"

definition typing_sent_off :: "nat \<Rightarrow> Ui \<Rightarrow> Ui" where
  "typing_sent_off fn ui =
     (if u_typing_sent ui \<and> u_typing_fn ui = fn
      then (tt_post TT_CMD_SET_TYPING fn None 0 ui) \<lparr>u_typing_sent := False, u_typing_fn := UINT32_MAX\<rparr> else ui)"

definition send_friend :: "uenv \<Rightarrow> nat \<Rightarrow> bytes \<Rightarrow> Ui \<Rightarrow> Ui" where
  "send_friend X fn buf ui =
     (let action = is_action buf; body = sent_body buf; me = own_name ui; flag = (if action then 2 else 1);
          line = take (TOX_MAX_MESSAGE_LENGTH + 7) (if action then ascii ''* you '' @ body else body);
          ui1 = typing_sent_off fn (tt_post2 TT_CMD_SEND_MESSAGE fn (Some body) 0 (if action then 1 else 0) ui)
      in roster_render (show_live X True me flag line (upd_contact fn (chat_append X me flag line) ui1)))"

definition send_group :: "uenv \<Rightarrow> nat \<Rightarrow> bytes \<Rightarrow> Ui \<Rightarrow> Ui" where
  "send_group X gn buf ui =
     (let action = is_action buf; body = sent_body buf; me = own_name ui; flag = (if action then 2 else 1);
          line = take (TOX_MAX_MESSAGE_LENGTH + TT_NAME_MAX + 3) (if action then ascii ''* you '' @ body else body);
          ui1 = tt_post2 TT_CMD_GROUP_SEND gn (Some body) 0 (if action then 1 else 0) ui
      in roster_render (show_live X True me flag line (upd_group gn (group_append X me flag line) ui1)))"

definition drop_request :: "Ui \<Rightarrow> Ui" where
  "drop_request ui = show_selected (roster_render ((contact_remove ct_is_request ui) \<lparr>u_sel_kind := TT_SEL_NONE\<rparr>))"

definition cc_send :: "uenv \<Rightarrow> bytes \<Rightarrow> Ui \<Rightarrow> Ui" where
  "cc_send X t ui =
     (if \<not> u_ready ui then ui
      else case u_sel_kind ui of
        TT_SEL_REQUEST \<Rightarrow>
          (case request_row ui of
             None \<Rightarrow> ui
           | Some r \<Rightarrow> drop_request (tt_post TT_CMD_ACCEPT_FRIEND 0 (Some (ct_key_hex r)) 0 ui))
      | TT_SEL_NONE \<Rightarrow> ui
      | TT_SEL_GROUP \<Rightarrow>
          (case group_by_gn ui (u_sel_fn ui) of
             None \<Rightarrow> ui | Some g \<Rightarrow> if input_text t = [] then ui else send_group X (gr_gn g) (input_text t) ui)
      | TT_SEL_CHAT \<Rightarrow>
          (case contact_by_fn ui (u_sel_fn ui) of
             None \<Rightarrow> ui | Some c \<Rightarrow> if input_text t = [] then ui else send_friend X (ct_fn c) (input_text t) ui))"

definition cc_ignore :: "Ui \<Rightarrow> Ui" where
  "cc_ignore ui = (case request_row ui of None \<Rightarrow> ui | Some _ \<Rightarrow> drop_request ui)"

section \<open>Finding and adding friends\<close>

definition cc_search_changed :: "bytes \<Rightarrow> Ui \<Rightarrow> Ui" where
  "cc_search_changed q ui = roster_render (ui \<lparr>u_filter := take 79 q\<rparr>)"

definition cc_add_open :: "Ui \<Rightarrow> Ui" where
  "cc_add_open ui = ui \<lparr>u_add_open := True\<rparr>"

text \<open>\<^verbatim>\<open>toxid_span\<close> is the search of \<^verbatim>\<open>extract_toxid_hex\<close> once more; a read past the end finds nothing here.\<close>

definition ui_toxid_span :: "bytes \<Rightarrow> nat option" where
  "ui_toxid_span s = (case toxid_scan s 0 of Span p \<Rightarrow> Some p | _ \<Rightarrow> None)"

definition cc_search_enter :: "bytes \<Rightarrow> Ui \<Rightarrow> Ui" where
  "cc_search_enter q ui =
     (case ui_toxid_span q of
        Some p \<Rightarrow> roster_render ((tt_post TT_CMD_ADD_FRIEND 0 (Some (drop p q)) 0 ui) \<lparr>u_filter := []\<rparr>)
      | None \<Rightarrow> cc_add_open ui)"

text \<open>The counter under the entry: the longest run of hexadecimal digits.\<close>

function longest_hex :: "bytes \<Rightarrow> nat \<Rightarrow> nat" where
  "longest_hex [] best = best"
| "longest_hex (c # cs) best =
     (if \<not> isxdigit c then longest_hex cs best
      else let j = length (takeWhile isxdigit (c # cs)) in longest_hex (drop j (c # cs)) (if j > best then j else best))"
  by pat_completeness auto
termination
  by (relation "measure (\<lambda>(s, b). length s)") auto

definition cc_add_count :: "bytes \<Rightarrow> nat" where
  "cc_add_count val = longest_hex val 0"

text \<open>The message may be empty or not; the request is cut to 76 + 1 + 921 bytes.\<close>

definition cc_add_ok :: "bytes \<Rightarrow> bytes \<Rightarrow> Ui \<Rightarrow> Ui" where
  "cc_add_ok e1 e2 ui =
     (if \<not> u_add_open ui then ui
      else
        let idbuf = take 255 e1 in
        case ui_toxid_span idbuf of
          None \<Rightarrow> ui
        | Some p \<Rightarrow>
            let hex = take 76 (drop p idbuf); req = (if e2 = [] then hex else take (76 + 1 + 921) (hex @ [10] @ e2))
            in (tt_post TT_CMD_ADD_FRIEND 0 (Some req) 0 ui) \<lparr>u_add_open := False\<rparr>)"

definition cc_add_cancel :: "Ui \<Rightarrow> Ui" where
  "cc_add_cancel ui = ui \<lparr>u_add_open := False\<rparr>"

definition cc_remove :: "Ui \<Rightarrow> Ui" where
  "cc_remove =
     with_selected (\<lambda>c ui.
       show_selected (roster_render
         ((contact_remove (is_friend (ct_fn c)) (tt_post TT_CMD_DELETE_FRIEND (ct_fn c) None 0 ui)) \<lparr>u_sel_kind := TT_SEL_NONE, u_sel_fn := 0\<rparr>)))"

definition cc_prof_enforce :: "bytes \<Rightarrow> Ui \<Rightarrow> Ui" where
  "cc_prof_enforce v =
     with_selected (\<lambda>c ui.
       tt_post TT_CMD_E2EE_ENFORCE (ct_fn c) None (if v = [49] then 1 else 0)
         (upd_contact (ct_fn c) (\<lambda>c. c \<lparr>ct_e2ee_required := (v = [49])\<rparr>) ui))"

section \<open>Own identity and settings\<close>

definition cc_status_set :: "bytes \<Rightarrow> Ui \<Rightarrow> Ui" where
  "cc_status_set a ui = (if atoi a < 0 \<or> atoi a > 2 then ui else tt_post TT_CMD_SET_STATUS 0 None (atoi a) ui)"

definition cc_avatar_open :: "bytes \<Rightarrow> Ui \<Rightarrow> Ui" where
  "cc_avatar_open f ui = (if f = [] then ui else tt_post TT_CMD_SET_AVATAR 0 (Some f) 0 ui)"

definition cc_avatar_clear :: "Ui \<Rightarrow> Ui" where
  "cc_avatar_clear = tt_post TT_CMD_CLEAR_AVATAR 0 None 0"

definition cc_name_open :: "Ui \<Rightarrow> Ui" where
  "cc_name_open ui = ui \<lparr>u_name_open := True\<rparr>"

definition cc_name_ok :: "bytes \<Rightarrow> Ui \<Rightarrow> Ui" where
  "cc_name_ok name ui =
     (if \<not> u_name_open ui then ui
      else (if name = [] then ui else tt_post TT_CMD_SET_NAME 0 (Some name) 0 ui) \<lparr>u_name_open := False\<rparr>)"

definition cc_name_cancel :: "Ui \<Rightarrow> Ui" where
  "cc_name_cancel ui = ui \<lparr>u_name_open := False\<rparr>"

definition cc_smsg_open :: "Ui \<Rightarrow> Ui" where
  "cc_smsg_open ui = ui \<lparr>u_smsg_open := True\<rparr>"

definition cc_smsg_ok :: "bytes \<Rightarrow> Ui \<Rightarrow> Ui" where
  "cc_smsg_ok msg ui = (if \<not> u_smsg_open ui then ui else (tt_post TT_CMD_SET_STATUS_MSG 0 (Some msg) 0 ui) \<lparr>u_smsg_open := False\<rparr>)"

definition cc_smsg_cancel :: "Ui \<Rightarrow> Ui" where
  "cc_smsg_cancel ui = ui \<lparr>u_smsg_open := False\<rparr>"

definition cc_set_nospam :: "Ui \<Rightarrow> Ui" where
  "cc_set_nospam = tt_post TT_CMD_SET_NOSPAM 0 None 0"

definition cc_st_open :: "Ui \<Rightarrow> Ui" where
  "cc_st_open ui = ui \<lparr>u_st_open := True\<rparr>"

definition cc_st_cancel :: "Ui \<Rightarrow> Ui" where
  "cc_st_cancel ui = ui \<lparr>u_st_open := False\<rparr>"

definition cc_st_hist :: "uenv \<Rightarrow> bool \<Rightarrow> Ui \<Rightarrow> disk \<Rightarrow> Ui \<times> disk" where
  "cc_st_hist X hist ui d =
     (if \<not> u_st_open ui then (ui, d)
      else case tt_settings_store_history (x_io X) (x_profile X) hist d of
        (ok, d1) \<Rightarrow> (if ok then ui \<lparr>u_history := hist\<rparr> else ui, d1))"

text \<open>\<^verbatim>\<open>strtol\<close> with the rest it leaves.\<close>

definition strtol_rest :: "bytes \<Rightarrow> int \<times> bytes" where
  "strtol_rest p =
     (case scan_ld p of
        None \<Rightarrow> (0, p)
      | Some n \<Rightarrow> (n, let p1 = dropWhile is_space p in dropWhile is_digit (if p1 \<noteq> [] \<and> (hd p1 = 45 \<or> hd p1 = 43) then tl p1 else p1)))"

definition cc_st_ok :: "uenv \<Rightarrow> bytes \<Rightarrow> bytes \<Rightarrow> Ui \<Rightarrow> disk \<Rightarrow> Ui \<times> disk" where
  "cc_st_ok X e1 e2 ui d =
     (let hostbuf = take 127 e1; (port, rest) = strtol_rest (take 15 e2) in
      if \<not> u_st_open ui \<or> hostbuf = [] \<or> \<not> list_all (\<lambda>c. is_digit c \<or> c = 46) hostbuf then (ui, d)
      else if port \<le> 0 \<or> port > 65535 \<or> rest \<noteq> [] then (ui, d)
      else case tt_settings_store_proxy (x_io X) (x_profile X) (Some (hostbuf, port)) d of
        (ok, d1) \<Rightarrow> (if ok then ui \<lparr>u_st_open := False\<rparr> else ui, d1))"

definition cc_st_clear :: "uenv \<Rightarrow> Ui \<Rightarrow> disk \<Rightarrow> Ui \<times> disk" where
  "cc_st_clear X ui d =
     (if \<not> u_st_open ui then (ui, d)
      else case tt_settings_store_proxy (x_io X) (x_profile X) None d of
        (ok, d1) \<Rightarrow> (if ok then ui \<lparr>u_st_open := False\<rparr> else ui, d1))"

text \<open>The passphrase handed to the tox thread, and whether the dialog was cancelled.\<close>

definition cc_pass_ok :: "bytes \<Rightarrow> Ui \<Rightarrow> Ui \<times> bytes option" where
  "cc_pass_ok e ui =
     (let pass = take 255 e in if \<not> u_pass_open ui \<or> pass = [] then (ui, None) else (ui \<lparr>u_pass_open := False\<rparr>, Some pass))"

definition cc_pass_cancel :: "Ui \<Rightarrow> Ui \<times> bool" where
  "cc_pass_cancel ui = (if \<not> u_pass_open ui then (ui, False) else (ui \<lparr>u_pass_open := False\<rparr>, True))"

section \<open>Files\<close>

definition cc_file_open :: "bytes \<Rightarrow> Ui \<Rightarrow> Ui" where
  "cc_file_open f ui =
     (if u_sel_kind ui \<noteq> TT_SEL_CHAT \<or> \<not> u_ready ui \<or> f = [] then ui else tt_post TT_CMD_SEND_FILE (u_sel_fn ui) (Some f) 0 ui)"

definition cc_file_cancel :: "uenv \<Rightarrow> Ui \<Rightarrow> Ui" where
  "cc_file_cancel X =
     with_selected (\<lambda>c ui.
       if \<not> ct_xfer_running c then ui
       else xfer_line X (ct_fn c) (ct_xfer_me c) (ascii ''cancelling '' @ quoted (or_default (ct_xfer_name c) ''?'') @ ascii ''...'')
              (tt_post TT_CMD_FILE_CANCEL 0 None (ct_xfer_run_id c) ui))"

text \<open>Both buttons answer the first pending offer of the roster.\<close>

definition has_offer :: "Contact \<Rightarrow> bool" where
  "has_offer c \<longleftrightarrow> \<not> ct_is_request c \<and> ct_offer_pending c"

definition offer_answered :: "uenv \<Rightarrow> Contact \<Rightarrow> bytes \<Rightarrow> Ui \<Rightarrow> Ui" where
  "offer_answered X c line ui =
     (upd_contact (ct_fn c) (\<lambda>c. c \<lparr>ct_offer_pending := False\<rparr>) (xfer_line X (ct_fn c) False line ui)) \<lparr>u_offer_open := False\<rparr>"

definition cc_file_yes :: "uenv \<Rightarrow> bytes \<Rightarrow> Ui \<Rightarrow> Ui" where
  "cc_file_yes X path ui =
     (case find has_offer (u_contacts ui) of
        None \<Rightarrow> ui \<lparr>u_offer_open := False\<rparr>
      | Some c \<Rightarrow>
          if path = [] then ui
          else roster_render (offer_answered X c (ascii ''incoming file '' @ quoted (ct_offer_name c) @ [32, 0xe2, 0x80, 0x94] @ ascii '' saving'')
                 (tt_post TT_CMD_FILE_ACCEPT 0 (Some path) (ct_offer_id c) ui)))"

definition cc_file_no :: "uenv \<Rightarrow> Ui \<Rightarrow> Ui" where
  "cc_file_no X ui =
     (case find has_offer (u_contacts ui) of
        None \<Rightarrow> ui \<lparr>u_offer_open := False\<rparr>
      | Some c \<Rightarrow>
          roster_render (offer_answered X c (ascii ''declined incoming file '' @ quoted (ct_offer_name c))
            (tt_post TT_CMD_FILE_REJECT 0 None (ct_offer_id c) ui)))"

section \<open>Calls and video\<close>

definition cc_call :: "TTCommandType \<Rightarrow> int \<Rightarrow> int \<Rightarrow> Ui \<Rightarrow> Ui" where
  "cc_call ty audio video = with_selected (\<lambda>_ ui. tt_post2 ty (u_sel_fn ui) (Some []) audio video ui)"

definition cc_av_call :: "uenv \<Rightarrow> Ui \<Rightarrow> Ui" where
  "cc_av_call X =
     with_selected (\<lambda>c ui.
       let busy = (ct_call_active c \<or> ct_call_ringing c);
           ui1 = (if \<not> busy \<and> u_tor_mode ui then friend_sys_line X (ct_fn c) 1 (ascii ''tor mode: audio ok, video may struggle'') ui else ui);
           ui2 = upd_contact (ct_fn c) (\<lambda>c. c \<lparr>ct_call_ringing := \<not> busy\<rparr>) ui1
       in cc_call (if busy then TT_CMD_AV_HANGUP else TT_CMD_AV_CALL) 1 0 ui2)"

definition cc_av_answer :: "Ui \<Rightarrow> Ui" where
  "cc_av_answer = cc_call TT_CMD_AV_ANSWER 1 0"

definition cc_av_answer_video :: "Ui \<Rightarrow> Ui" where
  "cc_av_answer_video = with_selected (\<lambda>c ui. if ct_call_video c then cc_call TT_CMD_AV_ANSWER 1 2500 ui else ui)"

definition cc_av_decline :: "Ui \<Rightarrow> Ui" where
  "cc_av_decline = cc_call TT_CMD_AV_HANGUP 0 0"

definition in_call :: "(Contact \<Rightarrow> Ui \<Rightarrow> Ui) \<Rightarrow> Ui \<Rightarrow> Ui" where
  "in_call f = with_selected (\<lambda>c ui. if ct_call_active c then f c ui else ui)"

definition cc_av_mute :: "Ui \<Rightarrow> Ui" where
  "cc_av_mute = in_call (\<lambda>c ui. cc_call TT_CMD_AV_MUTE (if ct_call_muted c then 0 else 1) 0
     (upd_contact (ct_fn c) (\<lambda>c. c \<lparr>ct_call_muted := \<not> ct_call_muted c\<rparr>) ui))"

definition cc_av_pause :: "uenv \<Rightarrow> Ui \<Rightarrow> Ui" where
  "cc_av_pause X = in_call (\<lambda>c ui.
     let paused = ct_call_paused_self c
     in friend_sys_line X (ct_fn c) 1 (ascii (if paused then ''you resumed the call'' else ''you paused the call''))
          (cc_call (if paused then TT_CMD_AV_RESUME else TT_CMD_AV_PAUSE) 1 0
             (upd_contact (ct_fn c) (\<lambda>c. c \<lparr>ct_call_paused_self := \<not> paused\<rparr>) ui)))"

definition cc_av_deaf :: "Ui \<Rightarrow> Ui" where
  "cc_av_deaf = in_call (\<lambda>c ui. cc_call TT_CMD_AV_DEAF (if ct_call_deaf c then 0 else 1) 0
     (upd_contact (ct_fn c) (\<lambda>c. c \<lparr>ct_call_deaf := \<not> ct_call_deaf c\<rparr>) ui))"

definition cc_av_self :: "Ui \<Rightarrow> Ui" where
  "cc_av_self = in_call (\<lambda>c ui.
     if \<not> (ct_call_video c \<or> ct_call_cam c) then ui
     else cc_call TT_CMD_AV_SELFVIEW (if u_video_self ui then 0 else 1) 0 (ui \<lparr>u_video_self := \<not> u_video_self ui\<rparr>))"

definition cc_av_cam :: "Ui \<Rightarrow> Ui" where
  "cc_av_cam = in_call (\<lambda>c ui. cc_call TT_CMD_AV_CAMERA (if ct_call_cam c then 0 else 1) 0
     (upd_contact (ct_fn c) (\<lambda>c. c \<lparr>ct_call_cam := \<not> ct_call_cam c\<rparr>) ui))"

text \<open>The second timer: it is queued again as long as the selected friend is in a call.\<close>

definition cc_call_tick :: "Ui \<Rightarrow> Ui" where
  "cc_call_tick ui =
     (case selected_contact ui of
        Some c \<Rightarrow> ui \<lparr>u_call_timer_sched := ct_call_active c\<rparr>
      | None \<Rightarrow> ui \<lparr>u_call_timer_sched := False\<rparr>)"

definition rd :: "bytes \<Rightarrow> nat \<Rightarrow> int option" where
  "rd fr k = (if k < length fr then Some (uint (fr ! k)) else None)"

definition clamp8 :: "int \<Rightarrow> byte" where
  "clamp8 x = (if x < 0 then 0 else if x > 255 then 255 else of_int x)"

text \<open>One pixel of \<^verbatim>\<open>video_yuv_to_rgb\<close>; \<^const>\<open>None\<close> is a read past the frame.\<close>

definition yuv_pixel :: "bytes \<Rightarrow> nat \<Rightarrow> nat \<Rightarrow> nat \<Rightarrow> nat \<Rightarrow> bytes option" where
  "yuv_pixel fr w h j i =
     (let k = (j div 2) * (w div 2) + i div 2 in
      case (rd fr (j * w + i), rd fr (w * h + k), rd fr (w * h + (w div 2) * (h div 2) + k)) of
        (Some y, Some u, Some v) \<Rightarrow>
          let Y = y - 16; U = u - 128; V = v - 128
          in Some [clamp8 ((290 * Y + 409 * V + 128) div 256), clamp8 ((290 * Y - 100 * U - 208 * V + 128) div 256),
                   clamp8 ((290 * Y + 516 * U + 128) div 256), 255]
      | _ \<Rightarrow> None)"

definition video_yuv_to_rgb :: "bytes \<Rightarrow> nat \<Rightarrow> nat \<Rightarrow> bytes option" where
  "video_yuv_to_rgb fr w h =
     map_option concat (those (map (\<lambda>(j, i). yuv_pixel fr w h j i) (List.product [0..<h] [0..<w])))"

definition video_paint :: "Ui \<Rightarrow> Ui" where
  "video_paint ui = (if u_video_w ui < 1 \<or> u_video_h ui < 1 \<or> u_video_cap ui = 0 then ui else ui \<lparr>u_video_img := True\<rparr>)"

text \<open>A queued tick runs: the pane closes when frames stop, otherwise it is painted and a tick is queued.\<close>

definition cc_video_tick :: "uenv \<Rightarrow> Ui \<Rightarrow> Ui" where
  "cc_video_tick X ui =
     (let ui1 = ui \<lparr>u_video_sched := False, u_video_timers := u_video_timers ui - 1\<rparr>;
          ui2 = (if u_video_last ui1 \<noteq> 0 \<and> x_now X - u_video_last ui1 > 3 then ui1 \<lparr>u_video_last := 0, u_video_img := False\<rparr> else ui1)
      in if u_video_last ui2 \<noteq> 0 then (video_paint ui2) \<lparr>u_video_timers := u_video_timers ui2 + 1\<rparr> else ui2)"

section \<open>Chess\<close>

definition cc_chess_invite :: "Ui \<Rightarrow> Ui" where
  "cc_chess_invite = with_selected (\<lambda>c. tt_post TT_CMD_CHESS_INVITE (ct_fn c) None 0)"

definition cc_chess_accept :: "Ui \<Rightarrow> Ui" where
  "cc_chess_accept ui =
     (if u_chess_fn ui = UINT32_MAX then ui
      else tt_post TT_CMD_CHESS_ACCEPT (u_chess_fn ui) None 0 (ui \<lparr>u_chess_invite_open := False\<rparr>))"

definition cc_chess_decline :: "Ui \<Rightarrow> Ui" where
  "cc_chess_decline ui =
     (if u_chess_fn ui = UINT32_MAX then ui
      else tt_post TT_CMD_CHESS_DECLINE (u_chess_fn ui) None 0 (ui \<lparr>u_chess_invite_open := False, u_chess_fn := UINT32_MAX\<rparr>))"

text \<open>C division truncates; a click has coordinates of the canvas.\<close>

definition cell_of :: "int \<Rightarrow> int \<Rightarrow> int \<times> int" where
  "cell_of x y = (7 - sgn y * (\<bar>y\<bar> div 40), sgn x * (\<bar>x\<bar> div 40))"

definition chess_live :: "Ui \<Rightarrow> bool" where
  "chess_live ui \<longleftrightarrow> u_chess_fn ui \<noteq> UINT32_MAX \<and> u_chess_started ui"

definition cc_chess_square :: "int \<Rightarrow> int \<Rightarrow> Ui \<Rightarrow> Ui" where
  "cc_chess_square x y ui =
     (case cell_of x y of (rank, file) \<Rightarrow>
        if \<not> chess_live ui \<or> \<not> in_bounds rank file then ui
        else
          let p = ch_board (u_chess_board ui) rank file in
          if pc_type p \<noteq> TT_PIECE_NONE \<and> pc_color p = u_chess_self ui
          then ui \<lparr>u_chess_sel_rank := rank, u_chess_sel_file := file, u_chess_dragging := True\<rparr>
          else ui \<lparr>u_chess_dragging := False\<rparr>)"

definition cc_chess_drop :: "int \<Rightarrow> int \<Rightarrow> Ui \<Rightarrow> Ui" where
  "cc_chess_drop x y ui =
     (case cell_of x y of (rank, file) \<Rightarrow>
        if \<not> chess_live ui \<or> u_chess_sel_rank ui < 0 \<or> \<not> in_bounds rank file then ui
        else
          let ui1 = ui \<lparr>u_chess_dragging := False\<rparr> in
          if rank = u_chess_sel_rank ui \<and> file = u_chess_sel_file ui then ui1
          else
            let from = tt_chess_format_square (u_chess_sel_rank ui) (u_chess_sel_file ui);
                to = tt_chess_format_square rank file;
                ui2 = ui1 \<lparr>u_chess_sel_rank := -1, u_chess_sel_file := -1\<rparr>
            in case (tt_chess_parse_square from, tt_chess_parse_square to) of
                 (Some (fr, ff), Some (tr, tf)) \<Rightarrow>
                   (case tt_chess_move (u_chess_board ui) fr ff tr tf of
                      (False, _) \<Rightarrow> ui2
                    | (True, g) \<Rightarrow>
                        tt_post TT_CMD_CHESS_MOVE (u_chess_fn ui) (Some (from @ to)) 0
                          (ui2 \<lparr>u_chess_board := g, u_chess_my_turn := (ch_to_move g = u_chess_self ui)\<rparr>))
               | _ \<Rightarrow> ui2)"

definition cc_chess_resign :: "Ui \<Rightarrow> Ui" where
  "cc_chess_resign ui = (if u_chess_fn ui = UINT32_MAX then ui else tt_post TT_CMD_CHESS_RESIGN (u_chess_fn ui) None 0 ui)"

definition cc_chess_close :: "Ui \<Rightarrow> Ui" where
  "cc_chess_close ui = ui \<lparr>u_chess_fn := UINT32_MAX, u_chess_sel_rank := -1, u_chess_sel_file := -1, u_chess_dragging := False\<rparr>"

section \<open>Tunnels\<close>

definition cc_tun_panel :: "Ui \<Rightarrow> Ui" where
  "cc_tun_panel ui = ui \<lparr>u_tun_panel_open := True\<rparr>"

definition cc_tun_panel_close :: "Ui \<Rightarrow> Ui" where
  "cc_tun_panel_close ui = ui \<lparr>u_tun_panel_open := False\<rparr>"

definition cc_tun_share_open :: "Ui \<Rightarrow> Ui" where
  "cc_tun_share_open = with_selected (\<lambda>_ ui. ui \<lparr>u_tun_share_open := True\<rparr>)"

text \<open>The three entries are read one after the other; their texts are taken as they were read.\<close>

definition cc_tun_share_ok :: "bytes \<Rightarrow> bytes \<Rightarrow> bytes \<Rightarrow> Ui \<Rightarrow> Ui" where
  "cc_tun_share_ok host port tcp ui =
     (if u_sel_kind ui \<noteq> TT_SEL_CHAT \<or> host = [] \<or> port = [] then ui
      else (tt_post TT_CMD_TUNNEL_SHARE (u_sel_fn ui) (Some (take 299 (host @ [10] @ port @ [10] @ tcp))) 0 ui) \<lparr>u_tun_share_open := False\<rparr>)"

definition cc_tun_share_cancel :: "Ui \<Rightarrow> Ui" where
  "cc_tun_share_cancel ui = ui \<lparr>u_tun_share_open := False\<rparr>"

text \<open>A free local start for an offered range: the offered port or one of the 19 after it; \<open>bindable\<close> is what \<^verbatim>\<open>bind\<close> answers.\<close>

definition pick_start :: "(u16 \<Rightarrow> bool) \<Rightarrow> u16 \<Rightarrow> u16" where
  "pick_start bindable start =
     (if bindable start then start
      else case find (\<lambda>k. unat start + k < 65535 \<and> bindable (start + of_nat k)) [1..<20] of
        Some k \<Rightarrow> start + of_nat k | None \<Rightarrow> start)"

definition cc_tun_accept :: "bool \<Rightarrow> (u16 \<Rightarrow> bool) \<Rightarrow> bytes \<Rightarrow> Ui \<Rightarrow> Ui" where
  "cc_tun_accept sock bindable ov ui =
     (if u_tun_invite_fn ui = UINT32_MAX then ui
      else
        let local = (if ov \<noteq> [] then snd (tt_port_list_parse (Some ov))
                     else map (\<lambda>r. r \<lparr>pr_start := (if sock then pick_start bindable (pr_start r) else pr_start r)\<rparr>) (u_tun_invite_udp ui));
            payload = take 255 (snd (tt_port_list_to_str local 128) @ [10] @ snd (tt_port_list_to_str (u_tun_invite_tcp ui) 128))
        in (tt_post TT_CMD_TUNNEL_ACCEPT (u_tun_invite_fn ui) (Some payload) 0 ui) \<lparr>u_tun_invite_open := False, u_tun_invite_fn := UINT32_MAX\<rparr>)"

definition cc_tun_decline :: "Ui \<Rightarrow> Ui" where
  "cc_tun_decline ui =
     (if u_tun_invite_fn ui = UINT32_MAX then ui
      else (tt_post TT_CMD_TUNNEL_DECLINE (u_tun_invite_fn ui) None 0 ui) \<lparr>u_tun_invite_open := False, u_tun_invite_fn := UINT32_MAX\<rparr>)"

definition cc_tun_stop :: "bytes \<Rightarrow> Ui \<Rightarrow> Ui" where
  "cc_tun_stop a = tt_post TT_CMD_TUNNEL_STOP 0 None (atoi a)"

section \<open>Groups\<close>

definition cc_gnew_open :: "Ui \<Rightarrow> Ui" where
  "cc_gnew_open ui = ui \<lparr>u_gnew_open := True\<rparr>"

definition cc_gnew_ok :: "bytes \<Rightarrow> bool \<Rightarrow> Ui \<Rightarrow> Ui" where
  "cc_gnew_ok name pub ui =
     (if \<not> u_gnew_open ui \<or> name = [] then ui
      else (tt_post TT_CMD_GROUP_CREATE 0 (Some (take (TT_NAME_MAX + 15) (name @ [10] @ ascii (if pub then ''public'' else ''private'')))) 0 ui) \<lparr>u_gnew_open := False\<rparr>)"

definition cc_gnew_cancel :: "Ui \<Rightarrow> Ui" where
  "cc_gnew_cancel ui = ui \<lparr>u_gnew_open := False\<rparr>"

definition cc_gjoin_open :: "Ui \<Rightarrow> Ui" where
  "cc_gjoin_open ui = ui \<lparr>u_gjoin_open := True\<rparr>"

text \<open>A chat id has 64 digits; what is typed after them is cut off.\<close>

definition cc_gjoin_ok :: "bytes \<Rightarrow> bytes \<Rightarrow> Ui \<Rightarrow> Ui" where
  "cc_gjoin_ok e1 pw ui =
     (let cid = take 64 e1 in
      if \<not> u_gjoin_open ui \<or> length cid \<noteq> 64 then ui
      else (tt_post TT_CMD_GROUP_JOIN 0 (Some (if pw = [] then cid else take (64 + 2 + 32) (cid @ [10] @ pw))) 0 ui) \<lparr>u_gjoin_open := False\<rparr>)"

definition cc_gjoin_cancel :: "Ui \<Rightarrow> Ui" where
  "cc_gjoin_cancel ui = ui \<lparr>u_gjoin_open := False\<rparr>"

definition cc_ginv_yes :: "int \<Rightarrow> Ui \<Rightarrow> Ui" where
  "cc_ginv_yes idx ui = (tt_post2 TT_CMD_GROUP_INVITE_ACC 0 None 0 idx ui) \<lparr>u_gi := None\<rparr>"

definition cc_ginv_no :: "int \<Rightarrow> Ui \<Rightarrow> Ui" where
  "cc_ginv_no idx ui = (tt_post2 TT_CMD_GROUP_INVITE_DEC 0 None 0 idx ui) \<lparr>u_gi := None\<rparr>"

definition cc_ginvite_open :: "Ui \<Rightarrow> Ui" where
  "cc_ginvite_open = with_gselected (\<lambda>_ ui. ui \<lparr>u_ginvite_open := True\<rparr>)"

text \<open>The picked item is "name (#number)": the number after the last hash sign.\<close>

definition picked_number :: "bytes \<Rightarrow> nat option" where
  "picked_number pick = (if 35 \<in> set pick then Some (to_u32 (int (strtoull (rev (takeWhile (\<lambda>c. c \<noteq> 35) (rev pick)))))) else None)"

definition cc_ginvite_ok :: "bytes \<Rightarrow> Ui \<Rightarrow> Ui" where
  "cc_ginvite_ok pick =
     with_gselected (\<lambda>g ui.
       if \<not> u_ginvite_open ui then ui
       else case picked_number pick of
         None \<Rightarrow> ui
       | Some fn \<Rightarrow> (tt_post TT_CMD_GROUP_INVITE (gr_gn g) None (int fn) ui) \<lparr>u_ginvite_open := False\<rparr>)"

definition cc_ginvite_cancel :: "Ui \<Rightarrow> Ui" where
  "cc_ginvite_cancel ui = ui \<lparr>u_ginvite_open := False\<rparr>"

definition cc_gtopic_open :: "Ui \<Rightarrow> Ui" where
  "cc_gtopic_open = with_gselected (\<lambda>_ ui. ui \<lparr>u_gtopic_open := True\<rparr>)"

definition cc_gtopic_ok :: "bytes \<Rightarrow> Ui \<Rightarrow> Ui" where
  "cc_gtopic_ok topic =
     with_gselected (\<lambda>g ui.
       if \<not> u_gtopic_open ui then ui else (tt_post TT_CMD_GROUP_TOPIC (gr_gn g) (Some topic) 0 ui) \<lparr>u_gtopic_open := False\<rparr>)"

definition cc_gtopic_cancel :: "Ui \<Rightarrow> Ui" where
  "cc_gtopic_cancel ui = ui \<lparr>u_gtopic_open := False\<rparr>"

definition cc_gctl_open :: "Ui \<Rightarrow> Ui" where
  "cc_gctl_open = with_gselected (\<lambda>g ui. if gr_self_role g \<noteq> TOX_GROUP_ROLE_FOUNDER then ui else ui \<lparr>u_gctl_open := True\<rparr>)"

definition cc_gctl_close :: "Ui \<Rightarrow> Ui" where
  "cc_gctl_close ui = ui \<lparr>u_gctl_open := False\<rparr>"

definition with_gctl :: "(Group \<Rightarrow> Ui \<Rightarrow> Ui) \<Rightarrow> Ui \<Rightarrow> Ui" where
  "with_gctl f = with_gselected (\<lambda>g ui. if u_gctl_open ui then f g ui else ui)"

definition cc_gctl_pw :: "bytes \<Rightarrow> Ui \<Rightarrow> Ui" where
  "cc_gctl_pw pw = with_gctl (\<lambda>g. tt_post TT_CMD_GROUP_PASSWORD (gr_gn g) (Some pw) 0)"

definition cc_gctl_priv :: "bytes \<Rightarrow> Ui \<Rightarrow> Ui" where
  "cc_gctl_priv v = with_gctl (\<lambda>g. tt_post2 TT_CMD_GROUP_PRIVACY (gr_gn g) None 0 (if v = ascii ''private'' then 1 else 0))"

definition cc_gctl_voice :: "bytes \<Rightarrow> Ui \<Rightarrow> Ui" where
  "cc_gctl_voice v = with_gctl (\<lambda>g. tt_post2 TT_CMD_GROUP_VOICE (gr_gn g) None 0
     (if v = ascii ''moderators'' then 1 else if v = ascii ''founder'' then 2 else 0))"

definition cc_gctl_tlock :: "bytes \<Rightarrow> Ui \<Rightarrow> Ui" where
  "cc_gctl_tlock v = with_gctl (\<lambda>g. tt_post2 TT_CMD_GROUP_TOPIC_LOCK (gr_gn g) None 0 (if v = ascii ''locked'' then 1 else 0))"

definition cc_gctl_pl :: "bytes \<Rightarrow> Ui \<Rightarrow> Ui" where
  "cc_gctl_pl v = with_gctl (\<lambda>g ui.
     case strtol_rest v of (n, rest) \<Rightarrow>
       if n \<le> 0 \<or> rest \<noteq> [] then ui else tt_post2 TT_CMD_GROUP_PEER_LIMIT (gr_gn g) None 0 (min n 65535) ui)"

definition cc_grole :: "nat \<Rightarrow> bytes \<Rightarrow> Ui \<Rightarrow> Ui" where
  "cc_grole pid val = with_gselected (\<lambda>g ui.
     let role = (if val = ascii ''observer'' then TOX_GROUP_ROLE_OBSERVER else if val = ascii ''user'' then TOX_GROUP_ROLE_USER
                 else if val = ascii ''moderator'' then TOX_GROUP_ROLE_MODERATOR else -1)
     in if role < 0 then ui else tt_post2 TT_CMD_GROUP_ROLE (gr_gn g) None (int pid) role ui)"

definition cc_gkick :: "nat \<Rightarrow> Ui \<Rightarrow> Ui" where
  "cc_gkick pid = with_gselected (\<lambda>g. tt_post TT_CMD_GROUP_KICK (gr_gn g) None (int pid))"

definition cc_gignore :: "nat \<Rightarrow> Ui \<Rightarrow> Ui" where
  "cc_gignore pid = with_gselected (\<lambda>g ui.
     case group_member g pid of
       None \<Rightarrow> ui
     | Some m \<Rightarrow> if pid = gr_self_pid g then ui else tt_post2 TT_CMD_GROUP_IGNORE (gr_gn g) None (int pid) (if gm_ignored m then 0 else 1) ui)"

definition cc_gleave :: "Ui \<Rightarrow> Ui" where
  "cc_gleave = with_gselected (\<lambda>g. tt_post TT_CMD_GROUP_LEAVE (gr_gn g) None 0)"

section \<open>Leaving\<close>

text \<open>The history is written before the rows are freed.\<close>

function free_contacts :: "Ui \<Rightarrow> Ui" where
  "free_contacts ui = (if u_contacts ui = [] then ui else free_contacts (contact_remove (\<lambda>_. True) ui))"
  by pat_completeness auto
termination
proof (relation "measure (\<lambda>ui. length (u_contacts ui))", simp)
  fix ui :: Ui assume "u_contacts ui \<noteq> []"
  then show "(contact_remove (\<lambda>_. True) ui, ui) \<in> measure (\<lambda>ui. length (u_contacts ui))"
    by (cases "u_contacts ui") (auto simp: contact_remove_def Let_def tt_post_def tt_post2_def)
qed

definition ui_exit :: "uenv \<Rightarrow> Ui \<Rightarrow> disk \<Rightarrow> Ui \<times> disk" where
  "ui_exit X ui d = (free_contacts ui, history_save X ui d)"

end
