(* ===== verification/UiInv.thy ===== *)
theory UiInv
  imports UiCommands
begin

text \<open>
  The invariant of the Tk front end.  \<open>ui_ok\<close> says that every text fits its buffer, that the roster has one row per friend
  and at most one request, that tunnels are listed once, that the video frame fits its buffer, that the
  selected square is on the board and that the typing commands posted so far are properly paired.  \<open>ui_step\<close> is
  one event, callback or timer; the invariant holds in every reachable state.
\<close>

section \<open>Well-formed rows\<close>

definition contact_ok :: "Contact \<Rightarrow> bool" where
  "contact_ok c \<longleftrightarrow>
     length (ct_name c) < TT_NAME_MAX \<and> length (ct_status_msg c) \<le> TOX_MAX_STATUS_MESSAGE_LENGTH \<and> length (ct_key_hex c) \<le> 64 \<and>
     length (ct_pubkey_hex c) \<le> 64 \<and> length (ct_last c) < TT_LAST_MAX \<and> length (ct_transcript c) < TT_TRANSCRIPT_MAX \<and>
     length (ct_offer_name c) \<le> TOX_MAX_FILENAME_LENGTH \<and> length (ct_xfer_name c) \<le> TOX_MAX_FILENAME_LENGTH \<and>
     length (ct_e2ee_code c) \<le> 32 \<and> ct_fn c < UINT32_MAX"

definition row_key :: "Contact \<Rightarrow> nat option" where
  "row_key c = (if ct_is_request c then None else Some (ct_fn c))"

definition contacts_ok :: "Contact list \<Rightarrow> bool" where
  "contacts_ok cs \<longleftrightarrow> list_all contact_ok cs \<and> distinct (map row_key cs)"

definition member_ok :: "GroupMember \<Rightarrow> bool" where
  "member_ok m \<longleftrightarrow> length (gm_name m) < TT_NAME_MAX"

definition group_ok :: "Group \<Rightarrow> bool" where
  "group_ok g \<longleftrightarrow>
     length (gr_name g) < TT_NAME_MAX \<and> length (gr_topic g) \<le> TOX_GROUP_MAX_TOPIC_LENGTH \<and> length (gr_chat_id_hex g) \<le> 64 \<and>
     length (gr_last g) < TT_LAST_MAX \<and> length (gr_transcript g) < TT_TRANSCRIPT_MAX \<and>
     list_all member_ok (gr_members g) \<and> distinct (map gm_pid (gr_members g)) \<and> gr_gn g < UINT32_MAX"

definition tunnels_ok :: "TTTunnelUI list \<Rightarrow> bool" where
  "tunnels_ok ts \<longleftrightarrow> distinct (map tn_id ts) \<and> list_all (\<lambda>tn. length (tn_endpoint tn) < 300) ts"

section \<open>Typing commands\<close>

text \<open>Whom the commands leave as being typed to: a start needs a pause, a stop the same friend.\<close>

fun typing_run :: "nat option \<Rightarrow> TTCommand list \<Rightarrow> nat option option" where
  "typing_run st [] = Some st"
| "typing_run st (c # cs) =
     (if cmd_type c \<noteq> TT_CMD_SET_TYPING then typing_run st cs
      else if cmd_ival c = 1 \<and> st = None then typing_run (Some (cmd_fn c)) cs
      else if cmd_ival c = 0 \<and> st = Some (cmd_fn c) then typing_run None cs
      else None)"

lemma typing_run_append: "typing_run st (xs @ ys) = Option.bind (typing_run st xs) (\<lambda>st'. typing_run st' ys)"
  by (induction xs arbitrary: st) auto

definition typing_ok :: "Ui \<Rightarrow> bool" where
  "typing_ok ui \<longleftrightarrow>
     typing_run None (u_posted ui) = Some (if u_typing_sent ui then Some (u_typing_fn ui) else None) \<and>
     (u_typing_sent ui \<longrightarrow> u_typing_idle_sched ui \<and> u_typing_fn ui \<noteq> UINT32_MAX)"

definition ui_ok :: "Ui \<Rightarrow> bool" where
  "ui_ok ui \<longleftrightarrow>
     contacts_ok (u_contacts ui) \<and> list_all group_ok (u_groups ui) \<and> tunnels_ok (u_tunnels ui) \<and> u_sel_fn ui < UINT32_MAX \<and>
     length (u_self_name ui) < 128 \<and> length (u_self_status_msg ui) \<le> TOX_MAX_STATUS_MESSAGE_LENGTH \<and> length (u_my_toxid ui) < 100 \<and>
     length (u_filter ui) < 80 \<and> length (u_tun_invite_host ui) < 256 \<and>
     length (u_video_frame ui) = u_video_cap ui \<and> u_video_cap ui \<le> 460800 \<and>
     -1 \<le> u_chess_sel_rank ui \<and> u_chess_sel_rank ui < 8 \<and> -1 \<le> u_chess_sel_file ui \<and> u_chess_sel_file ui < 8 \<and> typing_ok ui"

section \<open>Lists of rows\<close>

lemma map_upd_first [simp]: "(\<And>x. k (f x) = k x) \<Longrightarrow> map k (upd_first P f xs) = map k xs"
  by (induction xs) auto

lemma list_all_upd_first: "list_all Q xs \<Longrightarrow> (\<And>x. Q x \<Longrightarrow> Q (f x)) \<Longrightarrow> list_all Q (upd_first P f xs)"
  by (induction xs) auto

lemma set_remove_first: "set (remove_first P xs) \<subseteq> set xs"
  by (induction xs) auto

lemma list_all_remove_first: "list_all Q xs \<Longrightarrow> list_all Q (remove_first P xs)"
  by (induction xs) auto

lemma distinct_remove_first: "distinct (map k xs) \<Longrightarrow> distinct (map k (remove_first P xs))"
proof (induction xs)
  case (Cons x xs)
  then show ?case using set_remove_first [of P xs] by auto
qed simp

lemma find_set: "find P xs = Some x \<Longrightarrow> x \<in> set xs \<and> P x"
  by (induction xs) (auto split: if_splits)

lemma contacts_ok_upd:
  assumes "contacts_ok cs" "\<And>c. contact_ok c \<Longrightarrow> contact_ok (f c)" "\<And>c. row_key (f c) = row_key c"
  shows "contacts_ok (upd_first P f cs)"
  using assms by (simp add: contacts_ok_def list_all_upd_first)

lemma contacts_ok_remove: "contacts_ok cs \<Longrightarrow> contacts_ok (remove_first P cs)"
  by (simp add: contacts_ok_def list_all_remove_first distinct_remove_first)

lemma contact_zero_ok [simp]: "fn < UINT32_MAX \<Longrightarrow> contact_ok (contact_zero \<lparr>ct_fn := fn, ct_is_request := r\<rparr>)"
  by (simp add: contact_ok_def contact_zero_def)

lemma contacts_ok_add:
  assumes "contacts_ok cs" "find (is_friend fn) cs = None" "fn < UINT32_MAX"
  shows "contacts_ok (cs @ [contact_zero \<lparr>ct_fn := fn, ct_is_request := False\<rparr>])"
  using assms by (auto simp: contacts_ok_def find_None_iff row_key_def is_friend_def split: if_splits)

lemma contacts_ok_request:
  assumes "contacts_ok cs" "find ct_is_request cs = None"
  shows "contacts_ok (cs @ [contact_zero \<lparr>ct_fn := 0, ct_is_request := True\<rparr>])"
  using assms by (auto simp: contacts_ok_def find_None_iff row_key_def split: if_splits)

section \<open>Steps of the operations\<close>

named_theorems ui_intro
named_theorems row_simp

lemma length_drop_lines: "length (drop_lines need tr) \<le> length tr"
proof (induction need tr rule: drop_lines.induct)
  case (1 need tr)
  show ?case
  proof (cases "tr = [] \<or> length tr + need < TT_TRANSCRIPT_MAX")
    case True
    then show ?thesis by (subst drop_lines.simps) simp
  next
    case False
    have e: "drop_lines need tr = (case dropWhile (\<lambda>c. c \<noteq> 10) tr of [] \<Rightarrow> [] | nl # rest \<Rightarrow> drop_lines need rest)"
      using False by (subst drop_lines.simps) (simp only: if_False)
    show ?thesis
    proof (cases "dropWhile (\<lambda>c. c \<noteq> 10) tr")
      case (Cons nl rest)
      then have "length (drop_lines need rest) \<le> length rest" using 1 False by blast
      then show ?thesis using e Cons length_dropWhile_le [of "\<lambda>c. c \<noteq> 10" tr] by simp
    next
      case Nil
      then show ?thesis unfolding e Nil by simp
    qed
  qed
qed

lemma length_transcript_append:
  assumes "length tr < TT_TRANSCRIPT_MAX"
  shows "length (fst (transcript_append stamp tr who me text)) < TT_TRANSCRIPT_MAX \<and> length (snd (transcript_append stamp tr who me text)) < TT_LAST_MAX"
proof -
  let ?tr = "drop_lines (length stamp + length who + length text + 8) tr"
  have "length ?tr < TT_TRANSCRIPT_MAX" using assms length_drop_lines [of _ tr] by (meson le_less_trans)
  then show ?thesis by (auto simp: transcript_append_def Let_def)
qed

lemma chat_append_ok [row_simp]: "contact_ok c \<Longrightarrow> contact_ok (chat_append X who me text c)"
  using length_transcript_append [of "ct_transcript c" "x_stamp X" who me "text"]
  by (auto simp: contact_ok_def chat_append_def split: prod.splits)

lemma chat_append_key [row_simp]: "row_key (chat_append X who me text c) = row_key c"
  by (simp add: row_key_def chat_append_def split: prod.splits)

lemma chat_append_sys_ok [row_simp]: "contact_ok c \<Longrightarrow> contact_ok (chat_append_sys X me text c)" "row_key (chat_append_sys X me text c) = row_key c"
  by (simp_all add: chat_append_sys_def row_simp)

lemma group_append_ok [row_simp]: "group_ok g \<Longrightarrow> group_ok (group_append X who me text g)"
  using length_transcript_append [of "gr_transcript g" "x_stamp X" who me "text"]
  by (auto simp: group_ok_def group_append_def split: prod.splits)

lemma group_append_sys_ok [row_simp]: "group_ok g \<Longrightarrow> group_ok (group_append_sys X me text g)"
  by (simp add: group_append_sys_def row_simp)

lemma post_ok [ui_intro]: "ui_ok ui \<Longrightarrow> ty \<noteq> TT_CMD_SET_TYPING \<Longrightarrow> ui_ok (tt_post2 ty fn str i j ui)"
  by (simp add: ui_ok_def tt_post2_def typing_ok_def typing_run_append)

lemma post1_ok [ui_intro]: "ui_ok ui \<Longrightarrow> ty \<noteq> TT_CMD_SET_TYPING \<Longrightarrow> ui_ok (tt_post ty fn str i ui)"
  by (simp add: tt_post_def post_ok)

lemma upd_contact_ok [ui_intro]:
  assumes "ui_ok ui" "\<And>c. contact_ok c \<Longrightarrow> contact_ok (f c)" "\<And>c. row_key (f c) = row_key c"
  shows "ui_ok (upd_contact fn f ui)"
  using assms by (simp add: ui_ok_def upd_contact_def typing_ok_def contacts_ok_upd)

lemma upd_group_ok [ui_intro]:
  assumes "ui_ok ui" "\<And>g. group_ok g \<Longrightarrow> group_ok (f g)"
  shows "ui_ok (upd_group gn f ui)"
  using assms by (simp add: ui_ok_def upd_group_def typing_ok_def list_all_upd_first)

lemma hist_ok [ui_intro]: "ui_ok ui \<Longrightarrow> ui_ok (ui \<lparr>u_hist := h\<rparr>)"
  by (simp add: ui_ok_def typing_ok_def)

lemma sel_kind_ok [ui_intro]: "ui_ok ui \<Longrightarrow> ui_ok (ui \<lparr>u_sel_kind := k\<rparr>)"
  by (simp add: ui_ok_def typing_ok_def)

lemma sel_fn_ok [ui_intro]: "ui_ok ui \<Longrightarrow> fn < UINT32_MAX \<Longrightarrow> ui_ok (ui \<lparr>u_sel_fn := fn\<rparr>)"
  by (simp add: ui_ok_def typing_ok_def)

lemma roster_render_ok [ui_intro]: "ui_ok ui \<Longrightarrow> ui_ok (roster_render ui)"
  by (simp add: roster_render_def show_none_def ui_intro)

lemma show_selected_ok [ui_intro]: "ui_ok ui \<Longrightarrow> ui_ok (show_selected ui)"
  by (auto simp: show_selected_def show_none_def contact_ok_def row_key_def group_ok_def split: SelKind.splits option.splits intro!: ui_intro)

lemma show_live_ok [ui_intro]: "ui_ok ui \<Longrightarrow> ui_ok (show_live X b who me text ui)"
  by (simp add: show_live_def ui_intro)

lemma refresh_open_ok [ui_intro]: "ui_ok ui \<Longrightarrow> ui_ok (refresh_open fn ui)"
  by (simp add: refresh_open_def ui_intro)

lemma lines_ok [ui_intro]:
  "ui_ok ui \<Longrightarrow> ui_ok (friend_sys_line X fn me line ui)" "ui_ok ui \<Longrightarrow> ui_ok (group_sys_line X fn line ui)" "ui_ok ui \<Longrightarrow> ui_ok (xfer_line X fn mine line ui)"
  by (auto simp: friend_sys_line_def group_sys_line_def xfer_line_def Let_def row_simp intro!: ui_intro)

lemma contact_remove_ok [ui_intro]: "ui_ok ui \<Longrightarrow> ui_ok (contact_remove P ui)"
proof -
  assume "ui_ok ui"
  then have "ui_ok (ui \<lparr>u_contacts := remove_first P (u_contacts ui)\<rparr>)" by (simp add: ui_ok_def typing_ok_def contacts_ok_remove)
  then show ?thesis using \<open>ui_ok ui\<close> by (auto simp: contact_remove_def Let_def split: option.splits intro!: ui_intro)
qed

lemma group_remove_ok [ui_intro]: "ui_ok ui \<Longrightarrow> ui_ok (group_remove gn ui)"
  by (simp add: ui_ok_def typing_ok_def group_remove_def list_all_remove_first)

lemma friend_row_ok [ui_intro]:
  assumes "ui_ok ui" "fn < UINT32_MAX" "\<And>ui. ui_ok ui \<Longrightarrow> ui_ok (f ui)"
  shows "ui_ok (friend_row X fn f ui)"
proof -
  have "ui_ok (contact_add fn False ui)" if "contact_by_fn ui fn = None"
    using assms(1,2) that by (simp add: ui_ok_def typing_ok_def contact_add_def contact_by_fn_def contacts_ok_add)
  then show ?thesis using assms by (auto simp: friend_row_def contact_get_def split: option.splits)
qed

lemma known_row_ok [ui_intro]:
  assumes "ui_ok ui" "\<And>c ui. ui_ok ui \<Longrightarrow> ui_ok (f c ui)"
  shows "ui_ok (known_row fn f ui)"
  using assms by (simp add: known_row_def split: option.splits)

lemma known_group_ok [ui_intro]:
  assumes "ui_ok ui" "\<And>g ui. ui_ok ui \<Longrightarrow> ui_ok (f g ui)"
  shows "ui_ok (known_group fn f ui)"
  using assms by (simp add: known_group_def split: option.splits)

lemma upd_tunnel_ok [ui_intro]:
  assumes "ui_ok ui" "\<And>tn. tn_id (f tn) = tn_id tn" "\<And>tn. length (tn_endpoint tn) < 300 \<Longrightarrow> length (tn_endpoint (f tn)) < 300"
  shows "ui_ok (upd_tunnel i f ui)"
  using assms by (simp add: ui_ok_def typing_ok_def upd_tunnel_def tunnels_ok_def list_all_upd_first)

lemma tun_remove_ok [ui_intro]: "ui_ok ui \<Longrightarrow> ui_ok (tun_ui_remove i ui)"
  by (simp add: ui_ok_def typing_ok_def tun_ui_remove_def tunnels_ok_def list_all_remove_first distinct_remove_first)

lemma c_str_le: "length (c_str b) \<le> length b"
  by (simp add: c_str_def length_takeWhile_le)

lemma copy_str_le [simp]: "length (copy_str n b) \<le> n"
  using c_str_le [of "take n b"] by (simp add: copy_str_def)

lemma copy_str_less [simp]: "n < k \<Longrightarrow> length (copy_str n b) < k"
  by (rule le_less_trans [OF copy_str_le])

section \<open>Events\<close>

lemmas row_defs = contact_ok_def row_key_def

lemma self_events_ok [ui_intro]:
  assumes "ui_ok ui"
  shows "ui_ok (on_toxid e ui)" "ui_ok (on_self_name e ui)" "ui_ok (on_self_status_msg e ui)"
  using assms c_str_le copy_str_less [of 127 128]
  by (auto simp: ui_ok_def typing_ok_def on_toxid_def on_self_name_def on_self_status_msg_def split: option.splits list.splits)

lemma friend_events_ok [ui_intro]:
  assumes "ui_ok ui" "ev_fn e < UINT32_MAX"
  shows "ui_ok (on_friend_name X e ui)" "ui_ok (on_friend_connection X e ui)" "ui_ok (on_friend_status X e ui)"
    "ui_ok (on_friend_status_msg X e ui)" "ui_ok (on_friend_pubkey X e ui)" "ui_ok (on_friend_last_online X e ui)"
  unfolding on_friend_name_def on_friend_connection_def on_friend_status_def on_friend_status_msg_def on_friend_pubkey_def on_friend_last_online_def
  using assms by (auto simp: row_defs split: option.splits list.splits intro!: ui_intro)

lemma show_or_count_ok [ui_intro]: "ui_ok ui \<Longrightarrow> ui_ok (show_or_count X fn who me text ui)"
  by (auto simp: show_or_count_def Let_def row_simp intro!: ui_intro) (auto simp: row_defs)

lemma message_events_ok [ui_intro]:
  assumes "ui_ok ui" "ev_fn e < UINT32_MAX"
  shows "ui_ok (on_friend_message X e ui)" "ui_ok (on_friend_typing e ui)" "ui_ok (on_message_sent e ui)"
    "ui_ok (on_read_receipt e ui)" "ui_ok (on_offline_flushed X e ui)"
  unfolding on_friend_message_def on_friend_typing_def on_message_sent_def on_read_receipt_def on_offline_flushed_def
  using assms by (auto simp: row_defs Let_def split: option.splits intro!: ui_intro)

lemma e2ee_events_ok [ui_intro]:
  assumes "ui_ok ui" "ev_fn e < UINT32_MAX"
  shows "ui_ok (on_e2ee_state X e ui)" "ui_ok (on_e2ee_enforce X e ui)"
  unfolding on_e2ee_state_def on_e2ee_enforce_def Let_def
  using assms c_str_le by (auto simp: row_defs split: option.splits if_splits intro!: ui_intro) (metis c_str_le)+

lemma e2ee_warn_ok [ui_intro]: "ui_ok ui \<Longrightarrow> ev_fn e < UINT32_MAX \<Longrightarrow> ui_ok (on_e2ee_warn X e ui)"
  unfolding on_e2ee_warn_def by (auto simp: row_simp split: option.splits intro!: ui_intro)

lemma friend_request_ok [ui_intro]: "ui_ok ui \<Longrightarrow> ui_ok (on_friend_request X e ui)"
proof -
  assume ok: "ui_ok ui"
  have upd: "ui_ok (ui' \<lparr>u_contacts := upd_first P f (u_contacts ui')\<rparr>)"
    if "ui_ok ui'" "\<And>c. contact_ok c \<Longrightarrow> contact_ok (f c)" "\<And>c. row_key (f c) = row_key c" for ui' P f
    using that by (simp add: ui_ok_def typing_ok_def contacts_ok_upd)
  have add: "ui_ok (contact_add 0 True ui)" if "request_row ui = None"
    using ok that by (simp add: ui_ok_def typing_ok_def contact_add_def request_row_def contacts_ok_request)
  show ?thesis
    using ok upd [OF ok] upd [OF add]
    by (auto simp: on_friend_request_def row_defs split: option.splits intro!: ui_intro)
qed

lemma history_load_ok [row_simp]: "contact_ok c \<Longrightarrow> contact_ok (history_load_contact X c)" "row_key (history_load_contact X c) = row_key c"
  by (auto simp: history_load_contact_def hist_lookup_row_def row_defs split: option.splits)

lemma history_load_group_ok [row_simp]: "group_ok g \<Longrightarrow> group_ok (history_load_group X g)"
  by (auto simp: history_load_group_def hist_lookup_row_def group_ok_def split: option.splits)

lemma friend_list_end_ok [ui_intro]: "ui_ok ui \<Longrightarrow> ui_ok (on_friend_list_end X ui)"
proof -
  assume ok: "ui_ok ui"
  let ?f = "\<lambda>c. if ct_is_request c then c else history_load_contact X c"
  have m: "map row_key (map ?f (u_contacts ui)) = map row_key (u_contacts ui)" by (simp add: row_simp)
  have "contacts_ok (map ?f (u_contacts ui))"
    unfolding contacts_ok_def m using ok by (auto simp: ui_ok_def contacts_ok_def list_all_iff row_simp)
  then have "ui_ok (ui \<lparr>u_ready := True, u_contacts := map ?f (u_contacts ui)\<rparr>)" using ok by (simp add: ui_ok_def typing_ok_def)
  moreover have "ui_ok (ui \<lparr>u_ready := True\<rparr>)" using ok by (simp add: ui_ok_def typing_ok_def)
  ultimately show ?thesis by (simp add: on_friend_list_end_def Let_def ui_intro)
qed

lemma call_timer_kick_ok [ui_intro]: "ui_ok ui \<Longrightarrow> ui_ok (call_timer_kick ui)"
  by (simp add: call_timer_kick_def ui_ok_def typing_ok_def)

lemma av_state_row_ok [row_simp]: "contact_ok c \<Longrightarrow> contact_ok (av_state_row X i j c)" "row_key (av_state_row X i j c) = row_key c"
  by (simp_all add: av_state_row_def Let_def row_defs)

lemma video_self_ok [ui_intro]: "ui_ok ui \<Longrightarrow> ui_ok (ui \<lparr>u_video_self := b\<rparr>)"
  by (simp add: ui_ok_def typing_ok_def)

lemma call_events_ok [ui_intro]:
  assumes "ui_ok ui" "ev_fn e < UINT32_MAX"
  shows "ui_ok (on_av_incoming X e ui)" "ui_ok (on_av_state X e ui)" "ui_ok (on_av_ended X e ui)"
proof -
  show "ui_ok (on_av_incoming X e ui)" unfolding on_av_incoming_def Let_def using assms by (auto simp: row_defs intro!: ui_intro)
  show "ui_ok (on_av_state X e ui)" unfolding on_av_state_def Let_def using assms(1) by (auto simp: row_simp intro!: ui_intro)
  show "ui_ok (on_av_ended X e ui)" unfolding on_av_ended_def Let_def using assms(1) by (auto simp: call_cleared_def row_defs intro!: ui_intro)
qed

lemma video_frame_take_ok [ui_intro]: "ui_ok ui \<Longrightarrow> ui_ok (video_frame_take X e ui)"
  by (auto simp: video_frame_take_def Let_def ui_ok_def typing_ok_def)

lemma avatar_seq_ok [ui_intro]: "ui_ok ui \<Longrightarrow> ui_ok (ui \<lparr>u_avatar_seq := s\<rparr>)"
  by (simp add: ui_ok_def typing_ok_def)

lemma avatar_events_ok [ui_intro]:
  assumes "ui_ok ui"
  shows "ui_ok (on_avatar_self X e ui)" "ui_ok (on_avatar X e ui)" "ui_ok (on_avatar_cleared e ui)"
proof -
  show "ui_ok (on_avatar_self X e ui)" using assms by (auto simp: on_avatar_self_def ui_ok_def typing_ok_def split: option.splits list.splits prod.splits)
  show "ui_ok (on_avatar X e ui)" unfolding on_avatar_def using assms by (auto simp: row_defs split: option.splits list.splits prod.splits intro!: ui_intro)
  show "ui_ok (on_avatar_cleared e ui)" unfolding on_avatar_cleared_def using assms by (auto simp: row_defs intro!: ui_intro)
qed

lemma xfer_over_ok [ui_intro]: "ui_ok ui \<Longrightarrow> ui_ok (xfer_over fn ui)"
  unfolding xfer_over_def by (auto simp: row_defs intro!: ui_intro)

lemma offer_show_ok [ui_intro]: "ui_ok ui \<Longrightarrow> ui_ok (offer_show X fn c ui)"
proof -
  assume "ui_ok ui"
  then have "ui_ok (ui \<lparr>u_offer_label := l\<rparr>)" "ui_ok (ui \<lparr>u_offer_label := l, u_offer_open := b\<rparr>)" for l b by (simp_all add: ui_ok_def typing_ok_def)
  then show ?thesis by (auto simp: offer_show_def Let_def intro!: ui_intro)
qed

lemma file_events_ok [ui_intro]:
  assumes "ui_ok ui"
  shows "ui_ok (on_file_tx_started X e ui)" "ui_ok (on_file_progress X e ui)" "ui_ok (on_file_done X e ui)" "ui_ok (on_file_failed X e ui)"
    "ui_ok (on_file_offer X e ui)" "ui_ok (on_file_resumed X e ui)"
  unfolding on_file_tx_started_def on_file_progress_def on_file_done_def on_file_failed_def on_file_offer_def on_file_resumed_def Let_def
  using assms by (auto simp: row_defs offer_row_def split: option.splits list.splits prod.splits intro!: ui_intro)

lemma group_add_ok [ui_intro]: "ui_ok ui \<Longrightarrow> group_ok g \<Longrightarrow> ui_ok (group_add g ui)"
  by (simp add: ui_ok_def typing_ok_def group_add_def)

lemma group_count_ok [ui_intro]: "ui_ok ui \<Longrightarrow> ui_ok (group_count gn ui)"
  unfolding group_count_def by (auto simp: group_ok_def intro!: ui_intro)

lemma deselect_group_ok [ui_intro]: "ui_ok ui \<Longrightarrow> ui_ok (deselect_group gn ui)"
  by (simp add: deselect_group_def ui_intro)

lemma sync_if_shown_ok [ui_intro]: "ui_ok ui \<Longrightarrow> ui_ok (sync_if_shown X gn ui)"
  by (simp add: sync_if_shown_def ui_intro)

lemma upsert_ok [row_simp, ui_intro]: "group_ok g \<Longrightarrow> group_ok (group_member_upsert X pid g)"
  by (auto simp: group_member_upsert_def group_member_def group_ok_def member_ok_def find_None_iff is_member_def split: option.splits)

lemma upd_member_ok [ui_intro]:
  assumes "group_ok g" "\<And>m. member_ok m \<Longrightarrow> member_ok (f m)" "\<And>m. gm_pid (f m) = gm_pid m"
  shows "group_ok (upd_member pid f g)"
  using assms by (simp add: group_ok_def upd_member_def list_all_upd_first)

lemma drop_member_ok [row_simp]: "group_ok g \<Longrightarrow> group_ok (drop_member pid g)"
  by (simp add: group_ok_def drop_member_def list_all_remove_first distinct_remove_first)

lemma announce_join_ok [ui_intro]: "ui_ok ui \<Longrightarrow> ui_ok (announce_join X gn pid ui)"
  by (auto simp: announce_join_def row_simp member_ok_def split: option.splits intro!: ui_intro)

lemma group_state_row_ok [row_simp]: "group_ok g \<Longrightarrow> group_ok (fst (group_state_row X h e g))"
proof -
  assume ok: "group_ok g"
  have "group_ok (history_load_group X (g \<lparr>gr_chat_id_hex := c_str b\<rparr>)) \<and> group_ok (g \<lparr>gr_chat_id_hex := c_str b\<rparr>)" if "length b = 64" for b
    using ok c_str_le [of b] that history_load_group_ok [of "g \<lparr>gr_chat_id_hex := c_str b\<rparr>" X] by (simp add: group_ok_def)
  then show ?thesis
    using ok history_load_group_ok [OF ok, of X] by (auto simp: group_state_row_def Let_def split: option.splits) (auto simp: group_ok_def)
qed

lemma new_group_events_ok [ui_intro]:
  assumes "ui_ok ui" "ev_fn e < UINT32_MAX"
  shows "ui_ok (on_group_new X e ui)" "ui_ok (on_group_joined X e ui)"
  unfolding on_group_new_def on_group_joined_def
  using assms by (auto simp: group_ok_def new_group_def group_zero_def split: option.splits intro!: ui_intro)

lemma group_events_ok [ui_intro]:
  assumes "ui_ok ui"
  shows "ui_ok (on_group_left X e ui)" "ui_ok (on_group_msg X e ui)" "ui_ok (on_group_priv_msg X e ui)" "ui_ok (on_group_peer_join X e ui)"
    "ui_ok (on_group_peer_exit X e ui)" "ui_ok (on_group_peer_name X e ui)" "ui_ok (on_group_peer_role X e ui)" "ui_ok (on_group_mod X e ui)"
    "ui_ok (on_group_state X e ui)" "ui_ok (on_group_join_fail X e ui)"
  unfolding on_group_left_def on_group_msg_def on_group_priv_msg_def on_group_peer_join_def on_group_peer_exit_def
    on_group_peer_name_def on_group_peer_role_def on_group_mod_def on_group_state_def on_group_join_fail_def Let_def
  using assms by (auto simp: row_simp member_ok_def split: option.splits intro!: ui_intro)

lemma group_actor_events_ok [ui_intro]:
  assumes "ui_ok ui"
  shows "ui_ok (on_group_mod_self X e ui)" "ui_ok (on_group_ignore_self X e ui)"
  unfolding on_group_mod_self_def on_group_ignore_self_def Let_def
  using assms by (auto simp: row_simp member_ok_def intro!: ui_intro)

lemma group_topic_ok [ui_intro]: "ui_ok ui \<Longrightarrow> ui_ok (on_group_topic X e ui)"
  unfolding on_group_topic_def Let_def by (auto simp: group_ok_def split: option.splits intro!: ui_intro)

lemma chess_events_ok [ui_intro]:
  assumes "ui_ok ui"
  shows "ui_ok (on_chess_invite e ui)" "ui_ok (on_chess_start e ui)" "ui_ok (on_chess_move e ui)" "ui_ok (on_chess_end e ui)" "ui_ok (on_group_invite e ui)"
proof -
  show "ui_ok (on_chess_move e ui)"
    using assms by (auto simp: on_chess_move_def ui_ok_def typing_ok_def split: option.splits list.splits prod.splits bool.splits)
qed (use assms in \<open>auto simp: on_chess_invite_def on_chess_start_def on_chess_end_def on_group_invite_def chess_open_def ui_ok_def typing_ok_def Let_def split: option.splits\<close>)

lemma length_cut_at: "length (fst (cut_at c xs)) \<le> length xs"
  by (simp add: cut_at_def length_takeWhile_le)

lemma tunnel_events_ok [ui_intro]:
  assumes "ui_ok ui"
  shows "ui_ok (on_tunnel_invite e ui)" "ui_ok (on_tunnel_add X e ui)" "ui_ok (on_tunnel_state e ui)"
proof -
  let ?b = "take 255 (case ev_str e of Some b \<Rightarrow> c_str b | None \<Rightarrow> [63])"
  have "length (fst (cut_at 10 ?b)) < 256" using length_cut_at [of 10 ?b] by simp
  then show "ui_ok (on_tunnel_invite e ui)"
    using assms by (cases "cut_at 10 ?b") (simp add: on_tunnel_invite_def ui_ok_def typing_ok_def Let_def)
  show "ui_ok (on_tunnel_add X e ui)"
  proof (cases "tun_ui_find ui (to_u32 (ev_ival e))")
    case None
    then have "to_u32 (ev_ival e) \<notin> tn_id ` set (u_tunnels ui)" by (auto simp: tun_ui_find_def find_None_iff is_tunnel_def)
    then show ?thesis using None assms by (auto simp: on_tunnel_add_def Let_def ui_ok_def typing_ok_def tunnels_ok_def)
  next
    case (Some tn)
    then show ?thesis using assms by (auto simp: on_tunnel_add_def Let_def intro!: ui_intro)
  qed
  show "ui_ok (on_tunnel_state e ui)" unfolding on_tunnel_state_def Let_def using assms by (auto intro!: ui_intro)
qed

lemma flags_ok [ui_intro]:
  assumes "ui_ok ui"
  shows "ui_ok (ui \<lparr>u_self_conn := i\<rparr>)" "ui_ok (ui \<lparr>u_self_presence := i\<rparr>)" "ui_ok (ui \<lparr>u_tor_mode := b\<rparr>)" "ui_ok (ui \<lparr>u_pass_open := b\<rparr>)"
    "ui_ok (ui \<lparr>u_quitting := b\<rparr>)"
  using assms by (simp_all add: ui_ok_def typing_ok_def)

lemma handle_event_ok:
  assumes "ui_ok ui" "ev_fn e < UINT32_MAX"
  shows "ui_ok (handle_event X e ui)"
  using assms unfolding handle_event_def
  by (cases "ev_type e") (simp_all only: TTEventType.case, (rule ui_intro, assumption+ | assumption | auto intro!: ui_intro)+)

section \<open>Typing\<close>

lemma typing_stop_ok [ui_intro]: "ui_ok ui \<Longrightarrow> ui_ok (typing_stop ui)"
  by (auto simp: ui_ok_def typing_stop_def Let_def typing_ok_def tt_post_def tt_post2_def typing_run_append)

lemma typing_tick_ok [ui_intro]: "ui_ok ui \<Longrightarrow> ui_ok (typing_tick X ui)"
  by (auto simp: ui_ok_def typing_tick_def typing_stop_def Let_def typing_ok_def tt_post_def tt_post2_def typing_run_append)

lemma typing_keystroke_ok [ui_intro]: "ui_ok ui \<Longrightarrow> fn \<noteq> UINT32_MAX \<Longrightarrow> ui_ok (typing_keystroke X fn ui)"
  by (auto simp: ui_ok_def typing_keystroke_def typing_stop_def Let_def typing_ok_def tt_post_def tt_post2_def typing_run_append)

lemma typing_sent_off_ok [ui_intro]: "ui_ok ui \<Longrightarrow> ui_ok (typing_sent_off fn ui)"
  by (auto simp: ui_ok_def typing_sent_off_def typing_ok_def tt_post_def tt_post2_def typing_run_append)

section \<open>Callbacks\<close>

lemma with_selected_ok [ui_intro]:
  assumes "ui_ok ui" "\<And>c ui. ui_ok ui \<Longrightarrow> ui_ok (f c ui)"
  shows "ui_ok (with_selected f ui)"
  using assms by (simp add: with_selected_def split: option.splits)

lemma with_gselected_ok [ui_intro]:
  assumes "ui_ok ui" "\<And>g ui. ui_ok ui \<Longrightarrow> ui_ok (f g ui)"
  shows "ui_ok (with_gselected f ui)"
  using assms by (simp add: with_gselected_def split: option.splits)

lemma found_contact_fn: "ui_ok ui \<Longrightarrow> contact_by_iid ui res = Some c \<Longrightarrow> ct_fn c < UINT32_MAX"
  by (auto simp: contact_by_iid_def request_row_def contact_by_fn_def ui_ok_def contacts_ok_def list_all_iff contact_ok_def split: if_splits dest!: find_set)

lemma found_group_gn: "ui_ok ui \<Longrightarrow> group_by_iid ui res = Some g \<Longrightarrow> gr_gn g < UINT32_MAX"
  by (auto simp: group_by_iid_def group_by_gn_def ui_ok_def list_all_iff group_ok_def split: if_splits dest!: find_set)

lemma sel_ok: "ui_ok ui \<Longrightarrow> fn < UINT32_MAX \<Longrightarrow> ui_ok (ui \<lparr>u_sel_kind := k, u_sel_fn := fn\<rparr>)"
  by (simp add: ui_ok_def typing_ok_def)

lemma cc_selected_ok [ui_intro]: "ui_ok ui \<Longrightarrow> ui_ok (cc_selected res ui)"
  using found_contact_fn [of ui res] found_group_gn [of ui res]
  by (auto simp: cc_selected_def Let_def split: option.splits prod.splits if_splits intro!: show_selected_ok sel_ok)

lemma cc_input_key_ok [ui_intro]: "ui_ok ui \<Longrightarrow> ui_ok (cc_input_key X ui)"
  using typing_keystroke_ok [of ui "u_sel_fn ui" X] by (simp add: cc_input_key_def) (simp add: ui_ok_def)

lemma send_ok [ui_intro]:
  "ui_ok ui \<Longrightarrow> ui_ok (send_friend X fn buf ui)" "ui_ok ui \<Longrightarrow> ui_ok (send_group X fn buf ui)" "ui_ok ui \<Longrightarrow> ui_ok (drop_request ui)"
  by (auto simp: send_friend_def send_group_def drop_request_def Let_def row_simp intro!: ui_intro)

lemma filter_ok [ui_intro]: "ui_ok ui \<Longrightarrow> length q < 80 \<Longrightarrow> ui_ok (ui \<lparr>u_filter := q\<rparr>)"
  by (simp add: ui_ok_def typing_ok_def)

lemma dialogs_ok [ui_intro]:
  assumes "ui_ok ui"
  shows "ui_ok (ui \<lparr>u_add_open := b\<rparr>)" "ui_ok (ui \<lparr>u_name_open := b\<rparr>)" "ui_ok (ui \<lparr>u_smsg_open := b\<rparr>)" "ui_ok (ui \<lparr>u_st_open := b\<rparr>)"
    "ui_ok (ui \<lparr>u_history := b\<rparr>)" "ui_ok (ui \<lparr>u_offer_open := b\<rparr>)" "ui_ok (ui \<lparr>u_gnew_open := b\<rparr>)" "ui_ok (ui \<lparr>u_gjoin_open := b\<rparr>)"
    "ui_ok (ui \<lparr>u_ginvite_open := b\<rparr>)" "ui_ok (ui \<lparr>u_gtopic_open := b\<rparr>)" "ui_ok (ui \<lparr>u_gctl_open := b\<rparr>)" "ui_ok (ui \<lparr>u_gi := i\<rparr>)"
    "ui_ok (ui \<lparr>u_tun_panel_open := b\<rparr>)" "ui_ok (ui \<lparr>u_tun_share_open := b\<rparr>)" "ui_ok (ui \<lparr>u_tun_invite_open := b\<rparr>)" "ui_ok (ui \<lparr>u_tun_invite_fn := n\<rparr>)"
    "ui_ok (ui \<lparr>u_call_timer_sched := b\<rparr>)" "ui_ok (ui \<lparr>u_chess_invite_open := b\<rparr>)" "ui_ok (ui \<lparr>u_chess_fn := n\<rparr>)" "ui_ok (ui \<lparr>u_video_img := b\<rparr>)"
  using assms by (simp_all add: ui_ok_def typing_ok_def)

lemma chat_callbacks_ok [ui_intro]:
  assumes "ui_ok ui"
  shows "ui_ok (cc_send X t ui)" "ui_ok (cc_ignore ui)" "ui_ok (cc_search_changed q ui)" "ui_ok (cc_search_enter q ui)" "ui_ok (cc_add_ok q t ui)" "ui_ok (cc_remove ui)"
proof -
  show "ui_ok (cc_remove ui)" unfolding cc_remove_def
    using assms by (intro with_selected_ok show_selected_ok roster_render_ok sel_ok contact_remove_ok post1_ok) simp_all
qed (use assms in \<open>auto simp: cc_send_def cc_ignore_def cc_search_changed_def cc_search_enter_def cc_add_ok_def cc_add_open_def Let_def
    split: SelKind.splits option.splits intro!: ui_intro\<close>)

lemma enforce_ok [ui_intro]: "ui_ok ui \<Longrightarrow> ui_ok (cc_prof_enforce v ui)"
  unfolding cc_prof_enforce_def by (auto simp: row_defs intro!: ui_intro)

lemma identity_callbacks_ok [ui_intro]:
  assumes "ui_ok ui"
  shows "ui_ok (cc_status_set a ui)" "ui_ok (cc_avatar_open a ui)" "ui_ok (cc_avatar_clear ui)" "ui_ok (cc_name_ok a ui)" "ui_ok (cc_smsg_ok a ui)"
    "ui_ok (cc_set_nospam ui)" "ui_ok (fst (cc_st_hist X b ui d))" "ui_ok (fst (cc_st_ok X a a' ui d))" "ui_ok (fst (cc_st_clear X ui d))"
    "ui_ok (fst (cc_pass_ok a ui))" "ui_ok (fst (cc_pass_cancel ui))"
  using assms
  by (auto simp: cc_status_set_def cc_avatar_open_def cc_avatar_clear_def cc_name_ok_def cc_smsg_ok_def cc_set_nospam_def cc_st_hist_def cc_st_ok_def
      cc_st_clear_def cc_pass_ok_def cc_pass_cancel_def Let_def split: prod.splits intro!: ui_intro)

lemma offer_answered_ok [ui_intro]: "ui_ok ui \<Longrightarrow> ui_ok (offer_answered X c line ui)"
  unfolding offer_answered_def by (auto simp: row_defs intro!: ui_intro)

lemma file_callbacks_ok [ui_intro]:
  assumes "ui_ok ui"
  shows "ui_ok (cc_file_open f ui)" "ui_ok (cc_file_cancel X ui)" "ui_ok (cc_file_yes X f ui)" "ui_ok (cc_file_no X ui)"
  unfolding cc_file_open_def cc_file_cancel_def cc_file_yes_def cc_file_no_def
  using assms by (auto split: option.splits intro!: ui_intro)

lemma cc_call_ok [ui_intro]: "ui_ok ui \<Longrightarrow> ty \<noteq> TT_CMD_SET_TYPING \<Longrightarrow> ui_ok (cc_call ty a v ui)"
  unfolding cc_call_def by (auto intro!: ui_intro)

lemma call_callbacks_ok [ui_intro]:
  assumes "ui_ok ui"
  shows "ui_ok (cc_av_call X ui)" "ui_ok (cc_av_answer ui)" "ui_ok (cc_av_answer_video ui)" "ui_ok (cc_av_decline ui)" "ui_ok (cc_av_mute ui)"
    "ui_ok (cc_av_pause X ui)" "ui_ok (cc_av_deaf ui)" "ui_ok (cc_av_self ui)" "ui_ok (cc_av_cam ui)" "ui_ok (cc_call_tick ui)"
  unfolding cc_av_call_def cc_av_answer_def cc_av_answer_video_def cc_av_decline_def cc_av_mute_def cc_av_pause_def cc_av_deaf_def cc_av_self_def
    cc_av_cam_def cc_call_tick_def in_call_def Let_def
  using assms by (auto simp: row_defs split: option.splits if_splits intro!: ui_intro)

lemma video_tick_ok [ui_intro]: "ui_ok ui \<Longrightarrow> ui_ok (cc_video_tick X ui)"
  by (simp add: cc_video_tick_def video_paint_def Let_def ui_ok_def typing_ok_def)

lemma chess_callbacks_ok [ui_intro]:
  assumes "ui_ok ui"
  shows "ui_ok (cc_chess_invite ui)" "ui_ok (cc_chess_accept ui)" "ui_ok (cc_chess_decline ui)" "ui_ok (cc_chess_square x y ui)"
    "ui_ok (cc_chess_drop x y ui)" "ui_ok (cc_chess_resign ui)" "ui_ok (cc_chess_close ui)"
proof -
  show "ui_ok (cc_chess_invite ui)" "ui_ok (cc_chess_accept ui)" "ui_ok (cc_chess_decline ui)" "ui_ok (cc_chess_resign ui)"
    unfolding cc_chess_invite_def cc_chess_accept_def cc_chess_decline_def cc_chess_resign_def using assms
    by (auto intro!: ui_intro)
  show "ui_ok (cc_chess_square x y ui)" using assms by (auto simp: cc_chess_square_def ui_ok_def typing_ok_def in_bounds_def Let_def split: prod.splits)
  show "ui_ok (cc_chess_close ui)" using assms by (simp add: cc_chess_close_def ui_ok_def typing_ok_def)
  have "ui_ok (ui \<lparr>u_chess_dragging := b\<rparr>)" "ui_ok (ui \<lparr>u_chess_dragging := b, u_chess_sel_rank := -1, u_chess_sel_file := -1\<rparr>)"
    "ui_ok (ui \<lparr>u_chess_dragging := b, u_chess_sel_rank := -1, u_chess_sel_file := -1, u_chess_board := g, u_chess_my_turn := t\<rparr>)" for b g t
    using assms by (simp_all add: ui_ok_def typing_ok_def)
  then show "ui_ok (cc_chess_drop x y ui)"
    using assms by (auto simp: cc_chess_drop_def Let_def split: prod.splits option.splits bool.splits intro!: post1_ok)
qed

lemma tunnel_callbacks_ok [ui_intro]:
  assumes "ui_ok ui"
  shows "ui_ok (cc_tun_share_open ui)" "ui_ok (cc_tun_share_ok h p t ui)" "ui_ok (cc_tun_accept s b ov ui)" "ui_ok (cc_tun_decline ui)" "ui_ok (cc_tun_stop a ui)"
  unfolding cc_tun_share_open_def cc_tun_share_ok_def cc_tun_accept_def cc_tun_decline_def cc_tun_stop_def Let_def
  using assms by (auto intro!: ui_intro)

lemma group_callbacks_ok [ui_intro]:
  assumes "ui_ok ui"
  shows "ui_ok (cc_gnew_ok n b ui)" "ui_ok (cc_gjoin_ok c p ui)" "ui_ok (cc_ginv_yes i ui)" "ui_ok (cc_ginv_no i ui)" "ui_ok (cc_ginvite_open ui)"
    "ui_ok (cc_ginvite_ok v ui)" "ui_ok (cc_gtopic_open ui)" "ui_ok (cc_gtopic_ok v ui)" "ui_ok (cc_gctl_open ui)" "ui_ok (cc_gctl_pw v ui)"
    "ui_ok (cc_gctl_priv v ui)" "ui_ok (cc_gctl_voice v ui)" "ui_ok (cc_gctl_tlock v ui)" "ui_ok (cc_gctl_pl v ui)" "ui_ok (cc_grole pid v ui)"
    "ui_ok (cc_gkick pid ui)" "ui_ok (cc_gignore pid ui)" "ui_ok (cc_gleave ui)"
  unfolding cc_gnew_ok_def cc_gjoin_ok_def cc_ginv_yes_def cc_ginv_no_def cc_ginvite_open_def cc_ginvite_ok_def cc_gtopic_open_def cc_gtopic_ok_def
    cc_gctl_open_def cc_gctl_pw_def cc_gctl_priv_def cc_gctl_voice_def cc_gctl_tlock_def cc_gctl_pl_def cc_grole_def cc_gkick_def cc_gignore_def
    cc_gleave_def with_gctl_def Let_def
  using assms by (auto split: option.splits prod.splits intro!: ui_intro)

section \<open>Reachable states\<close>

text \<open>An event of the queue, a timer, or a callback.  toxcore never gives out the number \<^verbatim>\<open>UINT32_MAX\<close>, which is its error value.\<close>

inductive ui_step :: "Ui \<Rightarrow> Ui \<Rightarrow> bool" where
  event: "ev_fn e < UINT32_MAX \<Longrightarrow> ui_step ui (handle_event X e ui)"
| typing_timer: "ui_step ui (typing_tick X ui)"
| call_timer: "ui_step ui (cc_call_tick ui)"
| video_timer: "ui_step ui (cc_video_tick X ui)"
| select: "ui_step ui (cc_selected res ui)"
| key: "ui_step ui (cc_input_key X ui)"
| send: "ui_step ui (cc_send X t ui)"
| ignore: "ui_step ui (cc_ignore ui)"
| search: "ui_step ui (cc_search_changed q ui)"
| search_enter: "ui_step ui (cc_search_enter q ui)"
| add_open: "ui_step ui (cc_add_open ui)"
| add_ok: "ui_step ui (cc_add_ok q t ui)"
| add_cancel: "ui_step ui (cc_add_cancel ui)"
| remove: "ui_step ui (cc_remove ui)"
| enforce: "ui_step ui (cc_prof_enforce v ui)"
| status_set: "ui_step ui (cc_status_set v ui)"
| avatar_open: "ui_step ui (cc_avatar_open v ui)"
| avatar_clear: "ui_step ui (cc_avatar_clear ui)"
| name_open: "ui_step ui (cc_name_open ui)"
| name_ok: "ui_step ui (cc_name_ok v ui)"
| name_cancel: "ui_step ui (cc_name_cancel ui)"
| smsg_open: "ui_step ui (cc_smsg_open ui)"
| smsg_ok: "ui_step ui (cc_smsg_ok v ui)"
| smsg_cancel: "ui_step ui (cc_smsg_cancel ui)"
| nospam: "ui_step ui (cc_set_nospam ui)"
| st_open: "ui_step ui (cc_st_open ui)"
| st_cancel: "ui_step ui (cc_st_cancel ui)"
| st_hist: "ui_step ui (fst (cc_st_hist X b ui d))"
| st_ok: "ui_step ui (fst (cc_st_ok X v v' ui d))"
| st_clear: "ui_step ui (fst (cc_st_clear X ui d))"
| pass_ok: "ui_step ui (fst (cc_pass_ok v ui))"
| pass_cancel: "ui_step ui (fst (cc_pass_cancel ui))"
| file_open: "ui_step ui (cc_file_open v ui)"
| file_cancel: "ui_step ui (cc_file_cancel X ui)"
| file_yes: "ui_step ui (cc_file_yes X v ui)"
| file_no: "ui_step ui (cc_file_no X ui)"
| av_call: "ui_step ui (cc_av_call X ui)"
| av_answer: "ui_step ui (cc_av_answer ui)"
| av_answer_video: "ui_step ui (cc_av_answer_video ui)"
| av_decline: "ui_step ui (cc_av_decline ui)"
| av_mute: "ui_step ui (cc_av_mute ui)"
| av_pause: "ui_step ui (cc_av_pause X ui)"
| av_deaf: "ui_step ui (cc_av_deaf ui)"
| av_self: "ui_step ui (cc_av_self ui)"
| av_cam: "ui_step ui (cc_av_cam ui)"
| chess_invite: "ui_step ui (cc_chess_invite ui)"
| chess_accept: "ui_step ui (cc_chess_accept ui)"
| chess_decline: "ui_step ui (cc_chess_decline ui)"
| chess_square: "ui_step ui (cc_chess_square x y ui)"
| chess_drop: "ui_step ui (cc_chess_drop x y ui)"
| chess_resign: "ui_step ui (cc_chess_resign ui)"
| chess_close: "ui_step ui (cc_chess_close ui)"
| tun_panel: "ui_step ui (cc_tun_panel ui)"
| tun_panel_close: "ui_step ui (cc_tun_panel_close ui)"
| tun_share_open: "ui_step ui (cc_tun_share_open ui)"
| tun_share_ok: "ui_step ui (cc_tun_share_ok h p t ui)"
| tun_share_cancel: "ui_step ui (cc_tun_share_cancel ui)"
| tun_accept: "ui_step ui (cc_tun_accept sock bindable v ui)"
| tun_decline: "ui_step ui (cc_tun_decline ui)"
| tun_stop: "ui_step ui (cc_tun_stop v ui)"
| gnew_open: "ui_step ui (cc_gnew_open ui)"
| gnew_ok: "ui_step ui (cc_gnew_ok v b ui)"
| gnew_cancel: "ui_step ui (cc_gnew_cancel ui)"
| gjoin_open: "ui_step ui (cc_gjoin_open ui)"
| gjoin_ok: "ui_step ui (cc_gjoin_ok v v' ui)"
| gjoin_cancel: "ui_step ui (cc_gjoin_cancel ui)"
| ginv_yes: "ui_step ui (cc_ginv_yes i ui)"
| ginv_no: "ui_step ui (cc_ginv_no i ui)"
| ginv_closed: "ui_step ui (ui \<lparr>u_gi := None\<rparr>)"
| ginvite_open: "ui_step ui (cc_ginvite_open ui)"
| ginvite_ok: "ui_step ui (cc_ginvite_ok v ui)"
| ginvite_cancel: "ui_step ui (cc_ginvite_cancel ui)"
| gtopic_open: "ui_step ui (cc_gtopic_open ui)"
| gtopic_ok: "ui_step ui (cc_gtopic_ok v ui)"
| gtopic_cancel: "ui_step ui (cc_gtopic_cancel ui)"
| gctl_open: "ui_step ui (cc_gctl_open ui)"
| gctl_close: "ui_step ui (cc_gctl_close ui)"
| gctl_pw: "ui_step ui (cc_gctl_pw v ui)"
| gctl_priv: "ui_step ui (cc_gctl_priv v ui)"
| gctl_voice: "ui_step ui (cc_gctl_voice v ui)"
| gctl_tlock: "ui_step ui (cc_gctl_tlock v ui)"
| gctl_pl: "ui_step ui (cc_gctl_pl v ui)"
| grole: "ui_step ui (cc_grole pid v ui)"
| gkick: "ui_step ui (cc_gkick pid ui)"
| gignore: "ui_step ui (cc_gignore pid ui)"
| gleave: "ui_step ui (cc_gleave ui)"

inductive ui_reach :: "Ui \<Rightarrow> bool" where
  start: "ui_reach (ui_run X)"
| step: "ui_reach ui \<Longrightarrow> ui_step ui ui' \<Longrightarrow> ui_reach ui'"

lemmas dialog_defs = cc_add_open_def cc_add_cancel_def cc_name_open_def cc_name_cancel_def cc_smsg_open_def cc_smsg_cancel_def cc_st_open_def
  cc_st_cancel_def cc_tun_panel_def cc_tun_panel_close_def cc_tun_share_cancel_def cc_gnew_open_def cc_gnew_cancel_def cc_gjoin_open_def
  cc_gjoin_cancel_def cc_ginvite_cancel_def cc_gtopic_cancel_def cc_gctl_close_def

lemma ui_step_ok: "ui_step ui ui' \<Longrightarrow> ui_ok ui \<Longrightarrow> ui_ok ui'"
  by (induction rule: ui_step.induct) (simp_all add: handle_event_ok ui_intro dialog_defs)

lemma ui_run_ok: "ui_ok (ui_run X)"
  by (simp add: ui_run_def ui_zero_def ui_ok_def contacts_ok_def tunnels_ok_def typing_ok_def)

lemma ui_reach_ok: "ui_reach ui \<Longrightarrow> ui_ok ui"
  by (induction rule: ui_reach.induct) (auto simp: ui_run_ok dest: ui_step_ok)

text \<open>C34: Whatever the tox thread reports and the user does, the state of the front end is well-formed: every text fits its
  buffer, the roster has one row per friend and at most one friend request, a member is listed once in its group and a
  tunnel once in the panel, the stored video frame has the allocated size and the selected square is on the board.\<close>

theorem reachable_ui_well_formed:
  assumes "ui_reach ui"
  shows "list_all contact_ok (u_contacts ui) \<and> distinct (map row_key (u_contacts ui)) \<and> list_all group_ok (u_groups ui) \<and>
    tunnels_ok (u_tunnels ui) \<and> length (u_self_name ui) < 128 \<and> length (u_self_status_msg ui) \<le> TOX_MAX_STATUS_MESSAGE_LENGTH \<and>
    length (u_my_toxid ui) < 100 \<and> length (u_filter ui) < 80 \<and> length (u_video_frame ui) = u_video_cap ui \<and> u_video_cap ui \<le> 460800 \<and>
    u_chess_sel_rank ui \<in> {-1..7} \<and> u_chess_sel_file ui \<in> {-1..7}"
  using ui_reach_ok [OF assms] by (auto simp: ui_ok_def contacts_ok_def)

text \<open>C35: The typing indicator is never left on: the posted commands pair every start with a stop for the same friend before the next
  start, at most the last start is open and then a timer is queued, and a tick four seconds after the last key posts
  the stop.\<close>

theorem typing_indicator_stops:
  assumes "ui_reach ui" "u_typing_sent ui"
  shows "typing_run None (u_posted ui) = Some (Some (u_typing_fn ui)) \<and> u_typing_idle_sched ui \<and>
    (x_now X \<ge> u_typing_last ui + 4 \<longrightarrow> \<not> u_typing_sent (typing_tick X ui) \<and> typing_run None (u_posted (typing_tick X ui)) = Some None)"
proof -
  have ok: "typing_ok ui" "ui_ok (typing_tick X ui)" using ui_reach_ok [OF assms(1)] typing_tick_ok [of ui X] by (simp_all add: ui_ok_def)
  have "\<not> u_typing_sent (typing_tick X ui)" if "x_now X \<ge> u_typing_last ui + 4"
    using that ok(1) assms(2) by (simp add: typing_ok_def typing_tick_def typing_stop_def Let_def tt_post_def tt_post2_def)
  then show ?thesis using ok assms(2) by (auto simp: ui_ok_def typing_ok_def)
qed

section \<open>Witnesses\<close>

definition demo_uenv :: uenv where
  "demo_uenv = \<lparr>x_now = 100, x_stamp = [49], x_alloc = True, x_gm = False, x_decodes = (\<lambda>_. True), x_profile = None, x_key = None,
     x_toxes = toy_toxes, x_io = (\<lambda>_. True), x_disk = Map.empty\<rparr>"

definition demo_name :: "nat \<Rightarrow> TTEvent" where
  "demo_name fn = (tt_event_new TT_EV_FRIEND_NAME) \<lparr>ev_fn := fn, ev_str := Some [65]\<rparr>"

text \<open>Friend 3 appears, is selected and typed to.\<close>

definition demo_chat :: Ui where
  "demo_chat = cc_input_key demo_uenv (cc_selected [102, 51] (handle_event demo_uenv (demo_name 3) (ui_run demo_uenv)))"

lemma demo_row: "handle_event demo_uenv (demo_name 3) (ui_run demo_uenv) =
    (ui_run demo_uenv) \<lparr>u_contacts := [contact_zero \<lparr>ct_fn := 3, ct_name := [65]\<rparr>]\<rparr>"
  by (simp add: handle_event_def demo_name_def tt_event_new_def on_friend_name_def friend_row_def contact_get_def contact_by_fn_def ui_run_def ui_zero_def
      demo_uenv_def contact_add_def upd_contact_def is_friend_def contact_zero_def copy_str_def c_str_def roster_render_def refresh_open_def chat_open_def)

lemma demo_chat_reach: "ui_reach demo_chat"
  unfolding demo_chat_def
  by (intro ui_reach.step [OF _ ui_step.key] ui_reach.step [OF _ ui_step.select] ui_reach.step [OF _ ui_step.event] ui_reach.start) (simp add: demo_name_def)

lemma demo_chat_eq: "demo_chat = typing_keystroke demo_uenv 3
    ((ui_run demo_uenv) \<lparr>u_contacts := [contact_zero \<lparr>ct_fn := 3, ct_name := [65]\<rparr>], u_sel_kind := TT_SEL_CHAT, u_sel_fn := 3\<rparr>)"
proof -
  have "strtoull [51] = 3" by (simp add: strtoull_def scan_u_def is_space_def is_digit_def digits_value_def Let_def)
  then show ?thesis
    unfolding demo_chat_def demo_row
    by (simp add: cc_selected_def contact_by_iid_def ascii_def contact_by_fn_def is_friend_def contact_zero_def to_u32_def ui_run_def ui_zero_def
        show_selected_def upd_contact_def roster_render_def have_keep_def contact_listed_def cc_input_key_def Let_def)
qed

theorem reachable_ui_well_formed_witness:
  "list_all contact_ok (u_contacts demo_chat) \<and> length (u_contacts demo_chat) = 1"
proof -
  have "length (u_contacts demo_chat) = 1"
    by (simp add: demo_chat_eq typing_keystroke_def typing_stop_def tt_post_def tt_post2_def Let_def)
  then show ?thesis using reachable_ui_well_formed [OF demo_chat_reach] by blast
qed

theorem typing_indicator_stops_witness:
  "u_typing_fn demo_chat = 3 \<and> \<not> u_typing_sent (typing_tick (demo_uenv \<lparr>x_now := 104\<rparr>) demo_chat)"
proof -
  have d: "u_typing_sent demo_chat" "u_typing_last demo_chat = 100" "u_typing_fn demo_chat = 3"
    by (simp_all add: demo_chat_eq typing_keystroke_def typing_stop_def tt_post_def tt_post2_def Let_def demo_uenv_def ui_run_def ui_zero_def)
  from typing_indicator_stops [OF demo_chat_reach d(1), of "demo_uenv \<lparr>x_now := 104\<rparr>"] d show ?thesis by simp
qed

end
