(* ===== verification/UiChess.thy ===== *)
theory UiChess
  imports UiInv
begin

text \<open>
  The board on the screen and the board of the tox thread.  The front end makes a move on its own copy at once and posts it; the
  tox thread checks it again on the authoritative board; the opponent's moves come the other way as events.  Between the two
  are the command and the event queue.  \<open>mirror_step\<close> lets both sides run in any order; the boards are
  never more than the one move in transit apart.
\<close>

record mirror =
  mi_ui :: Ui
  mi_games :: chess_games
  mi_cmds :: "TTCommand list"
  mi_evs :: "TTEvent list"

inductive mirror_step :: "nat \<Rightarrow> mirror \<Rightarrow> mirror \<Rightarrow> bool" for fn where
  press: "mirror_step fn s (s \<lparr>mi_ui := cc_chess_square x y (mi_ui s)\<rparr>)"
| release: "ui' = cc_chess_drop x y (mi_ui s) \<Longrightarrow>
    mirror_step fn s (s \<lparr>mi_ui := ui', mi_cmds := mi_cmds s @ drop (length (u_posted (mi_ui s))) (u_posted ui')\<rparr>)"
| command: "mi_cmds s = c # cs \<Longrightarrow> cmd_type c = TT_CMD_CHESS_MOVE \<Longrightarrow> cmd_str c = Some mv \<Longrightarrow>
    handle_cmd_chess_move ok (mi_games s) (cmd_fn c) mv = (games', pkts, evs) \<Longrightarrow>
    mirror_step fn s (s \<lparr>mi_games := games', mi_cmds := cs, mi_evs := mi_evs s @ evs\<rparr>)"
| packet: "chess_rx (mi_games s) fn TT_GAME_PACKET_DATA d = (games', pkts, evs) \<Longrightarrow>
    mirror_step fn s (s \<lparr>mi_games := games', mi_evs := mi_evs s @ evs\<rparr>)"
| event: "mi_evs s = e # es \<Longrightarrow> mirror_step fn s (s \<lparr>mi_ui := handle_event X e (mi_ui s), mi_evs := es\<rparr>)"

section \<open>One move\<close>

definition move_text :: "bytes \<Rightarrow> TTChess \<Rightarrow> TTChess \<Rightarrow> bool" where
  "move_text mv b b' \<longleftrightarrow> length mv = 4 \<and> (\<exists>fr ff tr tf. tt_chess_parse_square [mv ! 0, mv ! 1] = Some (fr, ff) \<and>
     tt_chess_parse_square [mv ! 2, mv ! 3] = Some (tr, tf) \<and> tt_chess_move b fr ff tr tf = (True, b'))"

lemma parse_format [simp]: "in_bounds r f \<Longrightarrow> tt_chess_parse_square (tt_chess_format_square r f) = Some (r, f)"
proof -
  assume "in_bounds r f"
  then have "r \<in> {0, 1, 2, 3, 4, 5, 6, 7}" "f \<in> {0, 1, 2, 3, 4, 5, 6, 7}" by (auto simp: in_bounds_def)
  then show ?thesis by (auto simp: tt_chess_parse_square_def tt_chess_format_square_def)
qed

lemma apply_to_move: "ch_to_move (apply_move g fr ff tr tf) = other_color (ch_to_move g)"
  by (simp add: apply_move_def Let_def set_status_def rook_touched_def king_moved_def)

lemma move_to_move: "tt_chess_move b fr ff tr tf = (True, b') \<Longrightarrow> ch_to_move b' = other_color (ch_to_move b) \<and> pc_color (ch_board b fr ff) = ch_to_move b"
  by (auto simp: tt_chess_move_def move_accepted_def apply_to_move split: if_splits)

lemma move_text_turn: "move_text mv b b' \<Longrightarrow> ch_to_move b' = other_color (ch_to_move b)"
  by (auto simp: move_text_def dest: move_to_move)

section \<open>The invariant\<close>

text \<open>The selected square holds one of our pieces, or it is our turn.\<close>

definition sel_own :: "Ui \<Rightarrow> bool" where
  "sel_own ui \<longleftrightarrow> u_chess_sel_rank ui \<ge> 0 \<longrightarrow>
     in_bounds (u_chess_sel_rank ui) (u_chess_sel_file ui) \<and>
     (pc_color (ch_board (u_chess_board ui) (u_chess_sel_rank ui) (u_chess_sel_file ui)) = u_chess_self ui \<or>
      ch_to_move (u_chess_board ui) = u_chess_self ui)"

text \<open>Nothing in transit, our move on its way down, or the opponent's on its way up.\<close>

datatype transit = Settled | Down bytes | Up bytes

fun in_transit :: "nat \<Rightarrow> TTColor \<Rightarrow> TTChess \<Rightarrow> TTChess \<Rightarrow> transit \<Rightarrow> TTCommand list \<Rightarrow> TTEvent list \<Rightarrow> bool" where
  "in_transit fn self bu be Settled cmds evs = (cmds = [] \<and> evs = [] \<and> bu = be)"
| "in_transit fn self bu be (Down mv) cmds evs =
     (evs = [] \<and> (\<exists>c. cmds = [c] \<and> cmd_type c = TT_CMD_CHESS_MOVE \<and> cmd_fn c = fn \<and> cmd_str c = Some mv) \<and>
      ch_to_move be = self \<and> move_text mv be bu)"
| "in_transit fn self bu be (Up mv) cmds evs =
     (cmds = [] \<and> (\<exists>e. evs = [e] \<and> ev_type e = TT_EV_CHESS_MOVE \<and> ev_fn e = fn \<and> ev_str e = Some mv) \<and>
      ch_to_move bu \<noteq> self \<and> move_text mv bu be)"

definition mirror_ok :: "nat \<Rightarrow> mirror \<Rightarrow> bool" where
  "mirror_ok fn s \<longleftrightarrow>
     (case mi_games s fn of
        None \<Rightarrow> True
      | Some g \<Rightarrow>
          cg_started g \<and> u_chess_self (mi_ui s) = cg_self_color g \<and> u_chess_fn (mi_ui s) = fn \<and> u_chess_started (mi_ui s) \<and> sel_own (mi_ui s) \<and>
          (\<exists>t. in_transit fn (cg_self_color g) (u_chess_board (mi_ui s)) (cg_board g) t (mi_cmds s) (mi_evs s)))"

lemma press_mirror: "mirror_ok fn s \<Longrightarrow> mirror_ok fn (s \<lparr>mi_ui := cc_chess_square x y (mi_ui s)\<rparr>)"
  by (auto simp: mirror_ok_def cc_chess_square_def sel_own_def Let_def split: option.splits prod.splits)

text \<open>What letting a piece go does while it is our turn, and while it is not.\<close>

lemma drop_cases:
  fixes ui :: Ui and x y :: int
  defines "ui' \<equiv> cc_chess_drop x y ui"
  assumes "sel_own ui"
  shows "(\<exists>b r f. ui' = ui \<lparr>u_chess_dragging := b, u_chess_sel_rank := r, u_chess_sel_file := f\<rparr> \<and> sel_own ui') \<or>
    (\<exists>mv b'. ch_to_move (u_chess_board ui) = u_chess_self ui \<and> move_text mv (u_chess_board ui) b' \<and> u_chess_board ui' = b' \<and>
      u_posted ui' = u_posted ui @ [\<lparr>cmd_type = TT_CMD_CHESS_MOVE, cmd_fn = u_chess_fn ui, cmd_str = Some mv, cmd_ival = 0, cmd_ival2 = 0\<rparr>] \<and>
      u_chess_self ui' = u_chess_self ui \<and> u_chess_fn ui' = u_chess_fn ui \<and> u_chess_started ui' = u_chess_started ui \<and> sel_own ui')"
proof -
  obtain rk fl where rf: "cell_of x y = (rk, fl)" by fastforce
  let ?sr = "u_chess_sel_rank ui" and ?sf = "u_chess_sel_file ui" and ?b = "u_chess_board ui"
  let ?mv = "tt_chess_format_square ?sr ?sf @ tt_chess_format_square rk fl"
  have same: "ui = ui \<lparr>u_chess_dragging := u_chess_dragging ui, u_chess_sel_rank := ?sr, u_chess_sel_file := ?sf\<rparr>" by simp
  have keep: "sel_own (ui \<lparr>u_chess_dragging := b\<rparr>)" "sel_own (ui \<lparr>u_chess_dragging := b, u_chess_sel_rank := -1, u_chess_sel_file := -1\<rparr>)" for b
    using assms(2) by (simp_all add: sel_own_def)
  show ?thesis
  proof (cases "chess_live ui \<and> ?sr \<ge> 0 \<and> in_bounds rk fl")
    case False
    then have "ui' = ui" by (auto simp: ui'_def cc_chess_drop_def rf)
    then show ?thesis using same assms(2) by metis
  next
    case live: True
    show ?thesis
    proof (cases "rk = ?sr \<and> fl = ?sf")
      case True
      then have "ui' = ui \<lparr>u_chess_dragging := False, u_chess_sel_rank := ?sr, u_chess_sel_file := ?sf\<rparr>"
        using live by (simp add: ui'_def cc_chess_drop_def rf Let_def)
      moreover have "sel_own ui'" using calculation keep(1) [of False] by simp
      ultimately show ?thesis by blast
    next
      case False
      have ib: "in_bounds ?sr ?sf" using assms(2) live by (simp add: sel_own_def)
      show ?thesis
      proof (cases "tt_chess_move ?b ?sr ?sf rk fl")
        case (Pair acc b')
        show ?thesis
        proof (cases acc)
          case False
          then have "ui' = ui \<lparr>u_chess_dragging := False, u_chess_sel_rank := -1, u_chess_sel_file := -1\<rparr>"
            using live ib Pair \<open>\<not> (rk = ?sr \<and> fl = ?sf)\<close> by (auto simp: ui'_def cc_chess_drop_def rf Let_def)
          then show ?thesis using keep(2) by blast
        next
          case True
          then have mv: "tt_chess_move ?b ?sr ?sf rk fl = (True, b')" using Pair by simp
          have turn: "ch_to_move ?b = u_chess_self ui" using move_to_move [OF mv] assms(2) live by (auto simp: sel_own_def)
          have "tt_chess_parse_square [?mv ! 0, ?mv ! 1] = Some (?sr, ?sf)" "tt_chess_parse_square [?mv ! 2, ?mv ! 3] = Some (rk, fl)" "length ?mv = 4"
            using parse_format [OF ib] parse_format [of rk fl] live by (simp_all add: tt_chess_format_square_def)
          then have mt: "move_text ?mv ?b b'" using mv by (auto simp: move_text_def)
          have eq: "ui' = tt_post TT_CMD_CHESS_MOVE (u_chess_fn ui) (Some ?mv) 0 (ui \<lparr>u_chess_dragging := False, u_chess_sel_rank := -1, u_chess_sel_file := -1,
              u_chess_board := b', u_chess_my_turn := (ch_to_move b' = u_chess_self ui)\<rparr>)"
            using live ib mv \<open>\<not> (rk = ?sr \<and> fl = ?sf)\<close> by (auto simp: ui'_def cc_chess_drop_def rf Let_def)
          then show ?thesis using turn mt by (intro disjI2 exI [of _ ?mv] exI [of _ b']) (simp add: tt_post_def tt_post2_def sel_own_def)
        qed
      qed
    qed
  qed
qed

lemma release_mirror:
  assumes "mirror_ok fn s" "ui' = cc_chess_drop x y (mi_ui s)"
  shows "mirror_ok fn (s \<lparr>mi_ui := ui', mi_cmds := mi_cmds s @ drop (length (u_posted (mi_ui s))) (u_posted ui')\<rparr>)"
proof (cases "mi_games s fn")
  case (Some g)
  let ?ui = "mi_ui s"
  obtain t where m: "cg_started g" "u_chess_self ?ui = cg_self_color g" "u_chess_fn ?ui = fn" "u_chess_started ?ui" "sel_own ?ui"
    "in_transit fn (cg_self_color g) (u_chess_board ?ui) (cg_board g) t (mi_cmds s) (mi_evs s)"
    using assms(1) Some by (auto simp: mirror_ok_def)
  from drop_cases [OF m(5), of x y] show ?thesis
  proof
    assume "\<exists>b r f. cc_chess_drop x y ?ui = ?ui \<lparr>u_chess_dragging := b, u_chess_sel_rank := r, u_chess_sel_file := f\<rparr> \<and> sel_own (cc_chess_drop x y ?ui)"
    then show ?thesis using assms(2) Some m by (auto simp: mirror_ok_def)
  next
    assume "\<exists>mv b'. ch_to_move (u_chess_board ?ui) = u_chess_self ?ui \<and> move_text mv (u_chess_board ?ui) b' \<and> u_chess_board (cc_chess_drop x y ?ui) = b' \<and>
      u_posted (cc_chess_drop x y ?ui) = u_posted ?ui @ [\<lparr>cmd_type = TT_CMD_CHESS_MOVE, cmd_fn = u_chess_fn ?ui, cmd_str = Some mv, cmd_ival = 0, cmd_ival2 = 0\<rparr>] \<and>
      u_chess_self (cc_chess_drop x y ?ui) = u_chess_self ?ui \<and> u_chess_fn (cc_chess_drop x y ?ui) = u_chess_fn ?ui \<and>
      u_chess_started (cc_chess_drop x y ?ui) = u_chess_started ?ui \<and> sel_own (cc_chess_drop x y ?ui)"
    then obtain mv where d: "ch_to_move (u_chess_board ?ui) = cg_self_color g" "move_text mv (u_chess_board ?ui) (u_chess_board ui')"
      "u_posted ui' = u_posted ?ui @ [\<lparr>cmd_type = TT_CMD_CHESS_MOVE, cmd_fn = fn, cmd_str = Some mv, cmd_ival = 0, cmd_ival2 = 0\<rparr>]"
      "u_chess_self ui' = cg_self_color g" "u_chess_fn ui' = fn" "u_chess_started ui'" "sel_own ui'"
      using assms(2) m by auto
    have "t = Settled" using m(6) d(1) by (cases t) (auto dest: move_text_turn)
    then have q: "mi_cmds s = []" "mi_evs s = []" "u_chess_board ?ui = cg_board g" using m(6) by simp_all
    have "in_transit fn (cg_self_color g) (u_chess_board ui') (cg_board g) (Down mv) (mi_cmds s @ drop (length (u_posted ?ui)) (u_posted ui')) (mi_evs s)"
      using d q by simp
    then have "\<exists>t. in_transit fn (cg_self_color g) (u_chess_board ui') (cg_board g) t (mi_cmds s @ drop (length (u_posted ?ui)) (u_posted ui')) (mi_evs s)"
      by blast
    then show ?thesis using Some m(1) d(4-7) by (simp add: mirror_ok_def)
  qed
qed (simp add: mirror_ok_def)

section \<open>The other side\<close>

lemma check_end_cases:
  assumes "fn < 256" "chess_check_end (games(fn \<mapsto> g)) fn g = (games', evs)"
  shows "games' fn = None \<or> (games' = games(fn \<mapsto> g) \<and> evs = [])"
  using assms by (auto simp: chess_check_end_def chess_end_def chess_free_def split: if_splits)

lemma cmd_move_cases:
  assumes "fn < 256" "games fn = Some g" "cg_started g" "ch_to_move (cg_board g) = cg_self_color g" "move_text mv (cg_board g) b'"
    "handle_cmd_chess_move ok games fn mv = (games', pkts, evs)"
  shows "games' fn = None \<or> (games' fn = Some (g \<lparr>cg_board := b'\<rparr>) \<and> evs = [])"
proof -
  obtain fr ff tr tf where mv: "length mv = 4" "tt_chess_parse_square [mv ! 0, mv ! 1] = Some (fr, ff)"
    "tt_chess_parse_square [mv ! 2, mv ! 3] = Some (tr, tf)" "tt_chess_move (cg_board g) fr ff tr tf = (True, b')"
    using assms(5) by (auto simp: move_text_def)
  let ?g = "g \<lparr>cg_board := b'\<rparr>"
  obtain sent ps where s: "chess_send ok TT_GAME_PACKET_DATA (cg_id ?g) [TT_CHESS_PKT_MOVE, mv ! 0, mv ! 1, mv ! 2, mv ! 3] = (sent, ps)" by fastforce
  have "(games', evs) = (if sent then chess_check_end (games(fn \<mapsto> ?g)) fn ?g else chess_end (games(fn \<mapsto> ?g)) fn 2 False)"
    using assms(1-4,6) mv s by (auto simp: handle_cmd_chess_move_def Let_def split_beta prod_eq_iff split: if_splits)
  then show ?thesis
    using assms(1) check_end_cases [OF assms(1), of games ?g games' evs] by (auto simp: chess_end_def chess_free_def split: if_splits)
qed

lemma packet_cases:
  assumes "fn < 256" "games fn = Some g" "cg_started g" "chess_rx games fn TT_GAME_PACKET_DATA d = (games', pkts, evs)"
  shows "games' fn = None \<or> (games' = games \<and> evs = []) \<or>
    (\<exists>mv b'. ch_to_move (cg_board g) \<noteq> cg_self_color g \<and> move_text mv (cg_board g) b' \<and> games' fn = Some (g \<lparr>cg_board := b'\<rparr>) \<and>
      evs = [(tt_event_new TT_EV_CHESS_MOVE) \<lparr>ev_fn := fn, ev_str := Some mv\<rparr>])"
proof -
  let ?mv = "[d ! 1, d ! 2, d ! 3, d ! 4]"
  consider (move) fr ff tr tf b' where "length d = 5" "hd d = TT_CHESS_PKT_MOVE" "tt_chess_parse_square [d ! 1, d ! 2] = Some (fr, ff)"
      "tt_chess_parse_square [d ! 3, d ! 4] = Some (tr, tf)" "ch_to_move (cg_board g) \<noteq> cg_self_color g" "tt_chess_move (cg_board g) fr ff tr tf = (True, b')"
    | (gone) "games' fn = None" | (same) "games' = games" "evs = []"
  proof -
    have r: "chess_rx games fn TT_GAME_PACKET_DATA d = (games', pkts, evs)" by (rule assms(4))
    show ?thesis
    proof (cases "hd d = TT_CHESS_PKT_MOVE \<and> length d = 5 \<and> tt_chess_parse_square [d ! 1, d ! 2] \<noteq> None \<and> tt_chess_parse_square [d ! 3, d ! 4] \<noteq> None \<and>
        ch_to_move (cg_board g) \<noteq> cg_self_color g \<and> fst (tt_chess_move (cg_board g) (fst (the (tt_chess_parse_square [d ! 1, d ! 2])))
          (snd (the (tt_chess_parse_square [d ! 1, d ! 2]))) (fst (the (tt_chess_parse_square [d ! 3, d ! 4]))) (snd (the (tt_chess_parse_square [d ! 3, d ! 4]))))")
      case True
      then obtain fr ff tr tf where sq: "tt_chess_parse_square [d ! 1, d ! 2] = Some (fr, ff)" "tt_chess_parse_square [d ! 3, d ! 4] = Some (tr, tf)" by auto
      have "tt_chess_move (cg_board g) fr ff tr tf = (True, snd (tt_chess_move (cg_board g) fr ff tr tf))" using True sq by (simp add: prod_eq_iff)
      then show ?thesis using move [OF _ _ sq] True by blast
    next
      case False
      then have "games' fn = None \<or> (games' = games \<and> evs = [])"
        using r assms(1-3) by (auto simp: chess_rx_def chess_rx_move_def chess_end_def chess_free_def split_beta split: if_splits option.splits)
      then show ?thesis using gone same by blast
    qed
  qed
  then show ?thesis
  proof cases
    case move
    let ?g = "g \<lparr>cg_board := b'\<rparr>"
    obtain gs es where ce: "chess_check_end (games(fn \<mapsto> ?g)) fn ?g = (gs, es)" by fastforce
    have "d \<noteq> []" using move(1) by auto
    then have "games' = gs" "evs = [(tt_event_new TT_EV_CHESS_MOVE) \<lparr>ev_fn := fn, ev_str := Some ?mv\<rparr>] @ es"
      using assms move ce by (auto simp: chess_rx_def chess_rx_move_def ev_simple_def push_simple_def Let_def tt_event_new_def)
    moreover have "move_text ?mv (cg_board g) b'" using move by (auto simp: move_text_def)
    ultimately show ?thesis using check_end_cases [OF assms(1) ce] move(5) by (intro disjCI) auto
  qed auto
qed

lemma event_up:
  assumes "ev_type e = TT_EV_CHESS_MOVE" "ev_fn e = u_chess_fn ui" "ev_str e = Some mv" "move_text mv (u_chess_board ui) b'"
    "ch_to_move (u_chess_board ui) \<noteq> u_chess_self ui"
  shows "handle_event X e ui = ui \<lparr>u_chess_board := b', u_chess_my_turn := (ch_to_move b' = u_chess_self ui)\<rparr>"
proof -
  obtain a b c d where "mv = [a, b, c, d]" using assms(4) by (auto simp: move_text_def length_Suc_conv numeral_eq_Suc)
  then show ?thesis using assms by (auto simp: handle_event_def on_chess_move_def move_text_def)
qed

lemma other_colour_turn: "ch_to_move b \<noteq> self \<Longrightarrow> move_text mv b b' \<Longrightarrow> ch_to_move b' = self"
  using move_text_turn [of mv b b'] by (cases self; cases "ch_to_move b") (simp_all add: other_color_def)

lemma mirror_step_ok:
  assumes "mirror_step fn s s'" "fn < 256" "mirror_ok fn s"
  shows "mirror_ok fn s'"
  using assms
proof (induction rule: mirror_step.induct)
  case (press s x y)
  then show ?case by (simp add: press_mirror)
next
  case (release ui' x y s)
  then show ?case by (simp add: release_mirror)
next
  case (command s c cs mv ok games' pkts evs)
  show ?case
  proof (cases "mi_games s fn")
    case None
    then have "games' fn = None"
      using command by (auto simp: handle_cmd_chess_move_def chess_end_def chess_check_end_def chess_free_def split_beta Let_def split: if_splits option.splits)
    then show ?thesis by (simp add: mirror_ok_def)
  next
    case (Some g)
    then obtain t where m: "cg_started g" "u_chess_self (mi_ui s) = cg_self_color g" "u_chess_fn (mi_ui s) = fn" "u_chess_started (mi_ui s)" "sel_own (mi_ui s)"
      "in_transit fn (cg_self_color g) (u_chess_board (mi_ui s)) (cg_board g) t (mi_cmds s) (mi_evs s)"
      using command.prems by (auto simp: mirror_ok_def)
    have t: "t = Down mv" "cs = []" "cmd_fn c = fn" using m(6) command.hyps by (cases t; auto)+
    then have d: "mi_evs s = []" "ch_to_move (cg_board g) = cg_self_color g" "move_text mv (cg_board g) (u_chess_board (mi_ui s))" using m(6) by simp_all
    have st: "\<exists>t. in_transit fn self b b t [] []" for self b by (rule exI [of _ Settled]) simp
    have "games' fn = None \<or> (games' fn = Some (g \<lparr>cg_board := u_chess_board (mi_ui s)\<rparr>) \<and> evs = [])"
      by (rule cmd_move_cases [where games = "mi_games s", OF command.prems(1) Some m(1) d(2,3)]) (use command.hyps(4) t(3) in simp)
    then show ?thesis using st t(2) d(1) m(1-5) by (auto simp: mirror_ok_def)
  qed
next
  case (packet s d games' pkts evs)
  show ?case
  proof (cases "mi_games s fn")
    case None
    then show ?thesis using packet by (auto simp: chess_rx_def mirror_ok_def split: if_splits)
  next
    case (Some g)
    then obtain t where m: "cg_started g" "u_chess_self (mi_ui s) = cg_self_color g" "u_chess_fn (mi_ui s) = fn" "u_chess_started (mi_ui s)" "sel_own (mi_ui s)"
      "in_transit fn (cg_self_color g) (u_chess_board (mi_ui s)) (cg_board g) t (mi_cmds s) (mi_evs s)"
      using packet.prems by (auto simp: mirror_ok_def)
    from packet_cases [OF packet.prems(1) Some m(1) packet.hyps] show ?thesis
    proof (elim disjE exE conjE)
      fix mv b'
      assume a: "ch_to_move (cg_board g) \<noteq> cg_self_color g" "move_text mv (cg_board g) b'" "games' fn = Some (g \<lparr>cg_board := b'\<rparr>)"
        "evs = [(tt_event_new TT_EV_CHESS_MOVE) \<lparr>ev_fn := fn, ev_str := Some mv\<rparr>]"
      have "t = Settled"
      proof (cases t)
        case (Up w)
        then have "ch_to_move (cg_board g) = cg_self_color g" using m(6) by (auto intro: other_colour_turn)
        then show ?thesis using a(1) by simp
      qed (use m(6) a(1) in auto)
      then have "in_transit fn (cg_self_color g) (u_chess_board (mi_ui s)) b' (Up mv) (mi_cmds s) (mi_evs s @ evs)"
        using m(6) a by (simp add: tt_event_new_def)
      then have "\<exists>t. in_transit fn (cg_self_color g) (u_chess_board (mi_ui s)) b' t (mi_cmds s) (mi_evs s @ evs)" by blast
      then show ?thesis using a(3) m(1-5) by (simp add: mirror_ok_def)
    qed (use packet.prems in \<open>simp_all add: mirror_ok_def\<close>)
  qed
next
  case (event s e es X)
  show ?case
  proof (cases "mi_games s fn")
    case (Some g)
    then obtain t where m: "cg_started g" "u_chess_self (mi_ui s) = cg_self_color g" "u_chess_fn (mi_ui s) = fn" "u_chess_started (mi_ui s)" "sel_own (mi_ui s)"
      "in_transit fn (cg_self_color g) (u_chess_board (mi_ui s)) (cg_board g) t (mi_cmds s) (mi_evs s)"
      using event.prems by (auto simp: mirror_ok_def)
    obtain mv where t: "t = Up mv" using m(6) event.hyps by (cases t) auto
    then have u: "mi_cmds s = []" "es = []" "ev_type e = TT_EV_CHESS_MOVE" "ev_fn e = fn" "ev_str e = Some mv"
      "ch_to_move (u_chess_board (mi_ui s)) \<noteq> cg_self_color g" "move_text mv (u_chess_board (mi_ui s)) (cg_board g)"
      using m(6) event.hyps by auto
    have h: "handle_event X e (mi_ui s) = (mi_ui s) \<lparr>u_chess_board := cg_board g, u_chess_my_turn := (ch_to_move (cg_board g) = u_chess_self (mi_ui s))\<rparr>"
      using event_up [OF u(3) _ u(5,7)] u(4,6) m(2,3) by simp
    have "sel_own (handle_event X e (mi_ui s))" unfolding h using m(2,5) other_colour_turn [OF u(6,7)] by (simp add: sel_own_def)
    moreover have "\<exists>t. in_transit fn (cg_self_color g) (cg_board g) (cg_board g) t [] []" by (rule exI [of _ Settled]) simp
    ultimately show ?thesis using Some m(1-4) h u(1,2) by (auto simp: mirror_ok_def)
  qed (simp add: mirror_ok_def)
qed

inductive mirror_reach :: "nat \<Rightarrow> mirror \<Rightarrow> mirror \<Rightarrow> bool" for fn s0 where
  start: "mirror_reach fn s0 s0"
| step: "mirror_reach fn s0 s \<Longrightarrow> mirror_step fn s s' \<Longrightarrow> mirror_reach fn s0 s'"


definition demo_mirror :: mirror where
  "demo_mirror = \<lparr>mi_ui = on_chess_start ((tt_event_new TT_EV_CHESS_START) \<lparr>ev_fn := 3, ev_ival := 1\<rparr>) ui_zero,
     mi_games = [3 \<mapsto> game_zero \<lparr>cg_board := tt_chess_init, cg_started := True\<rparr>], mi_cmds = [], mi_evs = []\<rparr>"


end
