(* ===== verification/UiProps.thy ===== *)
theory UiProps
  imports UiInv CallSafe
begin

text \<open>
  What the front end does with a message, a picture, an avatar and the stored history, and where its windows act on something
  else than they show.
\<close>

section \<open>Rows after an update\<close>

lemma find_upd_same: "(\<And>x. P x \<Longrightarrow> P (f x)) \<Longrightarrow> find P (upd_first P f xs) = map_option f (find P xs)"
  by (induction xs) auto

lemma find_upd_other: "(\<And>x. P x \<Longrightarrow> \<not> Q x \<and> \<not> Q (f x)) \<Longrightarrow> find Q (upd_first P f xs) = find Q xs"
  by (induction xs) auto

lemma list_ex_upd: "(\<And>x. Q (f x) = Q x) \<Longrightarrow> list_ex Q (upd_first P f xs) = list_ex Q xs"
  by (induction xs) auto

definition row_kept :: "(Contact \<Rightarrow> Contact) \<Rightarrow> bool" where
  "row_kept f \<longleftrightarrow> (\<forall>c. ct_fn (f c) = ct_fn c \<and> ct_is_request (f c) = ct_is_request c \<and> ct_name (f c) = ct_name c \<and> ct_status_msg (f c) = ct_status_msg c)"

lemma contact_by_fn_upd:
  assumes "row_kept f"
  shows "contact_by_fn (upd_contact fn f ui) fn' = (if fn' = fn then map_option f (contact_by_fn ui fn) else contact_by_fn ui fn')"
proof (cases "fn' = fn")
  case True
  then show ?thesis using assms by (auto simp: contact_by_fn_def upd_contact_def row_kept_def is_friend_def intro!: find_upd_same)
next
  case False
  have "find (is_friend fn') (upd_first (is_friend fn) f (u_contacts ui)) = find (is_friend fn') (u_contacts ui)"
    by (rule find_upd_other) (use assms False in \<open>auto simp: row_kept_def is_friend_def\<close>)
  then show ?thesis using False by (simp add: contact_by_fn_def upd_contact_def)
qed

lemma have_keep_upd [simp]: "row_kept f \<Longrightarrow> have_keep (upd_contact fn f ui) = have_keep ui"
  by (cases "u_sel_kind ui")
    (simp_all add: have_keep_def upd_contact_def contact_listed_def group_listed_def is_friend_def row_kept_def list_ex_upd)

lemma upd_contact_rest [simp]:
  "u_sel_kind (upd_contact fn f ui) = u_sel_kind ui" "u_sel_fn (upd_contact fn f ui) = u_sel_fn ui" "u_hist (upd_contact fn f ui) = u_hist ui"
  "u_groups (upd_contact fn f ui) = u_groups ui" "chat_open (upd_contact fn f ui) fn' = chat_open ui fn'"
  by (simp_all add: upd_contact_def chat_open_def)

lemma row_kept_simps [simp]: "row_kept (chat_append X who me text)" "row_kept (\<lambda>c. c \<lparr>ct_unread := k c\<rparr>)" "row_kept (\<lambda>c. c \<lparr>ct_peer_typing := b\<rparr>)"
  by (simp_all add: row_kept_def chat_append_def split: prod.splits)

lemma have_keep_hist [simp]: "have_keep (ui \<lparr>u_hist := h\<rparr>) = have_keep ui"
  by (simp add: have_keep_def contact_listed_def group_listed_def cong: SelKind.case_cong)

lemma contact_by_fn_hist [simp]: "contact_by_fn (ui \<lparr>u_hist := h\<rparr>) fn = contact_by_fn ui fn"
  by (simp add: contact_by_fn_def)

lemma roster_render_kept: "have_keep ui \<or> u_sel_kind ui = TT_SEL_NONE \<Longrightarrow> roster_render ui = ui"
  by (simp add: roster_render_def)

section \<open>Messages\<close>


definition demo_message :: TTEvent where
  "demo_message = (tt_event_new TT_EV_FRIEND_MESSAGE) \<lparr>ev_fn := 3, ev_str := Some [104]\<rparr>"


section \<open>Stored history\<close>

lemma hist_map_entry:
  assumes "e \<in> set es" "he_key e = Some k" "he_transcript e = Some t" "k \<noteq> []" "t \<noteq> []" "distinct (map he_key es)"
    "\<forall>e \<in> set es. he_key e \<noteq> None"
  shows "hist_map es k = Some t"
proof -
  let ?fs = "filter hist_ok es"
  have ok: "hist_ok e" using assms(2-5) by (simp add: hist_ok_def hist_entry_def)
  have d: "distinct (map he_key ?fs)" using assms(6) by (simp add: distinct_map_filter)
  have "None \<notin> he_key ` set ?fs" using assms(7) by force
  then have "inj_on the (he_key ` set ?fs)" by (metis inj_onI option.expand)
  then have "distinct (map the (map he_key ?fs))" using d by (simp only: distinct_map set_map)
  then have "distinct (map fst (map (\<lambda>e. (the (he_key e), the (he_transcript e))) ?fs))" by (simp add: comp_def)
  moreover have "(k, t) \<in> set (map (\<lambda>e. (the (he_key e), the (he_transcript e))) ?fs)" using assms(1-3) ok by force
  ultimately show ?thesis unfolding hist_map_def by (rule map_of_is_SomeI)
qed

text \<open>C33: Chats survive a restart: what the front end saves when it is closed is what the next run shows.  Every friend whose key is known
  and whose transcript is not empty has that transcript again once the next run's friend list is complete, if the files can be
  written and read, the keys differ and the history setting is on.\<close>

theorem chats_survive_restart:
  assumes "ui_reach ui" "c \<in> set (u_contacts ui)" "ct_transcript c \<noteq> []" "ct_pubkey_hex c \<noteq> []" "0 \<notin> set (ct_transcript c)"
    "u_history ui" "x_profile X = Some p" "x_alloc X" "\<And>i. x_io X i" "toxes_ok (x_toxes X)" "distinct (map he_key (history_entries ui))"
    "length (hist_content (history_entries ui)) + 80 \<le> 8 * 1024 * 1024"
    "x_key X = None \<Longrightarrow> \<not> te_is_encrypted (x_toxes X) (hist_content (history_entries ui))"
    "X' = X \<lparr>x_disk := snd (ui_exit X ui d)\<rparr>" "u_history ui2" "c2 \<in> set (u_contacts ui2)" "\<not> ct_is_request c2" "ct_pubkey_hex c2 = ct_pubkey_hex c"
  shows "\<exists>c3 \<in> set (u_contacts (on_friend_list_end X' ui2)). ct_fn c3 = ct_fn c2 \<and> ct_transcript c3 = ct_transcript c"
proof -
  let ?es = "history_entries ui" and ?e = "\<lparr>he_key = Some (ct_pubkey_hex c), he_transcript = Some (ct_transcript c)\<rparr>"
  have ok: "contact_ok c" using ui_reach_ok [OF assms(1)] assms(2) by (auto simp: ui_ok_def contacts_ok_def list_all_iff)
  have e: "?e \<in> set ?es" using assms(2-4) by (auto simp: history_entries_def contact_hist_key_def)
  have "\<forall>e \<in> set ?es. he_key e \<noteq> None" by (auto simp: history_entries_def)
  then have m: "hist_map ?es (ct_pubkey_hex c) = Some (ct_transcript c)" using hist_map_entry [OF e] assms(3,4,11) by simp
  have "x_disk X' = snd (tt_hist_save (x_toxes X) (x_io X) (x_profile X) (x_key X) ?es d)"
    using assms(6-8,14) e by (auto simp: ui_exit_def history_save_def)
  then have l: "tt_hist_load (x_toxes X) (x_io X) (x_profile X) (x_key X) (Some (ct_pubkey_hex c)) TT_TRANSCRIPT_MAX (x_disk X') = Some (ct_transcript c)"
    using history_reload(2) [of "x_toxes X" "x_io X" "x_io X" TT_TRANSCRIPT_MAX ?es "x_key X" "x_profile X" "ct_pubkey_hex c" d] assms(9,10,12,13) m ok
    by (simp add: contact_ok_def)
  have z: "c_str (ct_transcript c) = ct_transcript c" using assms(5) by (auto simp: c_str_def takeWhile_eq_all_conv)
  have "hist_lookup_row X' (contact_hist_key c2) = Some (ct_transcript c)"
    using l z ok assms(4,14,18) by (simp add: hist_lookup_row_def contact_hist_key_def contact_ok_def)
  then have "ct_transcript (history_load_contact X' c2) = ct_transcript c" "ct_fn (history_load_contact X' c2) = ct_fn c2"
    by (simp_all add: history_load_contact_def)
  moreover have "history_load_contact X' c2 \<in> set (u_contacts (on_friend_list_end X' ui2))"
    using assms(7,14-17) by (force simp: on_friend_list_end_def Let_def roster_render_def show_none_def)
  ultimately show ?thesis by blast
qed

definition demo_profile_env :: uenv where
  "demo_profile_env = demo_uenv \<lparr>x_profile := Some ''p'', x_key := Some [1]\<rparr>"

definition demo_pubkey :: TTEvent where
  "demo_pubkey = (tt_event_new TT_EV_FRIEND_PUBKEY) \<lparr>ev_fn := 3, ev_str := Some [66, 66]\<rparr>"

text \<open>The history is switched on, friend 3 appears; then a message arrives.\<close>

definition demo_known :: Ui where
  "demo_known = handle_event demo_uenv demo_pubkey (handle_event demo_uenv (demo_name 3)
     (fst (cc_st_hist demo_profile_env True (cc_st_open (ui_run demo_uenv)) Map.empty)))"

definition demo_told :: Ui where
  "demo_told = handle_event demo_uenv demo_message demo_known"

lemma demo_known_eq: "demo_known = (ui_run demo_uenv) \<lparr>u_st_open := True, u_history := True,
    u_contacts := [contact_zero \<lparr>ct_fn := 3, ct_name := [65], ct_pubkey_hex := [66, 66]\<rparr>]\<rparr>"
proof -
  have "fst (cc_st_hist demo_profile_env True (cc_st_open (ui_run demo_uenv)) Map.empty) = (ui_run demo_uenv) \<lparr>u_st_open := True, u_history := True\<rparr>"
    by (simp add: cc_st_hist_def cc_st_open_def demo_profile_env_def demo_uenv_def tt_settings_store_history_def settings_write_def Let_def)
  then show ?thesis
    unfolding demo_known_def
    by (simp add: handle_event_def demo_name_def demo_pubkey_def tt_event_new_def on_friend_name_def on_friend_pubkey_def friend_row_def contact_get_def
        contact_by_fn_def ui_run_def ui_zero_def demo_uenv_def contact_add_def upd_contact_def is_friend_def contact_zero_def copy_str_def c_str_def
        roster_render_def refresh_open_def chat_open_def)
qed

lemma demo_told_reach: "ui_reach demo_told"
  unfolding demo_told_def demo_known_def
  by (intro ui_reach.step [OF _ ui_step.event] ui_reach.step [OF _ ui_step.st_hist] ui_reach.step [OF _ ui_step.st_open] ui_reach.start)
    (simp_all add: demo_name_def demo_pubkey_def demo_message_def)

lemma demo_told_eq: "demo_told = demo_known \<lparr>u_contacts := [contact_zero \<lparr>ct_fn := 3, ct_name := [65], ct_pubkey_hex := [66, 66],
    ct_transcript := [49, 31, 48, 31, 65, 31, 104, 10], ct_last := [104], ct_unread := 1\<rparr>]\<rparr>"
  unfolding demo_told_def
  by (simp add: demo_known_eq handle_event_def demo_message_def tt_event_new_def on_friend_message_def friend_row_def contact_get_def contact_by_fn_def
      ui_run_def ui_zero_def demo_uenv_def upd_contact_def is_friend_def contact_zero_def copy_str_def c_str_def roster_render_def display_name_def
      or_default_def show_or_count_def chat_append_def chat_open_def transcript_append_def transcript_line_def drop_lines.simps Let_def)

theorem chats_survive_restart_witness:
  "\<exists>c \<in> set (u_contacts (on_friend_list_end (demo_profile_env \<lparr>x_disk := snd (ui_exit demo_profile_env demo_told Map.empty)\<rparr>) demo_known)).
     ct_fn c = 3 \<and> ct_transcript c = [49, 31, 48, 31, 65, 31, 104, 10]"
proof -
  let ?c = "contact_zero \<lparr>ct_fn := 3, ct_name := [65], ct_pubkey_hex := [66, 66], ct_transcript := [49, 31, 48, 31, 65, 31, 104, 10], ct_last := [104],
    ct_unread := 1\<rparr>"
  let ?c2 = "contact_zero \<lparr>ct_fn := 3, ct_name := [65], ct_pubkey_hex := [66, 66]\<rparr>"
  have es: "history_entries demo_told = [\<lparr>he_key = Some [66, 66], he_transcript = Some (ct_transcript ?c)\<rparr>]"
    by (simp add: demo_told_eq demo_known_eq history_entries_def contact_hist_key_def contact_zero_def ui_run_def ui_zero_def)
  have fits: "length (hist_content (history_entries demo_told)) + 80 \<le> 8 * 1024 * 1024"
    by (simp add: es hist_content_def hist_entry_def hist_magic_def print_u.simps)
  have dist: "distinct (map he_key (history_entries demo_told))" by (simp add: es)
  have hist: "u_history demo_told" "u_history demo_known" by (simp_all add: demo_told_eq demo_known_eq)
  have "\<exists>c3 \<in> set (u_contacts (on_friend_list_end (demo_profile_env \<lparr>x_disk := snd (ui_exit demo_profile_env demo_told Map.empty)\<rparr>) demo_known)).
     ct_fn c3 = ct_fn ?c2 \<and> ct_transcript c3 = ct_transcript ?c"
    by (rule chats_survive_restart [where p = "''p''", OF demo_told_reach _ _ _ _ hist(1) _ _ _ _ dist fits _ refl hist(2)])
      (simp_all add: es demo_told_eq demo_known_eq demo_profile_env_def demo_uenv_def contact_zero_def toy_toxes_ok)
  then show ?thesis by simp
qed

section \<open>Pictures\<close>

lemma those_Some: "(\<And>x. x \<in> set xs \<Longrightarrow> f x \<noteq> None) \<Longrightarrow> those (map f xs) = Some (map (\<lambda>x. the (f x)) xs)"
proof (induction xs)
  case (Cons x xs)
  then obtain y where "f x = Some y" by (meson list.set_intros(1) not_None_eq)
  then show ?case using Cons by simp
qed simp

lemma chroma_index:
  assumes "j < h" "i < (w :: nat)"
  shows "(j div 2) * (w div 2) + i div 2 < ((w + 1) div 2) * ((h + 1) div 2)"
proof -
  have "(j div 2) * (w div 2) + i div 2 < (j div 2 + 1) * ((w + 1) div 2)"
  proof -
    have "(j div 2) * (w div 2) \<le> (j div 2) * ((w + 1) div 2)" by simp
    moreover have "i div 2 < (w + 1) div 2" using assms(2) by simp
    ultimately show ?thesis by (simp only: add_mult_distrib mult_1)
  qed
  also have "\<dots> \<le> ((h + 1) div 2) * ((w + 1) div 2)" using assms(1) by (intro mult_right_mono) auto
  finally show ?thesis by (simp add: mult.commute)
qed

lemma painted:
  assumes "w * h + 2 * (((w + 1) div 2) * ((h + 1) div 2)) \<le> length fr"
  shows "\<exists>rgb. video_yuv_to_rgb fr w h = Some rgb \<and> length rgb = 4 * (w * h)"
proof -
  let ?ps = "List.product [0..<h] [0..<w]" and ?f = "\<lambda>(j, i). yuv_pixel fr w h j i"
  have px: "?f ji \<noteq> None \<and> length (the (?f ji)) = 4" if mem: "ji \<in> set ?ps" for ji
  proof -
    obtain j i where ji: "ji = (j, i)" "j < h" "i < w" using mem by auto
    let ?k = "(j div 2) * (w div 2) + i div 2"
    have k: "?k < ((w + 1) div 2) * ((h + 1) div 2)" by (rule chroma_index [OF ji(2,3)])
    have "j * w + i < Suc j * w" using ji(3) by simp
    also have "\<dots> \<le> h * w" using ji(2) by (intro mult_right_mono) auto
    finally have "j * w + i < w * h" by (simp add: mult.commute)
    moreover have "(w div 2) * (h div 2) \<le> ((w + 1) div 2) * ((h + 1) div 2)" by (intro mult_mono) auto
    ultimately have "j * w + i < length fr" "w * h + ?k < length fr" "w * h + (w div 2) * (h div 2) + ?k < length fr"
      using assms k by linarith+
    then show ?thesis by (simp add: ji(1) yuv_pixel_def rd_def Let_def)
  qed
  then have "those (map ?f ?ps) = Some (map (\<lambda>x. the (?f x)) ?ps)" by (intro those_Some) blast
  moreover have "length (concat (map (\<lambda>x. the (?f x)) ?ps)) = 4 * (w * h)"
  proof -
    have "map length (map (\<lambda>x. the (?f x)) ?ps) = map (\<lambda>_. 4) ?ps" using px by (simp add: comp_def)
    then show ?thesis by (simp add: length_concat sum_list_replicate map_replicate_const)
  qed
  ultimately show ?thesis by (simp add: video_yuv_to_rgb_def)
qed

text \<open>C36: Painting a received picture never reads outside the stored frame: a picture that the receiving side accepts, whatever its size and
  strides, is converted to exactly four bytes per pixel of the pane, odd sizes included.\<close>

theorem received_picture_painted:
  assumes "rx_accepts w h ys us vs" "ev_str e = Some fr" "length fr = rx_payload h (nat ys) (nat us) (nat vs)" "length fr \<le> 460800"
    "ev_ival e = int w" "ev_ival2 e = int h" "x_alloc X" "ui_reach ui" "ui' = video_frame_take X e ui"
  shows "\<exists>rgb. video_yuv_to_rgb (u_video_frame ui') (u_video_w ui') (u_video_h ui') = Some rgb \<and> length rgb = 4 * (u_video_w ui' * u_video_h ui')"
proof -
  have a: "w \<le> nat ys" "(w + 1) div 2 \<le> nat us" "(w + 1) div 2 \<le> nat vs" "h \<noteq> 0" "w \<noteq> 0" using assms(1) by (simp_all add: rx_accepts_def)
  let ?w = "w mod 2 ^ 16" and ?h = "h mod 2 ^ 16"
  have m: "?w \<le> w" "?h \<le> h" by simp_all
  have "?w * ?h \<le> nat ys * h" using m a(1) by (intro mult_mono) auto
  moreover have "((?w + 1) div 2) * ((?h + 1) div 2) \<le> nat us * ((h + 1) div 2)"
    using m a(2) by (intro mult_mono) (auto intro: order_trans [OF div_le_mono])
  moreover have "((?w + 1) div 2) * ((?h + 1) div 2) \<le> nat vs * ((h + 1) div 2)"
    using m a(3) by (intro mult_mono) (auto intro: order_trans [OF div_le_mono])
  ultimately have need: "?w * ?h + 2 * (((?w + 1) div 2) * ((?h + 1) div 2)) \<le> length fr" unfolding assms(3) rx_payload_def by linarith
  have "nat ys * h \<noteq> 0" using a by simp
  then have "fr \<noteq> []" using assms(3) by (auto simp: rx_payload_def)
  then have f: "u_video_frame ui' = fr @ drop (length fr) (u_video_frame ui)" "u_video_w ui' = ?w" "u_video_h ui' = ?h"
    using assms(2,4-7,9) by (simp_all add: video_frame_take_def Let_def nat_mod_distrib)
  show ?thesis unfolding f(2,3) by (rule painted) (use need f(1) in simp)
qed

theorem received_picture_painted_witness:
  "\<exists>rgb. video_yuv_to_rgb [1, 2, 3, 4, 5, 6] 2 2 = Some rgb \<and> length rgb = 16"
proof -
  let ?e = "(tt_event_new TT_EV_AV_FRAME) \<lparr>ev_str := Some [1, 2, 3, 4, 5, 6], ev_ival := 2, ev_ival2 := 2\<rparr>"
  have v: "u_video_frame (video_frame_take demo_uenv ?e (ui_run demo_uenv)) = [1, 2, 3, 4, 5, 6]"
    "u_video_w (video_frame_take demo_uenv ?e (ui_run demo_uenv)) = 2" "u_video_h (video_frame_take demo_uenv ?e (ui_run demo_uenv)) = 2"
    by (simp_all add: video_frame_take_def ui_run_def ui_zero_def demo_uenv_def tt_event_new_def)
  have "\<exists>rgb. video_yuv_to_rgb (u_video_frame (video_frame_take demo_uenv ?e (ui_run demo_uenv))) (u_video_w (video_frame_take demo_uenv ?e (ui_run demo_uenv)))
      (u_video_h (video_frame_take demo_uenv ?e (ui_run demo_uenv))) = Some rgb \<and>
    length rgb = 4 * (u_video_w (video_frame_take demo_uenv ?e (ui_run demo_uenv)) * u_video_h (video_frame_take demo_uenv ?e (ui_run demo_uenv)))"
    by (rule received_picture_painted [where fr = "[1, 2, 3, 4, 5, 6]" and w = 2 and h = 2 and ys = 2 and us = 1 and vs = 1, OF _ _ _ _ _ _ _ ui_reach.start refl])
      (simp_all add: rx_accepts_def rx_payload_def demo_uenv_def)
  then show ?thesis unfolding v by simp
qed

end
