(* ===== verification/UiView.thy ===== *)
theory UiView
  imports UiProps
begin

text \<open>
  What the front end draws, \<^verbatim>\<open>src/src/ui/ui_tk.c\<close>: the rows of the roster, the header of a chat with its call
  buttons, the badge, the board of a game, the panel of tunnels and the members of a group.  A drawing is the list of the
  items given to Tk, with their texts, identifiers and commands; the buttons of the header keep their
  label and state between two drawings, so the header is a state.
\<close>

section \<open>Words for states\<close>

definition presence_str :: "int \<Rightarrow> int \<Rightarrow> bytes" where
  "presence_str presence conn =
     ascii (if conn = 0 then ''offline'' else if presence = 1 then ''away'' else if presence = 2 then ''busy'' else ''online'')"

definition presence_dot :: "int \<Rightarrow> int \<Rightarrow> nat" where
  "presence_dot presence conn = (if conn = 0 then 3 else if presence = 1 then 1 else if presence = 2 then 2 else 0)"

definition presence_color :: "int \<Rightarrow> int \<Rightarrow> string" where
  "presence_color presence conn = [''#6BC260'', ''#CDBE41'', ''#C84E4E'', ''#969696''] ! presence_dot presence conn"

definition conn_str :: "int \<Rightarrow> bytes" where
  "conn_str conn = ascii (if conn = 0 then ''offline'' else if conn = 1 then ''online (tcp)'' else if conn = 2 then ''online'' else ''?'')"

definition role_str :: "int \<Rightarrow> bytes" where
  "role_str role =
     ascii (if role = TOX_GROUP_ROLE_FOUNDER then ''founder'' else if role = TOX_GROUP_ROLE_MODERATOR then ''moderator''
            else if role = TOX_GROUP_ROLE_USER then ''user'' else if role = TOX_GROUP_ROLE_OBSERVER then ''observer'' else ''?'')"

definition dot :: bytes where
  "dot = [32, 32, 0xc2, 0xb7, 32, 32]"

text \<open>A call without sound in either direction is shown as paused.\<close>

definition no_audio :: "Contact \<Rightarrow> bool" where
  "no_audio c \<longleftrightarrow> \<not> (bit (ct_call_state c) 2 \<or> bit (ct_call_state c) 4)"

section \<open>The roster\<close>

record roster_row =
  rr_iid :: bytes
  rr_text :: bytes
  rr_image :: bytes
  rr_tags :: bytes

definition friend_iid :: "nat \<Rightarrow> bytes" where
  "friend_iid fn = 102 # print_u fn"

definition group_iid :: "nat \<Rightarrow> bytes" where
  "group_iid gn = 103 # print_u gn"

definition contact_sub :: "Contact \<Rightarrow> bytes" where
  "contact_sub c =
     take (TOX_MAX_STATUS_MESSAGE_LENGTH + TT_LAST_MAX + 63)
       (if ct_last c \<noteq> [] then ct_last c @ dot @ presence_str (ct_presence c) (ct_conn c)
        else if ct_status_msg c \<noteq> [] then ct_status_msg c else presence_str (ct_presence c) (ct_conn c))"

definition callmark :: "Contact \<Rightarrow> bytes" where
  "callmark c =
     (if ct_call_active c then (if no_audio c then [32, 0xe2, 0x8f, 0xb8] else [32, 0xf0, 0x9f, 0x93, 0x9e])
      else if ct_call_ringing c \<or> ct_call_incoming c then [32, 0xf0, 0x9f, 0x94, 0x94] else [])"

definition contact_text :: "Contact \<Rightarrow> bytes" where
  "contact_text c =
     take (TT_NAME_MAX + TOX_MAX_STATUS_MESSAGE_LENGTH + TT_LAST_MAX + 127)
       (let name = or_default (ct_name c) ''unknown'' @ (if ct_e2ee c then [32, 0xf0, 0x9f, 0x94, 0x92] else []) @ callmark c in
        if ct_unread c > 0 then name @ ascii '' ('' @ print_u (ct_unread c) @ ascii '')''
        else if ct_last c \<noteq> [] \<and> contact_all_read c then [0xe2, 0x9c, 0x93, 32] @ name @ [10] @ contact_sub c
        else name @ [10] @ contact_sub c)"

definition contact_row :: "Contact \<Rightarrow> roster_row" where
  "contact_row c =
     (if ct_is_request c then \<lparr>rr_iid = ascii ''req'', rr_text = ascii ''+ friend request'', rr_image = [], rr_tags = []\<rparr>
      else \<lparr>rr_iid = friend_iid (ct_fn c), rr_text = contact_text c,
            rr_image = ascii ''pdot'' @ print_u (presence_dot (ct_presence c) (ct_conn c)),
            rr_tags = (if ct_unread c > 0 then ascii ''unread'' else [])\<rparr>)"

definition group_text :: "Group \<Rightarrow> bytes" where
  "group_text g =
     (let sub = take (TT_LAST_MAX + TOX_GROUP_MAX_TOPIC_LENGTH + 47)
            (if gr_last g \<noteq> [] then gr_last g @ dot @ ascii (if gr_privacy g \<noteq> 0 then ''private'' else ''public'')
             else if gr_topic g \<noteq> [] then gr_topic g
             else ascii (if gr_privacy g \<noteq> 0 then ''private group'' else ''public group''));
          name = or_default (gr_name g) ''group''
      in take (TT_NAME_MAX + TT_LAST_MAX + TOX_GROUP_MAX_TOPIC_LENGTH + 79)
           (if gr_unread g > 0 then name @ ascii '' ('' @ print_u (gr_unread g) @ ascii '')'' @ [10] @ sub else name @ [10] @ sub))"

definition group_row :: "Group \<Rightarrow> roster_row" where
  "group_row g = \<lparr>rr_iid = group_iid (gr_gn g), rr_text = group_text g, rr_image = ascii ''gdot'', rr_tags = []\<rparr>"

definition gheads_row :: roster_row where
  "gheads_row = \<lparr>rr_iid = ascii ''gheads'', rr_text = ascii ''GROUPS'', rr_image = [], rr_tags = ascii ''ghead''\<rparr>"

text \<open>The rows in their order; the header of the groups only if one is listed.\<close>

definition roster_rows :: "Ui \<Rightarrow> roster_row list" where
  "roster_rows ui =
     map contact_row (filter (\<lambda>c. ct_is_request c \<or> contact_listed ui c) (u_contacts ui)) @
     (let gs = filter (group_listed ui) (u_groups ui) in (if gs = [] then [] else gheads_row # map group_row gs))"

section \<open>The header of a chat\<close>

datatype call_button = BCall | BPause | BMute | BDeaf | BCam | BSelf | BAnsw | BDecl

record chead =
  h_packed :: "call_button list"
  h_label :: "call_button \<Rightarrow> bytes"
  h_enabled :: "call_button \<Rightarrow> bool"
  h_avatar :: bytes

definition put_button :: "call_button \<Rightarrow> bytes \<Rightarrow> chead \<Rightarrow> chead" where
  "put_button b l h = h \<lparr>h_packed := h_packed h @ [b], h_label := (h_label h)(b := l)\<rparr>"

definition set_button :: "call_button \<Rightarrow> bool \<Rightarrow> chead \<Rightarrow> chead" where
  "set_button b on h = h \<lparr>h_enabled := (h_enabled h)(b := on)\<rparr>"

definition chead_avatar_render :: "Contact option \<Rightarrow> chead \<Rightarrow> chead" where
  "chead_avatar_render c h = h \<lparr>h_avatar := (case c of Some c \<Rightarrow> ct_avatar_img c | None \<Rightarrow> [])\<rparr>"

definition chead_call_render_off :: "chead \<Rightarrow> chead" where
  "chead_call_render_off h = h \<lparr>h_packed := []\<rparr>"

definition icon :: "byte list \<Rightarrow> string \<Rightarrow> bytes" where
  "icon e t = e @ 32 # ascii t"

definition incoming_buttons :: "Contact \<Rightarrow> chead \<Rightarrow> chead" where
  "incoming_buttons c h =
     put_button BDecl (icon [0xe2, 0x9c, 0x96] ''Decline'') (set_button BDecl True
       (put_button BAnsw (icon [0xe2, 0x9c, 0x85] ''Answer'') (set_button BAnsw True
         (put_button BSelf (icon [0xf0, 0x9f, 0x93, 0xb9] ''Video'') (set_button BSelf (ct_call_video c) h)))))"

definition pause_button :: "Contact \<Rightarrow> chead \<Rightarrow> chead" where
  "pause_button c h =
     (if no_audio c \<and> \<not> ct_call_paused_self c
      then put_button BPause (icon [0xe2, 0x8f, 0xb8] ''Peer paused'') (set_button BPause False h)
      else put_button BPause (if no_audio c then icon [0xe2, 0x96, 0xb6] ''Resume'' else icon [0xe2, 0x8f, 0xb8] ''Pause'')
             (set_button BPause True h))"

definition active_buttons :: "Ui \<Rightarrow> Contact \<Rightarrow> chead \<Rightarrow> chead" where
  "active_buttons ui c h =
     (let h1 = pause_button c (put_button BCall (icon [0xf0, 0x9f, 0x93, 0xb5] ''Hang up'') h);
          h2 = put_button BMute (icon [0xf0, 0x9f, 0x8e, 0xa4] (if ct_call_muted c then ''Unmute'' else ''Mute'')) h1;
          h3 = (if no_audio c then h2 else put_button BCam (icon [0xf0, 0x9f, 0x93, 0xb7] (if ct_call_cam c then ''Stop cam'' else ''Camera'')) h2);
          h4 = put_button BDeaf (if ct_call_deaf c then icon [0xf0, 0x9f, 0x94, 0x87] ''Unmute out'' else icon [0xf0, 0x9f, 0x94, 0x8a] ''Mute out'') h3
      in if (ct_call_video c \<or> ct_call_cam c) \<and> \<not> no_audio c
         then put_button BSelf (icon [0xf0, 0x9f, 0x94, 0x84] (if u_video_self ui then ''Show peer'' else ''Show self'')) h4 else h4)"

definition chead_call_render :: "Ui \<Rightarrow> Contact \<Rightarrow> chead \<Rightarrow> chead" where
  "chead_call_render ui c h =
     (if \<not> chat_open ui (ct_fn c) then h
      else
        let h1 = chead_avatar_render (Some c) (h \<lparr>h_packed := []\<rparr>) in
        if ct_call_incoming c then incoming_buttons c h1
        else if ct_call_active c then active_buttons ui c h1
        else if ct_call_ringing c then put_button BCall (icon [0xf0, 0x9f, 0x93, 0xb5] ''Cancel'') h1
        else put_button BCall (icon [0xf0, 0x9f, 0x93, 0x9e] ''Call'') h1)"

text \<open>The commands that the buttons were made with.\<close>

fun press :: "uenv \<Rightarrow> call_button \<Rightarrow> Ui \<Rightarrow> Ui" where
  "press X BCall = cc_av_call X"
| "press X BPause = cc_av_pause X"
| "press X BMute = cc_av_mute"
| "press X BDeaf = cc_av_deaf"
| "press X BCam = cc_av_cam"
| "press X BSelf = cc_av_self"
| "press X BAnsw = cc_av_answer"
| "press X BDecl = cc_av_decline"

text \<open>The duration of the call; the clock does not go back.\<close>

definition call_tick :: "uenv \<Rightarrow> Contact \<Rightarrow> bytes option" where
  "call_tick X c =
     (if \<not> ct_call_active c \<or> ct_call_started c = 0 then None
      else
        let s = nat (uenv.x_now X - ct_call_started c)
        in Some (take 39 (print_u (s div 60) @ [58] @ print_02 (s mod 60) @ ascii (if no_audio c then '' paused'' else '' on call''))))"

text \<open>The line below the name: what the friend does, the state of the call, or the status.\<close>

definition status_line :: "Contact \<Rightarrow> bytes" where
  "status_line c = (if ct_status_msg c \<noteq> [] then ct_status_msg c else conn_str (ct_conn c))"

definition chead_typing_render :: "Ui \<Rightarrow> Contact \<Rightarrow> bytes \<Rightarrow> bytes" where
  "chead_typing_render ui c old =
     (if \<not> chat_open ui (ct_fn c) then old else if ct_peer_typing c then ascii ''is typing...'' else status_line c)"

definition badge_name :: "Ui \<Rightarrow> bytes" where
  "badge_name ui = take 135 ((if u_tor_mode ui then [0xf0, 0x9f, 0xa7, 0x85, 32] else []) @ or_default (u_self_name ui) ''unnamed'')"

section \<open>The board\<close>

definition chess_piece_glyph :: "TTPiece \<Rightarrow> bytes" where
  "chess_piece_glyph p =
     (let g = (\<lambda>w b. [0xe2, 0x99, if pc_color p = TT_COLOR_WHITE then w else b]) in
      case pc_type p of
        TT_PIECE_PAWN \<Rightarrow> g 0x99 0x9f
      | TT_PIECE_ROOK \<Rightarrow> g 0x96 0x9c
      | TT_PIECE_KNIGHT \<Rightarrow> g 0x98 0x9e
      | TT_PIECE_BISHOP \<Rightarrow> g 0x97 0x9d
      | TT_PIECE_QUEEN \<Rightarrow> g 0x95 0x9b
      | TT_PIECE_KING \<Rightarrow> g 0x94 0x9a
      | TT_PIECE_NONE \<Rightarrow> [])"

datatype board_item = Square int int string | Glyph int int bytes string | Selected int int

definition board_square :: "TTChess \<Rightarrow> int \<Rightarrow> int \<Rightarrow> board_item list" where
  "board_square g r f =
     (let x = f * 40; y = (7 - r) * 40; p = ch_board g r f; glyph = chess_piece_glyph p
      in Square x y (if (r + f) mod 2 = 0 then ''#F0D9B5'' else ''#B58863'') #
         (if glyph = [] then [] else [Glyph (x + 20) (y + 20) glyph (if pc_color p = TT_COLOR_WHITE then ''#FFFFFF'' else ''#000000'')]))"

definition board_items :: "Ui \<Rightarrow> board_item list" where
  "board_items ui =
     concat (map (\<lambda>(r, f). board_square (u_chess_board ui) r f) (List.product [0..7] [0..7])) @
     (if u_chess_sel_rank ui \<ge> 0 then [Selected (u_chess_sel_file ui * 40) ((7 - u_chess_sel_rank ui) * 40)] else [])"

definition chess_status :: "Ui \<Rightarrow> bytes" where
  "chess_status ui =
     (let dash = (\<lambda>a b. ascii a @ [0xe2, 0x80, 0x94] @ ascii b) in
      if \<not> u_chess_started ui then ascii ''Waiting for opponent...''
      else case ch_status (u_chess_board ui) of
        TT_CHESS_CHECKMATE \<Rightarrow> dash ''Checkmate '' (if ch_winner (u_chess_board ui) = u_chess_self ui then '' you win!'' else '' you lose.'')
      | TT_CHESS_STALEMATE \<Rightarrow> dash ''Stalemate '' '' draw.''
      | TT_CHESS_RESIGNED \<Rightarrow> ascii ''Game resigned.''
      | TT_CHESS_PLAYING \<Rightarrow>
          (let b = ch_board (u_chess_board ui) in
           if tt_chess_in_check b (u_chess_self ui) then dash ''Check '' (if u_chess_my_turn ui then '' your move.'' else '' opponent's move.'')
           else ascii (if u_chess_my_turn ui then ''Your move.'' else ''Opponent's move.'')))"

definition chess_draw_board :: "Ui \<Rightarrow> (board_item list \<times> bytes) option" where
  "chess_draw_board ui = (if u_chess_fn ui = UINT32_MAX then None else Some (board_items ui, chess_status ui))"

section \<open>Tunnels and members\<close>

definition tunnel_title :: "TTTunnelUI \<Rightarrow> bytes" where
  "tunnel_title tn =
     (let t = take 399 (ascii (if tn_host tn then ''Hosting '' else ''Joined '') @ tn_endpoint tn);
          t1 = (if tn_pending tn then take 399 (t @ ascii '' (pending)'') else t)
      in if tn_e2ee tn then take 399 (t1 @ [32, 0xf0, 0x9f, 0x94, 0x92]) else t1)"

text \<open>Title, friend and the argument of the button that stops the tunnel.\<close>

definition tunnel_row :: "Ui \<Rightarrow> TTTunnelUI \<Rightarrow> bytes \<times> bytes option \<times> bytes" where
  "tunnel_row ui tn =
     (tunnel_title tn,
      if tn_peer_fn tn = UINT32_MAX then None
      else Some (ascii ''  with '' @ or_default (case contact_by_fn ui (tn_peer_fn tn) of Some c \<Rightarrow> ct_name c | None \<Rightarrow> []) ''friend''),
      print_u (tn_id tn))"

definition tun_panel_render :: "Ui \<Rightarrow> (bytes \<times> bytes option \<times> bytes) list" where
  "tun_panel_render ui = map (tunnel_row ui) (u_tunnels ui)"

record member_row =
  mr_pid :: nat
  mr_label :: bytes
  mr_ignore :: "bytes option"
  mr_kick :: bool
  mr_role :: "bytes option"

definition member_row_of :: "Group \<Rightarrow> GroupMember \<Rightarrow> member_row" where
  "member_row_of g m =
     (let below = (gr_self_role g \<le> gm_role m \<and> gr_self_role g \<noteq> TOX_GROUP_ROLE_OBSERVER \<and> gm_role m \<noteq> TOX_GROUP_ROLE_FOUNDER);
          moderates = (below \<and> gr_self_role g \<le> TOX_GROUP_ROLE_MODERATOR)
      in \<lparr>mr_pid = gm_pid m,
          mr_label = take (TT_NAME_MAX + 47) (or_default (gm_name m) ''peer'' @ dot @ role_str (gm_role m)),
          mr_ignore = (if gm_pid m = gr_self_pid g then None else Some (ascii (if gm_ignored m then ''Unignore'' else ''Ignore''))),
          mr_kick = moderates,
          mr_role = (if moderates then Some (role_str (gm_role m)) else None)\<rparr>)"

definition cc_gmembers_open :: "Ui \<Rightarrow> (bytes \<times> member_row list) option" where
  "cc_gmembers_open ui =
     map_option (\<lambda>g. (or_default (gr_name g) ''group'' @ [32, 0xe2, 0x80, 0x94, 32] @ ascii ''you are '' @ role_str (gr_self_role g),
       map (member_row_of g) (gr_members g))) (gselected ui)"

section \<open>Clicking a row\<close>

lemma find_distinct:
  assumes "distinct (map key xs)" "x \<in> set xs" "P x" "\<And>y. y \<in> set xs \<Longrightarrow> P y \<Longrightarrow> key y = key x"
  shows "find P xs = Some x"
  using assms
proof (induction xs)
  case (Cons a xs)
  show ?case
  proof (cases "P a")
    case True
    then have "key a = key x" using Cons.prems(4) by simp
    then have "a = x" using Cons.prems(1,2) by (auto simp: image_iff)
    then show ?thesis using True by simp
  next
    case False
    then have x: "x \<in> set xs" using Cons.prems(2,3) by auto
    have "distinct (map key xs)" using Cons.prems(1) by simp
    from Cons.IH [OF this x Cons.prems(3)] have "find P xs = Some x" by (meson Cons.prems(4) list.set_intros(2))
    then show ?thesis using False by simp
  qed
qed simp

lemma strtoull_print: "n < 2 ^ 32 \<Longrightarrow> to_u32 (int (strtoull (print_u n))) = n"
proof -
  assume n: "n < 2 ^ 32"
  have "(2 :: nat) ^ 32 \<le> 2 ^ 64" by (intro power_increasing) simp_all
  then have "scan_u 64 (print_u n @ []) = Some (n, [])" using n by (intro scan_u_print) (simp_all only: order_less_le_trans, simp_all)
  then have "strtoull (print_u n) = n" by (simp add: strtoull_def)
  then show ?thesis using n by (simp only: to_u32_def) simp
qed

lemma row_found:
  assumes "contacts_ok (u_contacts ui)" "c \<in> set (u_contacts ui)"
  shows "contact_by_iid ui (rr_iid (contact_row c)) = Some c"
proof -
  have d: "distinct (map row_key (u_contacts ui))" "ct_fn c < 2 ^ 32" using assms by (auto simp: contacts_ok_def contact_ok_def list_all_iff)
  show ?thesis
  proof (cases "ct_is_request c")
    case True
    then have "request_row ui = Some c" unfolding request_row_def by (intro find_distinct [OF d(1) assms(2)]) (auto simp: row_key_def)
    then show ?thesis using True by (simp add: contact_by_iid_def contact_row_def ascii_def)
  next
    case False
    then have "contact_by_fn ui (ct_fn c) = Some c"
      unfolding contact_by_fn_def by (intro find_distinct [OF d(1) assms(2)]) (auto simp: row_key_def is_friend_def)
    then show ?thesis using False strtoull_print [OF d(2)] by (simp add: contact_by_iid_def contact_row_def friend_iid_def ascii_def)
  qed
qed

lemma group_found:
  assumes "g \<in> set (u_groups ui)" "gr_gn g < 2 ^ 32"
  shows "\<exists>g'. contact_by_iid ui (group_iid (gr_gn g)) = None \<and> group_by_iid ui (group_iid (gr_gn g)) = Some g' \<and> gr_gn g' = gr_gn g"
proof -
  have "\<exists>g'. find (is_group (gr_gn g)) (u_groups ui) = Some g'" using assms(1) by (metis find_None_iff is_group_def not_None_eq)
  then obtain g' where g': "group_by_gn ui (gr_gn g) = Some g'" by (auto simp: group_by_gn_def)
  then have "gr_gn g' = gr_gn g" by (auto simp: group_by_gn_def is_group_def find_Some_iff)
  moreover have "list_all is_digit (print_u (gr_gn g))" using print_u_digits by (simp add: list_all_iff)
  ultimately show ?thesis
    using g' strtoull_print [OF assms(2)] print_u_nonempty by (simp add: contact_by_iid_def group_by_iid_def group_iid_def ascii_def)
qed

definition selection :: "Ui \<Rightarrow> SelKind \<times> nat" where
  "selection ui = (u_sel_kind ui, u_sel_fn ui)"

lemma select_chat:
  assumes "contact_by_fn ui fn = Some c" "contact_listed ui c" "u_sel_kind ui = TT_SEL_CHAT" "u_sel_fn ui = fn"
  shows "selection (show_selected ui) = (TT_SEL_CHAT, fn)"
proof -
  have "c \<in> set (u_contacts ui)" "is_friend fn c" using assms(1) by (auto simp: contact_by_fn_def find_Some_iff)
  then have "have_keep ui" using assms(2-4) by (auto simp: have_keep_def list_ex_iff)
  then show ?thesis using assms(1,3,4) by (simp add: show_selected_def roster_render_kept selection_def)
qed

lemma select_group:
  assumes "group_by_gn ui gn = Some g'" "g \<in> set (u_groups ui)" "gr_gn g = gn" "group_listed ui g" "u_sel_kind ui = TT_SEL_GROUP" "u_sel_fn ui = gn"
  shows "selection (show_selected ui) = (TT_SEL_GROUP, gn)"
proof -
  let ?u = "(upd_group gn (\<lambda>g. g \<lparr>gr_unread := 0\<rparr>) ui) \<lparr>u_hist := hist_render (gr_transcript g')\<rparr>"
  have "have_keep ui" using assms(2-6) by (auto simp: have_keep_def list_ex_iff is_group_def)
  then have "have_keep ?u" using assms(5) by (simp add: have_keep_def upd_group_def group_listed_def is_group_def list_ex_upd)
  then show ?thesis using assms(1,5,6) by (simp add: show_selected_def roster_render_kept selection_def upd_group_def)
qed

lemma contact_by_fn_sel [simp]: "contact_by_fn (ui \<lparr>u_sel_kind := k, u_sel_fn := n\<rparr>) fn = contact_by_fn ui fn"
  "request_row (ui \<lparr>u_sel_kind := k, u_sel_fn := n\<rparr>) = request_row ui" "group_by_gn (ui \<lparr>u_sel_kind := k, u_sel_fn := n\<rparr>) gn = group_by_gn ui gn"
  by (simp_all add: contact_by_fn_def request_row_def group_by_gn_def)

lemma listed_sel [simp]: "contact_listed (ui \<lparr>u_sel_kind := k, u_sel_fn := n\<rparr>) c = contact_listed ui c"
  "group_listed (ui \<lparr>u_sel_kind := k, u_sel_fn := n\<rparr>) g = group_listed ui g"
  by (simp_all add: contact_listed_def group_listed_def)

lemma click_contact:
  assumes "contacts_ok (u_contacts ui)" "c \<in> set (u_contacts ui)" "ct_is_request c \<or> contact_listed ui c"
  shows "selection (cc_selected (rr_iid (contact_row c)) ui) = (if ct_is_request c then (TT_SEL_REQUEST, 0) else (TT_SEL_CHAT, ct_fn c))"
proof -
  let ?i = "rr_iid (contact_row c)"
  have i: "?i \<noteq> []" by (simp add: contact_row_def friend_iid_def ascii_def)
  note found = row_found [OF assms(1,2)]
  show ?thesis
  proof (cases "ct_is_request c")
    case True
    then have "request_row ui = Some c" using found by (simp add: contact_by_iid_def contact_row_def ascii_def)
    then show ?thesis using True i found by (simp add: cc_selected_def show_selected_def selection_def)
  next
    case False
    have "\<exists>fn. contact_by_fn ui fn = Some c" using found False by (simp add: contact_by_iid_def contact_row_def friend_iid_def ascii_def) blast
    then have fn: "contact_by_fn ui (ct_fn c) = Some c" by (auto simp: contact_by_fn_def find_Some_iff is_friend_def)
    let ?u = "ui \<lparr>u_sel_kind := TT_SEL_CHAT, u_sel_fn := ct_fn c\<rparr>"
    have "selection (show_selected ?u) = (TT_SEL_CHAT, ct_fn c)" by (rule select_chat [of _ _ c]) (use fn assms(3) False in simp_all)
    then show ?thesis using False i found by (auto simp: cc_selected_def selection_def)
  qed
qed

lemma click_group:
  assumes "g \<in> set (u_groups ui)" "gr_gn g < 2 ^ 32" "group_listed ui g"
  shows "selection (cc_selected (rr_iid (group_row g)) ui) = (TT_SEL_GROUP, gr_gn g)"
proof -
  let ?u = "ui \<lparr>u_sel_kind := TT_SEL_GROUP, u_sel_fn := gr_gn g\<rparr>"
  obtain g' where g': "contact_by_iid ui (group_iid (gr_gn g)) = None" "group_by_iid ui (group_iid (gr_gn g)) = Some g'" "gr_gn g' = gr_gn g"
    using group_found [OF assms(1,2)] by blast
  then have "group_by_gn ui (gr_gn g) = Some g'"
    using strtoull_print [OF assms(2)] by (simp add: group_by_iid_def group_iid_def split: if_splits)
  then have "selection (show_selected ?u) = (TT_SEL_GROUP, gr_gn g)" by (intro select_group [of _ _ g' g]) (use assms in simp_all)
  then show ?thesis using g' by (auto simp: cc_selected_def group_row_def selection_def group_iid_def)
qed

text \<open>C39: Clicking a row of the roster opens what the row shows: in every reachable state the identifiers of the rows of requests and friends differ, and the
  identifier of each listed row, printed by the drawing and read back by the click, selects the very request, friend or group of that
  row; the filter does not take the selection away again.\<close>

theorem clicked_row_is_selected:
  assumes "ui_reach ui"
  shows "distinct (map (\<lambda>c. rr_iid (contact_row c)) (u_contacts ui)) \<and>
    (\<forall>c \<in> set (u_contacts ui). ct_is_request c \<or> contact_listed ui c \<longrightarrow> contact_row c \<in> set (roster_rows ui) \<and>
       selection (cc_selected (rr_iid (contact_row c)) ui) = (if ct_is_request c then (TT_SEL_REQUEST, 0) else (TT_SEL_CHAT, ct_fn c))) \<and>
    (\<forall>g \<in> set (u_groups ui). group_listed ui g \<longrightarrow> group_row g \<in> set (roster_rows ui) \<and>
       selection (cc_selected (rr_iid (group_row g)) ui) = (TT_SEL_GROUP, gr_gn g))"
proof -
  have ok: "contacts_ok (u_contacts ui)" "\<forall>g \<in> set (u_groups ui). gr_gn g < 2 ^ 32"
    using ui_reach_ok [OF assms] by (auto simp: ui_ok_def group_ok_def list_all_iff)
  have "distinct (u_contacts ui)" using ok(1) by (auto simp: contacts_ok_def distinct_map)
  moreover have "inj_on (\<lambda>c. rr_iid (contact_row c)) (set (u_contacts ui))"
  proof (rule inj_onI)
    fix c d assume c: "c \<in> set (u_contacts ui)" and d: "d \<in> set (u_contacts ui)" and eq: "rr_iid (contact_row c) = rr_iid (contact_row d)"
    have "Some c = Some d" unfolding row_found [OF ok(1) c, symmetric] row_found [OF ok(1) d, symmetric] eq ..
    then show "c = d" by simp
  qed
  ultimately have "distinct (map (\<lambda>c. rr_iid (contact_row c)) (u_contacts ui))" by (simp add: distinct_map)
  moreover have "contact_row c \<in> set (roster_rows ui)" if "c \<in> set (u_contacts ui)" "ct_is_request c \<or> contact_listed ui c" for c
    using that by (auto simp: roster_rows_def)
  moreover have "group_row g \<in> set (roster_rows ui)" if "g \<in> set (u_groups ui)" "group_listed ui g" for g
    using that by (auto simp: roster_rows_def Let_def filter_empty_conv)
  ultimately show ?thesis by (intro conjI ballI impI) (simp_all only: click_contact [OF ok(1)] click_group ok(2))
qed

theorem clicked_row_is_selected_witness:
  "selection (cc_selected (rr_iid (contact_row (contact_zero \<lparr>ct_fn := 3, ct_name := [65]\<rparr>))) (ui_run demo_uenv \<lparr>u_contacts := [contact_zero \<lparr>ct_fn := 3, ct_name := [65]\<rparr>]\<rparr>))
     = (TT_SEL_CHAT, 3)"
proof -
  let ?c = "contact_zero \<lparr>ct_fn := 3, ct_name := [65]\<rparr>"
  let ?u = "ui_run demo_uenv \<lparr>u_contacts := [?c]\<rparr>"
  have "ui_reach ?u"
    unfolding demo_row [symmetric] by (intro ui_reach.step [OF _ ui_step.event] ui_reach.start) (simp add: demo_name_def)
  moreover have "?c \<in> set (u_contacts ?u)" "contact_listed ?u ?c" "\<not> ct_is_request ?c" "ct_fn ?c = 3"
    by (simp_all add: contact_listed_def ui_run_def ui_zero_def contact_zero_def)
  ultimately show ?thesis using clicked_row_is_selected [of ?u] by metis
qed

section \<open>Pressing a button\<close>

text \<open>What the labels promise: the command and its argument.\<close>

definition promises :: "(bytes \<times> TTCommandType \<times> int) list" where
  "promises =
     [(icon [0xf0, 0x9f, 0x93, 0x9e] ''Call'', TT_CMD_AV_CALL, 1), (icon [0xf0, 0x9f, 0x93, 0xb5] ''Cancel'', TT_CMD_AV_HANGUP, 1),
      (icon [0xf0, 0x9f, 0x93, 0xb5] ''Hang up'', TT_CMD_AV_HANGUP, 1), (icon [0xe2, 0x9c, 0x85] ''Answer'', TT_CMD_AV_ANSWER, 1),
      (icon [0xe2, 0x9c, 0x96] ''Decline'', TT_CMD_AV_HANGUP, 0), (icon [0xe2, 0x8f, 0xb8] ''Pause'', TT_CMD_AV_PAUSE, 1),
      (icon [0xe2, 0x96, 0xb6] ''Resume'', TT_CMD_AV_RESUME, 1), (icon [0xf0, 0x9f, 0x8e, 0xa4] ''Mute'', TT_CMD_AV_MUTE, 1),
      (icon [0xf0, 0x9f, 0x8e, 0xa4] ''Unmute'', TT_CMD_AV_MUTE, 0), (icon [0xf0, 0x9f, 0x94, 0x8a] ''Mute out'', TT_CMD_AV_DEAF, 1),
      (icon [0xf0, 0x9f, 0x94, 0x87] ''Unmute out'', TT_CMD_AV_DEAF, 0), (icon [0xf0, 0x9f, 0x93, 0xb7] ''Camera'', TT_CMD_AV_CAMERA, 1),
      (icon [0xf0, 0x9f, 0x93, 0xb7] ''Stop cam'', TT_CMD_AV_CAMERA, 0), (icon [0xf0, 0x9f, 0x94, 0x84] ''Show self'', TT_CMD_AV_SELFVIEW, 1),
      (icon [0xf0, 0x9f, 0x94, 0x84] ''Show peer'', TT_CMD_AV_SELFVIEW, 0)]"

lemma distinct_promises: "distinct (map fst promises)"
  by (simp add: promises_def icon_def ascii_def)

lemma promised: "p \<in> set promises \<Longrightarrow> map_of promises (fst p) = Some (snd p)"
  using distinct_promises by simp

lemma selected_contactD: "selected_contact ui = Some c \<Longrightarrow> u_sel_kind ui = TT_SEL_CHAT \<and> ct_fn c = u_sel_fn ui \<and> contact_by_fn ui (u_sel_fn ui) = Some c"
  by (auto simp: selected_contact_def contact_by_fn_def find_Some_iff is_friend_def split: if_splits)

lemma selected_upd: "row_kept f \<Longrightarrow> selected_contact (upd_contact fn f ui) = map_option (if u_sel_fn ui = fn then f else id) (selected_contact ui)"
  by (auto simp: selected_contact_def contact_by_fn_upd option.map_id)

lemma posted_call: "selected_contact ui \<noteq> None \<Longrightarrow> u_posted (cc_call ty a v ui) =
    u_posted ui @ [\<lparr>cmd_type = ty, cmd_fn = u_sel_fn ui, cmd_str = Some [], cmd_ival = a, cmd_ival2 = v\<rparr>]"
  by (auto simp: cc_call_def with_selected_def tt_post2_def)

lemma row_kept_call [simp]: "row_kept (\<lambda>c. c \<lparr>ct_call_ringing := b\<rparr>)" "row_kept (\<lambda>c. c \<lparr>ct_call_muted := m c\<rparr>)"
  "row_kept (\<lambda>c. c \<lparr>ct_call_paused_self := b\<rparr>)" "row_kept (\<lambda>c. c \<lparr>ct_call_deaf := m c\<rparr>)" "row_kept (\<lambda>c. c \<lparr>ct_call_cam := m c\<rparr>)"
  by (simp_all add: row_kept_def)

lemma row_kept_sys [simp]: "row_kept (chat_append_sys X me text)"
  by (simp add: row_kept_def chat_append_sys_def chat_append_def split: prod.splits)

lemma upd_posted [simp]: "u_posted (upd_contact fn f ui) = u_posted ui"
  by (simp add: upd_contact_def)

lemma friend_sys_line_kept [simp]: "u_posted (friend_sys_line X fn me t ui) = u_posted ui" "u_sel_fn (friend_sys_line X fn me t ui) = u_sel_fn ui"
  "selected_contact ui \<noteq> None \<Longrightarrow> selected_contact (friend_sys_line X fn me t ui) \<noteq> None"
  by (auto simp: friend_sys_line_def show_live_def selected_upd selected_contact_def contact_by_fn_upd split: if_splits)

lemma press_posts:
  assumes "selected_contact ui = Some c" "b = BSelf \<Longrightarrow> ct_call_video c \<or> ct_call_cam c" "b \<in> {BCall, BAnsw, BDecl} \<or> ct_call_active c"
  shows "\<exists>ty a. (case b of BCall \<Rightarrow> (if ct_call_active c \<or> ct_call_ringing c then TT_CMD_AV_HANGUP else TT_CMD_AV_CALL, 1)
      | BPause \<Rightarrow> (if ct_call_paused_self c then TT_CMD_AV_RESUME else TT_CMD_AV_PAUSE, 1)
      | BMute \<Rightarrow> (TT_CMD_AV_MUTE, if ct_call_muted c then 0 else 1) | BDeaf \<Rightarrow> (TT_CMD_AV_DEAF, if ct_call_deaf c then 0 else 1)
      | BCam \<Rightarrow> (TT_CMD_AV_CAMERA, if ct_call_cam c then 0 else 1) | BSelf \<Rightarrow> (TT_CMD_AV_SELFVIEW, if u_video_self ui then 0 else 1)
      | BAnsw \<Rightarrow> (TT_CMD_AV_ANSWER, 1) | BDecl \<Rightarrow> (TT_CMD_AV_HANGUP, 0)) = (ty, a) \<and>
    u_posted (press X b ui) = u_posted ui @ [\<lparr>cmd_type = ty, cmd_fn = ct_fn c, cmd_str = Some [], cmd_ival = a, cmd_ival2 = 0\<rparr>]"
proof -
  have fn: "ct_fn c = u_sel_fn ui" using selected_contactD [OF assms(1)] by simp
  have vs: "selected_contact (ui \<lparr>u_video_self := v\<rparr>) = selected_contact ui" for v by (simp add: selected_contact_def contact_by_fn_def)
  show ?thesis
    by (cases b)
      (use assms fn in \<open>simp_all add: cc_av_call_def cc_av_pause_def cc_av_mute_def cc_av_deaf_def cc_av_cam_def cc_av_self_def cc_av_answer_def cc_av_decline_def
        in_call_def with_selected_def posted_call selected_upd vs Let_def\<close>)
qed

definition shown_label :: "Ui \<Rightarrow> Contact \<Rightarrow> call_button \<Rightarrow> bytes" where
  "shown_label ui c b =
     (case b of
        BCall \<Rightarrow> if ct_call_active c then icon [0xf0, 0x9f, 0x93, 0xb5] ''Hang up''
                 else if ct_call_ringing c then icon [0xf0, 0x9f, 0x93, 0xb5] ''Cancel'' else icon [0xf0, 0x9f, 0x93, 0x9e] ''Call''
      | BPause \<Rightarrow> if no_audio c \<and> \<not> ct_call_paused_self c then icon [0xe2, 0x8f, 0xb8] ''Peer paused''
                 else if no_audio c then icon [0xe2, 0x96, 0xb6] ''Resume'' else icon [0xe2, 0x8f, 0xb8] ''Pause''
      | BMute \<Rightarrow> icon [0xf0, 0x9f, 0x8e, 0xa4] (if ct_call_muted c then ''Unmute'' else ''Mute'')
      | BDeaf \<Rightarrow> if ct_call_deaf c then icon [0xf0, 0x9f, 0x94, 0x87] ''Unmute out'' else icon [0xf0, 0x9f, 0x94, 0x8a] ''Mute out''
      | BCam \<Rightarrow> icon [0xf0, 0x9f, 0x93, 0xb7] (if ct_call_cam c then ''Stop cam'' else ''Camera'')
      | BSelf \<Rightarrow> if ct_call_incoming c then icon [0xf0, 0x9f, 0x93, 0xb9] ''Video''
                 else icon [0xf0, 0x9f, 0x94, 0x84] (if u_video_self ui then ''Show peer'' else ''Show self'')
      | BAnsw \<Rightarrow> icon [0xe2, 0x9c, 0x85] ''Answer'' | BDecl \<Rightarrow> icon [0xe2, 0x9c, 0x96] ''Decline'')"

lemmas header_defs = chead_call_render_def chead_avatar_render_def incoming_buttons_def active_buttons_def pause_button_def put_button_def set_button_def

lemma header_buttons:
  assumes "chat_open ui (ct_fn c)" "b \<in> set (h_packed (chead_call_render ui c h))"
  shows "h_label (chead_call_render ui c h) b = shown_label ui c b \<and> (b \<in> {BAnsw, BDecl} \<longleftrightarrow> ct_call_incoming c \<and> b \<noteq> BSelf) \<and>
    (\<not> ct_call_incoming c \<longrightarrow> b = BCall \<or> ct_call_active c) \<and> (b = BSelf \<longrightarrow> ct_call_incoming c \<or> ct_call_video c \<or> ct_call_cam c)"
proof (cases "ct_call_incoming c")
  case True
  then show ?thesis using assms by (auto simp: header_defs shown_label_def)
next
  case False
  show ?thesis
  proof (cases "ct_call_active c")
    case True
    then show ?thesis using assms False by (cases b) (simp_all add: header_defs shown_label_def Let_def split: if_splits)
  next
    case idle: False
    then show ?thesis using assms False by (simp add: header_defs shown_label_def Let_def split: if_splits)
  qed
qed



text \<open>A call that is offered with video cannot be answered with video: the button is shown, labelled and enabled for it, but the command it was made with
  changes nothing before the call is active.\<close>

theorem video_answer_button_is_dead:
  assumes "selected_contact ui = Some c" "ct_call_incoming c" "ct_call_video c" "\<not> ct_call_active c" "h' = chead_call_render ui c h"
  shows "BSelf \<in> set (h_packed h') \<and> h_enabled h' BSelf \<and> h_label h' BSelf = icon [0xf0, 0x9f, 0x93, 0xb9] ''Video'' \<and> press X BSelf ui = ui"
  using assms selected_contactD [OF assms(1)] by (simp add: header_defs chat_open_def cc_av_self_def in_call_def with_selected_def)

theorem video_answer_button_is_dead_witness:
  "press demo_uenv BSelf (demo_chat \<lparr>u_contacts := [contact_zero \<lparr>ct_fn := 3, ct_call_incoming := True, ct_call_video := True\<rparr>]\<rparr>) =
     demo_chat \<lparr>u_contacts := [contact_zero \<lparr>ct_fn := 3, ct_call_incoming := True, ct_call_video := True\<rparr>]\<rparr>"
proof -
  let ?c = "contact_zero \<lparr>ct_fn := 3, ct_call_incoming := True, ct_call_video := True\<rparr>"
  have c: "selected_contact (demo_chat \<lparr>u_contacts := [?c]\<rparr>) = Some ?c"
    by (simp add: demo_chat_eq typing_keystroke_def tt_post_def tt_post2_def ui_run_def ui_zero_def contact_by_fn_def is_friend_def contact_zero_def
        selected_contact_def Let_def)
  show ?thesis using video_answer_button_is_dead [OF c _ _ _ refl, where X = demo_uenv] by (simp add: contact_zero_def)
qed

section \<open>Pressing a square\<close>

lemma board_square_items:
  "Square x y col \<in> set (board_square g r f) \<Longrightarrow> x = f * 40 \<and> y = (7 - r) * 40"
  "Glyph x y gl fg \<in> set (board_square g r f) \<longleftrightarrow> x = f * 40 + 20 \<and> y = (7 - r) * 40 + 20 \<and> gl = chess_piece_glyph (ch_board g r f) \<and> gl \<noteq> [] \<and>
     fg = (if pc_color (ch_board g r f) = TT_COLOR_WHITE then ''#FFFFFF'' else ''#000000'')"
  by (auto simp: board_square_def Let_def split: if_splits)

lemma in_board_items:
  "Square x y col \<in> set (board_items ui) \<longleftrightarrow> (\<exists>r \<in> {0..7}. \<exists>f \<in> {0..7}. Square x y col \<in> set (board_square (u_chess_board ui) r f))"
  "Glyph x y gl fg \<in> set (board_items ui) \<longleftrightarrow> (\<exists>r \<in> {0..7}. \<exists>f \<in> {0..7}. Glyph x y gl fg \<in> set (board_square (u_chess_board ui) r f))"
  by (auto simp: board_items_def)

lemma glyph_nonempty: "chess_piece_glyph p \<noteq> [] \<longleftrightarrow> pc_type p \<noteq> TT_PIECE_NONE"
  by (simp add: chess_piece_glyph_def Let_def split: TTPieceType.splits)

lemma cell_of_square:
  assumes "0 \<le> f" "r \<le> 7" "f * 40 \<le> px" "px < f * 40 + 40" "(7 - r) * 40 \<le> py" "py < (7 - r) * 40 + 40"
  shows "cell_of px py = (r, f)"
proof -
  have d: "px div 40 = f" "py div 40 = 7 - r" using assms by (simp_all add: div_pos_geq int_div_pos_eq [of px 40 f "px - f * 40"] int_div_pos_eq [of py 40 "7 - r" "py - (7 - r) * 40"])
  have "0 \<le> f * 40" "0 \<le> (7 - r) * 40" using assms(1,2) by simp_all
  then have "0 \<le> px" "0 \<le> py" using assms(3,5) by linarith+
  then have "sgn px * (\<bar>px\<bar> div 40) = f" "sgn py * (\<bar>py\<bar> div 40) = 7 - r" using d by (cases "px = 0"; cases "py = 0"; auto)+
  then show ?thesis by (simp add: cell_of_def)
qed

definition own_ink :: "TTColor \<Rightarrow> string" where
  "own_ink c = (if c = TT_COLOR_WHITE then ''#FFFFFF'' else ''#000000'')"

text \<open>A press on the board acts on what is drawn under the pointer: anywhere in a drawn square it takes up a piece exactly if a piece in our colour is drawn
  in that square, and the square that is then framed is that one.\<close>

theorem pressed_square_is_the_one_drawn:
  assumes "chess_live ui" "Square x y col \<in> set (board_items ui)" "x \<le> px" "px < x + 40" "y \<le> py" "py < y + 40" "ui' = cc_chess_square px py ui"
  shows "(u_chess_dragging ui' \<longleftrightarrow> (\<exists>gl. Glyph (x + 20) (y + 20) gl (own_ink (u_chess_self ui)) \<in> set (board_items ui))) \<and>
    (u_chess_dragging ui' \<longrightarrow> Selected x y \<in> set (board_items ui'))"
proof -
  obtain r f where rf: "0 \<le> r" "r \<le> 7" "0 \<le> f" "f \<le> 7" and xy: "x = f * 40" "y = (7 - r) * 40"
    using assms(2) board_square_items(1) by (fastforce simp: in_board_items)
  let ?p = "ch_board (u_chess_board ui) r f"
  have cell: "cell_of px py = (r, f)" by (rule cell_of_square) (use assms(3-6) rf xy in simp_all)
  have b: "in_bounds r f" using rf by (simp add: in_bounds_def)
  have ui': "ui' = (if pc_type ?p \<noteq> TT_PIECE_NONE \<and> pc_color ?p = u_chess_self ui
      then ui \<lparr>u_chess_sel_rank := r, u_chess_sel_file := f, u_chess_dragging := True\<rparr> else ui \<lparr>u_chess_dragging := False\<rparr>)"
    using assms(1,7) cell b by (simp add: cc_chess_square_def Let_def)
  have "(\<exists>gl. Glyph (x + 20) (y + 20) gl (own_ink (u_chess_self ui)) \<in> set (board_items ui)) \<longleftrightarrow>
      chess_piece_glyph ?p \<noteq> [] \<and> own_ink (pc_color ?p) = own_ink (u_chess_self ui)"
    unfolding in_board_items board_square_items xy by (auto simp: own_ink_def intro: rf)
  also have "\<dots> \<longleftrightarrow> pc_type ?p \<noteq> TT_PIECE_NONE \<and> pc_color ?p = u_chess_self ui"
    unfolding glyph_nonempty by (cases "pc_color ?p"; cases "u_chess_self ui") (simp_all add: own_ink_def)
  finally show ?thesis using ui' rf(1) xy by (simp add: board_items_def)
qed

definition demo_board :: Ui where
  "demo_board = (ui_run demo_uenv) \<lparr>u_chess_fn := 3, u_chess_started := True, u_chess_board := tt_chess_init, u_chess_self := TT_COLOR_WHITE\<rparr>"

theorem pressed_square_is_the_one_drawn_witness:
  "u_chess_dragging (cc_chess_square 170 250 demo_board) \<and> (\<exists>gl. Glyph 180 260 gl ''#FFFFFF'' \<in> set (board_items demo_board)) \<and>
   Selected 160 240 \<in> set (board_items (cc_chess_square 170 250 demo_board))"
proof -
  have live: "chess_live demo_board" by (simp add: chess_live_def demo_board_def)
  have "Square 160 240 ''#B58863'' \<in> set (board_square (u_chess_board demo_board) 1 4)" by (simp add: board_square_def Let_def)
  then have sq: "Square 160 240 ''#B58863'' \<in> set (board_items demo_board)"
    unfolding in_board_items by (intro bexI [of _ 1] bexI [of _ 4]) simp_all
  have "u_chess_dragging (cc_chess_square 170 250 demo_board)"
    using live by (simp add: cc_chess_square_def cell_of_def in_bounds_def demo_board_def init_board Let_def)
  then show ?thesis
    using pressed_square_is_the_one_drawn [OF live sq _ _ _ _ refl, of 170 250] by (simp add: own_ink_def demo_board_def)
qed

end
