(* ===== verification/UiAvatar.thy ===== *)
theory UiAvatar
  imports UiInv
begin

text \<open>
  What Tk is given of an avatar, and how many repaint timers a video call leaves behind.
\<close>

unbundle bit_operations_syntax

section \<open>Base64\<close>

text \<open>The decoder of RFC 4648: the position of a digit in the alphabet, four digits to three bytes, fewer for padding.\<close>

definition b64_value :: "byte \<Rightarrow> u32" where
  "b64_value d = (if d = 61 then 0 else of_nat (length (takeWhile (\<lambda>x. x \<noteq> d) b64_table)))"

definition b64_quad :: "byte \<Rightarrow> byte \<Rightarrow> byte \<Rightarrow> byte \<Rightarrow> u32" where
  "b64_quad p q r s = push_bit 18 (b64_value p) OR push_bit 12 (b64_value q) OR push_bit 6 (b64_value r) OR b64_value s"

definition b64_bytes :: "u32 \<Rightarrow> bytes" where
  "b64_bytes v = [ucast (drop_bit 16 v), ucast (drop_bit 8 v), ucast v]"

fun b64_decode :: "bytes \<Rightarrow> bytes" where
  "b64_decode (p # q # r # s # t) =
     take (if r = 61 then 1 else if s = 61 then 2 else 3) (b64_bytes (b64_quad p q r s)) @ b64_decode t"
| "b64_decode _ = []"

text \<open>The damage of the sign extension: a byte from 128 on sets all bits of the bytes before it in its group of three.\<close>

fun smear :: "bytes \<Rightarrow> bytes" where
  "smear [] = []"
| "smear [a] = [a]"
| "smear [a, b] = [if bit b 7 then 255 else a, b]"
| "smear (a # b # c # r) = [if bit b 7 \<or> bit c 7 then 255 else a, if bit c 7 then 255 else b, c] @ smear r"

lemma b64_table_facts: "length b64_table = 64" "distinct b64_table" "61 \<notin> set b64_table"
  by (simp_all add: b64_table_def ascii_def)

lemma takeWhile_nth: "distinct xs \<Longrightarrow> k < length xs \<Longrightarrow> length (takeWhile (\<lambda>x. x \<noteq> xs ! k) xs) = k"
proof (induction xs arbitrary: k)
  case (Cons y ys)
  then show ?case by (cases k) auto
qed simp

lemma b64_value_digit [simp]: "b64_value (b64_digit s v) = take_bit 6 (drop_bit s v)" "b64_digit s v \<noteq> 61"
proof -
  have k: "unat (take_bit 6 (drop_bit s v)) < 64" by (simp add: take_bit_eq_mod unat_mod_distrib)
  then have "b64_digit s v \<in> set b64_table" by (simp add: b64_digit_def b64_table_facts(1))
  then show n: "b64_digit s v \<noteq> 61" using b64_table_facts(3) by metis
  show "b64_value (b64_digit s v) = take_bit 6 (drop_bit s v)"
    using n takeWhile_nth [OF b64_table_facts(2)] k by (simp add: b64_value_def b64_digit_def b64_table_facts(1))
qed

lemma b64_value_pad [simp]: "b64_value 61 = 0" by (simp add: b64_value_def)

lemma bit_quad: "bit (push_bit 18 (take_bit 6 (drop_bit 18 v)) OR push_bit 12 (take_bit 6 (drop_bit 12 v)) OR
    push_bit 6 (take_bit 6 (drop_bit 6 v)) OR take_bit 6 v) n \<longleftrightarrow> n < 24 \<and> bit (v :: u32) n"
  by (cases "n < 6"; cases "n < 12"; cases "n < 18"; cases "n < 24") (auto simp: bit_simps not_less dest: bit_imp_le_length)

lemma bit_sx: "bit (sx b) n \<longleftrightarrow> n < 32 \<and> bit b (if n < 8 then n else 7)"
  by (simp add: sx_def bit_signed_iff min_def not_less) (auto simp: numeral_eq_Suc less_Suc_eq)

lemma bit_255: "bit (255 :: byte) n \<longleftrightarrow> n < 8"
proof -
  have "(255 :: byte) = - 1" by simp
  then show ?thesis by (simp only: bit_minus_1_iff possible_bit_word) simp
qed

lemma low_digits [simp]:
  "take_bit 6 (drop_bit 6 (push_bit 16 x)) = 0" "take_bit 6 (push_bit 16 x) = 0" "take_bit 6 (push_bit 8 x) = (0 :: u32)"
  by (auto intro!: bit_word_eqI simp: bit_simps)

lemma bit_quad_digits:
  "n < 24 \<Longrightarrow> bit (b64_quad (b64_digit 18 v) (b64_digit 12 v) (b64_digit 6 v) (b64_digit 0 v)) n = bit v n"
  using bit_quad [of v n] by (simp add: b64_quad_def)

lemma group_bytes:
  assumes "v = (push_bit 16 (sx a) OR push_bit 8 (sx b)) OR sx c" "\<And>n. n < 24 \<Longrightarrow> bit w n = bit v n"
  shows "b64_bytes w = [if bit b 7 \<or> bit c 7 then 255 else a, if bit c 7 then 255 else b, c]"
proof -
  have "ucast (drop_bit 16 w) = (if bit b 7 \<or> bit c 7 then 255 else a)" 
    by (rule bit_word_eqI) (use assms(2) in \<open>auto simp del: bit_numeral_word_iff simp: assms(1) bit_unsigned_iff bit_drop_bit_eq bit_or_iff bit_push_bit_iff bit_sx bit_255\<close>)
  moreover have "ucast (drop_bit 8 w) = (if bit c 7 then 255 else b)"
    by (rule bit_word_eqI) (use assms(2) in \<open>auto simp del: bit_numeral_word_iff simp: assms(1) bit_unsigned_iff bit_drop_bit_eq bit_or_iff bit_push_bit_iff bit_sx bit_255\<close>)
  moreover have "ucast w = c"
    by (rule bit_word_eqI) (use assms(2) in \<open>auto simp del: bit_numeral_word_iff simp: assms(1) bit_unsigned_iff bit_drop_bit_eq bit_or_iff bit_push_bit_iff bit_sx bit_255\<close>)
  ultimately show ?thesis by (simp add: b64_bytes_def)
qed


text \<open>C38: What Tk reads of an avatar: the base64 text that the front end builds decodes, by the rules of RFC 4648, to the picture in which
  every byte from 128 on has overwritten the bytes before it in its group of three with ones, whatever the length; the picture itself
  arrives only if no such byte has another one than 255 before it in its group.\<close>

theorem avatar_as_tk_reads_it: "b64_decode (avatar_b64 png) = smear png"
proof (induction png rule: avatar_b64.induct)
  case (2 a)
  let ?v = "push_bit 16 (sx a)"
  have "b64_bytes (b64_quad (b64_digit 18 ?v) (b64_digit 12 ?v) 61 61) = [a, 0, 0]"
    using group_bytes [of ?v a 0 0] bit_quad [of ?v] by (simp add: b64_quad_def sx_def)
  then show ?case by (simp add: Let_def)
next
  case (3 a b)
  let ?v = "push_bit 16 (sx a) OR push_bit 8 (sx b)"
  have "b64_bytes (b64_quad (b64_digit 18 ?v) (b64_digit 12 ?v) (b64_digit 6 ?v) 61) = [if bit b 7 then 255 else a, b, 0]"
    using group_bytes [of ?v a b 0] bit_quad [of ?v] by (simp add: b64_quad_def sx_def take_bit_or drop_bit_or)
  then show ?case by (simp add: Let_def)
next
  case (4 a b c r)
  let ?v = "(push_bit 16 (sx a) OR push_bit 8 (sx b)) OR sx c"
  have "b64_bytes (b64_quad (b64_digit 18 ?v) (b64_digit 12 ?v) (b64_digit 6 ?v) (b64_digit 0 ?v)) =
      [if bit b 7 \<or> bit c 7 then 255 else a, if bit c 7 then 255 else b, c]"
    by (rule group_bytes [OF refl bit_quad_digits])
  then show ?case using 4 by (simp add: Let_def)
qed simp

section \<open>Repaint timers\<close>

text \<open>A frame arrives and the first queued tick runs.\<close>

definition video_round :: "uenv \<Rightarrow> TTEvent \<Rightarrow> Ui \<Rightarrow> Ui" where
  "video_round X e ui = cc_video_tick X (video_frame_take X e ui)"

lemma video_round_step:
  assumes "ev_str e = Some fr" "1 \<le> length fr" "length fr \<le> 460800" "x_alloc X" "x_now X \<noteq> 0" "\<not> u_video_sched ui"
  shows "u_video_timers (video_round X e ui) = u_video_timers ui + 1 \<and> \<not> u_video_sched (video_round X e ui)"
  using assms by (cases fr) (simp_all add: video_round_def video_frame_take_def cc_video_tick_def video_paint_def Let_def)

text \<open>Repaint timers pile up: a tick queues its successor but leaves the flag down that says one is queued, so the next frame starts
  another chain of ticks: after n rounds of one frame and one tick there are n timers more, and they go on until the pictures stop.\<close>

theorem video_timers_pile_up:
  assumes "ev_str e = Some fr" "1 \<le> length fr" "length fr \<le> 460800" "x_alloc X" "x_now X \<noteq> 0" "\<not> u_video_sched ui"
  shows "u_video_timers ((video_round X e ^^ n) ui) = u_video_timers ui + n"
proof -
  have "u_video_timers ((video_round X e ^^ n) ui) = u_video_timers ui + n \<and> \<not> u_video_sched ((video_round X e ^^ n) ui)"
    by (induction n) (use assms video_round_step [OF assms(1-5)] in auto)
  then show ?thesis ..
qed

theorem video_timers_pile_up_witness:
  "u_video_timers ((video_round demo_uenv ((tt_event_new TT_EV_AV_FRAME) \<lparr>ev_str := Some [1]\<rparr>) ^^ 900) (ui_run demo_uenv)) = 900"
proof -
  have "u_video_timers (ui_run demo_uenv) = 0" "\<not> u_video_sched (ui_run demo_uenv)" by (simp_all add: ui_run_def ui_zero_def)
  then show ?thesis
    using video_timers_pile_up [of "(tt_event_new TT_EV_AV_FRAME) \<lparr>ev_str := Some [1]\<rparr>" "[1]" demo_uenv "ui_run demo_uenv" 900]
    by (simp add: demo_uenv_def)
qed

end
