(* ===== verification/Spec2Isabelle.thy ===== *)
theory Spec2Isabelle
  imports SessionStore Drain TunnelSetup CallSafe Profiles UiChess UiView UiAvatar
begin

text \<open>
  \<^bold>\<open>TkTox: a Tox client with encrypted sessions, file transfers, calls, tunnels, group chats and chess.\<close>

  \<^bold>\<open>The program.\<close>  Two threads share two bounded queues.  The engine (\<^verbatim>\<open>src/src/tox_thread.c\<close>) owns toxcore: it
  takes commands from one queue, runs the callbacks of toxcore, keeps one end-to-end encrypted session per
  friend (\<^verbatim>\<open>session.c\<close> over \<^verbatim>\<open>crypto/\<close>), drives transfers, calls (\<^verbatim>\<open>av.c\<close>), tunnels (\<^verbatim>\<open>tunnel.c\<close>) and chess
  (\<^verbatim>\<open>chess.c\<close>), writes the files beside the profile and posts events to the other queue.  The front end
  (\<^verbatim>\<open>ui/ui_tk.c\<close>) takes the events, keeps what it shows and posts commands.  Toxcore, ToxAV, libsodium,
  toxencryptsave, ALSA, V4L2 and Tk are not part of the repository: they are parameters of the definitions
  that call them (records of functions such as \<open>lib\<close>, \<open>toxes\<close> and the environments of the engine, the calls, the tunnels and the
  front end), and what a theorem needs of them is a named hypothesis with a concrete instance in its
  witness.

  \<^bold>\<open>Conventions.\<close>  A C struct is a record, an enum a datatype, a linked list a list, a fixed-width integer a
  word (or a natural number with its bound where nothing wraps), a byte string a list of bytes, a file system a map from
  names to contents.  A function that fails returns an option or a sum with the error; one that has effects takes and
  returns the state, with what it sends in an output list.  An I/O call that may fail asks an oracle \<open>io\<close> by its position, so
  theorems about crashes quantify over the oracle.  Definitions carry the name of the C function.

  \<^bold>\<open>Cryptography and sessions\<close> (\<^verbatim>\<open>crypto/*.c\<close>, \<^verbatim>\<open>session.c\<close>).
  \<^item> Prelude: shared lemmas, the locale \<open>drop_oldest\<close> of a buffer that drops its oldest entry when it is full and \<open>fixed_codec\<close>
    of a codec with records of fixed size.
  \<^item> Crypto, Frame: key derivation, nonces, sealing and the frame codec; encoding and decoding are
    inverse.
  \<^item> Ratchet, Reliable: the chain and its stored keys, the ring of sent messages; both interpret \<open>drop_oldest\<close>, the ring
    refines a list.
  \<^item> Session, Handshake, Delivery, Receive, Session\_Inv: the session with its handshake, re-keying, acknowledgements and
    re-sending.  Two honest peers agree on keys and fingerprint, every message of a conversation is delivered once and in
    order, a window in any order is delivered, replays and forgeries change nothing, and all reachable
    sessions satisfy the invariant.
  \<^item> SessionStore: saving and loading the sessions.

  \<^bold>\<open>Files\<close> (\<^verbatim>\<open>resume.c\<close>, \<^verbatim>\<open>offline_queue.c\<close>, \<^verbatim>\<open>history.c\<close>, the settings in \<^verbatim>\<open>tox_thread.c\<close>).
  \<^item> Sidecar: writing through a temporary file and optional encryption; a failure at any step leaves the old or the new
    content.  The locale \<open>sidecar_format\<close> is what a format has to provide; OfflineQueue, Resume and History interpret it.
  \<^item> Settings, PortList: the text formats with their scanners and printers.

  \<^bold>\<open>The engine\<close> (\<^verbatim>\<open>tox_thread.c\<close>).
  \<^item> EventQueue: the bounded queue and its waits; it refines a first-in first-out list.
  \<^item> FileTransfer, Download, Avatar: transfers, resumption, avatars; a file arrives unchanged, an avatar is shown
    iff its digest is the announced one.
  \<^item> Engine, Policy, Drain: the encryption hooks of sending and receiving, the policy that a friend with required encryption
    never gets plaintext, the loops that re-send and flush and their termination.
  \<^item> Contacts, Group, Startup: friends, requests and profile commands; groups and their commands; the start from settings, passphrase and
    files to a running toxcore, and the shutdown.  Behind a proxy no address leaks; a restart keeps the identity
    and the policy.
  \<^item> Tunnel, TunnelLoop, TunnelFlow, TunnelSafe, TunnelSetup: port forwarding over a friend connection with credit windows.
    The bytes of a stream arrive in order and without loss, the windows never block for ever, no payload is sent
    in the clear.  The locale \<open>conn_op\<close> is the contract of every operation on a connection.
  \<^item> Chess, ChessRules, ChessGame, ChessWire: the engine of the game, its equivalence with declarative rules, the protocol.
    The boards of two peers agree up to the moves under way.
  \<^item> AudioRing, Video, Call, CallSafe: the device rings, frame conversion and the calls.  Without a call the microphone and the
    camera are off, a muted microphone sends nothing, no conversion reads out of bounds.

  \<^bold>\<open>The front end\<close> (\<^verbatim>\<open>ui/ui_tk.c\<close>, \<^verbatim>\<open>ui/profiles.c\<close>).
  \<^item> Transcript: the stored text of a chat and its redrawing: what was shown live is redrawn the same if the texts hold neither newline
    nor separator, and a message that holds them forges lines.
  \<^item> UiState, UiEvents, UiCommands: the state, one definition per event of the engine and per command of a button,
    key, timer or dialog.
  \<^item> UiInv: the step relation of the front end, its reachable states and their invariant: distinct rows, texts
    that fit their buffers, the typing indicator.
  \<^item> UiChess: the front end, its two queues and the chess engine of ChessWire together: the board on the
    screen is the engine's.
  \<^item> UiProps, UiAvatar: messages, the history over a restart, pictures and avatars; base64 of an avatar is compared with the decoder of
    RFC 4648.
  \<^item> UiView: what is drawn.  A click on a row selects what the row shows, the call buttons post what their labels say,
    a press on the board takes up the piece under the pointer.
  \<^item> Profiles: the profile picker.

  \<^bold>\<open>Loops.\<close>  Recursion is structural or has a measure: the length of the text or list that is left (\<open>toxid_scan\<close>,
  \<open>strip_loop\<close>, \<open>drop_lines\<close>, \<open>hist_render\<close>, \<open>emotify_loop\<close>, \<open>longest_hex\<close>, \<open>free_contacts\<close>), the queue (\<open>flush_loop\<close>,
  \<open>drain_loop\<close>) or the ring (\<open>audio_send_drain\<close>).  The rays of a piece are walked at most eight squares, the width of the board.
  \<open>rel_loop\<close> is a \<open>partial_function (option)\<close>, since it need not end; Drain proves that it does in every reachable session and shows a state in
  which it would not.  \<open>resend_scan\<close> has fuel for the whole ring, which is the number of slots it can visit.  \<open>carrier_loop\<close> and
  \<open>vtest_pump\<close> run the fixed number of rounds of the source.

  \<^bold>\<open>Not modelled.\<close>
  \<^item> The construction of widgets, fonts, menus, the clipboard and the recall of the last input in \<^verbatim>\<open>ui_tk.c\<close>:
    calls of the Tcl interpreter without state of their own.
  \<^item> \<^verbatim>\<open>headless.c\<close>: the scripted client of the end-to-end tests, which reads environment variables and prints events.
  \<^item> \<^verbatim>\<open>selfcheck.c\<close>: assertions at start over the modelled cryptography.
  \<^item> \<^verbatim>\<open>audio_win.c\<close>, \<^verbatim>\<open>video_win.c\<close>, \<^verbatim>\<open>platform.h\<close>, \<^verbatim>\<open>platform_win.c\<close>: the counterparts on Windows of the device layers that are
    modelled for Linux.
  \<^item> \<^verbatim>\<open>log.c\<close>, \<^verbatim>\<open>main.c\<close>, the tests and the vendored KEM (a parameter with the correctness of encapsulation).
  \<^item> Preemption inside a critical section: the threads meet at the queues and at the rings, whose operations are
    atomic under their locks.
\<close>

end
